(* ===== verification/GC_Prelude.thy ===== *)
theory GC_Prelude
  imports Main "HOL-Library.Word" "HOL-Library.Multiset"
begin

text \<open>
  Shared vocabulary of the development: the machine types of the C++ code, the bytes of a
  \<open>std::string\<close>, the fixed-width byte encodings that both the canonical stream
  (big-endian, \<open>canonical.hpp\<close>) and the control-plane protocol (little-endian,
  \<open>protocol.cpp\<close>) are built from, and the generic facts about them.

  Conventions.
  \<^item> \<open>std::uint8_t\<close>, \<dots>, \<open>std::uint64_t\<close> are words of that width, so arithmetic wraps as in C++.
  \<^item> \<open>std::int64_t\<close> is the same 64-bit word (\<open>static_cast\<close> between the two is the identity
    on the bits); where its sign matters it is read with \<open>sint\<close>.
  \<^item> \<open>double\<close> and \<open>float\<close> are their IEEE-754 bit patterns, which is what \<open>std::memcpy\<close>
    moves; their comparison is \<open>f64_eq\<close> below, not equality of patterns.
  \<^item> \<open>std::string\<close> is a HOL string (a list of 8-bit characters).
\<close>

unbundle bit_operations_syntax

type_synonym u8 = "8 word"
type_synonym u16 = "16 word"
type_synonym u32 = "32 word"
type_synonym u64 = "64 word"
type_synonym i64 = "64 word"
type_synonym f64 = "64 word"
type_synonym f32 = "32 word"
type_synonym bytes = "u8 list"

named_theorems codec_simps \<open>reading back what a writer produced\<close>
named_theorems size_simps \<open>lengths of encodings\<close>

section \<open>Strings and bytes\<close>

definition bytes_of_string :: "string \<Rightarrow> bytes" where
  "bytes_of_string s = map (\<lambda>c. word_of_nat (of_char c)) s"

definition string_of_bytes :: "bytes \<Rightarrow> string" where
  "string_of_bytes bs = map (\<lambda>b. char_of (unat b)) bs"

lemma unat_u8_of_char [simp]: "unat (word_of_nat (of_char c) :: u8) = of_char c"
  by (simp add: unat_of_nat)

lemma string_of_bytes_of_string [simp, codec_simps]: "string_of_bytes (bytes_of_string s) = s"
  by (simp add: string_of_bytes_def bytes_of_string_def comp_def)

lemma unat_lt_ff: "unat (b :: u8) < 256"
  using unsigned_less [of b] by simp

lemma bytes_of_string_of_bytes [simp]: "bytes_of_string (string_of_bytes bs) = bs"
proof -
  have "word_of_nat (of_char (char_of (unat b) :: char)) = b" for b :: u8
    by (simp add: unat_lt_ff)
  then show ?thesis
    by (simp add: string_of_bytes_def bytes_of_string_def comp_def map_idI)
qed

lemma length_bytes_of_string [simp]: "length (bytes_of_string s) = length s"
  by (simp add: bytes_of_string_def)

lemma bytes_of_string_inject [simp]: "bytes_of_string s = bytes_of_string t \<longleftrightarrow> s = t"
  by (metis string_of_bytes_of_string)

section \<open>Fixed-width encodings\<close>

text \<open>
  \<open>be_bytes n v\<close> is the loop \<open>for (int i = n-1; i >= 0; --i) push((v >> (8*i)) & 0xff)\<close>,
  \<open>le_bytes n v\<close> the loop with the index running upwards. \<open>be_val\<close> accumulates
  \<open>v = (v << 8) | p[i]\<close>.
\<close>

definition be_bytes :: "nat \<Rightarrow> 'a::len word \<Rightarrow> bytes" where
  "be_bytes n v = map (\<lambda>i. ucast (drop_bit (8 * i) v AND 0xff)) (rev [0..<n])"

definition le_bytes :: "nat \<Rightarrow> 'a::len word \<Rightarrow> bytes" where
  "le_bytes n v = map (\<lambda>i. ucast (drop_bit (8 * i) v AND 0xff)) [0..<n]"

definition be_val :: "bytes \<Rightarrow> 'a::len word" where
  "be_val bs = foldl (\<lambda>v b. push_bit 8 v OR ucast b) 0 bs"

lemma length_be_bytes [simp, size_simps]: "length (be_bytes n v) = n"
  by (simp add: be_bytes_def)

lemma length_le_bytes [simp, size_simps]: "length (le_bytes n v) = n"
  by (simp add: le_bytes_def)

lemma le_bytes_rev: "le_bytes n v = rev (be_bytes n v)"
  by (simp add: le_bytes_def be_bytes_def rev_map)

lemma be_val_Nil [simp]: "be_val [] = 0"
  by (simp add: be_val_def)

lemma be_val_snoc [simp]: "be_val (bs @ [b]) = push_bit 8 (be_val bs) OR ucast b"
  by (simp add: be_val_def)

lemma bit_be_val:
  "bit (be_val bs :: 'a::len word) k \<longleftrightarrow>
     k < LENGTH('a) \<and> k < 8 * length bs \<and> bit (bs ! (length bs - 1 - k div 8)) (k mod 8)"
proof (induction bs arbitrary: k rule: rev_induct)
  case Nil
  then show ?case by simp
next
  case (snoc b bs)
  show ?case
  proof (cases "k < 8")
    case True
    then show ?thesis
      by (auto simp: bit_simps nth_append dest: bit_imp_le_length)
  next
    case False
    then obtain j where j: "k = j + 8"
      by (metis add.commute le_Suc_ex not_less)
    have idx: "length bs - 1 - j div 8 < length bs" if "j < 8 * length bs"
      using that by auto
    have b8: "\<not> bit b (j + 8)"
      by (auto dest: bit_imp_le_length)
    have "bit (be_val (bs @ [b]) :: 'a word) k \<longleftrightarrow> j + 8 < LENGTH('a) \<and> bit (be_val bs :: 'a word) j"
      by (auto simp: j bit_simps b8)
    also have "\<dots> \<longleftrightarrow> j + 8 < LENGTH('a) \<and> j < 8 * length bs
        \<and> bit (bs ! (length bs - 1 - j div 8)) (j mod 8)"
      by (auto simp: snoc.IH)
    also have "\<dots> \<longleftrightarrow> k < LENGTH('a) \<and> k < 8 * length (bs @ [b])
        \<and> bit ((bs @ [b]) ! (length (bs @ [b]) - 1 - k div 8)) (k mod 8)"
      using idx by (auto simp: j nth_append div_add_self2)
    finally show ?thesis .
  qed
qed

lemma nth_be_bytes:
  "i < n \<Longrightarrow> be_bytes n v ! i = ucast (drop_bit (8 * (n - 1 - i)) v AND 0xff)"
  by (simp add: be_bytes_def rev_nth)

lemma and_0xff: "(v :: 'a::len word) AND 0xff = take_bit 8 v"
  by (simp add: take_bit_eq_mask mask_eq_exp_minus_1)

lemma bit_nth_be_bytes:
  "i < n \<Longrightarrow> bit (be_bytes n (v :: 'a::len word) ! i) k \<longleftrightarrow> k < 8 \<and> bit v (8 * (n - 1 - i) + k)"
  using bit_imp_le_length [of v "8 * (n - 1 - i) + k"]
  by (auto simp: nth_be_bytes and_0xff bit_ucast_iff bit_drop_bit_eq bit_take_bit_iff)

text \<open>The two laws of a fixed-width field: decode after encode and encode after decode.\<close>

lemma be_val_be_bytes:
  assumes "LENGTH('a) = 8 * n"
  shows "be_val (be_bytes n (v :: 'a::len word)) = v"
proof (rule bit_word_eqI)
  fix k assume "k < LENGTH('a)"
  then show "bit (be_val (be_bytes n v) :: 'a word) k \<longleftrightarrow> bit v k"
    using assms by (auto simp: bit_be_val bit_nth_be_bytes)
qed

lemma be_bytes_be_val:
  assumes "LENGTH('a) = 8 * n" and "length bs = n"
  shows "be_bytes n (be_val bs :: 'a::len word) = bs"
proof (rule nth_equalityI)
  show "length (be_bytes n (be_val bs :: 'a word)) = length bs" using assms by simp
  fix i assume "i < length (be_bytes n (be_val bs :: 'a word))"
  then have i: "i < n" by simp
  show "be_bytes n (be_val bs :: 'a word) ! i = bs ! i"
  proof (rule bit_word_eqI)
    fix k assume k: "k < LENGTH(8)"
    have "8 * (n - 1 - i) + k < 8 * n" using i k by auto
    moreover have "n - 1 - (8 * (n - 1 - i) + k) div 8 = i" using i k by auto
    ultimately show "bit (be_bytes n (be_val bs :: 'a word) ! i) k \<longleftrightarrow> bit (bs ! i) k"
      using assms i k by (simp add: bit_nth_be_bytes bit_be_val)
  qed
qed

lemma be_val_u16 [simp, codec_simps]: "be_val (be_bytes 2 (v :: u16)) = v"
  by (rule be_val_be_bytes) simp

lemma be_val_u32 [simp, codec_simps]: "be_val (be_bytes 4 (v :: u32)) = v"
  by (rule be_val_be_bytes) simp

lemma be_val_u64 [simp, codec_simps]: "be_val (be_bytes 8 (v :: u64)) = v"
  by (rule be_val_be_bytes) simp

lemma be_bytes_u16 [simp]: "length bs = 2 \<Longrightarrow> be_bytes 2 (be_val bs :: u16) = bs"
  by (rule be_bytes_be_val) simp_all

lemma be_bytes_u32 [simp]: "length bs = 4 \<Longrightarrow> be_bytes 4 (be_val bs :: u32) = bs"
  by (rule be_bytes_be_val) simp_all

lemma be_bytes_u64 [simp]: "length bs = 8 \<Longrightarrow> be_bytes 8 (be_val bs :: u64) = bs"
  by (rule be_bytes_be_val) simp_all

text \<open>The loop \<open>v = 0; for (i < n) v |= data[off + i] << (8 * i)\<close>.\<close>

definition le_loop :: "nat \<Rightarrow> bytes \<Rightarrow> nat \<Rightarrow> 'a::len word" where
  "le_loop n data off = foldl (\<lambda>v i. v OR push_bit (8 * i) (ucast (data ! (off + i)))) 0 [0..<n]"

lemma bit_le_loop:
  "bit (le_loop n data off :: 'a::len word) k \<longleftrightarrow>
     k < LENGTH('a) \<and> k < 8 * n \<and> bit (data ! (off + k div 8)) (k mod 8)"
proof (induction n arbitrary: k)
  case 0
  then show ?case by (simp add: le_loop_def)
next
  case (Suc n)
  have step: "le_loop (Suc n) data off = (le_loop n data off OR push_bit (8 * n) (ucast (data ! (off + n))) :: 'a word)"
    by (simp add: le_loop_def)
  show ?case
  proof (cases "k < 8 * n")
    case True
    then show ?thesis using Suc by (simp add: step bit_simps)
  next
    case False
    then obtain j where j: "k = 8 * n + j" using le_Suc_ex not_less by blast
    have "bit (data ! (off + n)) j \<Longrightarrow> j < 8" by (auto dest: bit_imp_le_length)
    with j False show ?thesis
      using Suc [of k] by (cases "j < 8") (auto simp: step bit_simps div_mult_self4)
  qed
qed

lemma bit_nth_le_bytes:
  "i < n \<Longrightarrow> bit (le_bytes n (v :: 'a::len word) ! i) k \<longleftrightarrow> k < 8 \<and> bit v (8 * i + k)"
  by (auto simp: le_bytes_rev rev_nth bit_nth_be_bytes)

lemma le_loop_eq:
  fixes v :: "'a::len word"
  assumes n: "LENGTH('a) = 8 * n" and l: "off + n \<le> length data"
  shows "le_loop n data off = v \<longleftrightarrow> take n (drop off data) = le_bytes n v"
proof
  assume eq: "le_loop n data off = v"
  show "take n (drop off data) = le_bytes n v"
  proof (rule nth_equalityI)
    fix i assume "i < length (take n (drop off data))"
    then have i: "i < n" using l by simp
    show "take n (drop off data) ! i = le_bytes n v ! i"
    proof (rule bit_eqI)
      fix k
      have "bit (data ! (off + i)) k \<Longrightarrow> k < 8" by (auto dest: bit_imp_le_length)
      then show "bit (take n (drop off data) ! i) k \<longleftrightarrow> bit (le_bytes n v ! i) k"
        using i l n by (auto simp: bit_nth_le_bytes eq [symmetric] bit_le_loop)
    qed
  qed (use l in simp)
next
  assume eq: "take n (drop off data) = le_bytes n v"
  show "le_loop n data off = v"
  proof (rule bit_word_eqI)
    fix k assume "k < LENGTH('a)"
    then have k: "k < 8 * n" "k div 8 < n" using n by auto
    have "data ! (off + k div 8) = le_bytes n v ! (k div 8)"
      using eq k l by (metis add_leD1 nth_drop nth_take)
    then show "bit (le_loop n data off :: 'a word) k \<longleftrightarrow> bit v k"
      using k n by (simp add: bit_le_loop bit_nth_le_bytes)
  qed
qed

lemma drop_split: "drop i xs = take k (drop i xs) @ drop (i + k) xs"
  by (metis append_take_drop_id drop_drop add.commute)

section \<open>Doubles as bit patterns\<close>

text \<open>
  IEEE-754 binary64: a sign bit, 11 exponent bits, 52 fraction bits. \<open>==\<close> on doubles is false
  when an operand is a NaN, and identifies the two zeros.
\<close>

definition f64_is_nan :: "f64 \<Rightarrow> bool" where
  "f64_is_nan x \<longleftrightarrow> x AND 0x7FF0000000000000 = 0x7FF0000000000000 \<and> x AND 0x000FFFFFFFFFFFFF \<noteq> 0"

definition f64_is_zero :: "f64 \<Rightarrow> bool" where
  "f64_is_zero x \<longleftrightarrow> x AND 0x7FFFFFFFFFFFFFFF = 0"

definition f64_eq :: "f64 \<Rightarrow> f64 \<Rightarrow> bool" where
  "f64_eq x y \<longleftrightarrow> \<not> f64_is_nan x \<and> \<not> f64_is_nan y \<and> (x = y \<or> f64_is_zero x \<and> f64_is_zero y)"

lemma f64_eq_refl_iff: "f64_eq x x \<longleftrightarrow> \<not> f64_is_nan x"
  by (simp add: f64_eq_def)

section \<open>Decimal and hexadecimal printing\<close>

text \<open>\<open>std::to_string\<close> of an unsigned integer.\<close>

definition digit_char :: "nat \<Rightarrow> char" where
  "digit_char d = (if d < 10 then char_of (48 + d) else char_of (87 + d))"

fun dec_string :: "nat \<Rightarrow> string" where
  "dec_string n = (if n < 10 then [digit_char n] else dec_string (n div 10) @ [digit_char (n mod 10)])"

declare dec_string.simps [simp del]

text \<open>
  \<open>%016llx\<close>: sixteen lower-case hexadecimal digits, most significant first; and the
  accumulation \<open>v = (v << 4) | d\<close> that reads them back.
\<close>

definition nibbles :: "nat \<Rightarrow> u64 \<Rightarrow> u64 list" where
  "nibbles n v = map (\<lambda>i. drop_bit (4 * i) v AND 0xf) (rev [0..<n])"

definition nibbles_val :: "u64 list \<Rightarrow> u64" where
  "nibbles_val ds = foldl (\<lambda>v d. push_bit 4 v OR d) 0 ds"

definition hex16 :: "u64 \<Rightarrow> string" where
  "hex16 v = map (\<lambda>d. digit_char (unat d)) (nibbles 16 v)"

lemma length_nibbles [simp]: "length (nibbles n v) = n"
  by (simp add: nibbles_def)

lemma length_hex16 [simp]: "length (hex16 v) = 16"
  by (simp add: hex16_def)

lemma and_0xf: "(v :: 'a::len word) AND 0xf = take_bit 4 v"
  by (simp add: take_bit_eq_mask mask_eq_exp_minus_1)

lemma take_bit_split:
  "push_bit n (take_bit m (drop_bit n v)) OR take_bit n v = take_bit (n + m) (v :: 'a::len word)"
  by (rule bit_word_eqI) (auto simp: bit_simps)

lemma foldl_nibbles:
  "foldl (\<lambda>v d. push_bit 4 v OR d) a (nibbles n v) = push_bit (4 * n) a OR take_bit (4 * n) v"
proof (induction n arbitrary: a)
  case 0
  then show ?case by (simp add: nibbles_def)
next
  case (Suc n)
  have "nibbles (Suc n) v = take_bit 4 (drop_bit (4 * n) v) # nibbles n v"
    by (simp add: nibbles_def and_0xf)
  then have "foldl (\<lambda>v d. push_bit 4 v OR d) a (nibbles (Suc n) v)
      = push_bit (4 * n) (push_bit 4 a OR take_bit 4 (drop_bit (4 * n) v)) OR take_bit (4 * n) v"
    by (simp add: Suc.IH)
  also have "\<dots> = push_bit (4 * n + 4) a
      OR (push_bit (4 * n) (take_bit 4 (drop_bit (4 * n) v)) OR take_bit (4 * n) v)"
    by (simp add: push_bit_or ac_simps)
  also have "\<dots> = push_bit (4 * n + 4) a OR take_bit (4 * n + 4) v"
    by (simp only: take_bit_split)
  finally show ?case by (simp add: ac_simps)
qed

lemma nibbles_val_nibbles [simp]: "nibbles_val (nibbles 16 v) = v"
proof -
  have "nibbles_val (nibbles 16 v) = take_bit 64 v"
    by (simp add: nibbles_val_def foldl_nibbles)
  also have "\<dots> = v" by (rule bit_word_eqI) (simp add: bit_take_bit_iff)
  finally show ?thesis .
qed

lemma nibbles_less: "d \<in> set (nibbles n v) \<Longrightarrow> unat d < 16"
proof -
  assume "d \<in> set (nibbles n v)"
  then obtain w where "d = take_bit 4 w" by (auto simp: nibbles_def and_0xf)
  then show ?thesis by (simp add: unsigned_take_bit_eq take_bit_nat_less_exp [of 4, simplified])
qed

lemma digit_char_inj: "a < 16 \<Longrightarrow> b < 16 \<Longrightarrow> digit_char a = digit_char b \<Longrightarrow> a = b"
proof -
  assume ab: "a < 16" "b < 16" and eq: "digit_char a = digit_char b"
  have dc: "of_char (digit_char n) = (if n < 10 then 48 + n else 87 + n)" if "n < 16" for n :: nat
    using that by (simp add: digit_char_def)
  have "(if a < 10 then 48 + a else 87 + a) = (if b < 10 then 48 + b else 87 + b)"
    using dc [OF ab(1)] dc [OF ab(2)] by (simp only: eq)
  with ab show ?thesis by (simp split: if_splits)
qed

lemma nibbles_inj: "nibbles 16 v = nibbles 16 w \<Longrightarrow> v = w"
  by (metis nibbles_val_nibbles)

lemma hex16_inj: "hex16 v = hex16 w \<Longrightarrow> v = w"
proof -
  assume h: "hex16 v = hex16 w"
  have "inj_on (\<lambda>d. digit_char (unat d)) (set (nibbles 16 v) \<union> set (nibbles 16 w))"
  proof (rule inj_onI)
    fix x y assume "x \<in> set (nibbles 16 v) \<union> set (nibbles 16 w)"
      and "y \<in> set (nibbles 16 v) \<union> set (nibbles 16 w)"
      and "digit_char (unat x) = digit_char (unat y)"
    then have "unat x = unat y" by (blast intro: digit_char_inj nibbles_less)
    then show "x = y" by (rule unsigned_word_eqI)
  qed
  with h have "nibbles 16 v = nibbles 16 w"
    unfolding hex16_def by (rule map_inj_on)
  then show ?thesis by (rule nibbles_inj)
qed

end
