(* ===== verification/GC_Sha256.thy ===== *)
theory GC_Sha256
  imports GC_Prelude "HOL-Library.While_Combinator"
begin

text \<open>
  The streaming SHA-256 of \<open>include/graphcache/sha256.hpp\<close>. The object keeps the eight chaining
  words, the filled prefix of its 64-byte buffer (\<open>cur_len_\<close> is its length; the bytes behind it are
  never read) and the total length as a wrapping \<open>uint64_t\<close>. \<open>update\<close> and the padding loop of
  \<open>final\<close> are the code's loops; the specification they are compared with is the one-shot
  definition of FIPS 180-4 on the padded message.
\<close>

section \<open>The compression function\<close>

definition rotr :: "u32 \<Rightarrow> nat \<Rightarrow> u32" where
  "rotr x n = drop_bit n x OR push_bit (32 - n) x"

definition sha_k :: "u32 list" where
  "sha_k = concat [
      [0x428a2f98, 0x71374491, 0xb5c0fbcf, 0xe9b5dba5, 0x3956c25b],
      [0x59f111f1, 0x923f82a4, 0xab1c5ed5, 0xd807aa98, 0x12835b01],
      [0x243185be, 0x550c7dc3, 0x72be5d74, 0x80deb1fe, 0x9bdc06a7],
      [0xc19bf174, 0xe49b69c1, 0xefbe4786, 0x0fc19dc6, 0x240ca1cc],
      [0x2de92c6f, 0x4a7484aa, 0x5cb0a9dc, 0x76f988da, 0x983e5152],
      [0xa831c66d, 0xb00327c8, 0xbf597fc7, 0xc6e00bf3, 0xd5a79147],
      [0x06ca6351, 0x14292967, 0x27b70a85, 0x2e1b2138, 0x4d2c6dfc],
      [0x53380d13, 0x650a7354, 0x766a0abb, 0x81c2c92e, 0x92722c85],
      [0xa2bfe8a1, 0xa81a664b, 0xc24b8b70, 0xc76c51a3, 0xd192e819],
      [0xd6990624, 0xf40e3585, 0x106aa070, 0x19a4c116, 0x1e376c08],
      [0x2748774c, 0x34b0bcb5, 0x391c0cb3, 0x4ed8aa4a, 0x5b9cca4f],
      [0x682e6ff3, 0x748f82ee, 0x78a5636f, 0x84c87814, 0x8cc70208],
      [0x90befffa, 0xa4506ceb, 0xbef9a3f7, 0xc67178f2]]"

text \<open>The first sixteen schedule words are the block read big-endian.\<close>

definition block_word :: "bytes \<Rightarrow> nat \<Rightarrow> u32" where
  "block_word block i = push_bit 24 (ucast (block ! (i * 4))) OR push_bit 16 (ucast (block ! (i * 4 + 1)))
     OR push_bit 8 (ucast (block ! (i * 4 + 2))) OR ucast (block ! (i * 4 + 3))"

definition extend_schedule :: "u32 list \<Rightarrow> nat \<Rightarrow> u32 list" where
  "extend_schedule w i =
     (let a = w ! (i - 15); b = w ! (i - 2);
          s0 = rotr a 7 XOR rotr a 18 XOR drop_bit 3 a;
          s1 = rotr b 17 XOR rotr b 19 XOR drop_bit 10 b
      in w @ [w ! (i - 16) + s0 + w ! (i - 7) + s1])"

definition schedule :: "bytes \<Rightarrow> u32 list" where
  "schedule block = foldl extend_schedule (map (block_word block) [0..<16]) [16..<64]"

type_synonym working = "u32 \<times> u32 \<times> u32 \<times> u32 \<times> u32 \<times> u32 \<times> u32 \<times> u32"

fun sha_round :: "working \<Rightarrow> u32 \<times> u32 \<Rightarrow> working" where
  "sha_round (a, b, c, d, e, f, g, h) (k, w) =
     (let S1 = rotr e 6 XOR rotr e 11 XOR rotr e 25;
          ch = (e AND f) XOR (NOT e AND g);
          temp1 = h + S1 + ch + k + w;
          S0 = rotr a 2 XOR rotr a 13 XOR rotr a 22;
          maj = (a AND b) XOR (a AND c) XOR (b AND c);
          temp2 = S0 + maj
      in (temp1 + temp2, a, b, c, d + temp1, e, f, g))"

fun process_block :: "working \<Rightarrow> bytes \<Rightarrow> working" where
  "process_block (s0, s1, s2, s3, s4, s5, s6, s7) block =
     (let (a, b, c, d, e, f, g, h) =
        foldl sha_round (s0, s1, s2, s3, s4, s5, s6, s7) (zip sha_k (schedule block))
      in (s0 + a, s1 + b, s2 + c, s3 + d, s4 + e, s5 + f, s6 + g, s7 + h))"

section \<open>The streaming object\<close>

record Sha256 =
  sha_state :: working
  sha_buffer :: bytes
  sha_total_len :: u64

definition sha_init :: working where
  "sha_init = (0x6a09e667, 0xbb67ae85, 0x3c6ef372, 0xa54ff53a, 0x510e527f, 0x9b05688c, 0x1f83d9ab, 0x5be0cd19)"

definition sha_reset :: Sha256 where
  "sha_reset = \<lparr>sha_state = sha_init, sha_buffer = [], sha_total_len = 0\<rparr>"

abbreviation sha_cur_len :: "Sha256 \<Rightarrow> nat" where
  "sha_cur_len h \<equiv> length (sha_buffer h)"

text \<open>
  One pass of the loop of \<open>update\<close>: \<open>take = 64u - cur_len_\<close>, capped at the remaining length. The
  subtraction is unsigned, so it would wrap to a value above every length if the buffer were
  overfull.
\<close>

definition sha_take :: "Sha256 \<Rightarrow> bytes \<Rightarrow> nat" where
  "sha_take h data = (if sha_cur_len h \<le> 64 then min (64 - sha_cur_len h) (length data) else length data)"

definition sha_fill :: "Sha256 \<Rightarrow> bytes \<Rightarrow> Sha256" where
  "sha_fill h chunk =
     (let buf = sha_buffer h @ chunk
      in if length buf = 64 then h\<lparr>sha_state := process_block (sha_state h) buf, sha_buffer := []\<rparr>
         else h\<lparr>sha_buffer := buf\<rparr>)"

function sha_update_loop :: "Sha256 \<Rightarrow> bytes \<Rightarrow> Sha256" where
  "sha_update_loop h data =
     (if data = [] then h
      else sha_update_loop (sha_fill h (take (sha_take h data) data)) (drop (sha_take h data) data))"
  by pat_completeness auto
termination
  by (relation "measures [\<lambda>(h, data). length data, \<lambda>(h, data). sha_cur_len h]")
    (auto simp: sha_take_def sha_fill_def Let_def)

declare sha_update_loop.simps [simp del]

definition sha_update :: "Sha256 \<Rightarrow> bytes \<Rightarrow> Sha256" where
  "sha_update h data = sha_update_loop (h\<lparr>sha_total_len := sha_total_len h + word_of_nat (length data)\<rparr>) data"

definition sha_pad_zeros :: "Sha256 \<Rightarrow> Sha256" where
  "sha_pad_zeros h = while (\<lambda>h. sha_cur_len h \<noteq> 56) (\<lambda>h. sha_update h [0]) h"

fun digest_bytes :: "working \<Rightarrow> bytes" where
  "digest_bytes (s0, s1, s2, s3, s4, s5, s6, s7) = concat (map (be_bytes 4) [s0, s1, s2, s3, s4, s5, s6, s7])"

definition sha_final :: "Sha256 \<Rightarrow> bytes" where
  "sha_final h =
     (let bit_len = sha_total_len h * 8;
          h1 = sha_update h [0x80];
          h2 = sha_pad_zeros h1;
          h3 = sha_update h2 (be_bytes 8 bit_len)
      in digest_bytes (sha_state h3))"

definition sha_compute :: "bytes \<Rightarrow> bytes" where
  "sha_compute data = sha_final (sha_update sha_reset data)"

definition sha_hex :: "bytes \<Rightarrow> string" where
  "sha_hex d = concat (map (\<lambda>b. [digit_char (unat (drop_bit 4 b AND 0xf)), digit_char (unat (b AND 0xf))]) d)"

section \<open>The specification: FIPS 180-4 on the padded message\<close>

fun blocks :: "working \<Rightarrow> bytes \<Rightarrow> working" where
  "blocks s data = (if length data < 64 then s else blocks (process_block s (take 64 data)) (drop 64 data))"

declare blocks.simps [simp del]

definition sha_padding :: "nat \<Rightarrow> bytes" where
  "sha_padding n = 0x80 # replicate ((119 - n mod 64) mod 64) 0 @ be_bytes 8 (word_of_nat (8 * n) :: u64)"

definition sha256_spec :: "bytes \<Rightarrow> bytes" where
  "sha256_spec msg = digest_bytes (blocks sha_init (msg @ sha_padding (length msg)))"

section \<open>Blocks and the unfinished tail\<close>

definition tail64 :: "bytes \<Rightarrow> bytes" where
  "tail64 xs = drop (64 * (length xs div 64)) xs"

lemma length_tail64 [simp]: "length (tail64 xs) = length xs mod 64"
  by (simp add: tail64_def minus_mult_div_eq_mod)

lemma tail64_short [simp]: "length xs < 64 \<Longrightarrow> tail64 xs = xs"
  by (simp add: tail64_def)

lemma tail64_step: "64 \<le> length xs \<Longrightarrow> tail64 xs = tail64 (drop 64 xs)"
  by (simp add: tail64_def le_div_geq algebra_simps)

lemma blocks_short [simp]: "length xs < 64 \<Longrightarrow> blocks s xs = s"
  by (simp add: blocks.simps)

lemma blocks_step: "64 \<le> length xs \<Longrightarrow> blocks s xs = blocks (process_block s (take 64 xs)) (drop 64 xs)"
  by (simp add: blocks.simps [of s xs])

lemma blocks_append: "blocks s (xs @ ys) = blocks (blocks s xs) (tail64 xs @ ys)"
proof (induction s xs rule: blocks.induct)
  case (1 s xs)
  show ?case
  proof (cases "length xs < 64")
    case True
    then show ?thesis by simp
  next
    case False
    with 1 show ?thesis
      by (simp add: blocks_step [of xs] blocks_step [of "xs @ ys"] tail64_step [of xs] not_less)
  qed
qed

lemma tail64_append: "tail64 (xs @ ys) = tail64 (tail64 xs @ ys)"
proof (induction xs rule: length_induct)
  case (1 xs)
  show ?case
  proof (cases "length xs < 64")
    case True
    then show ?thesis by simp
  next
    case False
    then have "length (drop 64 xs) < length xs" by simp
    then have "tail64 (drop 64 xs @ ys) = tail64 (tail64 (drop 64 xs) @ ys)"
      using 1 by blast
    with False show ?thesis
      by (simp add: tail64_step [of "xs @ ys"] tail64_step [of xs] not_less)
  qed
qed

section \<open>The streaming object computes the specification\<close>

text \<open>A buffer is never left full: \<open>cur_len_ < 64\<close> between calls.\<close>

definition sha_inv :: "Sha256 \<Rightarrow> bool" where
  "sha_inv h \<longleftrightarrow> sha_cur_len h < 64"

lemma sha_update_loop_eq:
  "sha_inv h \<Longrightarrow> sha_update_loop h data =
     h\<lparr>sha_state := blocks (sha_state h) (sha_buffer h @ data), sha_buffer := tail64 (sha_buffer h @ data)\<rparr>"
proof (induction h data rule: sha_update_loop.induct)
  case (1 h data)
  let ?n = "sha_take h data"
  let ?h' = "sha_fill h (take ?n data)"
  have n: "?n = min (64 - sha_cur_len h) (length data)"
    using "1.prems" by (simp add: sha_take_def sha_inv_def)
  have inv': "sha_inv ?h'"
    using "1.prems" n by (auto simp: sha_inv_def sha_fill_def Let_def)
  have all: "sha_buffer h @ data = (sha_buffer h @ take ?n data) @ drop ?n data" by simp
  have st: "blocks (sha_state ?h') (sha_buffer ?h' @ drop ?n data) = blocks (sha_state h) (sha_buffer h @ data)"
    and bf: "tail64 (sha_buffer ?h' @ drop ?n data) = tail64 (sha_buffer h @ data)"
    using "1.prems" n
    by (auto simp: sha_fill_def Let_def blocks_step [of "sha_buffer h @ data"]
        tail64_step [of "sha_buffer h @ data"] sha_inv_def simp flip: append_assoc)
  show ?case
  proof (cases "data = []")
    case True
    with "1.prems" show ?thesis by (simp add: sha_update_loop.simps [of h "[]"] sha_inv_def)
  next
    case False
    have tot: "?h'\<lparr>sha_state := a, sha_buffer := b\<rparr> = h\<lparr>sha_state := a, sha_buffer := b\<rparr>" for a b
      by (simp add: sha_fill_def Let_def)
    have "sha_update_loop h data = sha_update_loop ?h' (drop ?n data)"
      using False by (simp add: sha_update_loop.simps [of h data])
    also have "\<dots> = ?h'\<lparr>sha_state := blocks (sha_state h) (sha_buffer h @ data), sha_buffer := tail64 (sha_buffer h @ data)\<rparr>"
      using "1.IH" [OF False inv'] by (simp only: st bf)
    finally show ?thesis by (simp only: tot)
  qed
qed

lemma sha_update_eq:
  "sha_inv h \<Longrightarrow> sha_update h data =
     \<lparr>sha_state = blocks (sha_state h) (sha_buffer h @ data), sha_buffer = tail64 (sha_buffer h @ data),
      sha_total_len = sha_total_len h + word_of_nat (length data)\<rparr>"
  by (simp add: sha_update_def sha_update_loop_eq sha_inv_def)

lemma sha_inv_update: "sha_inv h \<Longrightarrow> sha_inv (sha_update h data)"
  by (simp add: sha_update_eq) (simp add: sha_inv_def)

lemma sha_inv_reset: "sha_inv sha_reset"
  by (simp add: sha_inv_def sha_reset_def)

lemma sha_update_append:
  assumes "sha_inv h"
  shows "sha_update (sha_update h xs) ys = sha_update h (xs @ ys)"
proof -
  have "sha_update (sha_update h xs) ys =
     \<lparr>sha_state = blocks (blocks (sha_state h) (sha_buffer h @ xs)) (tail64 (sha_buffer h @ xs) @ ys),
      sha_buffer = tail64 (tail64 (sha_buffer h @ xs) @ ys),
      sha_total_len = sha_total_len h + word_of_nat (length xs) + word_of_nat (length ys)\<rparr>"
    unfolding sha_update_eq [OF sha_inv_update [OF assms]] by (simp add: sha_update_eq assms)
  then show ?thesis
    using blocks_append [of "sha_state h" "sha_buffer h @ xs" ys] tail64_append [of "sha_buffer h @ xs" ys]
    by (simp add: sha_update_eq assms)
qed

lemma sha_cur_len_update: "sha_inv h \<Longrightarrow> sha_cur_len (sha_update h xs) = (sha_cur_len h + length xs) mod 64"
  by (simp add: sha_update_eq)

text \<open>
  The padding loop terminates from every state with a non-full buffer, and adds exactly the zeros
  that bring the buffer to 56 bytes.
\<close>

lemma sha_pad_zeros_eq:
  "sha_inv h \<Longrightarrow> (sha_cur_len h + n) mod 64 = 56 \<Longrightarrow> n < 64 \<Longrightarrow> sha_pad_zeros h = sha_update h (replicate n 0)"
proof (induction n arbitrary: h)
  case 0
  then have "sha_cur_len h = 56" by (simp add: sha_inv_def)
  with 0 show ?case
    by (simp add: sha_pad_zeros_def while_unfold [of _ _ h] sha_update_def sha_update_loop.simps)
next
  case (Suc n)
  have ne: "sha_cur_len h \<noteq> 56"
  proof
    assume "sha_cur_len h = 56"
    with Suc.prems have "(56 + Suc n) mod 64 = 56" "Suc n < 64" by simp_all
    then show False by presburger
  qed
  have inv: "sha_inv (sha_update h [0])" by (rule sha_inv_update) (rule Suc.prems)
  have "(sha_cur_len (sha_update h [0]) + n) mod 64 = 56"
    using Suc.prems by (simp add: sha_cur_len_update mod_simps)
  then have "sha_pad_zeros (sha_update h [0]) = sha_update (sha_update h [0]) (replicate n 0)"
    using inv Suc.prems by (intro Suc.IH) auto
  moreover have "sha_pad_zeros h = sha_pad_zeros (sha_update h [0])"
    using ne by (simp add: sha_pad_zeros_def while_unfold [of _ _ h])
  ultimately show ?case
    using Suc.prems by (simp add: sha_update_append)
qed

section \<open>The interface its clients rely on\<close>

text \<open>
  \<open>derive_graph_id\<close> and the CPU replay feed a digest piece by piece. What they rely on: feeding
  pieces one after the other is feeding their concatenation.
\<close>

locale streaming_digest =
  fixes init :: 'h and upd :: "'h \<Rightarrow> 'b list \<Rightarrow> 'h" and invar :: "'h \<Rightarrow> bool"
  assumes invar_init: "invar init"
    and invar_upd: "invar h \<Longrightarrow> invar (upd h xs)"
    and upd_Nil: "invar h \<Longrightarrow> upd h [] = h"
    and upd_append: "invar h \<Longrightarrow> upd (upd h xs) ys = upd h (xs @ ys)"
begin

lemma upd_pieces: "invar h \<Longrightarrow> foldl upd h pieces = upd h (concat pieces)"
proof (induction pieces arbitrary: h)
  case Nil
  then show ?case by (simp add: upd_Nil)
next
  case (Cons p pieces)
  then show ?case by (simp add: invar_upd upd_append)
qed

lemma init_pieces: "foldl upd init pieces = upd init (concat pieces)"
  by (rule upd_pieces) (rule invar_init)

end

interpretation sha: streaming_digest sha_reset sha_update sha_inv
proof unfold_locales
  show "sha_inv sha_reset" by (rule sha_inv_reset)
  show "sha_inv h \<Longrightarrow> sha_inv (sha_update h xs)" for h xs by (rule sha_inv_update)
  show "sha_inv h \<Longrightarrow> sha_update h [] = h" for h
    by (simp add: sha_update_def sha_update_loop.simps)
  show "sha_inv h \<Longrightarrow> sha_update (sha_update h xs) ys = sha_update h (xs @ ys)" for h xs ys
    by (rule sha_update_append)
qed

lemma length_digest_bytes [simp]: "length (digest_bytes s) = 32"
  by (cases s rule: digest_bytes.cases) simp

lemma length_sha_compute [simp, size_simps]: "length (sha_compute data) = 32"
  by (simp add: sha_compute_def sha_final_def Let_def)

lemma length_sha_hex: "length (sha_hex d) = 2 * length d"
  by (induction d) (simp_all add: sha_hex_def)

lemma sha_padding_zeros: "(n + 1 + (119 - n mod 64) mod 64) mod 64 = (56 :: nat)"
proof -
  have "n mod 64 < 64" by simp
  moreover have "(n + 1 + (119 - n mod 64) mod 64) mod 64 = (n mod 64 + 1 + (119 - n mod 64)) mod 64"
    by (metis add.commute mod_add_left_eq mod_add_right_eq)
  moreover have "a < 64 \<Longrightarrow> (a + 1 + (119 - a)) mod 64 = 56" for a :: nat by simp
  ultimately show ?thesis by metis
qed

lemma sha_final_eq:
  assumes "sha_inv h"
  shows "sha_final h = digest_bytes (sha_state (sha_update h
     (0x80 # replicate ((119 - sha_cur_len h) mod 64) 0 @ be_bytes 8 (sha_total_len h * 8))))"
proof -
  let ?z = "(119 - sha_cur_len h) mod 64"
  have inv1: "sha_inv (sha_update h [0x80])" by (rule sha_inv_update) (rule assms)
  have "sha_cur_len h mod 64 = sha_cur_len h" using assms by (simp add: sha_inv_def)
  then have "(sha_cur_len (sha_update h [0x80]) + ?z) mod 64 = 56"
    using sha_padding_zeros [of "sha_cur_len h"]
    by (simp add: sha_cur_len_update assms) (metis add_Suc mod_add_left_eq)
  then have "sha_pad_zeros (sha_update h [0x80]) = sha_update (sha_update h [0x80]) (replicate ?z 0)"
    using inv1 by (intro sha_pad_zeros_eq) auto
  then show ?thesis
    by (simp add: sha_final_def Let_def sha_update_append sha_inv_update assms)
qed

lemma sha_compute_spec: "sha_compute msg = sha256_spec msg"
proof -
  let ?h = "sha_update sha_reset msg"
  have h: "?h = \<lparr>sha_state = blocks sha_init msg, sha_buffer = tail64 msg, sha_total_len = word_of_nat (length msg)\<rparr>"
    by (simp add: sha_update_eq sha_inv_reset) (simp add: sha_reset_def)
  have bits: "sha_total_len ?h * 8 = word_of_nat (8 * length msg)"
    by (simp add: h)
  have "sha_compute msg = digest_bytes (sha_state (sha_update ?h (sha_padding (length msg))))"
    using sha_final_eq [OF sha_inv_update [OF sha_inv_reset], of msg]
    by (simp add: sha_compute_def sha_padding_def bits) (simp add: h)
  also have "sha_update ?h (sha_padding (length msg)) = sha_update sha_reset (msg @ sha_padding (length msg))"
    by (rule sha_update_append) (rule sha_inv_reset)
  finally show ?thesis
    by (simp add: sha256_spec_def sha_update_eq sha_inv_reset) (simp add: sha_reset_def)
qed

text \<open>
  C37: \<open>Sha256::compute\<close>, which feeds the message through the 64-byte buffer, pads it with a loop and
  finalises, returns what padding the whole message at once and folding the compression function over its
  64-byte blocks gives, for messages of every length; in particular the padding loop terminates. The
  compression function and its constants are those of the code on both sides.
\<close>

theorem sha_compute_correct: "sha_compute msg = sha256_spec msg"
  by (rule sha_compute_spec)

end
