(* ===== verification/GC_Result.thy ===== *)
theory GC_Result
  imports GC_Prelude
begin

text \<open>
  Structured results: \<open>include/graphcache/result.hpp\<close> and \<open>src/result.cpp\<close>. A \<open>Result<T>\<close> is the sum
  of an \<open>Error\<close> (left) and a value (right); \<open>Result<void>\<close> carries the unit value, and its default
  error is observable only through \<open>error()\<close> on a success, which no caller reads. \<open>value()\<close> on an error
  throws \<open>std::bad_variant_access\<close>; the model answers \<open>None\<close> there.
\<close>

datatype ErrorCode = EC_Ok | EC_InvalidArgument | EC_OperationNotSupported | EC_BackendUnavailable
     | EC_DeviceUnavailable | EC_OutOfMemory | EC_NoSuchGraph | EC_NoSuchArtifact
     | EC_LookupMiss | EC_CaptureInProgress | EC_DuplicateCapture | EC_CaptureFailed
     | EC_ValidationFailed | EC_IllegalTransition | EC_MissingCapture | EC_NotResident
     | EC_ResidencyPressure | EC_EvictionImpossible | EC_PersistenceIoError
     | EC_PersistenceCorrupt | EC_PersistenceTruncated | EC_PersistenceUnknownVersion
     | EC_PersistenceTrailingGarbage | EC_PersistenceChecksumMismatch | EC_PersistenceNotFound
     | EC_RecoveryIncomplete | EC_ProtocolIoError | EC_ProtocolMalformed
     | EC_ProtocolUnknownVersion | EC_ProtocolUnknownMessage | EC_ProtocolOverflow
     | EC_ProtocolTruncated | EC_ProtocolZeroLength | EC_GenerationMismatch | EC_StaleAuthority
     | EC_StaleEpoch | EC_StaleWorkerBoot | EC_StaleCacheGeneration | EC_StaleGraphGeneration
     | EC_StaleCaptureAttempt | EC_StaleReplayAttempt | EC_StaleValidation | EC_StaleLoad
     | EC_StaleCompletion | EC_LeaseAlreadyHeld | EC_LeaseUnderflow | EC_LeaseNotHeld
     | EC_Invalidated | EC_DependencyInvalid | EC_NamespaceNotFound | EC_QuotaExceeded
     | EC_TopologyInvalid | EC_TopologyDanglingEdge | EC_TopologySelfCycle | EC_TopologyCycle
     | EC_TopologyDuplicateNode | EC_TopologyDuplicateEdge | EC_TopologyDuplicateId
     | EC_Contradictory | EC_ImmutableViolation | EC_IndexInconsistent
     | EC_ConcurrentModification | EC_Internal | EC_Unknown

primrec ErrorCode_to_string :: "ErrorCode \<Rightarrow> string" where
  "ErrorCode_to_string EC_Ok = ''Ok''"
| "ErrorCode_to_string EC_InvalidArgument = ''InvalidArgument''"
| "ErrorCode_to_string EC_OperationNotSupported = ''OperationNotSupported''"
| "ErrorCode_to_string EC_BackendUnavailable = ''BackendUnavailable''"
| "ErrorCode_to_string EC_DeviceUnavailable = ''DeviceUnavailable''"
| "ErrorCode_to_string EC_OutOfMemory = ''OutOfMemory''"
| "ErrorCode_to_string EC_NoSuchGraph = ''NoSuchGraph''"
| "ErrorCode_to_string EC_NoSuchArtifact = ''NoSuchArtifact''"
| "ErrorCode_to_string EC_LookupMiss = ''LookupMiss''"
| "ErrorCode_to_string EC_CaptureInProgress = ''CaptureInProgress''"
| "ErrorCode_to_string EC_DuplicateCapture = ''DuplicateCapture''"
| "ErrorCode_to_string EC_CaptureFailed = ''CaptureFailed''"
| "ErrorCode_to_string EC_ValidationFailed = ''ValidationFailed''"
| "ErrorCode_to_string EC_IllegalTransition = ''IllegalTransition''"
| "ErrorCode_to_string EC_MissingCapture = ''MissingCapture''"
| "ErrorCode_to_string EC_NotResident = ''NotResident''"
| "ErrorCode_to_string EC_ResidencyPressure = ''ResidencyPressure''"
| "ErrorCode_to_string EC_EvictionImpossible = ''EvictionImpossible''"
| "ErrorCode_to_string EC_PersistenceIoError = ''PersistenceIoError''"
| "ErrorCode_to_string EC_PersistenceCorrupt = ''PersistenceCorrupt''"
| "ErrorCode_to_string EC_PersistenceTruncated = ''PersistenceTruncated''"
| "ErrorCode_to_string EC_PersistenceUnknownVersion = ''PersistenceUnknownVersion''"
| "ErrorCode_to_string EC_PersistenceTrailingGarbage = ''PersistenceTrailingGarbage''"
| "ErrorCode_to_string EC_PersistenceChecksumMismatch = ''PersistenceChecksumMismatch''"
| "ErrorCode_to_string EC_PersistenceNotFound = ''PersistenceNotFound''"
| "ErrorCode_to_string EC_RecoveryIncomplete = ''RecoveryIncomplete''"
| "ErrorCode_to_string EC_ProtocolIoError = ''ProtocolIoError''"
| "ErrorCode_to_string EC_ProtocolMalformed = ''ProtocolMalformed''"
| "ErrorCode_to_string EC_ProtocolUnknownVersion = ''ProtocolUnknownVersion''"
| "ErrorCode_to_string EC_ProtocolUnknownMessage = ''ProtocolUnknownMessage''"
| "ErrorCode_to_string EC_ProtocolOverflow = ''ProtocolOverflow''"
| "ErrorCode_to_string EC_ProtocolTruncated = ''ProtocolTruncated''"
| "ErrorCode_to_string EC_ProtocolZeroLength = ''ProtocolZeroLength''"
| "ErrorCode_to_string EC_GenerationMismatch = ''GenerationMismatch''"
| "ErrorCode_to_string EC_StaleAuthority = ''StaleAuthority''"
| "ErrorCode_to_string EC_StaleEpoch = ''StaleEpoch''"
| "ErrorCode_to_string EC_StaleWorkerBoot = ''StaleWorkerBoot''"
| "ErrorCode_to_string EC_StaleCacheGeneration = ''StaleCacheGeneration''"
| "ErrorCode_to_string EC_StaleGraphGeneration = ''StaleGraphGeneration''"
| "ErrorCode_to_string EC_StaleCaptureAttempt = ''StaleCaptureAttempt''"
| "ErrorCode_to_string EC_StaleReplayAttempt = ''StaleReplayAttempt''"
| "ErrorCode_to_string EC_StaleValidation = ''StaleValidation''"
| "ErrorCode_to_string EC_StaleLoad = ''StaleLoad''"
| "ErrorCode_to_string EC_StaleCompletion = ''StaleCompletion''"
| "ErrorCode_to_string EC_LeaseAlreadyHeld = ''LeaseAlreadyHeld''"
| "ErrorCode_to_string EC_LeaseUnderflow = ''LeaseUnderflow''"
| "ErrorCode_to_string EC_LeaseNotHeld = ''LeaseNotHeld''"
| "ErrorCode_to_string EC_Invalidated = ''Invalidated''"
| "ErrorCode_to_string EC_DependencyInvalid = ''DependencyInvalid''"
| "ErrorCode_to_string EC_NamespaceNotFound = ''NamespaceNotFound''"
| "ErrorCode_to_string EC_QuotaExceeded = ''QuotaExceeded''"
| "ErrorCode_to_string EC_TopologyInvalid = ''TopologyInvalid''"
| "ErrorCode_to_string EC_TopologyDanglingEdge = ''TopologyDanglingEdge''"
| "ErrorCode_to_string EC_TopologySelfCycle = ''TopologySelfCycle''"
| "ErrorCode_to_string EC_TopologyCycle = ''TopologyCycle''"
| "ErrorCode_to_string EC_TopologyDuplicateNode = ''TopologyDuplicateNode''"
| "ErrorCode_to_string EC_TopologyDuplicateEdge = ''TopologyDuplicateEdge''"
| "ErrorCode_to_string EC_TopologyDuplicateId = ''TopologyDuplicateId''"
| "ErrorCode_to_string EC_Contradictory = ''Contradictory''"
| "ErrorCode_to_string EC_ImmutableViolation = ''ImmutableViolation''"
| "ErrorCode_to_string EC_IndexInconsistent = ''IndexInconsistent''"
| "ErrorCode_to_string EC_ConcurrentModification = ''ConcurrentModification''"
| "ErrorCode_to_string EC_Internal = ''Internal''"
| "ErrorCode_to_string EC_Unknown = ''Unknown''"

datatype Error = Error (err_code: ErrorCode) (err_message: string)

definition Error_default :: Error where
  "Error_default = Error EC_Unknown []"

definition Error_of_message :: "string \<Rightarrow> Error" where
  "Error_of_message m = Error EC_Internal m"

definition Error_ok :: "Error \<Rightarrow> bool" where
  "Error_ok e \<longleftrightarrow> err_code e = EC_Ok"

type_synonym 'a Result = "Error + 'a"

abbreviation success :: "'a \<Rightarrow> 'a Result" where
  "success v \<equiv> Inr v"

abbreviation failure :: "ErrorCode \<Rightarrow> string \<Rightarrow> 'a Result" where
  "failure c m \<equiv> Inl (Error c m)"

definition Result_default :: "'a Result" where
  "Result_default = failure EC_InvalidArgument ''empty result''"

definition result_ok :: "'a Result \<Rightarrow> bool" where
  "result_ok r = (case r of Inl _ \<Rightarrow> False | Inr _ \<Rightarrow> True)"

definition result_value :: "'a Result \<Rightarrow> 'a option" where
  "result_value r = (case r of Inl _ \<Rightarrow> None | Inr v \<Rightarrow> Some v)"

definition result_error :: "'a Result \<Rightarrow> Error option" where
  "result_error r = (case r of Inl e \<Rightarrow> Some e | Inr _ \<Rightarrow> None)"

definition value_or :: "'a Result \<Rightarrow> 'a \<Rightarrow> 'a" where
  "value_or r fallback = (case r of Inl _ \<Rightarrow> fallback | Inr v \<Rightarrow> v)"

definition ignore_value :: "'a Result \<Rightarrow> unit Result" where
  "ignore_value r = (case r of Inl e \<Rightarrow> Inl e | Inr _ \<Rightarrow> success ())"

text \<open>
  The early return \<open>if (!r.ok()) return Result<U>::failure(r.error());\<close> of the callers.
\<close>

definition bind_result :: "'a Result \<Rightarrow> ('a \<Rightarrow> 'b Result) \<Rightarrow> 'b Result" where
  "bind_result r f = (case r of Inl e \<Rightarrow> Inl e | Inr v \<Rightarrow> f v)"

lemma result_ok_simps [simp]: "result_ok (Inr v)" "\<not> result_ok (Inl e)"
  by (simp_all add: result_ok_def)

lemma result_ok_iff: "result_ok r \<longleftrightarrow> (\<exists>v. r = Inr v)"
  by (cases r) auto

lemma result_ok_value: "result_ok r \<longleftrightarrow> result_value r \<noteq> None"
  by (cases r) (simp_all add: result_value_def)

lemma bind_result_simps [simp]: "bind_result (Inr v) f = f v" "bind_result (Inl e) f = Inl e"
  by (simp_all add: bind_result_def)

lemma bind_result_InrD: "bind_result r f = Inr w \<Longrightarrow> \<exists>v. r = Inr v \<and> f v = Inr w"
  by (cases r) auto

lemma ignore_value_ok [simp]: "result_ok (ignore_value r) = result_ok r"
  by (cases r) (simp_all add: ignore_value_def)

end
