(* ===== verification/GC_Lifecycle.thy ===== *)
theory GC_Lifecycle
  imports GC_Result
begin

text \<open>
  The graph lifecycle state machine: \<open>include/graphcache/lifecycle.hpp\<close> and \<open>src/lifecycle.cpp\<close>. The table
  of legal transitions is the code's own; \<open>lc_step\<close> is the step relation \<open>transition_lifecycle\<close>
  accepts and \<open>lc_reach\<close> its reflexive transitive closure, over which the safety properties of the
  machine are proved by rule induction.
\<close>

section \<open>States and transitions\<close>

datatype GraphLifecycle = LC_Discovered | LC_Capturing | LC_Captured | LC_Validating | LC_Valid | LC_Persisting
     | LC_Persisted | LC_Loading | LC_ResidentHost | LC_ResidentBackend | LC_Leasing
     | LC_Replaying | LC_InvalidationPending | LC_EvictionPending | LC_EvictedBackend
     | LC_EvictedHost | LC_Invalidated | LC_Corrupt | LC_Failed | LC_Retired | LC_Terminal

primrec GraphLifecycle_code :: "GraphLifecycle \<Rightarrow> int" where
  "GraphLifecycle_code LC_Discovered = 1"
| "GraphLifecycle_code LC_Capturing = 2"
| "GraphLifecycle_code LC_Captured = 3"
| "GraphLifecycle_code LC_Validating = 4"
| "GraphLifecycle_code LC_Valid = 5"
| "GraphLifecycle_code LC_Persisting = 6"
| "GraphLifecycle_code LC_Persisted = 7"
| "GraphLifecycle_code LC_Loading = 8"
| "GraphLifecycle_code LC_ResidentHost = 9"
| "GraphLifecycle_code LC_ResidentBackend = 10"
| "GraphLifecycle_code LC_Leasing = 11"
| "GraphLifecycle_code LC_Replaying = 12"
| "GraphLifecycle_code LC_InvalidationPending = 13"
| "GraphLifecycle_code LC_EvictionPending = 14"
| "GraphLifecycle_code LC_EvictedBackend = 15"
| "GraphLifecycle_code LC_EvictedHost = 16"
| "GraphLifecycle_code LC_Invalidated = 17"
| "GraphLifecycle_code LC_Corrupt = 18"
| "GraphLifecycle_code LC_Failed = 19"
| "GraphLifecycle_code LC_Retired = 20"
| "GraphLifecycle_code LC_Terminal = 21"

primrec GraphLifecycle_to_string :: "GraphLifecycle \<Rightarrow> string" where
  "GraphLifecycle_to_string LC_Discovered = ''Discovered''"
| "GraphLifecycle_to_string LC_Capturing = ''Capturing''"
| "GraphLifecycle_to_string LC_Captured = ''Captured''"
| "GraphLifecycle_to_string LC_Validating = ''Validating''"
| "GraphLifecycle_to_string LC_Valid = ''Valid''"
| "GraphLifecycle_to_string LC_Persisting = ''Persisting''"
| "GraphLifecycle_to_string LC_Persisted = ''Persisted''"
| "GraphLifecycle_to_string LC_Loading = ''Loading''"
| "GraphLifecycle_to_string LC_ResidentHost = ''ResidentHost''"
| "GraphLifecycle_to_string LC_ResidentBackend = ''ResidentBackend''"
| "GraphLifecycle_to_string LC_Leasing = ''Leasing''"
| "GraphLifecycle_to_string LC_Replaying = ''Replaying''"
| "GraphLifecycle_to_string LC_InvalidationPending = ''InvalidationPending''"
| "GraphLifecycle_to_string LC_EvictionPending = ''EvictionPending''"
| "GraphLifecycle_to_string LC_EvictedBackend = ''EvictedBackend''"
| "GraphLifecycle_to_string LC_EvictedHost = ''EvictedHost''"
| "GraphLifecycle_to_string LC_Invalidated = ''Invalidated''"
| "GraphLifecycle_to_string LC_Corrupt = ''Corrupt''"
| "GraphLifecycle_to_string LC_Failed = ''Failed''"
| "GraphLifecycle_to_string LC_Retired = ''Retired''"
| "GraphLifecycle_to_string LC_Terminal = ''Terminal''"

definition kTransitions :: "(GraphLifecycle \<times> GraphLifecycle) list" where
  "kTransitions = [
     (LC_Discovered, LC_Capturing),
     (LC_Discovered, LC_Invalidated),
     (LC_Discovered, LC_Corrupt),
     (LC_Discovered, LC_Failed),
     (LC_Discovered, LC_Terminal),
     (LC_Capturing, LC_Captured),
     (LC_Capturing, LC_Failed),
     (LC_Capturing, LC_Invalidated),
     (LC_Capturing, LC_Terminal),
     (LC_Captured, LC_Validating),
     (LC_Captured, LC_Failed),
     (LC_Captured, LC_Invalidated),
     (LC_Captured, LC_Terminal),
     (LC_Validating, LC_Valid),
     (LC_Validating, LC_Failed),
     (LC_Validating, LC_Invalidated),
     (LC_Validating, LC_Corrupt),
     (LC_Validating, LC_Terminal),
     (LC_Valid, LC_Persisting),
     (LC_Valid, LC_Loading),
     (LC_Valid, LC_Leasing),
     (LC_Valid, LC_ResidentHost),
     (LC_Valid, LC_ResidentBackend),
     (LC_Valid, LC_InvalidationPending),
     (LC_Valid, LC_EvictionPending),
     (LC_Valid, LC_Retired),
     (LC_Valid, LC_Terminal),
     (LC_Persisting, LC_Persisted),
     (LC_Persisting, LC_Failed),
     (LC_Persisting, LC_Terminal),
     (LC_Persisted, LC_Loading),
     (LC_Persisted, LC_Leasing),
     (LC_Persisted, LC_ResidentHost),
     (LC_Persisted, LC_ResidentBackend),
     (LC_Persisted, LC_EvictionPending),
     (LC_Persisted, LC_Retired),
     (LC_Persisted, LC_Terminal),
     (LC_Loading, LC_ResidentHost),
     (LC_Loading, LC_ResidentBackend),
     (LC_Loading, LC_Failed),
     (LC_Loading, LC_Invalidated),
     (LC_Loading, LC_Terminal),
     (LC_ResidentHost, LC_ResidentBackend),
     (LC_ResidentHost, LC_Persisted),
     (LC_ResidentHost, LC_Leasing),
     (LC_ResidentHost, LC_EvictionPending),
     (LC_ResidentHost, LC_Retired),
     (LC_ResidentHost, LC_Terminal),
     (LC_ResidentBackend, LC_ResidentHost),
     (LC_ResidentBackend, LC_Persisted),
     (LC_ResidentBackend, LC_Leasing),
     (LC_ResidentBackend, LC_Replaying),
     (LC_ResidentBackend, LC_EvictionPending),
     (LC_ResidentBackend, LC_InvalidationPending),
     (LC_ResidentBackend, LC_Retired),
     (LC_ResidentBackend, LC_Terminal),
     (LC_Leasing, LC_ResidentBackend),
     (LC_Leasing, LC_Replaying),
     (LC_Leasing, LC_ResidentHost),
     (LC_Leasing, LC_InvalidationPending),
     (LC_Leasing, LC_EvictionPending),
     (LC_Leasing, LC_Retired),
     (LC_Leasing, LC_Terminal),
     (LC_Replaying, LC_ResidentBackend),
     (LC_Replaying, LC_Leasing),
     (LC_Replaying, LC_Terminal),
     (LC_InvalidationPending, LC_Invalidated),
     (LC_InvalidationPending, LC_EvictionPending),
     (LC_InvalidationPending, LC_Terminal),
     (LC_EvictionPending, LC_EvictedBackend),
     (LC_EvictionPending, LC_EvictedHost),
     (LC_EvictionPending, LC_Terminal)]"

definition lifecycle_valid :: "GraphLifecycle \<Rightarrow> bool" where
  "lifecycle_valid s \<longleftrightarrow> GraphLifecycle_code LC_Discovered \<le> GraphLifecycle_code s
     \<and> GraphLifecycle_code s \<le> GraphLifecycle_code LC_Terminal"

definition lifecycle_is_replay_eligible :: "GraphLifecycle \<Rightarrow> bool" where
  "lifecycle_is_replay_eligible s \<longleftrightarrow> s = LC_Valid \<or> s = LC_Persisted \<or> s = LC_ResidentHost
     \<or> s = LC_ResidentBackend \<or> s = LC_Leasing"

definition transition_lifecycle :: "GraphLifecycle \<Rightarrow> GraphLifecycle \<Rightarrow> unit Result" where
  "transition_lifecycle from to =
     (if list_ex (\<lambda>e. fst e = from \<and> snd e = to) kTransitions then success ()
      else failure EC_IllegalTransition (''illegal lifecycle transition '' @ GraphLifecycle_to_string from
             @ '' -> '' @ GraphLifecycle_to_string to))"

section \<open>Reachability\<close>

inductive lc_step :: "GraphLifecycle \<Rightarrow> GraphLifecycle \<Rightarrow> bool" where
  step: "transition_lifecycle s t = success () \<Longrightarrow> lc_step s t"

inductive lc_reach :: "GraphLifecycle \<Rightarrow> GraphLifecycle \<Rightarrow> bool" for s where
  start: "lc_reach s s"
| more: "lc_reach s t \<Longrightarrow> lc_step t u \<Longrightarrow> lc_reach s u"

inductive_cases lc_stepE: "lc_step s t"
inductive_cases lc_reachE: "lc_reach s t"

lemma lc_step_iff: "lc_step s t \<longleftrightarrow> (s, t) \<in> set kTransitions"
  by (auto simp: lc_step.simps transition_lifecycle_def list_ex_iff)

lemma transition_lifecycle_cases:
  "transition_lifecycle s t = (if (s, t) \<in> set kTransitions then success ()
     else failure EC_IllegalTransition (''illegal lifecycle transition '' @ GraphLifecycle_to_string s
            @ '' -> '' @ GraphLifecycle_to_string t))"
  by (auto simp: transition_lifecycle_def list_ex_iff)

lemma lifecycle_valid_all: "lifecycle_valid s"
  by (cases s) (simp_all add: lifecycle_valid_def)

text \<open>The successors of each state, as the table gives them.\<close>

definition lc_succs :: "GraphLifecycle \<Rightarrow> GraphLifecycle list" where
  "lc_succs s = map snd (filter (\<lambda>e. fst e = s) kTransitions)"

lemma lc_step_succs: "lc_step s t \<longleftrightarrow> t \<in> set (lc_succs s)"
  by (auto simp: lc_step_iff lc_succs_def intro!: image_eqI [of _ _ "(s, t)"])

lemma lc_reach_trans: "lc_reach s t \<Longrightarrow> lc_reach t u \<Longrightarrow> lc_reach s u"
  by (rotate_tac 1, induction rule: lc_reach.induct) (auto intro: lc_reach.more)

lemma lc_step_reach: "lc_step s t \<Longrightarrow> lc_reach s t"
  by (rule lc_reach.more [OF lc_reach.start])

text \<open>A set of states closed under the table contains everything reachable from it.\<close>

lemma lc_reach_closed:
  assumes "lc_reach s t" and "s \<in> S"
    and "\<And>x y. x \<in> S \<Longrightarrow> (x, y) \<in> set kTransitions \<Longrightarrow> y \<in> S"
  shows "t \<in> S"
  using assms(1) by induction (auto simp: lc_step_iff assms(2) intro: assms(3))

definition lc_dead :: "GraphLifecycle \<Rightarrow> bool" where
  "lc_dead s \<longleftrightarrow> s \<in> {LC_InvalidationPending, LC_EvictionPending, LC_EvictedBackend, LC_EvictedHost,
     LC_Invalidated, LC_Corrupt, LC_Failed, LC_Retired, LC_Terminal}"

definition lc_before_valid :: "GraphLifecycle \<Rightarrow> bool" where
  "lc_before_valid s \<longleftrightarrow> s \<in> {LC_Discovered, LC_Capturing, LC_Captured, LC_Validating}"

lemma kTransitions_dead: "(x, y) \<in> set kTransitions \<Longrightarrow> lc_dead x \<Longrightarrow> lc_dead y"
  unfolding kTransitions_def by (auto simp: lc_dead_def)

lemma kTransitions_sinks:
  "(x, y) \<in> set kTransitions \<Longrightarrow> x \<notin> {LC_EvictedBackend, LC_EvictedHost, LC_Invalidated, LC_Corrupt,
     LC_Failed, LC_Retired, LC_Terminal}"
  unfolding kTransitions_def by auto

lemma kTransitions_validation:
  "(x, y) \<in> set kTransitions \<Longrightarrow> lc_before_valid x \<Longrightarrow> \<not> lc_before_valid y \<Longrightarrow> \<not> lc_dead y \<Longrightarrow>
     x = LC_Validating \<and> y = LC_Valid"
  unfolding kTransitions_def by (auto simp: lc_before_valid_def lc_dead_def)

lemma eligible_not_dead: "lifecycle_is_replay_eligible s \<Longrightarrow> \<not> lc_dead s \<and> \<not> lc_before_valid s"
  by (auto simp: lifecycle_is_replay_eligible_def lc_dead_def lc_before_valid_def)

section \<open>Properties\<close>

text \<open>
  Once a graph is invalidated, corrupt, failed, retired, terminal, evicted or pending invalidation
  or eviction, no sequence of legal lifecycle transitions makes it replay-eligible again: it takes a
  new capture.
\<close>

theorem dead_never_replay_eligible:
  assumes "lc_dead s" and "lc_reach s t"
  shows "lc_dead t \<and> \<not> lifecycle_is_replay_eligible t"
proof -
  have "t \<in> Collect lc_dead"
    by (rule lc_reach_closed [OF assms(2)]) (auto simp: assms(1) dest: kTransitions_dead)
  then show ?thesis using eligible_not_dead by auto
qed

lemma dead_never_replay_eligible_witness:
  "lc_reach LC_InvalidationPending LC_Invalidated \<and> \<not> lifecycle_is_replay_eligible LC_Invalidated"
proof -
  have "lc_reach LC_InvalidationPending LC_Invalidated"
    by (rule lc_step_reach) (simp add: lc_step_iff kTransitions_def)
  moreover have "lc_dead LC_InvalidationPending" by (simp add: lc_dead_def)
  ultimately show ?thesis using dead_never_replay_eligible by blast
qed

text \<open>
  a graph that starts as discovered becomes replay-eligible only through the validation step: any
  lifecycle run from Discovered to an eligible state passes the transition Validating to Valid.
\<close>

theorem eligible_only_after_validation:
  assumes "lc_reach LC_Discovered t" and "lifecycle_is_replay_eligible t"
  shows "lc_reach LC_Discovered LC_Validating \<and> lc_step LC_Validating LC_Valid \<and> lc_reach LC_Valid t"
proof -
  have "lc_before_valid t \<or> lc_dead t
     \<or> lc_reach LC_Discovered LC_Validating \<and> lc_step LC_Validating LC_Valid \<and> lc_reach LC_Valid t"
    using assms(1)
  proof induction
    case start
    then show ?case by (simp add: lc_before_valid_def)
  next
    case (more t u)
    then have tu: "(t, u) \<in> set kTransitions" by (simp add: lc_step_iff)
    show ?case
    proof (cases "lc_before_valid t \<and> \<not> lc_before_valid u \<and> \<not> lc_dead u")
      case True
      with kTransitions_validation [OF tu] more show ?thesis by (auto intro: lc_reach.start)
    next
      case False
      with more kTransitions_dead [OF tu] show ?thesis by (auto intro: lc_reach.more)
    qed
  qed
  with eligible_not_dead [OF assms(2)] show ?thesis by blast
qed

lemma eligible_only_after_validation_witness:
  "lc_reach LC_Discovered LC_ResidentHost \<and> lc_reach LC_Valid LC_ResidentHost"
proof -
  have "lc_step LC_Discovered LC_Capturing" "lc_step LC_Capturing LC_Captured"
    "lc_step LC_Captured LC_Validating" "lc_step LC_Validating LC_Valid" "lc_step LC_Valid LC_ResidentHost"
    by (simp_all add: lc_step_iff kTransitions_def)
  then have r: "lc_reach LC_Discovered LC_ResidentHost"
    by (meson lc_reach.start lc_reach.more)
  moreover have "lifecycle_is_replay_eligible LC_ResidentHost"
    by (simp add: lifecycle_is_replay_eligible_def)
  ultimately show ?thesis using eligible_only_after_validation by blast
qed

lemma Terminal_absorbs: "transition_lifecycle LC_Terminal t \<noteq> success ()"
  using kTransitions_sinks [of LC_Terminal t] by (auto simp: transition_lifecycle_cases)

end
