(* ===== verification/GC_Ids.thy ===== *)
theory GC_Ids
  imports GC_Prelude
begin

text \<open>
  The identities of \<open>include/graphcache/ids.hpp\<close>. A generation or attempt identity wraps a
  \<open>uint64_t\<close> whose value 0 is \<open>Invalid\<close>; an object identity is a pair of 64-bit halves, valid when
  its low half is not 0, ordered lexicographically (the defaulted \<open><=>\<close>) and printed as
  \<open>%016llx:%016llx\<close>.
\<close>

section \<open>Generations and attempts\<close>

datatype CacheGeneration = CacheGeneration (cg_value: u64)
datatype GraphGeneration = GraphGeneration (gg_value: u64)
datatype CaptureAttemptId = CaptureAttemptId (ca_value: u64)
datatype ReplayAttemptId = ReplayAttemptId (ra_value: u64)
datatype LoadGeneration = LoadGeneration (lg_value: u64)
datatype ResidencyGeneration = ResidencyGeneration (rg_value: u64)
datatype CoordinatorEpoch = CoordinatorEpoch (ce_value: u64)
datatype WorkerId = WorkerId (wid_value: u64)
datatype WorkerBootId = WorkerBootId (wb_value: u64)

definition CacheGeneration_valid :: "CacheGeneration \<Rightarrow> bool" where
  "CacheGeneration_valid g \<longleftrightarrow> cg_value g \<noteq> 0"

definition GraphGeneration_valid :: "GraphGeneration \<Rightarrow> bool" where
  "GraphGeneration_valid g \<longleftrightarrow> gg_value g \<noteq> 0"

definition CaptureAttemptId_valid :: "CaptureAttemptId \<Rightarrow> bool" where
  "CaptureAttemptId_valid a \<longleftrightarrow> ca_value a \<noteq> 0"

definition CoordinatorEpoch_valid :: "CoordinatorEpoch \<Rightarrow> bool" where
  "CoordinatorEpoch_valid e \<longleftrightarrow> ce_value e \<noteq> 0"

definition WorkerId_valid :: "WorkerId \<Rightarrow> bool" where
  "WorkerId_valid w \<longleftrightarrow> wid_value w \<noteq> 0"

definition ReplayAttemptId_valid :: "ReplayAttemptId \<Rightarrow> bool" where
  "ReplayAttemptId_valid a \<longleftrightarrow> ra_value a \<noteq> 0"

definition LoadGeneration_valid :: "LoadGeneration \<Rightarrow> bool" where
  "LoadGeneration_valid g \<longleftrightarrow> lg_value g \<noteq> 0"

definition ResidencyGeneration_valid :: "ResidencyGeneration \<Rightarrow> bool" where
  "ResidencyGeneration_valid g \<longleftrightarrow> rg_value g \<noteq> 0"

definition WorkerBootId_valid :: "WorkerBootId \<Rightarrow> bool" where
  "WorkerBootId_valid w \<longleftrightarrow> wb_value w \<noteq> 0"

section \<open>Object identities\<close>

datatype GraphId = GraphId (gid_hi: u64) (gid_lo: u64)
datatype GraphArtifactId = GraphArtifactId (aid_hi: u64) (aid_lo: u64)
datatype GraphNodeId = GraphNodeId (nid_hi: u64) (nid_lo: u64)
datatype GraphEdgeId = GraphEdgeId (eid_hi: u64) (eid_lo: u64)

definition GraphArtifactId_valid :: "GraphArtifactId \<Rightarrow> bool" where
  "GraphArtifactId_valid a \<longleftrightarrow> aid_lo a \<noteq> 0"

definition GraphArtifactId_to_string :: "GraphArtifactId \<Rightarrow> string" where
  "GraphArtifactId_to_string a = hex16 (aid_hi a) @ '':'' @ hex16 (aid_lo a)"

definition GraphId_to_string :: "GraphId \<Rightarrow> string" where
  "GraphId_to_string g = hex16 (gid_hi g) @ '':'' @ hex16 (gid_lo g)"

lemma GraphId_to_string_inj: "GraphId_to_string a = GraphId_to_string b \<longleftrightarrow> a = b"
  by (auto simp: GraphId_to_string_def dest!: hex16_inj intro: GraphId.expand)

lemma GraphArtifactId_to_string_length: "length (GraphArtifactId_to_string a) = 33"
  by (simp add: GraphArtifactId_to_string_def)

lemma GraphArtifactId_to_string_inj:
  "GraphArtifactId_to_string a = GraphArtifactId_to_string b \<longleftrightarrow> a = b"
  by (auto simp: GraphArtifactId_to_string_def dest!: hex16_inj intro: GraphArtifactId.expand)

section \<open>Hashes\<close>

text \<open>
  The \<open>std::hash\<close> specialisations. \<open>hash<uint64_t>\<close> is left to the standard library: it is the parameter
  \<open>h64\<close>, with \<open>size_t\<close> of 64 bits. No container's behaviour depends on these values but its iteration
  order, which the other theories take as a parameter.
\<close>

definition hash_CacheGeneration :: "(u64 \<Rightarrow> u64) \<Rightarrow> CacheGeneration \<Rightarrow> u64" where
  "hash_CacheGeneration h64 v = h64 (cg_value v)"

definition hash_GraphGeneration :: "(u64 \<Rightarrow> u64) \<Rightarrow> GraphGeneration \<Rightarrow> u64" where
  "hash_GraphGeneration h64 v = h64 (gg_value v)"

definition hash_CaptureAttemptId :: "(u64 \<Rightarrow> u64) \<Rightarrow> CaptureAttemptId \<Rightarrow> u64" where
  "hash_CaptureAttemptId h64 v = h64 (ca_value v)"

definition hash_ReplayAttemptId :: "(u64 \<Rightarrow> u64) \<Rightarrow> ReplayAttemptId \<Rightarrow> u64" where
  "hash_ReplayAttemptId h64 v = h64 (ra_value v)"

definition hash_LoadGeneration :: "(u64 \<Rightarrow> u64) \<Rightarrow> LoadGeneration \<Rightarrow> u64" where
  "hash_LoadGeneration h64 v = h64 (lg_value v)"

definition hash_ResidencyGeneration :: "(u64 \<Rightarrow> u64) \<Rightarrow> ResidencyGeneration \<Rightarrow> u64" where
  "hash_ResidencyGeneration h64 v = h64 (rg_value v)"

definition hash_CoordinatorEpoch :: "(u64 \<Rightarrow> u64) \<Rightarrow> CoordinatorEpoch \<Rightarrow> u64" where
  "hash_CoordinatorEpoch h64 v = h64 (ce_value v)"

definition hash_WorkerId :: "(u64 \<Rightarrow> u64) \<Rightarrow> WorkerId \<Rightarrow> u64" where
  "hash_WorkerId h64 v = h64 (wid_value v)"

definition hash_WorkerBootId :: "(u64 \<Rightarrow> u64) \<Rightarrow> WorkerBootId \<Rightarrow> u64" where
  "hash_WorkerBootId h64 v = h64 (wb_value v)"

definition hash_halves :: "(u64 \<Rightarrow> u64) \<Rightarrow> u64 \<Rightarrow> u64 \<Rightarrow> u64" where
  "hash_halves h64 hi lo = (let h = h64 lo in h XOR (h64 hi + 0x9e3779b97f4a7c15 + push_bit 6 h + drop_bit 2 h))"

definition hash_GraphId :: "(u64 \<Rightarrow> u64) \<Rightarrow> GraphId \<Rightarrow> u64" where
  "hash_GraphId h64 v = hash_halves h64 (gid_hi v) (gid_lo v)"

definition hash_GraphArtifactId :: "(u64 \<Rightarrow> u64) \<Rightarrow> GraphArtifactId \<Rightarrow> u64" where
  "hash_GraphArtifactId h64 v = hash_halves h64 (aid_hi v) (aid_lo v)"

definition hash_GraphNodeId :: "(u64 \<Rightarrow> u64) \<Rightarrow> GraphNodeId \<Rightarrow> u64" where
  "hash_GraphNodeId h64 v = hash_halves h64 (nid_hi v) (nid_lo v)"

definition hash_GraphEdgeId :: "(u64 \<Rightarrow> u64) \<Rightarrow> GraphEdgeId \<Rightarrow> u64" where
  "hash_GraphEdgeId h64 v = hash_halves h64 (eid_hi v) (eid_lo v)"

text \<open>Where \<open>hash<uint64_t>\<close> has no collisions, identities that agree in one half never collide on the other.\<close>

lemma hash_halves_hi: "inj h64 \<Longrightarrow> hash_halves h64 hi lo = hash_halves h64 hi' lo \<longleftrightarrow> hi = hi'"
proof -
  have "h XOR a = h XOR b \<longleftrightarrow> a = b" for h a b :: u64
    by (auto simp: bit_eq_iff bit_xor_iff)
  then show "inj h64 \<Longrightarrow> ?thesis" by (simp add: hash_halves_def Let_def inj_eq)
qed

section \<open>Order\<close>

text \<open>The defaulted three-way comparison, as instances of the library's linear orders.\<close>

instantiation GraphNodeId :: linorder
begin

definition less_eq_GraphNodeId :: "GraphNodeId \<Rightarrow> GraphNodeId \<Rightarrow> bool" where
  "a \<le> b \<longleftrightarrow> nid_hi a < nid_hi b \<or> nid_hi a = nid_hi b \<and> nid_lo a \<le> nid_lo b"

definition less_GraphNodeId :: "GraphNodeId \<Rightarrow> GraphNodeId \<Rightarrow> bool" where
  "a < b \<longleftrightarrow> nid_hi a < nid_hi b \<or> nid_hi a = nid_hi b \<and> nid_lo a < nid_lo b"

instance
  by standard (auto simp: less_eq_GraphNodeId_def less_GraphNodeId_def GraphNodeId.expand)

end

instantiation GraphEdgeId :: linorder
begin

definition less_eq_GraphEdgeId :: "GraphEdgeId \<Rightarrow> GraphEdgeId \<Rightarrow> bool" where
  "a \<le> b \<longleftrightarrow> eid_hi a < eid_hi b \<or> eid_hi a = eid_hi b \<and> eid_lo a \<le> eid_lo b"

definition less_GraphEdgeId :: "GraphEdgeId \<Rightarrow> GraphEdgeId \<Rightarrow> bool" where
  "a < b \<longleftrightarrow> eid_hi a < eid_hi b \<or> eid_hi a = eid_hi b \<and> eid_lo a < eid_lo b"

instance
  by standard (auto simp: less_eq_GraphEdgeId_def less_GraphEdgeId_def GraphEdgeId.expand)

end

instantiation GraphArtifactId :: linorder
begin

definition less_eq_GraphArtifactId :: "GraphArtifactId \<Rightarrow> GraphArtifactId \<Rightarrow> bool" where
  "a \<le> b \<longleftrightarrow> aid_hi a < aid_hi b \<or> aid_hi a = aid_hi b \<and> aid_lo a \<le> aid_lo b"

definition less_GraphArtifactId :: "GraphArtifactId \<Rightarrow> GraphArtifactId \<Rightarrow> bool" where
  "a < b \<longleftrightarrow> aid_hi a < aid_hi b \<or> aid_hi a = aid_hi b \<and> aid_lo a < aid_lo b"

instance
  by standard (auto simp: less_eq_GraphArtifactId_def less_GraphArtifactId_def GraphArtifactId.expand)

end

end
