(* ===== verification/GC_Canonical.thy ===== *)
theory GC_Canonical
  imports GC_Prelude
begin

text \<open>
  The canonical typed encoding of \<open>include/graphcache/canonical.hpp\<close>: a stream of fields, each a
  big-endian 16-bit tag, a big-endian 32-bit payload length and the payload.

  A \<open>CanonicalWriter\<close> only ever appends to its buffer, so each \<open>put_*\<close> is modelled by the bytes it
  appends and a writer run is the concatenation of its calls. A \<open>CanonicalReader\<close> looks at its
  span only through \<open>data_.size() - off_\<close> and \<open>data_[off_ + k]\<close>; its state is therefore the unread
  suffix together with the \<open>malformed_\<close> flag. The \<open>while (r.next(tag, p))\<close> loops of the decoders are
  instances of \<open>reader_loop\<close>, whose body answers \<open>None\<close> for the C++ \<open>return false\<close>.
\<close>

section \<open>Writing\<close>

definition put_be_u16 :: "u16 \<Rightarrow> bytes" where
  "put_be_u16 v = [ucast (drop_bit 8 v AND 0xff), ucast (v AND 0xff)]"

definition put_be_u32 :: "u32 \<Rightarrow> bytes" where
  "put_be_u32 v = be_bytes 4 v"

definition put_be_u64 :: "u64 \<Rightarrow> bytes" where
  "put_be_u64 v = be_bytes 8 v"

definition cw_begin :: "u16 \<Rightarrow> nat \<Rightarrow> bytes" where
  "cw_begin tag len = put_be_u16 tag @ put_be_u32 (word_of_nat len)"

definition put_u8 :: "u16 \<Rightarrow> u8 \<Rightarrow> bytes" where
  "put_u8 tag v = cw_begin tag 1 @ [v]"

definition put_u16 :: "u16 \<Rightarrow> u16 \<Rightarrow> bytes" where
  "put_u16 tag v = cw_begin tag 2 @ put_be_u16 v"

definition put_u32 :: "u16 \<Rightarrow> u32 \<Rightarrow> bytes" where
  "put_u32 tag v = cw_begin tag 4 @ put_be_u32 v"

definition put_u64 :: "u16 \<Rightarrow> u64 \<Rightarrow> bytes" where
  "put_u64 tag v = cw_begin tag 8 @ put_be_u64 v"

definition put_i64 :: "u16 \<Rightarrow> i64 \<Rightarrow> bytes" where
  "put_i64 tag v = cw_begin tag 8 @ put_be_u64 v"

definition put_f64 :: "u16 \<Rightarrow> f64 \<Rightarrow> bytes" where
  "put_f64 tag v = cw_begin tag 8 @ put_be_u64 v"

definition put_bool :: "u16 \<Rightarrow> bool \<Rightarrow> bytes" where
  "put_bool tag v = cw_begin tag 1 @ [if v then 1 else 0]"

definition put_bytes :: "u16 \<Rightarrow> bytes \<Rightarrow> bytes" where
  "put_bytes tag data = cw_begin tag (length data) @ data"

definition put_str :: "u16 \<Rightarrow> string \<Rightarrow> bytes" where
  "put_str tag s = cw_begin tag (length s) @ bytes_of_string s"

definition put_u64_list :: "u16 \<Rightarrow> u64 list \<Rightarrow> bytes" where
  "put_u64_list tag vs = cw_begin tag (length vs * 8 + 4)
     @ put_be_u32 (word_of_nat (length vs)) @ concat (map put_be_u64 vs)"

definition put_str_list :: "u16 \<Rightarrow> string list \<Rightarrow> bytes" where
  "put_str_list tag vs = cw_begin tag (4 + sum_list (map (\<lambda>s. length s + 4) vs))
     @ put_be_u32 (word_of_nat (length vs))
     @ concat (map (\<lambda>s. put_be_u32 (word_of_nat (length s)) @ bytes_of_string s) vs)"

definition canonical_slice :: "u16 \<Rightarrow> string \<Rightarrow> bytes" where
  "canonical_slice tag s = put_str tag s"

definition canon_container_Magic :: u32 where
  "canon_container_Magic = 0x47524348"

definition canon_container_write :: "bytes \<Rightarrow> bytes \<Rightarrow> bytes" where
  "canon_container_write out payload =
     out @ put_be_u32 canon_container_Magic @ put_be_u32 (word_of_nat (length payload)) @ payload"

section \<open>Reading\<close>

record CanonicalReader =
  cr_rest :: bytes
  cr_malformed :: bool

definition canonical_reader :: "bytes \<Rightarrow> CanonicalReader" where
  "canonical_reader data = \<lparr>cr_rest = data, cr_malformed = False\<rparr>"

definition cr_at_end :: "CanonicalReader \<Rightarrow> bool" where
  "cr_at_end r \<longleftrightarrow> cr_rest r = []"

definition rd_be_u32 :: "bytes \<Rightarrow> nat \<Rightarrow> u32" where
  "rd_be_u32 d off = push_bit 24 (ucast (d ! off)) OR push_bit 16 (ucast (d ! (off + 1)))
     OR push_bit 8 (ucast (d ! (off + 2))) OR ucast (d ! (off + 3))"

definition cr_next :: "CanonicalReader \<Rightarrow> (u16 \<times> bytes) option \<times> CanonicalReader" where
  "cr_next r = (let d = cr_rest r in
     if d = [] then (None, r)
     else if length d < 6 then (None, r\<lparr>cr_malformed := True\<rparr>)
     else let tag = push_bit 8 (ucast (d ! 0)) OR ucast (d ! 1);
              len = rd_be_u32 d 2;
              d' = drop 6 d
          in if length d' < unat len then (None, r\<lparr>cr_rest := d', cr_malformed := True\<rparr>)
             else (Some (tag, take (unat len) d'), r\<lparr>cr_rest := drop (unat len) d'\<rparr>))"

definition decode_u16 :: "bytes \<Rightarrow> u16 option" where
  "decode_u16 p = (if length p \<noteq> 2 then None
     else Some (push_bit 8 (ucast (p ! 0)) OR ucast (p ! 1)))"

definition decode_u32 :: "bytes \<Rightarrow> u32 option" where
  "decode_u32 p = (if length p \<noteq> 4 then None else Some (rd_be_u32 p 0))"

definition decode_u64 :: "bytes \<Rightarrow> u64 option" where
  "decode_u64 p = (if length p \<noteq> 8 then None
     else Some (foldl (\<lambda>v b. push_bit 8 v OR ucast b) 0 p))"

definition decode_i64 :: "bytes \<Rightarrow> i64 option" where
  "decode_i64 p = decode_u64 p"

definition decode_f64 :: "bytes \<Rightarrow> f64 option" where
  "decode_f64 p = decode_u64 p"

definition decode_str :: "bytes \<Rightarrow> string option" where
  "decode_str p = Some (string_of_bytes p)"

text \<open>
  The idiom \<open>if (p.empty()) return false; v = p[0] != 0;\<close> by which every decoder reads a
  \<open>put_bool\<close> payload, and \<open>if (!r.next(tag, p) || tag != expect) return false;\<close>.
\<close>

definition decode_bool :: "bytes \<Rightarrow> bool option" where
  "decode_bool p = (if p = [] then None else Some (p ! 0 \<noteq> 0))"

definition cr_need :: "u16 \<Rightarrow> CanonicalReader \<Rightarrow> (bytes \<times> CanonicalReader) option" where
  "cr_need expect r = (case cr_next r of
       (None, _) \<Rightarrow> None
     | (Some (tag, p), r') \<Rightarrow> if tag \<noteq> expect then None else Some (p, r'))"

definition read_field :: "u16 \<Rightarrow> (bytes \<Rightarrow> 'a option) \<Rightarrow> CanonicalReader \<Rightarrow> ('a \<times> CanonicalReader) option" where
  "read_field expect dec r = (case cr_need expect r of
       None \<Rightarrow> None
     | Some (p, r') \<Rightarrow> (case dec p of None \<Rightarrow> None | Some v \<Rightarrow> Some (v, r')))"

lemma cr_next_progress:
  "cr_next r = (Some tp, r') \<Longrightarrow> length (cr_rest r') < length (cr_rest r)"
  by (auto simp: cr_next_def Let_def split: if_splits)

function reader_loop :: "(u16 \<Rightarrow> bytes \<Rightarrow> 's \<Rightarrow> 's option) \<Rightarrow> CanonicalReader \<Rightarrow> 's
    \<Rightarrow> ('s \<times> CanonicalReader) option" where
  "reader_loop body r s = (case cr_next r of
       (None, r') \<Rightarrow> Some (s, r')
     | (Some (tag, p), r') \<Rightarrow> (case body tag p s of None \<Rightarrow> None | Some s' \<Rightarrow> reader_loop body r' s'))"
  by pat_completeness auto
termination
  by (relation "measure (\<lambda>(body, r, s). length (cr_rest r))") (auto dest: cr_next_progress [OF sym])

declare reader_loop.simps [simp del]

text \<open>The common tail \<open>return !r.malformed();\<close> of the looping decoders.\<close>

definition loop_decode :: "(u16 \<Rightarrow> bytes \<Rightarrow> 's \<Rightarrow> 's option) \<Rightarrow> bytes \<Rightarrow> 's \<Rightarrow> 's option" where
  "loop_decode body data s = (case reader_loop body (canonical_reader data) s of
       None \<Rightarrow> None
     | Some (s', r) \<Rightarrow> if cr_malformed r then None else Some s')"

section \<open>A field\<close>

definition field :: "u16 \<Rightarrow> bytes \<Rightarrow> bytes" where
  "field tag p = put_be_u16 tag @ put_be_u32 (word_of_nat (length p)) @ p"

definition fits32 :: "'a list \<Rightarrow> bool" where
  "fits32 p \<longleftrightarrow> length p < 2 ^ 32"

lemma put_be_u16_be: "put_be_u16 v = be_bytes 2 v"
  by (simp add: put_be_u16_def be_bytes_def numeral_2_eq_2)

lemma length_put_be [simp, size_simps]:
  "length (put_be_u16 a) = 2" "length (put_be_u32 b) = 4" "length (put_be_u64 c) = 8"
  by (simp_all add: put_be_u16_def put_be_u32_def put_be_u64_def)

lemma length_field [simp, size_simps]: "length (field t p) = 6 + length p"
  by (simp add: field_def)

lemma length_concat_put_be_u64 [simp, size_simps]: "length (concat (map put_be_u64 vs)) = 8 * length vs"
  by (induction vs) simp_all

lemma length_concat_put_strs [simp, size_simps]:
  "length (concat (map (\<lambda>s. put_be_u32 (g s) @ bytes_of_string s) vs)) = sum_list (map (\<lambda>s. length s + 4) vs)"
  by (induction vs) simp_all

text \<open>Every \<open>put_*\<close> writes one field; the payload of each.\<close>

lemma put_is_field:
  "put_u8 t v8 = field t [v8]"
  "put_u16 t v16 = field t (put_be_u16 v16)"
  "put_u32 t v32 = field t (put_be_u32 v32)"
  "put_u64 t v64 = field t (put_be_u64 v64)"
  "put_i64 t vi = field t (put_be_u64 vi)"
  "put_f64 t vf = field t (put_be_u64 vf)"
  "put_bool t b = field t [if b then 1 else 0]"
  "put_bytes t p = field t p"
  "put_str t s = field t (bytes_of_string s)"
  "put_u64_list t vs = field t (put_be_u32 (word_of_nat (length vs)) @ concat (map put_be_u64 vs))"
  "put_str_list t ss = field t (put_be_u32 (word_of_nat (length ss))
     @ concat (map (\<lambda>s. put_be_u32 (word_of_nat (length s)) @ bytes_of_string s) ss))"
  by (simp_all add: put_u8_def put_u16_def put_u32_def put_u64_def put_i64_def put_f64_def
      put_bool_def put_bytes_def put_str_def put_u64_list_def put_str_list_def cw_begin_def field_def
      ac_simps)

section \<open>Reading back a field\<close>

lemma length2_conv: "length p = 2 \<longleftrightarrow> (\<exists>a b. p = [a, b])"
  by (auto simp: numeral_2_eq_2 length_Suc_conv)

lemma length4_conv: "length p = 4 \<longleftrightarrow> (\<exists>a b c d. p = [a, b, c, d])"
  by (auto simp: eval_nat_numeral length_Suc_conv)

lemma be_val_2: "be_val [a, b] = (push_bit 8 (ucast a) OR ucast b :: 'a::len word)"
  by (simp add: be_val_def)

lemma be_val_4:
  "be_val [a, b, c, d] = (push_bit 24 (ucast a) OR push_bit 16 (ucast b) OR push_bit 8 (ucast c)
     OR ucast d :: 'a::len word)"
  by (simp add: be_val_def push_bit_or ac_simps)

lemma decode_u16_be: "decode_u16 p = (if length p \<noteq> 2 then None else Some (be_val p))"
  by (auto simp: decode_u16_def length2_conv be_val_2)

lemma rd_be_u32_be: "off + 4 \<le> length d \<Longrightarrow> rd_be_u32 d off = be_val (take 4 (drop off d))"
proof -
  assume "off + 4 \<le> length d"
  then have "length (take 4 (drop off d)) = 4" by simp
  then obtain a b c e where t: "take 4 (drop off d) = [a, b, c, e]"
    unfolding length4_conv by blast
  have "d ! (off + k) = take 4 (drop off d) ! k" if "k < 4" for k
    using that \<open>off + 4 \<le> length d\<close> by simp
  from this [of 0] this [of 1] this [of 2] this [of 3]
  have "d ! off = a" "d ! (off + 1) = b" "d ! (off + 2) = c" "d ! (off + 3) = e"
    by (simp_all add: t)
  then show ?thesis by (simp add: t rd_be_u32_def be_val_4)
qed

lemma decode_u32_be: "decode_u32 p = (if length p \<noteq> 4 then None else Some (be_val p))"
  by (simp add: decode_u32_def rd_be_u32_be)

lemma decode_u64_be: "decode_u64 p = (if length p \<noteq> 8 then None else Some (be_val p))"
  by (simp add: decode_u64_def be_val_def)

lemma cr_next_field [codec_simps]:
  assumes "fits32 p"
  shows "cr_next (canonical_reader (field t p @ rest)) = (Some (t, p), canonical_reader rest)"
proof -
  let ?d = "field t p @ rest"
  have tag: "push_bit 8 (ucast (?d ! 0)) OR ucast (?d ! 1) = t"
  proof -
    have "put_be_u16 t = [?d ! 0, ?d ! 1]"
      by (simp add: field_def put_be_u16_def)
    then have "be_val [?d ! 0, ?d ! 1] = (be_val (put_be_u16 t) :: u16)" by simp
    also have "\<dots> = t" by (simp add: put_be_u16_be)
    finally show ?thesis by (simp only: be_val_2)
  qed
  have "rd_be_u32 ?d 2 = be_val (take 4 (drop 2 ?d))"
    by (rule rd_be_u32_be) simp
  also have "take 4 (drop 2 ?d) = put_be_u32 (word_of_nat (length p))"
    by (simp add: field_def)
  finally have len: "rd_be_u32 ?d 2 = word_of_nat (length p)"
    by (simp add: put_be_u32_def)
  have ulen: "unat (word_of_nat (length p) :: u32) = length p"
    using assms by (simp add: fits32_def unat_of_nat)
  have d6: "drop 6 ?d = p @ rest"
    by (simp add: field_def)
  have ne: "?d \<noteq> []" by (simp add: field_def put_be_u16_def)
  show ?thesis
    unfolding cr_next_def Let_def canonical_reader_def
    using ne tag d6 by (simp del: append_is_Nil_conv drop_append add: len ulen) simp
qed

lemma cr_next_Nil [codec_simps]: "cr_next (canonical_reader []) = (None, canonical_reader [])"
  by (simp add: cr_next_def canonical_reader_def)

text \<open>Conversely, whatever \<open>next\<close> accepts is a field followed by the unread rest.\<close>

lemma cr_next_SomeD:
  assumes "cr_next r = (Some (t, p), r')"
  shows "cr_rest r = field t p @ cr_rest r'" and "fits32 p" and "cr_malformed r' = cr_malformed r"
proof -
  let ?d = "cr_rest r" and ?len = "rd_be_u32 (cr_rest r) 2"
  from assms have l6: "6 \<le> length ?d" and le: "unat ?len \<le> length ?d - 6"
    and t: "t = push_bit 8 (ucast (?d ! 0)) OR ucast (?d ! 1)"
    and p: "p = take (unat ?len) (drop 6 ?d)"
    and r': "r' = r\<lparr>cr_rest := drop (unat ?len) (drop 6 ?d)\<rparr>"
    by (auto simp: cr_next_def Let_def split: if_splits)
  have "length p = unat ?len" using p le by simp
  moreover have "unat ?len < 2 ^ 32" using unsigned_less [of ?len] by simp
  ultimately show "fits32 p" by (simp add: fits32_def)
  have len: "word_of_nat (length p) = ?len" using \<open>length p = unat ?len\<close> by simp
  have "put_be_u16 t = be_bytes 2 (be_val (take 2 ?d) :: u16)"
  proof -
    have "take 2 ?d = [?d ! 0, ?d ! 1]"
      using l6 by (cases "cr_rest r"; cases "tl (cr_rest r)") (auto simp: numeral_2_eq_2)
    then show ?thesis by (simp add: put_be_u16_be be_val_2 t)
  qed
  also have "\<dots> = take 2 ?d" using l6 by (intro be_bytes_u16) simp
  finally have a: "put_be_u16 t = take 2 ?d" .
  have "put_be_u32 (word_of_nat (length p)) = be_bytes 4 (be_val (take 4 (drop 2 ?d)) :: u32)"
    using l6 by (simp only: len) (simp add: put_be_u32_def rd_be_u32_be)
  also have "\<dots> = take 4 (drop 2 ?d)" using l6 by (intro be_bytes_u32) simp
  finally have b: "put_be_u32 (word_of_nat (length p)) = take 4 (drop 2 ?d)" .
  have "?d = take 2 ?d @ take 4 (drop 2 ?d) @ drop 6 ?d"
    using append_take_drop_id [of 2 ?d] append_take_drop_id [of 4 "drop 2 ?d"] by (simp del: append_take_drop_id)
  moreover have "p @ cr_rest r' = drop 6 ?d"
    unfolding p r' by (simp del: drop_drop)
  ultimately show "cr_rest r = field t p @ cr_rest r'"
    unfolding field_def a b by simp
  show "cr_malformed r' = cr_malformed r" using r' by simp
qed

lemma field_inject:
  assumes "field t p @ a = field t' p' @ b" and "fits32 p" and "fits32 p'"
  shows "t = t' \<and> p = p' \<and> a = b"
proof -
  have "cr_next (canonical_reader (field t p @ a)) = cr_next (canonical_reader (field t' p' @ b))"
    using assms(1) by simp
  with assms(2,3) show ?thesis by (simp add: cr_next_field) (simp add: canonical_reader_def)
qed

lemma cr_need_field [codec_simps]:
  "fits32 p \<Longrightarrow> cr_need t (canonical_reader (field t p @ rest)) = Some (p, canonical_reader rest)"
  by (simp add: cr_need_def cr_next_field)

lemma cr_need_SomeD:
  "cr_need t r = Some (p, r') \<Longrightarrow> cr_rest r = field t p @ cr_rest r' \<and> fits32 p \<and> cr_malformed r' = cr_malformed r"
  by (auto simp: cr_need_def split: prod.splits option.splits if_splits dest: cr_next_SomeD)

lemma reader_loop_field [codec_simps]:
  "fits32 p \<Longrightarrow> reader_loop body (canonical_reader (field t p @ rest)) s =
     (case body t p s of None \<Rightarrow> None | Some s' \<Rightarrow> reader_loop body (canonical_reader rest) s')"
  by (subst reader_loop.simps) (simp add: cr_next_field)

lemma reader_loop_Nil [codec_simps]:
  "reader_loop body (canonical_reader []) s = Some (s, canonical_reader [])"
  by (subst reader_loop.simps) (simp add: cr_next_Nil)

lemma loop_decode_Nil [codec_simps]: "loop_decode body [] s = Some s"
  by (simp add: loop_decode_def reader_loop_Nil) (simp add: canonical_reader_def)

lemma loop_decode_field:
  "fits32 p \<Longrightarrow> loop_decode body (field t p @ rest) s =
     (case body t p s of None \<Rightarrow> None | Some s' \<Rightarrow> loop_decode body rest s')"
  by (auto simp: loop_decode_def reader_loop_field split: option.splits)

lemma fits32_small [simp]:
  "fits32 [b]" "fits32 (put_be_u16 v16)" "fits32 (put_be_u32 v32)" "fits32 (put_be_u64 v64)"
  by (simp_all add: fits32_def)

lemma fits32_bytes_of_string [simp]: "fits32 (bytes_of_string s) \<longleftrightarrow> fits32 s"
  by (simp add: fits32_def)

section \<open>Typed payloads\<close>

text \<open>
  The contract between a typed writer and the decoder of its payload: what is decoded is what was
  encoded, and a decoder accepts nothing but encodings. The typed fields of every record codec of
  the repository rest on it.
\<close>

locale payload_codec =
  fixes enc :: "'a \<Rightarrow> bytes" and dec :: "bytes \<Rightarrow> 'a option"
  assumes dec_enc: "dec (enc v) = Some v"
    and enc_dec: "dec p = Some v \<Longrightarrow> enc v = p"
begin

lemma read_field_enc:
  "fits32 (enc v) \<Longrightarrow> read_field t dec (canonical_reader (field t (enc v) @ rest)) = Some (v, canonical_reader rest)"
  by (simp add: read_field_def cr_need_field dec_enc)

lemma read_field_SomeD:
  "read_field t dec r = Some (v, r') \<Longrightarrow> cr_rest r = field t (enc v) @ cr_rest r'"
  by (auto simp: read_field_def split: option.splits dest!: cr_need_SomeD enc_dec)

lemma enc_inject: "enc v = enc w \<longleftrightarrow> v = w"
  by (metis dec_enc option.inject)

end

interpretation u16c: payload_codec put_be_u16 decode_u16
  by unfold_locales (auto simp: decode_u16_be put_be_u16_be split: if_splits)

interpretation u32c: payload_codec put_be_u32 decode_u32
  by unfold_locales (auto simp: decode_u32_be put_be_u32_def split: if_splits)

interpretation u64c: payload_codec put_be_u64 decode_u64
  by unfold_locales (auto simp: decode_u64_be put_be_u64_def split: if_splits)

interpretation i64c: payload_codec put_be_u64 decode_i64
  by unfold_locales (simp_all add: decode_i64_def u64c.dec_enc u64c.enc_dec)

interpretation f64c: payload_codec put_be_u64 decode_f64
  by unfold_locales (simp_all add: decode_f64_def u64c.dec_enc u64c.enc_dec)

interpretation strc: payload_codec bytes_of_string decode_str
  by unfold_locales (auto simp: decode_str_def)

lemma decode_bool_put [simp, codec_simps]: "decode_bool [if b then 1 else 0] = Some b"
  by (simp add: decode_bool_def)

lemma read_bool_field [codec_simps]:
  "read_field t decode_bool (canonical_reader (field t [if b then 1 else 0] @ rest)) = Some (b, canonical_reader rest)"
  by (simp add: read_field_def cr_need_field)

lemmas leaf_codecs [codec_simps] =
  u16c.dec_enc u32c.dec_enc u64c.dec_enc i64c.dec_enc f64c.dec_enc strc.dec_enc

lemmas read_leaf [codec_simps] =
  u32c.read_field_enc [OF fits32_small(3)] u64c.read_field_enc [OF fits32_small(4)]
  i64c.read_field_enc [OF fits32_small(4)] f64c.read_field_enc [OF fits32_small(4)]
  strc.read_field_enc [simplified]

section \<open>Whole streams\<close>

text \<open>The stream of a list of tagged payloads, and the list of the fields a reader returns.\<close>

definition write_fields :: "(u16 \<times> bytes) list \<Rightarrow> bytes" where
  "write_fields fs = concat (map (\<lambda>(t, p). put_bytes t p) fs)"

definition read_fields :: "bytes \<Rightarrow> (u16 \<times> bytes) list option" where
  "read_fields d = loop_decode (\<lambda>t p fs. Some (fs @ [(t, p)])) d []"

lemma collect_write_fields:
  "\<forall>(t, p) \<in> set fs. fits32 p \<Longrightarrow>
     loop_decode (\<lambda>t p fs. Some (fs @ [(t, p)])) (write_fields fs) acc = Some (acc @ fs)"
proof (induction fs arbitrary: acc)
  case Nil
  then show ?case by (simp add: write_fields_def loop_decode_Nil)
next
  case (Cons f fs)
  obtain t p where f: "f = (t, p)" by (cases f)
  have "loop_decode (\<lambda>t p fs. Some (fs @ [(t, p)])) (field t p @ write_fields fs) acc
      = loop_decode (\<lambda>t p fs. Some (fs @ [(t, p)])) (write_fields fs) (acc @ [f])"
    using Cons.prems by (simp add: f loop_decode_field)
  with Cons show ?case by (simp add: f write_fields_def put_is_field)
qed

lemma collect_sound:
  "reader_loop (\<lambda>t p fs. Some (fs @ [(t, p)])) r acc = Some (fs, r') \<Longrightarrow>
     \<exists>gs. fs = acc @ gs \<and> cr_malformed r' = (cr_malformed r \<or> cr_malformed r')
       \<and> (\<not> cr_malformed r' \<longrightarrow> cr_rest r = write_fields gs \<and> (\<forall>(t, p) \<in> set gs. fits32 p))"
proof (induction "\<lambda>(t :: u16) (p :: bytes) fs. Some (fs @ [(t, p)])" r acc rule: reader_loop.induct)
  case (1 r s)
  show ?case
  proof (cases "cr_next r")
    case (Pair x r1)
    show ?thesis
    proof (cases x)
      case None
      with Pair "1.prems" have "fs = s" "r' = r1"
        by (auto simp: reader_loop.simps [of _ r s])
      moreover have "cr_malformed r1 \<or> (r1 = r \<and> cr_rest r = [])"
        using Pair None by (auto simp: cr_next_def Let_def split: if_splits)
      moreover have "cr_malformed r \<Longrightarrow> cr_malformed r1"
        using Pair None by (auto simp: cr_next_def Let_def split: if_splits)
      ultimately show ?thesis by (auto simp: write_fields_def)
    next
      case (Some tp)
      obtain t p where tp: "tp = (t, p)" by (cases tp)
      note nx = Pair [unfolded Some tp]
      have "reader_loop (\<lambda>t p fs. Some (fs @ [(t, p)])) r1 (s @ [(t, p)]) = Some (fs, r')"
        using "1.prems" nx by (simp add: reader_loop.simps [of _ r s])
      then obtain gs where "fs = (s @ [(t, p)]) @ gs"
        and "cr_malformed r' = (cr_malformed r1 \<or> cr_malformed r')"
        and "\<not> cr_malformed r' \<longrightarrow> cr_rest r1 = write_fields gs \<and> (\<forall>(t, p) \<in> set gs. fits32 p)"
        using "1.hyps" [OF nx [symmetric]] by blast
      then show ?thesis
        using cr_next_SomeD [OF nx]
        by (intro exI [of _ "(t, p) # gs"]) (auto simp: write_fields_def put_is_field)
    qed
  qed
qed

text \<open>
  C36: the canonical stream is unambiguous. A reader that runs over a byte sequence without becoming
  malformed returns exactly the fields a writer put there, in order, and every list of fields whose
  payloads fit the 32-bit length prefix is read back unchanged; nothing else is accepted.
\<close>

theorem canonical_stream_unambiguous:
  "read_fields d = Some fs \<longleftrightarrow> d = write_fields fs \<and> list_all (\<lambda>(t, p). fits32 p) fs"
proof
  assume "read_fields d = Some fs"
  then obtain r where "reader_loop (\<lambda>t p fs. Some (fs @ [(t, p)])) (canonical_reader d) [] = Some (fs, r)"
    and "\<not> cr_malformed r"
    by (auto simp: read_fields_def loop_decode_def split: option.splits if_splits)
  from collect_sound [OF this(1)] this(2)
  show "d = write_fields fs \<and> list_all (\<lambda>(t, p). fits32 p) fs"
    by (auto simp: canonical_reader_def list_all_iff)
next
  assume "d = write_fields fs \<and> list_all (\<lambda>(t, p). fits32 p) fs"
  then show "read_fields d = Some fs"
    using collect_write_fields [of fs "[]"] by (simp add: read_fields_def list_all_iff)
qed

end
