(* ===== verification/GC_Types.thy ===== *)
theory GC_Types
  imports GC_Ids GC_Canonical
begin

text \<open>
  The typed descriptors of \<open>include/graphcache/types.hpp\<close>, \<open>dependencies.hpp\<close> and \<open>topology.hpp\<close>
  and the diagnostic names of \<open>src/types.cpp\<close>.

  The scoped enumerations have a fixed underlying type, and the decoders cast any \<open>uint32_t\<close> they
  read to them without a range check. Each is therefore a datatype with the code's enumerators and
  one further constructor for a value that names none of them; \<open>X_code\<close> and \<open>X_of\<close> are the two
  \<open>static_cast\<close>s and \<open>X_named\<close> excludes the representations a cast never yields (an enumerator's own
  number under the extra constructor). The contract is the locale \<open>enum_code\<close>, interpreted for
  every enumeration. \<open>X_default\<close> is a value-initialised struct with the code's member initialisers.
\<close>

section \<open>Casts between an enumeration and its underlying type\<close>

locale enum_code =
  fixes to_code :: "'e \<Rightarrow> 'w::len word" and of_code :: "'w word \<Rightarrow> 'e" and named :: "'e \<Rightarrow> bool"
  assumes of_to: "named x \<Longrightarrow> of_code (to_code x) = x"
    and to_of: "to_code (of_code v) = v"
    and named_of: "named (of_code v)"
begin

lemma to_code_inject: "named x \<Longrightarrow> named y \<Longrightarrow> to_code x = to_code y \<longleftrightarrow> x = y"
  by (metis of_to)

lemma of_code_inject: "of_code v = of_code w \<longleftrightarrow> v = w"
  by (metis to_of)

end

section \<open>Enumerations\<close>

datatype BackendKind = BK_Cpu | BK_Cuda | BK_other u32

primrec BackendKind_code :: "BackendKind \<Rightarrow> u32" where
  "BackendKind_code BK_Cpu = 1"
| "BackendKind_code BK_Cuda = 2"
| "BackendKind_code (BK_other v) = v"

definition BackendKind_of :: "u32 \<Rightarrow> BackendKind" where
  "BackendKind_of v = (
     if v = 1 then BK_Cpu
     else if v = 2 then BK_Cuda
     else BK_other v)"

primrec BackendKind_named :: "BackendKind \<Rightarrow> bool" where
  "BackendKind_named BK_Cpu = True"
| "BackendKind_named BK_Cuda = True"
| "BackendKind_named (BK_other v) = (v \<noteq> 1 \<and> v \<noteq> 2)"

primrec BackendKind_to_string :: "BackendKind \<Rightarrow> string" where
  "BackendKind_to_string BK_Cpu = ''cpu''"
| "BackendKind_to_string BK_Cuda = ''cuda''"
| "BackendKind_to_string (BK_other v) = ''unknown''"

datatype AcceleratorVendor = AV_Cpu | AV_Nvidia | AV_Amd | AV_Intel | AV_Generic | AV_other u32

primrec AcceleratorVendor_code :: "AcceleratorVendor \<Rightarrow> u32" where
  "AcceleratorVendor_code AV_Cpu = 1"
| "AcceleratorVendor_code AV_Nvidia = 2"
| "AcceleratorVendor_code AV_Amd = 3"
| "AcceleratorVendor_code AV_Intel = 4"
| "AcceleratorVendor_code AV_Generic = 99"
| "AcceleratorVendor_code (AV_other v) = v"

definition AcceleratorVendor_of :: "u32 \<Rightarrow> AcceleratorVendor" where
  "AcceleratorVendor_of v = (
     if v = 1 then AV_Cpu
     else if v = 2 then AV_Nvidia
     else if v = 3 then AV_Amd
     else if v = 4 then AV_Intel
     else if v = 99 then AV_Generic
     else AV_other v)"

primrec AcceleratorVendor_named :: "AcceleratorVendor \<Rightarrow> bool" where
  "AcceleratorVendor_named AV_Cpu = True"
| "AcceleratorVendor_named AV_Nvidia = True"
| "AcceleratorVendor_named AV_Amd = True"
| "AcceleratorVendor_named AV_Intel = True"
| "AcceleratorVendor_named AV_Generic = True"
| "AcceleratorVendor_named (AV_other v) = (v \<noteq> 1 \<and> v \<noteq> 2 \<and> v \<noteq> 3 \<and> v \<noteq> 4 \<and> v \<noteq> 99)"

primrec AcceleratorVendor_to_string :: "AcceleratorVendor \<Rightarrow> string" where
  "AcceleratorVendor_to_string AV_Cpu = ''cpu''"
| "AcceleratorVendor_to_string AV_Nvidia = ''nvidia''"
| "AcceleratorVendor_to_string AV_Amd = ''amd''"
| "AcceleratorVendor_to_string AV_Intel = ''intel''"
| "AcceleratorVendor_to_string AV_Generic = ''generic''"
| "AcceleratorVendor_to_string (AV_other v) = ''unknown''"

datatype Datatype = DT_None | DT_F32 | DT_F16 | DT_BF16 | DT_F64 | DT_I8 | DT_I16 | DT_I32
     | DT_I64 | DT_U8 | DT_U16 | DT_U32 | DT_U64 | DT_Bool | DT_other u32

primrec Datatype_code :: "Datatype \<Rightarrow> u32" where
  "Datatype_code DT_None = 0"
| "Datatype_code DT_F32 = 1"
| "Datatype_code DT_F16 = 2"
| "Datatype_code DT_BF16 = 3"
| "Datatype_code DT_F64 = 4"
| "Datatype_code DT_I8 = 5"
| "Datatype_code DT_I16 = 6"
| "Datatype_code DT_I32 = 7"
| "Datatype_code DT_I64 = 8"
| "Datatype_code DT_U8 = 9"
| "Datatype_code DT_U16 = 10"
| "Datatype_code DT_U32 = 11"
| "Datatype_code DT_U64 = 12"
| "Datatype_code DT_Bool = 13"
| "Datatype_code (DT_other v) = v"

definition Datatype_of :: "u32 \<Rightarrow> Datatype" where
  "Datatype_of v = (
     if v = 0 then DT_None
     else if v = 1 then DT_F32
     else if v = 2 then DT_F16
     else if v = 3 then DT_BF16
     else if v = 4 then DT_F64
     else if v = 5 then DT_I8
     else if v = 6 then DT_I16
     else if v = 7 then DT_I32
     else if v = 8 then DT_I64
     else if v = 9 then DT_U8
     else if v = 10 then DT_U16
     else if v = 11 then DT_U32
     else if v = 12 then DT_U64
     else if v = 13 then DT_Bool
     else DT_other v)"

primrec Datatype_named :: "Datatype \<Rightarrow> bool" where
  "Datatype_named DT_None = True"
| "Datatype_named DT_F32 = True"
| "Datatype_named DT_F16 = True"
| "Datatype_named DT_BF16 = True"
| "Datatype_named DT_F64 = True"
| "Datatype_named DT_I8 = True"
| "Datatype_named DT_I16 = True"
| "Datatype_named DT_I32 = True"
| "Datatype_named DT_I64 = True"
| "Datatype_named DT_U8 = True"
| "Datatype_named DT_U16 = True"
| "Datatype_named DT_U32 = True"
| "Datatype_named DT_U64 = True"
| "Datatype_named DT_Bool = True"
| "Datatype_named (DT_other v) = (v \<noteq> 0 \<and> v \<noteq> 1 \<and> v \<noteq> 2 \<and> v \<noteq> 3 \<and> v \<noteq> 4 \<and> v \<noteq> 5 \<and> v \<noteq> 6 \<and> v \<noteq> 7 \<and> v \<noteq> 8 \<and> v \<noteq> 9 \<and> v \<noteq> 10 \<and> v \<noteq> 11 \<and> v \<noteq> 12 \<and> v \<noteq> 13)"

primrec Datatype_to_string :: "Datatype \<Rightarrow> string" where
  "Datatype_to_string DT_None = ''none''"
| "Datatype_to_string DT_F32 = ''f32''"
| "Datatype_to_string DT_F16 = ''f16''"
| "Datatype_to_string DT_BF16 = ''bf16''"
| "Datatype_to_string DT_F64 = ''f64''"
| "Datatype_to_string DT_I8 = ''i8''"
| "Datatype_to_string DT_I16 = ''i16''"
| "Datatype_to_string DT_I32 = ''i32''"
| "Datatype_to_string DT_I64 = ''i64''"
| "Datatype_to_string DT_U8 = ''u8''"
| "Datatype_to_string DT_U16 = ''u16''"
| "Datatype_to_string DT_U32 = ''u32''"
| "Datatype_to_string DT_U64 = ''u64''"
| "Datatype_to_string DT_Bool = ''bool''"
| "Datatype_to_string (DT_other v) = ''unknown''"

datatype TensorLayout = TL_Contiguous | TL_RowMajor | TL_ColumnMajor | TL_NCHW | TL_NHWC
     | TL_NCDHW | TL_NDHWC | TL_CustomBlocked | TL_other u32

primrec TensorLayout_code :: "TensorLayout \<Rightarrow> u32" where
  "TensorLayout_code TL_Contiguous = 1"
| "TensorLayout_code TL_RowMajor = 2"
| "TensorLayout_code TL_ColumnMajor = 3"
| "TensorLayout_code TL_NCHW = 4"
| "TensorLayout_code TL_NHWC = 5"
| "TensorLayout_code TL_NCDHW = 6"
| "TensorLayout_code TL_NDHWC = 7"
| "TensorLayout_code TL_CustomBlocked = 8"
| "TensorLayout_code (TL_other v) = v"

definition TensorLayout_of :: "u32 \<Rightarrow> TensorLayout" where
  "TensorLayout_of v = (
     if v = 1 then TL_Contiguous
     else if v = 2 then TL_RowMajor
     else if v = 3 then TL_ColumnMajor
     else if v = 4 then TL_NCHW
     else if v = 5 then TL_NHWC
     else if v = 6 then TL_NCDHW
     else if v = 7 then TL_NDHWC
     else if v = 8 then TL_CustomBlocked
     else TL_other v)"

primrec TensorLayout_named :: "TensorLayout \<Rightarrow> bool" where
  "TensorLayout_named TL_Contiguous = True"
| "TensorLayout_named TL_RowMajor = True"
| "TensorLayout_named TL_ColumnMajor = True"
| "TensorLayout_named TL_NCHW = True"
| "TensorLayout_named TL_NHWC = True"
| "TensorLayout_named TL_NCDHW = True"
| "TensorLayout_named TL_NDHWC = True"
| "TensorLayout_named TL_CustomBlocked = True"
| "TensorLayout_named (TL_other v) = (v \<noteq> 1 \<and> v \<noteq> 2 \<and> v \<noteq> 3 \<and> v \<noteq> 4 \<and> v \<noteq> 5 \<and> v \<noteq> 6 \<and> v \<noteq> 7 \<and> v \<noteq> 8)"

primrec TensorLayout_to_string :: "TensorLayout \<Rightarrow> string" where
  "TensorLayout_to_string TL_Contiguous = ''contiguous''"
| "TensorLayout_to_string TL_RowMajor = ''row_major''"
| "TensorLayout_to_string TL_ColumnMajor = ''column_major''"
| "TensorLayout_to_string TL_NCHW = ''nchw''"
| "TensorLayout_to_string TL_NHWC = ''nhwc''"
| "TensorLayout_to_string TL_NCDHW = ''ncdhw''"
| "TensorLayout_to_string TL_NDHWC = ''ndhwc''"
| "TensorLayout_to_string TL_CustomBlocked = ''custom_blocked''"
| "TensorLayout_to_string (TL_other v) = ''unknown''"

datatype QuantizationMode = QM_None | QM_Int8 | QM_Int4 | QM_FP8 | QM_Custom | QM_other u32

primrec QuantizationMode_code :: "QuantizationMode \<Rightarrow> u32" where
  "QuantizationMode_code QM_None = 0"
| "QuantizationMode_code QM_Int8 = 1"
| "QuantizationMode_code QM_Int4 = 2"
| "QuantizationMode_code QM_FP8 = 3"
| "QuantizationMode_code QM_Custom = 4"
| "QuantizationMode_code (QM_other v) = v"

definition QuantizationMode_of :: "u32 \<Rightarrow> QuantizationMode" where
  "QuantizationMode_of v = (
     if v = 0 then QM_None
     else if v = 1 then QM_Int8
     else if v = 2 then QM_Int4
     else if v = 3 then QM_FP8
     else if v = 4 then QM_Custom
     else QM_other v)"

primrec QuantizationMode_named :: "QuantizationMode \<Rightarrow> bool" where
  "QuantizationMode_named QM_None = True"
| "QuantizationMode_named QM_Int8 = True"
| "QuantizationMode_named QM_Int4 = True"
| "QuantizationMode_named QM_FP8 = True"
| "QuantizationMode_named QM_Custom = True"
| "QuantizationMode_named (QM_other v) = (v \<noteq> 0 \<and> v \<noteq> 1 \<and> v \<noteq> 2 \<and> v \<noteq> 3 \<and> v \<noteq> 4)"

datatype BindingClass = BC_Immutable | BC_ReplayMutable | BC_RecaptureRequired
     | BC_BackendValidated | BC_other u32

primrec BindingClass_code :: "BindingClass \<Rightarrow> u32" where
  "BindingClass_code BC_Immutable = 1"
| "BindingClass_code BC_ReplayMutable = 2"
| "BindingClass_code BC_RecaptureRequired = 3"
| "BindingClass_code BC_BackendValidated = 4"
| "BindingClass_code (BC_other v) = v"

definition BindingClass_of :: "u32 \<Rightarrow> BindingClass" where
  "BindingClass_of v = (
     if v = 1 then BC_Immutable
     else if v = 2 then BC_ReplayMutable
     else if v = 3 then BC_RecaptureRequired
     else if v = 4 then BC_BackendValidated
     else BC_other v)"

primrec BindingClass_named :: "BindingClass \<Rightarrow> bool" where
  "BindingClass_named BC_Immutable = True"
| "BindingClass_named BC_ReplayMutable = True"
| "BindingClass_named BC_RecaptureRequired = True"
| "BindingClass_named BC_BackendValidated = True"
| "BindingClass_named (BC_other v) = (v \<noteq> 1 \<and> v \<noteq> 2 \<and> v \<noteq> 3 \<and> v \<noteq> 4)"

primrec BindingClass_to_string :: "BindingClass \<Rightarrow> string" where
  "BindingClass_to_string BC_Immutable = ''immutable''"
| "BindingClass_to_string BC_ReplayMutable = ''replay_mutable''"
| "BindingClass_to_string BC_RecaptureRequired = ''recapture_required''"
| "BindingClass_to_string BC_BackendValidated = ''backend_validated''"
| "BindingClass_to_string (BC_other v) = ''unknown''"

datatype CaptureMode = CM_None | CM_StreamCapture | CM_LegacyStreamCapture | CM_ThreadLocalCapture
     | CM_RelaxedStreamCapture | CM_DestroyStreamCapture | CM_BackendManaged | CM_other u32

primrec CaptureMode_code :: "CaptureMode \<Rightarrow> u32" where
  "CaptureMode_code CM_None = 0"
| "CaptureMode_code CM_StreamCapture = 1"
| "CaptureMode_code CM_LegacyStreamCapture = 2"
| "CaptureMode_code CM_ThreadLocalCapture = 3"
| "CaptureMode_code CM_RelaxedStreamCapture = 4"
| "CaptureMode_code CM_DestroyStreamCapture = 5"
| "CaptureMode_code CM_BackendManaged = 6"
| "CaptureMode_code (CM_other v) = v"

definition CaptureMode_of :: "u32 \<Rightarrow> CaptureMode" where
  "CaptureMode_of v = (
     if v = 0 then CM_None
     else if v = 1 then CM_StreamCapture
     else if v = 2 then CM_LegacyStreamCapture
     else if v = 3 then CM_ThreadLocalCapture
     else if v = 4 then CM_RelaxedStreamCapture
     else if v = 5 then CM_DestroyStreamCapture
     else if v = 6 then CM_BackendManaged
     else CM_other v)"

primrec CaptureMode_named :: "CaptureMode \<Rightarrow> bool" where
  "CaptureMode_named CM_None = True"
| "CaptureMode_named CM_StreamCapture = True"
| "CaptureMode_named CM_LegacyStreamCapture = True"
| "CaptureMode_named CM_ThreadLocalCapture = True"
| "CaptureMode_named CM_RelaxedStreamCapture = True"
| "CaptureMode_named CM_DestroyStreamCapture = True"
| "CaptureMode_named CM_BackendManaged = True"
| "CaptureMode_named (CM_other v) = (v \<noteq> 0 \<and> v \<noteq> 1 \<and> v \<noteq> 2 \<and> v \<noteq> 3 \<and> v \<noteq> 4 \<and> v \<noteq> 5 \<and> v \<noteq> 6)"

primrec CaptureMode_to_string :: "CaptureMode \<Rightarrow> string" where
  "CaptureMode_to_string CM_None = ''none''"
| "CaptureMode_to_string CM_StreamCapture = ''stream_capture''"
| "CaptureMode_to_string CM_LegacyStreamCapture = ''legacy_stream_capture''"
| "CaptureMode_to_string CM_ThreadLocalCapture = ''thread_local_capture''"
| "CaptureMode_to_string CM_RelaxedStreamCapture = ''relaxed_stream_capture''"
| "CaptureMode_to_string CM_DestroyStreamCapture = ''destroy_stream_capture''"
| "CaptureMode_to_string CM_BackendManaged = ''backend_managed''"
| "CaptureMode_to_string (CM_other v) = ''none''"

datatype StreamSemantics = SS_Default | SS_StreamOrdered | SS_Contextified | SS_BackendSpecific
     | SS_other u32

primrec StreamSemantics_code :: "StreamSemantics \<Rightarrow> u32" where
  "StreamSemantics_code SS_Default = 1"
| "StreamSemantics_code SS_StreamOrdered = 2"
| "StreamSemantics_code SS_Contextified = 3"
| "StreamSemantics_code SS_BackendSpecific = 4"
| "StreamSemantics_code (SS_other v) = v"

definition StreamSemantics_of :: "u32 \<Rightarrow> StreamSemantics" where
  "StreamSemantics_of v = (
     if v = 1 then SS_Default
     else if v = 2 then SS_StreamOrdered
     else if v = 3 then SS_Contextified
     else if v = 4 then SS_BackendSpecific
     else SS_other v)"

primrec StreamSemantics_named :: "StreamSemantics \<Rightarrow> bool" where
  "StreamSemantics_named SS_Default = True"
| "StreamSemantics_named SS_StreamOrdered = True"
| "StreamSemantics_named SS_Contextified = True"
| "StreamSemantics_named SS_BackendSpecific = True"
| "StreamSemantics_named (SS_other v) = (v \<noteq> 1 \<and> v \<noteq> 2 \<and> v \<noteq> 3 \<and> v \<noteq> 4)"

primrec StreamSemantics_to_string :: "StreamSemantics \<Rightarrow> string" where
  "StreamSemantics_to_string SS_Default = ''default''"
| "StreamSemantics_to_string SS_StreamOrdered = ''stream_ordered''"
| "StreamSemantics_to_string SS_Contextified = ''contextified''"
| "StreamSemantics_to_string SS_BackendSpecific = ''backend_specific''"
| "StreamSemantics_to_string (SS_other v) = ''default''"

datatype NodeCategory = NC_Kernel | NC_MemoryCopy | NC_MemorySet | NC_HostOperation
     | NC_Synchronization | NC_ChildGraph | NC_EventPrimitive | NC_BackendOpaque | NC_other u32

primrec NodeCategory_code :: "NodeCategory \<Rightarrow> u32" where
  "NodeCategory_code NC_Kernel = 1"
| "NodeCategory_code NC_MemoryCopy = 2"
| "NodeCategory_code NC_MemorySet = 3"
| "NodeCategory_code NC_HostOperation = 4"
| "NodeCategory_code NC_Synchronization = 5"
| "NodeCategory_code NC_ChildGraph = 6"
| "NodeCategory_code NC_EventPrimitive = 7"
| "NodeCategory_code NC_BackendOpaque = 8"
| "NodeCategory_code (NC_other v) = v"

definition NodeCategory_of :: "u32 \<Rightarrow> NodeCategory" where
  "NodeCategory_of v = (
     if v = 1 then NC_Kernel
     else if v = 2 then NC_MemoryCopy
     else if v = 3 then NC_MemorySet
     else if v = 4 then NC_HostOperation
     else if v = 5 then NC_Synchronization
     else if v = 6 then NC_ChildGraph
     else if v = 7 then NC_EventPrimitive
     else if v = 8 then NC_BackendOpaque
     else NC_other v)"

primrec NodeCategory_named :: "NodeCategory \<Rightarrow> bool" where
  "NodeCategory_named NC_Kernel = True"
| "NodeCategory_named NC_MemoryCopy = True"
| "NodeCategory_named NC_MemorySet = True"
| "NodeCategory_named NC_HostOperation = True"
| "NodeCategory_named NC_Synchronization = True"
| "NodeCategory_named NC_ChildGraph = True"
| "NodeCategory_named NC_EventPrimitive = True"
| "NodeCategory_named NC_BackendOpaque = True"
| "NodeCategory_named (NC_other v) = (v \<noteq> 1 \<and> v \<noteq> 2 \<and> v \<noteq> 3 \<and> v \<noteq> 4 \<and> v \<noteq> 5 \<and> v \<noteq> 6 \<and> v \<noteq> 7 \<and> v \<noteq> 8)"

primrec NodeCategory_to_string :: "NodeCategory \<Rightarrow> string" where
  "NodeCategory_to_string NC_Kernel = ''kernel''"
| "NodeCategory_to_string NC_MemoryCopy = ''memory_copy''"
| "NodeCategory_to_string NC_MemorySet = ''memory_set''"
| "NodeCategory_to_string NC_HostOperation = ''host_operation''"
| "NodeCategory_to_string NC_Synchronization = ''synchronization''"
| "NodeCategory_to_string NC_ChildGraph = ''child_graph''"
| "NodeCategory_to_string NC_EventPrimitive = ''event_primitive''"
| "NodeCategory_to_string NC_BackendOpaque = ''backend_opaque''"
| "NodeCategory_to_string (NC_other v) = ''unknown''"

datatype WorkloadRevisionMode = WRM_Unspecified | WRM_Explicit | WRM_ContentDerived
     | WRM_other u32

primrec WorkloadRevisionMode_code :: "WorkloadRevisionMode \<Rightarrow> u32" where
  "WorkloadRevisionMode_code WRM_Unspecified = 0"
| "WorkloadRevisionMode_code WRM_Explicit = 1"
| "WorkloadRevisionMode_code WRM_ContentDerived = 2"
| "WorkloadRevisionMode_code (WRM_other v) = v"

definition WorkloadRevisionMode_of :: "u32 \<Rightarrow> WorkloadRevisionMode" where
  "WorkloadRevisionMode_of v = (
     if v = 0 then WRM_Unspecified
     else if v = 1 then WRM_Explicit
     else if v = 2 then WRM_ContentDerived
     else WRM_other v)"

primrec WorkloadRevisionMode_named :: "WorkloadRevisionMode \<Rightarrow> bool" where
  "WorkloadRevisionMode_named WRM_Unspecified = True"
| "WorkloadRevisionMode_named WRM_Explicit = True"
| "WorkloadRevisionMode_named WRM_ContentDerived = True"
| "WorkloadRevisionMode_named (WRM_other v) = (v \<noteq> 0 \<and> v \<noteq> 1 \<and> v \<noteq> 2)"

datatype DependencyKind = DK_Execution | DK_Memory | DK_Stream | DK_Order | DK_Data | DK_other u32

primrec DependencyKind_code :: "DependencyKind \<Rightarrow> u32" where
  "DependencyKind_code DK_Execution = 1"
| "DependencyKind_code DK_Memory = 2"
| "DependencyKind_code DK_Stream = 3"
| "DependencyKind_code DK_Order = 4"
| "DependencyKind_code DK_Data = 5"
| "DependencyKind_code (DK_other v) = v"

definition DependencyKind_of :: "u32 \<Rightarrow> DependencyKind" where
  "DependencyKind_of v = (
     if v = 1 then DK_Execution
     else if v = 2 then DK_Memory
     else if v = 3 then DK_Stream
     else if v = 4 then DK_Order
     else if v = 5 then DK_Data
     else DK_other v)"

primrec DependencyKind_named :: "DependencyKind \<Rightarrow> bool" where
  "DependencyKind_named DK_Execution = True"
| "DependencyKind_named DK_Memory = True"
| "DependencyKind_named DK_Stream = True"
| "DependencyKind_named DK_Order = True"
| "DependencyKind_named DK_Data = True"
| "DependencyKind_named (DK_other v) = (v \<noteq> 1 \<and> v \<noteq> 2 \<and> v \<noteq> 3 \<and> v \<noteq> 4 \<and> v \<noteq> 5)"

interpretation bkc: enum_code BackendKind_code BackendKind_of BackendKind_named
proof unfold_locales
  show "BackendKind_named x \<Longrightarrow> BackendKind_of (BackendKind_code x) = x" for x
    by (cases x) (simp_all add: BackendKind_of_def)
  show "BackendKind_code (BackendKind_of v) = v" "BackendKind_named (BackendKind_of v)" for v
    by (simp_all add: BackendKind_of_def)
qed

interpretation avc: enum_code AcceleratorVendor_code AcceleratorVendor_of AcceleratorVendor_named
proof unfold_locales
  show "AcceleratorVendor_named x \<Longrightarrow> AcceleratorVendor_of (AcceleratorVendor_code x) = x" for x
    by (cases x) (simp_all add: AcceleratorVendor_of_def)
  show "AcceleratorVendor_code (AcceleratorVendor_of v) = v" "AcceleratorVendor_named (AcceleratorVendor_of v)" for v
    by (simp_all add: AcceleratorVendor_of_def)
qed

interpretation dtc: enum_code Datatype_code Datatype_of Datatype_named
proof unfold_locales
  show "Datatype_named x \<Longrightarrow> Datatype_of (Datatype_code x) = x" for x
    by (cases x) (simp_all add: Datatype_of_def)
  show "Datatype_code (Datatype_of v) = v" "Datatype_named (Datatype_of v)" for v
    by (simp_all add: Datatype_of_def)
qed

interpretation tlc: enum_code TensorLayout_code TensorLayout_of TensorLayout_named
proof unfold_locales
  show "TensorLayout_named x \<Longrightarrow> TensorLayout_of (TensorLayout_code x) = x" for x
    by (cases x) (simp_all add: TensorLayout_of_def)
  show "TensorLayout_code (TensorLayout_of v) = v" "TensorLayout_named (TensorLayout_of v)" for v
    by (simp_all add: TensorLayout_of_def)
qed

interpretation qmc: enum_code QuantizationMode_code QuantizationMode_of QuantizationMode_named
proof unfold_locales
  show "QuantizationMode_named x \<Longrightarrow> QuantizationMode_of (QuantizationMode_code x) = x" for x
    by (cases x) (simp_all add: QuantizationMode_of_def)
  show "QuantizationMode_code (QuantizationMode_of v) = v" "QuantizationMode_named (QuantizationMode_of v)" for v
    by (simp_all add: QuantizationMode_of_def)
qed

interpretation bcc: enum_code BindingClass_code BindingClass_of BindingClass_named
proof unfold_locales
  show "BindingClass_named x \<Longrightarrow> BindingClass_of (BindingClass_code x) = x" for x
    by (cases x) (simp_all add: BindingClass_of_def)
  show "BindingClass_code (BindingClass_of v) = v" "BindingClass_named (BindingClass_of v)" for v
    by (simp_all add: BindingClass_of_def)
qed

interpretation cmc: enum_code CaptureMode_code CaptureMode_of CaptureMode_named
proof unfold_locales
  show "CaptureMode_named x \<Longrightarrow> CaptureMode_of (CaptureMode_code x) = x" for x
    by (cases x) (simp_all add: CaptureMode_of_def)
  show "CaptureMode_code (CaptureMode_of v) = v" "CaptureMode_named (CaptureMode_of v)" for v
    by (simp_all add: CaptureMode_of_def)
qed

interpretation ssc: enum_code StreamSemantics_code StreamSemantics_of StreamSemantics_named
proof unfold_locales
  show "StreamSemantics_named x \<Longrightarrow> StreamSemantics_of (StreamSemantics_code x) = x" for x
    by (cases x) (simp_all add: StreamSemantics_of_def)
  show "StreamSemantics_code (StreamSemantics_of v) = v" "StreamSemantics_named (StreamSemantics_of v)" for v
    by (simp_all add: StreamSemantics_of_def)
qed

interpretation ncc: enum_code NodeCategory_code NodeCategory_of NodeCategory_named
proof unfold_locales
  show "NodeCategory_named x \<Longrightarrow> NodeCategory_of (NodeCategory_code x) = x" for x
    by (cases x) (simp_all add: NodeCategory_of_def)
  show "NodeCategory_code (NodeCategory_of v) = v" "NodeCategory_named (NodeCategory_of v)" for v
    by (simp_all add: NodeCategory_of_def)
qed

interpretation wrc: enum_code WorkloadRevisionMode_code WorkloadRevisionMode_of WorkloadRevisionMode_named
proof unfold_locales
  show "WorkloadRevisionMode_named x \<Longrightarrow> WorkloadRevisionMode_of (WorkloadRevisionMode_code x) = x" for x
    by (cases x) (simp_all add: WorkloadRevisionMode_of_def)
  show "WorkloadRevisionMode_code (WorkloadRevisionMode_of v) = v" "WorkloadRevisionMode_named (WorkloadRevisionMode_of v)" for v
    by (simp_all add: WorkloadRevisionMode_of_def)
qed

interpretation dkc: enum_code DependencyKind_code DependencyKind_of DependencyKind_named
proof unfold_locales
  show "DependencyKind_named x \<Longrightarrow> DependencyKind_of (DependencyKind_code x) = x" for x
    by (cases x) (simp_all add: DependencyKind_of_def)
  show "DependencyKind_code (DependencyKind_of v) = v" "DependencyKind_named (DependencyKind_of v)" for v
    by (simp_all add: DependencyKind_of_def)
qed

lemmas enum_casts [codec_simps] =
  bkc.of_to bkc.to_of bkc.named_of
  avc.of_to avc.to_of avc.named_of
  dtc.of_to dtc.to_of dtc.named_of
  tlc.of_to tlc.to_of tlc.named_of
  qmc.of_to qmc.to_of qmc.named_of
  bcc.of_to bcc.to_of bcc.named_of
  cmc.of_to cmc.to_of cmc.named_of
  ssc.of_to ssc.to_of ssc.named_of
  ncc.of_to ncc.to_of ncc.named_of
  wrc.of_to wrc.to_of wrc.named_of
  dkc.of_to dkc.to_of dkc.named_of

section \<open>Descriptors\<close>

record BackendIdentity =
  bk_kind :: BackendKind
  bk_name :: string
  bk_version :: u32
  bk_impl :: string

definition BackendIdentity_default :: BackendIdentity where
  "BackendIdentity_default = \<lparr>bk_kind = BK_Cpu, bk_name = [], bk_version = 1, bk_impl = []\<rparr>"

record RuntimeDescriptor =
  rt_version :: u32
  rt_graph_abi :: u32
  rt_kernel_abi :: u32
  rt_driver_version :: u32
  rt_driver_string :: string

definition RuntimeDescriptor_default :: RuntimeDescriptor where
  "RuntimeDescriptor_default = \<lparr>rt_version = 1, rt_graph_abi = 1, rt_kernel_abi = 1,
     rt_driver_version = 0, rt_driver_string = []\<rparr>"

record DeviceDescriptor =
  dev_vendor :: AcceleratorVendor
  dev_arch :: string
  dev_cc_major :: u32
  dev_cc_minor :: u32
  dev_index :: u32
  dev_name :: string

definition DeviceDescriptor_default :: DeviceDescriptor where
  "DeviceDescriptor_default = \<lparr>dev_vendor = AV_Cpu, dev_arch = [], dev_cc_major = 0, dev_cc_minor = 0,
     dev_index = 0, dev_name = []\<rparr>"

definition compute_capability :: "DeviceDescriptor \<Rightarrow> string" where
  "compute_capability d = (if dev_cc_major d = 0 then []
     else dec_string (unat (dev_cc_major d)) @ ''.'' @ dec_string (unat (dev_cc_minor d)))"

record ShapeDescriptor =
  sh_dims :: "i64 list"
  sh_dynamic :: bool
  sh_max_rank :: u32

definition ShapeDescriptor_default :: ShapeDescriptor where
  "ShapeDescriptor_default = \<lparr>sh_dims = [], sh_dynamic = False, sh_max_rank = 0\<rparr>"

record ScalarSpecialization =
  sc_specialized :: bool
  sc_int :: i64
  sc_float :: f64

definition ScalarSpecialization_default :: ScalarSpecialization where
  "ScalarSpecialization_default = \<lparr>sc_specialized = False, sc_int = 0, sc_float = 0\<rparr>"

record QuantizationConfig =
  q_mode :: QuantizationMode
  q_group_size :: u32
  q_symmetric :: bool
  q_custom_scheme :: string

definition QuantizationConfig_default :: QuantizationConfig where
  "QuantizationConfig_default = \<lparr>q_mode = QM_None, q_group_size = 0, q_symmetric = True, q_custom_scheme = []\<rparr>"

record LaunchGeometry =
  lg_grid_x :: u32
  lg_grid_y :: u32
  lg_grid_z :: u32
  lg_block_x :: u32
  lg_block_y :: u32
  lg_block_z :: u32
  lg_shared_memory :: u32

definition LaunchGeometry_default :: LaunchGeometry where
  "LaunchGeometry_default = \<lparr>lg_grid_x = 1, lg_grid_y = 1, lg_grid_z = 1, lg_block_x = 1, lg_block_y = 1,
     lg_block_z = 1, lg_shared_memory = 0\<rparr>"

record BindingDescriptor =
  bd_class :: BindingClass
  bd_alignment :: u32
  bd_schema :: string
  bd_rebinding_eligible :: bool

definition BindingDescriptor_default :: BindingDescriptor where
  "BindingDescriptor_default = \<lparr>bd_class = BC_Immutable, bd_alignment = 128, bd_schema = [],
     bd_rebinding_eligible = False\<rparr>"

record SynchronizationDescriptor =
  sy_capture_mode :: CaptureMode
  sy_stream_semantics :: StreamSemantics
  sy_external_sync :: bool
  sy_event_count :: u32

definition SynchronizationDescriptor_default :: SynchronizationDescriptor where
  "SynchronizationDescriptor_default = \<lparr>sy_capture_mode = CM_None, sy_stream_semantics = SS_Default,
     sy_external_sync = False, sy_event_count = 0\<rparr>"

record ProvenanceDescriptor =
  pv_timestamp_ms :: u64
  pv_source :: string
  pv_duration_us :: u64
  pv_toolchain :: string
  pv_graph_name :: string

definition ProvenanceDescriptor_default :: ProvenanceDescriptor where
  "ProvenanceDescriptor_default = \<lparr>pv_timestamp_ms = 0, pv_source = [], pv_duration_us = 0,
     pv_toolchain = [], pv_graph_name = []\<rparr>"

record WorkloadIdentity =
  wl_name :: string
  wl_version :: u32
  wl_namespace :: string
  wl_revision_mode :: WorkloadRevisionMode
  wl_model_revision :: string
  wl_policy_generation :: string

definition WorkloadIdentity_default :: WorkloadIdentity where
  "WorkloadIdentity_default = \<lparr>wl_name = [], wl_version = 1, wl_namespace = [],
     wl_revision_mode = WRM_Unspecified, wl_model_revision = [], wl_policy_generation = []\<rparr>"

section \<open>Executable dependencies (\<open>dependencies.hpp\<close>)\<close>

record KernelIdentityRef =
  k_name :: string
  k_hi :: u64
  k_lo :: u64
  k_generation :: GraphGeneration
  k_abi :: u32
  k_digest :: string
  k_provenance :: string
  k_contributes :: bool

definition KernelIdentityRef_default :: KernelIdentityRef where
  "KernelIdentityRef_default = \<lparr>k_name = [], k_hi = 0, k_lo = 0, k_generation = GraphGeneration 0, k_abi = 1,
     k_digest = [], k_provenance = [], k_contributes = True\<rparr>"

text \<open>The user-defined \<open>operator==\<close>: the provenance does not take part.\<close>

definition KernelIdentityRef_eq :: "KernelIdentityRef \<Rightarrow> KernelIdentityRef \<Rightarrow> bool" where
  "KernelIdentityRef_eq a b \<longleftrightarrow> k_name a = k_name b \<and> k_hi a = k_hi b \<and> k_lo a = k_lo b
     \<and> k_generation a = k_generation b \<and> k_abi a = k_abi b \<and> k_digest a = k_digest b
     \<and> k_contributes a = k_contributes b"

section \<open>Graphs (\<open>topology.hpp\<close>)\<close>

record GraphNodeDescriptor =
  n_id :: GraphNodeId
  n_category :: NodeCategory
  n_name :: string
  n_kernel :: KernelIdentityRef
  n_launch :: LaunchGeometry
  n_memory_bytes :: u64
  n_memset_value :: u8
  n_shape :: ShapeDescriptor
  n_datatype :: Datatype
  n_layout :: TensorLayout
  n_scalar :: ScalarSpecialization
  n_quantization :: QuantizationConfig
  n_binding :: BindingDescriptor
  n_required_alignment :: u64
  n_child_hi :: u64
  n_child_lo :: u64
  n_opaque :: bytes
  n_inputs :: "u32 list"
  n_outputs :: "u32 list"

definition GraphNodeDescriptor_default :: GraphNodeDescriptor where
  "GraphNodeDescriptor_default = \<lparr>n_id = GraphNodeId 0 0, n_category = NC_Kernel, n_name = [],
     n_kernel = KernelIdentityRef_default, n_launch = LaunchGeometry_default, n_memory_bytes = 0,
     n_memset_value = 0, n_shape = ShapeDescriptor_default, n_datatype = DT_None, n_layout = TL_Contiguous,
     n_scalar = ScalarSpecialization_default, n_quantization = QuantizationConfig_default,
     n_binding = BindingDescriptor_default, n_required_alignment = 128, n_child_hi = 0, n_child_lo = 0,
     n_opaque = [], n_inputs = [], n_outputs = []\<rparr>"

record GraphEdgeDescriptor =
  e_id :: GraphEdgeId
  e_from :: GraphNodeId
  e_to :: GraphNodeId
  e_kind :: DependencyKind
  e_label :: string

definition GraphEdgeDescriptor_default :: GraphEdgeDescriptor where
  "GraphEdgeDescriptor_default = \<lparr>e_id = GraphEdgeId 0 0, e_from = GraphNodeId 0 0, e_to = GraphNodeId 0 0,
     e_kind = DK_Execution, e_label = []\<rparr>"

text \<open>A \<open>digest_t\<close> is a zero-initialised array of 32 bytes until \<open>finalize\<close> computes it.\<close>

record GraphDescriptor =
  g_artifact :: GraphArtifactId
  g_generation :: GraphGeneration
  g_backend :: BackendIdentity
  g_runtime :: RuntimeDescriptor
  g_device :: DeviceDescriptor
  g_sync :: SynchronizationDescriptor
  g_nodes :: "GraphNodeDescriptor list"
  g_edges :: "GraphEdgeDescriptor list"
  g_dependencies :: "KernelIdentityRef list"
  g_provenance :: ProvenanceDescriptor
  g_topology_canonical :: bytes
  g_topology_digest :: bytes
  g_semantic_canonical :: bytes
  g_semantic_digest :: bytes

definition GraphDescriptor_default :: GraphDescriptor where
  "GraphDescriptor_default = \<lparr>g_artifact = GraphArtifactId 0 0, g_generation = GraphGeneration 0,
     g_backend = BackendIdentity_default, g_runtime = RuntimeDescriptor_default,
     g_device = DeviceDescriptor_default, g_sync = SynchronizationDescriptor_default,
     g_nodes = [], g_edges = [], g_dependencies = [], g_provenance = ProvenanceDescriptor_default,
     g_topology_canonical = [], g_topology_digest = replicate 32 0,
     g_semantic_canonical = [], g_semantic_digest = replicate 32 0\<rparr>"

end
