(* ===== verification/GC_Codec.thy ===== *)
theory GC_Codec
  imports GC_Canonical "HOL-Library.Monad_Syntax"
begin

text \<open>
  Record codecs over the canonical stream, shared by the compatibility key, the descriptor and the
  metadata codecs. The decoders of the repository come in two shapes.

  A strict decoder reads fields in the encoder's order: its contract is the locale \<open>stream_codec\<close>
  (what is decoded is the encoded value up to \<open>view\<close>, and the reader stands behind it), which carries
  over to counted repetitions. A looping decoder dispatches on the tag of every field of a nested
  byte block: its contract is \<open>block_codec\<close>, and a block written as one field of an outer stream is a
  stream codec again (the sublocale). \<open>consumes\<close> is the effect of the loop on a run of fields.
\<close>

section \<open>Repetition\<close>

fun read_many :: "nat \<Rightarrow> (CanonicalReader \<Rightarrow> ('a \<times> CanonicalReader) option) \<Rightarrow> CanonicalReader
    \<Rightarrow> ('a list \<times> CanonicalReader) option" where
  "read_many 0 item r = Some ([], r)"
| "read_many (Suc n) item r = do {
     (x, r1) \<leftarrow> item r;
     (xs, r2) \<leftarrow> read_many n item r1;
     Some (x # xs, r2) }"

text \<open>
  The idiom \<open>{ uint32_t n; if (!decode_u32(p, n) || n > limit) return false; for (i < n) ... }\<close>.
\<close>

definition read_counted :: "u16 \<Rightarrow> nat \<Rightarrow> (CanonicalReader \<Rightarrow> ('a \<times> CanonicalReader) option) \<Rightarrow> CanonicalReader
    \<Rightarrow> ('a list \<times> CanonicalReader) option" where
  "read_counted t limit item r = do {
     (n, r1) \<leftarrow> read_field t decode_u32 r;
     if unat n > limit then None else read_many (unat n) item r1 }"

text \<open>Reading back what the typed writers put.\<close>

lemma read_put [codec_simps]:
  "read_field t decode_u32 (canonical_reader (put_u32 t v32 @ rest)) = Some (v32, canonical_reader rest)"
  "read_field t decode_u64 (canonical_reader (put_u64 t v64 @ rest)) = Some (v64, canonical_reader rest)"
  "read_field t decode_i64 (canonical_reader (put_i64 t v64 @ rest)) = Some (v64, canonical_reader rest)"
  "read_field t decode_f64 (canonical_reader (put_f64 t v64 @ rest)) = Some (v64, canonical_reader rest)"
  "read_field t decode_bool (canonical_reader (put_bool t b @ rest)) = Some (b, canonical_reader rest)"
  "fits32 s \<Longrightarrow> read_field t decode_str (canonical_reader (put_str t s @ rest)) = Some (s, canonical_reader rest)"
  "fits32 p \<Longrightarrow> cr_need t (canonical_reader (put_bytes t p @ rest)) = Some (p, canonical_reader rest)"
  by (simp_all add: put_is_field read_leaf read_bool_field cr_need_field)

text \<open>An enumeration read by an unchecked cast.\<close>

definition decode_enum :: "(u32 \<Rightarrow> 'e) \<Rightarrow> bytes \<Rightarrow> 'e option" where
  "decode_enum of_code p = do { v \<leftarrow> decode_u32 p; Some (of_code v) }"

lemma read_put_enum [codec_simps]:
  "read_field t (decode_enum of_code) (canonical_reader (put_u32 t v @ rest)) = Some (of_code v, canonical_reader rest)"
  by (simp add: read_field_def put_is_field cr_need_field decode_enum_def u32c.dec_enc)

section \<open>Strict decoders\<close>

locale stream_codec =
  fixes enc :: "'a \<Rightarrow> bytes" and dec :: "CanonicalReader \<Rightarrow> ('a \<times> CanonicalReader) option"
    and ok :: "'a \<Rightarrow> bool" and view :: "'a \<Rightarrow> 'a"
  assumes dec_stream: "ok x \<Longrightarrow> dec (canonical_reader (enc x @ rest)) = Some (view x, canonical_reader rest)"
begin

lemma read_many_enc:
  "list_all ok xs \<Longrightarrow>
     read_many (length xs) dec (canonical_reader (concat (map enc xs) @ rest)) = Some (map view xs, canonical_reader rest)"
  by (induction xs) (simp_all add: dec_stream)

lemma read_counted_enc:
  assumes "list_all ok xs" and "length xs \<le> limit" and "limit < 2 ^ 32"
  shows "read_counted t limit dec (canonical_reader (put_u32 t (word_of_nat (length xs))
     @ concat (map enc xs) @ rest)) = Some (map view xs, canonical_reader rest)"
proof -
  have "unat (word_of_nat (length xs) :: u32) = length xs"
    using assms(2,3) by (simp add: unat_of_nat)
  then show ?thesis
    using assms by (simp add: read_counted_def read_put read_many_enc)
qed

lemma prefix_determines:
  assumes "ok x" and "ok y" and "enc x @ a = enc y @ b"
  shows "view x = view y \<and> a = b"
proof -
  have "Some (view x, canonical_reader a) = Some (view y, canonical_reader b)"
    using dec_stream [OF assms(1), of a] dec_stream [OF assms(2), of b] assms(3) by (simp only:)
  then show ?thesis by (simp add: canonical_reader_def)
qed

end

section \<open>Nested blocks\<close>

locale block_codec =
  fixes tag :: u16 and benc :: "'a \<Rightarrow> bytes" and bdec :: "bytes \<Rightarrow> 'a option"
    and bok :: "'a \<Rightarrow> bool" and bview :: "'a \<Rightarrow> 'a"
  assumes bdec_benc: "bok x \<Longrightarrow> bdec (benc x) = Some (bview x)"

sublocale block_codec \<subseteq> outer: stream_codec
  "\<lambda>x. put_bytes tag (benc x)" "read_field tag bdec" "\<lambda>x. bok x \<and> fits32 (benc x)" bview
  by unfold_locales (simp add: put_is_field read_field_def cr_need_field bdec_benc)

section \<open>Looping decoders\<close>

definition consumes :: "(u16 \<Rightarrow> bytes \<Rightarrow> 's \<Rightarrow> 's option) \<Rightarrow> bytes \<Rightarrow> ('s \<Rightarrow> 's) \<Rightarrow> bool" where
  "consumes body d f \<longleftrightarrow> (\<forall>s rest. loop_decode body (d @ rest) s = loop_decode body rest (f s))"

lemma consumes_field: "fits32 p \<Longrightarrow> (\<And>s. body t p s = Some (f s)) \<Longrightarrow> consumes body (field t p) f"
  by (simp add: consumes_def loop_decode_field)

lemma consumes_append: "consumes body a f \<Longrightarrow> consumes body b g \<Longrightarrow> consumes body (a @ b) (\<lambda>s. g (f s))"
  by (simp add: consumes_def)

lemma consumes_if:
  "(c \<Longrightarrow> consumes body d f) \<Longrightarrow> (\<And>s. \<not> c \<Longrightarrow> f s = s) \<Longrightarrow> consumes body (if c then d else []) f"
  by (simp add: consumes_def)

lemma consumes_cong: "consumes body d f \<Longrightarrow> (\<And>s. f s = g s) \<Longrightarrow> consumes body d g"
  by (simp add: consumes_def)

lemma consumes_decode: "consumes body d f \<Longrightarrow> loop_decode body d s = Some (f s)"
  using loop_decode_Nil [of body "f s"] by (simp add: consumes_def) (metis append_Nil2)

lemma loop_decode_last:
  "fits32 p \<Longrightarrow> loop_decode body (field t p) s = body t p s"
  using loop_decode_field [of p body t "[]" s] by (simp add: loop_decode_Nil split: option.splits)

section \<open>Lists of 64-bit numbers\<close>

definition u64s :: "u64 list \<Rightarrow> bytes" where
  "u64s vs = put_be_u32 (word_of_nat (length vs)) @ concat (map put_be_u64 vs)"

lemma u64s_length [size_simps]: "length (u64s vs) = 8 * length vs + 4"
  by (simp add: u64s_def)

lemma fits32_u64s: "fits32 (u64s vs) \<longleftrightarrow> 8 * length vs + 4 < 2 ^ 32"
  by (simp only: fits32_def u64s_length)

lemma put_u64_list_field: "put_u64_list t vs = field t (u64s vs)"
  by (simp add: put_is_field u64s_def)

text \<open>Reading \<open>n\<close> consecutive big-endian numbers; \<open>None\<close> when the payload is too short.\<close>

fun decode_u64s :: "nat \<Rightarrow> bytes \<Rightarrow> u64 list option" where
  "decode_u64s 0 p = Some []"
| "decode_u64s (Suc n) p = (if length p < 8 then None
     else do { v \<leftarrow> decode_u64 (take 8 p); vs \<leftarrow> decode_u64s n (drop 8 p); Some (v # vs) })"

lemma decode_u64s_enc: "decode_u64s (length vs) (concat (map put_be_u64 vs) @ rest) = Some vs"
  by (induction vs) (simp_all add: u64c.dec_enc)

lemma decode_u64s_enc_Nil: "decode_u64s (length vs) (concat (map put_be_u64 vs)) = Some vs"
  using decode_u64s_enc [of vs "[]"] by simp

lemma u64s_parts:
  assumes "length vs < 2 ^ 32"
  shows "decode_u32 (take 4 (u64s vs)) = Some (word_of_nat (length vs))"
    and "unat (word_of_nat (length vs) :: u32) = length vs"
    and "decode_u64s (length vs) (drop 4 (u64s vs)) = Some vs"
  using assms by (simp_all add: u64s_def u32c.dec_enc decode_u64s_enc_Nil unat_of_nat)

end
