(* ===== verification/GC_Topology.thy ===== *)
theory GC_Topology
  imports GC_Types GC_Codec GC_Sha256 GC_Result "HOL-Library.AList"
begin

text \<open>
  Topology validation and canonical graph identity: \<open>src/topology.cpp\<close>.

  \<open>validate_topology\<close> is the code's four passes: node identities, edges, in-degrees and adjacency, and
  Kahn's algorithm. The iteration order of the \<open>unordered_map\<close> of in-degrees is unspecified; it is
  the parameter \<open>ord\<close>, of which only \<open>mset (ord xs) = mset xs\<close> is ever assumed. In-degrees are an
  association list; \<open>--in_degree[nxt]\<close> is met at a positive count only (\<open>kahn_inv_relax\<close>), so the
  wrap-around of the \<open>size_t\<close> at 0 is not represented. \<open>std::sort\<close> by identity is \<open>sort_key\<close>, which is stable
  while \<open>std::sort\<close> need not be. On a graph whose identities are distinct, as validation demands and
  \<open>finalize\<close> checks before it sorts, every sort gives the same list (\<open>std_sort_agrees\<close>). \<open>make_facts\<close> of
  \<open>src/cache.cpp\<close> and the coordinator call \<open>canonical_topology\<close> on descriptors nobody validated; when such a
  descriptor repeats an identity, the order of the equal elements is the implementation's choice, of which the
  model fixes one.

  The first half shows that validation decides exactly the well-formed acyclic graphs; the second
  that the canonical encoding determines the graph up to the fields the code leaves out, and that
  \<open>finalize\<close> does not depend on the order in which nodes and edges were listed.
\<close>

section \<open>Validation\<close>

fun check_node_ids :: "GraphNodeId set \<Rightarrow> GraphNodeDescriptor list \<Rightarrow> GraphNodeId set Result" where
  "check_node_ids seen [] = success seen"
| "check_node_ids seen (n # ns) =
     (if n_id n \<in> seen then failure EC_TopologyDuplicateId ''duplicate GraphNodeId in topology''
      else check_node_ids (insert (n_id n) seen) ns)"

fun check_edges :: "GraphNodeId set \<Rightarrow> GraphEdgeId set \<Rightarrow> (GraphNodeId \<times> GraphNodeId \<rightharpoonup> DependencyKind)
    \<Rightarrow> GraphEdgeDescriptor list \<Rightarrow> unit Result" where
  "check_edges node_ids edge_ids pair_kind [] = success ()"
| "check_edges node_ids edge_ids pair_kind (e # es) =
     (if nid_hi (e_from e) = nid_hi (e_to e) \<and> nid_lo (e_from e) = nid_lo (e_to e)
      then failure EC_TopologySelfCycle ''edge with self-dependency''
      else if e_from e \<notin> node_ids \<or> e_to e \<notin> node_ids
      then failure EC_TopologyDanglingEdge ''edge endpoint does not reference a node''
      else if e_id e \<in> edge_ids
      then failure EC_TopologyDuplicateId ''duplicate GraphEdgeId in topology''
      else (case pair_kind (e_from e, e_to e) of
          Some k \<Rightarrow>
            if k = e_kind e
            then failure EC_TopologyDuplicateEdge ''duplicate edge between same endpoints''
            else failure EC_Contradictory
              ''contradictory edges of different kinds between same endpoints''
        | None \<Rightarrow> check_edges node_ids (insert (e_id e) edge_ids)
                    (pair_kind((e_from e, e_to e) \<mapsto> e_kind e)) es))"

type_synonym degrees = "(GraphNodeId \<times> nat) list"

definition deg_of :: "degrees \<Rightarrow> GraphNodeId \<Rightarrow> nat" where
  "deg_of d v = (case map_of d v of None \<Rightarrow> 0 | Some k \<Rightarrow> k)"

definition in_degree :: "GraphNodeDescriptor list \<Rightarrow> GraphEdgeDescriptor list \<Rightarrow> degrees" where
  "in_degree nodes edges =
     foldl (\<lambda>d e. AList.update (e_to e) (deg_of d (e_to e) + 1) d)
       (foldl (\<lambda>d n. AList.update (n_id n) 0 d) [] nodes) edges"

definition adjacency :: "GraphEdgeDescriptor list \<Rightarrow> GraphNodeId \<Rightarrow> GraphNodeId list" where
  "adjacency edges = foldl (\<lambda>adj e. adj(e_from e := adj (e_from e) @ [e_to e])) (\<lambda>_. []) edges"

text \<open>The body of the loop over \<open>adj[cur]\<close>: decrement, and append to \<open>ready\<close> at zero.\<close>

fun relax :: "GraphNodeId list \<Rightarrow> degrees \<Rightarrow> GraphNodeId list \<Rightarrow> degrees \<times> GraphNodeId list" where
  "relax [] d ready = (d, ready)"
| "relax (nxt # ns) d ready = (case deg_of d nxt of
       0 \<Rightarrow> relax ns d ready
     | Suc k \<Rightarrow> relax ns (AList.update nxt k d) (if k = 0 then ready @ [nxt] else ready))"

lemma sum_list_update_deg:
  "deg_of d v = Suc k \<Longrightarrow> Suc (sum_list (map snd (AList.update v k d))) = sum_list (map snd d)"
  by (induction d) (auto simp: deg_of_def split: if_splits option.splits)

lemma relax_measure:
  "relax ns d ready = (d', ready') \<Longrightarrow>
     2 * sum_list (map snd d') + length ready' \<le> 2 * sum_list (map snd d) + length ready"
proof (induction ns d ready rule: relax.induct)
  case (2 nxt ns d ready)
  then show ?case
    by (auto split: nat.splits if_splits dest!: sum_list_update_deg)
qed simp

function kahn_loop :: "(GraphNodeId \<Rightarrow> GraphNodeId list) \<Rightarrow> degrees \<Rightarrow> GraphNodeId list \<Rightarrow> nat \<Rightarrow> nat" where
  "kahn_loop adj d [] visited = visited"
| "kahn_loop adj d (cur # ready) visited =
     (case relax (adj cur) d ready of (d', ready') \<Rightarrow> kahn_loop adj d' ready' (visited + 1))"
  by pat_completeness auto
termination
  by (relation "measure (\<lambda>(adj, d, ready, v). 2 * sum_list (map snd d) + length ready)")
    (auto dest: relax_measure [OF sym])

definition validate_topology :: "(GraphNodeId list \<Rightarrow> GraphNodeId list) \<Rightarrow> GraphNodeDescriptor list
    \<Rightarrow> GraphEdgeDescriptor list \<Rightarrow> unit Result" where
  "validate_topology ord nodes edges = bind_result (check_node_ids {} nodes) (\<lambda>node_ids.
     bind_result (check_edges node_ids {} Map.empty edges) (\<lambda>_.
       let d = in_degree nodes edges;
           ready = filter (\<lambda>v. deg_of d v = 0) (ord (map fst d));
           visited = kahn_loop (adjacency edges) d ready 0
       in if visited \<noteq> length nodes
          then failure EC_TopologyCycle ''topology contains a cycle''
          else success ()))"

section \<open>What validation decides\<close>

definition edge_pairs :: "GraphEdgeDescriptor list \<Rightarrow> (GraphNodeId \<times> GraphNodeId) list" where
  "edge_pairs es = map (\<lambda>e. (e_from e, e_to e)) es"

definition topology_shape :: "GraphNodeDescriptor list \<Rightarrow> GraphEdgeDescriptor list \<Rightarrow> bool" where
  "topology_shape ns es \<longleftrightarrow> distinct (map n_id ns) \<and> list_all (\<lambda>e. e_from e \<noteq> e_to e) es
     \<and> list_all (\<lambda>e. e_from e \<in> n_id ` set ns \<and> e_to e \<in> n_id ` set ns) es
     \<and> distinct (map e_id es) \<and> distinct (edge_pairs es)"

definition topology_ok :: "GraphNodeDescriptor list \<Rightarrow> GraphEdgeDescriptor list \<Rightarrow> bool" where
  "topology_ok ns es \<longleftrightarrow> topology_shape ns es \<and> acyclic (set (edge_pairs es))"

lemma check_node_ids_ok:
  "check_node_ids seen ns = success s \<longleftrightarrow>
     distinct (map n_id ns) \<and> n_id ` set ns \<inter> seen = {} \<and> s = seen \<union> n_id ` set ns"
  by (induction seen ns rule: check_node_ids.induct) auto

lemma GraphNodeId_eq_iff: "nid_hi a = nid_hi b \<and> nid_lo a = nid_lo b \<longleftrightarrow> a = b"
  by (metis GraphNodeId.expand)

lemma edge_pairs_Cons [simp]: "edge_pairs (e # es) = (e_from e, e_to e) # edge_pairs es"
  by (simp add: edge_pairs_def)

lemma check_edges_ok:
  "check_edges N I P es = success u \<longleftrightarrow>
     list_all (\<lambda>e. e_from e \<noteq> e_to e) es \<and> list_all (\<lambda>e. e_from e \<in> N \<and> e_to e \<in> N) es
     \<and> distinct (map e_id es) \<and> e_id ` set es \<inter> I = {}
     \<and> distinct (edge_pairs es) \<and> set (edge_pairs es) \<inter> dom P = {}"
proof (induction N I P es rule: check_edges.induct)
  case (1 N I P)
  then show ?case by (simp add: edge_pairs_def)
next
  case (2 N I P e es)
  show ?case
  proof (cases "e_from e = e_to e \<or> e_from e \<notin> N \<or> e_to e \<notin> N \<or> e_id e \<in> I")
    case True
    then show ?thesis by (auto simp: GraphNodeId_eq_iff)
  next
    case ok: False
    show ?thesis
    proof (cases "P (e_from e, e_to e)")
      case None
      have "check_edges N I P (e # es) = check_edges N (insert (e_id e) I) (P((e_from e, e_to e) \<mapsto> e_kind e)) es"
        using ok None by (simp add: GraphNodeId_eq_iff)
      also have "\<dots> = success u \<longleftrightarrow> list_all (\<lambda>e. e_from e \<noteq> e_to e) es
         \<and> list_all (\<lambda>e. e_from e \<in> N \<and> e_to e \<in> N) es
         \<and> distinct (map e_id es) \<and> e_id ` set es \<inter> insert (e_id e) I = {}
         \<and> distinct (edge_pairs es) \<and> set (edge_pairs es) \<inter> dom (P((e_from e, e_to e) \<mapsto> e_kind e)) = {}"
        using ok None by (intro 2) (auto simp: GraphNodeId_eq_iff)
      also have "\<dots> \<longleftrightarrow> list_all (\<lambda>e. e_from e \<noteq> e_to e) (e # es)
         \<and> list_all (\<lambda>e. e_from e \<in> N \<and> e_to e \<in> N) (e # es)
         \<and> distinct (map e_id (e # es)) \<and> e_id ` set (e # es) \<inter> I = {}
         \<and> distinct (edge_pairs (e # es)) \<and> set (edge_pairs (e # es)) \<inter> dom P = {}"
        using ok None by (auto simp: domIff split: if_splits)
      finally show ?thesis .
    next
      case (Some k)
      with ok show ?thesis by (auto simp: GraphNodeId_eq_iff edge_pairs_def)
    qed
  qed
qed

text \<open>In-degrees and adjacency before the loop.\<close>

lemma map_of_update: "map_of (AList.update k v d) = (map_of d)(k \<mapsto> v)"
  by (simp add: update_conv')

lemma deg_of_Nil: "deg_of [] v = 0"
  by (simp add: deg_of_def)

lemma deg_of_update [simp]: "deg_of (AList.update k v d) w = (if w = k then v else deg_of d w)"
  by (simp add: deg_of_def map_of_update)

lemma keys_update [simp]: "fst ` set (AList.update k v d) = insert k (fst ` set d)"
  using dom_update [of k v d] by (simp add: dom_map_of_conv_image_fst)

lemma in_degree_base:
  "distinct (map fst d) \<Longrightarrow> distinct (map fst (foldl (\<lambda>d n. AList.update (n_id n) 0 d) d ns))
     \<and> fst ` set (foldl (\<lambda>d n. AList.update (n_id n) 0 d) d ns) = fst ` set d \<union> n_id ` set ns
     \<and> ((\<forall>v. deg_of d v = 0) \<longrightarrow> (\<forall>v. deg_of (foldl (\<lambda>d n. AList.update (n_id n) 0 d) d ns) v = 0))"
  by (induction ns arbitrary: d) (auto simp: distinct_update)

lemma in_degree_edges:
  "distinct (map fst d) \<Longrightarrow> e_to ` set es \<subseteq> fst ` set d \<Longrightarrow>
     (let d' = foldl (\<lambda>d e. AList.update (e_to e) (deg_of d (e_to e) + 1) d) d es in
      distinct (map fst d') \<and> fst ` set d' = fst ` set d
      \<and> (\<forall>v. deg_of d' v = deg_of d v + length (filter (\<lambda>e. e_to e = v) es)))"
proof (induction es arbitrary: d)
  case (Cons e es)
  let ?d = "AList.update (e_to e) (deg_of d (e_to e) + 1) d"
  have "distinct (map fst ?d)" "e_to ` set es \<subseteq> fst ` set ?d" "fst ` set ?d = fst ` set d"
    using Cons.prems by (auto simp: distinct_update)
  with Cons.IH [of ?d] show ?case by (auto simp: Let_def)
qed simp

lemma in_degree_spec:
  assumes "e_to ` set es \<subseteq> n_id ` set ns"
  shows "distinct (map fst (in_degree ns es))" and "fst ` set (in_degree ns es) = n_id ` set ns"
    and "deg_of (in_degree ns es) v = length (filter (\<lambda>e. e_to e = v) es)"
proof -
  let ?b = "foldl (\<lambda>d n. AList.update (n_id n) (0 :: nat) d) [] ns"
  have b: "distinct (map fst ?b)" "fst ` set ?b = n_id ` set ns" "deg_of ?b w = 0" for w
    using in_degree_base [of "[]" ns] by (simp_all add: deg_of_Nil)
  have "e_to ` set es \<subseteq> fst ` set ?b" using assms b by simp
  from in_degree_edges [OF b(1) this] b
  show "distinct (map fst (in_degree ns es))" "fst ` set (in_degree ns es) = n_id ` set ns"
    "deg_of (in_degree ns es) v = length (filter (\<lambda>e. e_to e = v) es)"
    by (simp_all add: in_degree_def Let_def)
qed

lemma adjacency_spec: "adjacency es v = map e_to (filter (\<lambda>e. e_from e = v) es)"
proof -
  have "foldl (\<lambda>adj e. adj(e_from e := adj (e_from e) @ [e_to e])) a es v
      = a v @ map e_to (filter (\<lambda>e. e_from e = v) es)" for a
    by (induction es arbitrary: a) auto
  then show ?thesis by (simp add: adjacency_def)
qed

lemma adjacency_distinct: "distinct (edge_pairs es) \<Longrightarrow> distinct (adjacency es v)"
  by (induction es) (auto simp: adjacency_spec edge_pairs_def image_iff)

section \<open>Kahn's algorithm\<close>

lemma relax_spec:
  assumes "distinct xs" and "\<forall>x \<in> set xs. 0 < deg_of d x" and "relax xs d ready = (d', ready')"
  shows "ready' = ready @ filter (\<lambda>x. deg_of d x = 1) xs
     \<and> (\<forall>v. deg_of d' v = (if v \<in> set xs then deg_of d v - 1 else deg_of d v))"
  using assms
proof (induction xs d ready rule: relax.induct)
  case (2 nxt ns d ready)
  from "2.prems"(2) obtain k where k: "deg_of d nxt = Suc k"
    by (cases "deg_of d nxt") auto
  let ?d = "AList.update nxt k d" and ?r = "if k = 0 then ready @ [nxt] else ready"
  have ns: "distinct ns" "\<forall>x \<in> set ns. 0 < deg_of ?d x" "nxt \<notin> set ns"
    using "2.prems"(1,2) by auto
  have "ready' = ?r @ filter (\<lambda>x. deg_of ?d x = 1) ns
     \<and> (\<forall>v. deg_of d' v = (if v \<in> set ns then deg_of ?d v - 1 else deg_of ?d v))"
    using "2.IH"(2) [OF k ns(1,2)] "2.prems"(3) k by simp
  moreover have "filter (\<lambda>x. deg_of ?d x = 1) ns = filter (\<lambda>x. deg_of d x = 1) ns"
    using ns(3) by (intro filter_cong) auto
  ultimately show ?case using ns(3) k by auto
qed simp

text \<open>
  The loop invariant over the nodes \<open>popped\<close> already popped (a ghost variable: the code only counts
  them): the in-degree of a node counts its edges from nodes not yet popped, the popped and ready
  nodes are exactly those of in-degree 0, and every popped node comes after its predecessors.
\<close>

definition pending_in :: "GraphEdgeDescriptor list \<Rightarrow> GraphNodeId list \<Rightarrow> GraphNodeId \<Rightarrow> GraphEdgeDescriptor list" where
  "pending_in es popped v = filter (\<lambda>e. e_to e = v \<and> e_from e \<notin> set popped) es"

definition topo_prefix :: "GraphEdgeDescriptor list \<Rightarrow> GraphNodeId list \<Rightarrow> bool" where
  "topo_prefix es vs \<longleftrightarrow> (\<forall>i < length vs. \<forall>e \<in> set es. e_to e = vs ! i \<longrightarrow> e_from e \<in> set (take i vs))"

definition kahn_inv :: "GraphNodeId set \<Rightarrow> GraphEdgeDescriptor list \<Rightarrow> GraphNodeId list \<Rightarrow> GraphNodeId list
    \<Rightarrow> degrees \<Rightarrow> bool" where
  "kahn_inv V es popped ready d \<longleftrightarrow> distinct (popped @ ready) \<and> set (popped @ ready) \<subseteq> V
     \<and> (\<forall>v. deg_of d v = length (pending_in es popped v))
     \<and> (\<forall>v \<in> V. v \<in> set (popped @ ready) \<longleftrightarrow> pending_in es popped v = []) \<and> topo_prefix es popped"

lemma topo_prefix_snoc:
  "topo_prefix es vs \<Longrightarrow> pending_in es vs v = [] \<Longrightarrow> topo_prefix es (vs @ [v])"
  unfolding topo_prefix_def pending_in_def filter_empty_conv
  by (auto simp: nth_append less_Suc_eq)

text \<open>Popping \<open>cur\<close> removes exactly one pending edge of each of its successors.\<close>

lemma pending_in_snoc:
  assumes "distinct (edge_pairs es)" and "cur \<notin> set popped"
  shows "length (pending_in es (popped @ [cur]) v)
     = length (pending_in es popped v) - (if v \<in> set (adjacency es cur) then 1 else 0)"
    and "v \<in> set (adjacency es cur) \<Longrightarrow> 0 < length (pending_in es popped v)"
proof -
  let ?old = "pending_in es popped v" and ?cut = "filter (\<lambda>e. e_to e = v \<and> e_from e = cur) es"
  have "length ?old = length (pending_in es (popped @ [cur]) v) + length ?cut"
    using assms(2) by (induction es) (auto simp: pending_in_def)
  moreover have "length ?cut = (if v \<in> set (adjacency es cur) then 1 else 0)"
    using assms(1)
    by (induction es) (auto simp: edge_pairs_def adjacency_spec filter_empty_conv image_iff)
  ultimately show "length (pending_in es (popped @ [cur]) v)
      = length ?old - (if v \<in> set (adjacency es cur) then 1 else 0)"
    and "v \<in> set (adjacency es cur) \<Longrightarrow> 0 < length ?old"
    by auto
qed

lemma distinct_append_fresh:
  "distinct (a @ c # r) \<Longrightarrow> distinct f \<Longrightarrow> set f \<inter> set (a @ c # r) = {} \<Longrightarrow> distinct ((a @ [c]) @ r @ f)"
  by auto

lemma kahn_inv_relax:
  assumes inv: "kahn_inv V es popped (cur # ready) d" and dp: "distinct (edge_pairs es)"
    and ends: "e_to ` set es \<subseteq> V" and r: "relax (adjacency es cur) d ready = (d', ready')"
  shows "kahn_inv V es (popped @ [cur]) ready' d'"
proof -
  have cur: "cur \<notin> set popped" "pending_in es popped cur = []"
    using inv by (auto simp: kahn_inv_def)
  note P = pending_in_snoc [OF dp cur(1)]
  have deg: "deg_of d v = length (pending_in es popped v)" for v
    using inv by (simp add: kahn_inv_def)
  have pos: "\<forall>x \<in> set (adjacency es cur). 0 < deg_of d x"
    using P(2) by (simp add: deg)
  from relax_spec [OF adjacency_distinct [OF dp] pos r]
  have ready': "ready' = ready @ filter (\<lambda>x. deg_of d x = 1) (adjacency es cur)"
    and d': "\<And>v. deg_of d' v = (if v \<in> set (adjacency es cur) then deg_of d v - 1 else deg_of d v)"
    by auto
  have new: "v \<in> set (filter (\<lambda>x. deg_of d x = 1) (adjacency es cur)) \<longleftrightarrow>
      pending_in es popped v \<noteq> [] \<and> pending_in es (popped @ [cur]) v = []" for v
    unfolding length_0_conv [symmetric] using P(1) [of v] P(2) [of v]
    by (cases "v \<in> set (adjacency es cur)") (auto simp: deg le_Suc_eq simp del: length_0_conv)
  have adjV: "set (adjacency es cur) \<subseteq> V"
    using ends by (auto simp: adjacency_spec)
  have old: "v \<in> set (popped @ cur # ready) \<Longrightarrow> pending_in es popped v = []" if "v \<in> V" for v
    using inv that by (simp add: kahn_inv_def)
  have fresh: "set (filter (\<lambda>x. deg_of d x = 1) (adjacency es cur)) \<inter> set (popped @ cur # ready) = {}"
  proof -
    have "set (popped @ cur # ready) \<subseteq> V" using inv by (simp add: kahn_inv_def)
    with new old show ?thesis by blast
  qed
  have mono: "pending_in es popped v = [] \<Longrightarrow> pending_in es (popped @ [cur]) v = []" for v
    by (auto simp: pending_in_def filter_empty_conv)
  show ?thesis
    unfolding kahn_inv_def
  proof (intro conjI ballI allI)
    show "distinct ((popped @ [cur]) @ ready')"
      unfolding ready' using inv fresh adjacency_distinct [OF dp, of cur]
      by (intro distinct_append_fresh) (simp_all add: kahn_inv_def)
    show "set ((popped @ [cur]) @ ready') \<subseteq> V"
      using inv adjV by (auto simp: kahn_inv_def ready')
    show "deg_of d' v = length (pending_in es (popped @ [cur]) v)" for v
      using P(1) [of v] by (simp add: d' deg)
    show "v \<in> set ((popped @ [cur]) @ ready') \<longleftrightarrow> pending_in es (popped @ [cur]) v = []" if "v \<in> V" for v
    proof -
      have "v \<in> set (popped @ cur # ready) \<longleftrightarrow> pending_in es popped v = []"
        using inv that by (simp add: kahn_inv_def)
      with new [of v] mono [of v] show ?thesis by (auto simp: ready')
    qed
    show "topo_prefix es (popped @ [cur])"
      using inv cur by (intro topo_prefix_snoc) (simp_all add: kahn_inv_def)
  qed
qed

lemma kahn_loop_inv:
  assumes "distinct (edge_pairs es)" and "e_to ` set es \<subseteq> V"
    and "kahn_inv V es popped ready d"
  shows "\<exists>vs d'. kahn_inv V es vs [] d' \<and> kahn_loop (adjacency es) d ready (length popped) = length vs"
  using assms(3)
proof (induction "adjacency es" d ready "length popped" arbitrary: popped rule: kahn_loop.induct)
  case (1 d)
  then show ?case by auto
next
  case (2 d cur ready)
  obtain d' ready' where r: "relax (adjacency es cur) d ready = (d', ready')"
    by (cases "relax (adjacency es cur) d ready")
  have "kahn_inv V es (popped @ [cur]) ready' d'"
    using kahn_inv_relax [OF 2(2) assms(1,2) r] .
  with "2.hyps" [OF r [symmetric], of "popped @ [cur]"] show ?case
    by (simp add: r)
qed

text \<open>A listing of all nodes in which predecessors come first exists exactly for acyclic edges.\<close>

lemma topo_prefix_acyclic:
  assumes "topo_prefix es vs" and "distinct vs" and "\<And>e. e \<in> set es \<Longrightarrow> e_to e \<in> set vs"
  shows "acyclic (set (edge_pairs es))"
proof -
  define pos where "pos v = (LEAST i. i < length vs \<and> vs ! i = v)" for v
  have pos: "pos (vs ! i) = i" if "i < length vs" for i
    unfolding pos_def using that assms(2) by (intro Least_equality) (auto simp: nth_eq_iff_index_eq)
  have "pos x < pos y" if "(x, y) \<in> set (edge_pairs es)" for x y
  proof -
    from that obtain e where e: "e \<in> set es" "e_from e = x" "e_to e = y"
      by (auto simp: edge_pairs_def)
    then obtain i where i: "i < length vs" "vs ! i = y"
      using assms(3) by (metis in_set_conv_nth)
    then have "x \<in> set (take i vs)" using assms(1) e by (auto simp: topo_prefix_def)
    then obtain j where "j < i" "vs ! j = x" using i by (auto simp: in_set_conv_nth)
    with i pos show ?thesis by (metis order.strict_trans)
  qed
  then have "set (edge_pairs es) \<subseteq> measure pos" by auto
  then show ?thesis by (meson acyclic_subset wf_acyclic wf_measure)
qed

lemma acyclic_all_done:
  assumes "acyclic (set (edge_pairs es))" and "kahn_inv V es vs [] d"
    and "\<And>e. e \<in> set es \<Longrightarrow> e_from e \<in> V \<and> e_to e \<in> V"
  shows "V \<subseteq> set vs"
proof (rule ccontr)
  assume "\<not> V \<subseteq> set vs"
  then obtain v where "v \<in> V - set vs" by blast
  moreover have "wf (set (edge_pairs es))"
    using assms(1) by (simp add: finite_acyclic_wf)
  ultimately obtain m where m: "m \<in> V - set vs"
    and min: "\<And>y. (y, m) \<in> set (edge_pairs es) \<Longrightarrow> y \<notin> V - set vs"
    using wfE_min [of "set (edge_pairs es)" v "V - set vs"] by metis
  from m assms(2) have "pending_in es vs m \<noteq> []" by (auto simp: kahn_inv_def)
  then obtain e where "e \<in> set es" "e_to e = m" "e_from e \<notin> set vs"
    by (auto simp: pending_in_def filter_empty_conv)
  with min [of "e_from e"] assms(3) show False by (force simp: edge_pairs_def)
qed

lemma kahn_counts_all:
  assumes sh: "topology_shape ns es" and perm: "mset (ord (map fst (in_degree ns es))) = mset (map fst (in_degree ns es))"
  shows "kahn_loop (adjacency es) (in_degree ns es)
      (filter (\<lambda>v. deg_of (in_degree ns es) v = 0) (ord (map fst (in_degree ns es)))) 0 = length ns
    \<longleftrightarrow> acyclic (set (edge_pairs es))"
proof -
  let ?V = "n_id ` set ns" and ?d = "in_degree ns es"
  let ?r = "filter (\<lambda>v. deg_of ?d v = 0) (ord (map fst ?d))"
  have dp: "distinct (edge_pairs es)" and dn: "distinct (map n_id ns)"
    and ends: "\<And>e. e \<in> set es \<Longrightarrow> e_from e \<in> ?V \<and> e_to e \<in> ?V"
    using sh by (auto simp: topology_shape_def list_all_iff)
  then have eto: "e_to ` set es \<subseteq> ?V" by auto
  note D = in_degree_spec [OF eto]
  have so: "set (ord (map fst ?d)) = ?V" and "distinct (ord (map fst ?d))"
    using D perm mset_eq_imp_distinct_iff [OF perm] mset_eq_setD [OF perm] by auto
  then have "kahn_inv ?V es [] ?r ?d"
    by (auto simp: kahn_inv_def D(3) pending_in_def topo_prefix_def)
  then obtain vs d' where vs: "kahn_inv ?V es vs [] d'" "kahn_loop (adjacency es) ?d ?r 0 = length vs"
    using kahn_loop_inv [OF dp eto, of "[]"] by (metis list.size(3))
  have V: "card ?V = length ns"
    using dn by (metis distinct_card image_set length_map)
  have sub: "set vs \<subseteq> ?V" "distinct vs" "topo_prefix es vs"
    using vs by (auto simp: kahn_inv_def)
  show ?thesis
  proof
    assume "kahn_loop (adjacency es) ?d ?r 0 = length ns"
    then have "set vs = ?V"
      using sub V vs by (intro card_subset_eq) (auto simp: distinct_card)
    then show "acyclic (set (edge_pairs es))"
      using ends sub by (intro topo_prefix_acyclic [of es vs]) auto
  next
    assume "acyclic (set (edge_pairs es))"
    with acyclic_all_done [OF _ vs(1) ends] sub have "set vs = ?V" by auto
    then show "kahn_loop (adjacency es) ?d ?r 0 = length ns"
      using vs V distinct_card [OF sub(2)] by simp
  qed
qed

lemma validate_topology_iff:
  assumes "\<And>xs. mset (ord xs) = mset xs"
  shows "validate_topology ord ns es = success () \<longleftrightarrow> topology_ok ns es"
proof (cases "topology_shape ns es")
  case True
  then have "check_node_ids {} ns = success (n_id ` set ns)"
    "check_edges (n_id ` set ns) {} Map.empty es = success ()"
    by (simp_all add: check_node_ids_ok check_edges_ok topology_shape_def)
  then show ?thesis
    using True kahn_counts_all [where ord = ord, OF True assms] by (simp add: validate_topology_def topology_ok_def Let_def)
next
  case False
  have "validate_topology ord ns es \<noteq> success ()"
  proof
    assume "validate_topology ord ns es = success ()"
    then obtain s where "check_node_ids {} ns = success s" "check_edges s {} Map.empty es = success ()"
      by (auto simp: validate_topology_def dest!: bind_result_InrD)
    with False show False
      by (auto simp: check_node_ids_ok check_edges_ok topology_shape_def)
  qed
  with False show ?thesis by (simp add: topology_ok_def)
qed

section \<open>Canonical encoding\<close>

text \<open>The field tags of node and edge records.\<close>

abbreviation N_ID_HI :: u16 where "N_ID_HI \<equiv> 1"
abbreviation N_ID_LO :: u16 where "N_ID_LO \<equiv> 2"
abbreviation N_CATEGORY :: u16 where "N_CATEGORY \<equiv> 3"
abbreviation N_NAME :: u16 where "N_NAME \<equiv> 4"
abbreviation N_K_START :: u16 where "N_K_START \<equiv> 5"
abbreviation N_K_HI :: u16 where "N_K_HI \<equiv> 6"
abbreviation N_K_LO :: u16 where "N_K_LO \<equiv> 7"
abbreviation N_K_ABI :: u16 where "N_K_ABI \<equiv> 8"
abbreviation N_K_GEN :: u16 where "N_K_GEN \<equiv> 9"
abbreviation N_K_DIGEST :: u16 where "N_K_DIGEST \<equiv> 10"
abbreviation N_K_CONTRIB :: u16 where "N_K_CONTRIB \<equiv> 11"
abbreviation N_K_NAME :: u16 where "N_K_NAME \<equiv> 12"
abbreviation N_GRIDX :: u16 where "N_GRIDX \<equiv> 13"
abbreviation N_GRIDY :: u16 where "N_GRIDY \<equiv> 14"
abbreviation N_GRIDZ :: u16 where "N_GRIDZ \<equiv> 15"
abbreviation N_BLKX :: u16 where "N_BLKX \<equiv> 16"
abbreviation N_BLKY :: u16 where "N_BLKY \<equiv> 17"
abbreviation N_BLKZ :: u16 where "N_BLKZ \<equiv> 18"
abbreviation N_SMEM :: u16 where "N_SMEM \<equiv> 19"
abbreviation N_MEMBYTES :: u16 where "N_MEMBYTES \<equiv> 20"
abbreviation N_MSET :: u16 where "N_MSET \<equiv> 21"
abbreviation N_DIMS :: u16 where "N_DIMS \<equiv> 22"
abbreviation N_DYNAMIC :: u16 where "N_DYNAMIC \<equiv> 23"
abbreviation N_MAXRANK :: u16 where "N_MAXRANK \<equiv> 24"
abbreviation N_DTYPE :: u16 where "N_DTYPE \<equiv> 25"
abbreviation N_LAYOUT :: u16 where "N_LAYOUT \<equiv> 26"
abbreviation N_SCALAR_SPEC :: u16 where "N_SCALAR_SPEC \<equiv> 27"
abbreviation N_SCALAR_INT :: u16 where "N_SCALAR_INT \<equiv> 28"
abbreviation N_SCALAR_FLOAT :: u16 where "N_SCALAR_FLOAT \<equiv> 29"
abbreviation N_Q_MODE :: u16 where "N_Q_MODE \<equiv> 30"
abbreviation N_Q_GROUP :: u16 where "N_Q_GROUP \<equiv> 31"
abbreviation N_Q_SYM :: u16 where "N_Q_SYM \<equiv> 32"
abbreviation N_Q_SCHEME :: u16 where "N_Q_SCHEME \<equiv> 33"
abbreviation N_BIND_CLASS :: u16 where "N_BIND_CLASS \<equiv> 34"
abbreviation N_BIND_ALIGN :: u16 where "N_BIND_ALIGN \<equiv> 35"
abbreviation N_BIND_SCHEMA :: u16 where "N_BIND_SCHEMA \<equiv> 36"
abbreviation N_BIND_ELIGIBLE :: u16 where "N_BIND_ELIGIBLE \<equiv> 37"
abbreviation N_REQ_ALIGN :: u16 where "N_REQ_ALIGN \<equiv> 38"
abbreviation N_CHILD_HI :: u16 where "N_CHILD_HI \<equiv> 39"
abbreviation N_CHILD_LO :: u16 where "N_CHILD_LO \<equiv> 40"
abbreviation N_IN_INDICES :: u16 where "N_IN_INDICES \<equiv> 41"
abbreviation N_OUT_INDICES :: u16 where "N_OUT_INDICES \<equiv> 42"
abbreviation N_OPAQUE :: u16 where "N_OPAQUE \<equiv> 43"
abbreviation E_ID_HI :: u16 where "E_ID_HI \<equiv> 101"
abbreviation E_ID_LO :: u16 where "E_ID_LO \<equiv> 102"
abbreviation E_FROM_HI :: u16 where "E_FROM_HI \<equiv> 103"
abbreviation E_FROM_LO :: u16 where "E_FROM_LO \<equiv> 104"
abbreviation E_TO_HI :: u16 where "E_TO_HI \<equiv> 105"
abbreviation E_TO_LO :: u16 where "E_TO_LO \<equiv> 106"
abbreviation E_KIND :: u16 where "E_KIND \<equiv> 107"
abbreviation E_LABEL :: u16 where "E_LABEL \<equiv> 108"

definition encode_node :: "GraphNodeDescriptor \<Rightarrow> bytes" where
  "encode_node n =
     put_u64 N_ID_HI (nid_hi (n_id n))
   @ put_u64 N_ID_LO (nid_lo (n_id n))
   @ put_u32 N_CATEGORY (NodeCategory_code (n_category n))
   @ put_str N_NAME (n_name n)
   @ (if n_category n = NC_Kernel then
        put_str N_K_NAME (k_name (n_kernel n))
      @ put_u64 N_K_HI (k_hi (n_kernel n))
      @ put_u64 N_K_LO (k_lo (n_kernel n))
      @ put_u64 N_K_GEN (gg_value (k_generation (n_kernel n)))
      @ put_u32 N_K_ABI (k_abi (n_kernel n))
      @ put_str N_K_DIGEST (k_digest (n_kernel n))
      @ put_bool N_K_CONTRIB (k_contributes (n_kernel n))
      else [])
   @ (if n_category n = NC_Kernel then
        put_u32 N_GRIDX (lg_grid_x (n_launch n))
      @ put_u32 N_GRIDY (lg_grid_y (n_launch n))
      @ put_u32 N_GRIDZ (lg_grid_z (n_launch n))
      @ put_u32 N_BLKX (lg_block_x (n_launch n))
      @ put_u32 N_BLKY (lg_block_y (n_launch n))
      @ put_u32 N_BLKZ (lg_block_z (n_launch n))
      @ put_u32 N_SMEM (lg_shared_memory (n_launch n))
      else [])
   @ put_u64 N_MEMBYTES (n_memory_bytes n)
   @ (if n_category n = NC_MemorySet then put_u8 N_MSET (n_memset_value n) else [])
   @ (if n_datatype n \<noteq> DT_None then
        (if sh_dims (n_shape n) \<noteq> [] then put_u64_list N_DIMS (sh_dims (n_shape n)) else [])
      @ put_bool N_DYNAMIC (sh_dynamic (n_shape n))
      @ (if sh_max_rank (n_shape n) \<noteq> 0 then put_u32 N_MAXRANK (sh_max_rank (n_shape n)) else [])
      @ put_u32 N_DTYPE (Datatype_code (n_datatype n))
      @ put_u32 N_LAYOUT (TensorLayout_code (n_layout n))
      else [])
   @ (if sc_specialized (n_scalar n) then
        put_bool N_SCALAR_SPEC True
      @ put_i64 N_SCALAR_INT (sc_int (n_scalar n))
      @ put_f64 N_SCALAR_FLOAT (sc_float (n_scalar n))
      else [])
   @ put_u32 N_Q_MODE (QuantizationMode_code (q_mode (n_quantization n)))
   @ (if q_mode (n_quantization n) \<noteq> QM_None then
        put_u32 N_Q_GROUP (q_group_size (n_quantization n))
      @ put_bool N_Q_SYM (q_symmetric (n_quantization n))
      @ put_str N_Q_SCHEME (q_custom_scheme (n_quantization n))
      else [])
   @ put_u32 N_BIND_CLASS (BindingClass_code (bd_class (n_binding n)))
   @ put_u32 N_BIND_ALIGN (bd_alignment (n_binding n))
   @ put_str N_BIND_SCHEMA (bd_schema (n_binding n))
   @ put_bool N_BIND_ELIGIBLE (bd_rebinding_eligible (n_binding n))
   @ put_u64 N_REQ_ALIGN (n_required_alignment n)
   @ (if n_child_lo n \<noteq> 0 then
        put_u64 N_CHILD_HI (n_child_hi n)
      @ put_u64 N_CHILD_LO (n_child_lo n)
      else [])
   @ (if n_inputs n \<noteq> [] then put_u64_list N_IN_INDICES (map ucast (n_inputs n)) else [])
   @ (if n_outputs n \<noteq> [] then put_u64_list N_OUT_INDICES (map ucast (n_outputs n)) else [])
   @ (if n_opaque n \<noteq> [] then put_bytes N_OPAQUE (n_opaque n) else [])"

definition encode_edge :: "GraphEdgeDescriptor \<Rightarrow> bytes" where
  "encode_edge e =
     put_u64 E_ID_HI (eid_hi (e_id e))
   @ put_u64 E_ID_LO (eid_lo (e_id e))
   @ put_u64 E_FROM_HI (nid_hi (e_from e))
   @ put_u64 E_FROM_LO (nid_lo (e_from e))
   @ put_u64 E_TO_HI (nid_hi (e_to e))
   @ put_u64 E_TO_LO (nid_lo (e_to e))
   @ put_u32 E_KIND (DependencyKind_code (e_kind e))
   @ put_str E_LABEL (e_label e)"

definition canonical_topology :: "GraphNodeDescriptor list \<Rightarrow> GraphEdgeDescriptor list \<Rightarrow> bytes" where
  "canonical_topology nodes edges = (let sn = sort_key n_id nodes; se = sort_key e_id edges in
     put_u32 1 (word_of_nat (length sn)) @ concat (map encode_node sn)
   @ put_u32 2 (word_of_nat (length se)) @ concat (map encode_edge se))"

lemma std_sort_agrees:
  "mset ys = mset xs \<Longrightarrow> sorted (map f ys) \<Longrightarrow> distinct (map f xs) \<Longrightarrow> ys = sort_key f xs"
  by (rule sym, rule sort_key_inj_key_eq) (simp_all add: distinct_map)

definition canonicalize_topology :: "GraphDescriptor \<Rightarrow> GraphDescriptor" where
  "canonicalize_topology g = g\<lparr>g_nodes := sort_key n_id (g_nodes g), g_edges := sort_key e_id (g_edges g)\<rparr>"

definition encode_semantic_dep :: "KernelIdentityRef \<Rightarrow> bytes" where
  "encode_semantic_dep d =
     put_str 1 (k_name d) @ put_u64 2 (k_hi d) @ put_u64 3 (k_lo d)
   @ put_u64 4 (gg_value (k_generation d)) @ put_u32 5 (k_abi d) @ put_str 6 (k_digest d)
   @ put_bool 7 (k_contributes d)"

definition canonical_semantic :: "GraphDescriptor \<Rightarrow> bytes" where
  "canonical_semantic g =
     put_bytes 201 (canonical_topology (g_nodes g) (g_edges g))
   @ put_u32 202 (BackendKind_code (bk_kind (g_backend g)))
   @ put_str 203 (bk_name (g_backend g))
   @ put_u32 204 (bk_version (g_backend g))
   @ put_u32 205 (rt_version (g_runtime g))
   @ put_u32 206 (rt_graph_abi (g_runtime g))
   @ put_u32 207 (rt_kernel_abi (g_runtime g))
   @ put_u32 208 (rt_driver_version (g_runtime g))
   @ put_u32 209 (AcceleratorVendor_code (dev_vendor (g_device g)))
   @ put_str 210 (dev_arch (g_device g))
   @ put_u32 211 (dev_cc_major (g_device g))
   @ put_u32 212 (dev_cc_minor (g_device g))
   @ put_u32 213 (CaptureMode_code (sy_capture_mode (g_sync g)))
   @ put_u32 214 (StreamSemantics_code (sy_stream_semantics (g_sync g)))
   @ put_bool 215 (sy_external_sync (g_sync g))
   @ put_u32 216 (sy_event_count (g_sync g))
   @ put_u32 217 (word_of_nat (length (g_dependencies g)))
   @ concat (map (\<lambda>d. put_bytes 218 (encode_semantic_dep d)) (g_dependencies g))
   @ put_str 219 (if pv_graph_name (g_provenance g) = [] then ''anonymous'' else pv_graph_name (g_provenance g))
   @ put_str 220 (pv_toolchain (g_provenance g))"

definition topology_digest :: "GraphNodeDescriptor list \<Rightarrow> GraphEdgeDescriptor list \<Rightarrow> bytes" where
  "topology_digest nodes edges = sha_compute (canonical_topology nodes edges)"

text \<open>The artifact identity: the first sixteen bytes of the semantic digest, big-endian.\<close>

definition artifact_of_digest :: "bytes \<Rightarrow> GraphArtifactId" where
  "artifact_of_digest d = GraphArtifactId
     (push_bit 56 (ucast (d ! 0)) OR push_bit 48 (ucast (d ! 1)) OR push_bit 40 (ucast (d ! 2))
      OR push_bit 32 (ucast (d ! 3)) OR push_bit 24 (ucast (d ! 4)) OR push_bit 16 (ucast (d ! 5))
      OR push_bit 8 (ucast (d ! 6)) OR ucast (d ! 7))
     (push_bit 56 (ucast (d ! 8)) OR push_bit 48 (ucast (d ! 9)) OR push_bit 40 (ucast (d ! 10))
      OR push_bit 32 (ucast (d ! 11)) OR push_bit 24 (ucast (d ! 12)) OR push_bit 16 (ucast (d ! 13))
      OR push_bit 8 (ucast (d ! 14)) OR ucast (d ! 15))"

definition validate_graph :: "(GraphNodeId list \<Rightarrow> GraphNodeId list) \<Rightarrow> GraphDescriptor \<Rightarrow> unit Result" where
  "validate_graph ord g = validate_topology ord (g_nodes g) (g_edges g)"

text \<open>\<open>finalize\<close> changes the descriptor only after the check: on an error it is left as it was.\<close>

definition finalize :: "(GraphNodeId list \<Rightarrow> GraphNodeId list) \<Rightarrow> GraphDescriptor \<Rightarrow> GraphDescriptor Result" where
  "finalize ord g = (case validate_graph ord g of
       Inl err \<Rightarrow> Inl err
     | Inr _ \<Rightarrow>
        let canon = canonicalize_topology g;
            g1 = g\<lparr>g_nodes := g_nodes canon, g_edges := g_edges canon\<rparr>;
            g2 = g1\<lparr>g_topology_canonical := canonical_topology (g_nodes g1) (g_edges g1)\<rparr>;
            g3 = g2\<lparr>g_topology_digest := sha_compute (g_topology_canonical g2)\<rparr>;
            g4 = g3\<lparr>g_semantic_canonical := canonical_semantic g3\<rparr>;
            g5 = g4\<lparr>g_semantic_digest := sha_compute (g_semantic_canonical g4)\<rparr>
        in success (if GraphArtifactId_valid (g_artifact g5) then g5
                    else g5\<lparr>g_artifact := artifact_of_digest (g_semantic_digest g5)\<rparr>))"

section \<open>Finalization\<close>

lemma topology_ok_mset:
  assumes "mset ns = mset ns'" and "mset es = mset es'"
  shows "topology_ok ns es \<longleftrightarrow> topology_ok ns' es'"
proof -
  have d: "distinct (map f xs) \<longleftrightarrow> distinct (map f ys)" if "mset xs = mset ys" for f xs ys
    using that by (metis mset_eq_imp_distinct_iff mset_map)
  note s = mset_eq_setD [OF assms(1)] mset_eq_setD [OF assms(2)]
  show ?thesis
    using d [OF assms(1), of n_id] d [OF assms(2), of e_id] d [OF assms(2), of "\<lambda>e. (e_from e, e_to e)"] s
    by (simp add: topology_ok_def topology_shape_def edge_pairs_def list_all_iff)
qed

lemma sort_key_mset_eq:
  assumes "mset xs = mset ys" and "distinct (map f xs)"
  shows "sort_key f xs = sort_key f ys"
proof (rule properties_for_sort_key)
  show "mset (sort_key f ys) = mset xs" using assms(1) by simp
  show "sorted (map f (sort_key f ys))" by simp
  show "filter (\<lambda>y. f k = f y) (sort_key f ys) = filter (\<lambda>y. f k = f y) xs" if "k \<in> set (sort_key f ys)" for k
  proof -
    have "k \<in> set xs" using that mset_eq_setD [OF assms(1)] by simp
    have inj: "inj_on f (set xs)" using assms(2) by (simp add: distinct_map)
    have one: "filter (\<lambda>y. f k = f y) zs = [k]" if "mset zs = mset xs" for zs
    proof -
      have k: "k \<in> set zs" and "distinct zs" and "inj_on f (set zs)"
        using that \<open>k \<in> set xs\<close> assms(2) inj
        by (auto simp: distinct_map dest: mset_eq_setD mset_eq_imp_distinct_iff)
      then have "filter (\<lambda>y. f k = f y) zs = filter (\<lambda>y. y = k) zs"
        by (intro filter_cong) (auto dest: inj_onD)
      also have "\<dots> = [k]" using k \<open>distinct zs\<close> by (induction zs) (auto simp: filter_empty_conv)
      finally show ?thesis .
    qed
    show ?thesis using assms(1) by (simp only: one mset_sort)
  qed
qed

lemma sort_key_idem [simp]: "sort_key f (sort_key f xs) = sort_key f xs"
  by (rule sort_key_id_if_sorted) simp

lemma finalize_Inr:
  "finalize ord g = success h \<Longrightarrow> validate_graph ord g = success ()"
  by (auto simp: finalize_def split: sum.splits)

lemma canonical_topology_sorted [simp]:
  "canonical_topology (sort_key n_id ns) (sort_key e_id es) = canonical_topology ns es"
  by (simp add: canonical_topology_def)

lemma canonical_semantic_cong:
  assumes "canonical_topology (g_nodes g) (g_edges g) = canonical_topology (g_nodes h) (g_edges h)"
    and "g_backend g = g_backend h" "g_runtime g = g_runtime h" "g_device g = g_device h"
    "g_sync g = g_sync h" "g_dependencies g = g_dependencies h" "g_provenance g = g_provenance h"
  shows "canonical_semantic g = canonical_semantic h"
  by (simp add: canonical_semantic_def assms)

definition finalized :: "GraphDescriptor \<Rightarrow> GraphDescriptor" where
  "finalized g = (canonicalize_topology g)\<lparr>
     g_topology_canonical := canonical_topology (g_nodes g) (g_edges g),
     g_topology_digest := topology_digest (g_nodes g) (g_edges g),
     g_semantic_canonical := canonical_semantic g,
     g_semantic_digest := sha_compute (canonical_semantic g),
     g_artifact := (if GraphArtifactId_valid (g_artifact g) then g_artifact g
                    else artifact_of_digest (sha_compute (canonical_semantic g)))\<rparr>"

lemma finalized_fields:
  "g_nodes (finalized g) = sort_key n_id (g_nodes g)" "g_edges (finalized g) = sort_key e_id (g_edges g)"
  "g_topology_canonical (finalized g) = canonical_topology (g_nodes g) (g_edges g)"
  "g_topology_digest (finalized g) = sha_compute (canonical_topology (g_nodes g) (g_edges g))"
  "g_semantic_canonical (finalized g) = canonical_semantic g"
  "g_semantic_digest (finalized g) = sha_compute (canonical_semantic g)"
  "g_artifact (finalized g) = (if GraphArtifactId_valid (g_artifact g) then g_artifact g
     else artifact_of_digest (sha_compute (canonical_semantic g)))"
  by (simp_all add: finalized_def canonicalize_topology_def topology_digest_def)

lemma canonical_semantic_finalized [simp]: "canonical_semantic (finalized g) = canonical_semantic g"
  by (rule canonical_semantic_cong) (simp_all add: finalized_def canonicalize_topology_def)

lemma finalized_idem [simp]: "finalized (finalized g) = finalized g"
  unfolding finalized_def [of "finalized g"] canonical_semantic_finalized
  by (simp add: finalized_def canonicalize_topology_def topology_digest_def)

lemma finalize_eq:
  "finalize ord g = (case validate_graph ord g of Inl err \<Rightarrow> Inl err | Inr _ \<Rightarrow> success (finalized g))"
proof -
  have "canonical_semantic (g\<lparr>g_nodes := sort_key n_id (g_nodes g), g_edges := sort_key e_id (g_edges g),
     g_topology_canonical := a, g_topology_digest := b\<rparr>) = canonical_semantic g" for a b
    by (rule canonical_semantic_cong) simp_all
  then show ?thesis
    by (simp add: finalize_def finalized_def canonicalize_topology_def topology_digest_def Let_def
        split: sum.split)
qed

text \<open>
  C12: topology validation accepts exactly the well-formed graphs: node identities distinct, no edge from
  a node to itself, both endpoints of every edge present, edge identities distinct, at most one
  edge between an ordered pair of nodes, and no cycle. The verdict does not depend on the iteration
  order of the hash map that feeds Kahn's algorithm.
\<close>

theorem validate_topology_decides:
  assumes "\<And>xs. mset (ord xs) = mset xs"
  shows "validate_topology ord ns es = success () \<longleftrightarrow>
     distinct (map n_id ns) \<and> list_all (\<lambda>e. e_from e \<noteq> e_to e) es
     \<and> list_all (\<lambda>e. e_from e \<in> n_id ` set ns \<and> e_to e \<in> n_id ` set ns) es
     \<and> distinct (map e_id es) \<and> distinct (map (\<lambda>e. (e_from e, e_to e)) es)
     \<and> acyclic (set (map (\<lambda>e. (e_from e, e_to e)) es))"
  using validate_topology_iff [OF assms]
  by (simp add: topology_ok_def topology_shape_def edge_pairs_def conj_assoc)

definition example_node :: "u64 \<Rightarrow> GraphNodeDescriptor" where
  "example_node i = GraphNodeDescriptor_default\<lparr>n_id := GraphNodeId 0 i\<rparr>"

definition example_edge :: "u64 \<Rightarrow> u64 \<Rightarrow> u64 \<Rightarrow> GraphEdgeDescriptor" where
  "example_edge i a b = GraphEdgeDescriptor_default\<lparr>e_id := GraphEdgeId 0 i,
     e_from := GraphNodeId 0 a, e_to := GraphNodeId 0 b\<rparr>"

lemmas example_simps = example_node_def example_edge_def GraphNodeDescriptor_default_def
  GraphEdgeDescriptor_default_def

lemma validate_topology_decides_witness:
  "validate_topology rev [example_node 1, example_node 2] [example_edge 1 1 2] = success ()
   \<and> validate_topology rev [example_node 1, example_node 2] [example_edge 1 1 2, example_edge 2 2 1] \<noteq> success ()"
proof -
  have r: "mset (rev xs) = mset xs" for xs :: "GraphNodeId list" by simp
  have "acyclic {(GraphNodeId 0 1, GraphNodeId 0 2)}"
    by (simp add: acyclic_insert wf_acyclic)
  moreover have "\<not> acyclic {(GraphNodeId 0 1, GraphNodeId 0 2), (GraphNodeId 0 2, GraphNodeId 0 1)}"
    by (simp add: acyclic_insert wf_acyclic r_into_rtrancl)
  ultimately show ?thesis
    using validate_topology_decides [OF r, of "[example_node 1, example_node 2]" "[example_edge 1 1 2]"]
      validate_topology_decides [OF r, of "[example_node 1, example_node 2]" "[example_edge 1 1 2, example_edge 2 2 1]"]
    by (simp add: example_simps)
qed

text \<open>
  C9: The identity of a finalized graph does not depend on how its nodes and edges were listed, nor on
  hash-map iteration order: finalizing any permutation of the lists gives the same descriptor, with
  the same canonical bytes, digests and artifact identity.
\<close>

theorem finalize_order_independent:
  assumes ord: "\<And>xs. mset (ord xs) = mset xs" and ord': "\<And>xs. mset (ord' xs) = mset xs"
    and perm: "mset ns = mset (g_nodes g)" "mset es = mset (g_edges g)"
    and ok: "finalize ord g = success h"
  shows "finalize ord' (g\<lparr>g_nodes := ns, g_edges := es\<rparr>) = success h"
proof -
  let ?p = "g\<lparr>g_nodes := ns, g_edges := es\<rparr>"
  have t: "topology_ok (g_nodes g) (g_edges g)"
    using finalize_Inr [OF ok] validate_topology_iff [OF ord] by (simp add: validate_graph_def)
  then have v: "validate_graph ord' ?p = success ()"
    using validate_topology_iff [OF ord'] topology_ok_mset [OF perm] by (simp add: validate_graph_def)
  have "distinct (map n_id ns)" "distinct (map e_id es)"
    using t topology_ok_mset [OF perm] by (simp_all add: topology_ok_def topology_shape_def)
  then have s: "sort_key n_id ns = sort_key n_id (g_nodes g)" "sort_key e_id es = sort_key e_id (g_edges g)"
    using perm by (simp_all add: sort_key_mset_eq)
  have ct: "canonical_topology ns es = canonical_topology (g_nodes g) (g_edges g)"
    by (simp add: canonical_topology_def s)
  moreover have "canonical_semantic ?p = canonical_semantic g"
    by (rule canonical_semantic_cong) (simp_all add: ct)
  ultimately have "finalized ?p = finalized g"
    by (simp add: finalized_def canonicalize_topology_def s topology_digest_def)
  then show ?thesis
    using ok v finalize_Inr [OF ok] by (simp add: finalize_eq)
qed

lemma finalize_order_independent_witness:
  "\<exists>h. finalize rev (GraphDescriptor_default\<lparr>g_nodes := [example_node 1, example_node 2]\<rparr>) = success h
     \<and> finalize id (GraphDescriptor_default\<lparr>g_nodes := [example_node 2, example_node 1]\<rparr>) = success h"
proof -
  let ?g = "GraphDescriptor_default\<lparr>g_nodes := [example_node 1, example_node 2]\<rparr>"
  have "validate_graph rev ?g = success ()"
    using validate_topology_iff [of rev "g_nodes ?g" "g_edges ?g"]
    by (simp add: validate_graph_def topology_ok_def topology_shape_def edge_pairs_def example_simps
        GraphDescriptor_default_def wf_acyclic)
  then have "finalize rev ?g = success (finalized ?g)" by (simp add: finalize_eq)
  moreover from finalize_order_independent [OF _ _ _ _ this, of id "[example_node 2, example_node 1]" "[]"]
  have "finalize id (?g\<lparr>g_nodes := [example_node 2, example_node 1], g_edges := []\<rparr>) = success (finalized ?g)"
    by (simp add: GraphDescriptor_default_def add_mset_commute)
  ultimately show ?thesis by (auto simp: GraphDescriptor_default_def)
qed

text \<open>
  finalization is idempotent: a finalized descriptor finalizes to itself.
\<close>

theorem finalize_idempotent:
  assumes ord: "\<And>xs. mset (ord xs) = mset xs" and ok: "finalize ord g = success h"
  shows "finalize ord h = success h"
proof -
  have "topology_ok (g_nodes g) (g_edges g)"
    using finalize_Inr [OF ok] validate_topology_iff [OF ord] by (simp add: validate_graph_def)
  moreover have h: "h = finalized g"
    using finalize_Inr [OF ok] ok by (simp add: finalize_eq)
  ultimately have "topology_ok (g_nodes h) (g_edges h)"
    using topology_ok_mset [of "g_nodes h" "g_nodes g" "g_edges h" "g_edges g"]
    by (simp add: finalized_def canonicalize_topology_def)
  then have "validate_graph ord h = success ()"
    using validate_topology_iff [OF ord] by (simp add: validate_graph_def)
  then show ?thesis by (simp add: finalize_eq h)
qed

lemma finalize_idempotent_witness:
  "finalize id (finalized GraphDescriptor_default) = success (finalized GraphDescriptor_default)"
proof -
  have "validate_graph id GraphDescriptor_default = success ()"
    by (simp add: validate_graph_def validate_topology_def GraphDescriptor_default_def in_degree_def Let_def)
  then have "finalize id GraphDescriptor_default = success (finalized GraphDescriptor_default)"
    by (simp add: finalize_eq)
  then show ?thesis by (rule finalize_idempotent [rotated]) simp
qed

section \<open>The encoding determines the graph\<close>

text \<open>
  An encoded node as the list of its fields; \<open>opt\<close> keeps the conditional blocks of the code.
\<close>

definition opt :: "bool \<Rightarrow> 'a list \<Rightarrow> 'a list" where
  "opt c xs = (if c then xs else [])"

definition node_tail :: "GraphNodeDescriptor \<Rightarrow> (u16 \<times> bytes) list" where
  "node_tail n = (N_CATEGORY, put_be_u32 (NodeCategory_code (n_category n)))
   # (N_NAME, bytes_of_string (n_name n))
   # opt (n_category n = NC_Kernel)
      [(N_K_NAME, bytes_of_string (k_name (n_kernel n))), (N_K_HI, put_be_u64 (k_hi (n_kernel n))),
       (N_K_LO, put_be_u64 (k_lo (n_kernel n))), (N_K_GEN, put_be_u64 (gg_value (k_generation (n_kernel n)))),
       (N_K_ABI, put_be_u32 (k_abi (n_kernel n))), (N_K_DIGEST, bytes_of_string (k_digest (n_kernel n))),
       (N_K_CONTRIB, [if k_contributes (n_kernel n) then 1 else 0])]
   @ opt (n_category n = NC_Kernel)
      [(N_GRIDX, put_be_u32 (lg_grid_x (n_launch n))), (N_GRIDY, put_be_u32 (lg_grid_y (n_launch n))),
       (N_GRIDZ, put_be_u32 (lg_grid_z (n_launch n))), (N_BLKX, put_be_u32 (lg_block_x (n_launch n))),
       (N_BLKY, put_be_u32 (lg_block_y (n_launch n))), (N_BLKZ, put_be_u32 (lg_block_z (n_launch n))),
       (N_SMEM, put_be_u32 (lg_shared_memory (n_launch n)))]
   @ (N_MEMBYTES, put_be_u64 (n_memory_bytes n))
   # opt (n_category n = NC_MemorySet) [(N_MSET, [n_memset_value n])]
   @ opt (n_datatype n \<noteq> DT_None)
      (opt (sh_dims (n_shape n) \<noteq> []) [(N_DIMS, u64s (sh_dims (n_shape n)))]
       @ (N_DYNAMIC, [if sh_dynamic (n_shape n) then 1 else 0])
       # opt (sh_max_rank (n_shape n) \<noteq> 0) [(N_MAXRANK, put_be_u32 (sh_max_rank (n_shape n)))]
       @ [(N_DTYPE, put_be_u32 (Datatype_code (n_datatype n))), (N_LAYOUT, put_be_u32 (TensorLayout_code (n_layout n)))])
   @ opt (sc_specialized (n_scalar n))
      [(N_SCALAR_SPEC, [if True then 1 else 0]), (N_SCALAR_INT, put_be_u64 (sc_int (n_scalar n))),
       (N_SCALAR_FLOAT, put_be_u64 (sc_float (n_scalar n)))]
   @ (N_Q_MODE, put_be_u32 (QuantizationMode_code (q_mode (n_quantization n))))
   # opt (q_mode (n_quantization n) \<noteq> QM_None)
      [(N_Q_GROUP, put_be_u32 (q_group_size (n_quantization n))),
       (N_Q_SYM, [if q_symmetric (n_quantization n) then 1 else 0]),
       (N_Q_SCHEME, bytes_of_string (q_custom_scheme (n_quantization n)))]
   @ (N_BIND_CLASS, put_be_u32 (BindingClass_code (bd_class (n_binding n))))
   # (N_BIND_ALIGN, put_be_u32 (bd_alignment (n_binding n)))
   # (N_BIND_SCHEMA, bytes_of_string (bd_schema (n_binding n)))
   # (N_BIND_ELIGIBLE, [if bd_rebinding_eligible (n_binding n) then 1 else 0])
   # (N_REQ_ALIGN, put_be_u64 (n_required_alignment n))
   # opt (n_child_lo n \<noteq> 0) [(N_CHILD_HI, put_be_u64 (n_child_hi n)), (N_CHILD_LO, put_be_u64 (n_child_lo n))]
   @ opt (n_inputs n \<noteq> []) [(N_IN_INDICES, u64s (map ucast (n_inputs n)))]
   @ opt (n_outputs n \<noteq> []) [(N_OUT_INDICES, u64s (map ucast (n_outputs n)))]
   @ opt (n_opaque n \<noteq> []) [(N_OPAQUE, n_opaque n)]"

definition node_fields :: "GraphNodeDescriptor \<Rightarrow> (u16 \<times> bytes) list" where
  "node_fields n = (N_ID_HI, put_be_u64 (nid_hi (n_id n))) # (N_ID_LO, put_be_u64 (nid_lo (n_id n))) # node_tail n"

definition edge_fields :: "GraphEdgeDescriptor \<Rightarrow> (u16 \<times> bytes) list" where
  "edge_fields e = [(E_ID_HI, put_be_u64 (eid_hi (e_id e))), (E_ID_LO, put_be_u64 (eid_lo (e_id e))),
     (E_FROM_HI, put_be_u64 (nid_hi (e_from e))), (E_FROM_LO, put_be_u64 (nid_lo (e_from e))),
     (E_TO_HI, put_be_u64 (nid_hi (e_to e))), (E_TO_LO, put_be_u64 (nid_lo (e_to e))),
     (E_KIND, put_be_u32 (DependencyKind_code (e_kind e))), (E_LABEL, bytes_of_string (e_label e))]"

text \<open>
  What can be written: enumerations hold named values, and every payload fits its 32-bit length.
\<close>

definition node_encodable :: "GraphNodeDescriptor \<Rightarrow> bool" where
  "node_encodable n \<longleftrightarrow> NodeCategory_named (n_category n) \<and> Datatype_named (n_datatype n)
     \<and> TensorLayout_named (n_layout n) \<and> QuantizationMode_named (q_mode (n_quantization n))
     \<and> BindingClass_named (bd_class (n_binding n))
     \<and> fits32 (n_name n) \<and> fits32 (k_name (n_kernel n)) \<and> fits32 (k_digest (n_kernel n))
     \<and> 8 * length (sh_dims (n_shape n)) + 4 < 2 ^ 32 \<and> fits32 (q_custom_scheme (n_quantization n))
     \<and> fits32 (bd_schema (n_binding n)) \<and> 8 * length (n_inputs n) + 4 < 2 ^ 32
     \<and> 8 * length (n_outputs n) + 4 < 2 ^ 32 \<and> fits32 (n_opaque n)"

definition edge_encodable :: "GraphEdgeDescriptor \<Rightarrow> bool" where
  "edge_encodable e \<longleftrightarrow> DependencyKind_named (e_kind e) \<and> fits32 (e_label e)"

text \<open>
  The part of a node the encoding covers: the kernel and launch of a kernel node (not the kernel's
  provenance), the value of a memory-set node, the shape and layout of a typed node, a specialised
  scalar, the parameters of a quantized node, a child graph reference with a valid low half. The rest is
  reset to its default.
\<close>

definition node_view :: "GraphNodeDescriptor \<Rightarrow> GraphNodeDescriptor" where
  "node_view n = n\<lparr>
     n_kernel := (if n_category n = NC_Kernel then (n_kernel n)\<lparr>k_provenance := []\<rparr> else KernelIdentityRef_default),
     n_launch := (if n_category n = NC_Kernel then n_launch n else LaunchGeometry_default),
     n_memset_value := (if n_category n = NC_MemorySet then n_memset_value n else 0),
     n_shape := (if n_datatype n \<noteq> DT_None then n_shape n else ShapeDescriptor_default),
     n_layout := (if n_datatype n \<noteq> DT_None then n_layout n else TL_Contiguous),
     n_scalar := (if sc_specialized (n_scalar n) then n_scalar n else ScalarSpecialization_default),
     n_quantization := (if q_mode (n_quantization n) \<noteq> QM_None then n_quantization n
                        else QuantizationConfig_default),
     n_child_hi := (if n_child_lo n \<noteq> 0 then n_child_hi n else 0)\<rparr>"

lemma write_fields_simps [simp]:
  "write_fields [] = []" "write_fields ((t, p) # fs) = field t p @ write_fields fs"
  "write_fields (fs @ gs) = write_fields fs @ write_fields gs"
  by (simp_all add: write_fields_def put_is_field)

lemma write_fields_concat: "write_fields (concat (map f xs)) = concat (map (\<lambda>x. write_fields (f x)) xs)"
  by (induction xs) simp_all

lemma write_fields_opt: "write_fields (opt c fs) = (if c then write_fields fs else [])"
  by (simp add: opt_def)

lemma write_fields_inject:
  assumes "list_all (\<lambda>f. fits32 (snd f)) fs" and "list_all (\<lambda>f. fits32 (snd f)) gs"
    and "write_fields fs = write_fields gs"
  shows "fs = gs"
proof -
  have "\<forall>(t, p) \<in> set fs. fits32 p" "\<forall>(t, p) \<in> set gs. fits32 p"
    using assms(1,2) by (auto simp: list_all_iff)
  from collect_write_fields [OF this(1), of "[]"] collect_write_fields [OF this(2), of "[]"]
  show ?thesis unfolding assms(3) by simp
qed

lemma encode_node_fields: "encode_node n = write_fields (node_fields n)"
  unfolding encode_node_def node_fields_def node_tail_def put_is_field write_fields_simps write_fields_opt u64s_def
    append_Nil2 append_assoc append_Cons append_Nil
  by (rule refl)

lemma encode_edge_fields: "encode_edge e = write_fields (edge_fields e)"
  unfolding encode_edge_def edge_fields_def put_is_field write_fields_simps by (simp only: append_Nil2)

lemma concat_u64_inject: "concat (map put_be_u64 vs) = concat (map put_be_u64 ws) \<Longrightarrow> vs = ws"
proof (induction vs arbitrary: ws)
  case Nil
  then show ?case by (cases ws) (auto simp: dest: arg_cong [of _ _ length])
next
  case (Cons v vs)
  then obtain w ws' where ws: "ws = w # ws'"
    by (cases ws) (auto dest: arg_cong [of _ _ length])
  with Cons show ?case by (simp add: u64c.enc_inject)
qed

lemma u64s_inject [simp]: "u64s vs = u64s ws \<longleftrightarrow> vs = ws"
  by (auto simp: u64s_def dest: concat_u64_inject)

lemma ucast_u64_injD: "(ucast (x :: u32) :: u64) = ucast y \<Longrightarrow> x = y"
  by (drule arg_cong [of _ _ "ucast :: u64 \<Rightarrow> u32"]) (simp add: ucast_up_ucast_id is_up)

lemma ucast_u64_inject: "map (ucast :: u32 \<Rightarrow> u64) xs = map ucast ys \<longleftrightarrow> xs = ys"
  by (rule inj_map_eq_map) (auto intro!: injI dest: ucast_u64_injD)

abbreviation all_fit :: "(u16 \<times> bytes) list \<Rightarrow> bool" where
  "all_fit \<equiv> list_all (\<lambda>f. fits32 (snd f))"

lemma all_fit_opt [simp]: "all_fit (opt c fs) \<longleftrightarrow> (c \<longrightarrow> all_fit fs)"
  by (simp add: opt_def)

lemma node_fields_fit: "node_encodable n \<Longrightarrow> all_fit (node_fields n)"
  by (simp add: node_fields_def node_tail_def node_encodable_def fits32_u64s)

lemma edge_fields_fit: "edge_encodable e \<Longrightarrow> all_fit (edge_fields e)"
  by (simp add: edge_fields_def edge_encodable_def)

text \<open>Looking a tag up in the field list, through the conditional blocks.\<close>

primrec lookup_tag :: "u16 \<Rightarrow> (u16 \<times> bytes) list \<Rightarrow> bytes option" where
  "lookup_tag t [] = None"
| "lookup_tag t (f # fs) = (if fst f = t then Some (snd f) else lookup_tag t fs)"

text \<open>Conditional rules, so that a block is searched once whatever its condition is.\<close>

lemma lookup_tag_append:
  "lookup_tag t (xs @ ys) = (case lookup_tag t xs of None \<Rightarrow> lookup_tag t ys | Some v \<Rightarrow> Some v)"
  by (induction xs) simp_all

lemma lookup_opt_skip:
  "lookup_tag t xs = None \<Longrightarrow> lookup_tag t (opt c xs @ ys) = lookup_tag t ys"
  "lookup_tag t xs = None \<Longrightarrow> lookup_tag t (opt c xs) = None"
  by (simp_all add: opt_def lookup_tag_append)

lemma lookup_opt_here:
  "lookup_tag t xs = Some v \<Longrightarrow> lookup_tag t ys = None \<Longrightarrow>
     lookup_tag t (opt c xs @ ys) = (if c then Some v else None)"
  "lookup_tag t xs = Some v \<Longrightarrow> lookup_tag t (opt c xs) = (if c then Some v else None)"
  by (simp_all add: opt_def lookup_tag_append)

lemma lookup_opt_nested:
  "lookup_tag t xs = (if d then Some v else None) \<Longrightarrow> lookup_tag t ys = None \<Longrightarrow>
     lookup_tag t (opt c xs @ ys) = (if c \<and> d then Some v else None)"
  by (simp add: opt_def lookup_tag_append)

lemma opt_Some_eq:
  "(if c then Some x else None) = (if d then Some y else None) \<longleftrightarrow> c = d \<and> (c \<longrightarrow> x = y)"
  by auto

lemma bool_byte_inject: "(if b then 1 else 0 :: u8) = (if c then 1 else 0) \<longleftrightarrow> b = c"
  by simp

lemmas lookup_simps = lookup_tag.simps lookup_opt_skip lookup_opt_here lookup_opt_nested

lemma node_lookups:
  "lookup_tag N_CATEGORY (node_tail n) = Some (put_be_u32 (NodeCategory_code (n_category n)))"
  "lookup_tag N_NAME (node_tail n) = Some (bytes_of_string (n_name n))"
  "lookup_tag N_K_NAME (node_tail n) = (if n_category n = NC_Kernel then Some (bytes_of_string (k_name (n_kernel n))) else None)"
  "lookup_tag N_K_HI (node_tail n) = (if n_category n = NC_Kernel then Some (put_be_u64 (k_hi (n_kernel n))) else None)"
  "lookup_tag N_K_LO (node_tail n) = (if n_category n = NC_Kernel then Some (put_be_u64 (k_lo (n_kernel n))) else None)"
  "lookup_tag N_K_GEN (node_tail n) = (if n_category n = NC_Kernel then Some (put_be_u64 (gg_value (k_generation (n_kernel n)))) else None)"
  "lookup_tag N_K_ABI (node_tail n) = (if n_category n = NC_Kernel then Some (put_be_u32 (k_abi (n_kernel n))) else None)"
  "lookup_tag N_K_DIGEST (node_tail n) = (if n_category n = NC_Kernel then Some (bytes_of_string (k_digest (n_kernel n))) else None)"
  "lookup_tag N_K_CONTRIB (node_tail n) = (if n_category n = NC_Kernel then Some ([if k_contributes (n_kernel n) then 1 else 0]) else None)"
  "lookup_tag N_GRIDX (node_tail n) = (if n_category n = NC_Kernel then Some (put_be_u32 (lg_grid_x (n_launch n))) else None)"
  "lookup_tag N_GRIDY (node_tail n) = (if n_category n = NC_Kernel then Some (put_be_u32 (lg_grid_y (n_launch n))) else None)"
  "lookup_tag N_GRIDZ (node_tail n) = (if n_category n = NC_Kernel then Some (put_be_u32 (lg_grid_z (n_launch n))) else None)"
  "lookup_tag N_BLKX (node_tail n) = (if n_category n = NC_Kernel then Some (put_be_u32 (lg_block_x (n_launch n))) else None)"
  "lookup_tag N_BLKY (node_tail n) = (if n_category n = NC_Kernel then Some (put_be_u32 (lg_block_y (n_launch n))) else None)"
  "lookup_tag N_BLKZ (node_tail n) = (if n_category n = NC_Kernel then Some (put_be_u32 (lg_block_z (n_launch n))) else None)"
  "lookup_tag N_SMEM (node_tail n) = (if n_category n = NC_Kernel then Some (put_be_u32 (lg_shared_memory (n_launch n))) else None)"
  "lookup_tag N_MEMBYTES (node_tail n) = Some (put_be_u64 (n_memory_bytes n))"
  "lookup_tag N_MSET (node_tail n) = (if n_category n = NC_MemorySet then Some ([n_memset_value n]) else None)"
  "lookup_tag N_DIMS (node_tail n) = (if n_datatype n \<noteq> DT_None \<and> sh_dims (n_shape n) \<noteq> [] then Some (u64s (sh_dims (n_shape n))) else None)"
  "lookup_tag N_DYNAMIC (node_tail n) = (if n_datatype n \<noteq> DT_None then Some ([if sh_dynamic (n_shape n) then 1 else 0]) else None)"
  "lookup_tag N_MAXRANK (node_tail n) = (if n_datatype n \<noteq> DT_None \<and> sh_max_rank (n_shape n) \<noteq> 0 then Some (put_be_u32 (sh_max_rank (n_shape n))) else None)"
  "lookup_tag N_DTYPE (node_tail n) = (if n_datatype n \<noteq> DT_None then Some (put_be_u32 (Datatype_code (n_datatype n))) else None)"
  "lookup_tag N_LAYOUT (node_tail n) = (if n_datatype n \<noteq> DT_None then Some (put_be_u32 (TensorLayout_code (n_layout n))) else None)"
  "lookup_tag N_SCALAR_INT (node_tail n) = (if sc_specialized (n_scalar n) then Some (put_be_u64 (sc_int (n_scalar n))) else None)"
  "lookup_tag N_SCALAR_FLOAT (node_tail n) = (if sc_specialized (n_scalar n) then Some (put_be_u64 (sc_float (n_scalar n))) else None)"
  "lookup_tag N_Q_MODE (node_tail n) = Some (put_be_u32 (QuantizationMode_code (q_mode (n_quantization n))))"
  "lookup_tag N_Q_GROUP (node_tail n) = (if q_mode (n_quantization n) \<noteq> QM_None then Some (put_be_u32 (q_group_size (n_quantization n))) else None)"
  "lookup_tag N_Q_SYM (node_tail n) = (if q_mode (n_quantization n) \<noteq> QM_None then Some ([if q_symmetric (n_quantization n) then 1 else 0]) else None)"
  "lookup_tag N_Q_SCHEME (node_tail n) = (if q_mode (n_quantization n) \<noteq> QM_None then Some (bytes_of_string (q_custom_scheme (n_quantization n))) else None)"
  "lookup_tag N_BIND_CLASS (node_tail n) = Some (put_be_u32 (BindingClass_code (bd_class (n_binding n))))"
  "lookup_tag N_BIND_ALIGN (node_tail n) = Some (put_be_u32 (bd_alignment (n_binding n)))"
  "lookup_tag N_BIND_SCHEMA (node_tail n) = Some (bytes_of_string (bd_schema (n_binding n)))"
  "lookup_tag N_BIND_ELIGIBLE (node_tail n) = Some ([if bd_rebinding_eligible (n_binding n) then 1 else 0])"
  "lookup_tag N_REQ_ALIGN (node_tail n) = Some (put_be_u64 (n_required_alignment n))"
  "lookup_tag N_CHILD_HI (node_tail n) = (if n_child_lo n \<noteq> 0 then Some (put_be_u64 (n_child_hi n)) else None)"
  "lookup_tag N_CHILD_LO (node_tail n) = (if n_child_lo n \<noteq> 0 then Some (put_be_u64 (n_child_lo n)) else None)"
  "lookup_tag N_IN_INDICES (node_tail n) = (if n_inputs n \<noteq> [] then Some (u64s (map ucast (n_inputs n))) else None)"
  "lookup_tag N_OUT_INDICES (node_tail n) = (if n_outputs n \<noteq> [] then Some (u64s (map ucast (n_outputs n))) else None)"
  "lookup_tag N_OPAQUE (node_tail n) = (if n_opaque n \<noteq> [] then Some (n_opaque n) else None)"
  by (simp_all add: node_tail_def lookup_simps)

lemmas tag_inject = node_lookups u32c.enc_inject u64c.enc_inject strc.enc_inject opt_Some_eq bool_byte_inject
  u64s_inject ucast_u64_inject

lemma node_tail_inject:
  assumes eq: "node_tail n = node_tail m" and en: "node_encodable n" and em: "node_encodable m"
  shows "node_view (n\<lparr>n_id := i\<rparr>) = node_view (m\<lparr>n_id := i\<rparr>)"
proof -
  note lk = arg_cong [OF eq, of "lookup_tag t" for t]
  note named = en [unfolded node_encodable_def] em [unfolded node_encodable_def]
  have cat: "n_category n = n_category m"
    using lk [of N_CATEGORY] named by (simp add: tag_inject ncc.to_code_inject)
  have kernel: "(n_kernel n)\<lparr>k_provenance := []\<rparr> = (n_kernel m)\<lparr>k_provenance := []\<rparr>" if "n_category n = NC_Kernel"
    using that cat lk [of N_K_NAME] lk [of N_K_HI] lk [of N_K_LO] lk [of N_K_GEN] lk [of N_K_ABI]
      lk [of N_K_DIGEST] lk [of N_K_CONTRIB]
    by (intro KernelIdentityRef.equality) (auto simp: tag_inject intro: GraphGeneration.expand split: if_splits)
  have launch: "n_launch n = n_launch m" if "n_category n = NC_Kernel"
    using that cat lk [of N_GRIDX] lk [of N_GRIDY] lk [of N_GRIDZ] lk [of N_BLKX] lk [of N_BLKY]
      lk [of N_BLKZ] lk [of N_SMEM]
    by (simp add: tag_inject)
  have memset: "n_memset_value n = n_memset_value m" if "n_category n = NC_MemorySet"
    using that cat lk [of N_MSET] by (simp add: tag_inject)
  have dt: "n_datatype n = n_datatype m"
    using lk [of N_DTYPE] named by (auto simp: tag_inject dtc.to_code_inject)
  have shape: "n_shape n = n_shape m" "n_layout n = n_layout m" if "n_datatype n \<noteq> DT_None"
    using that dt lk [of N_DIMS] lk [of N_DYNAMIC] lk [of N_MAXRANK] lk [of N_LAYOUT] named
    by (auto simp: tag_inject tlc.to_code_inject intro!: ShapeDescriptor.equality)
  have spec: "sc_specialized (n_scalar n) = sc_specialized (n_scalar m)"
    using lk [of N_SCALAR_INT] by (simp add: tag_inject)
  have scalar: "n_scalar n = n_scalar m" if "sc_specialized (n_scalar n)"
    using that spec lk [of N_SCALAR_INT] lk [of N_SCALAR_FLOAT] by (simp add: tag_inject)
  have mode: "q_mode (n_quantization n) = q_mode (n_quantization m)"
    using lk [of N_Q_MODE] named by (simp add: tag_inject qmc.to_code_inject)
  have quant: "n_quantization n = n_quantization m" if "q_mode (n_quantization n) \<noteq> QM_None"
    using that mode lk [of N_Q_GROUP] lk [of N_Q_SYM] lk [of N_Q_SCHEME] by (simp add: tag_inject)
  have bind: "n_binding n = n_binding m"
    using lk [of N_BIND_CLASS] lk [of N_BIND_ALIGN] lk [of N_BIND_SCHEMA] lk [of N_BIND_ELIGIBLE] named
    by (simp add: tag_inject bcc.to_code_inject)
  have child: "n_child_lo n = n_child_lo m" "n_child_lo n \<noteq> 0 \<Longrightarrow> n_child_hi n = n_child_hi m"
    using lk [of N_CHILD_HI] lk [of N_CHILD_LO] by (auto simp: tag_inject split: if_splits)
  have rest: "n_name n = n_name m" "n_memory_bytes n = n_memory_bytes m"
    "n_required_alignment n = n_required_alignment m" "n_inputs n = n_inputs m" "n_outputs n = n_outputs m"
    "n_opaque n = n_opaque m"
    using lk [of N_NAME] lk [of N_MEMBYTES] lk [of N_REQ_ALIGN] lk [of N_IN_INDICES] lk [of N_OUT_INDICES]
      lk [of N_OPAQUE]
    by (auto simp: tag_inject)
  show ?thesis
    by (rule GraphNodeDescriptor.equality)
      (use cat kernel launch memset dt shape spec scalar mode quant bind child rest in \<open>simp_all add: node_view_def\<close>)
qed

lemma node_tail_view: "node_tail (node_view n) = node_tail n"
  unfolding node_tail_def
  by (cases "n_category n = NC_Kernel"; cases "n_category n = NC_MemorySet"; cases "n_datatype n = DT_None")
    (simp_all add: node_view_def opt_def QuantizationConfig_default_def ScalarSpecialization_default_def)

lemma node_fields_eq_iff:
  assumes "node_encodable n" and "node_encodable m"
  shows "node_fields n = node_fields m \<longleftrightarrow> node_view n = node_view m"
proof
  assume eq: "node_fields n = node_fields m"
  then have "n_id n = n_id m" and "node_tail n = node_tail m"
    by (auto simp: node_fields_def u64c.enc_inject intro: GraphNodeId.expand)
  from this(2) have "node_view (n\<lparr>n_id := n_id m\<rparr>) = node_view (m\<lparr>n_id := n_id m\<rparr>)"
    using assms by (rule node_tail_inject)
  moreover have "n\<lparr>n_id := n_id m\<rparr> = n" by (simp flip: \<open>n_id n = n_id m\<close>)
  moreover have "m\<lparr>n_id := n_id m\<rparr> = m" by simp
  ultimately show "node_view n = node_view m" by (simp only:)
next
  assume v: "node_view n = node_view m"
  then have "n_id (node_view n) = n_id (node_view m)" "node_tail (node_view n) = node_tail (node_view m)"
    by simp_all
  then show "node_fields n = node_fields m"
    by (simp add: node_fields_def node_tail_view) (simp add: node_view_def)
qed

lemma edge_fields_eq_iff:
  assumes "edge_encodable e" and "edge_encodable f"
  shows "edge_fields e = edge_fields f \<longleftrightarrow> e = f"
proof
  assume "edge_fields e = edge_fields f"
  then show "e = f"
    using assms
    by (intro GraphEdgeDescriptor.equality)
      (auto simp: edge_fields_def edge_encodable_def u64c.enc_inject u32c.enc_inject strc.enc_inject
        dkc.to_code_inject intro: GraphNodeId.expand GraphEdgeId.expand)
qed simp

text \<open>
  Within a node's fields only the first two have tags below 3, which is where the next node, or the
  edge count, begins: concatenated nodes can be told apart.
\<close>

definition big_tag :: "u16 \<times> bytes \<Rightarrow> bool" where
  "big_tag f \<longleftrightarrow> fst f \<notin> {1, 2}"

lemma big_tag_opt: "list_all big_tag (opt c xs) \<longleftrightarrow> (c \<longrightarrow> list_all big_tag xs)"
  by (simp add: opt_def)

lemma node_tail_big: "list_all big_tag (node_tail n)"
  by (simp add: node_tail_def big_tag_opt) (simp add: big_tag_def)

lemma takeWhile_all: "list_all P xs \<Longrightarrow> (ys = [] \<or> \<not> P (hd ys)) \<Longrightarrow> takeWhile P (xs @ ys) = xs"
  by (cases ys) (auto simp: list_all_iff takeWhile_append)

lemma node_fields_prefix:
  assumes "node_fields n @ r = node_fields m @ s" and "r \<noteq> []" "\<not> big_tag (hd r)" and "s \<noteq> []" "\<not> big_tag (hd s)"
  shows "node_fields n = node_fields m \<and> r = s"
proof -
  from assms(1) have heads: "take 2 (node_fields n) = take 2 (node_fields m)"
    and tails: "node_tail n @ r = node_tail m @ s"
    by (simp_all add: node_fields_def)
  have "node_tail n = takeWhile big_tag (node_tail n @ r)"
    using node_tail_big assms(3) by (simp add: takeWhile_all)
  also have "\<dots> = node_tail m"
    unfolding tails using node_tail_big assms(5) by (simp add: takeWhile_all)
  finally show ?thesis using heads tails by (simp add: node_fields_def)
qed

lemma concat_node_fields_inject:
  assumes "length ns = length ms"
    and "concat (map node_fields ns) @ f # r = concat (map node_fields ms) @ g # s"
    and "\<not> big_tag f" and "\<not> big_tag g"
  shows "map node_fields ns = map node_fields ms \<and> f # r = g # s"
  using assms(1,2)
proof (induction ns ms rule: list_induct2)
  case (Cons n ns m ms)
  have hd_ok: "concat (map node_fields xs) @ h # t \<noteq> []"
    "\<not> big_tag h \<Longrightarrow> \<not> big_tag (hd (concat (map node_fields xs) @ h # t))" for xs h t
    by (cases xs; simp add: node_fields_def big_tag_def)+
  from Cons.prems
  have "node_fields n @ concat (map node_fields ns) @ f # r = node_fields m @ concat (map node_fields ms) @ g # s"
    by simp
  from node_fields_prefix [OF this hd_ok(1) hd_ok(2) [OF assms(3)] hd_ok(1) hd_ok(2) [OF assms(4)]] Cons.IH
  show ?case by simp
qed simp

lemma length_concat_edge_fields: "length (concat (map edge_fields es)) = 8 * length es"
  by (induction es) (simp_all add: edge_fields_def)

lemma concat_edge_fields_inject:
  "concat (map edge_fields es) = concat (map edge_fields fs) \<Longrightarrow> map edge_fields es = map edge_fields fs"
proof (induction es arbitrary: fs)
  case Nil
  then have "length (concat (map edge_fields fs)) = 0" by simp
  then show ?case by (simp only: length_concat_edge_fields) simp
next
  case (Cons e es)
  then have "length (concat (map edge_fields fs)) \<noteq> 0" by (auto simp: edge_fields_def)
  then obtain f fs' where fs: "fs = f # fs'" by (cases fs) auto
  have "edge_fields e = edge_fields f \<and> concat (map edge_fields es) = concat (map edge_fields fs')"
    using Cons.prems by (subst (asm) fs) (simp add: edge_fields_def)
  with Cons.IH [of fs'] show ?case by (simp add: fs)
qed

definition topology_fields :: "GraphNodeDescriptor list \<Rightarrow> GraphEdgeDescriptor list \<Rightarrow> (u16 \<times> bytes) list" where
  "topology_fields sn se = (1, put_be_u32 (word_of_nat (length sn))) # concat (map node_fields sn)
     @ (2, put_be_u32 (word_of_nat (length se))) # concat (map edge_fields se)"

lemma canonical_topology_fields:
  "canonical_topology ns es = write_fields (topology_fields (sort_key n_id ns) (sort_key e_id es))"
proof -
  have "encode_node = (\<lambda>n. write_fields (node_fields n))" "encode_edge = (\<lambda>e. write_fields (edge_fields e))"
    by (simp_all add: fun_eq_iff encode_node_fields encode_edge_fields)
  then show ?thesis
    by (simp add: canonical_topology_def topology_fields_def put_is_field write_fields_concat)
qed

lemma all_fit_concat: "(\<And>x. x \<in> set xs \<Longrightarrow> all_fit (f x)) \<Longrightarrow> all_fit (concat (map f xs))"
  by (auto simp: list_all_iff)

definition graph_encodable :: "GraphNodeDescriptor list \<Rightarrow> GraphEdgeDescriptor list \<Rightarrow> bool" where
  "graph_encodable ns es \<longleftrightarrow> fits32 ns \<and> list_all node_encodable ns \<and> list_all edge_encodable es"

lemma graph_encodable_sorted: "graph_encodable (sort_key n_id ns) (sort_key e_id es) = graph_encodable ns es"
  by (simp add: graph_encodable_def fits32_def list_all_iff)

lemma map_eq_transfer:
  "map f xs = map f ys \<Longrightarrow> (\<And>x y. x \<in> set xs \<Longrightarrow> y \<in> set ys \<Longrightarrow> f x = f y \<Longrightarrow> g x = g y) \<Longrightarrow> map g xs = map g ys"
  by (induction xs arbitrary: ys) (auto simp: Cons_eq_map_conv)

lemma topology_fields_inject:
  assumes "graph_encodable ns es" and "graph_encodable ms fs" and "topology_fields ns es = topology_fields ms fs"
  shows "map node_view ns = map node_view ms \<and> es = fs"
proof -
  have "length ns = length ms"
    using assms by (simp add: topology_fields_def u32c.enc_inject graph_encodable_def fits32_def word_of_nat_eq_iff
        take_bit_nat_eq_self)
  moreover from assms(3) have "concat (map node_fields ns) @ (2, put_be_u32 (word_of_nat (length es))) # concat (map edge_fields es)
     = concat (map node_fields ms) @ (2, put_be_u32 (word_of_nat (length fs))) # concat (map edge_fields fs)"
    by (simp add: topology_fields_def)
  ultimately have n: "map node_fields ns = map node_fields ms"
    and e: "concat (map edge_fields es) = concat (map edge_fields fs)"
    by (auto dest!: concat_node_fields_inject simp: big_tag_def)
  from n have "map node_view ns = map node_view ms"
    using assms(1,2) by (elim map_eq_transfer) (simp add: graph_encodable_def list_all_iff node_fields_eq_iff)
  moreover have "map id es = map id fs"
    using concat_edge_fields_inject [OF e] assms(1,2)
    by (elim map_eq_transfer) (simp add: graph_encodable_def list_all_iff edge_fields_eq_iff)
  ultimately show ?thesis by simp
qed

text \<open>
  C33: the canonical topology encoding is faithful. Two graphs with representable contents have the same
  canonical bytes exactly when, sorted by identity, their edges are equal and their nodes agree on
  every field the encoding covers: no two different topologies share an encoding.
\<close>

theorem canonical_topology_faithful:
  assumes "graph_encodable ns es" and "graph_encodable ms fs"
  shows "canonical_topology ns es = canonical_topology ms fs \<longleftrightarrow>
     map node_view (sort_key n_id ns) = map node_view (sort_key n_id ms) \<and> sort_key e_id es = sort_key e_id fs"
    (is "?l \<longleftrightarrow> ?r")
proof
  have enc: "graph_encodable (sort_key n_id ns) (sort_key e_id es)" "graph_encodable (sort_key n_id ms) (sort_key e_id fs)"
    using assms by (simp_all only: graph_encodable_sorted)
  have fit: "all_fit (topology_fields a b)" if "graph_encodable a b" for a b
  proof -
    have "all_fit (concat (map node_fields a))"
      by (rule all_fit_concat, rule node_fields_fit) (use that in \<open>simp add: graph_encodable_def list_all_iff\<close>)
    moreover have "all_fit (concat (map edge_fields b))"
      by (rule all_fit_concat, rule edge_fields_fit) (use that in \<open>simp add: graph_encodable_def list_all_iff\<close>)
    ultimately show ?thesis by (simp add: topology_fields_def)
  qed
  show ?r if ?l
    using write_fields_inject [OF fit [OF enc(1)] fit [OF enc(2)]] that topology_fields_inject [OF enc]
    by (simp add: canonical_topology_fields)
  assume ?r
  moreover from this have "map node_fields (sort_key n_id ns) = map node_fields (sort_key n_id ms)"
    using enc by (elim conjE map_eq_transfer) (simp add: graph_encodable_def list_all_iff node_fields_eq_iff)
  moreover from this have "length ns = length ms"
    by (metis length_map length_sort)
  moreover have "length es = length fs"
    using \<open>?r\<close> by (metis length_sort)
  ultimately show ?l
    by (simp add: canonical_topology_fields topology_fields_def)
qed

lemma canonical_topology_faithful_witness:
  "canonical_topology [example_node 2, example_node 1] [example_edge 1 1 2]
     \<noteq> canonical_topology [example_node 1, example_node 2] [example_edge 1 2 1]"
proof -
  have g: "graph_encodable [example_node 2, example_node 1] [example_edge 1 1 2]"
    "graph_encodable [example_node 1, example_node 2] [example_edge 1 2 1]"
    by (simp_all add: graph_encodable_def fits32_def node_encodable_def edge_encodable_def example_simps
        QuantizationConfig_default_def BindingDescriptor_default_def KernelIdentityRef_default_def
        ShapeDescriptor_default_def)
  have "[example_edge 1 1 2] \<noteq> [example_edge 1 2 1]" by (simp add: example_simps)
  then show ?thesis using canonical_topology_faithful [OF g] by simp
qed

end
