(* ===== verification/GC_Compatibility.thy ===== *)
theory GC_Compatibility
  imports GC_Topology
begin

text \<open>
  The compatibility key and the compatibility decision: \<open>include/graphcache/compatibility.hpp\<close> and
  \<open>src/compatibility.cpp\<close>.

  The facts of a graph are encoded in a fixed order; the key is that encoding with its SHA-256.
  \<open>decode_facts\<close> is split at the members of \<open>CompatibilityFacts\<close>, in the order the code reads them; every
  part is a \<open>stream_codec\<close>. In \<open>decode_shape\<close> the code takes \<open>p.subspan(0, 4)\<close> of a payload it has not
  measured; the model rejects a payload shorter than four bytes there.

  \<open>decide_compatibility\<close> threads the reasons and the first failing class (\<open>hard_fail\<close>,
  \<open>fail_class\<close>) through the code's checks in order.
\<close>

section \<open>Facts and keys\<close>

record CompatibilityFacts =
  f_workload :: WorkloadIdentity
  f_backend :: BackendIdentity
  f_runtime :: RuntimeDescriptor
  f_device :: DeviceDescriptor
  f_capture_mode :: CaptureMode
  f_stream_semantics :: StreamSemantics
  f_topology :: bytes
  f_input_shapes :: "ShapeDescriptor list"
  f_output_shapes :: "ShapeDescriptor list"
  f_datatypes :: "Datatype list"
  f_layouts :: "TensorLayout list"
  f_scalar :: ScalarSpecialization
  f_quantization :: QuantizationConfig
  f_binding :: BindingDescriptor
  f_required_alignment :: u64
  f_memory_schema :: string
  f_dependencies :: "KernelIdentityRef list"
  f_model_revision :: string
  f_policy_generation :: string

definition CompatibilityFacts_default :: CompatibilityFacts where
  "CompatibilityFacts_default = \<lparr>f_workload = WorkloadIdentity_default, f_backend = BackendIdentity_default,
     f_runtime = RuntimeDescriptor_default, f_device = DeviceDescriptor_default, f_capture_mode = CM_None,
     f_stream_semantics = SS_Default, f_topology = [], f_input_shapes = [], f_output_shapes = [],
     f_datatypes = [], f_layouts = [], f_scalar = ScalarSpecialization_default,
     f_quantization = QuantizationConfig_default, f_binding = BindingDescriptor_default,
     f_required_alignment = 128, f_memory_schema = [], f_dependencies = [], f_model_revision = [],
     f_policy_generation = []\<rparr>"

record GraphCompatibilityKey =
  key_facts :: CompatibilityFacts
  key_canonical :: bytes
  key_digest :: bytes

definition key_default :: GraphCompatibilityKey where
  "key_default = \<lparr>key_facts = CompatibilityFacts_default, key_canonical = [], key_digest = replicate 32 0\<rparr>"

definition key_valid :: "GraphCompatibilityKey \<Rightarrow> bool" where
  "key_valid k \<longleftrightarrow> key_canonical k \<noteq> []"

definition key_digest_hex :: "GraphCompatibilityKey \<Rightarrow> string" where
  "key_digest_hex k = sha_hex (key_digest k)"

definition key_eq :: "GraphCompatibilityKey \<Rightarrow> GraphCompatibilityKey \<Rightarrow> bool" where
  "key_eq k l \<longleftrightarrow> key_digest k = key_digest l \<and> key_canonical k = key_canonical l"

section \<open>Encoding\<close>

text \<open>The field tags; those of shapes and dependencies number the fields of nested blocks.\<close>

abbreviation K_WL_NAME :: u16 where "K_WL_NAME \<equiv> 1"
abbreviation K_WL_VER :: u16 where "K_WL_VER \<equiv> 2"
abbreviation K_WL_NS :: u16 where "K_WL_NS \<equiv> 3"
abbreviation K_WL_REVMODE :: u16 where "K_WL_REVMODE \<equiv> 4"
abbreviation K_WL_MODELREV :: u16 where "K_WL_MODELREV \<equiv> 5"
abbreviation K_WL_POLICYGEN :: u16 where "K_WL_POLICYGEN \<equiv> 6"
abbreviation K_BK_KIND :: u16 where "K_BK_KIND \<equiv> 10"
abbreviation K_BK_NAME :: u16 where "K_BK_NAME \<equiv> 11"
abbreviation K_BK_VER :: u16 where "K_BK_VER \<equiv> 12"
abbreviation K_BK_IMPL :: u16 where "K_BK_IMPL \<equiv> 13"
abbreviation K_RT_VER :: u16 where "K_RT_VER \<equiv> 20"
abbreviation K_RT_GRAPHABI :: u16 where "K_RT_GRAPHABI \<equiv> 21"
abbreviation K_RT_KERNELABI :: u16 where "K_RT_KERNELABI \<equiv> 22"
abbreviation K_RT_DRIVER :: u16 where "K_RT_DRIVER \<equiv> 23"
abbreviation K_DEV_VENDOR :: u16 where "K_DEV_VENDOR \<equiv> 30"
abbreviation K_DEV_ARCH :: u16 where "K_DEV_ARCH \<equiv> 31"
abbreviation K_DEV_CCMAJ :: u16 where "K_DEV_CCMAJ \<equiv> 32"
abbreviation K_DEV_CCMIN :: u16 where "K_DEV_CCMIN \<equiv> 33"
abbreviation K_DEV_IDX :: u16 where "K_DEV_IDX \<equiv> 34"
abbreviation K_DEV_NAME :: u16 where "K_DEV_NAME \<equiv> 35"
abbreviation K_CM_MODE :: u16 where "K_CM_MODE \<equiv> 40"
abbreviation K_CM_STREAM :: u16 where "K_CM_STREAM \<equiv> 41"
abbreviation K_TOPO :: u16 where "K_TOPO \<equiv> 50"
abbreviation K_INSHAPES_COUNT :: u16 where "K_INSHAPES_COUNT \<equiv> 60"
abbreviation K_INSHAPE :: u16 where "K_INSHAPE \<equiv> 61"
abbreviation K_OUTSHAPES_COUNT :: u16 where "K_OUTSHAPES_COUNT \<equiv> 62"
abbreviation K_OUTSHAPE :: u16 where "K_OUTSHAPE \<equiv> 63"
abbreviation K_DTYPES_COUNT :: u16 where "K_DTYPES_COUNT \<equiv> 64"
abbreviation K_DTYPE :: u16 where "K_DTYPE \<equiv> 65"
abbreviation K_LAYOUTS_COUNT :: u16 where "K_LAYOUTS_COUNT \<equiv> 66"
abbreviation K_LAYOUT :: u16 where "K_LAYOUT \<equiv> 67"
abbreviation K_SCALAR_SPEC :: u16 where "K_SCALAR_SPEC \<equiv> 70"
abbreviation K_SCALAR_INT :: u16 where "K_SCALAR_INT \<equiv> 71"
abbreviation K_SCALAR_FLOAT :: u16 where "K_SCALAR_FLOAT \<equiv> 72"
abbreviation K_Q_MODE :: u16 where "K_Q_MODE \<equiv> 73"
abbreviation K_Q_GROUP :: u16 where "K_Q_GROUP \<equiv> 74"
abbreviation K_Q_SYM :: u16 where "K_Q_SYM \<equiv> 75"
abbreviation K_Q_SCHEME :: u16 where "K_Q_SCHEME \<equiv> 76"
abbreviation K_BIND_CLASS :: u16 where "K_BIND_CLASS \<equiv> 77"
abbreviation K_BIND_ALIGN :: u16 where "K_BIND_ALIGN \<equiv> 78"
abbreviation K_BIND_SCHEMA :: u16 where "K_BIND_SCHEMA \<equiv> 79"
abbreviation K_BIND_ELIGIBLE :: u16 where "K_BIND_ELIGIBLE \<equiv> 80"
abbreviation K_REQ_ALIGN :: u16 where "K_REQ_ALIGN \<equiv> 81"
abbreviation K_MEM_SCHEMA :: u16 where "K_MEM_SCHEMA \<equiv> 82"
abbreviation K_DEP_COUNT :: u16 where "K_DEP_COUNT \<equiv> 90"
abbreviation K_DEP :: u16 where "K_DEP \<equiv> 91"
abbreviation K_MODELREV :: u16 where "K_MODELREV \<equiv> 95"
abbreviation K_POLICYGEN :: u16 where "K_POLICYGEN \<equiv> 96"
abbreviation SH_DIMS :: u16 where "SH_DIMS \<equiv> 1"
abbreviation SH_DYNAMIC :: u16 where "SH_DYNAMIC \<equiv> 2"
abbreviation SH_MAXRANK :: u16 where "SH_MAXRANK \<equiv> 3"
abbreviation DEP_NAME :: u16 where "DEP_NAME \<equiv> 1"
abbreviation DEP_HI :: u16 where "DEP_HI \<equiv> 2"
abbreviation DEP_LO :: u16 where "DEP_LO \<equiv> 3"
abbreviation DEP_GEN :: u16 where "DEP_GEN \<equiv> 4"
abbreviation DEP_ABI :: u16 where "DEP_ABI \<equiv> 5"
abbreviation DEP_DIGEST :: u16 where "DEP_DIGEST \<equiv> 6"
abbreviation DEP_CONTRIB :: u16 where "DEP_CONTRIB \<equiv> 7"

definition encode_shape :: "ShapeDescriptor \<Rightarrow> bytes" where
  "encode_shape s =
     (if sh_dims s \<noteq> [] then put_u64_list SH_DIMS (sh_dims s) else [])
   @ put_bool SH_DYNAMIC (sh_dynamic s)
   @ (if sh_max_rank s \<noteq> 0 then put_u32 SH_MAXRANK (sh_max_rank s) else [])"

definition decode_shape_body :: "u16 \<Rightarrow> bytes \<Rightarrow> ShapeDescriptor \<Rightarrow> ShapeDescriptor option" where
  "decode_shape_body tag p s =
     (if tag = SH_DIMS then do {
        n \<leftarrow> decode_u32 (take 4 p);
        if n > 4096 then None
        else do { vs \<leftarrow> decode_u64s (unat n) (drop 4 p); Some (s\<lparr>sh_dims := sh_dims s @ vs\<rparr>) } }
      else if tag = SH_DYNAMIC then do { b \<leftarrow> decode_bool p; Some (s\<lparr>sh_dynamic := b\<rparr>) }
      else if tag = SH_MAXRANK then do { v \<leftarrow> decode_u32 p; Some (s\<lparr>sh_max_rank := v\<rparr>) }
      else None)"

definition decode_shape :: "bytes \<Rightarrow> ShapeDescriptor option" where
  "decode_shape bytes = loop_decode decode_shape_body bytes ShapeDescriptor_default"

definition encode_dep :: "KernelIdentityRef \<Rightarrow> bytes" where
  "encode_dep d =
     put_str DEP_NAME (k_name d)
   @ put_u64 DEP_HI (k_hi d)
   @ put_u64 DEP_LO (k_lo d)
   @ put_u64 DEP_GEN (gg_value (k_generation d))
   @ put_u32 DEP_ABI (k_abi d)
   @ put_str DEP_DIGEST (k_digest d)
   @ put_bool DEP_CONTRIB (k_contributes d)"

definition decode_dep_body :: "u16 \<Rightarrow> bytes \<Rightarrow> KernelIdentityRef \<Rightarrow> KernelIdentityRef option" where
  "decode_dep_body tag p d =
     (if tag = DEP_NAME then do { v \<leftarrow> decode_str p; Some (d\<lparr>k_name := v\<rparr>) }
      else if tag = DEP_HI then do { v \<leftarrow> decode_u64 p; Some (d\<lparr>k_hi := v\<rparr>) }
      else if tag = DEP_LO then do { v \<leftarrow> decode_u64 p; Some (d\<lparr>k_lo := v\<rparr>) }
      else if tag = DEP_GEN then do { v \<leftarrow> decode_u64 p; Some (d\<lparr>k_generation := GraphGeneration v\<rparr>) }
      else if tag = DEP_ABI then do { v \<leftarrow> decode_u32 p; Some (d\<lparr>k_abi := v\<rparr>) }
      else if tag = DEP_DIGEST then do { v \<leftarrow> decode_str p; Some (d\<lparr>k_digest := v\<rparr>) }
      else if tag = DEP_CONTRIB then do { b \<leftarrow> decode_bool p; Some (d\<lparr>k_contributes := b\<rparr>) }
      else None)"

definition decode_dep :: "bytes \<Rightarrow> KernelIdentityRef option" where
  "decode_dep bytes = loop_decode decode_dep_body bytes KernelIdentityRef_default"

definition encode_facts_workload :: "WorkloadIdentity \<Rightarrow> bytes" where
  "encode_facts_workload w =
     put_str K_WL_NAME (wl_name w)
   @ put_u32 K_WL_VER (wl_version w)
   @ put_str K_WL_NS (wl_namespace w)
   @ put_u32 K_WL_REVMODE (WorkloadRevisionMode_code (wl_revision_mode w))
   @ put_str K_WL_MODELREV (wl_model_revision w)
   @ put_str K_WL_POLICYGEN (wl_policy_generation w)"

definition decode_facts_workload :: "CanonicalReader \<Rightarrow> (WorkloadIdentity \<times> CanonicalReader) option" where
  "decode_facts_workload r = do {
     (nm, r) \<leftarrow> read_field K_WL_NAME decode_str r;
     (ver, r) \<leftarrow> read_field K_WL_VER decode_u32 r;
     (ns, r) \<leftarrow> read_field K_WL_NS decode_str r;
     (rm, r) \<leftarrow> read_field K_WL_REVMODE decode_u32 r;
     (mr, r) \<leftarrow> read_field K_WL_MODELREV decode_str r;
     (pg, r) \<leftarrow> read_field K_WL_POLICYGEN decode_str r;
     Some (\<lparr>wl_name = nm, wl_version = ver, wl_namespace = ns, wl_revision_mode = WorkloadRevisionMode_of rm,
            wl_model_revision = mr, wl_policy_generation = pg\<rparr>, r) }"

definition encode_facts_backend :: "BackendIdentity \<Rightarrow> bytes" where
  "encode_facts_backend b =
     put_u32 K_BK_KIND (BackendKind_code (bk_kind b))
   @ put_str K_BK_NAME (bk_name b)
   @ put_u32 K_BK_VER (bk_version b)
   @ put_str K_BK_IMPL (bk_impl b)"

definition decode_facts_backend :: "CanonicalReader \<Rightarrow> (BackendIdentity \<times> CanonicalReader) option" where
  "decode_facts_backend r = do {
     (k, r) \<leftarrow> read_field K_BK_KIND decode_u32 r;
     (nm, r) \<leftarrow> read_field K_BK_NAME decode_str r;
     (ver, r) \<leftarrow> read_field K_BK_VER decode_u32 r;
     (im, r) \<leftarrow> read_field K_BK_IMPL decode_str r;
     Some (\<lparr>bk_kind = BackendKind_of k, bk_name = nm, bk_version = ver, bk_impl = im\<rparr>, r) }"

definition encode_facts_runtime :: "RuntimeDescriptor \<Rightarrow> bytes" where
  "encode_facts_runtime rt =
     put_u32 K_RT_VER (rt_version rt)
   @ put_u32 K_RT_GRAPHABI (rt_graph_abi rt)
   @ put_u32 K_RT_KERNELABI (rt_kernel_abi rt)
   @ put_u32 K_RT_DRIVER (rt_driver_version rt)"

definition decode_facts_runtime :: "CanonicalReader \<Rightarrow> (RuntimeDescriptor \<times> CanonicalReader) option" where
  "decode_facts_runtime r = do {
     (ver, r) \<leftarrow> read_field K_RT_VER decode_u32 r;
     (ga, r) \<leftarrow> read_field K_RT_GRAPHABI decode_u32 r;
     (ka, r) \<leftarrow> read_field K_RT_KERNELABI decode_u32 r;
     (dv, r) \<leftarrow> read_field K_RT_DRIVER decode_u32 r;
     Some (RuntimeDescriptor_default\<lparr>rt_version := ver, rt_graph_abi := ga, rt_kernel_abi := ka,
             rt_driver_version := dv\<rparr>, r) }"

definition encode_facts_device :: "DeviceDescriptor \<Rightarrow> bytes" where
  "encode_facts_device d =
     put_u32 K_DEV_VENDOR (AcceleratorVendor_code (dev_vendor d))
   @ put_str K_DEV_ARCH (dev_arch d)
   @ put_u32 K_DEV_CCMAJ (dev_cc_major d)
   @ put_u32 K_DEV_CCMIN (dev_cc_minor d)
   @ put_u32 K_DEV_IDX (dev_index d)
   @ put_str K_DEV_NAME (dev_name d)"

definition decode_facts_device :: "CanonicalReader \<Rightarrow> (DeviceDescriptor \<times> CanonicalReader) option" where
  "decode_facts_device r = do {
     (v, r) \<leftarrow> read_field K_DEV_VENDOR decode_u32 r;
     (ar, r) \<leftarrow> read_field K_DEV_ARCH decode_str r;
     (ma, r) \<leftarrow> read_field K_DEV_CCMAJ decode_u32 r;
     (mi, r) \<leftarrow> read_field K_DEV_CCMIN decode_u32 r;
     (ix, r) \<leftarrow> read_field K_DEV_IDX decode_u32 r;
     (nm, r) \<leftarrow> read_field K_DEV_NAME decode_str r;
     Some (\<lparr>dev_vendor = AcceleratorVendor_of v, dev_arch = ar, dev_cc_major = ma, dev_cc_minor = mi,
            dev_index = ix, dev_name = nm\<rparr>, r) }"

definition encode_facts_scalar :: "ScalarSpecialization \<Rightarrow> bytes" where
  "encode_facts_scalar s = put_bool K_SCALAR_SPEC (sc_specialized s)
   @ (if sc_specialized s then put_i64 K_SCALAR_INT (sc_int s) @ put_f64 K_SCALAR_FLOAT (sc_float s) else [])"

definition decode_facts_scalar :: "CanonicalReader \<Rightarrow> (ScalarSpecialization \<times> CanonicalReader) option" where
  "decode_facts_scalar r = do {
     (sp, r) \<leftarrow> read_field K_SCALAR_SPEC decode_bool r;
     if sp then do {
       (i, r) \<leftarrow> read_field K_SCALAR_INT decode_i64 r;
       (fl, r) \<leftarrow> read_field K_SCALAR_FLOAT decode_f64 r;
       Some (\<lparr>sc_specialized = True, sc_int = i, sc_float = fl\<rparr>, r) }
     else Some (ScalarSpecialization_default, r) }"

definition encode_facts_quant :: "QuantizationConfig \<Rightarrow> bytes" where
  "encode_facts_quant q = put_u32 K_Q_MODE (QuantizationMode_code (q_mode q))
   @ (if q_mode q \<noteq> QM_None then
        put_u32 K_Q_GROUP (q_group_size q)
      @ put_bool K_Q_SYM (q_symmetric q)
      @ put_str K_Q_SCHEME (q_custom_scheme q)
      else [])"

definition decode_facts_quant :: "CanonicalReader \<Rightarrow> (QuantizationConfig \<times> CanonicalReader) option" where
  "decode_facts_quant r = do {
     (m, r) \<leftarrow> read_field K_Q_MODE decode_u32 r;
     if QuantizationMode_of m \<noteq> QM_None then do {
       (gs, r) \<leftarrow> read_field K_Q_GROUP decode_u32 r;
       (sy, r) \<leftarrow> read_field K_Q_SYM decode_bool r;
       (cs, r) \<leftarrow> read_field K_Q_SCHEME decode_str r;
       Some (\<lparr>q_mode = QuantizationMode_of m, q_group_size = gs, q_symmetric = sy, q_custom_scheme = cs\<rparr>, r) }
     else Some (QuantizationConfig_default, r) }"

definition encode_facts_binding :: "BindingDescriptor \<Rightarrow> bytes" where
  "encode_facts_binding b =
     put_u32 K_BIND_CLASS (BindingClass_code (bd_class b))
   @ put_u32 K_BIND_ALIGN (bd_alignment b)
   @ put_str K_BIND_SCHEMA (bd_schema b)
   @ put_bool K_BIND_ELIGIBLE (bd_rebinding_eligible b)"

definition decode_facts_binding :: "CanonicalReader \<Rightarrow> (BindingDescriptor \<times> CanonicalReader) option" where
  "decode_facts_binding r = do {
     (c, r) \<leftarrow> read_field K_BIND_CLASS decode_u32 r;
     (al, r) \<leftarrow> read_field K_BIND_ALIGN decode_u32 r;
     (sc, r) \<leftarrow> read_field K_BIND_SCHEMA decode_str r;
     (el, r) \<leftarrow> read_field K_BIND_ELIGIBLE decode_bool r;
     Some (\<lparr>bd_class = BindingClass_of c, bd_alignment = al, bd_schema = sc, bd_rebinding_eligible = el\<rparr>, r) }"

definition encode_facts :: "CompatibilityFacts \<Rightarrow> bytes" where
  "encode_facts f =
     encode_facts_workload (f_workload f)
   @ encode_facts_backend (f_backend f)
   @ encode_facts_runtime (f_runtime f)
   @ encode_facts_device (f_device f)
   @ put_u32 K_CM_MODE (CaptureMode_code (f_capture_mode f))
   @ put_u32 K_CM_STREAM (StreamSemantics_code (f_stream_semantics f))
   @ put_bytes K_TOPO (f_topology f)
   @ put_u32 K_INSHAPES_COUNT (word_of_nat (length (f_input_shapes f)))
   @ concat (map (\<lambda>s. put_bytes K_INSHAPE (encode_shape s)) (f_input_shapes f))
   @ put_u32 K_OUTSHAPES_COUNT (word_of_nat (length (f_output_shapes f)))
   @ concat (map (\<lambda>s. put_bytes K_OUTSHAPE (encode_shape s)) (f_output_shapes f))
   @ put_u32 K_DTYPES_COUNT (word_of_nat (length (f_datatypes f)))
   @ concat (map (\<lambda>d. put_u32 K_DTYPE (Datatype_code d)) (f_datatypes f))
   @ put_u32 K_LAYOUTS_COUNT (word_of_nat (length (f_layouts f)))
   @ concat (map (\<lambda>l. put_u32 K_LAYOUT (TensorLayout_code l)) (f_layouts f))
   @ encode_facts_scalar (f_scalar f)
   @ encode_facts_quant (f_quantization f)
   @ encode_facts_binding (f_binding f)
   @ put_u64 K_REQ_ALIGN (f_required_alignment f)
   @ put_str K_MEM_SCHEMA (f_memory_schema f)
   @ put_u32 K_DEP_COUNT (word_of_nat (length (f_dependencies f)))
   @ concat (map (\<lambda>d. put_bytes K_DEP (encode_dep d)) (f_dependencies f))
   @ put_str K_MODELREV (f_model_revision f)
   @ put_str K_POLICYGEN (f_policy_generation f)"

definition decode_facts_stream :: "CanonicalReader \<Rightarrow> (CompatibilityFacts \<times> CanonicalReader) option" where
  "decode_facts_stream r = do {
     (wl, r) \<leftarrow> decode_facts_workload r;
     (bk, r) \<leftarrow> decode_facts_backend r;
     (rt, r) \<leftarrow> decode_facts_runtime r;
     (dv, r) \<leftarrow> decode_facts_device r;
     (cm, r) \<leftarrow> read_field K_CM_MODE (decode_enum CaptureMode_of) r;
     (ss, r) \<leftarrow> read_field K_CM_STREAM (decode_enum StreamSemantics_of) r;
     (tp, r) \<leftarrow> cr_need K_TOPO r;
     (ins, r) \<leftarrow> read_counted K_INSHAPES_COUNT 4096 (read_field K_INSHAPE decode_shape) r;
     (outs, r) \<leftarrow> read_counted K_OUTSHAPES_COUNT 4096 (read_field K_OUTSHAPE decode_shape) r;
     (dts, r) \<leftarrow> read_counted K_DTYPES_COUNT 4096 (read_field K_DTYPE (decode_enum Datatype_of)) r;
     (las, r) \<leftarrow> read_counted K_LAYOUTS_COUNT 4096 (read_field K_LAYOUT (decode_enum TensorLayout_of)) r;
     (sc, r) \<leftarrow> decode_facts_scalar r;
     (qu, r) \<leftarrow> decode_facts_quant r;
     (bd, r) \<leftarrow> decode_facts_binding r;
     (ra, r) \<leftarrow> read_field K_REQ_ALIGN decode_u64 r;
     (ms, r) \<leftarrow> read_field K_MEM_SCHEMA decode_str r;
     (deps, r) \<leftarrow> read_counted K_DEP_COUNT 8192 (read_field K_DEP decode_dep) r;
     (mr, r) \<leftarrow> read_field K_MODELREV decode_str r;
     (pg, r) \<leftarrow> read_field K_POLICYGEN decode_str r;
     Some (\<lparr>f_workload = wl, f_backend = bk, f_runtime = rt, f_device = dv, f_capture_mode = cm,
            f_stream_semantics = ss, f_topology = tp, f_input_shapes = ins, f_output_shapes = outs,
            f_datatypes = dts, f_layouts = las, f_scalar = sc, f_quantization = qu, f_binding = bd,
            f_required_alignment = ra, f_memory_schema = ms, f_dependencies = deps,
            f_model_revision = mr, f_policy_generation = pg\<rparr>, r) }"

definition decode_facts :: "bytes \<Rightarrow> CompatibilityFacts option" where
  "decode_facts canonical = map_option fst (decode_facts_stream (canonical_reader canonical))"

definition key_build :: "CompatibilityFacts \<Rightarrow> GraphCompatibilityKey Result" where
  "key_build facts = (let c = encode_facts facts in
     success \<lparr>key_facts = facts, key_canonical = c, key_digest = sha_compute c\<rparr>)"

definition key_from_canonical :: "bytes \<Rightarrow> GraphCompatibilityKey Result" where
  "key_from_canonical canonical = (case decode_facts canonical of
       None \<Rightarrow> failure EC_PersistenceCorrupt ''canonical compatibility metadata is malformed or truncated''
     | Some facts \<Rightarrow> (let reencoded = encode_facts facts in
         if reencoded \<noteq> canonical
         then failure EC_PersistenceCorrupt ''canonical compatibility metadata does not round-trip''
         else success \<lparr>key_facts = facts, key_canonical = reencoded, key_digest = sha_compute reencoded\<rparr>))"

definition facts_to_canonical :: "CompatibilityFacts \<Rightarrow> bytes" where
  "facts_to_canonical facts = encode_facts facts"

definition facts_from_canonical :: "bytes \<Rightarrow> CompatibilityFacts Result" where
  "facts_from_canonical canonical = (case decode_facts canonical of
       None \<Rightarrow> failure EC_PersistenceCorrupt ''cannot decode canonical compatibility facts''
     | Some facts \<Rightarrow> success facts)"

text \<open>The two passes over the nodes; the workload members are merged by the cache engine.\<close>

definition facts_node_step :: "CompatibilityFacts \<Rightarrow> GraphNodeDescriptor \<Rightarrow> CompatibilityFacts" where
  "facts_node_step f n = (if n_datatype n \<noteq> DT_None then
     f\<lparr>f_datatypes := f_datatypes f @ [n_datatype n],
       f_layouts := f_layouts f @ [n_layout n],
       f_input_shapes := (if sh_dims (n_shape n) \<noteq> [] \<or> sh_dynamic (n_shape n) \<or> sh_max_rank (n_shape n) \<noteq> 0
                          then f_input_shapes f @ [n_shape n] else f_input_shapes f),
       f_scalar := (if sc_specialized (n_scalar n) then n_scalar n else f_scalar f),
       f_required_alignment := max (f_required_alignment f) (n_required_alignment n),
       f_memory_schema := bd_schema (n_binding n),
       f_binding := n_binding n\<rparr>
     else f)"

definition facts_from_graph :: "GraphDescriptor \<Rightarrow> CompatibilityFacts" where
  "facts_from_graph g = (let
     f0 = CompatibilityFacts_default\<lparr>f_backend := g_backend g, f_runtime := g_runtime g, f_device := g_device g,
            f_capture_mode := sy_capture_mode (g_sync g), f_stream_semantics := sy_stream_semantics (g_sync g),
            f_topology := canonical_topology (g_nodes g) (g_edges g)\<rparr>;
     f1 = foldl facts_node_step f0 (g_nodes g);
     f2 = f1\<lparr>f_quantization := QuantizationConfig_default\<rparr>;
     f3 = foldl (\<lambda>f n. if q_mode (n_quantization n) \<noteq> QM_None then f\<lparr>f_quantization := n_quantization n\<rparr> else f)
            f2 (g_nodes g)
     in f3\<lparr>f_dependencies := g_dependencies g\<rparr>)"

section \<open>Round trips of the parts\<close>

text \<open>
  \<open>*_ok\<close> is what fits the format: named enumeration values, strings below the 32-bit length and
  lists below the decoder's limits. \<open>*_view\<close> drops what the encoder leaves out.
\<close>

definition shape_ok :: "ShapeDescriptor \<Rightarrow> bool" where
  "shape_ok s \<longleftrightarrow> length (sh_dims s) \<le> 4096"

definition dep_ok :: "KernelIdentityRef \<Rightarrow> bool" where
  "dep_ok d \<longleftrightarrow> fits32 (k_name d) \<and> fits32 (k_digest d)"

definition dep_view :: "KernelIdentityRef \<Rightarrow> KernelIdentityRef" where
  "dep_view d = d\<lparr>k_provenance := []\<rparr>"

definition workload_ok :: "WorkloadIdentity \<Rightarrow> bool" where
  "workload_ok w \<longleftrightarrow> WorkloadRevisionMode_named (wl_revision_mode w) \<and> fits32 (wl_name w)
     \<and> fits32 (wl_namespace w) \<and> fits32 (wl_model_revision w) \<and> fits32 (wl_policy_generation w)"

definition backend_ok :: "BackendIdentity \<Rightarrow> bool" where
  "backend_ok b \<longleftrightarrow> BackendKind_named (bk_kind b) \<and> fits32 (bk_name b) \<and> fits32 (bk_impl b)"

definition runtime_view :: "RuntimeDescriptor \<Rightarrow> RuntimeDescriptor" where
  "runtime_view r = r\<lparr>rt_driver_string := []\<rparr>"

definition device_ok :: "DeviceDescriptor \<Rightarrow> bool" where
  "device_ok d \<longleftrightarrow> AcceleratorVendor_named (dev_vendor d) \<and> fits32 (dev_arch d) \<and> fits32 (dev_name d)"

definition scalar_view :: "ScalarSpecialization \<Rightarrow> ScalarSpecialization" where
  "scalar_view s = (if sc_specialized s then s else ScalarSpecialization_default)"

definition quant_ok :: "QuantizationConfig \<Rightarrow> bool" where
  "quant_ok q \<longleftrightarrow> QuantizationMode_named (q_mode q) \<and> fits32 (q_custom_scheme q)"

definition quant_view :: "QuantizationConfig \<Rightarrow> QuantizationConfig" where
  "quant_view q = (if q_mode q \<noteq> QM_None then q else QuantizationConfig_default)"

definition binding_ok :: "BindingDescriptor \<Rightarrow> bool" where
  "binding_ok b \<longleftrightarrow> BindingClass_named (bd_class b) \<and> fits32 (bd_schema b)"

lemma shape_dims_step:
  assumes "shape_ok s"
  shows "decode_shape_body SH_DIMS (u64s (sh_dims s)) t = Some (t\<lparr>sh_dims := sh_dims t @ sh_dims s\<rparr>)"
proof -
  have l: "length (sh_dims s) < 2 ^ 32" using assms by (simp add: shape_ok_def)
  have "\<not> (word_of_nat (length (sh_dims s)) :: u32) > 4096"
    using assms u64s_parts(2) [OF l] by (simp add: shape_ok_def word_less_nat_alt not_less)
  with u64s_parts [OF l] show ?thesis by (simp add: decode_shape_body_def)
qed

lemma fits32_dims: "shape_ok s \<Longrightarrow> fits32 (u64s (sh_dims s))"
  by (simp add: fits32_u64s shape_ok_def)

lemma decode_encode_shape: "shape_ok s \<Longrightarrow> decode_shape (encode_shape s) = Some s"
proof -
  assume ok: "shape_ok s"
  have a: "consumes decode_shape_body (if sh_dims s \<noteq> [] then field SH_DIMS (u64s (sh_dims s)) else [])
      (\<lambda>t. t\<lparr>sh_dims := sh_dims t @ sh_dims s\<rparr>)"
    by (rule consumes_if) (simp_all add: consumes_field ok shape_dims_step fits32_dims)
  have b: "consumes decode_shape_body (field SH_DYNAMIC [if sh_dynamic s then 1 else 0])
      (\<lambda>t. t\<lparr>sh_dynamic := sh_dynamic s\<rparr>)"
    by (rule consumes_field) (simp_all add: decode_shape_body_def)
  have c: "consumes decode_shape_body
      (if sh_max_rank s \<noteq> 0 then field SH_MAXRANK (put_be_u32 (sh_max_rank s)) else [])
      (\<lambda>t. t\<lparr>sh_max_rank := if sh_max_rank s \<noteq> 0 then sh_max_rank s else sh_max_rank t\<rparr>)"
    by (rule consumes_if) (simp_all add: consumes_field decode_shape_body_def u32c.dec_enc)
  show ?thesis
    unfolding decode_shape_def encode_shape_def put_u64_list_field put_is_field(3,7)
      consumes_decode [OF consumes_append [OF a consumes_append [OF b c]]]
    by (simp add: ShapeDescriptor_default_def)
qed

lemma decode_encode_dep: "dep_ok d \<Longrightarrow> decode_dep (encode_dep d) = Some (dep_view d)"
proof -
  assume "dep_ok d"
  then have "fits32 (k_name d)" "fits32 (k_digest d)" by (simp_all add: dep_ok_def)
  then have "loop_decode decode_dep_body (encode_dep d) KernelIdentityRef_default = Some (dep_view d)"
    unfolding encode_dep_def put_is_field append_assoc
    by (simp add: loop_decode_field decode_dep_body_def leaf_codecs loop_decode_last KernelIdentityRef_default_def
        dep_view_def)
  then show ?thesis by (simp add: decode_dep_def)
qed

interpretation inshape: block_codec K_INSHAPE encode_shape decode_shape shape_ok "\<lambda>s. s"
  by unfold_locales (rule decode_encode_shape)

interpretation outshape: block_codec K_OUTSHAPE encode_shape decode_shape shape_ok "\<lambda>s. s"
  by unfold_locales (rule decode_encode_shape)

interpretation depc: block_codec K_DEP encode_dep decode_dep dep_ok dep_view
  by unfold_locales (rule decode_encode_dep)

interpretation dtypec: stream_codec "\<lambda>d. put_u32 K_DTYPE (Datatype_code d)"
  "read_field K_DTYPE (decode_enum Datatype_of)" Datatype_named "\<lambda>d. d"
  by unfold_locales (simp add: read_put_enum dtc.of_to)

interpretation layoutc: stream_codec "\<lambda>l. put_u32 K_LAYOUT (TensorLayout_code l)"
  "read_field K_LAYOUT (decode_enum TensorLayout_of)" TensorLayout_named "\<lambda>l. l"
  by unfold_locales (simp add: read_put_enum tlc.of_to)

interpretation workloadc: stream_codec encode_facts_workload decode_facts_workload workload_ok "\<lambda>w. w"
  by unfold_locales
    (simp add: encode_facts_workload_def decode_facts_workload_def workload_ok_def read_put wrc.of_to)

interpretation backendc: stream_codec encode_facts_backend decode_facts_backend backend_ok "\<lambda>b. b"
  by unfold_locales (simp add: encode_facts_backend_def decode_facts_backend_def backend_ok_def read_put bkc.of_to)

interpretation runtimec: stream_codec encode_facts_runtime decode_facts_runtime "\<lambda>_. True" runtime_view
  by unfold_locales (simp add: encode_facts_runtime_def decode_facts_runtime_def read_put runtime_view_def
      RuntimeDescriptor_default_def)

interpretation devicec: stream_codec encode_facts_device decode_facts_device device_ok "\<lambda>d. d"
  by unfold_locales (simp add: encode_facts_device_def decode_facts_device_def device_ok_def read_put avc.of_to)

interpretation scalarc: stream_codec encode_facts_scalar decode_facts_scalar "\<lambda>_. True" scalar_view
  by unfold_locales (simp add: encode_facts_scalar_def decode_facts_scalar_def read_put scalar_view_def)

interpretation quantc: stream_codec encode_facts_quant decode_facts_quant quant_ok quant_view
proof
  fix q rest
  assume "quant_ok q"
  then show "decode_facts_quant (canonical_reader (encode_facts_quant q @ rest)) = Some (quant_view q, canonical_reader rest)"
    by (simp add: encode_facts_quant_def decode_facts_quant_def quant_ok_def read_put quant_view_def qmc.of_to)
qed

interpretation bindingc: stream_codec encode_facts_binding decode_facts_binding binding_ok "\<lambda>b. b"
  by unfold_locales
    (simp add: encode_facts_binding_def decode_facts_binding_def binding_ok_def read_put bcc.of_to)

section \<open>Facts\<close>

definition facts_ok :: "CompatibilityFacts \<Rightarrow> bool" where
  "facts_ok f \<longleftrightarrow> workload_ok (f_workload f) \<and> backend_ok (f_backend f) \<and> device_ok (f_device f)
     \<and> CaptureMode_named (f_capture_mode f) \<and> StreamSemantics_named (f_stream_semantics f) \<and> fits32 (f_topology f)
     \<and> length (f_input_shapes f) \<le> 4096 \<and> list_all shape_ok (f_input_shapes f)
     \<and> length (f_output_shapes f) \<le> 4096 \<and> list_all shape_ok (f_output_shapes f)
     \<and> length (f_datatypes f) \<le> 4096 \<and> list_all Datatype_named (f_datatypes f)
     \<and> length (f_layouts f) \<le> 4096 \<and> list_all TensorLayout_named (f_layouts f)
     \<and> quant_ok (f_quantization f) \<and> binding_ok (f_binding f) \<and> fits32 (f_memory_schema f)
     \<and> length (f_dependencies f) \<le> 8192 \<and> list_all (\<lambda>d. dep_ok d \<and> fits32 (encode_dep d)) (f_dependencies f)
     \<and> fits32 (f_model_revision f) \<and> fits32 (f_policy_generation f)"

definition facts_view :: "CompatibilityFacts \<Rightarrow> CompatibilityFacts" where
  "facts_view f = f\<lparr>f_runtime := runtime_view (f_runtime f), f_scalar := scalar_view (f_scalar f),
     f_quantization := quant_view (f_quantization f), f_dependencies := map dep_view (f_dependencies f)\<rparr>"

lemma encode_shape_fits: "shape_ok s \<Longrightarrow> fits32 (encode_shape s)"
  by (simp add: encode_shape_def put_u64_list_field put_is_field fits32_def u64s_length shape_ok_def)

lemma shapes_fit: "list_all shape_ok ss \<Longrightarrow> list_all (\<lambda>s. shape_ok s \<and> fits32 (encode_shape s)) ss"
  by (auto simp: list_all_iff intro: encode_shape_fits)

lemma facts_stream:
  assumes "facts_ok f"
  shows "decode_facts_stream (canonical_reader (encode_facts f @ rest)) = Some (facts_view f, canonical_reader rest)"
proof -
  note ok = assms [unfolded facts_ok_def]
  note counted = inshape.outer.read_counted_enc outshape.outer.read_counted_enc dtypec.read_counted_enc
    layoutc.read_counted_enc depc.outer.read_counted_enc
  show ?thesis
    using ok shapes_fit
    by (simp add: encode_facts_def decode_facts_stream_def workloadc.dec_stream backendc.dec_stream
        runtimec.dec_stream devicec.dec_stream scalarc.dec_stream quantc.dec_stream bindingc.dec_stream
        counted read_put read_put_enum cmc.of_to ssc.of_to facts_view_def)
qed

lemma encode_facts_view: "encode_facts (facts_view f) = encode_facts f"
proof -
  have "encode_dep (dep_view d) = encode_dep d" for d
    by (simp add: encode_dep_def dep_view_def)
  moreover have "encode_facts_runtime (runtime_view r) = encode_facts_runtime r" for r
    by (simp add: encode_facts_runtime_def runtime_view_def)
  moreover have "encode_facts_scalar (scalar_view s) = encode_facts_scalar s" for s
    by (simp add: encode_facts_scalar_def scalar_view_def ScalarSpecialization_default_def)
  moreover have "encode_facts_quant (quant_view q) = encode_facts_quant q" for q
    by (simp add: encode_facts_quant_def quant_view_def QuantizationConfig_default_def)
  ultimately show ?thesis by (simp add: encode_facts_def facts_view_def o_def)
qed

interpretation factsc: stream_codec encode_facts decode_facts_stream facts_ok facts_view
  by unfold_locales (rule facts_stream)

lemma decode_encode_facts: "facts_ok f \<Longrightarrow> decode_facts (encode_facts f) = Some (facts_view f)"
  using factsc.dec_stream [of f "[]"] by (simp add: decode_facts_def)

text \<open>
  a compatibility key survives persistence: the canonical bytes of the key built from facts are accepted
  by \<open>from_canonical\<close> and give back an equal key, whose facts are the original ones up to the members
  the encoding leaves out.
\<close>

theorem key_roundtrip:
  assumes "facts_ok f" and "key_build f = success k"
  shows "\<exists>k'. key_from_canonical (key_canonical k) = success k' \<and> key_eq k' k \<and> key_facts k' = facts_view f"
  using decode_encode_facts [OF assms(1)] assms(2)
  by (auto simp: key_build_def key_from_canonical_def Let_def encode_facts_view key_eq_def)

lemma facts_ok_default: "facts_ok CompatibilityFacts_default"
  by (simp add: facts_ok_def CompatibilityFacts_default_def workload_ok_def backend_ok_def device_ok_def
      quant_ok_def binding_ok_def fits32_def WorkloadIdentity_default_def BackendIdentity_default_def
      DeviceDescriptor_default_def QuantizationConfig_default_def BindingDescriptor_default_def)

lemma key_roundtrip_witness:
  "\<exists>k k'. key_build CompatibilityFacts_default = success k
     \<and> key_from_canonical (key_canonical k) = success k' \<and> key_eq k' k"
  using key_roundtrip [OF facts_ok_default, of "\<lparr>key_facts = CompatibilityFacts_default,
    key_canonical = encode_facts CompatibilityFacts_default,
    key_digest = sha_compute (encode_facts CompatibilityFacts_default)\<rparr>"]
  by (auto simp: key_build_def Let_def)

text \<open>
  C34: keys identify facts: the keys of two encodable fact sets compare equal exactly when the sets agree
  on everything the decision is meant to depend on, namely all members except the driver's display
  string, the provenance of dependencies and the unused parameters of an unspecialised scalar or an
  unquantized graph.
\<close>

theorem key_identifies_facts:
  assumes "facts_ok f" and "facts_ok g"
  shows "(case (key_build f, key_build g) of (Inr k, Inr l) \<Rightarrow> key_eq k l | _ \<Rightarrow> False)
     \<longleftrightarrow> facts_view f = facts_view g"
proof -
  have "encode_facts f = encode_facts g \<longleftrightarrow> facts_view f = facts_view g"
    by (metis assms encode_facts_view decode_encode_facts option.inject)
  then show ?thesis by (auto simp: key_build_def Let_def key_eq_def)
qed

lemma key_identifies_facts_witness:
  "\<not> (case (key_build CompatibilityFacts_default, key_build (CompatibilityFacts_default\<lparr>f_model_revision := ''r2''\<rparr>)) of
        (Inr k, Inr l) \<Rightarrow> key_eq k l | _ \<Rightarrow> False)"
proof -
  have "facts_ok (CompatibilityFacts_default\<lparr>f_model_revision := ''r2''\<rparr>)"
    using facts_ok_default by (simp add: facts_ok_def fits32_def)
  from key_identifies_facts [OF facts_ok_default this] show ?thesis
    by (simp add: facts_view_def CompatibilityFacts_default_def)
qed

text \<open>
  \<open>from_canonical\<close> is strict: it accepts a byte string only as the exact encoding of the facts it returns, so
  a key is never built from malformed, truncated, reordered or extended metadata.
\<close>

theorem key_from_canonical_strict:
  "(case key_from_canonical c of
      Inr k \<Rightarrow> key_canonical k = c \<and> encode_facts (key_facts k) = c \<and> key_digest k = sha_compute c
    | Inl e \<Rightarrow> err_code e = EC_PersistenceCorrupt)"
  by (auto simp: key_from_canonical_def Let_def split: option.splits)

section \<open>Decisions\<close>

datatype GraphCompatibilityClass = CC_ExactCompatible | CC_CompatibleWithRebinding | CC_CompatibleWithDynamicShapeConstraint
     | CC_CompatibleWithRuntimeValidation | CC_IncompatibleBackend | CC_IncompatibleArchitecture
     | CC_IncompatibleRuntime | CC_IncompatibleDriverGeneration | CC_IncompatibleGraphABI
     | CC_IncompatibleKernelABI | CC_IncompatibleTopology | CC_IncompatibleDependency
     | CC_IncompatibleDatatype | CC_IncompatibleLayout | CC_IncompatibleShape
     | CC_IncompatibleAlignment | CC_IncompatibleCaptureMode | CC_IncompatibleStreamSemantics
     | CC_IncompatibleMemoryBinding | CC_IncompatibleSpecialization
     | CC_IncompatibleQuantization | CC_IncompatibleModelRevision | CC_IncompatibleWorkload
     | CC_InvalidGraph | CC_StaleGraph | CC_CorruptGraph | CC_PolicyRejected | CC_NotACandidate

primrec GraphCompatibilityClass_to_string :: "GraphCompatibilityClass \<Rightarrow> string" where
  "GraphCompatibilityClass_to_string CC_ExactCompatible = ''ExactCompatible''"
| "GraphCompatibilityClass_to_string CC_CompatibleWithRebinding = ''CompatibleWithRebinding''"
| "GraphCompatibilityClass_to_string CC_CompatibleWithDynamicShapeConstraint = ''CompatibleWithDynamicShapeConstraint''"
| "GraphCompatibilityClass_to_string CC_CompatibleWithRuntimeValidation = ''CompatibleWithRuntimeValidation''"
| "GraphCompatibilityClass_to_string CC_IncompatibleBackend = ''IncompatibleBackend''"
| "GraphCompatibilityClass_to_string CC_IncompatibleArchitecture = ''IncompatibleArchitecture''"
| "GraphCompatibilityClass_to_string CC_IncompatibleRuntime = ''IncompatibleRuntime''"
| "GraphCompatibilityClass_to_string CC_IncompatibleDriverGeneration = ''IncompatibleDriverGeneration''"
| "GraphCompatibilityClass_to_string CC_IncompatibleGraphABI = ''IncompatibleGraphABI''"
| "GraphCompatibilityClass_to_string CC_IncompatibleKernelABI = ''IncompatibleKernelABI''"
| "GraphCompatibilityClass_to_string CC_IncompatibleTopology = ''IncompatibleTopology''"
| "GraphCompatibilityClass_to_string CC_IncompatibleDependency = ''IncompatibleDependency''"
| "GraphCompatibilityClass_to_string CC_IncompatibleDatatype = ''IncompatibleDatatype''"
| "GraphCompatibilityClass_to_string CC_IncompatibleLayout = ''IncompatibleLayout''"
| "GraphCompatibilityClass_to_string CC_IncompatibleShape = ''IncompatibleShape''"
| "GraphCompatibilityClass_to_string CC_IncompatibleAlignment = ''IncompatibleAlignment''"
| "GraphCompatibilityClass_to_string CC_IncompatibleCaptureMode = ''IncompatibleCaptureMode''"
| "GraphCompatibilityClass_to_string CC_IncompatibleStreamSemantics = ''IncompatibleStreamSemantics''"
| "GraphCompatibilityClass_to_string CC_IncompatibleMemoryBinding = ''IncompatibleMemoryBinding''"
| "GraphCompatibilityClass_to_string CC_IncompatibleSpecialization = ''IncompatibleSpecialization''"
| "GraphCompatibilityClass_to_string CC_IncompatibleQuantization = ''IncompatibleQuantization''"
| "GraphCompatibilityClass_to_string CC_IncompatibleModelRevision = ''IncompatibleModelRevision''"
| "GraphCompatibilityClass_to_string CC_IncompatibleWorkload = ''IncompatibleWorkload''"
| "GraphCompatibilityClass_to_string CC_InvalidGraph = ''InvalidGraph''"
| "GraphCompatibilityClass_to_string CC_StaleGraph = ''StaleGraph''"
| "GraphCompatibilityClass_to_string CC_CorruptGraph = ''CorruptGraph''"
| "GraphCompatibilityClass_to_string CC_PolicyRejected = ''PolicyRejected''"
| "GraphCompatibilityClass_to_string CC_NotACandidate = ''NotACandidate''"

datatype CompatibilityReasonCode = CR_None | CR_ExactMatch | CR_RebindingRequiredLegal | CR_DynamicShapeAccepted
     | CR_BackendMismatch | CR_ArchitectureMismatch | CR_RuntimeMismatch
     | CR_DriverGenerationMismatch | CR_GraphABIMismatch | CR_KernelABIMismatch
     | CR_TopologyMismatch | CR_DependencyMismatch | CR_DatatypeMismatch | CR_LayoutMismatch
     | CR_ShapeMismatch | CR_AlignmentMismatch | CR_CaptureModeMismatch
     | CR_StreamSemanticsMismatch | CR_MemoryBindingMismatch | CR_SpecializationMismatch
     | CR_QuantizationMismatch | CR_ModelRevisionMismatch | CR_WorkloadIdentityMismatch
     | CR_PolicyRejectedReason | CR_GraphInvalid | CR_GraphStale | CR_GraphCorrupt
     | CR_RebindingNotEligible

primrec CompatibilityReasonCode_to_string :: "CompatibilityReasonCode \<Rightarrow> string" where
  "CompatibilityReasonCode_to_string CR_None = ''None''"
| "CompatibilityReasonCode_to_string CR_ExactMatch = ''ExactMatch''"
| "CompatibilityReasonCode_to_string CR_RebindingRequiredLegal = ''RebindingRequiredLegal''"
| "CompatibilityReasonCode_to_string CR_DynamicShapeAccepted = ''DynamicShapeAccepted''"
| "CompatibilityReasonCode_to_string CR_BackendMismatch = ''BackendMismatch''"
| "CompatibilityReasonCode_to_string CR_ArchitectureMismatch = ''ArchitectureMismatch''"
| "CompatibilityReasonCode_to_string CR_RuntimeMismatch = ''RuntimeMismatch''"
| "CompatibilityReasonCode_to_string CR_DriverGenerationMismatch = ''DriverGenerationMismatch''"
| "CompatibilityReasonCode_to_string CR_GraphABIMismatch = ''GraphABIMismatch''"
| "CompatibilityReasonCode_to_string CR_KernelABIMismatch = ''KernelABIMismatch''"
| "CompatibilityReasonCode_to_string CR_TopologyMismatch = ''TopologyMismatch''"
| "CompatibilityReasonCode_to_string CR_DependencyMismatch = ''DependencyMismatch''"
| "CompatibilityReasonCode_to_string CR_DatatypeMismatch = ''DatatypeMismatch''"
| "CompatibilityReasonCode_to_string CR_LayoutMismatch = ''LayoutMismatch''"
| "CompatibilityReasonCode_to_string CR_ShapeMismatch = ''ShapeMismatch''"
| "CompatibilityReasonCode_to_string CR_AlignmentMismatch = ''AlignmentMismatch''"
| "CompatibilityReasonCode_to_string CR_CaptureModeMismatch = ''CaptureModeMismatch''"
| "CompatibilityReasonCode_to_string CR_StreamSemanticsMismatch = ''StreamSemanticsMismatch''"
| "CompatibilityReasonCode_to_string CR_MemoryBindingMismatch = ''MemoryBindingMismatch''"
| "CompatibilityReasonCode_to_string CR_SpecializationMismatch = ''SpecializationMismatch''"
| "CompatibilityReasonCode_to_string CR_QuantizationMismatch = ''QuantizationMismatch''"
| "CompatibilityReasonCode_to_string CR_ModelRevisionMismatch = ''ModelRevisionMismatch''"
| "CompatibilityReasonCode_to_string CR_WorkloadIdentityMismatch = ''WorkloadIdentityMismatch''"
| "CompatibilityReasonCode_to_string CR_PolicyRejectedReason = ''PolicyRejectedReason''"
| "CompatibilityReasonCode_to_string CR_GraphInvalid = ''GraphInvalid''"
| "CompatibilityReasonCode_to_string CR_GraphStale = ''GraphStale''"
| "CompatibilityReasonCode_to_string CR_GraphCorrupt = ''GraphCorrupt''"
| "CompatibilityReasonCode_to_string CR_RebindingNotEligible = ''RebindingNotEligible''"

record CompatibilityReason =
  cr_code :: CompatibilityReasonCode
  cr_field :: string
  cr_detail :: string

definition reason_accepted :: "CompatibilityReason \<Rightarrow> bool" where
  "reason_accepted r \<longleftrightarrow> cr_code r = CR_ExactMatch \<or> cr_code r = CR_RebindingRequiredLegal
     \<or> cr_code r = CR_DynamicShapeAccepted"

record GraphCompatibilityDecision =
  d_klass :: GraphCompatibilityClass
  d_reasons :: "CompatibilityReason list"

definition decision_default :: GraphCompatibilityDecision where
  "decision_default = \<lparr>d_klass = CC_NotACandidate, d_reasons = []\<rparr>"

definition compatible :: "GraphCompatibilityDecision \<Rightarrow> bool" where
  "compatible d \<longleftrightarrow> d_klass d = CC_ExactCompatible \<or> d_klass d = CC_CompatibleWithRebinding
     \<or> d_klass d = CC_CompatibleWithDynamicShapeConstraint \<or> d_klass d = CC_CompatibleWithRuntimeValidation"

definition needs_rebinding :: "GraphCompatibilityDecision \<Rightarrow> bool" where
  "needs_rebinding d \<longleftrightarrow> d_klass d = CC_CompatibleWithRebinding"

record GraphCompatibilityPolicy =
  p_allow_rebinding :: bool
  p_allow_dynamic_shape :: bool
  p_allow_runtime_validation :: bool
  p_exact_backend :: bool
  p_exact_architecture :: bool
  p_exact_runtime :: bool
  p_exact_abis :: bool
  p_exact_topology :: bool
  p_exact_dependencies :: bool
  p_exact_scalar :: bool
  p_exact_quantization :: bool
  p_model_revision_lax :: bool
  p_namespace_filter :: string

definition policy_default :: GraphCompatibilityPolicy where
  "policy_default = \<lparr>p_allow_rebinding = True, p_allow_dynamic_shape = True, p_allow_runtime_validation = True,
     p_exact_backend = True, p_exact_architecture = True, p_exact_runtime = True, p_exact_abis = True,
     p_exact_topology = True, p_exact_dependencies = True, p_exact_scalar = True,
     p_exact_quantization = True, p_model_revision_lax = False, p_namespace_filter = []\<rparr>"

definition mk_reason :: "CompatibilityReasonCode \<Rightarrow> string \<Rightarrow> string \<Rightarrow> CompatibilityReason" where
  "mk_reason c fld detail = \<lparr>cr_code = c, cr_field = fld, cr_detail = detail\<rparr>"

text \<open>
  The local variables of the decision: the reasons so far and \<open>fail_class\<close>, present once \<open>hard_fail\<close> is set.
\<close>

record decision_state =
  ds_reasons :: "CompatibilityReason list"
  ds_fail :: "GraphCompatibilityClass option"

definition add_reason :: "CompatibilityReasonCode \<Rightarrow> string \<Rightarrow> string \<Rightarrow> decision_state \<Rightarrow> decision_state" where
  "add_reason c fld detail s = s\<lparr>ds_reasons := ds_reasons s @ [mk_reason c fld detail]\<rparr>"

definition fail :: "GraphCompatibilityClass \<Rightarrow> CompatibilityReasonCode \<Rightarrow> string \<Rightarrow> string \<Rightarrow> decision_state \<Rightarrow> decision_state" where
  "fail c r fld detail s = add_reason r fld detail
     (case ds_fail s of None \<Rightarrow> s\<lparr>ds_fail := Some c\<rparr> | Some _ \<Rightarrow> s)"

definition fail_when :: "bool \<Rightarrow> GraphCompatibilityClass \<Rightarrow> CompatibilityReasonCode \<Rightarrow> string \<Rightarrow> string
    \<Rightarrow> decision_state \<Rightarrow> decision_state" where
  "fail_when b c r fld detail s = (if b then fail c r fld detail s else s)"

definition dep_key :: "KernelIdentityRef \<Rightarrow> string" where
  "dep_key d = k_name d @ ''|'' @ dec_string (unat (gg_value (k_generation d))) @ ''|'' @ k_digest d"

text \<open>The first correctness-contributing dependency of the candidate the request does not have.\<close>

definition missing_dep :: "CompatibilityFacts \<Rightarrow> CompatibilityFacts \<Rightarrow> KernelIdentityRef option" where
  "missing_dep req cand =
     (let req_correct = set (map dep_key (filter k_contributes (f_dependencies req)))
      in find (\<lambda>d. k_contributes d \<and> dep_key d \<notin> req_correct) (f_dependencies cand))"

definition check_dependencies :: "CompatibilityFacts \<Rightarrow> CompatibilityFacts \<Rightarrow> decision_state \<Rightarrow> decision_state" where
  "check_dependencies req cand s = (case missing_dep req cand of
       None \<Rightarrow> s
     | Some d \<Rightarrow> fail CC_IncompatibleDependency CR_DependencyMismatch (''dependency:'' @ k_name d)
                  ''correctness-contributing dependency differs'' s)"

definition check_hard_domains :: "CompatibilityFacts \<Rightarrow> CompatibilityFacts \<Rightarrow> GraphCompatibilityPolicy
    \<Rightarrow> decision_state \<Rightarrow> decision_state" where
  "check_hard_domains req cand pol s0 = (let
     s1 = fail_when (bk_kind (f_backend req) \<noteq> bk_kind (f_backend cand)
            \<or> bk_name (f_backend req) \<noteq> bk_name (f_backend cand)
            \<or> p_exact_backend pol \<and> bk_version (f_backend req) \<noteq> bk_version (f_backend cand))
          CC_IncompatibleBackend CR_BackendMismatch ''backend'' ''backend identity differs'' s0;
     s2 = fail_when (dev_vendor (f_device req) \<noteq> dev_vendor (f_device cand))
          CC_IncompatibleArchitecture CR_ArchitectureMismatch ''device.vendor'' ''accelerator vendor differs'' s1;
     s3 = fail_when (dev_arch (f_device req) \<noteq> dev_arch (f_device cand)
            \<or> p_exact_architecture pol \<and> (dev_cc_major (f_device req) \<noteq> dev_cc_major (f_device cand)
                \<or> dev_cc_minor (f_device req) \<noteq> dev_cc_minor (f_device cand)))
          CC_IncompatibleArchitecture CR_ArchitectureMismatch ''device.architecture''
          ''architecture / compute capability differs'' s2;
     s4 = fail_when (p_exact_runtime pol \<and> rt_version (f_runtime req) \<noteq> rt_version (f_runtime cand))
          CC_IncompatibleRuntime CR_RuntimeMismatch ''runtime.runtime_version'' ''runtime version differs'' s3;
     s5 = fail_when (rt_driver_version (f_runtime req) \<noteq> rt_driver_version (f_runtime cand))
          CC_IncompatibleDriverGeneration CR_DriverGenerationMismatch ''runtime.driver_version''
          ''driver generation differs'' s4;
     s6 = fail_when (p_exact_abis pol \<and> rt_graph_abi (f_runtime req) \<noteq> rt_graph_abi (f_runtime cand))
          CC_IncompatibleGraphABI CR_GraphABIMismatch ''runtime.graph_abi'' ''graph ABI differs'' s5;
     s7 = fail_when (p_exact_abis pol \<and> rt_kernel_abi (f_runtime req) \<noteq> rt_kernel_abi (f_runtime cand))
          CC_IncompatibleKernelABI CR_KernelABIMismatch ''runtime.kernel_abi'' ''kernel ABI differs'' s6;
     s8 = fail_when (f_capture_mode req \<noteq> f_capture_mode cand)
          CC_IncompatibleCaptureMode CR_CaptureModeMismatch ''sync.capture_mode'' ''capture mode differs'' s7;
     s9 = fail_when (f_stream_semantics req \<noteq> f_stream_semantics cand)
          CC_IncompatibleStreamSemantics CR_StreamSemanticsMismatch ''sync.stream_semantics''
          ''stream semantics differ'' s8;
     s10 = fail_when (p_exact_topology pol \<and> f_topology req \<noteq> f_topology cand)
          CC_IncompatibleTopology CR_TopologyMismatch ''topology'' ''graph topology identity differs'' s9;
     s11 = (if p_exact_dependencies pol then check_dependencies req cand s10 else s10);
     s12 = fail_when (f_datatypes req \<noteq> f_datatypes cand)
          CC_IncompatibleDatatype CR_DatatypeMismatch ''datatype'' ''datatype specialization differs'' s11;
     s13 = fail_when (f_layouts req \<noteq> f_layouts cand)
          CC_IncompatibleLayout CR_LayoutMismatch ''layout'' ''tensor layout differs'' s12;
     s14 = fail_when (sc_specialized (f_scalar req) \<noteq> sc_specialized (f_scalar cand)
            \<or> sc_specialized (f_scalar req) \<and> (sc_int (f_scalar req) \<noteq> sc_int (f_scalar cand)
                \<or> \<not> f64_eq (sc_float (f_scalar req)) (sc_float (f_scalar cand))))
          CC_IncompatibleSpecialization CR_SpecializationMismatch ''scalar_specialization''
          ''scalar specialization differs'' s13
     in fail_when (q_mode (f_quantization req) \<noteq> q_mode (f_quantization cand)
            \<or> q_group_size (f_quantization req) \<noteq> q_group_size (f_quantization cand)
            \<or> q_symmetric (f_quantization req) \<noteq> q_symmetric (f_quantization cand)
            \<or> q_custom_scheme (f_quantization req) \<noteq> q_custom_scheme (f_quantization cand))
          CC_IncompatibleQuantization CR_QuantizationMismatch ''quantization''
          ''quantization configuration differs'' s14)"

text \<open>Alignment and binding; the second component is \<open>used_rebinding\<close>.\<close>

definition binding_differs :: "CompatibilityFacts \<Rightarrow> CompatibilityFacts \<Rightarrow> bool" where
  "binding_differs req cand \<longleftrightarrow> f_required_alignment req \<noteq> f_required_alignment cand
     \<or> bd_schema (f_binding req) \<noteq> bd_schema (f_binding cand)
     \<or> bd_class (f_binding req) \<noteq> bd_class (f_binding cand)
     \<or> bd_alignment (f_binding req) \<noteq> bd_alignment (f_binding cand)"

definition rebinding_legal :: "CompatibilityFacts \<Rightarrow> GraphCompatibilityPolicy \<Rightarrow> bool" where
  "rebinding_legal cand pol \<longleftrightarrow> p_allow_rebinding pol \<and> bd_rebinding_eligible (f_binding cand)
     \<and> bd_class (f_binding cand) \<noteq> BC_RecaptureRequired \<and> bd_class (f_binding cand) \<noteq> BC_Immutable"

definition check_binding :: "CompatibilityFacts \<Rightarrow> CompatibilityFacts \<Rightarrow> GraphCompatibilityPolicy
    \<Rightarrow> decision_state \<Rightarrow> decision_state \<times> bool" where
  "check_binding req cand pol s =
     (if binding_differs req cand then
        if rebinding_legal cand pol then
          (add_reason CR_RebindingRequiredLegal ''binding'' ''binding differs but is legally reboundable'' s, True)
        else if f_required_alignment req \<noteq> f_required_alignment cand then
          (fail CC_IncompatibleAlignment CR_AlignmentMismatch ''alignment''
             ''required alignment differs and is not reboundable'' s, False)
        else (fail CC_IncompatibleMemoryBinding CR_MemoryBindingMismatch ''binding''
                ''memory binding differs and is not legally reboundable'' s, False)
      else (s, False))"

text \<open>Shapes; the second component is \<open>used_dynamic\<close>. The comparison \<open>c.max_rank >= r.dims.size()\<close> is between a \<open>uint32_t\<close> and a \<open>size_t\<close>.\<close>

definition shape_accepts :: "ShapeDescriptor \<Rightarrow> ShapeDescriptor \<Rightarrow> bool" where
  "shape_accepts r c \<longleftrightarrow> sh_dims r = sh_dims c \<or> sh_dynamic c \<and> unat (sh_max_rank c) \<ge> length (sh_dims r)"

definition dynamic_accepted :: "CompatibilityFacts \<Rightarrow> CompatibilityFacts \<Rightarrow> GraphCompatibilityPolicy \<Rightarrow> bool" where
  "dynamic_accepted req cand pol \<longleftrightarrow> p_allow_dynamic_shape pol
     \<and> length (f_input_shapes cand) = length (f_input_shapes req)
     \<and> list_all2 shape_accepts (f_input_shapes req) (f_input_shapes cand) \<and> f_input_shapes req \<noteq> []"

definition shapes_differ :: "CompatibilityFacts \<Rightarrow> CompatibilityFacts \<Rightarrow> bool" where
  "shapes_differ req cand \<longleftrightarrow> f_input_shapes req \<noteq> f_input_shapes cand \<or> f_output_shapes req \<noteq> f_output_shapes cand"

definition check_shapes :: "CompatibilityFacts \<Rightarrow> CompatibilityFacts \<Rightarrow> GraphCompatibilityPolicy
    \<Rightarrow> decision_state \<Rightarrow> decision_state \<times> bool" where
  "check_shapes req cand pol s =
     (if shapes_differ req cand then
        if \<not> dynamic_accepted req cand pol then
          (fail CC_IncompatibleShape CR_ShapeMismatch ''shape'' ''shape specialization differs'' s, False)
        else (add_reason CR_DynamicShapeAccepted ''shape''
                ''shape differs but satisfies the candidate dynamic-shape constraint'' s, True)
      else (s, False))"

definition revision_differs :: "CompatibilityFacts \<Rightarrow> CompatibilityFacts \<Rightarrow> GraphCompatibilityPolicy \<Rightarrow> bool" where
  "revision_differs req cand pol \<longleftrightarrow> f_model_revision req \<noteq> [] \<and> f_model_revision cand \<noteq> []
     \<and> f_model_revision req \<noteq> f_model_revision cand \<and> \<not> p_model_revision_lax pol"

definition decide_compatibility :: "CompatibilityFacts \<Rightarrow> CompatibilityFacts \<Rightarrow> GraphCompatibilityPolicy
    \<Rightarrow> GraphCompatibilityDecision" where
  "decide_compatibility req cand pol =
     (if wl_name (f_workload req) \<noteq> wl_name (f_workload cand) then
        \<lparr>d_klass = CC_IncompatibleWorkload, d_reasons = [mk_reason CR_WorkloadIdentityMismatch
           ''workload.logical_name'' ''logical workload identity differs'']\<rparr>
      else if p_namespace_filter pol \<noteq> [] \<and> wl_namespace (f_workload req) \<noteq> p_namespace_filter pol then
        \<lparr>d_klass = CC_PolicyRejected, d_reasons = [mk_reason CR_PolicyRejectedReason ''namespace''
           ''request namespace does not match the policy filter'']\<rparr>
      else let
        s1 = check_hard_domains req cand pol \<lparr>ds_reasons = [], ds_fail = None\<rparr>;
        (s2, used_rebinding) = check_binding req cand pol s1;
        (s3, used_dynamic) = check_shapes req cand pol s2;
        s4 = fail_when (revision_differs req cand pol) CC_IncompatibleModelRevision CR_ModelRevisionMismatch
               ''model_revision'' ''model/operator revision differs'' s3
        in case ds_fail s4 of
             Some c \<Rightarrow> \<lparr>d_klass = c, d_reasons = ds_reasons s4\<rparr>
           | None \<Rightarrow>
               if used_rebinding then
                 \<lparr>d_klass = CC_CompatibleWithRebinding, d_reasons = ds_reasons s4
                    @ (if used_dynamic then [mk_reason CR_DynamicShapeAccepted ''shape''
                         ''dynamic shape accepted for replay''] else [])\<rparr>
               else if used_dynamic then
                 \<lparr>d_klass = CC_CompatibleWithDynamicShapeConstraint, d_reasons = ds_reasons s4\<rparr>
               else \<lparr>d_klass = CC_ExactCompatible, d_reasons = ds_reasons s4
                       @ [mk_reason CR_ExactMatch ''*'' ''every compatibility field matches exactly'']\<rparr>)"

section \<open>What the decision decides\<close>

definition hard_domains_match :: "CompatibilityFacts \<Rightarrow> CompatibilityFacts \<Rightarrow> GraphCompatibilityPolicy \<Rightarrow> bool" where
  "hard_domains_match req cand pol \<longleftrightarrow>
     bk_kind (f_backend req) = bk_kind (f_backend cand) \<and> bk_name (f_backend req) = bk_name (f_backend cand)
     \<and> (p_exact_backend pol \<longrightarrow> bk_version (f_backend req) = bk_version (f_backend cand))
     \<and> dev_vendor (f_device req) = dev_vendor (f_device cand) \<and> dev_arch (f_device req) = dev_arch (f_device cand)
     \<and> (p_exact_architecture pol \<longrightarrow> dev_cc_major (f_device req) = dev_cc_major (f_device cand)
          \<and> dev_cc_minor (f_device req) = dev_cc_minor (f_device cand))
     \<and> (p_exact_runtime pol \<longrightarrow> rt_version (f_runtime req) = rt_version (f_runtime cand))
     \<and> rt_driver_version (f_runtime req) = rt_driver_version (f_runtime cand)
     \<and> (p_exact_abis pol \<longrightarrow> rt_graph_abi (f_runtime req) = rt_graph_abi (f_runtime cand)
          \<and> rt_kernel_abi (f_runtime req) = rt_kernel_abi (f_runtime cand))
     \<and> f_capture_mode req = f_capture_mode cand \<and> f_stream_semantics req = f_stream_semantics cand
     \<and> (p_exact_topology pol \<longrightarrow> f_topology req = f_topology cand)
     \<and> (p_exact_dependencies pol \<longrightarrow> missing_dep req cand = None)
     \<and> f_datatypes req = f_datatypes cand \<and> f_layouts req = f_layouts cand
     \<and> sc_specialized (f_scalar req) = sc_specialized (f_scalar cand)
     \<and> (sc_specialized (f_scalar req) \<longrightarrow> sc_int (f_scalar req) = sc_int (f_scalar cand)
          \<and> f64_eq (sc_float (f_scalar req)) (sc_float (f_scalar cand)))
     \<and> f_quantization req = f_quantization cand"

definition same_scope :: "CompatibilityFacts \<Rightarrow> CompatibilityFacts \<Rightarrow> GraphCompatibilityPolicy \<Rightarrow> bool" where
  "same_scope req cand pol \<longleftrightarrow> wl_name (f_workload req) = wl_name (f_workload cand)
     \<and> p_namespace_filter pol \<in> {[], wl_namespace (f_workload req)}"

lemma ds_fail_fail [simp]: "ds_fail (fail c r a b s) = Some (case ds_fail s of None \<Rightarrow> c | Some d \<Rightarrow> d)"
  by (simp add: fail_def add_reason_def split: option.split)

lemma ds_fail_add_reason [simp]: "ds_fail (add_reason r a b s) = ds_fail s"
  by (simp add: add_reason_def)

lemma ds_fail_fail_when [simp]: "ds_fail (fail_when b c r x y s) = None \<longleftrightarrow> \<not> b \<and> ds_fail s = None"
  by (simp add: fail_when_def)

lemma ds_fail_check_dependencies [simp]:
  "ds_fail (check_dependencies req cand s) = None \<longleftrightarrow> missing_dep req cand = None \<and> ds_fail s = None"
  by (simp add: check_dependencies_def split: option.split)

lemma QuantizationConfig_eq_iff:
  "(q :: QuantizationConfig) = q' \<longleftrightarrow> q_mode q = q_mode q' \<and> q_group_size q = q_group_size q'
     \<and> q_symmetric q = q_symmetric q' \<and> q_custom_scheme q = q_custom_scheme q'"
  by (cases q; cases q') auto

lemma check_hard_domains_ok:
  "ds_fail (check_hard_domains req cand pol s) = None \<longleftrightarrow> hard_domains_match req cand pol \<and> ds_fail s = None"
  unfolding check_hard_domains_def hard_domains_match_def Let_def QuantizationConfig_eq_iff by auto

lemma check_binding_spec:
  "ds_fail (fst (check_binding req cand pol s)) = None \<longleftrightarrow>
     (binding_differs req cand \<longrightarrow> rebinding_legal cand pol) \<and> ds_fail s = None"
  "snd (check_binding req cand pol s) \<longleftrightarrow> binding_differs req cand \<and> rebinding_legal cand pol"
  by (auto simp: check_binding_def)

lemma check_shapes_spec:
  "ds_fail (fst (check_shapes req cand pol s)) = None \<longleftrightarrow>
     (shapes_differ req cand \<longrightarrow> dynamic_accepted req cand pol) \<and> ds_fail s = None"
  "snd (check_shapes req cand pol s) \<longleftrightarrow> shapes_differ req cand \<and> dynamic_accepted req cand pol"
  by (auto simp: check_shapes_def)

definition decision_passes :: "CompatibilityFacts \<Rightarrow> CompatibilityFacts \<Rightarrow> GraphCompatibilityPolicy \<Rightarrow> bool" where
  "decision_passes req cand pol \<longleftrightarrow> same_scope req cand pol \<and> hard_domains_match req cand pol
     \<and> (binding_differs req cand \<longrightarrow> rebinding_legal cand pol)
     \<and> (shapes_differ req cand \<longrightarrow> dynamic_accepted req cand pol) \<and> \<not> revision_differs req cand pol"

text \<open>The classes the checks fail with are never compatible ones.\<close>

definition failing_class :: "GraphCompatibilityClass \<Rightarrow> bool" where
  "failing_class c \<longleftrightarrow> c \<notin> {CC_ExactCompatible, CC_CompatibleWithRebinding, CC_CompatibleWithDynamicShapeConstraint,
     CC_CompatibleWithRuntimeValidation}"

definition fail_sound :: "decision_state \<Rightarrow> bool" where
  "fail_sound s \<longleftrightarrow> (\<forall>c. ds_fail s = Some c \<longrightarrow> failing_class c)
     \<and> (ds_fail s = None \<longleftrightarrow> list_all reason_accepted (ds_reasons s))"

lemma fail_sound_fail:
  "failing_class c \<Longrightarrow> \<not> reason_accepted (mk_reason r a b) \<Longrightarrow> fail_sound s \<Longrightarrow> fail_sound (fail c r a b s)"
  by (auto simp: fail_sound_def fail_def add_reason_def split: option.splits)

lemma fail_sound_fail_when:
  "failing_class c \<Longrightarrow> \<not> reason_accepted (mk_reason r a b) \<Longrightarrow> fail_sound s \<Longrightarrow> fail_sound (fail_when g c r a b s)"
  by (simp add: fail_when_def fail_sound_fail)

lemma fail_sound_add_reason:
  "reason_accepted (mk_reason r a b) \<Longrightarrow> fail_sound s \<Longrightarrow> fail_sound (add_reason r a b s)"
  by (simp add: fail_sound_def add_reason_def)

lemmas fail_sound_rules = fail_sound_fail_when fail_sound_fail fail_sound_add_reason

lemma check_hard_domains_sound: "fail_sound s \<Longrightarrow> fail_sound (check_hard_domains req cand pol s)"
  unfolding check_hard_domains_def Let_def
  by (intro fail_sound_rules)
    (simp_all add: failing_class_def reason_accepted_def mk_reason_def check_dependencies_def fail_sound_rules
      split: option.split)

lemma check_binding_sound: "fail_sound s \<Longrightarrow> fail_sound (fst (check_binding req cand pol s))"
  by (simp add: check_binding_def fail_sound_rules failing_class_def reason_accepted_def mk_reason_def)

lemma check_shapes_sound: "fail_sound s \<Longrightarrow> fail_sound (fst (check_shapes req cand pol s))"
  by (simp add: check_shapes_def fail_sound_rules failing_class_def reason_accepted_def mk_reason_def)

text \<open>The state after all checks.\<close>

definition checked :: "CompatibilityFacts \<Rightarrow> CompatibilityFacts \<Rightarrow> GraphCompatibilityPolicy \<Rightarrow> decision_state" where
  "checked req cand pol = fail_when (revision_differs req cand pol) CC_IncompatibleModelRevision
     CR_ModelRevisionMismatch ''model_revision'' ''model/operator revision differs''
     (fst (check_shapes req cand pol (fst (check_binding req cand pol
        (check_hard_domains req cand pol \<lparr>ds_reasons = [], ds_fail = None\<rparr>)))))"

lemma checked_ok:
  "ds_fail (checked req cand pol) = None \<longleftrightarrow> hard_domains_match req cand pol
     \<and> (binding_differs req cand \<longrightarrow> rebinding_legal cand pol)
     \<and> (shapes_differ req cand \<longrightarrow> dynamic_accepted req cand pol) \<and> \<not> revision_differs req cand pol"
  by (auto simp: checked_def check_hard_domains_ok check_binding_spec check_shapes_spec)

lemma checked_sound: "fail_sound (checked req cand pol)"
  unfolding checked_def
  by (intro fail_sound_fail_when check_shapes_sound check_binding_sound check_hard_domains_sound)
    (simp_all add: failing_class_def reason_accepted_def mk_reason_def fail_sound_def)

lemma decide_in_scope:
  assumes "same_scope req cand pol"
  shows "decide_compatibility req cand pol = (let s = checked req cand pol in case ds_fail s of
       Some c \<Rightarrow> \<lparr>d_klass = c, d_reasons = ds_reasons s\<rparr>
     | None \<Rightarrow> if binding_differs req cand then \<lparr>d_klass = CC_CompatibleWithRebinding, d_reasons = ds_reasons s
           @ (if shapes_differ req cand then [mk_reason CR_DynamicShapeAccepted ''shape'' ''dynamic shape accepted for replay''] else [])\<rparr>
         else if shapes_differ req cand then \<lparr>d_klass = CC_CompatibleWithDynamicShapeConstraint, d_reasons = ds_reasons s\<rparr>
         else \<lparr>d_klass = CC_ExactCompatible, d_reasons = ds_reasons s
           @ [mk_reason CR_ExactMatch ''*'' ''every compatibility field matches exactly'']\<rparr>)"
proof -
  have scope: "\<not> wl_name (f_workload req) \<noteq> wl_name (f_workload cand)"
    "\<not> (p_namespace_filter pol \<noteq> [] \<and> wl_namespace (f_workload req) \<noteq> p_namespace_filter pol)"
    using assms by (auto simp: same_scope_def)
  show ?thesis
    unfolding decide_compatibility_def if_not_P [OF scope(1)] if_not_P [OF scope(2)] Let_def case_prod_beta
      checked_def [symmetric]
    using checked_ok [of req cand pol]
    by (auto simp: check_binding_spec check_shapes_spec split: option.split)
qed

lemma decide_out_of_scope:
  "\<not> same_scope req cand pol \<Longrightarrow> \<not> compatible (decide_compatibility req cand pol)
     \<and> \<not> list_all reason_accepted (d_reasons (decide_compatibility req cand pol))"
  by (auto simp: same_scope_def decide_compatibility_def compatible_def reason_accepted_def mk_reason_def)

lemma decide_klass:
  "d_klass (decide_compatibility req cand pol) =
     (if \<not> same_scope req cand pol then d_klass (decide_compatibility req cand pol)
      else case ds_fail (checked req cand pol) of Some c \<Rightarrow> c
      | None \<Rightarrow> if binding_differs req cand then CC_CompatibleWithRebinding
          else if shapes_differ req cand then CC_CompatibleWithDynamicShapeConstraint else CC_ExactCompatible)"
  by (simp add: decide_in_scope Let_def split: option.split)

lemma decide_compatible_iff: "compatible (decide_compatibility req cand pol) \<longleftrightarrow> decision_passes req cand pol"
proof (cases "same_scope req cand pol")
  case True
  show ?thesis
  proof (cases "ds_fail (checked req cand pol)")
    case None
    with True checked_ok [of req cand pol] show ?thesis
      by (simp add: decide_in_scope Let_def compatible_def decision_passes_def)
  next
    case (Some c)
    then have "failing_class c" using checked_sound [of req cand pol] by (simp add: fail_sound_def)
    with True Some checked_ok [of req cand pol] show ?thesis
      by (auto simp: decide_in_scope Let_def compatible_def decision_passes_def failing_class_def)
  qed
qed (simp add: decide_out_of_scope decision_passes_def)

text \<open>
  C11: the compatibility decision in one formula. A candidate is replayable for a request exactly when the
  workload name (and the policy's namespace filter) agree, every hard domain the policy makes exact
  agrees, a differing binding is one the candidate legally allows to rebind, differing shapes are
  accepted under the candidate's dynamic constraint, and the model revisions do not conflict. The class
  reported is then fixed by which of the two soft domains was used. The formula restates the order and the
  combination of the checks; the tests of single members (which bindings may be rebound, which shapes a
  dynamic constraint accepts, which dependencies are missing) are those of the code.
\<close>

theorem decide_compatibility_correct:
  "let d = decide_compatibility req cand pol in
   if decision_passes req cand pol
   then compatible d \<and> d_klass d =
     (if binding_differs req cand then CC_CompatibleWithRebinding
      else if shapes_differ req cand then CC_CompatibleWithDynamicShapeConstraint else CC_ExactCompatible)
   else \<not> compatible d"
proof (cases "decision_passes req cand pol")
  case True
  then have "same_scope req cand pol" "ds_fail (checked req cand pol) = None"
    by (simp_all add: decision_passes_def checked_ok)
  then have "d_klass (decide_compatibility req cand pol) =
     (if binding_differs req cand then CC_CompatibleWithRebinding
      else if shapes_differ req cand then CC_CompatibleWithDynamicShapeConstraint else CC_ExactCompatible)"
    by (subst decide_klass) simp
  with True show ?thesis by (simp add: Let_def decide_compatible_iff)
qed (simp add: Let_def decide_compatible_iff)

text \<open>
  the explanation agrees with the verdict: a decision is compatible exactly when all its reasons are
  accepting ones, and there is always at least one reason.
\<close>

theorem decision_reasons_agree:
  "compatible (decide_compatibility req cand pol) = list_all reason_accepted (d_reasons (decide_compatibility req cand pol))
   \<and> d_reasons (decide_compatibility req cand pol) \<noteq> []"
proof (cases "same_scope req cand pol")
  case True
  let ?s = "checked req cand pol"
  have sound: "fail_sound ?s" by (rule checked_sound)
  show ?thesis
  proof (cases "ds_fail ?s")
    case None
    then have "list_all reason_accepted (ds_reasons ?s)" using sound by (simp add: fail_sound_def)
    moreover have "ds_reasons ?s \<noteq> []" if "binding_differs req cand \<or> shapes_differ req cand"
      using None that by (auto simp: checked_def fail_when_def check_shapes_def check_binding_def
          add_reason_def fail_def split: if_splits option.splits)
    ultimately show ?thesis
      using True None by (auto simp: decide_in_scope Let_def compatible_def reason_accepted_def mk_reason_def)
  next
    case (Some c)
    then have "failing_class c" "\<not> list_all reason_accepted (ds_reasons ?s)"
      using sound by (auto simp: fail_sound_def)
    with True Some show ?thesis
      by (auto simp: decide_in_scope Let_def compatible_def failing_class_def)
  qed
next
  case False
  then show ?thesis
    using decide_out_of_scope [OF False] by (auto simp: list_all_iff)
qed

lemma self_exact_iff:
  "d_klass (decide_compatibility f f pol) = CC_ExactCompatible \<longleftrightarrow>
     p_namespace_filter pol \<in> {[], wl_namespace (f_workload f)}
     \<and> (if sc_specialized (f_scalar f) then f64_is_nan (sc_float (f_scalar f)) = False else True)"
proof -
  have m: "missing_dep f f = None"
    by (auto simp: missing_dep_def Let_def find_None_iff)
  have "hard_domains_match f f pol \<longleftrightarrow> (sc_specialized (f_scalar f) \<longrightarrow> \<not> f64_is_nan (sc_float (f_scalar f)))"
    by (auto simp: hard_domains_match_def m f64_eq_refl_iff)
  then have p: "decision_passes f f pol \<longleftrightarrow> p_namespace_filter pol \<in> {[], wl_namespace (f_workload f)}
     \<and> (sc_specialized (f_scalar f) \<longrightarrow> \<not> f64_is_nan (sc_float (f_scalar f)))"
    by (auto simp: decision_passes_def same_scope_def binding_differs_def shapes_differ_def revision_differs_def)
  have "d_klass (decide_compatibility f f pol) = CC_ExactCompatible \<longleftrightarrow> decision_passes f f pol"
  proof
    assume "d_klass (decide_compatibility f f pol) = CC_ExactCompatible"
    then show "decision_passes f f pol"
      using decide_compatible_iff [of f f pol] by (simp add: compatible_def)
  next
    assume "decision_passes f f pol"
    then have "same_scope f f pol" "ds_fail (checked f f pol) = None"
      by (simp_all add: decision_passes_def checked_ok)
    then show "d_klass (decide_compatibility f f pol) = CC_ExactCompatible"
      by (subst decide_klass) (simp add: binding_differs_def shapes_differ_def)
  qed
  with p show ?thesis by simp
qed

text \<open>
  a graph matches its own facts exactly, unless it is specialised on a NaN: the code compares the
  floating value with \<open>!=\<close>, so such a graph is never compatible, not even with itself.
\<close>

theorem self_compatible_unless_nan:
  "d_klass (decide_compatibility f f pol) = CC_ExactCompatible \<longleftrightarrow>
     p_namespace_filter pol \<in> {[], wl_namespace (f_workload f)}
     \<and> (if sc_specialized (f_scalar f) then f64_is_nan (sc_float (f_scalar f)) = False else True)"
  by (rule self_exact_iff)

text \<open>
  output shapes are not checked once shapes go through the dynamic path: if a request passes against
  a candidate with some input shape, it also passes with arbitrary other output shapes, although no
  shape of the candidate need be dynamic.
\<close>

theorem output_shapes_unchecked:
  assumes "p_allow_dynamic_shape pol" and "f_input_shapes req \<noteq> []"
    and "f_input_shapes req = f_input_shapes cand" and "compatible (decide_compatibility req cand pol)"
  shows "compatible (decide_compatibility (req\<lparr>f_output_shapes := outs\<rparr>) cand pol)"
proof -
  let ?r = "req\<lparr>f_output_shapes := outs\<rparr>"
  have "dynamic_accepted ?r cand pol"
    using assms(1-3) by (simp add: dynamic_accepted_def shape_accepts_def list_all2_conv_all_nth)
  moreover have "missing_dep ?r cand = missing_dep req cand"
    by (simp add: missing_dep_def)
  ultimately show ?thesis
    using assms(4)
    by (simp add: decide_compatible_iff decision_passes_def same_scope_def hard_domains_match_def
        binding_differs_def revision_differs_def)
qed

definition example_facts :: CompatibilityFacts where
  "example_facts = CompatibilityFacts_default\<lparr>f_input_shapes := [ShapeDescriptor_default\<lparr>sh_dims := [4, 4]\<rparr>],
     f_output_shapes := [ShapeDescriptor_default\<lparr>sh_dims := [4]\<rparr>]\<rparr>"

lemma output_shapes_unchecked_witness:
  "compatible (decide_compatibility
     (example_facts\<lparr>f_output_shapes := [ShapeDescriptor_default\<lparr>sh_dims := [1024]\<rparr>]\<rparr>) example_facts policy_default)
   \<and> list_all (\<lambda>s. \<not> sh_dynamic s) (f_input_shapes example_facts @ f_output_shapes example_facts)"
proof -
  have "compatible (decide_compatibility example_facts example_facts policy_default)"
    unfolding decide_compatible_iff decision_passes_def same_scope_def hard_domains_match_def
    by (simp add: missing_dep_def example_facts_def CompatibilityFacts_default_def binding_differs_def
        shapes_differ_def revision_differs_def policy_default_def ScalarSpecialization_default_def)
  from output_shapes_unchecked [OF _ _ refl this]
  show ?thesis
    by (simp add: policy_default_def example_facts_def ShapeDescriptor_default_def)
qed

text \<open>
  the decision never reads the workload's version, revision mode and policy generation, the device index
  and name, or the implementation name of the backend: a request that differs from the candidate
  only there is reported as an exact match on every field.
\<close>

theorem decision_ignores_versions:
  "decide_compatibility
     (req\<lparr>f_workload := (f_workload req)\<lparr>wl_version := v, wl_revision_mode := m, wl_policy_generation := g\<rparr>,
          f_policy_generation := g', f_device := (f_device req)\<lparr>dev_index := i, dev_name := nm\<rparr>,
          f_backend := (f_backend req)\<lparr>bk_impl := im\<rparr>\<rparr>) cand pol
   = decide_compatibility req cand pol"
  (is "decide_compatibility ?r cand pol = _")
proof -
  have deps: "check_dependencies ?r cand s = check_dependencies req cand s" for s
    by (simp add: check_dependencies_def missing_dep_def)
  have "check_hard_domains ?r cand pol s = check_hard_domains req cand pol s" for s
    unfolding check_hard_domains_def Let_def deps by simp
  moreover have "check_binding ?r cand pol s = check_binding req cand pol s" for s
    by (simp add: check_binding_def binding_differs_def)
  moreover have "check_shapes ?r cand pol s = check_shapes req cand pol s" for s
    by (simp add: check_shapes_def shapes_differ_def dynamic_accepted_def)
  moreover have "revision_differs ?r cand pol = revision_differs req cand pol"
    by (simp add: revision_differs_def)
  ultimately show ?thesis by (simp add: decide_compatibility_def)
qed

end
