(* ===== verification/GC_Serialization.thy ===== *)
theory GC_Serialization
  imports GC_Compatibility
begin

text \<open>
  The descriptor and metadata codecs of \<open>src/serialization.cpp\<close>. The tag-dispatching decoders of nested
  blocks are loops over the canonical reader; the outer decoders read fields in order and report
  which one failed. \<open>deserialize_descriptor\<close> is split at the members of \<open>GraphDescriptor\<close>. The functions
  that have the name of another file's carry the prefix \<open>ser_\<close>.
\<close>

section \<open>Field tags\<close>

abbreviation GK_ARTIFACT_HI :: u16 where "GK_ARTIFACT_HI \<equiv> 1"
abbreviation GK_ARTIFACT_LO :: u16 where "GK_ARTIFACT_LO \<equiv> 2"
abbreviation GK_GEN :: u16 where "GK_GEN \<equiv> 3"
abbreviation GK_BK_KIND :: u16 where "GK_BK_KIND \<equiv> 10"
abbreviation GK_BK_NAME :: u16 where "GK_BK_NAME \<equiv> 11"
abbreviation GK_BK_VER :: u16 where "GK_BK_VER \<equiv> 12"
abbreviation GK_BK_IMPL :: u16 where "GK_BK_IMPL \<equiv> 13"
abbreviation GK_RT_VER :: u16 where "GK_RT_VER \<equiv> 20"
abbreviation GK_RT_GABI :: u16 where "GK_RT_GABI \<equiv> 21"
abbreviation GK_RT_KABI :: u16 where "GK_RT_KABI \<equiv> 22"
abbreviation GK_RT_DRIVER :: u16 where "GK_RT_DRIVER \<equiv> 23"
abbreviation GK_DEV_VENDOR :: u16 where "GK_DEV_VENDOR \<equiv> 30"
abbreviation GK_DEV_ARCH :: u16 where "GK_DEV_ARCH \<equiv> 31"
abbreviation GK_DEV_CCMAJ :: u16 where "GK_DEV_CCMAJ \<equiv> 32"
abbreviation GK_DEV_CCMIN :: u16 where "GK_DEV_CCMIN \<equiv> 33"
abbreviation GK_DEV_IDX :: u16 where "GK_DEV_IDX \<equiv> 34"
abbreviation GK_DEV_NAME :: u16 where "GK_DEV_NAME \<equiv> 35"
abbreviation GK_CAP_MODE :: u16 where "GK_CAP_MODE \<equiv> 40"
abbreviation GK_STREAM :: u16 where "GK_STREAM \<equiv> 41"
abbreviation GK_EXTSYNC :: u16 where "GK_EXTSYNC \<equiv> 42"
abbreviation GK_EVT :: u16 where "GK_EVT \<equiv> 43"
abbreviation GK_PROV_TS :: u16 where "GK_PROV_TS \<equiv> 50"
abbreviation GK_PROV_SRC :: u16 where "GK_PROV_SRC \<equiv> 51"
abbreviation GK_PROV_DUR :: u16 where "GK_PROV_DUR \<equiv> 52"
abbreviation GK_PROV_TOOL :: u16 where "GK_PROV_TOOL \<equiv> 53"
abbreviation GK_PROV_NAME :: u16 where "GK_PROV_NAME \<equiv> 54"
abbreviation GK_NODE_COUNT :: u16 where "GK_NODE_COUNT \<equiv> 60"
abbreviation GK_NODE :: u16 where "GK_NODE \<equiv> 61"
abbreviation GK_EDGE_COUNT :: u16 where "GK_EDGE_COUNT \<equiv> 62"
abbreviation GK_EDGE :: u16 where "GK_EDGE \<equiv> 63"
abbreviation GK_DEP_COUNT :: u16 where "GK_DEP_COUNT \<equiv> 64"
abbreviation GK_DEP :: u16 where "GK_DEP \<equiv> 65"
abbreviation GN_ID_HI :: u16 where "GN_ID_HI \<equiv> 1"
abbreviation GN_ID_LO :: u16 where "GN_ID_LO \<equiv> 2"
abbreviation GN_CAT :: u16 where "GN_CAT \<equiv> 3"
abbreviation GN_NAME :: u16 where "GN_NAME \<equiv> 4"
abbreviation GN_K_NAME :: u16 where "GN_K_NAME \<equiv> 5"
abbreviation GN_K_HI :: u16 where "GN_K_HI \<equiv> 6"
abbreviation GN_K_LO :: u16 where "GN_K_LO \<equiv> 7"
abbreviation GN_K_GEN :: u16 where "GN_K_GEN \<equiv> 8"
abbreviation GN_K_ABI :: u16 where "GN_K_ABI \<equiv> 9"
abbreviation GN_K_DIGEST :: u16 where "GN_K_DIGEST \<equiv> 10"
abbreviation GN_K_CONTRIB :: u16 where "GN_K_CONTRIB \<equiv> 11"
abbreviation GN_GRIDX :: u16 where "GN_GRIDX \<equiv> 12"
abbreviation GN_GRIDY :: u16 where "GN_GRIDY \<equiv> 13"
abbreviation GN_GRIDZ :: u16 where "GN_GRIDZ \<equiv> 14"
abbreviation GN_BLKX :: u16 where "GN_BLKX \<equiv> 15"
abbreviation GN_BLKY :: u16 where "GN_BLKY \<equiv> 16"
abbreviation GN_BLKZ :: u16 where "GN_BLKZ \<equiv> 17"
abbreviation GN_SMEM :: u16 where "GN_SMEM \<equiv> 18"
abbreviation GN_MEMBYTES :: u16 where "GN_MEMBYTES \<equiv> 19"
abbreviation GN_MSET :: u16 where "GN_MSET \<equiv> 20"
abbreviation GN_DIMS :: u16 where "GN_DIMS \<equiv> 21"
abbreviation GN_DYNAMIC :: u16 where "GN_DYNAMIC \<equiv> 22"
abbreviation GN_MAXRANK :: u16 where "GN_MAXRANK \<equiv> 23"
abbreviation GN_DTYPE :: u16 where "GN_DTYPE \<equiv> 24"
abbreviation GN_LAYOUT :: u16 where "GN_LAYOUT \<equiv> 25"
abbreviation GN_SCALAR_SPEC :: u16 where "GN_SCALAR_SPEC \<equiv> 26"
abbreviation GN_SCALAR_INT :: u16 where "GN_SCALAR_INT \<equiv> 27"
abbreviation GN_SCALAR_FLOAT :: u16 where "GN_SCALAR_FLOAT \<equiv> 28"
abbreviation GN_Q_MODE :: u16 where "GN_Q_MODE \<equiv> 29"
abbreviation GN_Q_GROUP :: u16 where "GN_Q_GROUP \<equiv> 30"
abbreviation GN_Q_SYM :: u16 where "GN_Q_SYM \<equiv> 31"
abbreviation GN_Q_SCHEME :: u16 where "GN_Q_SCHEME \<equiv> 32"
abbreviation GN_BIND_CLASS :: u16 where "GN_BIND_CLASS \<equiv> 33"
abbreviation GN_BIND_ALIGN :: u16 where "GN_BIND_ALIGN \<equiv> 34"
abbreviation GN_BIND_SCHEMA :: u16 where "GN_BIND_SCHEMA \<equiv> 35"
abbreviation GN_BIND_ELIGIBLE :: u16 where "GN_BIND_ELIGIBLE \<equiv> 36"
abbreviation GN_REQ_ALIGN :: u16 where "GN_REQ_ALIGN \<equiv> 37"
abbreviation GN_CHILD_HI :: u16 where "GN_CHILD_HI \<equiv> 38"
abbreviation GN_CHILD_LO :: u16 where "GN_CHILD_LO \<equiv> 39"
abbreviation GN_IN_INDICES :: u16 where "GN_IN_INDICES \<equiv> 40"
abbreviation GN_OUT_INDICES :: u16 where "GN_OUT_INDICES \<equiv> 41"
abbreviation GN_OPAQUE :: u16 where "GN_OPAQUE \<equiv> 42"
abbreviation GE_ID_HI :: u16 where "GE_ID_HI \<equiv> 1"
abbreviation GE_ID_LO :: u16 where "GE_ID_LO \<equiv> 2"
abbreviation GE_FROM_HI :: u16 where "GE_FROM_HI \<equiv> 3"
abbreviation GE_FROM_LO :: u16 where "GE_FROM_LO \<equiv> 4"
abbreviation GE_TO_HI :: u16 where "GE_TO_HI \<equiv> 5"
abbreviation GE_TO_LO :: u16 where "GE_TO_LO \<equiv> 6"
abbreviation GE_KIND :: u16 where "GE_KIND \<equiv> 7"
abbreviation GE_LABEL :: u16 where "GE_LABEL \<equiv> 8"
abbreviation MK_ARTIFACT_HI :: u16 where "MK_ARTIFACT_HI \<equiv> 1"
abbreviation MK_ARTIFACT_LO :: u16 where "MK_ARTIFACT_LO \<equiv> 2"
abbreviation MK_GEN :: u16 where "MK_GEN \<equiv> 3"
abbreviation MK_CACHE_GEN :: u16 where "MK_CACHE_GEN \<equiv> 4"
abbreviation MK_WL_NAME :: u16 where "MK_WL_NAME \<equiv> 10"
abbreviation MK_WL_VER :: u16 where "MK_WL_VER \<equiv> 11"
abbreviation MK_WL_NS :: u16 where "MK_WL_NS \<equiv> 12"
abbreviation MK_WL_REVMODE :: u16 where "MK_WL_REVMODE \<equiv> 13"
abbreviation MK_WL_MODELREV :: u16 where "MK_WL_MODELREV \<equiv> 14"
abbreviation MK_WL_POLICYGEN :: u16 where "MK_WL_POLICYGEN \<equiv> 15"
abbreviation MK_ARTIFACT_SIZE :: u16 where "MK_ARTIFACT_SIZE \<equiv> 20"
abbreviation MK_CAPTURE_COST :: u16 where "MK_CAPTURE_COST \<equiv> 21"
abbreviation MK_INSTANTIATE_COST :: u16 where "MK_INSTANTIATE_COST \<equiv> 22"
abbreviation MK_DEP_GEN :: u16 where "MK_DEP_GEN \<equiv> 23"
abbreviation MK_INVALIDATED :: u16 where "MK_INVALIDATED \<equiv> 24"

section \<open>Nested blocks\<close>

definition ser_encode_node :: "GraphNodeDescriptor \<Rightarrow> bytes" where
  "ser_encode_node n =
     put_u64 GN_ID_HI (nid_hi (n_id n))
   @ put_u64 GN_ID_LO (nid_lo (n_id n))
   @ put_u32 GN_CAT (NodeCategory_code (n_category n))
   @ put_str GN_NAME (n_name n)
   @ (if n_category n = NC_Kernel then
        put_str GN_K_NAME (k_name (n_kernel n))
      @ put_u64 GN_K_HI (k_hi (n_kernel n))
      @ put_u64 GN_K_LO (k_lo (n_kernel n))
      @ put_u64 GN_K_GEN (gg_value (k_generation (n_kernel n)))
      @ put_u32 GN_K_ABI (k_abi (n_kernel n))
      @ put_str GN_K_DIGEST (k_digest (n_kernel n))
      @ put_bool GN_K_CONTRIB (k_contributes (n_kernel n))
      @ put_u32 GN_GRIDX (lg_grid_x (n_launch n))
      @ put_u32 GN_GRIDY (lg_grid_y (n_launch n))
      @ put_u32 GN_GRIDZ (lg_grid_z (n_launch n))
      @ put_u32 GN_BLKX (lg_block_x (n_launch n))
      @ put_u32 GN_BLKY (lg_block_y (n_launch n))
      @ put_u32 GN_BLKZ (lg_block_z (n_launch n))
      @ put_u32 GN_SMEM (lg_shared_memory (n_launch n))
      else [])
   @ put_u64 GN_MEMBYTES (n_memory_bytes n)
   @ (if n_category n = NC_MemorySet then put_u8 GN_MSET (n_memset_value n) else [])
   @ (if n_datatype n \<noteq> DT_None then
        (if sh_dims (n_shape n) \<noteq> [] then put_u64_list GN_DIMS (sh_dims (n_shape n)) else [])
      @ put_bool GN_DYNAMIC (sh_dynamic (n_shape n))
      @ (if sh_max_rank (n_shape n) \<noteq> 0 then put_u32 GN_MAXRANK (sh_max_rank (n_shape n)) else [])
      @ put_u32 GN_DTYPE (Datatype_code (n_datatype n))
      @ put_u32 GN_LAYOUT (TensorLayout_code (n_layout n))
      else [])
   @ (if sc_specialized (n_scalar n) then
        put_bool GN_SCALAR_SPEC True
      @ put_i64 GN_SCALAR_INT (sc_int (n_scalar n))
      @ put_f64 GN_SCALAR_FLOAT (sc_float (n_scalar n))
      else [])
   @ put_u32 GN_Q_MODE (QuantizationMode_code (q_mode (n_quantization n)))
   @ (if q_mode (n_quantization n) \<noteq> QM_None then
        put_u32 GN_Q_GROUP (q_group_size (n_quantization n))
      @ put_bool GN_Q_SYM (q_symmetric (n_quantization n))
      @ put_str GN_Q_SCHEME (q_custom_scheme (n_quantization n))
      else [])
   @ put_u32 GN_BIND_CLASS (BindingClass_code (bd_class (n_binding n)))
   @ put_u32 GN_BIND_ALIGN (bd_alignment (n_binding n))
   @ put_str GN_BIND_SCHEMA (bd_schema (n_binding n))
   @ put_bool GN_BIND_ELIGIBLE (bd_rebinding_eligible (n_binding n))
   @ put_u64 GN_REQ_ALIGN (n_required_alignment n)
   @ (if n_child_lo n \<noteq> 0 then
        put_u64 GN_CHILD_HI (n_child_hi n)
      @ put_u64 GN_CHILD_LO (n_child_lo n)
      else [])
   @ (if n_inputs n \<noteq> [] then put_u64_list GN_IN_INDICES (map ucast (n_inputs n)) else [])
   @ (if n_outputs n \<noteq> [] then put_u64_list GN_OUT_INDICES (map ucast (n_outputs n)) else [])
   @ (if n_opaque n \<noteq> [] then put_bytes GN_OPAQUE (n_opaque n) else [])"

definition ser_encode_edge :: "GraphEdgeDescriptor \<Rightarrow> bytes" where
  "ser_encode_edge e =
     put_u64 GE_ID_HI (eid_hi (e_id e))
   @ put_u64 GE_ID_LO (eid_lo (e_id e))
   @ put_u64 GE_FROM_HI (nid_hi (e_from e))
   @ put_u64 GE_FROM_LO (nid_lo (e_from e))
   @ put_u64 GE_TO_HI (nid_hi (e_to e))
   @ put_u64 GE_TO_LO (nid_lo (e_to e))
   @ put_u32 GE_KIND (DependencyKind_code (e_kind e))
   @ put_str GE_LABEL (e_label e)"

text \<open>The dependency tags are those of \<open>compatibility.cpp\<close>.\<close>

definition ser_encode_dep :: "KernelIdentityRef \<Rightarrow> bytes" where
  "ser_encode_dep d =
     put_str DEP_NAME (k_name d)
   @ put_u64 DEP_HI (k_hi d)
   @ put_u64 DEP_LO (k_lo d)
   @ put_u64 DEP_GEN (gg_value (k_generation d))
   @ put_u32 DEP_ABI (k_abi d)
   @ put_str DEP_DIGEST (k_digest d)
   @ put_bool DEP_CONTRIB (k_contributes d)"

definition decode_u64_list :: "bytes \<Rightarrow> u64 list option" where
  "decode_u64_list p = (if length p < 4 then None else do {
     n \<leftarrow> decode_u32 (take 4 p);
     if n > 4096 \<or> length p < 4 + 8 * unat n then None else decode_u64s (unat n) (drop 4 p) })"

definition decode_byte :: "bytes \<Rightarrow> u8 option" where
  "decode_byte p = (if p = [] then None else Some (p ! 0))"

definition ser_decode_node_body :: "u16 \<Rightarrow> bytes \<Rightarrow> GraphNodeDescriptor \<Rightarrow> GraphNodeDescriptor option" where
  "ser_decode_node_body tag p n =
     (if tag = GN_ID_HI then do { v \<leftarrow> decode_u64 p; Some (n\<lparr>n_id := GraphNodeId v (nid_lo (n_id n))\<rparr>) }
      else if tag = GN_ID_LO then do { v \<leftarrow> decode_u64 p; Some (n\<lparr>n_id := GraphNodeId (nid_hi (n_id n)) v\<rparr>) }
      else if tag = GN_CAT then do { v \<leftarrow> decode_u32 p; Some (n\<lparr>n_category := NodeCategory_of v\<rparr>) }
      else if tag = GN_NAME then do { v \<leftarrow> decode_str p; Some (n\<lparr>n_name := v\<rparr>) }
      else if tag = GN_K_NAME then do { v \<leftarrow> decode_str p; Some (n\<lparr>n_kernel := (n_kernel n)\<lparr>k_name := v\<rparr>\<rparr>) }
      else if tag = GN_K_HI then do { v \<leftarrow> decode_u64 p; Some (n\<lparr>n_kernel := (n_kernel n)\<lparr>k_hi := v\<rparr>\<rparr>) }
      else if tag = GN_K_LO then do { v \<leftarrow> decode_u64 p; Some (n\<lparr>n_kernel := (n_kernel n)\<lparr>k_lo := v\<rparr>\<rparr>) }
      else if tag = GN_K_GEN then do { v \<leftarrow> decode_u64 p; Some (n\<lparr>n_kernel := (n_kernel n)\<lparr>k_generation := GraphGeneration v\<rparr>\<rparr>) }
      else if tag = GN_K_ABI then do { v \<leftarrow> decode_u32 p; Some (n\<lparr>n_kernel := (n_kernel n)\<lparr>k_abi := v\<rparr>\<rparr>) }
      else if tag = GN_K_DIGEST then do { v \<leftarrow> decode_str p; Some (n\<lparr>n_kernel := (n_kernel n)\<lparr>k_digest := v\<rparr>\<rparr>) }
      else if tag = GN_K_CONTRIB then do { v \<leftarrow> decode_bool p; Some (n\<lparr>n_kernel := (n_kernel n)\<lparr>k_contributes := v\<rparr>\<rparr>) }
      else if tag = GN_GRIDX then do { v \<leftarrow> decode_u32 p; Some (n\<lparr>n_launch := (n_launch n)\<lparr>lg_grid_x := v\<rparr>\<rparr>) }
      else if tag = GN_GRIDY then do { v \<leftarrow> decode_u32 p; Some (n\<lparr>n_launch := (n_launch n)\<lparr>lg_grid_y := v\<rparr>\<rparr>) }
      else if tag = GN_GRIDZ then do { v \<leftarrow> decode_u32 p; Some (n\<lparr>n_launch := (n_launch n)\<lparr>lg_grid_z := v\<rparr>\<rparr>) }
      else if tag = GN_BLKX then do { v \<leftarrow> decode_u32 p; Some (n\<lparr>n_launch := (n_launch n)\<lparr>lg_block_x := v\<rparr>\<rparr>) }
      else if tag = GN_BLKY then do { v \<leftarrow> decode_u32 p; Some (n\<lparr>n_launch := (n_launch n)\<lparr>lg_block_y := v\<rparr>\<rparr>) }
      else if tag = GN_BLKZ then do { v \<leftarrow> decode_u32 p; Some (n\<lparr>n_launch := (n_launch n)\<lparr>lg_block_z := v\<rparr>\<rparr>) }
      else if tag = GN_SMEM then do { v \<leftarrow> decode_u32 p; Some (n\<lparr>n_launch := (n_launch n)\<lparr>lg_shared_memory := v\<rparr>\<rparr>) }
      else if tag = GN_MEMBYTES then do { v \<leftarrow> decode_u64 p; Some (n\<lparr>n_memory_bytes := v\<rparr>) }
      else if tag = GN_MSET then do { v \<leftarrow> decode_byte p; Some (n\<lparr>n_memset_value := v\<rparr>) }
      else if tag = GN_DIMS then do { v \<leftarrow> decode_u64_list p; Some (n\<lparr>n_shape := (n_shape n)\<lparr>sh_dims := sh_dims (n_shape n) @ v\<rparr>\<rparr>) }
      else if tag = GN_DYNAMIC then do { v \<leftarrow> decode_bool p; Some (n\<lparr>n_shape := (n_shape n)\<lparr>sh_dynamic := v\<rparr>\<rparr>) }
      else if tag = GN_MAXRANK then do { v \<leftarrow> decode_u32 p; Some (n\<lparr>n_shape := (n_shape n)\<lparr>sh_max_rank := v\<rparr>\<rparr>) }
      else if tag = GN_DTYPE then do { v \<leftarrow> decode_u32 p; Some (n\<lparr>n_datatype := Datatype_of v\<rparr>) }
      else if tag = GN_LAYOUT then do { v \<leftarrow> decode_u32 p; Some (n\<lparr>n_layout := TensorLayout_of v\<rparr>) }
      else if tag = GN_SCALAR_SPEC then Some (if p \<noteq> [] then n\<lparr>n_scalar := (n_scalar n)\<lparr>sc_specialized := p ! 0 \<noteq> 0\<rparr>\<rparr> else n)
      else if tag = GN_SCALAR_INT then do { v \<leftarrow> decode_i64 p; Some (n\<lparr>n_scalar := (n_scalar n)\<lparr>sc_int := v\<rparr>\<rparr>) }
      else if tag = GN_SCALAR_FLOAT then do { v \<leftarrow> decode_f64 p; Some (n\<lparr>n_scalar := (n_scalar n)\<lparr>sc_float := v\<rparr>\<rparr>) }
      else if tag = GN_Q_MODE then do { v \<leftarrow> decode_u32 p; Some (n\<lparr>n_quantization := (n_quantization n)\<lparr>q_mode := QuantizationMode_of v\<rparr>\<rparr>) }
      else if tag = GN_Q_GROUP then do { v \<leftarrow> decode_u32 p; Some (n\<lparr>n_quantization := (n_quantization n)\<lparr>q_group_size := v\<rparr>\<rparr>) }
      else if tag = GN_Q_SYM then do { v \<leftarrow> decode_bool p; Some (n\<lparr>n_quantization := (n_quantization n)\<lparr>q_symmetric := v\<rparr>\<rparr>) }
      else if tag = GN_Q_SCHEME then do { v \<leftarrow> decode_str p; Some (n\<lparr>n_quantization := (n_quantization n)\<lparr>q_custom_scheme := v\<rparr>\<rparr>) }
      else if tag = GN_BIND_CLASS then do { v \<leftarrow> decode_u32 p; Some (n\<lparr>n_binding := (n_binding n)\<lparr>bd_class := BindingClass_of v\<rparr>\<rparr>) }
      else if tag = GN_BIND_ALIGN then do { v \<leftarrow> decode_u32 p; Some (n\<lparr>n_binding := (n_binding n)\<lparr>bd_alignment := v\<rparr>\<rparr>) }
      else if tag = GN_BIND_SCHEMA then do { v \<leftarrow> decode_str p; Some (n\<lparr>n_binding := (n_binding n)\<lparr>bd_schema := v\<rparr>\<rparr>) }
      else if tag = GN_BIND_ELIGIBLE then do { v \<leftarrow> decode_bool p; Some (n\<lparr>n_binding := (n_binding n)\<lparr>bd_rebinding_eligible := v\<rparr>\<rparr>) }
      else if tag = GN_REQ_ALIGN then do { v \<leftarrow> decode_u64 p; Some (n\<lparr>n_required_alignment := v\<rparr>) }
      else if tag = GN_CHILD_HI then do { v \<leftarrow> decode_u64 p; Some (n\<lparr>n_child_hi := v\<rparr>) }
      else if tag = GN_CHILD_LO then do { v \<leftarrow> decode_u64 p; Some (n\<lparr>n_child_lo := v\<rparr>) }
      else if tag = GN_IN_INDICES then do { v \<leftarrow> decode_u64_list p; Some (n\<lparr>n_inputs := n_inputs n @ map ucast v\<rparr>) }
      else if tag = GN_OUT_INDICES then do { v \<leftarrow> decode_u64_list p; Some (n\<lparr>n_outputs := n_outputs n @ map ucast v\<rparr>) }
      else if tag = GN_OPAQUE then Some (n\<lparr>n_opaque := p\<rparr>)
      else None)"

definition ser_decode_node :: "bytes \<Rightarrow> GraphNodeDescriptor option" where
  "ser_decode_node bytes = loop_decode ser_decode_node_body bytes GraphNodeDescriptor_default"

definition ser_decode_edge_body :: "u16 \<Rightarrow> bytes \<Rightarrow> GraphEdgeDescriptor \<Rightarrow> GraphEdgeDescriptor option" where
  "ser_decode_edge_body tag p e =
     (if tag = GE_ID_HI then do { v \<leftarrow> decode_u64 p; Some (e\<lparr>e_id := GraphEdgeId v (eid_lo (e_id e))\<rparr>) }
      else if tag = GE_ID_LO then do { v \<leftarrow> decode_u64 p; Some (e\<lparr>e_id := GraphEdgeId (eid_hi (e_id e)) v\<rparr>) }
      else if tag = GE_FROM_HI then do { v \<leftarrow> decode_u64 p; Some (e\<lparr>e_from := GraphNodeId v (nid_lo (e_from e))\<rparr>) }
      else if tag = GE_FROM_LO then do { v \<leftarrow> decode_u64 p; Some (e\<lparr>e_from := GraphNodeId (nid_hi (e_from e)) v\<rparr>) }
      else if tag = GE_TO_HI then do { v \<leftarrow> decode_u64 p; Some (e\<lparr>e_to := GraphNodeId v (nid_lo (e_to e))\<rparr>) }
      else if tag = GE_TO_LO then do { v \<leftarrow> decode_u64 p; Some (e\<lparr>e_to := GraphNodeId (nid_hi (e_to e)) v\<rparr>) }
      else if tag = GE_KIND then do { v \<leftarrow> decode_u32 p; Some (e\<lparr>e_kind := DependencyKind_of v\<rparr>) }
      else if tag = GE_LABEL then do { v \<leftarrow> decode_str p; Some (e\<lparr>e_label := v\<rparr>) }
      else None)"

definition ser_decode_edge :: "bytes \<Rightarrow> GraphEdgeDescriptor option" where
  "ser_decode_edge bytes = loop_decode ser_decode_edge_body bytes GraphEdgeDescriptor_default"

definition ser_decode_dep_body :: "u16 \<Rightarrow> bytes \<Rightarrow> KernelIdentityRef \<Rightarrow> KernelIdentityRef option" where
  "ser_decode_dep_body tag p d =
     (if tag = DEP_NAME then do { v \<leftarrow> decode_str p; Some (d\<lparr>k_name := v\<rparr>) }
      else if tag = DEP_HI then do { v \<leftarrow> decode_u64 p; Some (d\<lparr>k_hi := v\<rparr>) }
      else if tag = DEP_LO then do { v \<leftarrow> decode_u64 p; Some (d\<lparr>k_lo := v\<rparr>) }
      else if tag = DEP_GEN then do { v \<leftarrow> decode_u64 p; Some (d\<lparr>k_generation := GraphGeneration v\<rparr>) }
      else if tag = DEP_ABI then do { v \<leftarrow> decode_u32 p; Some (d\<lparr>k_abi := v\<rparr>) }
      else if tag = DEP_DIGEST then do { v \<leftarrow> decode_str p; Some (d\<lparr>k_digest := v\<rparr>) }
      else if tag = DEP_CONTRIB then do { b \<leftarrow> decode_bool p; Some (d\<lparr>k_contributes := b\<rparr>) }
      else None)"

definition ser_decode_dep :: "bytes \<Rightarrow> KernelIdentityRef option" where
  "ser_decode_dep bytes = loop_decode ser_decode_dep_body bytes KernelIdentityRef_default"

section \<open>Descriptors\<close>

definition serialize_descriptor :: "GraphDescriptor \<Rightarrow> bytes" where
  "serialize_descriptor g =
     put_u64 GK_ARTIFACT_HI (aid_hi (g_artifact g))
   @ put_u64 GK_ARTIFACT_LO (aid_lo (g_artifact g))
   @ put_u64 GK_GEN (gg_value (g_generation g))
   @ put_u32 GK_BK_KIND (BackendKind_code (bk_kind (g_backend g)))
   @ put_str GK_BK_NAME (bk_name (g_backend g))
   @ put_u32 GK_BK_VER (bk_version (g_backend g))
   @ put_str GK_BK_IMPL (bk_impl (g_backend g))
   @ put_u32 GK_RT_VER (rt_version (g_runtime g))
   @ put_u32 GK_RT_GABI (rt_graph_abi (g_runtime g))
   @ put_u32 GK_RT_KABI (rt_kernel_abi (g_runtime g))
   @ put_u32 GK_RT_DRIVER (rt_driver_version (g_runtime g))
   @ put_u32 GK_DEV_VENDOR (AcceleratorVendor_code (dev_vendor (g_device g)))
   @ put_str GK_DEV_ARCH (dev_arch (g_device g))
   @ put_u32 GK_DEV_CCMAJ (dev_cc_major (g_device g))
   @ put_u32 GK_DEV_CCMIN (dev_cc_minor (g_device g))
   @ put_u32 GK_DEV_IDX (dev_index (g_device g))
   @ put_str GK_DEV_NAME (dev_name (g_device g))
   @ put_u32 GK_CAP_MODE (CaptureMode_code (sy_capture_mode (g_sync g)))
   @ put_u32 GK_STREAM (StreamSemantics_code (sy_stream_semantics (g_sync g)))
   @ put_bool GK_EXTSYNC (sy_external_sync (g_sync g))
   @ put_u32 GK_EVT (sy_event_count (g_sync g))
   @ put_u64 GK_PROV_TS (pv_timestamp_ms (g_provenance g))
   @ put_str GK_PROV_SRC (pv_source (g_provenance g))
   @ put_u64 GK_PROV_DUR (pv_duration_us (g_provenance g))
   @ put_str GK_PROV_TOOL (pv_toolchain (g_provenance g))
   @ put_str GK_PROV_NAME (pv_graph_name (g_provenance g))
   @ put_u32 GK_NODE_COUNT (word_of_nat (length (g_nodes g)))
   @ concat (map (\<lambda>n. put_bytes GK_NODE (ser_encode_node n)) (g_nodes g))
   @ put_u32 GK_EDGE_COUNT (word_of_nat (length (g_edges g)))
   @ concat (map (\<lambda>e. put_bytes GK_EDGE (ser_encode_edge e)) (g_edges g))
   @ put_u32 GK_DEP_COUNT (word_of_nat (length (g_dependencies g)))
   @ concat (map (\<lambda>d. put_bytes GK_DEP (ser_encode_dep d)) (g_dependencies g))"

text \<open>
  \<open>need\<close> is the local lambda of the code; \<open>need_dec\<close> is a field with the messages for a missing field
  and for an undecodable payload.
\<close>

definition need :: "u16 \<Rightarrow> string \<Rightarrow> CanonicalReader \<Rightarrow> (bytes \<times> CanonicalReader) Result" where
  "need t msg r = (case cr_need t r of None \<Rightarrow> failure EC_PersistenceCorrupt msg | Some x \<Rightarrow> success x)"

definition need_dec :: "u16 \<Rightarrow> (bytes \<Rightarrow> 'a option) \<Rightarrow> string \<Rightarrow> string \<Rightarrow> CanonicalReader
    \<Rightarrow> ('a \<times> CanonicalReader) Result" where
  "need_dec t dec m1 m2 r = bind_result (need t m1 r) (\<lambda>(p, r').
     case dec p of None \<Rightarrow> failure EC_PersistenceCorrupt m2 | Some v \<Rightarrow> success (v, r'))"

fun many_dec :: "nat \<Rightarrow> u16 \<Rightarrow> (bytes \<Rightarrow> 'a option) \<Rightarrow> string \<Rightarrow> string \<Rightarrow> CanonicalReader
    \<Rightarrow> ('a list \<times> CanonicalReader) Result" where
  "many_dec 0 t dec m1 m2 r = success ([], r)"
| "many_dec (Suc n) t dec m1 m2 r = bind_result (need_dec t dec m1 m2 r) (\<lambda>(x, r1).
     bind_result (many_dec n t dec m1 m2 r1) (\<lambda>(xs, r2). success (x # xs, r2)))"

definition counted_dec :: "u16 \<Rightarrow> string \<Rightarrow> string \<Rightarrow> nat \<Rightarrow> u16 \<Rightarrow> (bytes \<Rightarrow> 'a option) \<Rightarrow> string \<Rightarrow> string
    \<Rightarrow> CanonicalReader \<Rightarrow> ('a list \<times> CanonicalReader) Result" where
  "counted_dec ct c1 c2 limit t dec m1 m2 r = bind_result (need_dec ct decode_u32 c1 c2 r) (\<lambda>(n, r').
     if unat n > limit then failure EC_PersistenceCorrupt c2 else many_dec (unat n) t dec m1 m2 r')"

definition deserialize_backend :: "CanonicalReader \<Rightarrow> (BackendIdentity \<times> CanonicalReader) Result" where
  "deserialize_backend r =
     bind_result (need_dec GK_BK_KIND (decode_enum BackendKind_of) ''bk_kind'' ''bk_kind decode'' r) (\<lambda>(k, r).
     bind_result (need_dec GK_BK_NAME decode_str ''bk_name'' ''bk_name'' r) (\<lambda>(nm, r).
     bind_result (need_dec GK_BK_VER decode_u32 ''bk_ver'' ''bk_ver decode'' r) (\<lambda>(v, r).
     bind_result (need_dec GK_BK_IMPL decode_str ''bk_impl'' ''bk_impl'' r) (\<lambda>(im, r).
     success (\<lparr>bk_kind = k, bk_name = nm, bk_version = v, bk_impl = im\<rparr>, r)))))"

definition deserialize_runtime :: "CanonicalReader \<Rightarrow> (RuntimeDescriptor \<times> CanonicalReader) Result" where
  "deserialize_runtime r =
     bind_result (need_dec GK_RT_VER decode_u32 ''rt_ver'' ''rt_ver decode'' r) (\<lambda>(v, r).
     bind_result (need_dec GK_RT_GABI decode_u32 ''rt_gabi'' ''gabi decode'' r) (\<lambda>(ga, r).
     bind_result (need_dec GK_RT_KABI decode_u32 ''rt_kabi'' ''kabi decode'' r) (\<lambda>(ka, r).
     bind_result (need_dec GK_RT_DRIVER decode_u32 ''rt_driver'' ''driver decode'' r) (\<lambda>(dv, r).
     success (RuntimeDescriptor_default\<lparr>rt_version := v, rt_graph_abi := ga, rt_kernel_abi := ka,
                rt_driver_version := dv\<rparr>, r)))))"

definition deserialize_device :: "CanonicalReader \<Rightarrow> (DeviceDescriptor \<times> CanonicalReader) Result" where
  "deserialize_device r =
     bind_result (need_dec GK_DEV_VENDOR (decode_enum AcceleratorVendor_of) ''dev_vendor'' ''dev_vendor decode'' r) (\<lambda>(v, r).
     bind_result (need_dec GK_DEV_ARCH decode_str ''dev_arch'' ''dev_arch'' r) (\<lambda>(ar, r).
     bind_result (need_dec GK_DEV_CCMAJ decode_u32 ''cc_major'' ''cc_major decode'' r) (\<lambda>(ma, r).
     bind_result (need_dec GK_DEV_CCMIN decode_u32 ''cc_minor'' ''cc_minor decode'' r) (\<lambda>(mi, r).
     bind_result (need_dec GK_DEV_IDX decode_u32 ''dev_idx'' ''dev_idx decode'' r) (\<lambda>(ix, r).
     bind_result (need_dec GK_DEV_NAME decode_str ''dev_name'' ''dev_name'' r) (\<lambda>(nm, r).
     success (\<lparr>dev_vendor = v, dev_arch = ar, dev_cc_major = ma, dev_cc_minor = mi, dev_index = ix,
               dev_name = nm\<rparr>, r)))))))"

text \<open>\<open>if (!p.empty()) b = p[0] != 0;\<close> on a flag that starts false.\<close>

definition lenient_bool :: "bytes \<Rightarrow> bool option" where
  "lenient_bool p = Some (p \<noteq> [] \<and> p ! 0 \<noteq> 0)"

definition deserialize_sync :: "CanonicalReader \<Rightarrow> (SynchronizationDescriptor \<times> CanonicalReader) Result" where
  "deserialize_sync r =
     bind_result (need_dec GK_CAP_MODE (decode_enum CaptureMode_of) ''cap_mode'' ''cap_mode decode'' r) (\<lambda>(cm, r).
     bind_result (need_dec GK_STREAM (decode_enum StreamSemantics_of) ''stream'' ''stream decode'' r) (\<lambda>(ss, r).
     bind_result (need_dec GK_EXTSYNC lenient_bool ''extsync'' [] r) (\<lambda>(es, r).
     bind_result (need_dec GK_EVT decode_u32 ''evt'' ''evt decode'' r) (\<lambda>(ev, r).
     success (\<lparr>sy_capture_mode = cm, sy_stream_semantics = ss, sy_external_sync = es, sy_event_count = ev\<rparr>, r)))))"

definition deserialize_provenance :: "CanonicalReader \<Rightarrow> (ProvenanceDescriptor \<times> CanonicalReader) Result" where
  "deserialize_provenance r =
     bind_result (need_dec GK_PROV_TS decode_u64 ''prov_ts'' ''prov_ts decode'' r) (\<lambda>(ts, r).
     bind_result (need_dec GK_PROV_SRC decode_str ''prov_src'' ''prov_src'' r) (\<lambda>(sr, r).
     bind_result (need_dec GK_PROV_DUR decode_u64 ''prov_dur'' ''prov_dur'' r) (\<lambda>(du, r).
     bind_result (need_dec GK_PROV_TOOL decode_str ''prov_tool'' ''prov_tool'' r) (\<lambda>(tl, r).
     bind_result (need_dec GK_PROV_NAME decode_str ''prov_name'' ''prov_name'' r) (\<lambda>(nm, r).
     success (\<lparr>pv_timestamp_ms = ts, pv_source = sr, pv_duration_us = du, pv_toolchain = tl,
               pv_graph_name = nm\<rparr>, r))))))"

definition deserialize_descriptor :: "bytes \<Rightarrow> GraphDescriptor Result" where
  "deserialize_descriptor bytes =
     bind_result (need_dec GK_ARTIFACT_HI decode_u64 ''descriptor: artifact_hi'' ''artifact_hi decode''
       (canonical_reader bytes)) (\<lambda>(hi, r).
     bind_result (need_dec GK_ARTIFACT_LO decode_u64 ''artifact_lo'' ''artifact_lo'' r) (\<lambda>(lo, r).
     bind_result (need_dec GK_GEN decode_u64 ''generation'' ''generation'' r) (\<lambda>(gen, r).
     bind_result (deserialize_backend r) (\<lambda>(bk, r).
     bind_result (deserialize_runtime r) (\<lambda>(rt, r).
     bind_result (deserialize_device r) (\<lambda>(dv, r).
     bind_result (deserialize_sync r) (\<lambda>(sy, r).
     bind_result (deserialize_provenance r) (\<lambda>(pv, r).
     bind_result (counted_dec GK_NODE_COUNT ''node_count'' ''node_count decode'' 8192
       GK_NODE ser_decode_node ''node'' ''node decode'' r) (\<lambda>(ns, r).
     bind_result (counted_dec GK_EDGE_COUNT ''edge_count'' ''edge_count decode'' 16384
       GK_EDGE ser_decode_edge ''edge'' ''edge decode'' r) (\<lambda>(es, r).
     bind_result (counted_dec GK_DEP_COUNT ''dep_count'' ''dep_count decode'' 8192
       GK_DEP ser_decode_dep ''dep'' ''dep decode'' r) (\<lambda>(ds, r).
     if \<not> cr_at_end r then failure EC_PersistenceTrailingGarbage ''trailing bytes after descriptor''
     else success (GraphDescriptor_default\<lparr>g_artifact := GraphArtifactId hi lo, g_generation := GraphGeneration gen,
            g_backend := bk, g_runtime := rt, g_device := dv, g_sync := sy, g_nodes := ns, g_edges := es,
            g_dependencies := ds, g_provenance := pv\<rparr>))))))))))))"

section \<open>Metadata\<close>

record PersistedMetadata =
  md_artifact :: GraphArtifactId
  md_generation :: GraphGeneration
  md_cache_generation :: CacheGeneration
  md_workload :: WorkloadIdentity
  md_artifact_size :: u64
  md_capture_cost_us :: u64
  md_instantiate_cost_us :: u64
  md_dependency_generation :: u64
  md_invalidated :: bool

definition PersistedMetadata_default :: PersistedMetadata where
  "PersistedMetadata_default = \<lparr>md_artifact = GraphArtifactId 0 0, md_generation = GraphGeneration 0,
     md_cache_generation = CacheGeneration 0, md_workload = WorkloadIdentity_default, md_artifact_size = 0,
     md_capture_cost_us = 0, md_instantiate_cost_us = 0, md_dependency_generation = 0, md_invalidated = False\<rparr>"

definition serialize_metadata :: "PersistedMetadata \<Rightarrow> bytes" where
  "serialize_metadata m =
     put_u64 MK_ARTIFACT_HI (aid_hi (md_artifact m))
   @ put_u64 MK_ARTIFACT_LO (aid_lo (md_artifact m))
   @ put_u64 MK_GEN (gg_value (md_generation m))
   @ put_u64 MK_CACHE_GEN (cg_value (md_cache_generation m))
   @ put_str MK_WL_NAME (wl_name (md_workload m))
   @ put_u32 MK_WL_VER (wl_version (md_workload m))
   @ put_str MK_WL_NS (wl_namespace (md_workload m))
   @ put_u32 MK_WL_REVMODE (WorkloadRevisionMode_code (wl_revision_mode (md_workload m)))
   @ put_str MK_WL_MODELREV (wl_model_revision (md_workload m))
   @ put_str MK_WL_POLICYGEN (wl_policy_generation (md_workload m))
   @ put_u64 MK_ARTIFACT_SIZE (md_artifact_size m)
   @ put_u64 MK_CAPTURE_COST (md_capture_cost_us m)
   @ put_u64 MK_INSTANTIATE_COST (md_instantiate_cost_us m)
   @ put_u64 MK_DEP_GEN (md_dependency_generation m)
   @ put_bool MK_INVALIDATED (md_invalidated m)"

definition deserialize_md_workload :: "CanonicalReader \<Rightarrow> (WorkloadIdentity \<times> CanonicalReader) Result" where
  "deserialize_md_workload r =
     bind_result (need_dec MK_WL_NAME decode_str ''md wl_name'' ''md wl_name'' r) (\<lambda>(nm, r).
     bind_result (need_dec MK_WL_VER decode_u32 ''md wl_ver'' ''md wl_ver decode'' r) (\<lambda>(v, r).
     bind_result (need_dec MK_WL_NS decode_str ''md wl_ns'' ''md wl_ns'' r) (\<lambda>(ns, r).
     bind_result (need_dec MK_WL_REVMODE (decode_enum WorkloadRevisionMode_of) ''md revmode'' ''md revmode decode'' r) (\<lambda>(rm, r).
     bind_result (need_dec MK_WL_MODELREV decode_str ''md modelrev'' ''md modelrev'' r) (\<lambda>(mr, r).
     bind_result (need_dec MK_WL_POLICYGEN decode_str ''md policygen'' ''md policygen'' r) (\<lambda>(pg, r).
     success (\<lparr>wl_name = nm, wl_version = v, wl_namespace = ns, wl_revision_mode = rm, wl_model_revision = mr,
               wl_policy_generation = pg\<rparr>, r)))))))"

definition deserialize_metadata :: "bytes \<Rightarrow> PersistedMetadata Result" where
  "deserialize_metadata bytes =
     bind_result (need_dec MK_ARTIFACT_HI decode_u64 ''md artifact_hi'' ''md artifact_hi'' (canonical_reader bytes)) (\<lambda>(hi, r).
     bind_result (need_dec MK_ARTIFACT_LO decode_u64 ''md artifact_lo'' ''md artifact_lo'' r) (\<lambda>(lo, r).
     bind_result (need_dec MK_GEN decode_u64 ''md gen'' ''md gen'' r) (\<lambda>(gen, r).
     bind_result (need_dec MK_CACHE_GEN decode_u64 ''md cache_gen'' ''md cache_gen'' r) (\<lambda>(cg, r).
     bind_result (deserialize_md_workload r) (\<lambda>(wl, r).
     bind_result (need_dec MK_ARTIFACT_SIZE decode_u64 ''md size'' ''md size'' r) (\<lambda>(sz, r).
     bind_result (need_dec MK_CAPTURE_COST decode_u64 ''md cap_cost'' ''md cap_cost'' r) (\<lambda>(cc, r).
     bind_result (need_dec MK_INSTANTIATE_COST decode_u64 ''md inst_cost'' ''md inst_cost'' r) (\<lambda>(ic, r).
     bind_result (need_dec MK_DEP_GEN decode_u64 ''md dep_gen'' ''md dep_gen'' r) (\<lambda>(dg, r).
     bind_result (need_dec MK_INVALIDATED lenient_bool ''md invalidated'' [] r) (\<lambda>(inv, r).
     if \<not> cr_at_end r then failure EC_PersistenceTrailingGarbage ''trailing bytes after metadata''
     else success \<lparr>md_artifact = GraphArtifactId hi lo, md_generation = GraphGeneration gen,
            md_cache_generation = CacheGeneration cg, md_workload = wl, md_artifact_size = sz,
            md_capture_cost_us = cc, md_instantiate_cost_us = ic, md_dependency_generation = dg,
            md_invalidated = inv\<rparr>))))))))))"

section \<open>Round trips of the nested blocks\<close>

definition ser_node_ok :: "GraphNodeDescriptor \<Rightarrow> bool" where
  "ser_node_ok n \<longleftrightarrow> node_encodable n \<and> length (sh_dims (n_shape n)) \<le> 4096 \<and> length (n_inputs n) \<le> 4096
     \<and> length (n_outputs n) \<le> 4096"

lemma decode_u64_list_u64s:
  assumes "length vs \<le> 4096"
  shows "decode_u64_list (u64s vs) = Some vs"
proof -
  have l: "length vs < 2 ^ 32" using assms by simp
  have "\<not> (word_of_nat (length vs) :: u32) > 4096"
    using assms u64s_parts(2) [OF l] by (simp add: word_less_nat_alt not_less)
  with u64s_parts [OF l] show ?thesis
    by (simp add: decode_u64_list_def u64s_length)
qed

lemma fits32_u64s_4096: "length vs \<le> 4096 \<Longrightarrow> fits32 (u64s vs)"
  by (simp add: fits32_u64s)

lemma map_ucast_ucast: "map (ucast \<circ> (ucast :: u32 \<Rightarrow> u64)) xs = xs"
  by (induction xs) (simp_all add: ucast_up_ucast_id is_up)

lemmas body_simps = ser_decode_node_body_def leaf_codecs decode_byte_def decode_u64_list_u64s

lemma node_consumes_head:
  assumes "ser_node_ok n"
  shows "consumes ser_decode_node_body (field GN_ID_HI (put_be_u64 (nid_hi (n_id n)))
      @ field GN_ID_LO (put_be_u64 (nid_lo (n_id n)))
      @ field GN_CAT (put_be_u32 (NodeCategory_code (n_category n)))
      @ field GN_NAME (bytes_of_string (n_name n)))
     (\<lambda>s. n_name_update (\<lambda>x. n_name n) (n_category_update (\<lambda>x. n_category n) (n_id_update (\<lambda>x. n_id n) s)))"
  using assms by (simp add: consumes_def loop_decode_field body_simps ser_node_ok_def node_encodable_def GraphNodeDescriptor.splits ncc.of_to)

lemma node_consumes_kernel:
  assumes "ser_node_ok n"
  shows "consumes ser_decode_node_body (if n_category n = NC_Kernel then field GN_K_NAME (bytes_of_string (k_name (n_kernel n)))
      @ field GN_K_HI (put_be_u64 (k_hi (n_kernel n)))
      @ field GN_K_LO (put_be_u64 (k_lo (n_kernel n)))
      @ field GN_K_GEN (put_be_u64 (gg_value (k_generation (n_kernel n))))
      @ field GN_K_ABI (put_be_u32 (k_abi (n_kernel n)))
      @ field GN_K_DIGEST (bytes_of_string (k_digest (n_kernel n)))
      @ field GN_K_CONTRIB [if k_contributes (n_kernel n) then 1 else 0]
      @ field GN_GRIDX (put_be_u32 (lg_grid_x (n_launch n)))
      @ field GN_GRIDY (put_be_u32 (lg_grid_y (n_launch n)))
      @ field GN_GRIDZ (put_be_u32 (lg_grid_z (n_launch n)))
      @ field GN_BLKX (put_be_u32 (lg_block_x (n_launch n)))
      @ field GN_BLKY (put_be_u32 (lg_block_y (n_launch n)))
      @ field GN_BLKZ (put_be_u32 (lg_block_z (n_launch n)))
      @ field GN_SMEM (put_be_u32 (lg_shared_memory (n_launch n))) else [])
     (\<lambda>s. n_launch_update (\<lambda>x. if n_category n = NC_Kernel then x\<lparr>lg_grid_x := lg_grid_x (n_launch n), lg_grid_y := lg_grid_y (n_launch n), lg_grid_z := lg_grid_z (n_launch n), lg_block_x := lg_block_x (n_launch n), lg_block_y := lg_block_y (n_launch n), lg_block_z := lg_block_z (n_launch n), lg_shared_memory := lg_shared_memory (n_launch n)\<rparr> else x) (n_kernel_update (\<lambda>x. if n_category n = NC_Kernel then x\<lparr>k_name := k_name (n_kernel n), k_hi := k_hi (n_kernel n), k_lo := k_lo (n_kernel n), k_generation := k_generation (n_kernel n), k_abi := k_abi (n_kernel n), k_digest := k_digest (n_kernel n), k_contributes := k_contributes (n_kernel n)\<rparr> else x) s))"
    (is "consumes _ (if _ then ?d else []) ?f")
proof (rule consumes_if)
  show "consumes ser_decode_node_body ?d ?f" if "n_category n = NC_Kernel"
    using that assms by (simp add: consumes_def loop_decode_field body_simps ser_node_ok_def node_encodable_def GraphNodeDescriptor.splits)
qed (simp add: GraphNodeDescriptor.splits)

lemma node_consumes_membytes:
  assumes "ser_node_ok n"
  shows "consumes ser_decode_node_body (field GN_MEMBYTES (put_be_u64 (n_memory_bytes n)))
     (\<lambda>s. n_memory_bytes_update (\<lambda>x. n_memory_bytes n) s)"
  using assms by (simp add: consumes_def loop_decode_field body_simps ser_node_ok_def node_encodable_def GraphNodeDescriptor.splits)

lemma node_consumes_memset:
  assumes "ser_node_ok n"
  shows "consumes ser_decode_node_body (if n_category n = NC_MemorySet then field GN_MSET [n_memset_value n] else [])
     (\<lambda>s. n_memset_value_update (\<lambda>x. if n_category n = NC_MemorySet then n_memset_value n else x) s)"
    (is "consumes _ (if _ then ?d else []) ?f")
proof (rule consumes_if)
  show "consumes ser_decode_node_body ?d ?f" if "n_category n = NC_MemorySet"
    using that assms by (simp add: consumes_def loop_decode_field body_simps ser_node_ok_def node_encodable_def GraphNodeDescriptor.splits)
qed (simp add: GraphNodeDescriptor.splits)

lemma node_consumes_dims:
  assumes "ser_node_ok n"
  shows "consumes ser_decode_node_body (if sh_dims (n_shape n) \<noteq> [] then field GN_DIMS (u64s (sh_dims (n_shape n))) else [])
     (\<lambda>s. n_shape_update (\<lambda>x. x\<lparr>sh_dims := sh_dims x @ sh_dims (n_shape n)\<rparr>) s)"
    (is "consumes _ (if _ then ?d else []) ?f")
proof (rule consumes_if)
  show "consumes ser_decode_node_body ?d ?f" if "sh_dims (n_shape n) \<noteq> []"
    using that assms by (simp add: consumes_def loop_decode_field body_simps ser_node_ok_def node_encodable_def GraphNodeDescriptor.splits fits32_u64s_4096)
qed (simp add: GraphNodeDescriptor.splits)

lemma node_consumes_dynamic:
  assumes "ser_node_ok n"
  shows "consumes ser_decode_node_body (field GN_DYNAMIC [if sh_dynamic (n_shape n) then 1 else 0])
     (\<lambda>s. n_shape_update (\<lambda>x. x\<lparr>sh_dynamic := sh_dynamic (n_shape n)\<rparr>) s)"
  using assms by (simp add: consumes_def loop_decode_field body_simps ser_node_ok_def node_encodable_def GraphNodeDescriptor.splits)

lemma node_consumes_maxrank:
  assumes "ser_node_ok n"
  shows "consumes ser_decode_node_body (if sh_max_rank (n_shape n) \<noteq> 0 then field GN_MAXRANK (put_be_u32 (sh_max_rank (n_shape n))) else [])
     (\<lambda>s. n_shape_update (\<lambda>x. x\<lparr>sh_max_rank := if sh_max_rank (n_shape n) \<noteq> 0 then sh_max_rank (n_shape n) else sh_max_rank x\<rparr>) s)"
    (is "consumes _ (if _ then ?d else []) ?f")
proof (rule consumes_if)
  show "consumes ser_decode_node_body ?d ?f" if "sh_max_rank (n_shape n) \<noteq> 0"
    using that assms by (simp add: consumes_def loop_decode_field body_simps ser_node_ok_def node_encodable_def GraphNodeDescriptor.splits)
qed (simp add: GraphNodeDescriptor.splits)

lemma node_consumes_type:
  assumes "ser_node_ok n"
  shows "consumes ser_decode_node_body (field GN_DTYPE (put_be_u32 (Datatype_code (n_datatype n)))
      @ field GN_LAYOUT (put_be_u32 (TensorLayout_code (n_layout n))))
     (\<lambda>s. n_layout_update (\<lambda>x. n_layout n) (n_datatype_update (\<lambda>x. n_datatype n) s))"
  using assms by (simp add: consumes_def loop_decode_field body_simps ser_node_ok_def node_encodable_def GraphNodeDescriptor.splits dtc.of_to tlc.of_to)

lemma node_consumes_typed:
  assumes "ser_node_ok n"
  shows "consumes ser_decode_node_body
     (if n_datatype n \<noteq> DT_None then
        (if sh_dims (n_shape n) \<noteq> [] then field GN_DIMS (u64s (sh_dims (n_shape n))) else [])
      @ field GN_DYNAMIC [if sh_dynamic (n_shape n) then 1 else 0]
      @ (if sh_max_rank (n_shape n) \<noteq> 0 then field GN_MAXRANK (put_be_u32 (sh_max_rank (n_shape n))) else [])
      @ field GN_DTYPE (put_be_u32 (Datatype_code (n_datatype n)))
      @ field GN_LAYOUT (put_be_u32 (TensorLayout_code (n_layout n)))
      else [])
     (\<lambda>s. n_layout_update (\<lambda>x. if n_datatype n \<noteq> DT_None then n_layout n else x) (n_datatype_update (\<lambda>x. if n_datatype n \<noteq> DT_None then n_datatype n else x) (n_shape_update (\<lambda>x. if n_datatype n \<noteq> DT_None then x\<lparr>sh_dims := sh_dims x @ sh_dims (n_shape n), sh_dynamic := sh_dynamic (n_shape n),
        sh_max_rank := if sh_max_rank (n_shape n) \<noteq> 0 then sh_max_rank (n_shape n) else sh_max_rank x\<rparr> else x) s)))"
    (is "consumes _ (if _ then ?d else []) ?f")
proof (rule consumes_if)
  show "consumes ser_decode_node_body ?d ?f" if "n_datatype n \<noteq> DT_None"
    by (rule consumes_cong [OF consumes_append [OF node_consumes_dims [OF assms]
          consumes_append [OF node_consumes_dynamic [OF assms] consumes_append [OF node_consumes_maxrank [OF assms]
          node_consumes_type [OF assms]]]]]) (simp add: that GraphNodeDescriptor.splits)
qed (simp add: GraphNodeDescriptor.splits)

lemma node_consumes_scalar:
  assumes "ser_node_ok n"
  shows "consumes ser_decode_node_body (if sc_specialized (n_scalar n) then field GN_SCALAR_SPEC [if True then 1 else 0]
      @ field GN_SCALAR_INT (put_be_u64 (sc_int (n_scalar n)))
      @ field GN_SCALAR_FLOAT (put_be_u64 (sc_float (n_scalar n))) else [])
     (\<lambda>s. n_scalar_update (\<lambda>x. if sc_specialized (n_scalar n) then x\<lparr>sc_specialized := True, sc_int := sc_int (n_scalar n), sc_float := sc_float (n_scalar n)\<rparr> else x) s)"
    (is "consumes _ (if _ then ?d else []) ?f")
proof (rule consumes_if)
  show "consumes ser_decode_node_body ?d ?f" if "sc_specialized (n_scalar n)"
    using that assms by (simp add: consumes_def loop_decode_field body_simps ser_node_ok_def node_encodable_def GraphNodeDescriptor.splits)
qed (simp add: GraphNodeDescriptor.splits)

lemma node_consumes_qmode:
  assumes "ser_node_ok n"
  shows "consumes ser_decode_node_body (field GN_Q_MODE (put_be_u32 (QuantizationMode_code (q_mode (n_quantization n)))))
     (\<lambda>s. n_quantization_update (\<lambda>x. x\<lparr>q_mode := q_mode (n_quantization n)\<rparr>) s)"
  using assms by (simp add: consumes_def loop_decode_field body_simps ser_node_ok_def node_encodable_def GraphNodeDescriptor.splits qmc.of_to)

lemma node_consumes_quant:
  assumes "ser_node_ok n"
  shows "consumes ser_decode_node_body (if q_mode (n_quantization n) \<noteq> QM_None then field GN_Q_GROUP (put_be_u32 (q_group_size (n_quantization n)))
      @ field GN_Q_SYM [if q_symmetric (n_quantization n) then 1 else 0]
      @ field GN_Q_SCHEME (bytes_of_string (q_custom_scheme (n_quantization n))) else [])
     (\<lambda>s. n_quantization_update (\<lambda>x. if q_mode (n_quantization n) \<noteq> QM_None then x\<lparr>q_group_size := q_group_size (n_quantization n), q_symmetric := q_symmetric (n_quantization n), q_custom_scheme := q_custom_scheme (n_quantization n)\<rparr> else x) s)"
    (is "consumes _ (if _ then ?d else []) ?f")
proof (rule consumes_if)
  show "consumes ser_decode_node_body ?d ?f" if "q_mode (n_quantization n) \<noteq> QM_None"
    using that assms by (simp add: consumes_def loop_decode_field body_simps ser_node_ok_def node_encodable_def GraphNodeDescriptor.splits)
qed (simp add: GraphNodeDescriptor.splits)

lemma node_consumes_binding:
  assumes "ser_node_ok n"
  shows "consumes ser_decode_node_body (field GN_BIND_CLASS (put_be_u32 (BindingClass_code (bd_class (n_binding n))))
      @ field GN_BIND_ALIGN (put_be_u32 (bd_alignment (n_binding n)))
      @ field GN_BIND_SCHEMA (bytes_of_string (bd_schema (n_binding n)))
      @ field GN_BIND_ELIGIBLE [if bd_rebinding_eligible (n_binding n) then 1 else 0]
      @ field GN_REQ_ALIGN (put_be_u64 (n_required_alignment n)))
     (\<lambda>s. n_required_alignment_update (\<lambda>x. n_required_alignment n) (n_binding_update (\<lambda>x. x\<lparr>bd_class := bd_class (n_binding n), bd_alignment := bd_alignment (n_binding n), bd_schema := bd_schema (n_binding n), bd_rebinding_eligible := bd_rebinding_eligible (n_binding n)\<rparr>) s))"
  using assms by (simp add: consumes_def loop_decode_field body_simps ser_node_ok_def node_encodable_def GraphNodeDescriptor.splits bcc.of_to)

lemma node_consumes_child:
  assumes "ser_node_ok n"
  shows "consumes ser_decode_node_body (if n_child_lo n \<noteq> 0 then field GN_CHILD_HI (put_be_u64 (n_child_hi n))
      @ field GN_CHILD_LO (put_be_u64 (n_child_lo n)) else [])
     (\<lambda>s. n_child_lo_update (\<lambda>x. if n_child_lo n \<noteq> 0 then n_child_lo n else x) (n_child_hi_update (\<lambda>x. if n_child_lo n \<noteq> 0 then n_child_hi n else x) s))"
    (is "consumes _ (if _ then ?d else []) ?f")
proof (rule consumes_if)
  show "consumes ser_decode_node_body ?d ?f" if "n_child_lo n \<noteq> 0"
    using that assms by (simp add: consumes_def loop_decode_field body_simps ser_node_ok_def node_encodable_def GraphNodeDescriptor.splits)
qed (simp add: GraphNodeDescriptor.splits)

lemma node_consumes_inputs:
  assumes "ser_node_ok n"
  shows "consumes ser_decode_node_body (if n_inputs n \<noteq> [] then field GN_IN_INDICES (u64s (map ucast (n_inputs n))) else [])
     (\<lambda>s. n_inputs_update (\<lambda>x. x @ n_inputs n) s)"
    (is "consumes _ (if _ then ?d else []) ?f")
proof (rule consumes_if)
  show "consumes ser_decode_node_body ?d ?f" if "n_inputs n \<noteq> []"
    using that assms by (simp add: consumes_def loop_decode_field body_simps ser_node_ok_def node_encodable_def GraphNodeDescriptor.splits fits32_u64s_4096 map_ucast_ucast)
qed (simp add: GraphNodeDescriptor.splits)

lemma node_consumes_outputs:
  assumes "ser_node_ok n"
  shows "consumes ser_decode_node_body (if n_outputs n \<noteq> [] then field GN_OUT_INDICES (u64s (map ucast (n_outputs n))) else [])
     (\<lambda>s. n_outputs_update (\<lambda>x. x @ n_outputs n) s)"
    (is "consumes _ (if _ then ?d else []) ?f")
proof (rule consumes_if)
  show "consumes ser_decode_node_body ?d ?f" if "n_outputs n \<noteq> []"
    using that assms by (simp add: consumes_def loop_decode_field body_simps ser_node_ok_def node_encodable_def GraphNodeDescriptor.splits fits32_u64s_4096 map_ucast_ucast)
qed (simp add: GraphNodeDescriptor.splits)

lemma node_consumes_opaque:
  assumes "ser_node_ok n"
  shows "consumes ser_decode_node_body (if n_opaque n \<noteq> [] then field GN_OPAQUE (n_opaque n) else [])
     (\<lambda>s. n_opaque_update (\<lambda>x. if n_opaque n \<noteq> [] then n_opaque n else x) s)"
    (is "consumes _ (if _ then ?d else []) ?f")
proof (rule consumes_if)
  show "consumes ser_decode_node_body ?d ?f" if "n_opaque n \<noteq> []"
    using that assms by (simp add: consumes_def loop_decode_field body_simps ser_node_ok_def node_encodable_def GraphNodeDescriptor.splits)
qed (simp add: GraphNodeDescriptor.splits)

text \<open>The blocks in the order of the encoder, and the state the loop ends in.\<close>

lemma node_consumes_all:
  assumes "ser_node_ok n"
  shows "loop_decode ser_decode_node_body (ser_encode_node n) GraphNodeDescriptor_default = Some (node_view n)"
proof -
  note app = consumes_append
  note all = app [OF node_consumes_head [OF assms] app [OF node_consumes_kernel [OF assms]
      app [OF node_consumes_membytes [OF assms] app [OF node_consumes_memset [OF assms]
      app [OF node_consumes_typed [OF assms] app [OF node_consumes_scalar [OF assms]
      app [OF node_consumes_qmode [OF assms] app [OF node_consumes_quant [OF assms]
      app [OF node_consumes_binding [OF assms] app [OF node_consumes_child [OF assms]
      app [OF node_consumes_inputs [OF assms] app [OF node_consumes_outputs [OF assms]
      node_consumes_opaque [OF assms]]]]]]]]]]]]]
  show ?thesis
    unfolding ser_encode_node_def put_u64_list_field put_is_field(1-9) append_assoc
      consumes_decode [OF all, unfolded append_assoc]
    by (intro arg_cong [of _ _ Some] GraphNodeDescriptor.equality)
      (simp_all add: node_view_def GraphNodeDescriptor_default_def KernelIdentityRef_default_def
        LaunchGeometry_default_def ShapeDescriptor_default_def ScalarSpecialization_default_def
        QuantizationConfig_default_def BindingDescriptor_default_def)
qed

lemma ser_decode_encode_node: "ser_node_ok n \<Longrightarrow> ser_decode_node (ser_encode_node n) = Some (node_view n)"
  by (simp add: ser_decode_node_def node_consumes_all)

lemma ser_decode_encode_edge: "edge_encodable e \<Longrightarrow> ser_decode_edge (ser_encode_edge e) = Some e"
proof -
  assume "edge_encodable e"
  then have "fits32 (e_label e)" "DependencyKind_named (e_kind e)" by (simp_all add: edge_encodable_def)
  then show ?thesis
    unfolding ser_decode_edge_def ser_encode_edge_def put_is_field append_assoc
    by (simp add: loop_decode_field loop_decode_last ser_decode_edge_body_def leaf_codecs dkc.of_to
        GraphEdgeDescriptor_default_def)
qed

lemma ser_decode_encode_dep: "dep_ok d \<Longrightarrow> ser_decode_dep (ser_encode_dep d) = Some (dep_view d)"
proof -
  have "ser_decode_dep_body = decode_dep_body"
    by (simp add: fun_eq_iff ser_decode_dep_body_def decode_dep_body_def)
  moreover have "ser_encode_dep d = encode_dep d"
    by (simp add: ser_encode_dep_def encode_dep_def)
  moreover assume "dep_ok d"
  ultimately show ?thesis using decode_encode_dep by (simp add: ser_decode_dep_def decode_dep_def)
qed

interpretation gnode: block_codec GK_NODE ser_encode_node ser_decode_node ser_node_ok node_view
  by unfold_locales (rule ser_decode_encode_node)

interpretation gedge: block_codec GK_EDGE ser_encode_edge ser_decode_edge edge_encodable "\<lambda>e. e"
  by unfold_locales (rule ser_decode_encode_edge)

interpretation gdep: block_codec GK_DEP ser_encode_dep ser_decode_dep dep_ok dep_view
  by unfold_locales (rule ser_decode_encode_dep)

section \<open>Round trips of descriptors and metadata\<close>

lemma need_dec_read:
  "need_dec t dec m1 m2 r = (case read_field t dec r of Some x \<Rightarrow> success x
     | None \<Rightarrow> (case cr_need t r of None \<Rightarrow> failure EC_PersistenceCorrupt m1 | Some _ \<Rightarrow> failure EC_PersistenceCorrupt m2))"
  by (auto simp: need_dec_def need_def read_field_def split: option.splits)

lemma many_dec_read: "read_many n (read_field t dec) r = Some x \<Longrightarrow> many_dec n t dec m1 m2 r = success x"
proof (induction n arbitrary: r x)
  case (Suc n)
  then obtain v r1 where v: "read_field t dec r = Some (v, r1)" by (auto split: Option.bind_splits)
  with Suc.prems obtain vs r2 where vs: "read_many n (read_field t dec) r1 = Some (vs, r2)" "x = (v # vs, r2)"
    by (auto split: Option.bind_splits)
  with Suc.IH [OF vs(1)] v show ?case by (simp add: need_dec_read)
qed simp

lemma counted_dec_read:
  "read_counted ct limit (read_field t dec) r = Some x \<Longrightarrow> counted_dec ct c1 c2 limit t dec m1 m2 r = success x"
  by (auto simp: read_counted_def counted_dec_def need_dec_read many_dec_read split: Option.bind_splits if_splits)

lemma read_lenient_bool [codec_simps]:
  "read_field t lenient_bool (canonical_reader (put_bool t b @ rest)) = Some (b, canonical_reader rest)"
  by (simp add: read_field_def put_is_field cr_need_field lenient_bool_def)

definition provenance_ok :: "ProvenanceDescriptor \<Rightarrow> bool" where
  "provenance_ok p \<longleftrightarrow> fits32 (pv_source p) \<and> fits32 (pv_toolchain p) \<and> fits32 (pv_graph_name p)"

definition descriptor_ok :: "GraphDescriptor \<Rightarrow> bool" where
  "descriptor_ok g \<longleftrightarrow> backend_ok (g_backend g) \<and> device_ok (g_device g)
     \<and> CaptureMode_named (sy_capture_mode (g_sync g)) \<and> StreamSemantics_named (sy_stream_semantics (g_sync g))
     \<and> provenance_ok (g_provenance g)
     \<and> length (g_nodes g) \<le> 8192 \<and> list_all (\<lambda>n. ser_node_ok n \<and> fits32 (ser_encode_node n)) (g_nodes g)
     \<and> length (g_edges g) \<le> 16384 \<and> list_all (\<lambda>e. edge_encodable e \<and> fits32 (ser_encode_edge e)) (g_edges g)
     \<and> length (g_dependencies g) \<le> 8192 \<and> list_all (\<lambda>d. dep_ok d \<and> fits32 (ser_encode_dep d)) (g_dependencies g)"

text \<open>What is read back: the digests are derived data and left to \<open>finalize\<close>.\<close>

definition descriptor_view :: "GraphDescriptor \<Rightarrow> GraphDescriptor" where
  "descriptor_view g = g\<lparr>g_runtime := runtime_view (g_runtime g), g_nodes := map node_view (g_nodes g),
     g_dependencies := map dep_view (g_dependencies g),
     g_topology_canonical := [], g_topology_digest := replicate 32 0,
     g_semantic_canonical := [], g_semantic_digest := replicate 32 0\<rparr>"

text \<open>The tail of the stream: what follows the last dependency decides between success and trailing garbage.\<close>

lemma deserialize_serialize_rest:
  assumes "descriptor_ok g"
  shows "deserialize_descriptor (serialize_descriptor g @ rest) =
     (if rest \<noteq> [] then failure EC_PersistenceTrailingGarbage ''trailing bytes after descriptor''
      else success (descriptor_view g))"
proof -
  note ok = assms [unfolded descriptor_ok_def backend_ok_def device_ok_def provenance_ok_def]
  note counted = counted_dec_read [OF gnode.outer.read_counted_enc] counted_dec_read [OF gedge.outer.read_counted_enc]
    counted_dec_read [OF gdep.outer.read_counted_enc]
  show ?thesis
    using ok
    by (simp add: deserialize_descriptor_def serialize_descriptor_def deserialize_backend_def deserialize_runtime_def
        deserialize_device_def deserialize_sync_def deserialize_provenance_def need_dec_read read_put read_put_enum
        read_lenient_bool bkc.of_to avc.of_to cmc.of_to ssc.of_to counted)
      (simp add: cr_at_end_def canonical_reader_def descriptor_view_def GraphDescriptor_default_def
        RuntimeDescriptor_default_def runtime_view_def)
qed

text \<open>
  C16: a serialized graph descriptor within the limits of the format (\<open>descriptor_ok\<close>: at most
  8192 nodes, 16384 edges and 8192 dependencies, lists of at most 4096 numbers, named enumerators, members
  below 4 GiB) is read back unchanged, up to the fields the format does not carry (the driver's display
  string, dependency provenance, the members of a node its category leaves unused, and the digests, which
  are recomputed), and anything appended to it is rejected as trailing garbage. The writer does not check
  these limits: it writes larger graphs, which the reader rejects.
\<close>

theorem descriptor_roundtrip:
  assumes "descriptor_ok g"
  shows "deserialize_descriptor (serialize_descriptor g) = success (descriptor_view g)
     \<and> deserialize_descriptor (serialize_descriptor g @ b # extra)
         = failure EC_PersistenceTrailingGarbage ''trailing bytes after descriptor''"
  using deserialize_serialize_rest [OF assms, of "[]"] deserialize_serialize_rest [OF assms, of "b # extra"] by simp

lemma descriptor_ok_default: "descriptor_ok GraphDescriptor_default"
  by (simp add: descriptor_ok_def GraphDescriptor_default_def backend_ok_def device_ok_def provenance_ok_def
      BackendIdentity_default_def DeviceDescriptor_default_def SynchronizationDescriptor_default_def
      ProvenanceDescriptor_default_def fits32_def)

definition example_descriptor :: GraphDescriptor where
  "example_descriptor = GraphDescriptor_default\<lparr>g_edges := [example_edge 1 1 2]\<rparr>"

lemma descriptor_roundtrip_witness:
  "deserialize_descriptor (serialize_descriptor example_descriptor) = success example_descriptor"
proof -
  have "descriptor_ok example_descriptor"
    using descriptor_ok_default
    by (simp add: descriptor_ok_def example_descriptor_def edge_encodable_def example_simps fits32_def
        ser_encode_edge_def put_is_field)
  then show ?thesis
    using descriptor_roundtrip [of example_descriptor]
    by (simp add: descriptor_view_def example_descriptor_def GraphDescriptor_default_def runtime_view_def
        RuntimeDescriptor_default_def)
qed

lemma deserialize_metadata_rest:
  assumes "workload_ok (md_workload m)"
  shows "deserialize_metadata (serialize_metadata m @ rest) =
     (if rest \<noteq> [] then failure EC_PersistenceTrailingGarbage ''trailing bytes after metadata'' else success m)"
  using assms [unfolded workload_ok_def]
  by (simp add: deserialize_metadata_def serialize_metadata_def deserialize_md_workload_def need_dec_read read_put
      read_put_enum read_lenient_bool wrc.of_to)
    (simp add: cr_at_end_def canonical_reader_def)

text \<open>
  persisted cache-entry metadata is read back exactly, and anything appended to it is rejected.
\<close>

theorem metadata_roundtrip:
  assumes "workload_ok (md_workload m)"
  shows "deserialize_metadata (serialize_metadata m) = success m
     \<and> deserialize_metadata (serialize_metadata m @ b # extra)
         = failure EC_PersistenceTrailingGarbage ''trailing bytes after metadata''"
  using deserialize_metadata_rest [OF assms, of "[]"] deserialize_metadata_rest [OF assms, of "b # extra"] by simp

lemma metadata_roundtrip_witness:
  "deserialize_metadata (serialize_metadata (PersistedMetadata_default\<lparr>md_invalidated := True\<rparr>))
     = success (PersistedMetadata_default\<lparr>md_invalidated := True\<rparr>)"
  using metadata_roundtrip [of "PersistedMetadata_default\<lparr>md_invalidated := True\<rparr>"]
  by (simp add: PersistedMetadata_default_def WorkloadIdentity_default_def workload_ok_def fits32_def)

section \<open>Identity across a round trip\<close>

lemma sort_key_map_view: "sort_key n_id (map node_view ns) = map node_view (sort_key n_id ns)"
proof -
  have "insort_key n_id (node_view n) (map node_view ms) = map node_view (insort_key n_id n ms)" for n ms
    by (induction ms) (simp_all add: node_view_def)
  then show ?thesis by (induction ns) simp_all
qed

lemma encode_node_view: "encode_node (node_view n) = encode_node n"
proof -
  have "n_id (node_view n) = n_id n" by (simp add: node_view_def)
  then show ?thesis by (simp add: encode_node_fields node_fields_def node_tail_view)
qed

lemma canonical_topology_view: "canonical_topology (map node_view ns) es = canonical_topology ns es"
  by (simp add: canonical_topology_def sort_key_map_view encode_node_view o_def)

lemma canonical_semantic_view: "canonical_semantic (descriptor_view g) = canonical_semantic g"
  by (simp add: canonical_semantic_def descriptor_view_def canonical_topology_view o_def encode_semantic_dep_def
      dep_view_def runtime_view_def)

lemma topology_ok_view: "topology_ok (map node_view ns) es = topology_ok ns es"
proof -
  have "map n_id (map node_view ns) = map n_id ns" "n_id ` set (map node_view ns) = n_id ` set ns"
    by (simp_all add: node_view_def image_image)
  then show ?thesis by (simp only: topology_ok_def topology_shape_def)
qed

text \<open>
  Identity survives persistence: a finalized graph that is serialized, read back and finalized
  again has the same canonical topology and semantic bytes, the same digests and the same
  artifact identity.
\<close>

theorem identity_survives_roundtrip:
  assumes ord: "\<And>xs. mset (ord xs) = mset xs" and fin: "finalize ord g = success h" and ok: "descriptor_ok h"
  shows "\<exists>d h'. deserialize_descriptor (serialize_descriptor h) = success d \<and> finalize ord d = success h'
     \<and> g_topology_canonical h' = g_topology_canonical h \<and> g_topology_digest h' = g_topology_digest h
     \<and> g_semantic_canonical h' = g_semantic_canonical h \<and> g_semantic_digest h' = g_semantic_digest h
     \<and> g_artifact h' = g_artifact h"
proof -
  let ?d = "descriptor_view h"
  have des: "deserialize_descriptor (serialize_descriptor h) = success ?d"
    using deserialize_serialize_rest [OF ok, of "[]"] by simp
  have h: "h = finalized g" and "topology_ok (g_nodes g) (g_edges g)"
    using finalize_Inr [OF fin] fin validate_topology_iff [OF ord, of "g_nodes g" "g_edges g"]
    by (simp_all add: finalize_eq validate_graph_def)
  then have "topology_ok (g_nodes h) (g_edges h)"
    using topology_ok_mset [of "g_nodes h" "g_nodes g" "g_edges h" "g_edges g"]
    by (simp add: finalized_def canonicalize_topology_def)
  then have "validate_graph ord ?d = success ()"
    using validate_topology_iff [OF ord, of "g_nodes ?d" "g_edges ?d"]
    by (simp add: validate_graph_def descriptor_view_def topology_ok_view)
  then have "finalize ord ?d = success (finalized ?d)" by (simp add: finalize_eq)
  moreover have "canonical_topology (g_nodes ?d) (g_edges ?d) = canonical_topology (g_nodes g) (g_edges g)"
    by (simp add: descriptor_view_def canonical_topology_view h finalized_def canonicalize_topology_def)
  moreover have sem: "canonical_semantic ?d = canonical_semantic g"
    by (simp add: canonical_semantic_view h)
  moreover have "g_artifact ?d = g_artifact h" by (simp add: descriptor_view_def)
  moreover have "g_artifact (finalized ?d) = g_artifact h"
    using sem \<open>g_artifact ?d = g_artifact h\<close> by (simp add: finalized_fields(7) h)
  ultimately show ?thesis
    using des by (intro exI [of _ ?d] exI [of _ "finalized ?d"]) (simp add: finalized_fields h)
qed

lemma identity_survives_roundtrip_witness:
  "\<exists>d h'. deserialize_descriptor (serialize_descriptor (finalized GraphDescriptor_default)) = success d
     \<and> finalize rev d = success h' \<and> g_artifact h' = g_artifact (finalized GraphDescriptor_default)"
proof -
  have "finalize rev GraphDescriptor_default = success (finalized GraphDescriptor_default)"
    by (simp add: finalize_eq validate_graph_def validate_topology_def GraphDescriptor_default_def in_degree_def Let_def)
  moreover have "descriptor_ok (finalized GraphDescriptor_default)"
    using descriptor_ok_default
    by (simp add: descriptor_ok_def finalized_def canonicalize_topology_def GraphDescriptor_default_def)
  ultimately show ?thesis using identity_survives_roundtrip [of rev] by fastforce
qed

end
