(* ===== verification/GC_Persistence.thy ===== *)
theory GC_Persistence
  imports GC_Topology
begin

text \<open>
  The artifact store of \<open>src/persistence.cpp\<close>: checksummed envelopes in one file per artifact.

  The directory is a map from file names to contents. What the operating system may do to a \<open>put\<close> is the
  datatype \<open>put_io\<close>: the temporary file cannot be opened, is written only in part, or cannot be
  renamed. \<open>parse_envelope\<close> keeps the 32-bit arithmetic of the length checks; its outcome \<open>None\<close> is the
  undefined behaviour of copying a payload that reaches past the end of the data, which
  \<open>parse_envelope_defined\<close> excludes for every format version but one.

  The contract the cache relies on is the locale \<open>artifact_store\<close>: the store is a finite map.
\<close>

section \<open>File names\<close>

definition id_to_hex :: "GraphArtifactId \<Rightarrow> string" where
  "id_to_hex i = hex16 (aid_hi i) @ hex16 (aid_lo i)"

definition hex_val :: "char \<Rightarrow> nat" where
  "hex_val ch = (let c = of_char ch in
     if 48 \<le> c \<and> c \<le> 57 then c - 48
     else if 97 \<le> c \<and> c \<le> 102 then c - 97 + 10
     else if 65 \<le> c \<and> c \<le> 70 then c - 65 + 10
     else 16)"

fun parse16 :: "u64 \<Rightarrow> string \<Rightarrow> u64" where
  "parse16 v [] = v"
| "parse16 v (c # cs) = (if hex_val c > 15 then 0 else parse16 (push_bit 4 v OR word_of_nat (hex_val c)) cs)"

definition hex_to_id :: "string \<Rightarrow> GraphArtifactId option" where
  "hex_to_id s = (if length s \<noteq> 32 then None
     else if list_ex (\<lambda>c. hex_val c > 15) s then None
     else Some (GraphArtifactId (parse16 0 (take 16 s)) (parse16 0 (drop 16 s))))"

definition file_for :: "GraphArtifactId \<Rightarrow> string" where
  "file_for i = ''gc-'' @ id_to_hex i @ ''.gcf''"

definition temp_for :: "GraphArtifactId \<Rightarrow> string" where
  "temp_for i = ''gc-'' @ id_to_hex i @ ''.tmp''"

lemma id_to_hex_length [simp]: "length (id_to_hex i) = 32"
  by (simp add: id_to_hex_def)

lemma id_to_hex_inject [simp]: "id_to_hex i = id_to_hex j \<longleftrightarrow> i = j"
  by (auto simp: id_to_hex_def dest!: hex16_inj intro: GraphArtifactId.expand)

lemma file_for_inject [simp]: "file_for i = file_for j \<longleftrightarrow> i = j"
  by (simp add: file_for_def)

lemma file_not_temp [simp]: "file_for i \<noteq> temp_for j"
  by (simp add: file_for_def temp_for_def)

lemma hex_val_digit: "d < 16 \<Longrightarrow> hex_val (digit_char d) = d"
  by (auto simp: hex_val_def digit_char_def Let_def)

lemma parse16_digits:
  "(\<And>d. d \<in> set ds \<Longrightarrow> unat d < 16) \<Longrightarrow>
     parse16 v (map (\<lambda>d. digit_char (unat d)) ds) = foldl (\<lambda>v d. push_bit 4 v OR d) v ds"
proof (induction ds arbitrary: v)
  case (Cons d ds)
  have d: "unat d < 16" using Cons.prems by simp
  then have "hex_val (digit_char (unat d)) = unat d" by (rule hex_val_digit)
  moreover have "parse16 w (map (\<lambda>d. digit_char (unat d)) ds) = foldl (\<lambda>v d. push_bit 4 v OR d) w ds" for w
    using Cons by simp
  ultimately show ?case using d by simp
qed simp

lemma parse16_hex16: "parse16 0 (hex16 v) = v"
  using parse16_digits [of "nibbles 16 v" 0] nibbles_less nibbles_val_nibbles [of v]
  by (simp add: hex16_def nibbles_val_def)

lemma hex16_digits: "\<not> list_ex (\<lambda>c. hex_val c > 15) (hex16 v)"
proof -
  have "hex_val (digit_char (unat d)) < 16" if "d \<in> set (nibbles 16 v)" for d
    using nibbles_less [OF that] by (simp add: hex_val_digit)
  then show ?thesis by (fastforce simp: hex16_def list_ex_iff)
qed

lemma hex_to_id_to_hex: "hex_to_id (id_to_hex i) = Some i"
  using hex16_digits by (simp add: hex_to_id_def id_to_hex_def parse16_hex16)

section \<open>Envelopes\<close>

definition kMagic :: u32 where "kMagic = 0x47434652"
definition kFormatVersion :: u32 where "kFormatVersion = 1"
definition kChecksumLen :: nat where "kChecksumLen = 32"

definition push_u32 :: "u32 \<Rightarrow> bytes" where
  "push_u32 v = [ucast (drop_bit 24 v AND 0xff), ucast (drop_bit 16 v AND 0xff),
     ucast (drop_bit 8 v AND 0xff), ucast (v AND 0xff)]"

definition build_envelope :: "u32 \<Rightarrow> bytes \<Rightarrow> bytes" where
  "build_envelope version payload =
     push_u32 kMagic @ push_u32 version @ push_u32 (word_of_nat (length payload)) @ payload
   @ push_u32 (word_of_nat kChecksumLen) @ sha_compute payload"

definition rd_u32 :: "bytes \<Rightarrow> nat \<Rightarrow> u32 option" where
  "rd_u32 data off = (if off + 4 > length data then None else Some (rd_be_u32 data off))"

definition parse_envelope :: "u32 \<Rightarrow> bytes \<Rightarrow> (ErrorCode + bytes) option" where
  "parse_envelope version data =
     (if length data < 16 then Some (Inl EC_PersistenceTruncated) else
      case rd_u32 data 0 of None \<Rightarrow> Some (Inl EC_PersistenceTruncated) | Some magic \<Rightarrow>
      if magic \<noteq> kMagic then Some (Inl EC_PersistenceCorrupt) else
      case rd_u32 data 4 of None \<Rightarrow> Some (Inl EC_PersistenceTruncated) | Some ver \<Rightarrow>
      if ver \<noteq> version then Some (Inl EC_PersistenceUnknownVersion) else
      case rd_u32 data 8 of None \<Rightarrow> Some (Inl EC_PersistenceTruncated) | Some plen \<Rightarrow>
      let total = unat (12 + plen + 4) + kChecksumLen in
      if total \<noteq> length data then
        if total > length data then Some (Inl EC_PersistenceTruncated)
        else Some (Inl EC_PersistenceTrailingGarbage)
      else case rd_u32 data (unat (12 + plen)) of None \<Rightarrow> Some (Inl EC_PersistenceTruncated) | Some clen \<Rightarrow>
      if clen \<noteq> word_of_nat kChecksumLen then Some (Inl EC_PersistenceCorrupt)
      else if 12 + unat plen > length data then None
      else let payload = take (unat plen) (drop 12 data);
               csum_off = unat (16 + plen)
           in if take kChecksumLen (drop csum_off data) \<noteq> sha_compute payload
              then Some (Inl EC_PersistenceChecksumMismatch) else Some (Inr payload))"

lemma push_u32_put: "push_u32 v = put_be_u32 v"
  by (simp add: push_u32_def put_be_u32_def be_bytes_def eval_nat_numeral)

lemma push_u32_length [simp]: "length (push_u32 v) = 4"
  by (simp add: push_u32_def)

lemma push_u32_inject: "push_u32 v = push_u32 w \<longleftrightarrow> v = w"
  by (metis push_u32_put put_be_u32_def be_val_u32)

lemma rd_be_push: "off + 4 \<le> length data \<Longrightarrow> rd_be_u32 data off = v \<longleftrightarrow> take 4 (drop off data) = push_u32 v"
proof -
  assume l: "off + 4 \<le> length data"
  then have "be_bytes 4 (be_val (take 4 (drop off data)) :: u32) = take 4 (drop off data)"
    by (intro be_bytes_u32) simp
  with l show ?thesis
    by (metis be_val_u32 push_u32_put put_be_u32_def rd_be_u32_be)
qed

lemma rd_u32_eq: "rd_u32 data off = Some v \<longleftrightarrow> off + 4 \<le> length data \<and> take 4 (drop off data) = push_u32 v"
  by (auto simp: rd_u32_def rd_be_push)

text \<open>The size check after the 32-bit sum wrapped: the claimed length is almost \<open>2 ^ 32\<close>.\<close>

lemma unat_numeral_32: "unat (12 :: u32) = 12" "unat (16 :: u32) = 16"
  by simp_all

lemma unat_add_32: "unat (a + b :: u32) = (unat a + unat b) mod 2 ^ 32"
  by (simp only: unat_word_ariths(1) len_num1 len_bit0) simp

lemma unat_plus_12: "unat (12 + w :: u32) = (unat w + 12) mod 2 ^ 32"
  using unat_add_32 [of 12 w] by (simp only: add.commute unat_numeral_32)

lemma unat_plus_16: "unat (12 + w + 4 :: u32) = (unat w + 16) mod 2 ^ 32"
proof -
  have "12 + w + 4 = 16 + w" by simp
  with unat_add_32 [of 16 w] show ?thesis by (simp only: add.commute unat_numeral_32)
qed

lemma unwrapped_length:
  assumes "unat (12 + plen + 4 :: u32) + 32 = n" and "12 + unat plen \<le> n"
  shows "unat plen + 16 < 2 ^ 32" and "unat (12 + plen) = unat plen + 12" and "unat (16 + plen) = unat plen + 16"
    and "n = unat plen + 48"
proof -
  show w: "unat plen + 16 < 2 ^ 32"
  proof (rule ccontr)
    assume "\<not> unat plen + 16 < 2 ^ 32"
    moreover have "unat plen < 2 ^ 32" using unsigned_less [of plen] by simp
    ultimately have "unat (12 + plen + 4) = unat plen + 16 - 2 ^ 32" unfolding unat_plus_16 by (simp add: le_mod_geq)
    with assms \<open>unat plen < 2 ^ 32\<close> \<open>\<not> unat plen + 16 < 2 ^ 32\<close> show False by simp
  qed
  have "12 + plen + 4 = 16 + plen" by simp
  then show "unat (16 + plen) = unat plen + 16" using unat_plus_16 [of plen] w by (simp only: mod_less)
  show "unat (12 + plen) = unat plen + 12" using unat_plus_12 [of plen] w by simp
  show "n = unat plen + 48" using assms(1) unat_plus_16 [of plen] w by simp
qed

lemma wrapped_length:
  assumes "unat (12 + plen + 4 :: u32) + 32 = n" and "12 + unat plen > n"
    and "unat (12 + plen) + 4 \<le> n"
  shows "\<exists>k < 12. plen = word_of_nat (2 ^ 32 - 12 + k) \<and> unat (12 + plen) = k \<and> n = k + 36"
proof -
  define p where "p = unat plen"
  have p: "p < 2 ^ 32" using unsigned_less [of plen] by (simp add: p_def)
  note s12 = unat_plus_12 [of plen, folded p_def] and s16 = unat_plus_16 [of plen, folded p_def]
  have wrap: "p + 12 \<ge> 2 ^ 32"
  proof (rule ccontr)
    assume "\<not> p + 12 \<ge> 2 ^ 32"
    then have "p + 12 < 2 ^ 32" by simp
    then have s12': "unat (12 + plen) = p + 12" using s12 by simp
    show False
    proof (cases "p + 16 < 2 ^ 32")
      case True
      then have "unat (12 + plen + 4) = p + 16" using s16 by simp
      then show False using assms by (simp add: p_def)
    next
      case False
      then have "unat (12 + plen + 4) = p + 16 - 2 ^ 32" using s16 p by (simp add: le_mod_geq)
      then show False using assms s12' p by (simp add: p_def)
    qed
  qed
  then have k: "unat (12 + plen) = p + 12 - 2 ^ 32" using s12 p by (simp add: le_mod_geq)
  moreover have "plen = word_of_nat (2 ^ 32 - 12 + (p + 12 - 2 ^ 32))"
    using wrap by (simp add: p_def)
  moreover have "n = (p + 12 - 2 ^ 32) + 36"
    using assms(1) s16 wrap p by (simp add: le_mod_geq)
  ultimately show ?thesis using p by (intro exI [of _ "p + 12 - 2 ^ 32"]) auto
qed

lemma bytes_at:
  assumes "take 4 (drop off data) = push_u32 v" and "off + 4 \<le> length data"
  shows "data ! off = ucast (drop_bit 24 v AND 0xff)" and "data ! (off + 1) = ucast (drop_bit 16 v AND 0xff)"
    and "data ! (off + 2) = ucast (drop_bit 8 v AND 0xff)" and "data ! (off + 3) = ucast (v AND 0xff)"
proof -
  have "data ! (off + i) = push_u32 v ! i" if "i < 4" for i
    using assms that by (metis nth_drop nth_take add_leD1)
  from this [of 0] this [of 1] this [of 2] this [of 3]
  show "data ! off = ucast (drop_bit 24 v AND 0xff)" "data ! (off + 1) = ucast (drop_bit 16 v AND 0xff)"
    "data ! (off + 2) = ucast (drop_bit 8 v AND 0xff)" "data ! (off + 3) = ucast (v AND 0xff)"
    by (simp_all add: push_u32_def)
qed

text \<open>The bytes of an envelope whose length field wraps the size check.\<close>

lemma wrapped_length_bytes:
  fixes k defines "v \<equiv> word_of_nat (2 ^ 32 - 12 + k) :: u32"
  assumes "k < 12"
  shows "ucast (drop_bit 24 v AND 0xff) = (0xff :: u8)" and "ucast (drop_bit 16 v AND 0xff) = (0xff :: u8)"
    and "ucast (drop_bit 8 v AND 0xff) = (0xff :: u8)" and "ucast (v AND 0xff) \<noteq> (0 :: u8)"
proof -
  have "list_all (\<lambda>k. let v = word_of_nat (2 ^ 32 - 12 + k) :: u32 in
      ucast (drop_bit 24 v AND 0xff) = (0xff :: u8) \<and> ucast (drop_bit 16 v AND 0xff) = (0xff :: u8)
    \<and> ucast (drop_bit 8 v AND 0xff) = (0xff :: u8) \<and> ucast (v AND 0xff) \<noteq> (0 :: u8)) [0..<12]"
    by (simp add: upt_rec)
  with \<open>k < 12\<close> show "ucast (drop_bit 24 v AND 0xff) = (0xff :: u8)" "ucast (drop_bit 16 v AND 0xff) = (0xff :: u8)"
    "ucast (drop_bit 8 v AND 0xff) = (0xff :: u8)" "ucast (v AND 0xff) \<noteq> (0 :: u8)"
    by (simp_all add: list_all_iff v_def Let_def)
qed

lemma wrapped_envelope_version:
  assumes m: "take 4 (drop 0 data) = push_u32 kMagic" and v: "take 4 (drop 4 data) = push_u32 version"
    and l: "take 4 (drop 8 data) = push_u32 (word_of_nat (2 ^ 32 - 12 + k))" and "k < 12"
    and c: "take 4 (drop k data) = push_u32 32" and n: "length data \<ge> 36"
  shows "version = 32"
proof -
  have ms: "data ! 0 = 0x47" "data ! 1 = 0x43" "data ! 2 = 0x46" "data ! 3 = 0x52"
  proof -
    have "0 + 4 \<le> length data" using n by simp
    note b = bytes_at [OF m this, unfolded add_0]
    show "data ! 0 = 0x47" "data ! 1 = 0x43" "data ! 2 = 0x46" "data ! 3 = 0x52"
      unfolding b by (simp_all add: kMagic_def)
  qed
  have cs: "data ! k = 0" "data ! (k + 1) = 0" "data ! (k + 2) = 0" "data ! (k + 3) = 32"
    using bytes_at [OF c] n \<open>k < 12\<close> by simp_all
  have ls: "data ! 8 = 0xff" "data ! 9 = 0xff" "data ! 10 = 0xff" "data ! 11 \<noteq> 0"
  proof -
    note b = bytes_at [OF l] and w = wrapped_length_bytes [OF \<open>k < 12\<close>]
    have "8 + 4 \<le> length data" using n by simp
    note b = b [OF this, unfolded w]
    show "data ! 8 = 0xff" "data ! 9 = 0xff" "data ! 10 = 0xff" "data ! 11 \<noteq> 0"
      using b(1-3) by simp_all (use b(4) w(4) in simp)
  qed
  consider (low) "k < 4" | "k = 4" | (mid) "5 \<le> k" "k < 8" | (high) "8 \<le> k" by linarith
  then have "k = 4"
  proof cases
    case low
    then have "k = 0 \<or> k = 1 \<or> k = 2 \<or> k = 3" by auto
    then show ?thesis using ms cs(1) by auto
  next
    case mid
    then have "k = 5 \<or> k = 6 \<or> k = 7" by auto
    then show ?thesis using cs ls(1) by auto
  next
    case high
    then have "k = 8 \<or> k = 9 \<or> k = 10 \<or> k = 11" using \<open>k < 12\<close> by auto
    then show ?thesis using cs(1) ls by auto
  qed simp
  with v c have "push_u32 version = push_u32 32" by simp
  then show ?thesis by (simp only: push_u32_inject)
qed

text \<open>The checks of \<open>parse_envelope\<close> before the payload is copied.\<close>

definition header_ok :: "u32 \<Rightarrow> bytes \<Rightarrow> u32 \<Rightarrow> bool" where
  "header_ok version data plen \<longleftrightarrow> 16 \<le> length data \<and> rd_u32 data 0 = Some kMagic \<and> rd_u32 data 4 = Some version
     \<and> rd_u32 data 8 = Some plen \<and> unat (12 + plen + 4) + 32 = length data
     \<and> rd_u32 data (unat (12 + plen)) = Some 32"

lemma parse_envelope_header:
  assumes "header_ok version data plen"
  shows "parse_envelope version data =
    (if 12 + unat plen > length data then None
     else let payload = take (unat plen) (drop 12 data) in
       if take 32 (drop (unat (16 + plen)) data) \<noteq> sha_compute payload
       then Some (Inl EC_PersistenceChecksumMismatch) else Some (Inr payload))"
proof -
  from assms have h: "\<not> length data < 16" "rd_u32 data 0 = Some kMagic" "rd_u32 data 4 = Some version"
    "rd_u32 data 8 = Some plen" "unat (12 + plen + 4) + 32 = length data"
    "rd_u32 data (unat (12 + plen)) = Some 32"
    by (simp_all only: header_ok_def not_less)
  then show ?thesis
    unfolding parse_envelope_def kChecksumLen_def Let_def h(2-6) option.case by simp
qed

lemma parse_envelope_no_header:
  assumes "\<nexists>plen. header_ok version data plen"
  shows "\<exists>e. parse_envelope version data = Some (Inl e)"
proof (rule ccontr)
  assume *: "\<nexists>e. parse_envelope version data = Some (Inl e)"
  have "\<not> length data < 16" "rd_u32 data 0 = Some kMagic" "rd_u32 data 4 = Some version"
    using * by (auto simp: parse_envelope_def split: option.splits if_splits)
  moreover from this obtain plen where "rd_u32 data 8 = Some plen"
    using * by (auto simp: parse_envelope_def split: option.splits)
  moreover from calculation have "unat (12 + plen + 4) + 32 = length data"
    using * by (auto simp: parse_envelope_def kChecksumLen_def Let_def simp del: add_Suc_right split: if_splits)
  moreover from calculation have "rd_u32 data (unat (12 + plen)) = Some 32"
    using * by (simp add: parse_envelope_def kChecksumLen_def Let_def split: option.splits if_splits)
  ultimately have "header_ok version data plen" by (simp only: header_ok_def not_less)
  with assms show False by blast
qed

lemma parse_envelope_total:
  assumes "version \<noteq> 32"
  shows "parse_envelope version data \<noteq> None"
proof
  assume "parse_envelope version data = None"
  moreover from this obtain plen where h: "header_ok version data plen"
    using parse_envelope_no_header by fastforce
  ultimately have big: "12 + unat plen > length data"
    by (simp add: parse_envelope_header Let_def split: if_splits)
  from h have c: "unat (12 + plen) + 4 \<le> length data" by (simp add: header_ok_def rd_u32_eq)
  have "unat (12 + plen + 4) + 32 = length data" using h by (simp only: header_ok_def)
  from wrapped_length [OF this big c] obtain k where k: "k < 12" "plen = word_of_nat (2 ^ 32 - 12 + k)"
    "unat (12 + plen) = k" "length data = k + 36" by blast
  have "version = 32"
    by (rule wrapped_envelope_version [of data version k])
      (use h k in \<open>auto simp: header_ok_def rd_u32_eq simp del: drop0\<close>)
  with assms show False by simp
qed

text \<open>
  Reading an envelope never copies past the end of the file, unless the configured format
  version is 32: the 32-bit sum of the length check can wrap, but then the magic number, the version
  and the length overlap the checksum length in a way that only this version number permits.
\<close>

theorem parse_envelope_defined:
  assumes "version \<noteq> 32"
  shows "parse_envelope version data \<noteq> None"
  by (rule parse_envelope_total [OF assms])

theorem parse_envelope_defined_witness:
  "(1 :: u32) \<noteq> 32 \<and> parse_envelope 1 [0x47, 0x43] \<noteq> None"
  using parse_envelope_defined [of 1 "[0x47, 0x43]"] by simp

text \<open>The version number 32 is a real exception: this file of 40 bytes passes every check before the copy.\<close>

lemma parse_envelope_version_32:
  "parse_envelope 32 (push_u32 kMagic @ push_u32 32 @ push_u32 0xFFFFFFF8 @ replicate 28 0) = None"
  (is "parse_envelope 32 ?data = None")
proof -
  have "header_ok 32 ?data 0xFFFFFFF8" by (simp add: header_ok_def rd_u32_eq)
  then show ?thesis by (simp add: parse_envelope_header)
qed

lemma six_parts:
  assumes "length data = n + 48"
  shows "data = take 4 (drop 0 data) @ take 4 (drop 4 data) @ take 4 (drop 8 data) @ take n (drop 12 data)
     @ take 4 (drop (n + 12) data) @ take 32 (drop (n + 16) data)"
proof -
  have "drop (n + 16) data = take 32 (drop (n + 16) data)" using assms by simp
  moreover from drop_split [of 0 data 4] drop_split [of 4 data 4] drop_split [of 8 data 4]
    drop_split [of 12 data n] drop_split [of "n + 12" data 4]
  have "data = take 4 (drop 0 data) @ take 4 (drop 4 data) @ take 4 (drop 8 data) @ take n (drop 12 data)
     @ take 4 (drop (n + 12) data) @ drop (n + 16) data"
    by (simp add: add.commute)
  ultimately show ?thesis by simp
qed

lemma parse_envelope_iff:
  "parse_envelope version data = Some (Inr payload)
     \<longleftrightarrow> data = build_envelope version payload \<and> length payload + 16 < 2 ^ 32" (is "?L \<longleftrightarrow> ?R")
proof
  assume L: ?L
  then obtain plen where h: "header_ok version data plen" using parse_envelope_no_header by fastforce
  with L have le: "12 + unat plen \<le> length data" and p: "payload = take (unat plen) (drop 12 data)"
    and d: "take 32 (drop (unat (16 + plen)) data) = sha_compute payload"
    by (simp_all add: parse_envelope_header Let_def split: if_splits)
  have "unat (12 + plen + 4) + 32 = length data" using h by (simp only: header_ok_def)
  note u = unwrapped_length [OF this le]
  have wp: "word_of_nat (unat plen) = plen" by simp
  have lp: "length payload = unat plen" using p u(4) by simp
  have "data = take 4 (drop 0 data) @ take 4 (drop 4 data) @ take 4 (drop 8 data) @ payload
      @ take 4 (drop (unat plen + 12) data) @ take 32 (drop (unat plen + 16) data)"
    unfolding p by (rule six_parts) (fact u(4))
  also have "\<dots> = build_envelope version payload"
    using h d unfolding header_ok_def rd_u32_eq u(2,3) build_envelope_def kChecksumLen_def lp wp by simp
  finally show ?R using u(1) lp by simp
next
  assume R: ?R
  define plen :: u32 where "plen = word_of_nat (length payload)"
  have up: "unat plen = length payload" using R by (simp add: plen_def unat_of_nat)
  have u: "unat (12 + plen) = length payload + 12" "unat (12 + plen + 4) = length payload + 16"
    using R unat_plus_12 [of plen] unat_plus_16 [of plen] unfolding up by simp_all
  have "12 + plen + 4 = 16 + plen" by simp
  then have u16: "unat (16 + plen) = length payload + 16" using u(2) by (simp only:)
  have d: "data = build_envelope version payload" using R ..
  have "header_ok version data plen"
    unfolding header_ok_def rd_u32_eq u d build_envelope_def plen_def [symmetric]
    by (simp add: kChecksumLen_def)
  then show ?L
    by (simp add: parse_envelope_header Let_def up u16) (simp add: d build_envelope_def)
qed

text \<open>
  C35: Exactness of the envelope: a file yields a payload exactly when it is the envelope built from
  that payload (magic, version, length, payload, checksum length, SHA-256) and the total length fits
  the 32-bit length arithmetic. No other file yields a payload, and no file yields two.
\<close>

theorem parse_envelope_exact:
  "parse_envelope version data = Some (Inr payload)
     \<longleftrightarrow> data = build_envelope version payload \<and> length payload + 16 < 2 ^ 32"
  by (rule parse_envelope_iff)

section \<open>The store\<close>

record PersistenceStore =
  ps_dir :: string
  ps_version :: u32

type_synonym files = "string \<Rightarrow> bytes option"

text \<open>
  The steps of the operating system a \<open>put\<close> meets: \<open>WriteFails\<close> carries what reached the temporary
  file (an interrupted write), \<open>RenameFails\<close> the message of the error code.
\<close>

datatype put_io = PutOk | OpenFails | WriteFails bytes | RenameFails string

definition path_join :: "string \<Rightarrow> string \<Rightarrow> string" where
  "path_join d n = (if d = [] \<or> last d = CHR ''/'' then d @ n else d @ ''/'' @ n)"

definition store_put :: "PersistenceStore \<Rightarrow> files \<Rightarrow> GraphArtifactId \<Rightarrow> bytes \<Rightarrow> put_io \<Rightarrow> unit Result \<times> files" where
  "store_put s fs i payload io =
     (let env = build_envelope (ps_version s) payload; tmp = temp_for i; fin = file_for i
      in case io of
        OpenFails \<Rightarrow> (failure EC_PersistenceIoError (''cannot open temp:'' @ path_join (ps_dir s) tmp), fs)
      | WriteFails part \<Rightarrow>
          (failure EC_PersistenceIoError (''cannot write temp:'' @ path_join (ps_dir s) tmp), fs(tmp \<mapsto> part))
      | RenameFails msg \<Rightarrow> (failure EC_PersistenceIoError (''rename failed: '' @ msg), fs(tmp := None))
      | PutOk \<Rightarrow> (success (), fs(tmp := None, fin \<mapsto> env)))"

definition store_get :: "PersistenceStore \<Rightarrow> files \<Rightarrow> GraphArtifactId \<Rightarrow> bool \<Rightarrow> bytes Result option" where
  "store_get s fs i can_open = (case fs (file_for i) of
       None \<Rightarrow> Some (failure EC_PersistenceNotFound ''no file'')
     | Some data \<Rightarrow>
         if \<not> can_open then Some (failure EC_PersistenceIoError ''cannot open'')
         else (case parse_envelope (ps_version s) data of
             None \<Rightarrow> None
           | Some (Inl e) \<Rightarrow> Some (failure e ''persisted envelope rejected'')
           | Some (Inr payload) \<Rightarrow> Some (success payload)))"

definition store_remove :: "files \<Rightarrow> GraphArtifactId \<Rightarrow> unit Result \<times> files" where
  "store_remove fs i = (success (), fs(file_for i := None, temp_for i := None))"

definition listed_id :: "string \<Rightarrow> GraphArtifactId option" where
  "listed_id name = (if take 3 name \<noteq> ''gc-'' then None
     else if length name \<noteq> 3 + 32 + 4 then None
     else if drop (3 + 32) name \<noteq> ''.gcf'' then None
     else hex_to_id (take 32 (drop 3 name)))"

definition store_list :: "string list \<Rightarrow> GraphArtifactId list" where
  "store_list names = List.map_filter listed_id names"

text \<open>What the store holds: the payloads a \<open>get\<close> returns.\<close>

definition store_contents :: "PersistenceStore \<Rightarrow> files \<Rightarrow> GraphArtifactId \<Rightarrow> bytes option" where
  "store_contents s fs i = (case store_get s fs i True of Some (Inr p) \<Rightarrow> Some p | _ \<Rightarrow> None)"

lemma listed_file [simp]: "listed_id (file_for i) = Some i"
  by (simp add: listed_id_def file_for_def hex_to_id_to_hex)

lemma listed_temp [simp]: "listed_id (temp_for i) = None"
  by (simp add: listed_id_def temp_for_def)

lemma listed_only_file: "set (store_list names) = {i. \<exists>n \<in> set names. listed_id n = Some i}"
  by (auto simp: store_list_def map_filter_def image_iff) force+

lemma get_put_same: "length p + 16 < 2 ^ 32 \<Longrightarrow>
    store_get s (snd (store_put s fs i p PutOk)) i True = Some (success p)"
  using parse_envelope_iff [of "ps_version s" "build_envelope (ps_version s) p" p]
  by (simp add: store_get_def store_put_def Let_def)

lemma get_other_file:
  "fs' (file_for j) = fs (file_for j) \<Longrightarrow> store_get s fs' j b = store_get s fs j b"
  by (simp add: store_get_def)

lemma contents_put:
  "length p + 16 < 2 ^ 32 \<Longrightarrow> store_contents s (snd (store_put s fs i p io)) =
     (if io = PutOk then (store_contents s fs)(i \<mapsto> p) else store_contents s fs)"
  using get_put_same [of p s fs i] get_other_file
  by (auto simp: store_contents_def store_put_def Let_def fun_eq_iff store_get_def split: put_io.splits)

lemma contents_remove: "store_contents s (snd (store_remove fs i)) = (store_contents s fs)(i := None)"
  by (auto simp: store_contents_def store_remove_def fun_eq_iff store_get_def)


text \<open>
  The contract of the store for the cache above it: a map from keys to storable values.
\<close>

locale artifact_store =
  fixes put :: "'s \<Rightarrow> 'k \<Rightarrow> 'v \<Rightarrow> 's" and remove :: "'s \<Rightarrow> 'k \<Rightarrow> 's"
    and contents :: "'s \<Rightarrow> 'k \<Rightarrow> 'v option" and storable :: "'v \<Rightarrow> bool"
  assumes put_law: "storable v \<Longrightarrow> contents (put s k v) = (contents s)(k \<mapsto> v)"
    and remove_law: "contents (remove s k) = (contents s)(k := None)"
begin

lemma put_all:
  "list_all (\<lambda>(k, v). storable v) kvs \<Longrightarrow>
     contents (foldl (\<lambda>s (k, v). put s k v) s kvs) = contents s ++ map_of (rev kvs)"
  by (induction kvs arbitrary: s) (auto simp: put_law)

lemma remove_put: "storable v \<Longrightarrow> contents (remove (put s k v) k) = contents (remove s k)"
  by (simp add: put_law remove_law)

end

interpretation store: artifact_store "\<lambda>fs i p. snd (store_put s fs i p PutOk)" "\<lambda>fs i. snd (store_remove fs i)"
  "store_contents s" "\<lambda>p. length p + 16 < 2 ^ 32" for s
  by unfold_locales (simp_all add: contents_put contents_remove)

text \<open>Runs of the store, with what the operating system does to each \<open>put\<close>, and their specification.\<close>

datatype store_op = OpPut GraphArtifactId bytes put_io | OpRemove GraphArtifactId

fun store_run :: "PersistenceStore \<Rightarrow> store_op list \<Rightarrow> files \<Rightarrow> files" where
  "store_run s [] fs = fs"
| "store_run s (OpPut i p io # ops) fs = store_run s ops (snd (store_put s fs i p io))"
| "store_run s (OpRemove i # ops) fs = store_run s ops (snd (store_remove fs i))"

fun map_run :: "store_op list \<Rightarrow> (GraphArtifactId \<Rightarrow> bytes option) \<Rightarrow> GraphArtifactId \<Rightarrow> bytes option" where
  "map_run [] m = m"
| "map_run (OpPut i p io # ops) m = map_run ops (if io = PutOk then m(i \<mapsto> p) else m)"
| "map_run (OpRemove i # ops) m = map_run ops (m(i := None))"

fun storable_op :: "store_op \<Rightarrow> bool" where
  "storable_op (OpPut i p io) \<longleftrightarrow> length p + 16 < 2 ^ 32"
| "storable_op (OpRemove i) \<longleftrightarrow> True"

lemma store_run_contents:
  "list_all storable_op ops \<Longrightarrow> store_contents s (store_run s ops fs) = map_run ops (store_contents s fs)"
  by (induction s ops fs rule: store_run.induct) (simp_all add: contents_put contents_remove)

text \<open>A directory written by the store alone: complete envelopes and temporary files.\<close>

definition file_ok :: "PersistenceStore \<Rightarrow> string \<Rightarrow> bytes \<Rightarrow> bool" where
  "file_ok s name data \<longleftrightarrow> (\<exists>i. name = temp_for i) \<or>
     (\<exists>i p. name = file_for i \<and> data = build_envelope (ps_version s) p \<and> length p + 16 < 2 ^ 32)"

definition store_files :: "PersistenceStore \<Rightarrow> files \<Rightarrow> bool" where
  "store_files s fs \<longleftrightarrow> (\<forall>name data. fs name = Some data \<longrightarrow> file_ok s name data)"

lemma store_files_upd:
  "store_files s fs \<Longrightarrow> store_files s (fs(n := None))"
  "store_files s fs \<Longrightarrow> file_ok s n d \<Longrightarrow> store_files s (fs(n \<mapsto> d))"
  by (auto simp: store_files_def)

lemma file_ok_simps:
  "file_ok s (temp_for i) d" "length p + 16 < 2 ^ 32 \<Longrightarrow> file_ok s (file_for i) (build_envelope (ps_version s) p)"
  unfolding file_ok_def by blast+

lemma store_files_put:
  "length p + 16 < 2 ^ 32 \<Longrightarrow> store_files s fs \<Longrightarrow> store_files s (snd (store_put s fs i p io))"
  by (cases io) (simp_all add: store_put_def Let_def store_files_upd file_ok_simps)

lemma store_files_run: "list_all storable_op ops \<Longrightarrow> store_files s fs \<Longrightarrow> store_files s (store_run s ops fs)"
  by (induction s ops fs rule: store_run.induct) (simp_all add: store_files_put store_remove_def store_files_upd)

lemma listed_contents:
  assumes "store_files s fs" and "set names = dom fs"
  shows "set (store_list names) = dom (store_contents s fs)"
proof (intro set_eqI iffI)
  fix i assume "i \<in> set (store_list names)"
  then obtain name data where n: "listed_id name = Some i" and d: "fs name = Some data"
    using assms(2) by (auto simp: listed_only_file)
  with assms(1) obtain p where "name = file_for i" "data = build_envelope (ps_version s) p" "length p + 16 < 2 ^ 32"
    unfolding store_files_def file_ok_def by fastforce
  then show "i \<in> dom (store_contents s fs)"
    using d parse_envelope_iff [of "ps_version s" data p]
    by (auto simp: store_contents_def store_get_def)
next
  fix i assume "i \<in> dom (store_contents s fs)"
  then have "file_for i \<in> dom fs"
    by (auto simp: store_contents_def store_get_def split: option.splits)
  then show "i \<in> set (store_list names)" using assms(2) by (auto simp: listed_only_file intro!: bexI)
qed

text \<open>
  C15: The store is a crash-safe map. Whatever happens to each write (the temporary file cannot be
  opened, is written in part, cannot be renamed), the payloads \<open>get\<close> returns after any run of puts
  and removes are those of a map updated by the successful puts and the removes alone: a failed or
  interrupted put leaves the previous artifact readable and never exposes a torn one. On a directory
  the store wrote, \<open>list\<close> enumerates exactly the readable artifacts.
\<close>

theorem store_refines_map:
  assumes "list_all storable_op ops" and "store_files s fs" and "set names = dom (store_run s ops fs)"
  shows "store_contents s (store_run s ops fs) = map_run ops (store_contents s fs)
    \<and> set (store_list names) = dom (map_run ops (store_contents s fs))"
  using store_run_contents [OF assms(1)] listed_contents [OF store_files_run [OF assms(1,2)] assms(3)]
  by simp

theorem store_refines_map_witness:
  "let a = GraphArtifactId 1 2; s = \<lparr>ps_dir = ''cache'', ps_version = 1\<rparr>;
       ops = [OpPut a [1, 2] PutOk, OpPut a [3] (WriteFails [0x47]), OpPut a [4] (RenameFails ''busy'')]
   in store_contents s (store_run s ops Map.empty) = [a \<mapsto> [1, 2]]
     \<and> set (store_list [file_for a]) = {a}"
proof -
  let ?a = "GraphArtifactId 1 2"
  let ?s = "\<lparr>ps_dir = ''cache'', ps_version = 1 :: u32\<rparr>"
  let ?ops = "[OpPut ?a [1, 2] PutOk, OpPut ?a [3] (WriteFails [0x47]), OpPut ?a [4] (RenameFails ''busy'')]"
  have dom: "set [file_for ?a] = dom (store_run ?s ?ops Map.empty)"
    by (auto simp: store_put_def Let_def split: if_splits)
  have "store_contents ?s Map.empty = Map.empty" by (simp add: store_contents_def store_get_def fun_eq_iff)
  then show ?thesis
    using store_refines_map [of ?ops ?s Map.empty "[file_for ?a]", OF _ _ dom]
    by (simp add: Let_def store_files_def)
qed

end
