(* ===== verification/GC_Protocol.thy ===== *)
theory GC_Protocol
  imports GC_Types GC_Ids GC_Result
begin

text \<open>
  The control-plane protocol of \<open>include/graphcache/protocol.hpp\<close> and \<open>src/protocol.cpp\<close>: the
  little-endian message format, the length-prefixed frames and the loops that read and write them on
  a TCP connection.

  The connection is what \<open>recv\<close> and \<open>send\<close> report. The receiving side is the list of the results
  that successive calls to \<open>recv\<close> will have (a chunk of bytes of any size, an orderly close, an
  error): a call for at most \<open>n\<close> bytes takes at most \<open>n\<close> bytes of the first chunk, and an exhausted
  list is a call that never returns, the outcome \<open>None\<close>. The sending side is the list of the
  byte counts that successive calls to \<open>send\<close> accept. Opening and closing sockets is not modelled.
\<close>

section \<open>Message types and status codes\<close>

datatype ProtocolMessageType = PT_Hello | PT_Welcome | PT_Register | PT_RegisterAck | PT_Lookup
     | PT_LookupResult | PT_CaptureInstruct | PT_CaptureResult | PT_ReplayInstruct
     | PT_ReplayResult | PT_Invalidate | PT_InvalidateAck | PT_Shutdown | PT_other u8

primrec ProtocolMessageType_code :: "ProtocolMessageType \<Rightarrow> u8" where
  "ProtocolMessageType_code PT_Hello = 1"
| "ProtocolMessageType_code PT_Welcome = 2"
| "ProtocolMessageType_code PT_Register = 3"
| "ProtocolMessageType_code PT_RegisterAck = 4"
| "ProtocolMessageType_code PT_Lookup = 5"
| "ProtocolMessageType_code PT_LookupResult = 6"
| "ProtocolMessageType_code PT_CaptureInstruct = 7"
| "ProtocolMessageType_code PT_CaptureResult = 8"
| "ProtocolMessageType_code PT_ReplayInstruct = 9"
| "ProtocolMessageType_code PT_ReplayResult = 10"
| "ProtocolMessageType_code PT_Invalidate = 11"
| "ProtocolMessageType_code PT_InvalidateAck = 12"
| "ProtocolMessageType_code PT_Shutdown = 13"
| "ProtocolMessageType_code (PT_other v) = v"

definition ProtocolMessageType_of :: "u8 \<Rightarrow> ProtocolMessageType" where
  "ProtocolMessageType_of v = (
     if v = 1 then PT_Hello
     else if v = 2 then PT_Welcome
     else if v = 3 then PT_Register
     else if v = 4 then PT_RegisterAck
     else if v = 5 then PT_Lookup
     else if v = 6 then PT_LookupResult
     else if v = 7 then PT_CaptureInstruct
     else if v = 8 then PT_CaptureResult
     else if v = 9 then PT_ReplayInstruct
     else if v = 10 then PT_ReplayResult
     else if v = 11 then PT_Invalidate
     else if v = 12 then PT_InvalidateAck
     else if v = 13 then PT_Shutdown
     else PT_other v)"

primrec ProtocolMessageType_named :: "ProtocolMessageType \<Rightarrow> bool" where
  "ProtocolMessageType_named PT_Hello = True"
| "ProtocolMessageType_named PT_Welcome = True"
| "ProtocolMessageType_named PT_Register = True"
| "ProtocolMessageType_named PT_RegisterAck = True"
| "ProtocolMessageType_named PT_Lookup = True"
| "ProtocolMessageType_named PT_LookupResult = True"
| "ProtocolMessageType_named PT_CaptureInstruct = True"
| "ProtocolMessageType_named PT_CaptureResult = True"
| "ProtocolMessageType_named PT_ReplayInstruct = True"
| "ProtocolMessageType_named PT_ReplayResult = True"
| "ProtocolMessageType_named PT_Invalidate = True"
| "ProtocolMessageType_named PT_InvalidateAck = True"
| "ProtocolMessageType_named PT_Shutdown = True"
| "ProtocolMessageType_named (PT_other v) = (v \<noteq> 1 \<and> v \<noteq> 2 \<and> v \<noteq> 3 \<and> v \<noteq> 4 \<and> v \<noteq> 5 \<and> v \<noteq> 6 \<and> v \<noteq> 7 \<and> v \<noteq> 8 \<and> v \<noteq> 9 \<and> v \<noteq> 10 \<and> v \<noteq> 11 \<and> v \<noteq> 12 \<and> v \<noteq> 13)"

primrec ProtocolMessageType_to_string :: "ProtocolMessageType \<Rightarrow> string" where
  "ProtocolMessageType_to_string PT_Hello = ''Hello''"
| "ProtocolMessageType_to_string PT_Welcome = ''Welcome''"
| "ProtocolMessageType_to_string PT_Register = ''Register''"
| "ProtocolMessageType_to_string PT_RegisterAck = ''RegisterAck''"
| "ProtocolMessageType_to_string PT_Lookup = ''Lookup''"
| "ProtocolMessageType_to_string PT_LookupResult = ''LookupResult''"
| "ProtocolMessageType_to_string PT_CaptureInstruct = ''CaptureInstruct''"
| "ProtocolMessageType_to_string PT_CaptureResult = ''CaptureResult''"
| "ProtocolMessageType_to_string PT_ReplayInstruct = ''ReplayInstruct''"
| "ProtocolMessageType_to_string PT_ReplayResult = ''ReplayResult''"
| "ProtocolMessageType_to_string PT_Invalidate = ''Invalidate''"
| "ProtocolMessageType_to_string PT_InvalidateAck = ''InvalidateAck''"
| "ProtocolMessageType_to_string PT_Shutdown = ''Shutdown''"
| "ProtocolMessageType_to_string (PT_other v) = ''Unknown''"

datatype ProtocolStatus = PS_Ok | PS_StaleEpoch | PS_StaleWorkerBoot | PS_StaleCacheGeneration
     | PS_StaleGraphGeneration | PS_StaleCaptureAttempt | PS_StaleReplayAttempt
     | PS_DuplicateCaptureCompletion | PS_CompletionAfterInvalidation | PS_WrongBaseGeneration
     | PS_InvalidRequest | PS_WorkerUnavailable | PS_LookupMiss | PS_CaptureFailed
     | PS_ReplayFailed | PS_UnknownMessage | PS_ProtocolVersionMismatch | PS_Malformed
     | PS_Internal | PS_other u16

primrec ProtocolStatus_code :: "ProtocolStatus \<Rightarrow> u16" where
  "ProtocolStatus_code PS_Ok = 0"
| "ProtocolStatus_code PS_StaleEpoch = 1"
| "ProtocolStatus_code PS_StaleWorkerBoot = 2"
| "ProtocolStatus_code PS_StaleCacheGeneration = 3"
| "ProtocolStatus_code PS_StaleGraphGeneration = 4"
| "ProtocolStatus_code PS_StaleCaptureAttempt = 5"
| "ProtocolStatus_code PS_StaleReplayAttempt = 6"
| "ProtocolStatus_code PS_DuplicateCaptureCompletion = 7"
| "ProtocolStatus_code PS_CompletionAfterInvalidation = 8"
| "ProtocolStatus_code PS_WrongBaseGeneration = 9"
| "ProtocolStatus_code PS_InvalidRequest = 10"
| "ProtocolStatus_code PS_WorkerUnavailable = 11"
| "ProtocolStatus_code PS_LookupMiss = 12"
| "ProtocolStatus_code PS_CaptureFailed = 13"
| "ProtocolStatus_code PS_ReplayFailed = 14"
| "ProtocolStatus_code PS_UnknownMessage = 15"
| "ProtocolStatus_code PS_ProtocolVersionMismatch = 16"
| "ProtocolStatus_code PS_Malformed = 17"
| "ProtocolStatus_code PS_Internal = 18"
| "ProtocolStatus_code (PS_other v) = v"

definition ProtocolStatus_of :: "u16 \<Rightarrow> ProtocolStatus" where
  "ProtocolStatus_of v = (
     if v = 0 then PS_Ok
     else if v = 1 then PS_StaleEpoch
     else if v = 2 then PS_StaleWorkerBoot
     else if v = 3 then PS_StaleCacheGeneration
     else if v = 4 then PS_StaleGraphGeneration
     else if v = 5 then PS_StaleCaptureAttempt
     else if v = 6 then PS_StaleReplayAttempt
     else if v = 7 then PS_DuplicateCaptureCompletion
     else if v = 8 then PS_CompletionAfterInvalidation
     else if v = 9 then PS_WrongBaseGeneration
     else if v = 10 then PS_InvalidRequest
     else if v = 11 then PS_WorkerUnavailable
     else if v = 12 then PS_LookupMiss
     else if v = 13 then PS_CaptureFailed
     else if v = 14 then PS_ReplayFailed
     else if v = 15 then PS_UnknownMessage
     else if v = 16 then PS_ProtocolVersionMismatch
     else if v = 17 then PS_Malformed
     else if v = 18 then PS_Internal
     else PS_other v)"

primrec ProtocolStatus_named :: "ProtocolStatus \<Rightarrow> bool" where
  "ProtocolStatus_named PS_Ok = True"
| "ProtocolStatus_named PS_StaleEpoch = True"
| "ProtocolStatus_named PS_StaleWorkerBoot = True"
| "ProtocolStatus_named PS_StaleCacheGeneration = True"
| "ProtocolStatus_named PS_StaleGraphGeneration = True"
| "ProtocolStatus_named PS_StaleCaptureAttempt = True"
| "ProtocolStatus_named PS_StaleReplayAttempt = True"
| "ProtocolStatus_named PS_DuplicateCaptureCompletion = True"
| "ProtocolStatus_named PS_CompletionAfterInvalidation = True"
| "ProtocolStatus_named PS_WrongBaseGeneration = True"
| "ProtocolStatus_named PS_InvalidRequest = True"
| "ProtocolStatus_named PS_WorkerUnavailable = True"
| "ProtocolStatus_named PS_LookupMiss = True"
| "ProtocolStatus_named PS_CaptureFailed = True"
| "ProtocolStatus_named PS_ReplayFailed = True"
| "ProtocolStatus_named PS_UnknownMessage = True"
| "ProtocolStatus_named PS_ProtocolVersionMismatch = True"
| "ProtocolStatus_named PS_Malformed = True"
| "ProtocolStatus_named PS_Internal = True"
| "ProtocolStatus_named (PS_other v) = (v \<noteq> 0 \<and> v \<noteq> 1 \<and> v \<noteq> 2 \<and> v \<noteq> 3 \<and> v \<noteq> 4 \<and> v \<noteq> 5 \<and> v \<noteq> 6 \<and> v \<noteq> 7 \<and> v \<noteq> 8 \<and> v \<noteq> 9 \<and> v \<noteq> 10 \<and> v \<noteq> 11 \<and> v \<noteq> 12 \<and> v \<noteq> 13 \<and> v \<noteq> 14 \<and> v \<noteq> 15 \<and> v \<noteq> 16 \<and> v \<noteq> 17 \<and> v \<noteq> 18)"

primrec ProtocolStatus_to_string :: "ProtocolStatus \<Rightarrow> string" where
  "ProtocolStatus_to_string PS_Ok = ''Ok''"
| "ProtocolStatus_to_string PS_StaleEpoch = ''StaleEpoch''"
| "ProtocolStatus_to_string PS_StaleWorkerBoot = ''StaleWorkerBoot''"
| "ProtocolStatus_to_string PS_StaleCacheGeneration = ''StaleCacheGeneration''"
| "ProtocolStatus_to_string PS_StaleGraphGeneration = ''StaleGraphGeneration''"
| "ProtocolStatus_to_string PS_StaleCaptureAttempt = ''StaleCaptureAttempt''"
| "ProtocolStatus_to_string PS_StaleReplayAttempt = ''StaleReplayAttempt''"
| "ProtocolStatus_to_string PS_DuplicateCaptureCompletion = ''DuplicateCaptureCompletion''"
| "ProtocolStatus_to_string PS_CompletionAfterInvalidation = ''CompletionAfterInvalidation''"
| "ProtocolStatus_to_string PS_WrongBaseGeneration = ''WrongBaseGeneration''"
| "ProtocolStatus_to_string PS_InvalidRequest = ''InvalidRequest''"
| "ProtocolStatus_to_string PS_WorkerUnavailable = ''WorkerUnavailable''"
| "ProtocolStatus_to_string PS_LookupMiss = ''LookupMiss''"
| "ProtocolStatus_to_string PS_CaptureFailed = ''CaptureFailed''"
| "ProtocolStatus_to_string PS_ReplayFailed = ''ReplayFailed''"
| "ProtocolStatus_to_string PS_UnknownMessage = ''UnknownMessage''"
| "ProtocolStatus_to_string PS_ProtocolVersionMismatch = ''ProtocolVersionMismatch''"
| "ProtocolStatus_to_string PS_Malformed = ''Malformed''"
| "ProtocolStatus_to_string PS_Internal = ''Internal''"
| "ProtocolStatus_to_string (PS_other v) = ''Internal''"

interpretation ptc: enum_code ProtocolMessageType_code ProtocolMessageType_of ProtocolMessageType_named
proof unfold_locales
  show "ProtocolMessageType_named x \<Longrightarrow> ProtocolMessageType_of (ProtocolMessageType_code x) = x" for x
    by (cases x) (simp_all add: ProtocolMessageType_of_def)
  show "ProtocolMessageType_code (ProtocolMessageType_of v) = v" "ProtocolMessageType_named (ProtocolMessageType_of v)" for v
    by (simp_all add: ProtocolMessageType_of_def)
qed

interpretation psc: enum_code ProtocolStatus_code ProtocolStatus_of ProtocolStatus_named
proof unfold_locales
  show "ProtocolStatus_named x \<Longrightarrow> ProtocolStatus_of (ProtocolStatus_code x) = x" for x
    by (cases x) (simp_all add: ProtocolStatus_of_def)
  show "ProtocolStatus_code (ProtocolStatus_of v) = v" "ProtocolStatus_named (ProtocolStatus_of v)" for v
    by (simp_all add: ProtocolStatus_of_def)
qed


section \<open>Little-endian fields\<close>

definition put_u8_le :: "u8 \<Rightarrow> bytes" where "put_u8_le v = [v]"
definition put_u16_le :: "u16 \<Rightarrow> bytes" where
  "put_u16_le v = [ucast (v AND 0xff), ucast (drop_bit 8 v AND 0xff)]"
definition put_u32_le :: "u32 \<Rightarrow> bytes" where "put_u32_le v = le_bytes 4 v"
definition put_u64_le :: "u64 \<Rightarrow> bytes" where "put_u64_le v = le_bytes 8 v"

definition rd_u16_le :: "bytes \<Rightarrow> nat \<Rightarrow> u16 option" where
  "rd_u16_le data off = (if off + 2 > length data then None
     else Some (ucast (data ! off) OR push_bit 8 (ucast (data ! (off + 1)))))"

definition rd_u32_le :: "bytes \<Rightarrow> nat \<Rightarrow> u32 option" where
  "rd_u32_le data off = (if off + 4 > length data then None else Some (le_loop 4 data off))"

definition rd_u64_le :: "bytes \<Rightarrow> nat \<Rightarrow> u64 option" where
  "rd_u64_le data off = (if off + 8 > length data then None else Some (le_loop 8 data off))"

lemma put_u16_le_bytes: "put_u16_le v = le_bytes 2 v"
  by (simp add: put_u16_le_def le_bytes_def eval_nat_numeral)

lemma rd_u16_loop: "rd_u16_le data off = (if off + 2 > length data then None else Some (le_loop 2 data off))"
  by (simp add: rd_u16_le_def le_loop_def eval_nat_numeral)

lemma rd_le_iff:
  "rd_u16_le data off = Some v16 \<longleftrightarrow> off + 2 \<le> length data \<and> take 2 (drop off data) = put_u16_le v16"
  "rd_u32_le data off = Some v32 \<longleftrightarrow> off + 4 \<le> length data \<and> take 4 (drop off data) = put_u32_le v32"
  "rd_u64_le data off = Some v64 \<longleftrightarrow> off + 8 \<le> length data \<and> take 8 (drop off data) = put_u64_le v64"
  using le_loop_eq [of 2 off data v16] le_loop_eq [of 4 off data v32] le_loop_eq [of 8 off data v64]
  by (auto simp: rd_u16_loop rd_u32_le_def rd_u64_le_def put_u16_le_bytes put_u32_le_def put_u64_le_def)

lemma length_put_le [simp, size_simps]:
  "length (put_u8_le v8) = 1" "length (put_u16_le v16) = 2" "length (put_u32_le v32) = 4" "length (put_u64_le v64) = 8"
  by (simp_all add: put_u8_le_def put_u16_le_def put_u32_le_def put_u64_le_def)

section \<open>Messages\<close>

definition ProtocolVersion :: u32 where "ProtocolVersion = 1"
definition MaxFrameSize :: u32 where "MaxFrameSize = 8 * 1024 * 1024"
definition MaxPayloadSize :: u32 where "MaxPayloadSize = MaxFrameSize - 96"
definition kHeaderMin :: nat where "kHeaderMin = 1 + 1 + 2 + 8 * 8 + 2 + 4"

record ProtocolMessage =
  pm_type :: ProtocolMessageType
  pm_version :: u8
  pm_flags :: u16
  pm_request_id :: u64
  pm_epoch :: CoordinatorEpoch
  pm_cache_gen :: CacheGeneration
  pm_worker_id :: WorkerId
  pm_worker_boot :: WorkerBootId
  pm_graph_gen :: GraphGeneration
  pm_capture_attempt :: CaptureAttemptId
  pm_replay_attempt :: ReplayAttemptId
  pm_status :: ProtocolStatus
  pm_payload :: bytes

definition ProtocolMessage_default :: ProtocolMessage where
  "ProtocolMessage_default = \<lparr>pm_type = PT_Hello, pm_version = ucast ProtocolVersion, pm_flags = 0,
     pm_request_id = 0, pm_epoch = CoordinatorEpoch 0, pm_cache_gen = CacheGeneration 0,
     pm_worker_id = WorkerId 0, pm_worker_boot = WorkerBootId 0, pm_graph_gen = GraphGeneration 0,
     pm_capture_attempt = CaptureAttemptId 0, pm_replay_attempt = ReplayAttemptId 0,
     pm_status = PS_Ok, pm_payload = []\<rparr>"

definition valid_type :: "u8 \<Rightarrow> bool" where
  "valid_type t \<longleftrightarrow> t \<ge> 1 \<and> t \<le> 13"

definition encode_message :: "ProtocolMessage \<Rightarrow> bytes" where
  "encode_message m =
     put_u8_le (ProtocolMessageType_code (pm_type m))
   @ put_u8_le (pm_version m)
   @ put_u16_le (pm_flags m)
   @ put_u64_le (pm_request_id m)
   @ put_u64_le (ce_value (pm_epoch m))
   @ put_u64_le (cg_value (pm_cache_gen m))
   @ put_u64_le (wid_value (pm_worker_id m))
   @ put_u64_le (wb_value (pm_worker_boot m))
   @ put_u64_le (gg_value (pm_graph_gen m))
   @ put_u64_le (ca_value (pm_capture_attempt m))
   @ put_u64_le (ra_value (pm_replay_attempt m))
   @ put_u16_le (ProtocolStatus_code (pm_status m))
   @ put_u32_le (word_of_nat (length (pm_payload m)))
   @ pm_payload m"

definition rd_or :: "'a option \<Rightarrow> string \<Rightarrow> 'a Result" where
  "rd_or v msg = (case v of None \<Rightarrow> failure EC_ProtocolTruncated msg | Some x \<Rightarrow> success x)"

definition decode_message :: "bytes \<Rightarrow> ProtocolMessage Result" where
  "decode_message bytes =
     (if length bytes < kHeaderMin then failure EC_ProtocolTruncated ''message header truncated'' else
      let type = ProtocolMessageType_of (bytes ! 0); version = bytes ! 1 in
      if \<not> valid_type (ProtocolMessageType_code type) then failure EC_ProtocolUnknownMessage ''unknown message type'' else
      if ucast version \<noteq> ProtocolVersion then failure EC_ProtocolUnknownVersion ''protocol version mismatch'' else
      bind_result (rd_or (rd_u16_le bytes 2) ''flags'') (\<lambda>flags.
      bind_result (rd_or (rd_u64_le bytes 4) ''request_id'') (\<lambda>rid.
      bind_result (rd_or (rd_u64_le bytes 12) ''epoch'') (\<lambda>ep.
      bind_result (rd_or (rd_u64_le bytes 20) ''cache_gen'') (\<lambda>cg.
      bind_result (rd_or (rd_u64_le bytes 28) ''worker_id'') (\<lambda>wid.
      bind_result (rd_or (rd_u64_le bytes 36) ''worker_boot'') (\<lambda>wb.
      bind_result (rd_or (rd_u64_le bytes 44) ''graph_gen'') (\<lambda>gg.
      bind_result (rd_or (rd_u64_le bytes 52) ''capture_attempt'') (\<lambda>ca.
      bind_result (rd_or (rd_u64_le bytes 60) ''replay_attempt'') (\<lambda>ra.
      bind_result (rd_or (rd_u16_le bytes 68) ''status'') (\<lambda>st.
      bind_result (rd_or (rd_u32_le bytes 70) ''payload_len'') (\<lambda>plen.
      if plen > MaxPayloadSize then failure EC_ProtocolOverflow ''payload exceeds max frame size''
      else if 74 + unat plen \<noteq> length bytes then failure EC_ProtocolTruncated ''payload length mismatch''
      else success \<lparr>pm_type = type, pm_version = version, pm_flags = flags, pm_request_id = rid,
             pm_epoch = CoordinatorEpoch ep, pm_cache_gen = CacheGeneration cg, pm_worker_id = WorkerId wid,
             pm_worker_boot = WorkerBootId wb, pm_graph_gen = GraphGeneration gg,
             pm_capture_attempt = CaptureAttemptId ca, pm_replay_attempt = ReplayAttemptId ra,
             pm_status = ProtocolStatus_of st, pm_payload = drop 74 bytes\<rparr>))))))))))))"

text \<open>The messages that may be on the wire, and how a body is cut into its fields.\<close>

definition message_ok :: "ProtocolMessage \<Rightarrow> bool" where
  "message_ok m \<longleftrightarrow> ProtocolMessageType_named (pm_type m) \<and> valid_type (ProtocolMessageType_code (pm_type m))
     \<and> pm_version m = 1
     \<and> ProtocolStatus_named (pm_status m) \<and> length (pm_payload m) \<le> 8 * 1024 * 1024 - 96"

lemma length_encode_message [size_simps]: "length (encode_message m) = 74 + length (pm_payload m)"
  by (simp add: encode_message_def)

lemma ucast_u8_u32: "(ucast (v :: u8) :: u32) = 1 \<longleftrightarrow> v = 1"
proof
  assume "(ucast v :: u32) = 1"
  then have "(ucast (ucast v :: u32) :: u8) = ucast (1 :: u32)" by (simp only:)
  then show "v = 1" by (simp add: ucast_up_ucast_id is_up)
qed simp

lemma rd_or_Inr: "rd_or v msg = Inr x \<longleftrightarrow> v = Some x"
  by (simp add: rd_or_def split: option.splits)

lemma bind_rd_or: "bind_result (rd_or v msg) f = Inr y \<longleftrightarrow> (\<exists>x. v = Some x \<and> f x = Inr y)"
  by (cases v) (simp_all add: rd_or_def)

lemma decode_encode_message:
  assumes "message_ok m"
  shows "decode_message (encode_message m) = success m"
proof -
  let ?b = "encode_message m"
  have l: "length (pm_payload m) < 2 ^ 32" using assms by (simp add: message_ok_def)
  have u: "unat (word_of_nat (length (pm_payload m)) :: u32) = length (pm_payload m)"
    using l by (simp add: unat_of_nat)
  have nov: "\<not> (word_of_nat (length (pm_payload m)) :: u32) > MaxPayloadSize"
    using assms by (simp add: word_less_nat_alt u MaxPayloadSize_def MaxFrameSize_def message_ok_def)
  have rd: "rd_u16_le ?b 2 = Some (pm_flags m)" "rd_u64_le ?b 4 = Some (pm_request_id m)"
    "rd_u64_le ?b 12 = Some (ce_value (pm_epoch m))" "rd_u64_le ?b 20 = Some (cg_value (pm_cache_gen m))"
    "rd_u64_le ?b 28 = Some (wid_value (pm_worker_id m))" "rd_u64_le ?b 36 = Some (wb_value (pm_worker_boot m))"
    "rd_u64_le ?b 44 = Some (gg_value (pm_graph_gen m))" "rd_u64_le ?b 52 = Some (ca_value (pm_capture_attempt m))"
    "rd_u64_le ?b 60 = Some (ra_value (pm_replay_attempt m))"
    "rd_u16_le ?b 68 = Some (ProtocolStatus_code (pm_status m))"
    "rd_u32_le ?b 70 = Some (word_of_nat (length (pm_payload m)))"
    by (simp_all add: rd_le_iff length_encode_message) (simp_all add: encode_message_def)
  have first: "?b ! 0 = ProtocolMessageType_code (pm_type m)" "?b ! Suc 0 = pm_version m" "drop 74 ?b = pm_payload m"
    by (simp_all add: encode_message_def put_u8_le_def)
  show ?thesis
    using assms
    by (simp add: decode_message_def Let_def first rd rd_or_def nov u length_encode_message kHeaderMin_def
        message_ok_def ptc.of_to psc.of_to ProtocolVersion_def)
qed

lemma decode_message_sound:
  assumes "decode_message bytes = success m"
  shows "message_ok m \<and> bytes = encode_message m"
proof -
  let ?t = "ProtocolMessageType_of (bytes ! 0)"
  have l: "74 \<le> length bytes" and t: "valid_type (ProtocolMessageType_code ?t)" and v: "bytes ! 1 = 1"
    using assms ucast_u8_u32 by (auto simp: decode_message_def Let_def kHeaderMin_def ProtocolVersion_def split: if_splits)
  have "\<exists>flags rid ep cg wid wb gg ca ra st plen.
      rd_u16_le bytes 2 = Some flags \<and> rd_u64_le bytes 4 = Some rid \<and> rd_u64_le bytes 12 = Some ep
    \<and> rd_u64_le bytes 20 = Some cg \<and> rd_u64_le bytes 28 = Some wid \<and> rd_u64_le bytes 36 = Some wb
    \<and> rd_u64_le bytes 44 = Some gg \<and> rd_u64_le bytes 52 = Some ca \<and> rd_u64_le bytes 60 = Some ra
    \<and> rd_u16_le bytes 68 = Some st \<and> rd_u32_le bytes 70 = Some plen \<and> plen \<le> MaxPayloadSize
    \<and> 74 + unat plen = length bytes
    \<and> m = \<lparr>pm_type = ?t, pm_version = 1, pm_flags = flags, pm_request_id = rid,
             pm_epoch = CoordinatorEpoch ep, pm_cache_gen = CacheGeneration cg, pm_worker_id = WorkerId wid,
             pm_worker_boot = WorkerBootId wb, pm_graph_gen = GraphGeneration gg,
             pm_capture_attempt = CaptureAttemptId ca, pm_replay_attempt = ReplayAttemptId ra,
             pm_status = ProtocolStatus_of st, pm_payload = drop 74 bytes\<rparr>"
    using assms l t v
    by (simp add: decode_message_def Let_def kHeaderMin_def ProtocolVersion_def bind_rd_or not_less split: if_splits)
  then obtain flags rid ep cg wid wb gg ca ra st plen where
    rd: "take 2 (drop 2 bytes) = put_u16_le flags" "take 8 (drop 4 bytes) = put_u64_le rid"
      "take 8 (drop 12 bytes) = put_u64_le ep" "take 8 (drop 20 bytes) = put_u64_le cg"
      "take 8 (drop 28 bytes) = put_u64_le wid" "take 8 (drop 36 bytes) = put_u64_le wb"
      "take 8 (drop 44 bytes) = put_u64_le gg" "take 8 (drop 52 bytes) = put_u64_le ca"
      "take 8 (drop 60 bytes) = put_u64_le ra" "take 2 (drop 68 bytes) = put_u16_le st"
      "take 4 (drop 70 bytes) = put_u32_le plen"
    and p: "plen \<le> MaxPayloadSize" "74 + unat plen = length bytes"
    and m: "m = \<lparr>pm_type = ?t, pm_version = 1, pm_flags = flags, pm_request_id = rid,
             pm_epoch = CoordinatorEpoch ep, pm_cache_gen = CacheGeneration cg, pm_worker_id = WorkerId wid,
             pm_worker_boot = WorkerBootId wb, pm_graph_gen = GraphGeneration gg,
             pm_capture_attempt = CaptureAttemptId ca, pm_replay_attempt = ReplayAttemptId ra,
             pm_status = ProtocolStatus_of st, pm_payload = drop 74 bytes\<rparr>"
    unfolding rd_le_iff by blast
  have len: "length (drop 74 bytes) = unat plen" using p(2) by simp
  then have pl: "word_of_nat (length bytes - 74) = plen" by simp
  have "bytes = put_u8_le (bytes ! 0) @ put_u8_le (bytes ! 1) @ drop 2 bytes"
    using l by (simp add: put_u8_le_def Cons_nth_drop_Suc numeral_2_eq_2) (metis Cons_nth_drop_Suc One_nat_def drop0 le_trans
      less_le_trans zero_less_numeral)
  also have "drop 2 bytes = put_u16_le flags @ put_u64_le rid @ put_u64_le ep @ put_u64_le cg @ put_u64_le wid
      @ put_u64_le wb @ put_u64_le gg @ put_u64_le ca @ put_u64_le ra @ put_u16_le st @ put_u32_le plen @ drop 74 bytes"
    unfolding rd [symmetric]
    using drop_split [of 2 bytes 2] drop_split [of 4 bytes 8] drop_split [of 12 bytes 8] drop_split [of 20 bytes 8]
      drop_split [of 28 bytes 8] drop_split [of 36 bytes 8] drop_split [of 44 bytes 8] drop_split [of 52 bytes 8]
      drop_split [of 60 bytes 8] drop_split [of 68 bytes 2] drop_split [of 70 bytes 4] by simp
  finally have "bytes = encode_message m"
    unfolding v by (simp add: m encode_message_def pl ptc.to_of psc.to_of)
  moreover have "message_ok m"
    using t p len by (simp add: m message_ok_def ptc.named_of psc.named_of word_le_nat_alt MaxPayloadSize_def MaxFrameSize_def)
  ultimately show ?thesis by blast
qed

section \<open>Connections\<close>

datatype recv_ev = Chunk bytes | PeerClosed | RecvFails

text \<open>\<open>tcp_read_exact\<close> with the bytes read so far; \<open>None\<close> when a call to \<open>recv\<close> never returns.\<close>

function tcp_read_loop :: "bytes \<Rightarrow> nat \<Rightarrow> recv_ev list \<Rightarrow> (bytes Result \<times> recv_ev list) option" where
  "tcp_read_loop got n evs =
     (if length got \<ge> n then Some (success got, evs) else
      case evs of
        [] \<Rightarrow> None
      | PeerClosed # evs' \<Rightarrow> Some (failure EC_ProtocolTruncated ''peer closed'', evs)
      | RecvFails # evs' \<Rightarrow> Some (failure EC_ProtocolIoError ''recv failed'', evs')
      | Chunk bs # evs' \<Rightarrow>
          if bs = [] then Some (failure EC_ProtocolTruncated ''peer closed'', evs')
          else let k = n - length got; rest = drop k bs in
            tcp_read_loop (got @ take k bs) n (if rest = [] then evs' else Chunk rest # evs'))"
  by pat_completeness auto
termination
proof (relation "measure (\<lambda>(got, n, evs). n - length got)")
  fix got bs :: bytes and n k :: nat
  assume "\<not> n \<le> length got" and "bs \<noteq> []" and "k = n - length got"
  then have "0 < length (take k bs)" by simp
  then have "n - (length got + length (take k bs)) < n - length got" using \<open>\<not> n \<le> length got\<close> by linarith
  then show "((got @ take k bs, n, evs'), got, n, evs) \<in> measure (\<lambda>(got, n, evs). n - length got)" for evs evs' :: "recv_ev list"
    by simp
qed simp

declare tcp_read_loop.simps [simp del]

definition tcp_read_exact :: "nat \<Rightarrow> recv_ev list \<Rightarrow> (bytes Result \<times> recv_ev list) option" where
  "tcp_read_exact n evs = tcp_read_loop [] n evs"

text \<open>
  \<open>tcp_write_all\<close> with the bytes sent so far: \<open>Accepts k\<close> is a call to \<open>send\<close> that takes \<open>k\<close> of
  the remaining bytes (all of them if \<open>k\<close> is larger).
\<close>

datatype send_ev = Accepts nat | SendFails

fun tcp_write_loop :: "bytes \<Rightarrow> bytes \<Rightarrow> send_ev list \<Rightarrow> (unit Result \<times> bytes \<times> send_ev list) option" where
  "tcp_write_loop sent [] evs = Some (success (), sent, evs)"
| "tcp_write_loop sent (b # bs) [] = None"
| "tcp_write_loop sent (b # bs) (SendFails # evs) = Some (failure EC_ProtocolIoError ''send failed'', sent, evs)"
| "tcp_write_loop sent (b # bs) (Accepts k # evs) =
     tcp_write_loop (sent @ take k (b # bs)) (drop k (b # bs)) evs"

definition tcp_write_all :: "bytes \<Rightarrow> send_ev list \<Rightarrow> (unit Result \<times> bytes \<times> send_ev list) option" where
  "tcp_write_all buf evs = tcp_write_loop [] buf evs"

definition frame_of :: "bytes \<Rightarrow> bytes" where
  "frame_of body = put_u32_le (word_of_nat (length body)) @ body"

definition send_frame :: "ProtocolMessage \<Rightarrow> send_ev list \<Rightarrow> (unit Result \<times> bytes \<times> send_ev list) option" where
  "send_frame m evs = (let body = encode_message m in
     if length body > unat MaxFrameSize then Some (failure EC_ProtocolOverflow ''frame exceeds max size'', [], evs)
     else tcp_write_all (frame_of body) evs)"

definition recv_frame :: "recv_ev list \<Rightarrow> (ProtocolMessage Result \<times> recv_ev list) option" where
  "recv_frame evs = (case tcp_read_exact 4 evs of
       None \<Rightarrow> None
     | Some (Inl e, evs') \<Rightarrow> Some (Inl e, evs')
     | Some (Inr lenbuf, evs') \<Rightarrow>
         let len = ucast (lenbuf ! 0) OR push_bit 8 (ucast (lenbuf ! 1))
                 OR push_bit 16 (ucast (lenbuf ! 2)) OR push_bit 24 (ucast (lenbuf ! 3)) :: u32 in
         if len = 0 then Some (failure EC_ProtocolZeroLength ''zero-length frame'', evs')
         else if len > MaxFrameSize then Some (failure EC_ProtocolOverflow ''frame exceeds max size'', evs')
         else (case tcp_read_exact (unat len) evs' of
             None \<Rightarrow> None
           | Some (Inl e, evs'') \<Rightarrow> Some (failure EC_ProtocolTruncated ''frame truncated'', evs'')
           | Some (Inr body, evs'') \<Rightarrow> Some (decode_message body, evs'')))"

text \<open>The bytes a run of chunks delivers.\<close>

fun chunk_bytes :: "recv_ev list \<Rightarrow> bytes option" where
  "chunk_bytes [] = Some []"
| "chunk_bytes (Chunk bs # evs) = (if bs = [] then None else map_option ((@) bs) (chunk_bytes evs))"
| "chunk_bytes (ev # evs) = None"

lemma tcp_read_chunks:
  "chunk_bytes evs = Some (a @ b) \<Longrightarrow> n = length got + length a \<Longrightarrow>
     \<exists>evs'. tcp_read_loop got n evs = Some (success (got @ a), evs') \<and> chunk_bytes evs' = Some b"
proof (induction got n evs arbitrary: a rule: tcp_read_loop.induct)
  case (1 got n evs)
  show ?case
  proof (cases "a = []")
    case True
    with 1 show ?thesis by (simp add: tcp_read_loop.simps)
  next
    case False
    then have lt: "\<not> length got \<ge> n" using 1 by simp
    from False 1(2) obtain bs evs' cs where evs: "evs = Chunk bs # evs'" and bs: "bs \<noteq> []"
      and cs: "chunk_bytes evs' = Some cs" "a @ b = bs @ cs"
      by (cases evs rule: chunk_bytes.cases) (auto split: if_splits)
    let ?k = "n - length got" let ?rest = "drop ?k bs"
    have k: "?k = length a" using 1 by simp
    define evs2 where "evs2 = (if ?rest = [] then evs' else Chunk ?rest # evs')"
    have "chunk_bytes evs2 = Some (drop (length bs) a @ b)"
      using cs bs by (auto simp: evs2_def k append_eq_append_conv_if split: if_splits)
    moreover have "n = length (got @ take ?k bs) + length (drop (length bs) a)" using lt k by auto
    moreover have "take ?k bs @ drop (length bs) a = a"
      using cs(2) by (auto simp: k append_eq_append_conv_if split: if_splits) (metis append_take_drop_id)
    ultimately show ?thesis
      using 1(1) [OF lt, of "Chunk bs" evs' bs ?k ?rest "drop (length bs) a"] lt bs
      by (subst tcp_read_loop.simps) (simp add: evs evs2_def Let_def)
  qed
qed

text \<open>
  C31: The message codec is exact: a body is accepted precisely when it is the encoding of the message
  returned, of a known type, the supported version and a payload within the limit. Truncated,
  extended and over-long bodies, unknown types and other versions are all rejected.
\<close>

theorem decode_message_exact:
  "decode_message bytes = success m \<longleftrightarrow> message_ok m \<and> bytes = encode_message m"
  using decode_encode_message decode_message_sound by blast

lemma le_word_4: "length lb = 4 \<Longrightarrow> lb = put_u32_le v \<Longrightarrow>
    ucast (lb ! 0) OR push_bit 8 (ucast (lb ! 1)) OR push_bit 16 (ucast (lb ! 2)) OR push_bit 24 (ucast (lb ! 3)) = v"
  using le_loop_eq [of 4 0 lb v]
  by (simp add: put_u32_le_def le_loop_def upt_rec numeral_2_eq_2 numeral_3_eq_3 or.assoc)

lemma recv_frame_message:
  assumes ok: "message_ok m" and evs: "chunk_bytes evs = Some (frame_of (encode_message m) @ rest)"
  shows "\<exists>evs'. recv_frame evs = Some (success m, evs') \<and> chunk_bytes evs' = Some rest"
proof -
  let ?b = "encode_message m" let ?n = "word_of_nat (length ?b) :: u32"
  have len: "length ?b \<le> 8 * 1024 * 1024 - 22" and pos: "length ?b > 0"
    using ok by (simp_all add: length_encode_message message_ok_def)
  have un: "unat ?n = length ?b" using len by (simp add: unat_of_nat)
  then have n0: "?n \<noteq> 0" and nmax: "\<not> ?n > MaxFrameSize"
    using len pos by (auto simp: word_less_nat_alt MaxFrameSize_def)
  from tcp_read_chunks [of evs "put_u32_le ?n" "?b @ rest" 4 "[]"] evs
  obtain evs1 where 1: "tcp_read_exact 4 evs = Some (success (put_u32_le ?n), evs1)"
    and c1: "chunk_bytes evs1 = Some (?b @ rest)" by (auto simp: frame_of_def tcp_read_exact_def)
  from tcp_read_chunks [OF c1, of "length ?b" "[]"]
  obtain evs2 where 2: "tcp_read_exact (length ?b) evs1 = Some (success ?b, evs2)"
    and c2: "chunk_bytes evs2 = Some rest" by (auto simp: tcp_read_exact_def)
  have "recv_frame evs = Some (success m, evs2)"
    using n0 nmax unfolding recv_frame_def 1 Let_def option.case prod.case sum.case
    by (simp only: le_word_4 [of _ ?n] length_put_le un 2) (simp add: decode_encode_message [OF ok])
  with c2 show ?thesis by blast
qed

text \<open>Conversations: messages sent one after the other, and read one after the other.\<close>

fun send_frames :: "ProtocolMessage list \<Rightarrow> send_ev list \<Rightarrow> (unit Result \<times> bytes) option" where
  "send_frames [] evs = Some (success (), [])"
| "send_frames (m # ms) evs = (case send_frame m evs of
     None \<Rightarrow> None
   | Some (Inl e, sent, evs') \<Rightarrow> Some (Inl e, sent)
   | Some (Inr _, sent, evs') \<Rightarrow> map_option (\<lambda>(r, rest). (r, sent @ rest)) (send_frames ms evs'))"

fun recv_frames :: "nat \<Rightarrow> recv_ev list \<Rightarrow> (ProtocolMessage Result list \<times> recv_ev list) option" where
  "recv_frames 0 evs = Some ([], evs)"
| "recv_frames (Suc n) evs = (case recv_frame evs of
     None \<Rightarrow> None
   | Some (r, evs') \<Rightarrow> map_option (\<lambda>(rs, e). (r # rs, e)) (recv_frames n evs'))"

lemma tcp_write_loop_sent:
  "tcp_write_loop sent bs evs = Some (success (), w, evs') \<Longrightarrow> w = sent @ bs"
  by (induction sent bs evs rule: tcp_write_loop.induct) auto

lemma send_frames_wire:
  "send_frames ms evs = Some (success (), wire) \<Longrightarrow> wire = concat (map (\<lambda>m. frame_of (encode_message m)) ms)"
  by (induction ms evs arbitrary: wire rule: send_frames.induct)
    (auto simp: send_frame_def tcp_write_all_def Let_def dest!: tcp_write_loop_sent split: option.splits sum.splits if_splits)

text \<open>
  C30: Framed conversations are delivered intact and in order, however TCP cuts the stream. If a run of
  well-formed messages was sent and the peer receives those bytes in chunks of any sizes, the peer's
  calls of \<open>recv_frame\<close> return exactly those messages in order and no byte is left over. The
  reading loops terminate on every connection that delivers the bytes.
\<close>

theorem frames_delivered:
  assumes "list_all message_ok ms" and "send_frames ms sevs = Some (success (), wire)"
    and "chunk_bytes evs = Some wire"
  shows "\<exists>evs'. recv_frames (length ms) evs = Some (map success ms, evs') \<and> chunk_bytes evs' = Some []"
proof -
  have "chunk_bytes evs = Some (concat (map (\<lambda>m. frame_of (encode_message m)) ms))"
    using assms send_frames_wire by simp
  with assms(1) show ?thesis
  proof (induction ms arbitrary: evs)
    case (Cons m ms)
    then obtain evs1 where "recv_frame evs = Some (success m, evs1)"
      "chunk_bytes evs1 = Some (concat (map (\<lambda>m. frame_of (encode_message m)) ms))"
      using recv_frame_message [of m evs] by auto
    with Cons show ?case by fastforce
  qed simp
qed

theorem frames_delivered_witness:
  "let m = ProtocolMessage_default\<lparr>pm_payload := [7]\<rparr>; wire = frame_of (encode_message m) in
   \<exists>evs'. recv_frames (length [m]) [Chunk (take 3 wire), Chunk (drop 3 wire)] = Some (map success [m], evs')
     \<and> chunk_bytes evs' = Some []"
proof -
  define m where "m = ProtocolMessage_default\<lparr>pm_payload := [7]\<rparr>"
  define wire where "wire = frame_of (encode_message m)"
  have "list_all message_ok [m]"
    by (simp add: m_def ProtocolMessage_default_def message_ok_def ProtocolVersion_def valid_type_def)
  moreover have len: "length (encode_message m) = 75" by (simp add: length_encode_message m_def)
  then have "length wire = 79" by (simp add: wire_def frame_of_def)
  then have "tcp_write_loop [] wire [Accepts 1000] = Some (success (), wire, [])" by (cases wire) simp_all
  then have "send_frames [m] [Accepts 1000] = Some (success (), wire)"
    using len by (simp add: send_frame_def tcp_write_all_def MaxFrameSize_def Let_def wire_def [symmetric])
  moreover have "chunk_bytes [Chunk (take 3 wire), Chunk (drop 3 wire)] = Some wire"
    using \<open>length wire = 79\<close> by auto
  ultimately show ?thesis
    using frames_delivered [of "[m]" "[Accepts 1000]" wire "[Chunk (take 3 wire), Chunk (drop 3 wire)]"]
    by (simp only: Let_def m_def wire_def)
qed

end
