(* ===== verification/GC_CpuBackend.thy ===== *)
theory GC_CpuBackend
  imports GC_Topology
begin

text \<open>
  The backend interface of \<open>include/graphcache/backend.hpp\<close> and the deterministic CPU backend of
  \<open>src/cpu_backend.cpp\<close>, with the factory registry of \<open>src/backend.cpp\<close>.

  A captured graph handle (\<open>std::shared_ptr<void>\<close>) is an option: \<open>None\<close> is the null pointer. Memory
  is a map from buffer handles to the bytes of the buffer; the pointers in \<open>ReplayBuffers\<close> are such
  handles, so that an input and an output may be the same buffer. An access outside a buffer, and a
  \<open>memcpy\<close> onto itself, is undefined behaviour in C++: the outcome \<open>None\<close> of the model. Floats are
  their bit patterns in little-endian lanes; multiplication, addition and the conversions to
  \<open>float\<close> are the parameter \<open>float_ops\<close>, of which nothing is assumed.
\<close>

section \<open>Backend interface\<close>

record ReplayDescriptor =
  rd_attempt :: ReplayAttemptId
  rd_timestamp_ms :: u64
  rd_expected_replays :: u32
  rd_reason :: string

type_synonym buffer = nat

record ReplayBuffers =
  rb_inputs :: "buffer list"
  rb_outputs :: "buffer list"
  rb_input_bytes :: "u64 list"
  rb_output_bytes :: "u64 list"

datatype RebindRole = RR_InputBuffer | RR_OutputBuffer | RR_KernelParam | RR_MemcpySrc | RR_MemcpyDst
    | RR_MemsetTarget | RR_LaunchGeometry

record RebindUpdate =
  ru_role :: RebindRole
  ru_address :: "buffer option"

record RebindSpec =
  rs_updates :: "RebindUpdate list"
  rs_geometry :: "LaunchGeometry option"

record GraphReplayResult =
  gr_ok :: bool
  gr_attempt :: u64
  gr_replayed_nodes :: u64
  gr_digest :: bytes
  gr_digest_hex :: string
  gr_latency_us :: u64

type_synonym memory = "buffer \<Rightarrow> bytes option"

section \<open>Captured CPU graphs\<close>

datatype CpuKernel = CK_Identity | CK_Scale | CK_AddScalar | CK_Linear | CK_Square | CK_Relu

record CpuNode =
  cn_id :: GraphNodeId
  cn_category :: NodeCategory
  cn_kernel_name :: string
  cn_kernel :: CpuKernel
  cn_src :: u32
  cn_dst :: u32
  cn_bytes :: u64
  cn_memset :: u8
  cn_scalar :: ScalarSpecialization
  cn_datatype :: Datatype

record CpuGraph =
  cpu_nodes :: "CpuNode list"
  cpu_edges :: "GraphEdgeDescriptor list"
  cpu_order :: "GraphNodeId list"
  cpu_total_bytes :: u64
  cpu_edge_count :: u64

definition classify_kernel :: "GraphNodeDescriptor \<Rightarrow> CpuKernel" where
  "classify_kernel n = (let name = k_name (n_kernel n) in
     if name = ''identity'' then CK_Identity
     else if name = ''scale'' then CK_Scale
     else if name = ''addscalar'' then CK_AddScalar
     else if name = ''linear'' then CK_Linear
     else if name = ''square'' then CK_Square
     else if name = ''relu'' then CK_Relu
     else CK_Identity)"

definition element_count :: "CpuNode \<Rightarrow> u64" where
  "element_count n = cn_bytes n div 4"

definition cpu_identity :: BackendIdentity where
  "cpu_identity = \<lparr>bk_kind = BK_Cpu, bk_name = ''cpu'', bk_version = 1, bk_impl = ''graphcache-cpu-dag''\<rparr>"

definition cpu_node :: "GraphNodeDescriptor \<Rightarrow> CpuNode" where
  "cpu_node n = \<lparr>cn_id = n_id n, cn_category = n_category n, cn_kernel_name = k_name (n_kernel n),
     cn_kernel = classify_kernel n,
     cn_src = (if n_inputs n \<noteq> [] then hd (n_inputs n) else 0),
     cn_dst = (if n_outputs n \<noteq> [] then hd (n_outputs n) else 0),
     cn_bytes = n_memory_bytes n, cn_memset = n_memset_value n, cn_scalar = n_scalar n,
     cn_datatype = n_datatype n\<rparr>"

fun collect_nodes :: "GraphNodeId set \<Rightarrow> GraphNodeDescriptor list \<Rightarrow> GraphNodeDescriptor list" where
  "collect_nodes seen [] = []"
| "collect_nodes seen (n # ns) =
     (if n_id n \<in> seen then collect_nodes seen ns else n # collect_nodes (insert (n_id n) seen) ns)"

lemma sort_ConsD: "sort xs = y # ys \<Longrightarrow> length xs = Suc (length ys)"
  by (metis length_Cons length_sort)

function cpu_order_loop :: "(GraphNodeId \<Rightarrow> GraphNodeId list) \<Rightarrow> degrees \<Rightarrow> GraphNodeId list
    \<Rightarrow> GraphNodeId list \<Rightarrow> GraphNodeId list" where
  "cpu_order_loop adj d ready order = (case sort ready of
       [] \<Rightarrow> order
     | cur # rest \<Rightarrow> (case relax (adj cur) d rest of (d', ready') \<Rightarrow>
         cpu_order_loop adj d' ready' (order @ [cur])))"
  by pat_completeness auto
termination
  by (relation "measure (\<lambda>(adj, d, ready, order). 2 * sum_list (map snd d) + length ready)")
    (auto dest!: sort_ConsD relax_measure [OF sym])

declare cpu_order_loop.simps [simp del]

definition cpu_capture :: "(GraphNodeId list \<Rightarrow> GraphNodeId list) \<Rightarrow> GraphDescriptor \<Rightarrow> CpuGraph option Result" where
  "cpu_capture ord desc = bind_result (validate_graph ord desc) (\<lambda>_.
     let kept = collect_nodes {} (g_nodes desc);
         d = in_degree (g_nodes desc) (g_edges desc);
         ready = filter (\<lambda>v. deg_of d v = 0) (ord (map fst d))
     in success (Some \<lparr>cpu_nodes = map cpu_node kept, cpu_edges = g_edges desc,
          cpu_order = cpu_order_loop (adjacency (g_edges desc)) d ready [],
          cpu_total_bytes = sum_list (map n_memory_bytes kept),
          cpu_edge_count = word_of_nat (length (g_edges desc))\<rparr>))"

definition cpu_load :: "GraphDescriptor \<Rightarrow> CpuGraph option \<Rightarrow> unit Result" where
  "cpu_load desc exec = success ()"

definition cpu_validate :: "(GraphNodeId list \<Rightarrow> GraphNodeId list) \<Rightarrow> GraphDescriptor \<Rightarrow> CpuGraph option \<Rightarrow> unit Result" where
  "cpu_validate ord desc exec = (case exec of
       None \<Rightarrow> failure EC_InvalidArgument ''null cpu graph handle''
     | Some g \<Rightarrow> bind_result (validate_graph ord desc) (\<lambda>_. success ()))"

definition cpu_rebind :: "GraphDescriptor \<Rightarrow> CpuGraph option \<Rightarrow> RebindSpec \<Rightarrow> unit Result" where
  "cpu_rebind desc exec spec = (case exec of
       None \<Rightarrow> failure EC_InvalidArgument ''null cpu graph handle''
     | Some g \<Rightarrow> success ())"

definition cpu_can_rebind :: "GraphDescriptor \<Rightarrow> bool Result" where
  "cpu_can_rebind desc = success (\<not> list_ex (\<lambda>n.
     bd_class (n_binding n) = BC_RecaptureRequired \<or> bd_class (n_binding n) = BC_Immutable) (g_nodes desc))"

definition cpu_unload :: "GraphDescriptor \<Rightarrow> CpuGraph option \<Rightarrow> unit Result \<times> CpuGraph option" where
  "cpu_unload desc exec = (success (), None)"

definition cpu_resident_bytes :: "GraphDescriptor \<Rightarrow> u64" where
  "cpu_resident_bytes desc = sum_list (map n_memory_bytes (g_nodes desc))"

section \<open>Replay\<close>

record float_ops =
  fl_mul :: "f32 \<Rightarrow> f32 \<Rightarrow> f32"
  fl_add :: "f32 \<Rightarrow> f32 \<Rightarrow> f32"
  fl_of_f64 :: "f64 \<Rightarrow> f32"
  fl_of_i64 :: "i64 \<Rightarrow> f32"

text \<open>\<open>x > 0.0f\<close> on the bit pattern: positive, not zero and not a NaN.\<close>

definition f32_positive :: "f32 \<Rightarrow> bool" where
  "f32_positive x \<longleftrightarrow> 0 < x \<and> x \<le> 0x7f800000"

definition kernel_lane :: "float_ops \<Rightarrow> CpuKernel \<Rightarrow> f32 \<Rightarrow> f32 \<Rightarrow> f32 \<Rightarrow> f32" where
  "kernel_lane fl op a b x = (case op of
       CK_Identity \<Rightarrow> x
     | CK_Scale \<Rightarrow> fl_mul fl x a
     | CK_AddScalar \<Rightarrow> fl_add fl x a
     | CK_Linear \<Rightarrow> fl_add fl (fl_mul fl x b) a
     | CK_Square \<Rightarrow> fl_mul fl x x
     | CK_Relu \<Rightarrow> if f32_positive x then x else 0)"

definition load_lane :: "memory \<Rightarrow> buffer \<Rightarrow> nat \<Rightarrow> f32 option" where
  "load_lane mem p i = (case mem p of
       None \<Rightarrow> None
     | Some b \<Rightarrow> if 4 * i + 4 > length b then None else Some (le_loop 4 b (4 * i)))"

definition store_lane :: "memory \<Rightarrow> buffer \<Rightarrow> nat \<Rightarrow> f32 \<Rightarrow> memory option" where
  "store_lane mem p i v = (case mem p of
       None \<Rightarrow> None
     | Some b \<Rightarrow> if 4 * i + 4 > length b then None
                 else Some (mem(p \<mapsto> take (4 * i) b @ le_bytes 4 v @ drop (4 * i + 4) b)))"

fun kernel_loop :: "(f32 \<Rightarrow> f32) \<Rightarrow> buffer \<Rightarrow> buffer \<Rightarrow> nat list \<Rightarrow> memory \<Rightarrow> memory option" where
  "kernel_loop f src dst [] mem = Some mem"
| "kernel_loop f src dst (i # is) mem = do {
     x \<leftarrow> load_lane mem src i;
     mem' \<leftarrow> store_lane mem dst i (f x);
     kernel_loop f src dst is mem' }"

definition run_cpu_kernel :: "float_ops \<Rightarrow> CpuKernel \<Rightarrow> buffer \<Rightarrow> buffer \<Rightarrow> u64 \<Rightarrow> ScalarSpecialization
    \<Rightarrow> memory \<Rightarrow> memory option" where
  "run_cpu_kernel fl op src dst n sc mem =
     (let a = fl_of_f64 fl (sc_float sc); b = fl_of_i64 fl (sc_int sc)
      in kernel_loop (kernel_lane fl op a b) src dst [0..<unat n] mem)"

definition mem_copy :: "buffer \<Rightarrow> buffer \<Rightarrow> nat \<Rightarrow> memory \<Rightarrow> memory option" where
  "mem_copy dst src n mem = (case (mem dst, mem src) of
       (Some d, Some s) \<Rightarrow>
         if n > length d \<or> n > length s \<or> (dst = src \<and> n > 0) then None
         else Some (mem(dst \<mapsto> take n s @ drop n d))
     | _ \<Rightarrow> None)"

definition mem_set :: "buffer \<Rightarrow> u8 \<Rightarrow> nat \<Rightarrow> memory \<Rightarrow> memory option" where
  "mem_set dst v n mem = (case mem dst of
       None \<Rightarrow> None
     | Some d \<Rightarrow> if n > length d then None else Some (mem(dst \<mapsto> replicate n v @ drop n d)))"

definition read_mem :: "buffer \<Rightarrow> nat \<Rightarrow> memory \<Rightarrow> bytes option" where
  "read_mem p n mem = (case mem p of None \<Rightarrow> None | Some b \<Rightarrow> if n > length b then None else Some (take n b))"

text \<open>
  One node of the replay order. A node that fails stops the replay with an error, but what earlier
  nodes wrote stays written.
\<close>

record replay_state =
  rp_mem :: memory
  rp_hash :: Sha256
  rp_count :: u64

definition replay_node :: "float_ops \<Rightarrow> ReplayBuffers \<Rightarrow> CpuNode \<Rightarrow> replay_state
    \<Rightarrow> (unit Result \<times> replay_state) option" where
  "replay_node fl bufs node st =
    (let src = unat (cn_src node); dst = unat (cn_dst node); n = unat (cn_bytes node) in
     case cn_category node of
       NC_MemoryCopy \<Rightarrow>
         if src \<ge> length (rb_inputs bufs) \<or> dst \<ge> length (rb_outputs bufs)
         then Some (failure EC_InvalidArgument ''memory copy buffer out of range'', st)
         else do {
           mem \<leftarrow> mem_copy (rb_outputs bufs ! dst) (rb_inputs bufs ! src) n (rp_mem st);
           Some (success (), st\<lparr>rp_mem := mem, rp_count := rp_count st + 1\<rparr>) }
     | NC_MemorySet \<Rightarrow>
         if dst \<ge> length (rb_outputs bufs)
         then Some (failure EC_InvalidArgument ''memset buffer out of range'', st)
         else do {
           mem \<leftarrow> mem_set (rb_outputs bufs ! dst) (cn_memset node) n (rp_mem st);
           Some (success (), st\<lparr>rp_mem := mem, rp_count := rp_count st + 1\<rparr>) }
     | NC_Kernel \<Rightarrow>
         if src \<ge> length (rb_inputs bufs) \<or> dst \<ge> length (rb_outputs bufs)
         then Some (failure EC_InvalidArgument ''kernel buffer out of range'', st)
         else do {
           mem \<leftarrow> run_cpu_kernel fl (cn_kernel node) (rb_inputs bufs ! src) (rb_outputs bufs ! dst)
                    (element_count node) (cn_scalar node) (rp_mem st);
           out \<leftarrow> read_mem (rb_outputs bufs ! dst) n mem;
           Some (success (), st\<lparr>rp_mem := mem, rp_hash := sha_update (rp_hash st) out, rp_count := rp_count st + 1\<rparr>) }
     | _ \<Rightarrow> Some (success (), st))"

fun replay_loop :: "float_ops \<Rightarrow> CpuGraph \<Rightarrow> ReplayBuffers \<Rightarrow> GraphNodeId list \<Rightarrow> replay_state
    \<Rightarrow> (unit Result \<times> replay_state) option" where
  "replay_loop fl g bufs [] st = Some (success (), st)"
| "replay_loop fl g bufs (nid # nids) st =
    (case find (\<lambda>n. cn_id n = nid) (cpu_nodes g) of
       None \<Rightarrow> Some (failure EC_TopologyInvalid ''unknown node in replay order'', st)
     | Some node \<Rightarrow> (case replay_node fl bufs node st of
           None \<Rightarrow> None
         | Some (Inl e, st') \<Rightarrow> Some (Inl e, st')
         | Some (Inr _, st') \<Rightarrow> replay_loop fl g bufs nids st'))"

definition cpu_replay :: "float_ops \<Rightarrow> CpuGraph option \<Rightarrow> ReplayBuffers \<Rightarrow> ReplayDescriptor \<Rightarrow> memory
    \<Rightarrow> (GraphReplayResult Result \<times> memory) option" where
  "cpu_replay fl exec bufs rd mem = (case exec of
       None \<Rightarrow> Some (failure EC_InvalidArgument ''null cpu graph handle'', mem)
     | Some g \<Rightarrow> (case replay_loop fl g bufs (cpu_order g) \<lparr>rp_mem = mem, rp_hash = sha_reset, rp_count = 0\<rparr> of
           None \<Rightarrow> None
         | Some (Inl e, st) \<Rightarrow> Some (Inl e, rp_mem st)
         | Some (Inr _, st) \<Rightarrow>
             let digest = sha_final (rp_hash st) in
             Some (success \<lparr>gr_ok = True, gr_attempt = ra_value (rd_attempt rd),
                    gr_replayed_nodes = rp_count st, gr_digest = digest, gr_digest_hex = sha_hex digest,
                    gr_latency_us = 0\<rparr>, rp_mem st)))"

section \<open>The factory registry\<close>

text \<open>\<open>'b\<close> is the type of backends; a factory is represented by the backend it creates.\<close>

definition register_backend_factory :: "string \<Rightarrow> 'b \<Rightarrow> (string \<rightharpoonup> 'b) \<Rightarrow> (string \<rightharpoonup> 'b)" where
  "register_backend_factory name fac reg = reg(name \<mapsto> fac)"

definition create_backend :: "'b \<Rightarrow> (string \<rightharpoonup> 'b) \<Rightarrow> BackendKind \<Rightarrow> 'b option" where
  "create_backend cpu reg kind =
     (if kind = BK_Cpu then Some cpu
      else if kind = BK_Cuda then reg ''cuda-graph''
      else None)"

section \<open>The replay order\<close>

text \<open>
  The order is specified without the algorithm: each node is the least of those whose predecessors
  all come before it. Such a listing is unique.
\<close>

definition ready_after :: "GraphNodeId set \<Rightarrow> GraphEdgeDescriptor list \<Rightarrow> GraphNodeId list \<Rightarrow> GraphNodeId set" where
  "ready_after V es vs = {v \<in> V. v \<notin> set vs \<and> (\<forall>e \<in> set es. e_to e = v \<longrightarrow> e_from e \<in> set vs)}"

definition least_topo :: "GraphNodeId set \<Rightarrow> GraphEdgeDescriptor list \<Rightarrow> GraphNodeId list \<Rightarrow> bool" where
  "least_topo V es vs \<longleftrightarrow> (\<forall>i < length vs. vs ! i \<in> ready_after V es (take i vs)
     \<and> (\<forall>v \<in> ready_after V es (take i vs). vs ! i \<le> v))"

lemma least_topo_unique:
  assumes "least_topo V es vs" and "least_topo V es ws" and "length vs = length ws"
  shows "vs = ws"
proof -
  have "take n vs = take n ws" if "n \<le> length vs" for n
    using that
  proof (induction n)
    case (Suc n)
    then have IH: "take n vs = take n ws" and n: "n < length vs" "n < length ws" using assms(3) by auto
    have "vs ! n \<in> ready_after V es (take n vs)" "\<forall>v \<in> ready_after V es (take n vs). vs ! n \<le> v"
      "ws ! n \<in> ready_after V es (take n ws)" "\<forall>v \<in> ready_after V es (take n ws). ws ! n \<le> v"
      using assms(1,2) n unfolding least_topo_def by blast+
    then have "vs ! n = ws ! n" unfolding IH by (meson order_antisym)
    with IH n show ?case by (simp add: take_Suc_conv_app_nth)
  qed simp
  from this [of "length vs"] assms(3) show ?thesis by simp
qed

lemma least_topo_snoc:
  assumes "least_topo V es vs" and "v \<in> ready_after V es vs" and "\<And>w. w \<in> ready_after V es vs \<Longrightarrow> v \<le> w"
  shows "least_topo V es (vs @ [v])"
  using assms by (auto simp: least_topo_def nth_append less_Suc_eq)

lemma kahn_ready: "kahn_inv V es popped ready d \<Longrightarrow> set ready = ready_after V es popped"
  by (auto simp: kahn_inv_def ready_after_def pending_in_def filter_empty_conv)

lemma kahn_inv_perm: "kahn_inv V es popped ready d \<Longrightarrow> mset ready' = mset ready \<Longrightarrow> kahn_inv V es popped ready' d"
  using mset_eq_setD [of ready' ready] mset_eq_imp_distinct_iff [of ready' ready]
  by (auto simp: kahn_inv_def)

lemma cpu_order_loop_inv:
  assumes "distinct (edge_pairs es)" and "e_to ` set es \<subseteq> V"
    and "kahn_inv V es popped ready d" and "least_topo V es popped"
  shows "\<exists>d'. kahn_inv V es (cpu_order_loop (adjacency es) d ready popped) [] d'
     \<and> least_topo V es (cpu_order_loop (adjacency es) d ready popped)"
  using assms(3,4)
proof (induction "adjacency es" d ready popped rule: cpu_order_loop.induct)
  case (1 d ready popped)
  show ?case
  proof (cases "sort ready")
    case Nil
    then have "ready = []" by (metis length_0_conv length_sort)
    with 1 show ?thesis by (auto simp: cpu_order_loop.simps [of _ d "[]"])
  next
    case (Cons cur rest)
    obtain d' ready' where r: "relax (adjacency es cur) d rest = (d', ready')" by fastforce
    have "mset (cur # rest) = mset ready" using Cons by (metis mset_sort)
    with 1 have inv: "kahn_inv V es popped (cur # rest) d" by (blast intro: kahn_inv_perm)
    have "sorted (cur # rest)" using Cons by (metis sorted_sort)
    then have least: "\<And>w. w \<in> ready_after V es popped \<Longrightarrow> cur \<le> w"
      using kahn_ready [OF inv] by fastforce
    have "cur \<in> ready_after V es popped" using kahn_ready [OF inv] by auto
    then have "least_topo V es (popped @ [cur])" using least by (rule least_topo_snoc [OF 1(3)])
    with 1(1) [OF Cons r [symmetric]] kahn_inv_relax [OF inv assms(1,2) r] Cons r
    show ?thesis by (simp add: cpu_order_loop.simps [of _ d ready])
  qed
qed

lemma collect_nodes_distinct:
  "distinct (map n_id ns) \<Longrightarrow> n_id ` set ns \<inter> seen = {} \<Longrightarrow> collect_nodes seen ns = ns"
  by (induction seen ns rule: collect_nodes.induct) auto

lemma validate_graph_iff:
  "(\<And>xs. mset (ord xs) = mset xs) \<Longrightarrow> validate_graph ord g = success () \<longleftrightarrow> topology_ok (g_nodes g) (g_edges g)"
  by (simp add: validate_graph_def validate_topology_iff)

lemma cpu_capture_order:
  assumes ord: "\<And>xs. mset (ord xs) = mset xs" and top: "topology_ok ns es"
  defines "vs \<equiv> cpu_order_loop (adjacency es) (in_degree ns es)
      (filter (\<lambda>v. deg_of (in_degree ns es) v = 0) (ord (map fst (in_degree ns es)))) []"
  shows "distinct vs" and "set vs = n_id ` set ns" and "least_topo (n_id ` set ns) es vs"
proof -
  let ?V = "n_id ` set ns" and ?d = "in_degree ns es"
  let ?r = "filter (\<lambda>v. deg_of ?d v = 0) (ord (map fst ?d))"
  have dp: "distinct (edge_pairs es)" and ends: "\<And>e. e \<in> set es \<Longrightarrow> e_from e \<in> ?V \<and> e_to e \<in> ?V"
    and ac: "acyclic (set (edge_pairs es))"
    using top by (auto simp: topology_ok_def topology_shape_def list_all_iff)
  then have eto: "e_to ` set es \<subseteq> ?V" by auto
  note D = in_degree_spec [OF eto]
  have "set (ord (map fst ?d)) = ?V" and "distinct (ord (map fst ?d))"
    using D ord [of "map fst ?d"] mset_eq_imp_distinct_iff [OF ord] mset_eq_setD [OF ord] by auto
  then have "kahn_inv ?V es [] ?r ?d"
    by (auto simp: kahn_inv_def D(3) pending_in_def topo_prefix_def)
  from cpu_order_loop_inv [OF dp eto this] obtain d' where k: "kahn_inv ?V es vs [] d'" and "least_topo ?V es vs"
    by (auto simp: vs_def least_topo_def)
  then show "least_topo ?V es vs" "distinct vs" "set vs = ?V"
    using acyclic_all_done [OF ac k ends] by (auto simp: kahn_inv_def)
qed

lemma cpu_capture_success:
  assumes ord: "\<And>xs. mset (ord xs) = mset xs" and "cpu_capture ord desc = success x"
  shows "topology_ok (g_nodes desc) (g_edges desc)"
    and "x = Some \<lparr>cpu_nodes = map cpu_node (g_nodes desc), cpu_edges = g_edges desc,
          cpu_order = cpu_order_loop (adjacency (g_edges desc)) (in_degree (g_nodes desc) (g_edges desc))
            (filter (\<lambda>v. deg_of (in_degree (g_nodes desc) (g_edges desc)) v = 0)
              (ord (map fst (in_degree (g_nodes desc) (g_edges desc))))) [],
          cpu_total_bytes = cpu_resident_bytes desc, cpu_edge_count = word_of_nat (length (g_edges desc))\<rparr>"
proof -
  obtain u where "validate_graph ord desc = success u"
    using assms(2) by (auto simp: cpu_capture_def dest!: bind_result_InrD)
  then show top: "topology_ok (g_nodes desc) (g_edges desc)" using validate_graph_iff [OF ord] by simp
  then have "collect_nodes {} (g_nodes desc) = g_nodes desc"
    by (intro collect_nodes_distinct) (simp_all add: topology_ok_def topology_shape_def)
  then show "x = Some \<lparr>cpu_nodes = map cpu_node (g_nodes desc), cpu_edges = g_edges desc,
          cpu_order = cpu_order_loop (adjacency (g_edges desc)) (in_degree (g_nodes desc) (g_edges desc))
            (filter (\<lambda>v. deg_of (in_degree (g_nodes desc) (g_edges desc)) v = 0)
              (ord (map fst (in_degree (g_nodes desc) (g_edges desc))))) [],
          cpu_total_bytes = cpu_resident_bytes desc, cpu_edge_count = word_of_nat (length (g_edges desc))\<rparr>"
    using assms(2) \<open>validate_graph ord desc = success u\<close>
    by (simp add: cpu_capture_def Let_def cpu_resident_bytes_def)
qed

text \<open>
  Capturing on the CPU backend gives the graph one canonical execution order, independent of
  hash-map iteration: every node occurs exactly once, after all its predecessors, and is the least of
  the nodes that were ready when it was chosen. Any other iteration order of the hash map captures
  the same graph.
\<close>

theorem cpu_capture_canonical:
  assumes "\<And>xs. mset (ord xs) = mset xs" and "\<And>xs. mset (ord' xs) = mset xs"
    and "cpu_capture ord desc = success (Some g)"
  shows "distinct (cpu_order g) \<and> set (cpu_order g) = n_id ` set (g_nodes desc)
     \<and> least_topo (n_id ` set (g_nodes desc)) (g_edges desc) (cpu_order g)
     \<and> cpu_capture ord' desc = success (Some g)"
proof -
  note top = cpu_capture_success(1) [OF assms(1,3)]
  have g: "cpu_order g = cpu_order_loop (adjacency (g_edges desc)) (in_degree (g_nodes desc) (g_edges desc))
            (filter (\<lambda>v. deg_of (in_degree (g_nodes desc) (g_edges desc)) v = 0)
              (ord (map fst (in_degree (g_nodes desc) (g_edges desc))))) []"
    using cpu_capture_success(2) [OF assms(1,3)] by simp
  note o = cpu_capture_order [OF assms(1) top, folded g]
  have "validate_graph ord' desc = success ()" using validate_graph_iff [OF assms(2)] top by simp
  then obtain g' where g': "cpu_capture ord' desc = success (Some g')" by (simp add: cpu_capture_def Let_def)
  have "cpu_order g' = cpu_order_loop (adjacency (g_edges desc)) (in_degree (g_nodes desc) (g_edges desc))
            (filter (\<lambda>v. deg_of (in_degree (g_nodes desc) (g_edges desc)) v = 0)
              (ord' (map fst (in_degree (g_nodes desc) (g_edges desc))))) []"
    using cpu_capture_success(2) [OF assms(2) g'] by simp
  note o' = cpu_capture_order [OF assms(2) top, folded this]
  have "cpu_order g' = cpu_order g"
    using o o' by (intro least_topo_unique [OF o'(3) o(3)]) (metis distinct_card)
  then have "g' = g"
    using cpu_capture_success(2) [OF assms(2) g'] cpu_capture_success(2) [OF assms(1,3)] by simp
  with o g' show ?thesis by simp
qed

theorem cpu_capture_canonical_witness:
  "let desc = GraphDescriptor_default\<lparr>g_nodes := [example_node 2, example_node 1], g_edges := [example_edge 1 2 1]\<rparr> in
   \<exists>g. cpu_capture id desc = success (Some g) \<and> cpu_capture rev desc = success (Some g)
     \<and> set (cpu_order g) = {GraphNodeId 0 1, GraphNodeId 0 2}"
proof -
  let ?d = "GraphDescriptor_default\<lparr>g_nodes := [example_node 2, example_node 1], g_edges := [example_edge 1 2 1]\<rparr>"
  have "topology_ok (g_nodes ?d) (g_edges ?d)"
    by (simp add: topology_ok_def topology_shape_def edge_pairs_def example_simps acyclic_insert wf_acyclic)
  then have "validate_graph id ?d = success ()" using validate_graph_iff [of id ?d] by simp
  then obtain g where g: "cpu_capture id ?d = success (Some g)" by (simp add: cpu_capture_def Let_def)
  have "n_id ` set (g_nodes ?d) = {GraphNodeId 0 1, GraphNodeId 0 2}" by (auto simp: example_simps)
  with cpu_capture_canonical [of id rev ?d g] g show ?thesis by (auto simp: Let_def)
qed

section \<open>What a replay computes\<close>

definition lanes :: "(f32 \<Rightarrow> f32) \<Rightarrow> bytes \<Rightarrow> nat \<Rightarrow> bytes" where
  "lanes f s n = concat (map (\<lambda>i. le_bytes 4 (f (le_loop 4 s (4 * i)))) [0..<n])"

lemma length_lanes [simp]: "length (lanes f s n) = 4 * n"
  by (induction n) (simp_all add: lanes_def)

lemma le_loop_append: "length pre = off \<Longrightarrow> le_loop k (pre @ rest) off = le_loop k rest 0"
  by (simp add: le_loop_def nth_append)

lemma le_loop_drop: "off + k \<le> length xs \<Longrightarrow> le_loop k (drop off xs) 0 = le_loop k xs off"
  unfolding le_loop_def by (intro foldl_cong) auto

lemma kernel_loop_append:
  "kernel_loop f src dst (is @ js) mem = Option.bind (kernel_loop f src dst is mem) (kernel_loop f src dst js)"
  by (induction "is" arbitrary: mem) (auto split: Option.bind_splits)

text \<open>The loop writes lane by lane; it is the elementwise map even when source and destination are one buffer.\<close>

lemma kernel_loop_lanes:
  assumes "mem src = Some s" and "mem dst = Some d" and "4 * n \<le> length s" and "4 * n \<le> length d"
  shows "kernel_loop f src dst [0..<n] mem = Some (mem(dst \<mapsto> lanes f s n @ drop (4 * n) d))"
  using assms(3,4)
proof (induction n)
  case 0
  then show ?case using assms(2) by (simp add: lanes_def fun_upd_idem)
next
  case (Suc n)
  let ?mem = "mem(dst \<mapsto> lanes f s n @ drop (4 * n) d)"
  have IH: "kernel_loop f src dst [0..<n] mem = Some ?mem"
    by (rule Suc.IH) (use Suc.prems in simp_all)
  have load: "load_lane ?mem src n = Some (le_loop 4 s (4 * n))"
  proof (cases "src = dst")
    case True
    with assms have "s = d" by simp
    have "le_loop 4 (lanes f s n @ drop (4 * n) d) (4 * n) = (le_loop 4 (drop (4 * n) d) 0 :: f32)"
      by (rule le_loop_append) simp
    also have "\<dots> = le_loop 4 s (4 * n)" unfolding \<open>s = d\<close> using Suc by (intro le_loop_drop) simp
    finally show ?thesis using True Suc by (simp add: load_lane_def)
  next
    case False
    then show ?thesis using assms(1) Suc by (simp add: load_lane_def)
  qed
  have store: "store_lane ?mem dst n v = Some (mem(dst \<mapsto> lanes f s n @ le_bytes 4 v @ drop (4 * Suc n) d))" for v
    using Suc by (simp add: store_lane_def add.commute)
  have "lanes f s (Suc n) = lanes f s n @ le_bytes 4 (f (le_loop 4 s (4 * n)))" by (simp add: lanes_def)
  then have "kernel_loop f src dst [0..<Suc n] mem = Some (mem(dst \<mapsto> lanes f s (Suc n) @ drop (4 * Suc n) d))"
    unfolding upt_Suc_append [OF le0] kernel_loop_append IH by (simp add: load store del: fun_upd_apply mult_Suc_right)
  then show ?case .
qed

text \<open>The buffers are large enough for a node, and what the node then does to memory and to the digest.\<close>

definition holds :: "memory \<Rightarrow> buffer list \<Rightarrow> u32 \<Rightarrow> u64 \<Rightarrow> bool" where
  "holds mem bs i n \<longleftrightarrow> unat i < length bs \<and> (\<exists>b. mem (bs ! unat i) = Some b \<and> unat n \<le> length b)"

definition node_fits :: "ReplayBuffers \<Rightarrow> memory \<Rightarrow> CpuNode \<Rightarrow> bool" where
  "node_fits bufs mem n \<longleftrightarrow> (case cn_category n of
       NC_Kernel \<Rightarrow> holds mem (rb_inputs bufs) (cn_src n) (cn_bytes n) \<and> holds mem (rb_outputs bufs) (cn_dst n) (cn_bytes n)
     | NC_MemoryCopy \<Rightarrow> holds mem (rb_inputs bufs) (cn_src n) (cn_bytes n)
         \<and> holds mem (rb_outputs bufs) (cn_dst n) (cn_bytes n)
         \<and> rb_inputs bufs ! unat (cn_src n) \<noteq> rb_outputs bufs ! unat (cn_dst n)
     | NC_MemorySet \<Rightarrow> holds mem (rb_outputs bufs) (cn_dst n) (cn_bytes n)
     | _ \<Rightarrow> True)"

definition active :: "CpuNode \<Rightarrow> bool" where
  "active n \<longleftrightarrow> cn_category n \<in> {NC_Kernel, NC_MemoryCopy, NC_MemorySet}"

definition node_effect :: "float_ops \<Rightarrow> ReplayBuffers \<Rightarrow> CpuNode \<Rightarrow> memory \<Rightarrow> memory \<times> bytes" where
  "node_effect fl bufs n mem =
     (let src = the (mem (rb_inputs bufs ! unat (cn_src n))); dst = rb_outputs bufs ! unat (cn_dst n);
          old = the (mem dst); k = unat (cn_bytes n);
          f = kernel_lane fl (cn_kernel n) (fl_of_f64 fl (sc_float (cn_scalar n))) (fl_of_i64 fl (sc_int (cn_scalar n)))
      in case cn_category n of
           NC_Kernel \<Rightarrow> let out = lanes f src (k div 4) @ drop (4 * (k div 4)) old in (mem(dst \<mapsto> out), take k out)
         | NC_MemoryCopy \<Rightarrow> (mem(dst \<mapsto> take k src @ drop k old), [])
         | NC_MemorySet \<Rightarrow> (mem(dst \<mapsto> replicate k (cn_memset n) @ drop k old), [])
         | _ \<Rightarrow> (mem, []))"

fun run_nodes :: "float_ops \<Rightarrow> ReplayBuffers \<Rightarrow> CpuNode list \<Rightarrow> memory \<Rightarrow> memory \<times> bytes" where
  "run_nodes fl bufs [] mem = (mem, [])"
| "run_nodes fl bufs (n # ns) mem = (case node_effect fl bufs n mem of (mem1, out1) \<Rightarrow>
     case run_nodes fl bufs ns mem1 of (mem2, out2) \<Rightarrow> (mem2, out1 @ out2))"

lemma unat_div_4: "unat (x div 4 :: u64) = unat x div 4"
  by (simp add: unat_div)

lemma replay_node_effect:
  assumes "node_fits bufs (rp_mem st) n"
  shows "replay_node fl bufs n st = Some (success (), (case node_effect fl bufs n (rp_mem st) of (mem, out) \<Rightarrow>
     st\<lparr>rp_mem := mem, rp_hash := (if cn_category n = NC_Kernel then sha_update (rp_hash st) out else rp_hash st),
        rp_count := rp_count st + (if active n then 1 else 0)\<rparr>))"
proof (cases "cn_category n")
  case NC_Kernel
  with assms obtain s d where m: "rp_mem st (rb_inputs bufs ! unat (cn_src n)) = Some s"
    "rp_mem st (rb_outputs bufs ! unat (cn_dst n)) = Some d"
    "unat (cn_bytes n) \<le> length s" "unat (cn_bytes n) \<le> length d"
    and i: "unat (cn_src n) < length (rb_inputs bufs)" "unat (cn_dst n) < length (rb_outputs bufs)"
    by (auto simp: node_fits_def holds_def)
  have "4 * (unat (cn_bytes n) div 4) \<le> length s" "4 * (unat (cn_bytes n) div 4) \<le> length d" using m(3,4) by auto
  note k = kernel_loop_lanes [OF m(1,2) this]
  have "unat (cn_bytes n) \<le> 4 * (unat (cn_bytes n) div 4) + (length d - 4 * (unat (cn_bytes n) div 4))"
    using m(4) by simp
  then show ?thesis
    using NC_Kernel i m
    by (simp add: replay_node_def node_effect_def Let_def run_cpu_kernel_def element_count_def unat_div_4 k
        read_mem_def active_def)
next
  case NC_MemoryCopy
  with assms show ?thesis
    by (auto simp: replay_node_def node_effect_def Let_def node_fits_def holds_def mem_copy_def active_def)
next
  case NC_MemorySet
  with assms show ?thesis
    by (auto simp: replay_node_def node_effect_def Let_def node_fits_def holds_def mem_set_def active_def)
qed (simp_all add: replay_node_def node_effect_def Let_def active_def)

text \<open>Replay keeps the sizes of all buffers, so that nodes that fit go on fitting.\<close>

definition same_sizes :: "memory \<Rightarrow> memory \<Rightarrow> bool" where
  "same_sizes mem mem' \<longleftrightarrow> (\<forall>p. map_option length (mem' p) = map_option length (mem p))"

lemma holds_same_sizes: "same_sizes mem mem' \<Longrightarrow> holds mem bs i n \<Longrightarrow> holds mem' bs i n"
proof -
  assume sz: "same_sizes mem mem'" and h: "holds mem bs i n"
  then obtain b where "mem (bs ! unat i) = Some b" "unat n \<le> length b" "unat i < length bs"
    by (auto simp: holds_def)
  moreover from this(1) sz obtain b' where "mem' (bs ! unat i) = Some b'" "length b' = length b"
    unfolding same_sizes_def by (metis (no_types) map_option_eq_Some)
  ultimately show ?thesis by (simp add: holds_def)
qed

lemma node_fits_same_sizes: "same_sizes mem mem' \<Longrightarrow> node_fits bufs mem n \<Longrightarrow> node_fits bufs mem' n"
  by (auto simp: node_fits_def intro: holds_same_sizes split: NodeCategory.splits)

lemma node_effect_sizes: "node_fits bufs mem n \<Longrightarrow> same_sizes mem (fst (node_effect fl bufs n mem))"
  by (cases "cn_category n") (auto simp: node_fits_def holds_def same_sizes_def node_effect_def Let_def)

lemma node_effect_frame:
  "node_fits bufs mem n \<Longrightarrow> p \<notin> set (rb_outputs bufs) \<Longrightarrow> fst (node_effect fl bufs n mem) p = mem p"
  by (cases "cn_category n") (auto simp: node_fits_def holds_def node_effect_def Let_def)

lemma node_effect_hashed: "cn_category n \<noteq> NC_Kernel \<Longrightarrow> snd (node_effect fl bufs n mem) = []"
  by (cases "cn_category n") (simp_all add: node_effect_def Let_def)

lemma sha_update_Nil: "sha_update h [] = h"
  by (simp add: sha_update_def sha_update_loop.simps)

lemma run_nodes_frame:
  "list_all (node_fits bufs mem) ns \<Longrightarrow> p \<notin> set (rb_outputs bufs) \<Longrightarrow> fst (run_nodes fl bufs ns mem) p = mem p"
proof (induction ns arbitrary: mem)
  case (Cons n ns)
  have "list_all (node_fits bufs (fst (node_effect fl bufs n mem))) ns"
    using Cons.prems(1) node_effect_sizes [of bufs mem n fl]
    by (auto simp: list_all_iff intro: node_fits_same_sizes)
  with Cons show ?case
    using node_effect_frame [of bufs mem n p fl] by (simp split: prod.splits) (metis fst_conv)
qed simp

lemma replay_loop_run:
  assumes "\<And>nid. nid \<in> set nids \<Longrightarrow> find (\<lambda>n. cn_id n = nid) (cpu_nodes g) = Some (node nid)"
    and "list_all (node_fits bufs (rp_mem st)) (map node nids)" and "sha_inv (rp_hash st)"
  shows "replay_loop fl g bufs nids st = Some (success (), (case run_nodes fl bufs (map node nids) (rp_mem st) of (mem, out) \<Rightarrow>
     st\<lparr>rp_mem := mem, rp_hash := sha_update (rp_hash st) out,
        rp_count := rp_count st + word_of_nat (length (filter active (map node nids)))\<rparr>))"
  using assms
proof (induction nids arbitrary: st)
  case Nil
  then show ?case by (simp add: sha_update_Nil)
next
  case (Cons nid nids)
  let ?n = "node nid"
  obtain mem1 out1 where e: "node_effect fl bufs ?n (rp_mem st) = (mem1, out1)" by fastforce
  define st1 where "st1 = st\<lparr>rp_mem := mem1,
      rp_hash := (if cn_category ?n = NC_Kernel then sha_update (rp_hash st) out1 else rp_hash st),
      rp_count := rp_count st + (if active ?n then 1 else 0)\<rparr>"
  have fit: "node_fits bufs (rp_mem st) ?n" using Cons.prems by simp
  have step: "replay_node fl bufs ?n st = Some (success (), st1)"
    using replay_node_effect [OF fit] by (simp add: e st1_def)
  have h: "rp_hash st1 = sha_update (rp_hash st) out1"
    using node_effect_hashed [of ?n fl bufs "rp_mem st"] by (auto simp: st1_def e sha_update_Nil)
  have "same_sizes (rp_mem st) mem1" using node_effect_sizes [OF fit, of fl] by (simp add: e)
  then have fits: "list_all (node_fits bufs (rp_mem st1)) (map node nids)"
    using Cons.prems(2) by (auto simp: list_all_iff st1_def intro: node_fits_same_sizes)
  have inv: "sha_inv (rp_hash st1)" using Cons.prems(3) by (simp add: h sha_inv_update)
  obtain mem2 out2 where r: "run_nodes fl bufs (map node nids) mem1 = (mem2, out2)" by fastforce
  have m1: "rp_mem st1 = mem1" by (simp add: st1_def)
  have "replay_loop fl g bufs nids st1 = Some (success (), st1\<lparr>rp_mem := mem2, rp_hash := sha_update (rp_hash st1) out2,
        rp_count := rp_count st1 + word_of_nat (length (filter active (map node nids)))\<rparr>)"
    using Cons.IH [of st1] Cons.prems(1) fits inv by (simp add: m1 r)
  moreover have "sha_update (rp_hash st1) out2 = sha_update (rp_hash st) (out1 @ out2)"
    using sha_update_append [OF Cons.prems(3)] by (simp add: h)
  ultimately show ?case
    using Cons.prems(1) [of nid] by (simp add: step e r) (simp add: st1_def)
qed

lemma find_by_id: "m \<in> set ns \<Longrightarrow> distinct (map f ns) \<Longrightarrow> find (\<lambda>n. f n = f m) ns = Some m"
  by (induction ns) (auto simp: image_iff)

lemma capture_nodes_in_order:
  assumes "\<And>xs. mset (ord xs) = mset xs" and "cpu_capture ord desc = success (Some g)"
  shows "\<exists>node. (\<forall>nid \<in> set (cpu_order g). find (\<lambda>n. cn_id n = nid) (cpu_nodes g) = Some (node nid))
     \<and> mset (map node (cpu_order g)) = mset (map cpu_node (g_nodes desc))
     \<and> map cn_id (map node (cpu_order g)) = cpu_order g"
proof (intro exI conjI ballI)
  define node where "node nid = the (find (\<lambda>n. cn_id n = nid) (cpu_nodes g))" for nid
  have nodes: "cpu_nodes g = map cpu_node (g_nodes desc)" using cpu_capture_success(2) [OF assms] by simp
  have ids: "map cn_id (map cpu_node (g_nodes desc)) = map n_id (g_nodes desc)" by (simp add: cpu_node_def)
  note top = cpu_capture_success(1) [OF assms]
  then have dist: "distinct (map cn_id (cpu_nodes g))"
    unfolding nodes ids by (simp add: topology_ok_def topology_shape_def)
  have o: "distinct (cpu_order g)" "set (cpu_order g) = cn_id ` set (cpu_nodes g)"
    using cpu_capture_order [OF assms(1) top] cpu_capture_success(2) [OF assms]
    by (auto simp: nodes cpu_node_def image_image)
  have found: "find (\<lambda>n. cn_id n = cn_id m) (cpu_nodes g) = Some m" if "m \<in> set (cpu_nodes g)" for m
    using that dist by (rule find_by_id)
  then have node: "node (cn_id m) = m" if "m \<in> set (cpu_nodes g)" for m using that by (simp add: node_def)
  show "find (\<lambda>n. cn_id n = nid) (cpu_nodes g) = Some (node nid)" if "nid \<in> set (cpu_order g)" for nid
    using that o(2) found node by auto
  have "set (map node (cpu_order g)) = set (cpu_nodes g)" unfolding set_map o(2) using node by force
  moreover show ids': "map cn_id (map node (cpu_order g)) = cpu_order g"
    unfolding map_map by (rule map_idI) (use o(2) node in auto)
  then have "distinct (map node (cpu_order g))" using o(1) by (metis distinct_map)
  ultimately show "mset (map node (cpu_order g)) = mset (map cpu_node (g_nodes desc))"
    unfolding nodes [symmetric] using dist distinct_map set_eq_iff_mset_eq_distinct by blast
qed

lemma cpu_replay_run:
  assumes "\<And>xs. mset (ord xs) = mset xs" and "cpu_capture ord desc = success (Some g)"
    and "list_all (\<lambda>n. node_fits bufs mem (cpu_node n)) (g_nodes desc)"
  shows "\<exists>ns. mset ns = mset (map cpu_node (g_nodes desc)) \<and> map cn_id ns = cpu_order g
     \<and> (\<forall>p. p \<notin> set (rb_outputs bufs) \<longrightarrow> fst (run_nodes fl bufs ns mem) p = mem p)
     \<and> cpu_replay fl (Some g) bufs rd mem = Some (success \<lparr>gr_ok = True, gr_attempt = ra_value (rd_attempt rd),
          gr_replayed_nodes = word_of_nat (length (filter active ns)),
          gr_digest = sha256_spec (snd (run_nodes fl bufs ns mem)),
          gr_digest_hex = sha_hex (sha256_spec (snd (run_nodes fl bufs ns mem))), gr_latency_us = 0\<rparr>,
          fst (run_nodes fl bufs ns mem))"
proof -
  from capture_nodes_in_order [OF assms(1,2)] obtain node where
    find: "\<And>nid. nid \<in> set (cpu_order g) \<Longrightarrow> find (\<lambda>n. cn_id n = nid) (cpu_nodes g) = Some (node nid)"
    and perm: "mset (map node (cpu_order g)) = mset (map cpu_node (g_nodes desc))"
    and ids: "map cn_id (map node (cpu_order g)) = cpu_order g" by blast
  let ?ns = "map node (cpu_order g)"
  have fits: "list_all (node_fits bufs mem) ?ns"
    using assms(3) mset_eq_setD [OF perm] by (simp add: list_all_iff)
  have "replay_loop fl g bufs (cpu_order g) \<lparr>rp_mem = mem, rp_hash = sha_reset, rp_count = 0\<rparr>
      = Some (success (), \<lparr>rp_mem = fst (run_nodes fl bufs ?ns mem),
          rp_hash = sha_update sha_reset (snd (run_nodes fl bufs ?ns mem)),
          rp_count = word_of_nat (length (filter active ?ns))\<rparr>)"
    using replay_loop_run [of "cpu_order g" g node bufs "\<lparr>rp_mem = mem, rp_hash = sha_reset, rp_count = 0\<rparr>" fl]
      find fits by (simp add: sha_inv_reset split: prod.splits)
  moreover have "sha_final (sha_update sha_reset out) = sha256_spec out" for out
    using sha_compute_spec by (simp add: sha_compute_def)
  ultimately have "cpu_replay fl (Some g) bufs rd mem = Some (success \<lparr>gr_ok = True, gr_attempt = ra_value (rd_attempt rd),
          gr_replayed_nodes = word_of_nat (length (filter active ?ns)),
          gr_digest = sha256_spec (snd (run_nodes fl bufs ?ns mem)),
          gr_digest_hex = sha_hex (sha256_spec (snd (run_nodes fl bufs ?ns mem))), gr_latency_us = 0\<rparr>,
          fst (run_nodes fl bufs ?ns mem))"
    by (simp add: cpu_replay_def Let_def)
  with perm ids run_nodes_frame [OF fits] show ?thesis by blast
qed

text \<open>
  C26: A replay on the CPU backend is safe and computes the graph. If every buffer a node names exists
  and holds the node's bytes (and no copy has its source as destination), the replay of a captured
  graph never touches memory out of bounds and succeeds; memory ends up as if the nodes had been
  applied one after the other in the canonical order, each kernel as an elementwise map even in
  place; no buffer outside the outputs changes; the node count is the number of kernel, copy and set
  nodes and the digest is the SHA-256 of the kernels' outputs in order.
\<close>

theorem cpu_replay_correct:
  assumes "\<And>xs. mset (ord xs) = mset xs" and "cpu_capture ord desc = success (Some g)"
    and "list_all (\<lambda>n. node_fits bufs mem (cpu_node n)) (g_nodes desc)"
  shows "\<exists>ns. mset ns = mset (map cpu_node (g_nodes desc)) \<and> map cn_id ns = cpu_order g
     \<and> (\<forall>p. p \<notin> set (rb_outputs bufs) \<longrightarrow> fst (run_nodes fl bufs ns mem) p = mem p)
     \<and> cpu_replay fl (Some g) bufs rd mem = Some (success \<lparr>gr_ok = True, gr_attempt = ra_value (rd_attempt rd),
          gr_replayed_nodes = word_of_nat (length (filter active ns)),
          gr_digest = sha256_spec (snd (run_nodes fl bufs ns mem)),
          gr_digest_hex = sha_hex (sha256_spec (snd (run_nodes fl bufs ns mem))), gr_latency_us = 0\<rparr>,
          fst (run_nodes fl bufs ns mem))"
  by (rule cpu_replay_run [OF assms])

text \<open>An in-place identity kernel over one float.\<close>

theorem cpu_replay_correct_witness:
  "let n = (example_node 1)\<lparr>n_memory_bytes := 4\<rparr>; desc = GraphDescriptor_default\<lparr>g_nodes := [n]\<rparr>;
       bufs = \<lparr>rb_inputs = [0], rb_outputs = [0], rb_input_bytes = [4], rb_output_bytes = [4]\<rparr>;
       fl = \<lparr>fl_mul = \<lambda>x y. 0, fl_add = \<lambda>x y. 0, fl_of_f64 = ucast, fl_of_i64 = ucast\<rparr>;
       rd = \<lparr>rd_attempt = ReplayAttemptId 1, rd_timestamp_ms = 0, rd_expected_replays = 1, rd_reason = []\<rparr>
   in \<exists>g r mem'. cpu_capture id desc = success (Some g) \<and> cpu_replay fl (Some g) bufs rd [0 \<mapsto> [1, 2, 3, 4]] = Some (success r, mem')
     \<and> gr_replayed_nodes r = 1 \<and> mem' 1 = None"
proof -
  let ?n = "(example_node 1)\<lparr>n_memory_bytes := 4\<rparr>"
  let ?d = "GraphDescriptor_default\<lparr>g_nodes := [?n]\<rparr>"
  let ?b = "\<lparr>rb_inputs = [0], rb_outputs = [0], rb_input_bytes = [4], rb_output_bytes = [4]\<rparr> :: ReplayBuffers"
  let ?fl = "\<lparr>fl_mul = \<lambda>x y. 0, fl_add = \<lambda>x y. 0, fl_of_f64 = ucast, fl_of_i64 = ucast\<rparr> :: float_ops"
  let ?rd = "\<lparr>rd_attempt = ReplayAttemptId 1, rd_timestamp_ms = 0, rd_expected_replays = 1, rd_reason = []\<rparr>"
  let ?m = "[0 \<mapsto> [1, 2, 3, 4]] :: memory"
  have "topology_ok (g_nodes ?d) (g_edges ?d)"
    by (simp add: topology_ok_def topology_shape_def edge_pairs_def example_simps GraphDescriptor_default_def wf_acyclic)
  then have "validate_graph id ?d = success ()" using validate_graph_iff [of id ?d] by simp
  then obtain g where g: "cpu_capture id ?d = success (Some g)" by (simp add: cpu_capture_def Let_def)
  have "list_all (\<lambda>n. node_fits ?b ?m (cpu_node n)) (g_nodes ?d)"
    by (simp add: node_fits_def holds_def cpu_node_def example_simps)
  from cpu_replay_correct [OF _ g this, of ?fl ?rd] obtain ns where
    ns: "mset ns = mset (map cpu_node (g_nodes ?d))"
    "fst (run_nodes ?fl ?b ns ?m) 1 = ?m 1"
    "cpu_replay ?fl (Some g) ?b ?rd ?m = Some (success \<lparr>gr_ok = True, gr_attempt = 1,
          gr_replayed_nodes = word_of_nat (length (filter active ns)),
          gr_digest = sha256_spec (snd (run_nodes ?fl ?b ns ?m)),
          gr_digest_hex = sha_hex (sha256_spec (snd (run_nodes ?fl ?b ns ?m))), gr_latency_us = 0\<rparr>,
          fst (run_nodes ?fl ?b ns ?m))"
    by auto
  have "ns = [cpu_node ?n]" using ns(1) by simp
  then have "length (filter active ns) = 1" by (simp add: active_def cpu_node_def example_simps)
  with g ns(2,3) show ?thesis unfolding Let_def by (intro exI conjI) (assumption | simp)+
qed

end
