(* ===== verification/GC_CacheTypes.thy ===== *)
theory GC_CacheTypes
  imports GC_Lifecycle GC_Persistence GC_Serialization GC_CpuBackend
begin

text \<open>
  The data of the cache engine: the public types of \<open>include/graphcache/cache.hpp\<close>, the cache entry
  and lease token of \<open>src/cache.cpp\<close>, and the state of the engine.

  Entries are shared by several indexes and by leases (\<open>std::shared_ptr<CacheEntry>\<close>) and mutated
  through all of them, so they live in a heap \<open>gc_heap\<close> and the indexes hold addresses below
  \<open>gc_next\<close>. Lease tokens live in a second heap. A \<open>GraphLease\<close> is move-only and owned by the client:
  it is a value of the model that an operation takes and returns.

  What lies outside the engine is the record \<open>cache_env\<close>: the backend behind the \<open>GraphBackend\<close>
  interface, the readings of the two clocks, the iteration order of the hash maps, the outcomes of
  file operations and the enumeration of the store's directory.
\<close>

section \<open>Enumerations\<close>

datatype ResidencyTier = RT_MetadataOnly | RT_PersistentStorage | RT_HostResident
    | RT_BackendResident

primrec ResidencyTier_to_string :: "ResidencyTier \<Rightarrow> string" where
  "ResidencyTier_to_string RT_MetadataOnly = ''MetadataOnly''"
| "ResidencyTier_to_string RT_PersistentStorage = ''PersistentStorage''"
| "ResidencyTier_to_string RT_HostResident = ''HostResident''"
| "ResidencyTier_to_string RT_BackendResident = ''BackendResident''"

primrec ResidencyTier_code :: "ResidencyTier \<Rightarrow> int" where
  "ResidencyTier_code RT_MetadataOnly = 1"
| "ResidencyTier_code RT_PersistentStorage = 2"
| "ResidencyTier_code RT_HostResident = 3"
| "ResidencyTier_code RT_BackendResident = 4"

datatype LookupOutcome = LO_ExactBackendResidentHit | LO_ExactHostHit | LO_CompatibleHitRebinding
    | LO_CompatibleDynamicShapeHit | LO_MissCaptureRequired | LO_MissIncompatible
    | LO_MissInvalidated | LO_MissStaleDependency | LO_MissCorruptPersistence
    | LO_MissResidencyPressure | LO_MissPolicyRejected

primrec LookupOutcome_to_string :: "LookupOutcome \<Rightarrow> string" where
  "LookupOutcome_to_string LO_ExactBackendResidentHit = ''ExactBackendResidentHit''"
| "LookupOutcome_to_string LO_ExactHostHit = ''ExactHostHit''"
| "LookupOutcome_to_string LO_CompatibleHitRebinding = ''CompatibleHitRebinding''"
| "LookupOutcome_to_string LO_CompatibleDynamicShapeHit = ''CompatibleDynamicShapeHit''"
| "LookupOutcome_to_string LO_MissCaptureRequired = ''MissCaptureRequired''"
| "LookupOutcome_to_string LO_MissIncompatible = ''MissIncompatible''"
| "LookupOutcome_to_string LO_MissInvalidated = ''MissInvalidated''"
| "LookupOutcome_to_string LO_MissStaleDependency = ''MissStaleDependency''"
| "LookupOutcome_to_string LO_MissCorruptPersistence = ''MissCorruptPersistence''"
| "LookupOutcome_to_string LO_MissResidencyPressure = ''MissResidencyPressure''"
| "LookupOutcome_to_string LO_MissPolicyRejected = ''MissPolicyRejected''"

datatype InvalidationScope = IS_ByGraphId | IS_ByArtifactId | IS_ByCompatibilityKey | IS_ByWorkload
    | IS_ByTopology | IS_ByBackend | IS_ByDependencyGeneration | IS_ByModelRevision | IS_ByNamespace
    | IS_ByAll


section \<open>Configuration and requests\<close>

record ResidencyPolicy =
  rpo_max_backend_resident :: u32
  rpo_backend_budget_bytes :: u64
  rpo_host_budget_bytes :: u64
  rpo_demote_on_evict :: bool

record EvictionPolicy =
  epo_lru :: bool
  epo_cost_aware :: bool
  epo_recapture_cost_aware :: bool
  epo_tie_break_seed :: u32

record GraphCacheConfig =
  cfg_backend_kind :: BackendKind
  cfg_namespace :: string
  cfg_policy :: GraphCompatibilityPolicy
  cfg_allow_capture :: bool
  cfg_enable_persistence :: bool
  cfg_persistence_dir :: string
  cfg_residency :: ResidencyPolicy
  cfg_eviction :: EvictionPolicy
  cfg_event_log_capacity :: nat
  cfg_max_metadata_entries :: u64
  cfg_concurrency_hint :: u32

definition GraphCacheConfig_default :: GraphCacheConfig where
  "GraphCacheConfig_default = \<lparr>cfg_backend_kind = BK_Cpu, cfg_namespace = [], cfg_policy = policy_default,
     cfg_allow_capture = True, cfg_enable_persistence = False, cfg_persistence_dir = [],
     cfg_residency = \<lparr>rpo_max_backend_resident = 64, rpo_backend_budget_bytes = push_bit 40 1,
       rpo_host_budget_bytes = push_bit 40 1, rpo_demote_on_evict = True\<rparr>,
     cfg_eviction = \<lparr>epo_lru = True, epo_cost_aware = True, epo_recapture_cost_aware = True,
       epo_tie_break_seed = 0x9E3779B9\<rparr>,
     cfg_event_log_capacity = 4096, cfg_max_metadata_entries = 100000, cfg_concurrency_hint = 8\<rparr>"

record GraphLookupRequest =
  rq_workload :: WorkloadIdentity
  rq_backend :: BackendIdentity
  rq_runtime :: RuntimeDescriptor
  rq_device :: DeviceDescriptor
  rq_descriptor :: GraphDescriptor
  rq_policy :: GraphCompatibilityPolicy
  rq_allow_capture :: bool
  rq_graph_name :: string

record 'x GraphLease =
  gl_token :: "nat option"
  gl_artifact :: GraphArtifactId
  gl_generation :: GraphGeneration
  gl_exec :: "'x option"
  gl_descriptor :: "GraphDescriptor option"
  gl_rebind :: bool

record 'x GraphLookupResult =
  lr_outcome :: LookupOutcome
  lr_artifact :: GraphArtifactId
  lr_generation :: GraphGeneration
  lr_decision :: GraphCompatibilityDecision
  lr_lease :: "'x GraphLease option"
  lr_reasons :: "CompatibilityReason list"
  lr_reason_text :: string
  lr_capture_started :: bool
  lr_waited_on_capture :: bool

definition lookup_result_default :: "'x GraphLookupResult" where
  "lookup_result_default = \<lparr>lr_outcome = LO_MissCaptureRequired, lr_artifact = GraphArtifactId 0 0,
     lr_generation = GraphGeneration 0, lr_decision = decision_default, lr_lease = None, lr_reasons = [],
     lr_reason_text = [], lr_capture_started = False, lr_waited_on_capture = False\<rparr>"

definition lr_hit :: "'x GraphLookupResult \<Rightarrow> bool" where
  "lr_hit r \<longleftrightarrow> lr_lease r \<noteq> None"

record 'x GraphReplayRequest =
  rr_expected :: GraphGeneration
  rr_lease :: "'x GraphLease option"
  rr_buffers :: ReplayBuffers
  rr_descriptor :: ReplayDescriptor

record GraphReservation =
  rv_artifact :: GraphArtifactId
  rv_generation :: GraphGeneration
  rv_attempt :: CaptureAttemptId

definition GraphReservation_valid :: "GraphReservation \<Rightarrow> bool" where
  "GraphReservation_valid r \<longleftrightarrow> CaptureAttemptId_valid (rv_attempt r)"

record InvalidationRequest =
  ir_scope :: InvalidationScope
  ir_graph_id :: GraphId
  ir_artifact :: GraphArtifactId
  ir_dependency_generation :: GraphGeneration
  ir_workload :: WorkloadIdentity
  ir_backend :: BackendIdentity
  ir_namespace :: string
  ir_model_revision :: string
  ir_strong :: bool

definition InvalidationRequest_default :: InvalidationRequest where
  "InvalidationRequest_default = \<lparr>ir_scope = IS_ByArtifactId, ir_graph_id = GraphId 0 0,
     ir_artifact = GraphArtifactId 0 0, ir_dependency_generation = GraphGeneration 0,
     ir_workload = WorkloadIdentity_default, ir_backend = BackendIdentity_default, ir_namespace = [],
     ir_model_revision = [], ir_strong = False\<rparr>"

record InvalidationResult =
  iv_invalidated :: nat
  iv_still_leasing :: nat
  iv_graph_generation :: GraphGeneration
  iv_cache_generation :: CacheGeneration

section \<open>Observability\<close>

record PerScopeMetrics =
  psm_lookups :: u64
  psm_hits :: u64
  psm_misses :: u64
  psm_replays :: u64
  psm_captures :: u64
  psm_invalidations :: u64

definition PerScopeMetrics_default :: PerScopeMetrics where
  "PerScopeMetrics_default = \<lparr>psm_lookups = 0, psm_hits = 0, psm_misses = 0, psm_replays = 0, psm_captures = 0,
     psm_invalidations = 0\<rparr>"

record Metrics =
  m_lookups :: u64
  m_exact_hits :: u64
  m_compatible_hits :: u64
  m_host_hits :: u64
  m_backend_resident_hits :: u64
  m_persisted_hits :: u64
  m_misses :: u64
  m_captures :: u64
  m_deduplicated_captures :: u64
  m_capture_failures :: u64
  m_validation_failures :: u64
  m_recaptures :: u64
  m_instantiations :: u64
  m_replays :: u64
  m_replay_failures :: u64
  m_invalidations :: u64
  m_evictions :: u64
  m_reloads :: u64
  m_backend_resident_count :: u64
  m_stale_authority_rejections :: u64
  m_corruption_count :: u64
  m_dependency_invalidations :: u64
  m_active_leases :: u64
  m_active_captures :: u64
  m_active_replays :: u64
  m_avoided_captures :: u64
  m_lookup_latency_us :: u64
  m_capture_latency_us :: u64
  m_instantiate_latency_us :: u64
  m_replay_latency_us :: u64
  m_persistence_latency_us :: u64
  m_recovery_latency_us :: u64
  m_per_workload :: "string \<Rightarrow> PerScopeMetrics option"
  m_per_device :: "string \<Rightarrow> PerScopeMetrics option"
  m_per_namespace :: "string \<Rightarrow> PerScopeMetrics option"

definition Metrics_default :: Metrics where
  "Metrics_default = \<lparr>m_lookups = 0, m_exact_hits = 0, m_compatible_hits = 0, m_host_hits = 0,
     m_backend_resident_hits = 0, m_persisted_hits = 0, m_misses = 0, m_captures = 0,
     m_deduplicated_captures = 0, m_capture_failures = 0, m_validation_failures = 0,
     m_recaptures = 0, m_instantiations = 0, m_replays = 0, m_replay_failures = 0,
     m_invalidations = 0, m_evictions = 0, m_reloads = 0, m_backend_resident_count = 0,
     m_stale_authority_rejections = 0, m_corruption_count = 0, m_dependency_invalidations = 0,
     m_active_leases = 0, m_active_captures = 0, m_active_replays = 0, m_avoided_captures = 0,
     m_lookup_latency_us = 0, m_capture_latency_us = 0, m_instantiate_latency_us = 0,
     m_replay_latency_us = 0, m_persistence_latency_us = 0, m_recovery_latency_us = 0,
     m_per_workload = Map.empty, m_per_device = Map.empty, m_per_namespace = Map.empty\<rparr>"

record Event =
  ev_sequence :: u64
  ev_timestamp_ms :: i64
  ev_type :: string
  ev_message :: string
  ev_detail_json :: string

section \<open>Entries and the state of the engine\<close>

record 'x CacheEntry =
  en_artifact :: GraphArtifactId
  en_graph_id :: GraphId
  en_generation :: GraphGeneration
  en_cache_generation :: CacheGeneration
  en_descriptor :: GraphDescriptor
  en_facts :: CompatibilityFacts
  en_key :: GraphCompatibilityKey
  en_workload :: WorkloadIdentity
  en_lifecycle :: GraphLifecycle
  en_residency :: ResidencyTier
  en_exec :: "'x option"
  en_desc_view :: GraphDescriptor
  en_pin_count :: u64
  en_lease_count :: u64
  en_active_replays :: u64
  en_reuse_count :: u64
  en_last_access_ms :: i64
  en_capture_cost_us :: u64
  en_instantiate_cost_us :: u64
  en_artifact_size :: u64
  en_dependency_generation :: u64
  en_invalidated :: bool
  en_persisted :: bool

definition CacheEntry_default :: "'x CacheEntry" where
  "CacheEntry_default = \<lparr>en_artifact = GraphArtifactId 0 0, en_graph_id = GraphId 0 0,
     en_generation = GraphGeneration 0, en_cache_generation = CacheGeneration 0,
     en_descriptor = GraphDescriptor_default, en_facts = CompatibilityFacts_default, en_key = key_default,
     en_workload = WorkloadIdentity_default, en_lifecycle = LC_Valid, en_residency = RT_MetadataOnly,
     en_exec = None, en_desc_view = GraphDescriptor_default, en_pin_count = 0, en_lease_count = 0,
     en_active_replays = 0, en_reuse_count = 0, en_last_access_ms = 0, en_capture_cost_us = 0,
     en_instantiate_cost_us = 0, en_artifact_size = 0, en_dependency_generation = 0,
     en_invalidated = False, en_persisted = False\<rparr>"

definition key_hex :: "GraphCompatibilityKey \<Rightarrow> string" where
  "key_hex k = sha_hex (key_digest k)"

record LeaseEntry =
  le_keep_alive :: "nat option"
  le_released :: bool

record 'x GraphCache =
  gc_config :: GraphCacheConfig
  gc_store :: "(PersistenceStore \<times> files) option"
  gc_heap :: "nat \<Rightarrow> 'x CacheEntry"
  gc_next :: nat
  gc_tokens :: "nat \<Rightarrow> LeaseEntry"
  gc_next_token :: nat
  gc_by_artifact :: "(GraphArtifactId \<times> nat) list"
  gc_by_key :: "string \<Rightarrow> nat list option"
  gc_by_workload :: "string \<Rightarrow> nat list option"
  gc_key_gen :: "string \<Rightarrow> GraphGeneration option"
  gc_invalidated_keys :: "string set"
  gc_capture_counter :: u64
  gc_graph_gen :: u64
  gc_cache_gen :: u64
  gc_active_leases :: u64
  gc_active_captures :: u64
  gc_active_replays :: u64
  gc_metrics :: Metrics
  gc_events :: "Event list"
  gc_event_seq :: u64
  gc_ticks :: nat
  gc_ios :: nat

section \<open>The environment\<close>

record 'x graph_backend_ops =
  be_capture :: "GraphDescriptor \<Rightarrow> CaptureAttemptId \<Rightarrow> 'x option Result"
  be_validate :: "GraphDescriptor \<Rightarrow> 'x option \<Rightarrow> unit Result"
  be_unload :: "GraphDescriptor \<Rightarrow> 'x option \<Rightarrow> unit Result \<times> 'x option"
  be_replay :: "GraphDescriptor \<Rightarrow> 'x option \<Rightarrow> ReplayBuffers \<Rightarrow> ReplayDescriptor \<Rightarrow> memory
     \<Rightarrow> (GraphReplayResult Result \<times> memory) option"

record 'x cache_env =
  env_backend :: "'x graph_backend_ops"
  env_us :: "nat \<Rightarrow> u64"
  env_ms :: "nat \<Rightarrow> i64"
  env_map_ord :: "(GraphArtifactId \<times> nat) list \<Rightarrow> (GraphArtifactId \<times> nat) list"
  env_node_ord :: "GraphNodeId list \<Rightarrow> GraphNodeId list"
  env_put :: "nat \<Rightarrow> put_io"
  env_open :: "nat \<Rightarrow> bool"
  env_dir :: "files \<Rightarrow> string list"

text \<open>What the engine relies on in a backend: a successful capture yields a handle that validates.\<close>

locale graph_backend =
  fixes B :: "'x graph_backend_ops"
  assumes capture_handle: "be_capture B d a = success h \<Longrightarrow> h \<noteq> None"
    and capture_validates: "be_capture B d a = success h \<Longrightarrow> be_validate B d h = success ()"

definition cpu_backend :: "float_ops \<Rightarrow> (GraphNodeId list \<Rightarrow> GraphNodeId list) \<Rightarrow> CpuGraph graph_backend_ops" where
  "cpu_backend fl ord = \<lparr>be_capture = \<lambda>d a. cpu_capture ord d, be_validate = cpu_validate ord,
     be_unload = cpu_unload, be_replay = \<lambda>d. cpu_replay fl\<rparr>"

interpretation cpu: graph_backend "cpu_backend fl ord" for fl ord
proof unfold_locales
  show "be_capture (cpu_backend fl ord) d a = success h \<Longrightarrow> h \<noteq> None" for d a h
    by (auto simp: cpu_backend_def cpu_capture_def Let_def dest!: bind_result_InrD)
  show "be_capture (cpu_backend fl ord) d a = success h \<Longrightarrow> be_validate (cpu_backend fl ord) d h = success ()" for d a h
    by (auto simp: cpu_backend_def cpu_capture_def cpu_validate_def Let_def dest!: bind_result_InrD)
qed

end
