(* ===== verification/GC_Cache.thy ===== *)
theory GC_Cache
  imports GC_CacheTypes
begin

text \<open>
  The operations of the cache engine, \<open>src/cache.cpp\<close>: lookup with capture, candidate search,
  leases, replay, invalidation, pinning and eviction. Each is a function on the engine's state, in
  the order of the code; a call of the single-flight wrapper by a single thread is the wrapped call
  (its interleavings are the theory \<open>GC_SingleFlight\<close>). Persistence and recovery are in
  \<open>GC_Recovery\<close>, metrics, snapshots and explanations in \<open>GC_Observe\<close>.

  Locks do not appear: an operation is atomic here, except that \<open>capture_graph\<close> is split into
  \<open>capture_begin\<close>, \<open>capture_check\<close> and \<open>capture_insert\<close>, between which the code holds no lock.
\<close>

section \<open>Facts of a request\<close>

definition facts_step :: "CompatibilityFacts \<times> u64 \<times> bool \<Rightarrow> GraphNodeDescriptor \<Rightarrow> CompatibilityFacts \<times> u64 \<times> bool" where
  "facts_step acc n = (case acc of (f, align, have) \<Rightarrow>
     let (f1, align1, have1) =
           (if n_datatype n \<noteq> DT_None then
              (f\<lparr>f_datatypes := f_datatypes f @ [n_datatype n], f_layouts := f_layouts f @ [n_layout n],
                 f_input_shapes := f_input_shapes f @ [n_shape n],
                 f_scalar := (if sc_specialized (n_scalar n) then n_scalar n else f_scalar f),
                 f_memory_schema := bd_schema (n_binding n), f_binding := n_binding n\<rparr>,
               (if \<not> have \<or> n_required_alignment n > align then n_required_alignment n else align), True)
            else (f, align, have));
         f2 = (if q_mode (n_quantization n) \<noteq> QM_None then f1\<lparr>f_quantization := n_quantization n\<rparr> else f1)
     in (f2, align1, have1))"

definition facts_of :: "WorkloadIdentity \<Rightarrow> BackendIdentity \<Rightarrow> RuntimeDescriptor \<Rightarrow> DeviceDescriptor
    \<Rightarrow> GraphDescriptor \<Rightarrow> CompatibilityFacts" where
  "facts_of wl bk rt dev desc =
     (let f0 = CompatibilityFacts_default\<lparr>f_workload := wl, f_backend := bk, f_runtime := rt, f_device := dev,
                 f_capture_mode := sy_capture_mode (g_sync desc),
                 f_stream_semantics := sy_stream_semantics (g_sync desc),
                 f_topology := canonical_topology (g_nodes desc) (g_edges desc)\<rparr>;
          (f1, align, have) = foldl facts_step (f0, 128, False) (g_nodes desc)
      in f1\<lparr>f_required_alignment := align, f_dependencies := g_dependencies desc,
            f_model_revision := wl_model_revision wl, f_policy_generation := wl_policy_generation wl\<rparr>)"

definition make_facts :: "GraphLookupRequest \<Rightarrow> CompatibilityFacts" where
  "make_facts req = facts_of (rq_workload req) (rq_backend req) (rq_runtime req) (rq_device req) (rq_descriptor req)"

definition facts_from_descriptor_and_workload :: "GraphDescriptor \<Rightarrow> WorkloadIdentity \<Rightarrow> CompatibilityFacts" where
  "facts_from_descriptor_and_workload desc wl = facts_of wl (g_backend desc) (g_runtime desc) (g_device desc) desc"

definition derive_graph_id :: "GraphDescriptor \<Rightarrow> WorkloadIdentity \<Rightarrow> GraphCompatibilityKey \<Rightarrow> GraphId" where
  "derive_graph_id desc wl key =
     (let h = sha_reset;
          h = sha_update h (bytes_of_string (wl_name wl));
          h = sha_update h (bytes_of_string ''|'');
          h = sha_update h (bytes_of_string (GraphArtifactId_to_string (g_artifact desc)));
          h = sha_update h (bytes_of_string ''|'');
          h = sha_update h (bytes_of_string (key_hex key));
          d = artifact_of_digest (sha_final h)
      in GraphId (aid_hi d) (aid_lo d))"

definition workload_key :: "WorkloadIdentity \<Rightarrow> string" where
  "workload_key wl = wl_name wl @ ''|'' @ wl_namespace wl"

definition is_dependency_fresh :: "'x CacheEntry \<Rightarrow> CompatibilityFacts \<Rightarrow> bool" where
  "is_dependency_fresh e request = list_all (\<lambda>dep. \<not> k_contributes dep \<or>
     list_all (\<lambda>cd. \<not> (k_name cd = k_name dep \<and> k_contributes cd)
       \<or> (k_generation cd = k_generation dep \<and> k_digest cd = k_digest dep \<and> k_abi cd = k_abi dep))
     (f_dependencies (en_facts e))) (f_dependencies request)"

section \<open>Clocks, metrics and events\<close>

definition now_us :: "'x cache_env \<Rightarrow> 'x GraphCache \<Rightarrow> u64 \<times> 'x GraphCache" where
  "now_us env st = (env_us env (gc_ticks st), st\<lparr>gc_ticks := gc_ticks st + 1\<rparr>)"

definition now_ms :: "'x cache_env \<Rightarrow> 'x GraphCache \<Rightarrow> i64 \<times> 'x GraphCache" where
  "now_ms env st = (env_ms env (gc_ticks st), st\<lparr>gc_ticks := gc_ticks st + 1\<rparr>)"

definition record_event :: "'x cache_env \<Rightarrow> string \<Rightarrow> string \<Rightarrow> string \<Rightarrow> 'x GraphCache \<Rightarrow> 'x GraphCache" where
  "record_event env type msg detail st =
     (let seq = gc_event_seq st + 1; (t, st) = now_ms env (st\<lparr>gc_event_seq := seq\<rparr>);
          evs = gc_events st @ [\<lparr>ev_sequence = seq, ev_timestamp_ms = t, ev_type = type, ev_message = msg,
                  ev_detail_json = detail\<rparr>]
      in st\<lparr>gc_events := (if length evs > cfg_event_log_capacity (gc_config st) then tl evs else evs)\<rparr>)"

definition touch_metric :: "(Metrics \<Rightarrow> Metrics) \<Rightarrow> 'x GraphCache \<Rightarrow> 'x GraphCache" where
  "touch_metric f st = st\<lparr>gc_metrics := f (gc_metrics st)\<rparr>"

definition scope_update :: "(PerScopeMetrics \<Rightarrow> PerScopeMetrics) \<Rightarrow> string
    \<Rightarrow> (string \<Rightarrow> PerScopeMetrics option) \<Rightarrow> string \<Rightarrow> PerScopeMetrics option" where
  "scope_update f k m = m(k \<mapsto> f (case m k of None \<Rightarrow> PerScopeMetrics_default | Some p \<Rightarrow> p))"

definition bump_scope_raw :: "string \<Rightarrow> string \<Rightarrow> string \<Rightarrow> (PerScopeMetrics \<Rightarrow> PerScopeMetrics)
    \<Rightarrow> 'x GraphCache \<Rightarrow> 'x GraphCache" where
  "bump_scope_raw wl dev ns f = touch_metric (\<lambda>m. m\<lparr>m_per_workload := scope_update f wl (m_per_workload m),
     m_per_device := scope_update f dev (m_per_device m), m_per_namespace := scope_update f ns (m_per_namespace m)\<rparr>)"

definition device_scope :: "DeviceDescriptor \<Rightarrow> string" where
  "device_scope d = dev_arch d @ ''@'' @ dec_string (unat (dev_index d))"

definition bump_scopes :: "CompatibilityFacts \<Rightarrow> (PerScopeMetrics \<Rightarrow> PerScopeMetrics) \<Rightarrow> 'x GraphCache \<Rightarrow> 'x GraphCache" where
  "bump_scopes facts = bump_scope_raw (wl_name (f_workload facts)) (device_scope (f_device facts))
     (wl_namespace (f_workload facts))"

definition entry_scopes :: "'x CacheEntry \<Rightarrow> (PerScopeMetrics \<Rightarrow> PerScopeMetrics) \<Rightarrow> 'x GraphCache \<Rightarrow> 'x GraphCache" where
  "entry_scopes e = bump_scope_raw (wl_name (en_workload e)) (device_scope (g_device (en_descriptor e)))
     (wl_namespace (en_workload e))"

definition upd_entry :: "nat \<Rightarrow> ('x CacheEntry \<Rightarrow> 'x CacheEntry) \<Rightarrow> 'x GraphCache \<Rightarrow> 'x GraphCache" where
  "upd_entry a f st = st\<lparr>gc_heap := (gc_heap st)(a := f (gc_heap st a))\<rparr>"

section \<open>The engine\<close>

text \<open>The constructor; \<open>None\<close> is the exception thrown when the backend is unavailable.\<close>

definition cache_new :: "GraphCacheConfig \<Rightarrow> 'b option \<Rightarrow> files \<Rightarrow> 'x GraphCache option" where
  "cache_new cfg backend fs = (case backend of
       None \<Rightarrow> None
     | Some _ \<Rightarrow> Some \<lparr>gc_config = cfg,
         gc_store = (if cfg_enable_persistence cfg
                     then Some (\<lparr>ps_dir = cfg_persistence_dir cfg, ps_version = kFormatVersion\<rparr>, fs) else None),
         gc_heap = (\<lambda>_. CacheEntry_default), gc_next = 0,
         gc_tokens = (\<lambda>_. \<lparr>le_keep_alive = None, le_released = False\<rparr>), gc_next_token = 0,
         gc_by_artifact = [], gc_by_key = Map.empty, gc_by_workload = Map.empty, gc_key_gen = Map.empty,
         gc_invalidated_keys = {}, gc_capture_counter = 0, gc_graph_gen = 1, gc_cache_gen = 1,
         gc_active_leases = 0, gc_active_captures = 0, gc_active_replays = 0,
         gc_metrics = Metrics_default, gc_events = [], gc_event_seq = 0, gc_ticks = 0, gc_ios = 0\<rparr>)"

definition graph_count :: "'x GraphCache \<Rightarrow> nat" where
  "graph_count st = length (gc_by_artifact st)"

subsection \<open>Persisting an entry\<close>

definition encode_entry_payload :: "'x CacheEntry \<Rightarrow> bytes" where
  "encode_entry_payload e =
     put_bytes 1 (serialize_descriptor (en_descriptor e))
   @ put_bytes 2 (serialize_metadata \<lparr>md_artifact = en_artifact e, md_generation = en_generation e,
       md_cache_generation = en_cache_generation e, md_workload = en_workload e,
       md_artifact_size = en_artifact_size e, md_capture_cost_us = en_capture_cost_us e,
       md_instantiate_cost_us = en_instantiate_cost_us e,
       md_dependency_generation = en_dependency_generation e, md_invalidated = en_invalidated e\<rparr>)"

definition persist_entry :: "'x cache_env \<Rightarrow> nat \<Rightarrow> 'x GraphCache \<Rightarrow> unit Result \<times> 'x GraphCache" where
  "persist_entry env a st =
     (let payload = encode_entry_payload (gc_heap st a);
          (start, st) = now_us env st;
          (r, st) = (case gc_store st of
              None \<Rightarrow> (success (), st)
            | Some (s, fs) \<Rightarrow>
                let (r, fs') = store_put s fs (en_artifact (gc_heap st a)) payload (env_put env (gc_ios st))
                in (r, st\<lparr>gc_store := Some (s, fs'), gc_ios := gc_ios st + 1\<rparr>));
          (finish, st) = now_us env st
      in (r, touch_metric (\<lambda>m. m\<lparr>m_persistence_latency_us := finish - start\<rparr>) st))"

subsection \<open>Capture\<close>

definition max_dependency_generation :: "KernelIdentityRef list \<Rightarrow> u64" where
  "max_dependency_generation deps =
     foldl (\<lambda>dg d. if gg_value (k_generation d) > dg then gg_value (k_generation d) else dg) 0 deps"

definition capture_begin :: "'x cache_env \<Rightarrow> GraphLookupRequest \<Rightarrow> CaptureAttemptId \<Rightarrow> 'x GraphCache
    \<Rightarrow> ('x CacheEntry \<times> u64) Result \<times> 'x GraphCache" where
  "capture_begin env req attempt st =
     (let (start, st) = now_us env st; gen_at_start = gc_cache_gen st in
      case finalize (env_node_ord env) (rq_descriptor req) of
        Inl _ \<Rightarrow> (failure EC_InvalidArgument ''descriptor finalize failed'', st)
      | Inr desc \<Rightarrow>
      case validate_graph (env_node_ord env) desc of
        Inl e \<Rightarrow> (Inl e, st)
      | Inr _ \<Rightarrow>
      case be_capture (env_backend env) desc attempt of
        Inl e \<Rightarrow> (Inl e, touch_metric (\<lambda>m. m\<lparr>m_capture_failures := m_capture_failures m + 1\<rparr>) st)
      | Inr exec \<Rightarrow>
      case be_validate (env_backend env) desc exec of
        Inl e \<Rightarrow> (failure EC_ValidationFailed (err_message e),
                  touch_metric (\<lambda>m. m\<lparr>m_validation_failures := m_validation_failures m + 1\<rparr>) st)
      | Inr _ \<Rightarrow>
        let facts = make_facts req;
            key = (case key_build facts of Inl _ \<Rightarrow> key_default | Inr k \<Rightarrow> k);
            generation = GraphGeneration (gc_graph_gen st);
            st = st\<lparr>gc_graph_gen := gc_graph_gen st + 1\<rparr>;
            (finish, st) = now_us env st;
            (ms, st) = now_ms env st
        in (success (\<lparr>en_artifact = g_artifact desc, en_graph_id = derive_graph_id desc (rq_workload req) key,
              en_generation = generation, en_cache_generation = CacheGeneration (gc_cache_gen st),
              en_descriptor = desc, en_facts = facts, en_key = key, en_workload = rq_workload req,
              en_lifecycle = LC_Valid, en_residency = RT_HostResident, en_exec = exec, en_desc_view = desc,
              en_pin_count = 0, en_lease_count = 0, en_active_replays = 0, en_reuse_count = 0,
              en_last_access_ms = ms, en_capture_cost_us = finish - start, en_instantiate_cost_us = 0,
              en_artifact_size = word_of_nat (length (g_semantic_canonical desc) + 256),
              en_dependency_generation = max_dependency_generation (g_dependencies desc),
              en_invalidated = False, en_persisted = False\<rparr>, gen_at_start), st))"

definition push_index :: "string \<Rightarrow> nat \<Rightarrow> (string \<Rightarrow> nat list option) \<Rightarrow> string \<Rightarrow> nat list option" where
  "push_index k a m = m(k \<mapsto> (case m k of None \<Rightarrow> [] | Some as \<Rightarrow> as) @ [a])"

definition insert_entry :: "'x CacheEntry \<Rightarrow> 'x GraphCache \<Rightarrow> nat \<times> 'x GraphCache" where
  "insert_entry e st = (gc_next st, st\<lparr>gc_heap := (gc_heap st)(gc_next st := e), gc_next := gc_next st + 1,
     gc_by_artifact := AList.update (en_artifact e) (gc_next st) (gc_by_artifact st),
     gc_by_key := push_index (key_hex (en_key e)) (gc_next st) (gc_by_key st),
     gc_by_workload := push_index (workload_key (en_workload e)) (gc_next st) (gc_by_workload st)\<rparr>)"

text \<open>The check under the capture lock and the insertion under the registry lock are two critical sections.\<close>

definition capture_check :: "u64 \<Rightarrow> 'x GraphCache \<Rightarrow> unit Result" where
  "capture_check gen_at_start st =
     (if gc_cache_gen st \<noteq> gen_at_start
      then failure EC_StaleCompletion ''cache generation rolled during capture'' else success ())"

definition capture_insert :: "'x cache_env \<Rightarrow> 'x CacheEntry \<Rightarrow> 'x GraphCache \<Rightarrow> GraphArtifactId Result \<times> 'x GraphCache" where
  "capture_insert env e st =
     (let keyhex = key_hex (en_key e);
          (a, st) = insert_entry e st;
          st = st\<lparr>gc_key_gen := (gc_key_gen st)(keyhex \<mapsto> en_generation e),
                  gc_invalidated_keys := gc_invalidated_keys st - {keyhex}\<rparr>;
          st = (if gc_store st = None then st
                else let (p, st) = persist_entry env a st
                     in if result_ok p then upd_entry a (\<lambda>e. e\<lparr>en_persisted := True\<rparr>) st else st);
          st = touch_metric (\<lambda>m. m\<lparr>m_captures := m_captures m + 1\<rparr>) st;
          st = entry_scopes e (\<lambda>m. m\<lparr>psm_captures := psm_captures m + 1\<rparr>) st;
          st = record_event env ''capture.complete'' ''graph captured''
                 (''\"artifact\":\"'' @ GraphArtifactId_to_string (en_artifact e) @ ''\"'') st
      in (success (en_artifact e), st))"

definition capture_publish :: "'x cache_env \<Rightarrow> 'x CacheEntry \<Rightarrow> u64 \<Rightarrow> 'x GraphCache
    \<Rightarrow> GraphArtifactId Result \<times> 'x GraphCache" where
  "capture_publish env e gen_at_start st = (case capture_check gen_at_start st of
       Inl err \<Rightarrow> (Inl err, st)
     | Inr _ \<Rightarrow> capture_insert env e st)"

definition capture_graph :: "'x cache_env \<Rightarrow> GraphLookupRequest \<Rightarrow> CaptureAttemptId \<Rightarrow> 'x GraphCache
    \<Rightarrow> GraphArtifactId Result \<times> 'x GraphCache" where
  "capture_graph env req attempt st = (case capture_begin env req attempt st of
       (Inl e, st) \<Rightarrow> (Inl e, st)
     | (Inr (e, gen), st) \<Rightarrow> capture_publish env e gen st)"

text \<open>The single-flight wrapper when no other thread holds the key: the caller owns the attempt.\<close>

definition run_single_flight :: "'x cache_env \<Rightarrow> GraphLookupRequest \<Rightarrow> CaptureAttemptId \<Rightarrow> 'x GraphCache
    \<Rightarrow> (GraphArtifactId Result \<times> bool) \<times> 'x GraphCache" where
  "run_single_flight env req attempt st =
     (let st = st\<lparr>gc_active_captures := gc_active_captures st + 1\<rparr>;
          (res, st) = capture_graph env req attempt st;
          st = st\<lparr>gc_active_captures := gc_active_captures st - 1\<rparr>
      in ((res, True), st))"

subsection \<open>Leases\<close>

definition make_lease :: "nat \<Rightarrow> bool \<Rightarrow> 'x GraphCache \<Rightarrow> 'x GraphLease \<times> 'x GraphCache" where
  "make_lease a needs_rebind st =
     (let t = gc_next_token st;
          st = st\<lparr>gc_tokens := (gc_tokens st)(t := \<lparr>le_keep_alive = Some a, le_released = False\<rparr>),
                  gc_next_token := t + 1\<rparr>;
          st = upd_entry a (\<lambda>e. e\<lparr>en_lease_count := en_lease_count e + 1\<rparr>) st;
          st = st\<lparr>gc_active_leases := gc_active_leases st + 1\<rparr>;
          e = gc_heap st a
      in (\<lparr>gl_token = Some t, gl_artifact = en_artifact e, gl_generation = en_generation e,
           gl_exec = en_exec e, gl_descriptor = Some (en_desc_view e), gl_rebind = needs_rebind\<rparr>, st))"

text \<open>The callback stored in the lease token.\<close>

definition release_fn :: "nat option \<Rightarrow> 'x GraphCache \<Rightarrow> 'x GraphCache" where
  "release_fn keep st =
     (let st = (case keep of
            None \<Rightarrow> st
          | Some a \<Rightarrow> if en_lease_count (gc_heap st a) > 0
                      then upd_entry a (\<lambda>e. e\<lparr>en_lease_count := en_lease_count e - 1\<rparr>) st else st)
      in if gc_active_leases st > 0 then st\<lparr>gc_active_leases := gc_active_leases st - 1\<rparr> else st)"

definition lease_release :: "'x GraphLease \<Rightarrow> 'x GraphCache \<Rightarrow> 'x GraphLease \<times> 'x GraphCache" where
  "lease_release lease st = (case gl_token lease of
       None \<Rightarrow> (lease, st)
     | Some t \<Rightarrow>
         let st = (if le_released (gc_tokens st t) then st
                   else release_fn (le_keep_alive (gc_tokens st t))
                          (st\<lparr>gc_tokens := (gc_tokens st)(t := (gc_tokens st t)\<lparr>le_released := True\<rparr>)\<rparr>))
         in (lease\<lparr>gl_token := None\<rparr>, st))"

definition lease_valid :: "'x GraphLease \<Rightarrow> bool" where
  "lease_valid lease \<longleftrightarrow> gl_token lease \<noteq> None"

text \<open>
  Moving a lease: the new owner, and the moved-from object, which has lost the entry, the executable and the
  descriptor and keeps only the identity. Assigning a lease to itself changes nothing.
\<close>

definition lease_move :: "'x GraphLease \<Rightarrow> 'x GraphLease \<times> 'x GraphLease" where
  "lease_move src = (src, src\<lparr>gl_token := None, gl_exec := None, gl_descriptor := None\<rparr>)"

definition lease_move_assign :: "bool \<Rightarrow> 'x GraphLease \<Rightarrow> 'x GraphLease \<Rightarrow> 'x GraphCache
    \<Rightarrow> ('x GraphLease \<times> 'x GraphLease) \<times> 'x GraphCache" where
  "lease_move_assign same_object this src st =
     (if same_object then ((this, src), st)
      else case lease_release this st of (_, st) \<Rightarrow> (lease_move src, st))"

subsection \<open>Candidate search\<close>

definition materialize_exec :: "'x cache_env \<Rightarrow> nat \<Rightarrow> 'x GraphCache \<Rightarrow> unit Result \<times> 'x GraphCache" where
  "materialize_exec env a st =
     (let e = gc_heap st a in
      if en_exec e \<noteq> None then (success (), st)
      else
        let attempt = CaptureAttemptId (gc_capture_counter st + 1);
            st = st\<lparr>gc_capture_counter := gc_capture_counter st + 1\<rparr>
        in case be_capture (env_backend env) (en_descriptor e) attempt of
             Inl err \<Rightarrow> (Inl err, st)
           | Inr exec \<Rightarrow>
           case be_validate (env_backend env) (en_descriptor e) exec of
             Inl err \<Rightarrow> (failure EC_ValidationFailed (err_message err), st)
           | Inr _ \<Rightarrow>
             (success (), touch_metric (\<lambda>m. m\<lparr>m_recaptures := m_recaptures m + 1, m_instantiations := m_instantiations m + 1\<rparr>)
                (upd_entry a (\<lambda>e. e\<lparr>en_exec := exec, en_residency := RT_HostResident\<rparr>) st)))"

record scan =
  sn_outcome :: LookupOutcome
  sn_decision :: GraphCompatibilityDecision
  sn_chosen :: "nat option"
  sn_best :: GraphCompatibilityDecision
  sn_saw_incompatible :: bool
  sn_best_incompat :: GraphCompatibilityDecision

definition scan_start :: scan where
  "scan_start = \<lparr>sn_outcome = LO_MissCaptureRequired, sn_decision = decision_default, sn_chosen = None,
     sn_best = decision_default, sn_saw_incompatible = False, sn_best_incompat = decision_default\<rparr>"

definition scan_step :: "'x GraphCache \<Rightarrow> CompatibilityFacts \<Rightarrow> GraphCompatibilityPolicy \<Rightarrow> scan \<Rightarrow> nat \<Rightarrow> scan" where
  "scan_step st facts policy acc a =
     (let e = gc_heap st a in
      if en_invalidated e then acc
      else if gc_key_gen st (key_hex (en_key e)) \<noteq> Some (en_generation e) then acc
      else if \<not> lifecycle_is_replay_eligible (en_lifecycle e) then acc
      else if \<not> is_dependency_fresh e facts then acc\<lparr>sn_outcome := LO_MissStaleDependency\<rparr>
      else let dec = decide_compatibility facts (en_facts e) policy in
        if compatible dec then
          (if sn_chosen acc = None \<or> d_klass dec = CC_ExactCompatible
           then acc\<lparr>sn_chosen := Some a, sn_best := dec, sn_decision := dec\<rparr> else acc)
        else acc\<lparr>sn_saw_incompatible := True, sn_best_incompat := dec\<rparr>)"

definition hit_outcome :: "GraphCompatibilityClass \<Rightarrow> ResidencyTier \<Rightarrow> LookupOutcome" where
  "hit_outcome klass residency = (case klass of
       CC_ExactCompatible \<Rightarrow> if residency = RT_BackendResident then LO_ExactBackendResidentHit else LO_ExactHostHit
     | CC_CompatibleWithRebinding \<Rightarrow> LO_CompatibleHitRebinding
     | CC_CompatibleWithDynamicShapeConstraint \<Rightarrow> LO_CompatibleDynamicShapeHit
     | _ \<Rightarrow> LO_ExactHostHit)"

text \<open>
  The scan runs under the registry lock; \<open>materialize_exec\<close>, the check after it and \<open>make_lease\<close> follow outside
  that lock.
\<close>

definition search_candidates :: "'x cache_env \<Rightarrow> CompatibilityFacts \<Rightarrow> GraphCompatibilityPolicy \<Rightarrow> 'x GraphCache
    \<Rightarrow> 'x GraphLookupResult \<times> 'x GraphCache" where
  "search_candidates env facts policy st =
     (case gc_by_workload st (workload_key (f_workload facts)) of
        None \<Rightarrow> (lookup_result_default, st)
      | Some as \<Rightarrow>
        let sc = foldl (scan_step st facts policy) scan_start as;
            res = lookup_result_default\<lparr>lr_outcome := sn_outcome sc, lr_decision := sn_decision sc\<rparr>
        in case sn_chosen sc of
             None \<Rightarrow>
               (if sn_saw_incompatible sc
                then res\<lparr>lr_outcome := LO_MissIncompatible,
                         lr_decision := (if d_klass (lr_decision res) = CC_NotACandidate
                                         then sn_best_incompat sc else lr_decision res)\<rparr>
                else if lr_outcome res \<noteq> LO_MissStaleDependency then res\<lparr>lr_outcome := LO_MissCaptureRequired\<rparr>
                else res, st)
           | Some a \<Rightarrow>
               let (ms, st) = now_ms env st;
                   st = upd_entry a (\<lambda>e. e\<lparr>en_last_access_ms := ms, en_reuse_count := en_reuse_count e + 1\<rparr>) st;
                   (mat, st) = materialize_exec env a st
               in case mat of
                    Inl err \<Rightarrow> (res\<lparr>lr_outcome := LO_MissCaptureRequired,
                       lr_reason_text := ''cannot materialize graph executable: '' @ err_message err\<rparr>, st)
                  | Inr _ \<Rightarrow>
                    let e = gc_heap st a in
                    if en_invalidated e \<or> \<not> lifecycle_is_replay_eligible (en_lifecycle e)
                    then (res\<lparr>lr_outcome := LO_MissInvalidated\<rparr>, st)
                    else
                      let (lease, st) = make_lease a (needs_rebinding (sn_best sc)) st
                      in (res\<lparr>lr_artifact := en_artifact e, lr_generation := en_generation e,
                            lr_lease := Some lease,
                            lr_outcome := hit_outcome (d_klass (sn_best sc)) (en_residency e),
                            lr_reasons := d_reasons (sn_best sc)\<rparr>, st))"

subsection \<open>Lookup\<close>

definition outcome_json :: "LookupOutcome \<Rightarrow> string" where
  "outcome_json oc = ''\"outcome\":\"'' @ LookupOutcome_to_string oc @ ''\"''"

definition finish_hit :: "'x cache_env \<Rightarrow> 'x GraphLookupResult \<Rightarrow> GraphLookupRequest \<Rightarrow> u64 \<Rightarrow> 'x GraphCache \<Rightarrow> 'x GraphCache" where
  "finish_hit env res req start st =
     (let (finish, st) = now_us env st;
          st = bump_scope_raw (wl_name (rq_workload req)) (device_scope (rq_device req)) (wl_namespace (rq_workload req))
                 (\<lambda>m. m\<lparr>psm_hits := psm_hits m + 1\<rparr>) st;
          st = touch_metric (\<lambda>m. let m = m\<lparr>m_lookup_latency_us := finish - start\<rparr> in case lr_outcome res of
                   LO_ExactBackendResidentHit \<Rightarrow> m\<lparr>m_exact_hits := m_exact_hits m + 1, m_backend_resident_hits := m_backend_resident_hits m + 1\<rparr>
                 | LO_ExactHostHit \<Rightarrow> m\<lparr>m_exact_hits := m_exact_hits m + 1, m_host_hits := m_host_hits m + 1\<rparr>
                 | LO_CompatibleHitRebinding \<Rightarrow> m\<lparr>m_compatible_hits := m_compatible_hits m + 1\<rparr>
                 | LO_CompatibleDynamicShapeHit \<Rightarrow> m\<lparr>m_compatible_hits := m_compatible_hits m + 1\<rparr>
                 | _ \<Rightarrow> m) st
      in record_event env ''lookup.hit'' ''hit'' (outcome_json (lr_outcome res)) st)"

definition miss_reason :: "LookupOutcome \<Rightarrow> string" where
  "miss_reason oc = (case oc of
       LO_MissCaptureRequired \<Rightarrow> ''no replay-eligible candidate; capture required''
     | LO_MissIncompatible \<Rightarrow> ''candidate exists but is incompatible''
     | LO_MissStaleDependency \<Rightarrow> ''candidate dependency generation is stale''
     | LO_MissInvalidated \<Rightarrow> ''candidate was invalidated''
     | LO_MissCorruptPersistence \<Rightarrow> ''persisted candidate is corrupt''
     | LO_MissResidencyPressure \<Rightarrow> ''no residency capacity''
     | LO_MissPolicyRejected \<Rightarrow> ''rejected by compatibility policy''
     | _ \<Rightarrow> ''miss'')"

definition finish_miss :: "'x cache_env \<Rightarrow> 'x GraphLookupResult \<Rightarrow> u64 \<Rightarrow> 'x GraphCache \<Rightarrow> 'x GraphLookupResult \<times> 'x GraphCache" where
  "finish_miss env res start st =
     (let (finish, st) = now_us env st;
          st = touch_metric (\<lambda>m. m\<lparr>m_lookup_latency_us := finish - start\<rparr>) st;
          st = record_event env (if lr_hit res then ''lookup.hit'' else ''lookup.miss'')
                 (if lr_hit res then ''hit'' else ''miss'') (outcome_json (lr_outcome res)) st
      in (res, st))"

definition lookup :: "'x cache_env \<Rightarrow> GraphLookupRequest \<Rightarrow> 'x GraphCache \<Rightarrow> 'x GraphLookupResult \<times> 'x GraphCache" where
  "lookup env req st =
     (let (start, st) = now_us env st;
          st = touch_metric (\<lambda>m. m\<lparr>m_lookups := m_lookups m + 1\<rparr>) st;
          facts = make_facts req
      in case key_build facts of
           Inl e \<Rightarrow> (lookup_result_default\<lparr>lr_outcome := LO_MissPolicyRejected,
                      lr_reason_text := ''cannot build compatibility key: '' @ err_message e\<rparr>, st)
         | Inr key \<Rightarrow>
           let st = bump_scopes facts (\<lambda>m. m\<lparr>psm_lookups := psm_lookups m + 1\<rparr>) st;
               (cand, st) = search_candidates env facts (rq_policy req) st
           in if lr_hit cand then (cand, finish_hit env cand req start st)
              else
                let st = bump_scopes facts (\<lambda>m. m\<lparr>psm_misses := psm_misses m + 1\<rparr>) st;
                    res = cand\<lparr>lr_reason_text := miss_reason (lr_outcome cand)\<rparr>
                in if rq_allow_capture req \<and> cfg_allow_capture (gc_config st) \<and> lr_outcome res = LO_MissCaptureRequired
                   then
                     let attempt = CaptureAttemptId (gc_capture_counter st + 1);
                         st = st\<lparr>gc_capture_counter := gc_capture_counter st + 1\<rparr>;
                         ((spawned, owned), st) = run_single_flight env req attempt st;
                         res = res\<lparr>lr_capture_started := True, lr_waited_on_capture := \<not> owned\<rparr>
                     in (case spawned of
                           Inl e \<Rightarrow>
                             finish_miss env (res\<lparr>lr_outcome := LO_MissCaptureRequired,
                               lr_reason_text := ''capture failed: '' @ err_message e\<rparr>) start
                               (touch_metric (\<lambda>m. m\<lparr>m_capture_failures := m_capture_failures m + 1\<rparr>) st)
                         | Inr _ \<Rightarrow>
                             let (again, st) = search_candidates env facts (rq_policy req) st
                             in if lr_hit again
                                then (again\<lparr>lr_capture_started := True, lr_waited_on_capture := \<not> owned,
                                        lr_reason_text := ''captured and replayed-compatible; hit''\<rparr>,
                                      finish_hit env again req start st)
                                else finish_miss env (res\<lparr>lr_outcome := LO_MissIncompatible,
                                       lr_reason_text := ''capture completed but no compatible candidate is replay-eligible''\<rparr>) start st)
                   else finish_miss env res start st)"

subsection \<open>Replay\<close>

definition replay :: "'x cache_env \<Rightarrow> 'x GraphReplayRequest \<Rightarrow> 'x GraphCache \<times> memory
    \<Rightarrow> (GraphReplayResult Result \<times> 'x GraphCache \<times> memory) option" where
  "replay env req sm = (case sm of (st, mem) \<Rightarrow>
     case rr_lease req of
       None \<Rightarrow> Some (failure EC_LeaseNotHeld ''replay called with no valid lease'', st, mem)
     | Some lease \<Rightarrow>
     case gl_token lease of
       None \<Rightarrow> Some (failure EC_LeaseNotHeld ''replay called with no valid lease'', st, mem)
     | Some t \<Rightarrow>
     if GraphGeneration_valid (rr_expected req) \<and> gl_generation lease \<noteq> rr_expected req
     then Some (failure EC_GenerationMismatch ''lease generation != expected generation'', st, mem)
     else case le_keep_alive (gc_tokens st t) of
       None \<Rightarrow> Some (failure EC_LeaseNotHeld ''lease lost its entry'', st, mem)
     | Some a \<Rightarrow>
     if gl_exec lease = None then Some (failure EC_NotResident ''lease executable not backend-resident'', st, mem)
     else
       let st = upd_entry a (\<lambda>e. e\<lparr>en_active_replays := en_active_replays e + 1\<rparr>)
                  (st\<lparr>gc_active_replays := gc_active_replays st + 1\<rparr>);
           (start, st) = now_us env st
       in case be_replay (env_backend env) (en_descriptor (gc_heap st a)) (gl_exec lease) (rr_buffers req)
                 (rr_descriptor req) mem of
            None \<Rightarrow> None
          | Some (r, mem) \<Rightarrow>
            let (finish, st) = now_us env st;
                st = upd_entry a (\<lambda>e. e\<lparr>en_active_replays := en_active_replays e - 1\<rparr>) st;
                st = st\<lparr>gc_active_replays := gc_active_replays st - 1\<rparr>
            in (case r of
                  Inl e \<Rightarrow> Some (Inl e, touch_metric (\<lambda>m. m\<lparr>m_replay_failures := m_replay_failures m + 1\<rparr>) st, mem)
                | Inr out \<Rightarrow>
                  let st = upd_entry a (\<lambda>e. e\<lparr>en_reuse_count := en_reuse_count e + 1\<rparr>) st;
                      st = entry_scopes (gc_heap st a) (\<lambda>m. m\<lparr>psm_replays := psm_replays m + 1\<rparr>) st;
                      st = touch_metric (\<lambda>m. m\<lparr>m_replays := m_replays m + 1, m_replay_latency_us := finish - start\<rparr>) st;
                      st = record_event env ''replay'' ''ok''
                             (''\"nodes\":\"'' @ dec_string (unat (gr_replayed_nodes out)) @ ''\"'') st
                  in Some (success out, st, mem)))"

subsection \<open>Invalidation\<close>

definition in_scope :: "InvalidationRequest \<Rightarrow> 'x CacheEntry \<Rightarrow> bool" where
  "in_scope req e = (case ir_scope req of
       IS_ByAll \<Rightarrow> True
     | IS_ByArtifactId \<Rightarrow> False
     | IS_ByGraphId \<Rightarrow> en_graph_id e = ir_graph_id req
     | IS_ByNamespace \<Rightarrow> wl_namespace (en_workload e) = ir_namespace req
     | IS_ByWorkload \<Rightarrow> wl_name (en_workload e) = wl_name (ir_workload req)
         \<and> (ir_namespace req = [] \<or> wl_namespace (en_workload e) = ir_namespace req)
     | IS_ByCompatibilityKey \<Rightarrow> wl_name (en_workload e) = wl_name (ir_workload req)
     | IS_ByTopology \<Rightarrow> wl_name (en_workload e) = wl_name (ir_workload req)
     | IS_ByModelRevision \<Rightarrow> wl_model_revision (en_workload e) \<noteq> []
         \<and> wl_model_revision (en_workload e) = ir_model_revision req
     | IS_ByBackend \<Rightarrow> bk_kind (g_backend (en_descriptor e)) = bk_kind (ir_backend req)
         \<and> (bk_name (ir_backend req) = [] \<or> bk_name (g_backend (en_descriptor e)) = bk_name (ir_backend req))
     | IS_ByDependencyGeneration \<Rightarrow> GraphGeneration_valid (ir_dependency_generation req)
         \<and> en_dependency_generation e \<noteq> gg_value (ir_dependency_generation req))"

definition invalidation_targets :: "'x cache_env \<Rightarrow> InvalidationRequest \<Rightarrow> 'x GraphCache \<Rightarrow> nat list" where
  "invalidation_targets env req st =
     (if ir_scope req = IS_ByArtifactId
      then (case map_of (gc_by_artifact st) (ir_artifact req) of None \<Rightarrow> [] | Some a \<Rightarrow> [a])
      else filter (\<lambda>a. in_scope req (gc_heap st a)) (map snd (env_map_ord env (gc_by_artifact st))))"

definition unload_entry :: "'x cache_env \<Rightarrow> nat \<Rightarrow> 'x GraphCache \<Rightarrow> 'x GraphCache" where
  "unload_entry env a st =
     (let (u, exec) = be_unload (env_backend env) (en_descriptor (gc_heap st a)) (en_exec (gc_heap st a));
          st = upd_entry a (\<lambda>e. e\<lparr>en_exec := exec\<rparr>) st
      in if result_ok u then upd_entry a (\<lambda>e. e\<lparr>en_residency := RT_PersistentStorage\<rparr>) st else st)"

definition invalidate_one :: "'x cache_env \<Rightarrow> bool \<Rightarrow> InvalidationResult \<times> 'x GraphCache \<Rightarrow> nat
    \<Rightarrow> InvalidationResult \<times> 'x GraphCache" where
  "invalidate_one env strong acc a = (case acc of (res, st) \<Rightarrow>
     if en_invalidated (gc_heap st a) then (res, st)
     else
       let st = upd_entry a (\<lambda>e. e\<lparr>en_invalidated := True, en_lifecycle := LC_Invalidated\<rparr>) st;
           st = st\<lparr>gc_invalidated_keys := insert (key_hex (en_key (gc_heap st a))) (gc_invalidated_keys st)\<rparr>;
           st = (if strong \<and> en_lease_count (gc_heap st a) = 0 \<and> en_residency (gc_heap st a) = RT_BackendResident
                 then unload_entry env a st else st);
           res = (if en_lease_count (gc_heap st a) > 0 then res\<lparr>iv_still_leasing := iv_still_leasing res + 1\<rparr> else res);
           res = res\<lparr>iv_invalidated := iv_invalidated res + 1\<rparr>;
           st = st\<lparr>gc_graph_gen := gc_graph_gen st + 1\<rparr>
       in (res, entry_scopes (gc_heap st a) (\<lambda>m. m\<lparr>psm_invalidations := psm_invalidations m + 1\<rparr>) st))"

definition invalidate :: "'x cache_env \<Rightarrow> InvalidationRequest \<Rightarrow> 'x GraphCache \<Rightarrow> InvalidationResult \<times> 'x GraphCache" where
  "invalidate env req st =
     (let new_gen = CacheGeneration (gc_cache_gen st + 1);
          st = st\<lparr>gc_cache_gen := gc_cache_gen st + 1\<rparr>;
          res = \<lparr>iv_invalidated = 0, iv_still_leasing = 0, iv_graph_generation = GraphGeneration 0,
                 iv_cache_generation = CacheGeneration 0\<rparr>;
          (res, st) = foldl (invalidate_one env (ir_strong req)) (res, st) (invalidation_targets env req st);
          res = res\<lparr>iv_cache_generation := new_gen\<rparr>;
          st = touch_metric (\<lambda>m. m\<lparr>m_invalidations := m_invalidations m + word_of_nat (iv_invalidated res)\<rparr>) st;
          st = record_event env ''invalidate'' (dec_string (iv_invalidated res) @ '' graphs invalidated'') [] st
      in (res, st))"

definition invalidate_all :: "'x cache_env \<Rightarrow> 'x GraphCache \<Rightarrow> InvalidationResult \<times> 'x GraphCache" where
  "invalidate_all env st = invalidate env (InvalidationRequest_default\<lparr>ir_scope := IS_ByAll\<rparr>) st"

subsection \<open>Pinning and eviction\<close>

definition pin :: "GraphArtifactId \<Rightarrow> 'x GraphCache \<Rightarrow> unit Result \<times> 'x GraphCache" where
  "pin i st = (case map_of (gc_by_artifact st) i of
       None \<Rightarrow> (failure EC_NoSuchArtifact ''no such artifact'', st)
     | Some a \<Rightarrow> (success (), upd_entry a (\<lambda>e. e\<lparr>en_pin_count := en_pin_count e + 1\<rparr>) st))"

definition unpin :: "GraphArtifactId \<Rightarrow> 'x GraphCache \<Rightarrow> unit Result \<times> 'x GraphCache" where
  "unpin i st = (case map_of (gc_by_artifact st) i of
       None \<Rightarrow> (failure EC_NoSuchArtifact ''no such artifact'', st)
     | Some a \<Rightarrow>
         if en_pin_count (gc_heap st a) = 0 then (failure EC_LeaseUnderflow ''unpin underflow'', st)
         else (success (), upd_entry a (\<lambda>e. e\<lparr>en_pin_count := en_pin_count e - 1\<rparr>) st))"

definition evict :: "'x cache_env \<Rightarrow> GraphArtifactId \<Rightarrow> 'x GraphCache \<Rightarrow> unit Result \<times> 'x GraphCache" where
  "evict env i st = (case map_of (gc_by_artifact st) i of
       None \<Rightarrow> (failure EC_NoSuchArtifact ''no such artifact'', st)
     | Some a \<Rightarrow>
         if en_pin_count (gc_heap st a) > 0 \<or> en_lease_count (gc_heap st a) > 0
         then (failure EC_EvictionImpossible ''graph is pinned or leased'', st)
         else
           let st = (if en_residency (gc_heap st a) = RT_BackendResident then unload_entry env a st else st);
               st = touch_metric (\<lambda>m. m\<lparr>m_evictions := m_evictions m + 1\<rparr>) st;
               st = record_event env ''evict'' ''graph evicted''
                      (''\"artifact\":\"'' @ GraphArtifactId_to_string i @ ''\"'') st
           in (success (), st))"

definition unload :: "'x cache_env \<Rightarrow> GraphArtifactId \<Rightarrow> 'x GraphCache \<Rightarrow> unit Result \<times> 'x GraphCache" where
  "unload env i st = (case map_of (gc_by_artifact st) i of
       None \<Rightarrow> (failure EC_NoSuchArtifact ''no such artifact'', st)
     | Some a \<Rightarrow>
         if en_lease_count (gc_heap st a) > 0 then (failure EC_NotResident ''cannot unload while leased'', st)
         else (success (), if en_residency (gc_heap st a) = RT_BackendResident then unload_entry env a st else st))"

section \<open>What the helpers leave alone\<close>

text \<open>Clock readings, metrics, events and scopes touch nothing the engine's decisions depend on.\<close>

lemma touch_metric_core [simp]:
  "gc_config (touch_metric f st) = gc_config st"
  "gc_heap (touch_metric f st) = gc_heap st"
  "gc_next (touch_metric f st) = gc_next st"
  "gc_tokens (touch_metric f st) = gc_tokens st"
  "gc_next_token (touch_metric f st) = gc_next_token st"
  "gc_by_artifact (touch_metric f st) = gc_by_artifact st"
  "gc_by_key (touch_metric f st) = gc_by_key st"
  "gc_by_workload (touch_metric f st) = gc_by_workload st"
  "gc_key_gen (touch_metric f st) = gc_key_gen st"
  "gc_invalidated_keys (touch_metric f st) = gc_invalidated_keys st"
  "gc_capture_counter (touch_metric f st) = gc_capture_counter st"
  "gc_graph_gen (touch_metric f st) = gc_graph_gen st"
  "gc_cache_gen (touch_metric f st) = gc_cache_gen st"
  "gc_active_leases (touch_metric f st) = gc_active_leases st"
  "gc_active_captures (touch_metric f st) = gc_active_captures st"
  "gc_active_replays (touch_metric f st) = gc_active_replays st"
  "gc_store (touch_metric f st) = gc_store st"
  "gc_ios (touch_metric f st) = gc_ios st"
  "gc_events (touch_metric f st) = gc_events st"
  "gc_event_seq (touch_metric f st) = gc_event_seq st"
  "gc_ticks (touch_metric f st) = gc_ticks st"
  by (simp_all add: touch_metric_def)

lemma bump_scope_raw_core [simp]:
  "gc_config (bump_scope_raw wl dev ns f st) = gc_config st"
  "gc_heap (bump_scope_raw wl dev ns f st) = gc_heap st"
  "gc_next (bump_scope_raw wl dev ns f st) = gc_next st"
  "gc_tokens (bump_scope_raw wl dev ns f st) = gc_tokens st"
  "gc_next_token (bump_scope_raw wl dev ns f st) = gc_next_token st"
  "gc_by_artifact (bump_scope_raw wl dev ns f st) = gc_by_artifact st"
  "gc_by_key (bump_scope_raw wl dev ns f st) = gc_by_key st"
  "gc_by_workload (bump_scope_raw wl dev ns f st) = gc_by_workload st"
  "gc_key_gen (bump_scope_raw wl dev ns f st) = gc_key_gen st"
  "gc_invalidated_keys (bump_scope_raw wl dev ns f st) = gc_invalidated_keys st"
  "gc_capture_counter (bump_scope_raw wl dev ns f st) = gc_capture_counter st"
  "gc_graph_gen (bump_scope_raw wl dev ns f st) = gc_graph_gen st"
  "gc_cache_gen (bump_scope_raw wl dev ns f st) = gc_cache_gen st"
  "gc_active_leases (bump_scope_raw wl dev ns f st) = gc_active_leases st"
  "gc_active_captures (bump_scope_raw wl dev ns f st) = gc_active_captures st"
  "gc_active_replays (bump_scope_raw wl dev ns f st) = gc_active_replays st"
  "gc_store (bump_scope_raw wl dev ns f st) = gc_store st"
  "gc_ios (bump_scope_raw wl dev ns f st) = gc_ios st"
  by (simp_all add: bump_scope_raw_def)

lemma bump_scopes_core [simp]:
  "gc_config (bump_scopes facts f st) = gc_config st"
  "gc_heap (bump_scopes facts f st) = gc_heap st"
  "gc_next (bump_scopes facts f st) = gc_next st"
  "gc_tokens (bump_scopes facts f st) = gc_tokens st"
  "gc_next_token (bump_scopes facts f st) = gc_next_token st"
  "gc_by_artifact (bump_scopes facts f st) = gc_by_artifact st"
  "gc_by_key (bump_scopes facts f st) = gc_by_key st"
  "gc_by_workload (bump_scopes facts f st) = gc_by_workload st"
  "gc_key_gen (bump_scopes facts f st) = gc_key_gen st"
  "gc_invalidated_keys (bump_scopes facts f st) = gc_invalidated_keys st"
  "gc_capture_counter (bump_scopes facts f st) = gc_capture_counter st"
  "gc_graph_gen (bump_scopes facts f st) = gc_graph_gen st"
  "gc_cache_gen (bump_scopes facts f st) = gc_cache_gen st"
  "gc_active_leases (bump_scopes facts f st) = gc_active_leases st"
  "gc_active_captures (bump_scopes facts f st) = gc_active_captures st"
  "gc_active_replays (bump_scopes facts f st) = gc_active_replays st"
  "gc_store (bump_scopes facts f st) = gc_store st"
  "gc_ios (bump_scopes facts f st) = gc_ios st"
  by (simp_all add: bump_scopes_def)

lemma entry_scopes_core [simp]:
  "gc_config (entry_scopes e f st) = gc_config st"
  "gc_heap (entry_scopes e f st) = gc_heap st"
  "gc_next (entry_scopes e f st) = gc_next st"
  "gc_tokens (entry_scopes e f st) = gc_tokens st"
  "gc_next_token (entry_scopes e f st) = gc_next_token st"
  "gc_by_artifact (entry_scopes e f st) = gc_by_artifact st"
  "gc_by_key (entry_scopes e f st) = gc_by_key st"
  "gc_by_workload (entry_scopes e f st) = gc_by_workload st"
  "gc_key_gen (entry_scopes e f st) = gc_key_gen st"
  "gc_invalidated_keys (entry_scopes e f st) = gc_invalidated_keys st"
  "gc_capture_counter (entry_scopes e f st) = gc_capture_counter st"
  "gc_graph_gen (entry_scopes e f st) = gc_graph_gen st"
  "gc_cache_gen (entry_scopes e f st) = gc_cache_gen st"
  "gc_active_leases (entry_scopes e f st) = gc_active_leases st"
  "gc_active_captures (entry_scopes e f st) = gc_active_captures st"
  "gc_active_replays (entry_scopes e f st) = gc_active_replays st"
  "gc_store (entry_scopes e f st) = gc_store st"
  "gc_ios (entry_scopes e f st) = gc_ios st"
  by (simp_all add: entry_scopes_def)

lemma record_event_core [simp]:
  "gc_config (record_event env t m d st) = gc_config st"
  "gc_heap (record_event env t m d st) = gc_heap st"
  "gc_next (record_event env t m d st) = gc_next st"
  "gc_tokens (record_event env t m d st) = gc_tokens st"
  "gc_next_token (record_event env t m d st) = gc_next_token st"
  "gc_by_artifact (record_event env t m d st) = gc_by_artifact st"
  "gc_by_key (record_event env t m d st) = gc_by_key st"
  "gc_by_workload (record_event env t m d st) = gc_by_workload st"
  "gc_key_gen (record_event env t m d st) = gc_key_gen st"
  "gc_invalidated_keys (record_event env t m d st) = gc_invalidated_keys st"
  "gc_capture_counter (record_event env t m d st) = gc_capture_counter st"
  "gc_graph_gen (record_event env t m d st) = gc_graph_gen st"
  "gc_cache_gen (record_event env t m d st) = gc_cache_gen st"
  "gc_active_leases (record_event env t m d st) = gc_active_leases st"
  "gc_active_captures (record_event env t m d st) = gc_active_captures st"
  "gc_active_replays (record_event env t m d st) = gc_active_replays st"
  "gc_store (record_event env t m d st) = gc_store st"
  "gc_ios (record_event env t m d st) = gc_ios st"
  by (simp_all add: record_event_def now_ms_def Let_def)

lemma now_us_core [simp]:
  "gc_config (snd (now_us env st)) = gc_config st"
  "gc_heap (snd (now_us env st)) = gc_heap st"
  "gc_next (snd (now_us env st)) = gc_next st"
  "gc_tokens (snd (now_us env st)) = gc_tokens st"
  "gc_next_token (snd (now_us env st)) = gc_next_token st"
  "gc_by_artifact (snd (now_us env st)) = gc_by_artifact st"
  "gc_by_key (snd (now_us env st)) = gc_by_key st"
  "gc_by_workload (snd (now_us env st)) = gc_by_workload st"
  "gc_key_gen (snd (now_us env st)) = gc_key_gen st"
  "gc_invalidated_keys (snd (now_us env st)) = gc_invalidated_keys st"
  "gc_capture_counter (snd (now_us env st)) = gc_capture_counter st"
  "gc_graph_gen (snd (now_us env st)) = gc_graph_gen st"
  "gc_cache_gen (snd (now_us env st)) = gc_cache_gen st"
  "gc_active_leases (snd (now_us env st)) = gc_active_leases st"
  "gc_active_captures (snd (now_us env st)) = gc_active_captures st"
  "gc_active_replays (snd (now_us env st)) = gc_active_replays st"
  "gc_store (snd (now_us env st)) = gc_store st"
  "gc_ios (snd (now_us env st)) = gc_ios st"
  by (simp_all add: now_us_def)

lemma now_ms_core [simp]:
  "gc_config (snd (now_ms env st)) = gc_config st"
  "gc_heap (snd (now_ms env st)) = gc_heap st"
  "gc_next (snd (now_ms env st)) = gc_next st"
  "gc_tokens (snd (now_ms env st)) = gc_tokens st"
  "gc_next_token (snd (now_ms env st)) = gc_next_token st"
  "gc_by_artifact (snd (now_ms env st)) = gc_by_artifact st"
  "gc_by_key (snd (now_ms env st)) = gc_by_key st"
  "gc_by_workload (snd (now_ms env st)) = gc_by_workload st"
  "gc_key_gen (snd (now_ms env st)) = gc_key_gen st"
  "gc_invalidated_keys (snd (now_ms env st)) = gc_invalidated_keys st"
  "gc_capture_counter (snd (now_ms env st)) = gc_capture_counter st"
  "gc_graph_gen (snd (now_ms env st)) = gc_graph_gen st"
  "gc_cache_gen (snd (now_ms env st)) = gc_cache_gen st"
  "gc_active_leases (snd (now_ms env st)) = gc_active_leases st"
  "gc_active_captures (snd (now_ms env st)) = gc_active_captures st"
  "gc_active_replays (snd (now_ms env st)) = gc_active_replays st"
  "gc_store (snd (now_ms env st)) = gc_store st"
  "gc_ios (snd (now_ms env st)) = gc_ios st"
  by (simp_all add: now_ms_def)

lemma upd_entry_core [simp]:
  "gc_config (upd_entry a f st) = gc_config st"
  "gc_next (upd_entry a f st) = gc_next st"
  "gc_tokens (upd_entry a f st) = gc_tokens st"
  "gc_next_token (upd_entry a f st) = gc_next_token st"
  "gc_by_artifact (upd_entry a f st) = gc_by_artifact st"
  "gc_by_key (upd_entry a f st) = gc_by_key st"
  "gc_by_workload (upd_entry a f st) = gc_by_workload st"
  "gc_key_gen (upd_entry a f st) = gc_key_gen st"
  "gc_invalidated_keys (upd_entry a f st) = gc_invalidated_keys st"
  "gc_capture_counter (upd_entry a f st) = gc_capture_counter st"
  "gc_graph_gen (upd_entry a f st) = gc_graph_gen st"
  "gc_cache_gen (upd_entry a f st) = gc_cache_gen st"
  "gc_active_leases (upd_entry a f st) = gc_active_leases st"
  "gc_active_captures (upd_entry a f st) = gc_active_captures st"
  "gc_active_replays (upd_entry a f st) = gc_active_replays st"
  "gc_store (upd_entry a f st) = gc_store st"
  "gc_ios (upd_entry a f st) = gc_ios st"
  by (simp_all add: upd_entry_def)

lemma finish_hit_core [simp]:
  "gc_config (finish_hit env res req start st) = gc_config st"
  "gc_heap (finish_hit env res req start st) = gc_heap st"
  "gc_next (finish_hit env res req start st) = gc_next st"
  "gc_tokens (finish_hit env res req start st) = gc_tokens st"
  "gc_next_token (finish_hit env res req start st) = gc_next_token st"
  "gc_by_artifact (finish_hit env res req start st) = gc_by_artifact st"
  "gc_by_key (finish_hit env res req start st) = gc_by_key st"
  "gc_by_workload (finish_hit env res req start st) = gc_by_workload st"
  "gc_key_gen (finish_hit env res req start st) = gc_key_gen st"
  "gc_invalidated_keys (finish_hit env res req start st) = gc_invalidated_keys st"
  "gc_capture_counter (finish_hit env res req start st) = gc_capture_counter st"
  "gc_graph_gen (finish_hit env res req start st) = gc_graph_gen st"
  "gc_cache_gen (finish_hit env res req start st) = gc_cache_gen st"
  "gc_active_leases (finish_hit env res req start st) = gc_active_leases st"
  "gc_active_captures (finish_hit env res req start st) = gc_active_captures st"
  "gc_active_replays (finish_hit env res req start st) = gc_active_replays st"
  "gc_store (finish_hit env res req start st) = gc_store st"
  "gc_ios (finish_hit env res req start st) = gc_ios st"
  by (simp_all add: finish_hit_def now_us_def Let_def)

lemma finish_miss_core [simp]:
  "gc_config (snd (finish_miss env res start st)) = gc_config st"
  "gc_heap (snd (finish_miss env res start st)) = gc_heap st"
  "gc_next (snd (finish_miss env res start st)) = gc_next st"
  "gc_tokens (snd (finish_miss env res start st)) = gc_tokens st"
  "gc_next_token (snd (finish_miss env res start st)) = gc_next_token st"
  "gc_by_artifact (snd (finish_miss env res start st)) = gc_by_artifact st"
  "gc_by_key (snd (finish_miss env res start st)) = gc_by_key st"
  "gc_by_workload (snd (finish_miss env res start st)) = gc_by_workload st"
  "gc_key_gen (snd (finish_miss env res start st)) = gc_key_gen st"
  "gc_invalidated_keys (snd (finish_miss env res start st)) = gc_invalidated_keys st"
  "gc_capture_counter (snd (finish_miss env res start st)) = gc_capture_counter st"
  "gc_graph_gen (snd (finish_miss env res start st)) = gc_graph_gen st"
  "gc_cache_gen (snd (finish_miss env res start st)) = gc_cache_gen st"
  "gc_active_leases (snd (finish_miss env res start st)) = gc_active_leases st"
  "gc_active_captures (snd (finish_miss env res start st)) = gc_active_captures st"
  "gc_active_replays (snd (finish_miss env res start st)) = gc_active_replays st"
  "gc_store (snd (finish_miss env res start st)) = gc_store st"
  "gc_ios (snd (finish_miss env res start st)) = gc_ios st"
  by (simp_all add: finish_miss_def now_us_def Let_def)

lemma persist_entry_core [simp]:
  "gc_config (snd (persist_entry env a st)) = gc_config st"
  "gc_heap (snd (persist_entry env a st)) = gc_heap st"
  "gc_next (snd (persist_entry env a st)) = gc_next st"
  "gc_tokens (snd (persist_entry env a st)) = gc_tokens st"
  "gc_next_token (snd (persist_entry env a st)) = gc_next_token st"
  "gc_by_artifact (snd (persist_entry env a st)) = gc_by_artifact st"
  "gc_by_key (snd (persist_entry env a st)) = gc_by_key st"
  "gc_by_workload (snd (persist_entry env a st)) = gc_by_workload st"
  "gc_key_gen (snd (persist_entry env a st)) = gc_key_gen st"
  "gc_invalidated_keys (snd (persist_entry env a st)) = gc_invalidated_keys st"
  "gc_capture_counter (snd (persist_entry env a st)) = gc_capture_counter st"
  "gc_graph_gen (snd (persist_entry env a st)) = gc_graph_gen st"
  "gc_cache_gen (snd (persist_entry env a st)) = gc_cache_gen st"
  "gc_active_leases (snd (persist_entry env a st)) = gc_active_leases st"
  "gc_active_captures (snd (persist_entry env a st)) = gc_active_captures st"
  "gc_active_replays (snd (persist_entry env a st)) = gc_active_replays st"
  by (simp_all add: persist_entry_def now_us_def Let_def split: option.splits prod.splits)


lemma heap_upd_entry [simp]: "gc_heap (upd_entry a f st) = (gc_heap st)(a := f (gc_heap st a))"
  by (simp add: upd_entry_def)

lemma fst_finish_miss [simp]: "fst (finish_miss env res start st) = res"
  by (simp add: finish_miss_def Let_def split: prod.splits)

end
