(* ===== verification/GC_CacheInv.thy ===== *)
theory GC_CacheInv
  imports GC_Cache
begin

text \<open>
  The invariant of the cache engine. The operations of \<open>GC_Cache\<close> are refined to the few primitive
  changes they make to entries, leases and indexes (\<open>engine_step\<close>): every operation is a sequence of
  such steps, and the invariant, as well as the permanence of invalidation, is proved once per step
  by rule induction.
\<close>

section \<open>Primitive steps\<close>

definition same_core :: "'x GraphCache \<Rightarrow> 'x GraphCache \<Rightarrow> bool" where
  "same_core st st' \<longleftrightarrow> gc_heap st' = gc_heap st \<and> gc_next st' = gc_next st \<and> gc_tokens st' = gc_tokens st
     \<and> gc_next_token st' = gc_next_token st \<and> gc_by_artifact st' = gc_by_artifact st
     \<and> gc_by_key st' = gc_by_key st \<and> gc_by_workload st' = gc_by_workload st
     \<and> gc_active_leases st' = gc_active_leases st"

text \<open>A change to an entry that touches only its usage counters.\<close>

definition zero_counters :: "'x CacheEntry \<Rightarrow> 'x CacheEntry" where
  "zero_counters e = e\<lparr>en_pin_count := 0, en_active_replays := 0, en_reuse_count := 0, en_last_access_ms := 0,
     en_persisted := False\<rparr>"

definition counters_only :: "('x CacheEntry \<Rightarrow> 'x CacheEntry) \<Rightarrow> bool" where
  "counters_only f \<longleftrightarrow> (\<forall>e. zero_counters (f e) = zero_counters e)"

definition fresh_entry :: "'x CacheEntry \<Rightarrow> bool" where
  "fresh_entry e \<longleftrightarrow> en_lease_count e = 0 \<and> en_lifecycle e = (if en_invalidated e then LC_Invalidated else LC_Valid)
     \<and> en_residency e = (if en_exec e = None then RT_MetadataOnly else RT_HostResident)"

inductive engine_step :: "'x cache_env \<Rightarrow> 'x GraphCache \<Rightarrow> 'x GraphCache \<Rightarrow> bool" for env where
  observe: "same_core st st' \<Longrightarrow> engine_step env st st'"
| touch: "a < gc_next st \<Longrightarrow> counters_only f \<Longrightarrow> engine_step env st (upd_entry a f st)"
| materialize: "a < gc_next st \<Longrightarrow> h \<noteq> None \<Longrightarrow>
     engine_step env st (upd_entry a (\<lambda>e. e\<lparr>en_exec := h, en_residency := RT_HostResident\<rparr>) st)"
| lease: "a < gc_next st \<Longrightarrow> \<not> en_invalidated (gc_heap st a) \<Longrightarrow> engine_step env st (snd (make_lease a b st))"
| release: "t < gc_next_token st \<Longrightarrow> \<not> le_released (gc_tokens st t) \<Longrightarrow>
     engine_step env st (release_fn (le_keep_alive (gc_tokens st t))
       (st\<lparr>gc_tokens := (gc_tokens st)(t := (gc_tokens st t)\<lparr>le_released := True\<rparr>)\<rparr>))"
| insert: "fresh_entry e \<Longrightarrow> engine_step env st (snd (insert_entry e st))"
| revoke: "a < gc_next st \<Longrightarrow>
     engine_step env st (upd_entry a (\<lambda>e. e\<lparr>en_invalidated := True, en_lifecycle := LC_Invalidated\<rparr>) st)"

inductive engine_steps :: "'x cache_env \<Rightarrow> 'x GraphCache \<Rightarrow> 'x GraphCache \<Rightarrow> bool" for env where
  stay [intro!]: "engine_steps env st st"
| step: "engine_steps env st st' \<Longrightarrow> engine_step env st' st'' \<Longrightarrow> engine_steps env st st''"

lemma engine_steps_one: "engine_step env st st' \<Longrightarrow> engine_steps env st st'"
  by (blast intro: engine_steps.intros)

lemma engine_steps_trans: "engine_steps env st' st'' \<Longrightarrow> engine_steps env st st' \<Longrightarrow> engine_steps env st st''"
  by (induction rule: engine_steps.induct) (blast intro: engine_steps.intros)+

section \<open>The invariant\<close>

definition live_tokens :: "'x GraphCache \<Rightarrow> nat set" where
  "live_tokens st = {t. t < gc_next_token st \<and> \<not> le_released (gc_tokens st t)}"

definition leases_on :: "'x GraphCache \<Rightarrow> nat \<Rightarrow> nat set" where
  "leases_on st a = {t \<in> live_tokens st. le_keep_alive (gc_tokens st t) = Some a}"

definition indexes_ok :: "'x GraphCache \<Rightarrow> bool" where
  "indexes_ok st \<longleftrightarrow> distinct (map fst (gc_by_artifact st))
     \<and> (\<forall>(i, a) \<in> set (gc_by_artifact st). a < gc_next st \<and> en_artifact (gc_heap st a) = i)
     \<and> (\<forall>k as. gc_by_workload st k = Some as \<longrightarrow> (\<forall>a \<in> set as. a < gc_next st \<and> workload_key (en_workload (gc_heap st a)) = k))
     \<and> (\<forall>k as. gc_by_key st k = Some as \<longrightarrow> (\<forall>a \<in> set as. a < gc_next st \<and> key_hex (en_key (gc_heap st a)) = k))
     \<and> (\<forall>a < gc_next st. \<exists>as. gc_by_workload st (workload_key (en_workload (gc_heap st a))) = Some as \<and> a \<in> set as)"

definition entries_ok :: "'x GraphCache \<Rightarrow> bool" where
  "entries_ok st \<longleftrightarrow> (\<forall>a < gc_next st. let e = gc_heap st a in
     en_lifecycle e = (if en_invalidated e then LC_Invalidated else LC_Valid)
     \<and> en_residency e = (if en_exec e = None then RT_MetadataOnly else RT_HostResident))"

definition leases_ok :: "'x GraphCache \<Rightarrow> bool" where
  "leases_ok st \<longleftrightarrow> (\<forall>t < gc_next_token st. \<exists>a < gc_next st. le_keep_alive (gc_tokens st t) = Some a)
     \<and> (gc_next_token st < 2 ^ 64 \<longrightarrow> unat (gc_active_leases st) = card (live_tokens st)
          \<and> (\<forall>a < gc_next st. unat (en_lease_count (gc_heap st a)) = card (leases_on st a)))"

definition cache_inv :: "'x GraphCache \<Rightarrow> bool" where
  "cache_inv st \<longleftrightarrow> indexes_ok st \<and> entries_ok st \<and> leases_ok st"

lemma finite_live [simp]: "finite (live_tokens st)" "finite (leases_on st a)"
  by (simp_all add: live_tokens_def leases_on_def)

lemma card_live_le: "card (live_tokens st) \<le> gc_next_token st" "card (leases_on st a) \<le> gc_next_token st"
proof -
  have "live_tokens st \<subseteq> {..<gc_next_token st}" "leases_on st a \<subseteq> {..<gc_next_token st}"
    by (auto simp: live_tokens_def leases_on_def)
  then show "card (live_tokens st) \<le> gc_next_token st" "card (leases_on st a) \<le> gc_next_token st"
    using card_mono [of "{..<gc_next_token st}"] by fastforce+
qed

lemma counters_onlyD:
  assumes "counters_only f"
  shows "en_artifact (f e) = en_artifact e" "en_workload (f e) = en_workload e" "en_key (f e) = en_key e"
    "en_lifecycle (f e) = en_lifecycle e" "en_invalidated (f e) = en_invalidated e" "en_residency (f e) = en_residency e"
    "en_exec (f e) = en_exec e" "en_lease_count (f e) = en_lease_count e" "en_facts (f e) = en_facts e"
    "en_generation (f e) = en_generation e" "en_descriptor (f e) = en_descriptor e"
proof -
  have "zero_counters (f e) = zero_counters e" using assms by (simp add: counters_only_def)
  then show "en_artifact (f e) = en_artifact e" "en_workload (f e) = en_workload e" "en_key (f e) = en_key e"
    "en_lifecycle (f e) = en_lifecycle e" "en_invalidated (f e) = en_invalidated e" "en_residency (f e) = en_residency e"
    "en_exec (f e) = en_exec e" "en_lease_count (f e) = en_lease_count e" "en_facts (f e) = en_facts e"
    "en_generation (f e) = en_generation e" "en_descriptor (f e) = en_descriptor e"
    by (cases e; cases "f e"; simp add: zero_counters_def)+
qed

lemma indexes_ok_upd:
  assumes "indexes_ok st" and "\<And>e. en_artifact (f e) = en_artifact e \<and> en_workload (f e) = en_workload e \<and> en_key (f e) = en_key e"
  shows "indexes_ok (upd_entry a f st)"
  using assms unfolding indexes_ok_def by (auto split: prod.splits)

lemma live_upd_entry [simp]: "live_tokens (upd_entry a f st) = live_tokens st" "leases_on (upd_entry a f st) b = leases_on st b"
  by (simp_all add: live_tokens_def leases_on_def)

lemma leases_ok_upd:
  "leases_ok st \<Longrightarrow> (\<And>e. en_lease_count (f e) = en_lease_count e) \<Longrightarrow> leases_ok (upd_entry a f st)"
  by (simp add: leases_ok_def)

lemma entries_ok_upd:
  assumes "entries_ok st" and "a < gc_next st \<Longrightarrow> en_lifecycle (f (gc_heap st a)) =
      (if en_invalidated (f (gc_heap st a)) then LC_Invalidated else LC_Valid)
    \<and> en_residency (f (gc_heap st a)) = (if en_exec (f (gc_heap st a)) = None then RT_MetadataOnly else RT_HostResident)"
  shows "entries_ok (upd_entry a f st)"
  using assms by (simp add: entries_ok_def Let_def)

lemma cache_inv_same_core: "same_core st st' \<Longrightarrow> cache_inv st \<Longrightarrow> cache_inv st'"
  by (simp add: same_core_def cache_inv_def indexes_ok_def entries_ok_def leases_ok_def live_tokens_def leases_on_def)

lemma make_lease_effect:
  "gc_heap (snd (make_lease a b st)) = (gc_heap st)(a := (gc_heap st a)\<lparr>en_lease_count := en_lease_count (gc_heap st a) + 1\<rparr>)"
  "gc_next (snd (make_lease a b st)) = gc_next st"
  "gc_next_token (snd (make_lease a b st)) = gc_next_token st + 1"
  "gc_tokens (snd (make_lease a b st)) = (gc_tokens st)(gc_next_token st := \<lparr>le_keep_alive = Some a, le_released = False\<rparr>)"
  "gc_active_leases (snd (make_lease a b st)) = gc_active_leases st + 1"
  "gc_by_artifact (snd (make_lease a b st)) = gc_by_artifact st"
  "gc_by_key (snd (make_lease a b st)) = gc_by_key st"
  "gc_by_workload (snd (make_lease a b st)) = gc_by_workload st"
  by (simp_all add: make_lease_def Let_def)

lemma live_make_lease:
  "live_tokens (snd (make_lease a b st)) = insert (gc_next_token st) (live_tokens st)"
  "leases_on (snd (make_lease a b st)) c = (if c = a then insert (gc_next_token st) (leases_on st a) else leases_on st c)"
  by (auto simp: live_tokens_def leases_on_def make_lease_effect less_Suc_eq)

lemma unat_succ: "unat (x :: u64) + 1 < 2 ^ 64 \<Longrightarrow> unat (x + 1) = unat x + 1"
  by (simp add: unat_word_ariths(1))

lemma word_pos: "unat (x :: u64) = n \<Longrightarrow> 0 < n \<Longrightarrow> 0 < x"
  by (auto simp: word_gt_0)

lemma leases_ok_make_lease:
  assumes ok: "leases_ok st" and a: "a < gc_next st"
  shows "leases_ok (snd (make_lease a b st))"
proof -
  have new: "gc_next_token st \<notin> live_tokens st" "gc_next_token st \<notin> leases_on st c" for c
    by (auto simp: live_tokens_def leases_on_def)
  show ?thesis
    unfolding leases_ok_def make_lease_effect live_make_lease
  proof (intro conjI impI allI)
    fix t assume "t < gc_next_token st + 1"
    then show "\<exists>a' < gc_next st. le_keep_alive (((gc_tokens st)(gc_next_token st := \<lparr>le_keep_alive = Some a, le_released = False\<rparr>)) t) = Some a'"
      using ok a by (auto simp: leases_ok_def less_Suc_eq)
  next
    assume lt: "gc_next_token st + 1 < 2 ^ 64"
    then have "unat (gc_active_leases st) = card (live_tokens st)" using ok by (simp add: leases_ok_def)
    then show "unat (gc_active_leases st + 1) = card (insert (gc_next_token st) (live_tokens st))"
      using lt card_live_le(1) [of st] new by (simp add: unat_succ)
  next
    fix c assume lt: "gc_next_token st + 1 < 2 ^ 64" and "c < gc_next st"
    then have "unat (en_lease_count (gc_heap st c)) = card (leases_on st c)" using ok by (simp add: leases_ok_def)
    then show "unat (en_lease_count (((gc_heap st)(a := (gc_heap st a)\<lparr>en_lease_count := en_lease_count (gc_heap st a) + 1\<rparr>)) c))
        = card (if c = a then insert (gc_next_token st) (leases_on st a) else leases_on st c)"
      using lt card_live_le(2) [of st c] new by (auto simp: unat_succ)
  qed
qed

text \<open>Releasing the live token \<open>t\<close>, as one state change.\<close>

definition release_token :: "nat \<Rightarrow> 'x GraphCache \<Rightarrow> 'x GraphCache" where
  "release_token t st = release_fn (le_keep_alive (gc_tokens st t))
     (st\<lparr>gc_tokens := (gc_tokens st)(t := (gc_tokens st t)\<lparr>le_released := True\<rparr>)\<rparr>)"

lemma release_token_effect:
  "gc_next (release_token t st) = gc_next st" "gc_next_token (release_token t st) = gc_next_token st"
  "gc_tokens (release_token t st) = (gc_tokens st)(t := (gc_tokens st t)\<lparr>le_released := True\<rparr>)"
  "gc_by_artifact (release_token t st) = gc_by_artifact st" "gc_by_key (release_token t st) = gc_by_key st"
  "gc_by_workload (release_token t st) = gc_by_workload st"
  "gc_active_leases (release_token t st) = (if gc_active_leases st > 0 then gc_active_leases st - 1 else gc_active_leases st)"
  "gc_heap (release_token t st) = (case le_keep_alive (gc_tokens st t) of None \<Rightarrow> gc_heap st
     | Some a \<Rightarrow> if en_lease_count (gc_heap st a) > 0
         then (gc_heap st)(a := (gc_heap st a)\<lparr>en_lease_count := en_lease_count (gc_heap st a) - 1\<rparr>) else gc_heap st)"
  by (simp_all add: release_token_def release_fn_def Let_def upd_entry_def split: option.splits)

lemma live_release_token:
  "live_tokens (release_token t st) = live_tokens st - {t}"
  "leases_on (release_token t st) c = leases_on st c - {t}"
  by (auto simp: live_tokens_def leases_on_def release_token_effect)

lemma unat_pred: "0 < (x :: u64) \<Longrightarrow> unat (x - 1) = unat x - 1"
  by (metis unat_minus_one word_gt_0)

lemma leases_ok_release:
  assumes ok: "leases_ok st" and t: "t \<in> live_tokens st"
  shows "leases_ok (release_token t st)"
proof -
  obtain a where a: "le_keep_alive (gc_tokens st t) = Some a" "a < gc_next st"
    using ok t by (auto simp: leases_ok_def live_tokens_def)
  then have ta: "t \<in> leases_on st a" "c \<noteq> a \<Longrightarrow> t \<notin> leases_on st c" for c
    using t by (auto simp: leases_on_def)
  show ?thesis
    unfolding leases_ok_def live_release_token release_token_effect(1-7)
  proof (intro conjI impI allI)
    fix s assume "s < gc_next_token st"
    then show "\<exists>a' < gc_next st. le_keep_alive (((gc_tokens st)(t := (gc_tokens st t)\<lparr>le_released := True\<rparr>)) s) = Some a'"
      using ok by (auto simp: leases_ok_def)
  next
    assume "gc_next_token st < 2 ^ 64"
    then have "unat (gc_active_leases st) = card (live_tokens st)" using ok by (simp add: leases_ok_def)
    moreover have "0 < card (live_tokens st)" using t by (auto simp: card_gt_0_iff)
    moreover from calculation have "0 < gc_active_leases st" by (rule word_pos)
    ultimately show "unat (if gc_active_leases st > 0 then gc_active_leases st - 1 else gc_active_leases st)
        = card (live_tokens st - {t})"
      using t by (simp add: unat_pred)
  next
    fix c assume "gc_next_token st < 2 ^ 64" and c: "c < gc_next st"
    then have n: "unat (en_lease_count (gc_heap st c)) = card (leases_on st c)" using ok by (simp add: leases_ok_def)
    show "unat (en_lease_count (gc_heap (release_token t st) c)) = card (leases_on st c - {t})"
    proof (cases "c = a")
      case True
      have "0 < card (leases_on st a)" using ta by (auto simp: card_gt_0_iff)
      with n True have "0 < en_lease_count (gc_heap st a)" by (simp add: word_pos)
      then show ?thesis using n ta True by (simp add: release_token_effect a unat_pred)
    next
      case False
      then show ?thesis using n ta by (simp add: release_token_effect a)
    qed
  qed
qed

lemma leases_ok_insert:
  assumes ok: "leases_ok st" and "en_lease_count e = 0"
  shows "leases_ok (snd (insert_entry e st))"
proof -
  have tok: "live_tokens (snd (insert_entry e st)) = live_tokens st"
    "leases_on (snd (insert_entry e st)) a = leases_on st a" for a
    by (simp_all add: insert_entry_def live_tokens_def leases_on_def)
  have "leases_on st (gc_next st) = {}"
    using ok by (force simp: leases_ok_def leases_on_def live_tokens_def)
  then show ?thesis
    using assms unfolding leases_ok_def tok by (auto simp: insert_entry_def less_Suc_eq)
qed

lemma push_index_Some:
  "push_index k a m k' = Some as \<Longrightarrow> b \<in> set as \<Longrightarrow> k' = k \<and> b = a \<or> (\<exists>as'. m k' = Some as' \<and> b \<in> set as')"
  by (auto simp: push_index_def split: if_splits option.splits)

lemma push_index_mono: "m k' = Some as \<Longrightarrow> b \<in> set as \<Longrightarrow> \<exists>as'. push_index k a m k' = Some as' \<and> b \<in> set as'"
  by (auto simp: push_index_def)

lemma push_index_new: "\<exists>as. push_index k a m k = Some as \<and> a \<in> set as"
  by (simp add: push_index_def)

lemma update_in_set: "x \<in> set (AList.update k v xs) \<Longrightarrow> x = (k, v) \<or> x \<in> set xs"
  by (induction xs) (auto split: if_splits)

lemma indexes_ok_insert:
  assumes ok: "indexes_ok st"
  shows "indexes_ok (snd (insert_entry e st))"
proof -
  let ?st = "snd (insert_entry e st)" and ?n = "gc_next st"
  have eff: "gc_heap ?st = (gc_heap st)(?n := e)" "gc_next ?st = Suc ?n"
    "gc_by_artifact ?st = AList.update (en_artifact e) ?n (gc_by_artifact st)"
    "gc_by_key ?st = push_index (key_hex (en_key e)) ?n (gc_by_key st)"
    "gc_by_workload ?st = push_index (workload_key (en_workload e)) ?n (gc_by_workload st)"
    by (simp_all add: insert_entry_def)
  show ?thesis
    unfolding indexes_ok_def eff
  proof (intro conjI allI impI ballI)
    show "distinct (map fst (AList.update (en_artifact e) ?n (gc_by_artifact st)))"
      using ok by (simp add: indexes_ok_def distinct_update)
  next
    fix x assume "x \<in> set (AList.update (en_artifact e) ?n (gc_by_artifact st))"
    then have "x = (en_artifact e, ?n) \<or> x \<in> set (gc_by_artifact st)" by (rule update_in_set)
    then show "case x of (i, a) \<Rightarrow> a < Suc ?n \<and> en_artifact (((gc_heap st)(?n := e)) a) = i"
      using ok by (fastforce simp: indexes_ok_def)
  next
    fix k as a assume "push_index (workload_key (en_workload e)) ?n (gc_by_workload st) k = Some as" "a \<in> set as"
    from push_index_Some [OF this] show "a < Suc ?n" "workload_key (en_workload (((gc_heap st)(?n := e)) a)) = k"
      using ok by (fastforce simp: indexes_ok_def)+
  next
    fix k as a assume "push_index (key_hex (en_key e)) ?n (gc_by_key st) k = Some as" "a \<in> set as"
    from push_index_Some [OF this] show "a < Suc ?n" "key_hex (en_key (((gc_heap st)(?n := e)) a)) = k"
      using ok by (fastforce simp: indexes_ok_def)+
  next
    fix a assume a: "a < Suc ?n"
    show "\<exists>as. push_index (workload_key (en_workload e)) ?n (gc_by_workload st)
        (workload_key (en_workload (((gc_heap st)(?n := e)) a))) = Some as \<and> a \<in> set as"
    proof (cases "a = ?n")
      case True
      then show ?thesis by (simp add: push_index_new)
    next
      case False
      with a have "a < gc_next st" by simp
      with ok obtain as where "gc_by_workload st (workload_key (en_workload (gc_heap st a))) = Some as" "a \<in> set as"
        unfolding indexes_ok_def by blast
      with False show ?thesis by (simp add: push_index_mono)
    qed
  qed
qed

lemma engine_step_inv: "engine_step env st st' \<Longrightarrow> cache_inv st \<Longrightarrow> cache_inv st'"
proof (induction rule: engine_step.induct)
  case (observe st st')
  then show ?case by (rule cache_inv_same_core)
next
  case (touch a st f)
  then show ?case unfolding cache_inv_def
    by (auto simp: counters_onlyD Let_def entries_ok_def intro!: indexes_ok_upd entries_ok_upd leases_ok_upd)
next
  case (materialize a st h)
  then show ?case unfolding cache_inv_def
    by (auto simp: Let_def entries_ok_def intro!: indexes_ok_upd entries_ok_upd leases_ok_upd)
next
  case (lease a st b)
  then show ?case unfolding cache_inv_def
    by (auto simp: leases_ok_make_lease indexes_ok_def entries_ok_def make_lease_effect Let_def split: prod.splits)
next
  case (release t st)
  then have "leases_ok (release_token t st)" by (simp add: cache_inv_def leases_ok_release live_tokens_def)
  with release show ?case unfolding cache_inv_def release_token_def [symmetric]
    by (auto simp: indexes_ok_def entries_ok_def release_token_effect Let_def split: prod.splits option.splits)
next
  case (insert e st)
  then have "entries_ok (snd (insert_entry e st))"
    by (auto simp: cache_inv_def fresh_entry_def entries_ok_def insert_entry_def less_Suc_eq Let_def)
  with insert show ?case by (simp add: cache_inv_def indexes_ok_insert leases_ok_insert fresh_entry_def)
next
  case (revoke a st)
  then show ?case unfolding cache_inv_def
    by (auto simp: Let_def entries_ok_def intro!: indexes_ok_upd entries_ok_upd leases_ok_upd)
qed

section \<open>Operations are sequences of steps\<close>

named_theorems engine_intros

lemma steps_observe: "engine_steps env s st \<Longrightarrow> same_core st st' \<Longrightarrow> engine_steps env s st'"
  by (blast intro: engine_steps.step engine_step.observe)

lemma steps_touch_metric [engine_intros]: "engine_steps env s st \<Longrightarrow> engine_steps env s (touch_metric f st)"
  by (erule steps_observe) (simp add: same_core_def)

lemma steps_bump [engine_intros]:
  "engine_steps env s st \<Longrightarrow> engine_steps env s (bump_scope_raw w d n f st)"
  "engine_steps env s st \<Longrightarrow> engine_steps env s (bump_scopes facts f st)"
  "engine_steps env s st \<Longrightarrow> engine_steps env s (entry_scopes e f st)"
  by (erule steps_observe, simp add: same_core_def)+

lemma steps_record_event [engine_intros]: "engine_steps env s st \<Longrightarrow> engine_steps env s (record_event env' t m d st)"
  by (erule steps_observe) (simp add: same_core_def)

lemma steps_now [engine_intros]:
  "engine_steps env s st \<Longrightarrow> engine_steps env s (snd (now_us env' st))"
  "engine_steps env s st \<Longrightarrow> engine_steps env s (snd (now_ms env' st))"
  by (erule steps_observe, simp add: same_core_def)+

lemma steps_finish [engine_intros]:
  "engine_steps env s st \<Longrightarrow> engine_steps env s (finish_hit env' res req start st)"
  "engine_steps env s st \<Longrightarrow> engine_steps env s (snd (finish_miss env' res start st))"
  by (erule steps_observe, simp add: same_core_def)+

lemma steps_persist_entry [engine_intros]: "engine_steps env s st \<Longrightarrow> engine_steps env s (snd (persist_entry env' a st))"
  by (erule steps_observe) (simp add: same_core_def)

lemma steps_record_update [engine_intros]:
  "engine_steps env s st \<Longrightarrow> engine_steps env s (st\<lparr>gc_capture_counter := c\<rparr>)"
  "engine_steps env s st \<Longrightarrow> engine_steps env s (st\<lparr>gc_graph_gen := c\<rparr>)"
  "engine_steps env s st \<Longrightarrow> engine_steps env s (st\<lparr>gc_cache_gen := c\<rparr>)"
  "engine_steps env s st \<Longrightarrow> engine_steps env s (st\<lparr>gc_active_captures := c\<rparr>)"
  "engine_steps env s st \<Longrightarrow> engine_steps env s (st\<lparr>gc_active_replays := c\<rparr>)"
  "engine_steps env s st \<Longrightarrow> engine_steps env s (st\<lparr>gc_invalidated_keys := ks\<rparr>)"
  "engine_steps env s st \<Longrightarrow> engine_steps env s (st\<lparr>gc_key_gen := kg, gc_invalidated_keys := ks\<rparr>)"
  "engine_steps env s st \<Longrightarrow> engine_steps env s (st\<lparr>gc_key_gen := kg\<rparr>)"
  "engine_steps env s st \<Longrightarrow> engine_steps env s (st\<lparr>gc_store := fs\<rparr>)"
  by (erule steps_observe, simp add: same_core_def)+

lemma steps_touch [engine_intros]:
  "engine_steps env s st \<Longrightarrow> a < gc_next st \<Longrightarrow> counters_only f \<Longrightarrow> engine_steps env s (upd_entry a f st)"
  by (blast intro: engine_steps.step engine_step.touch)

lemma counters_only_simps [engine_intros]:
  "counters_only (\<lambda>e. e\<lparr>en_last_access_ms := ms, en_reuse_count := en_reuse_count e + 1\<rparr>)"
  "counters_only (\<lambda>e. e\<lparr>en_reuse_count := en_reuse_count e + 1\<rparr>)"
  "counters_only (\<lambda>e. e\<lparr>en_active_replays := en_active_replays e + 1\<rparr>)"
  "counters_only (\<lambda>e. e\<lparr>en_active_replays := en_active_replays e - 1\<rparr>)"
  "counters_only (\<lambda>e. e\<lparr>en_pin_count := en_pin_count e + 1\<rparr>)"
  "counters_only (\<lambda>e. e\<lparr>en_pin_count := en_pin_count e - 1\<rparr>)"
  "counters_only (\<lambda>e. e\<lparr>en_persisted := True\<rparr>)"
  by (simp_all add: counters_only_def zero_counters_def)

lemma steps_lease [engine_intros]:
  "engine_steps env s st \<Longrightarrow> a < gc_next st \<Longrightarrow> \<not> en_invalidated (gc_heap st a)
    \<Longrightarrow> engine_steps env s (snd (make_lease a b st))"
  by (blast intro: engine_steps.step engine_step.lease)

lemma steps_insert [engine_intros]:
  "engine_steps env s st \<Longrightarrow> fresh_entry e \<Longrightarrow> engine_steps env s (snd (insert_entry e st))"
  by (blast intro: engine_steps.step engine_step.insert)

lemma steps_revoke [engine_intros]:
  "engine_steps env s st \<Longrightarrow> a < gc_next st
    \<Longrightarrow> engine_steps env s (upd_entry a (\<lambda>e. e\<lparr>en_invalidated := True, en_lifecycle := LC_Invalidated\<rparr>) st)"
  by (blast intro: engine_steps.step engine_step.revoke)

lemma engine_steps_inv: "engine_steps env st st' \<Longrightarrow> cache_inv st \<Longrightarrow> cache_inv st'"
  by (induction rule: engine_steps.induct) (simp_all add: engine_step_inv)

end
