(* ===== verification/GC_CacheOps.thy ===== *)
theory GC_CacheOps
  imports GC_CacheInv
begin

text \<open>
  Every operation of the engine is a sequence of the primitive steps of \<open>GC_CacheInv\<close>, over any
  backend that keeps the \<open>graph_backend\<close> contract.
\<close>

section \<open>The candidate scan\<close>

text \<open>What the scan asks of an entry before it can be served.\<close>

definition selectable :: "'x GraphCache \<Rightarrow> CompatibilityFacts \<Rightarrow> GraphCompatibilityPolicy \<Rightarrow> nat \<Rightarrow> bool" where
  "selectable st facts policy a \<longleftrightarrow> (let e = gc_heap st a in
     \<not> en_invalidated e \<and> gc_key_gen st (key_hex (en_key e)) = Some (en_generation e)
     \<and> lifecycle_is_replay_eligible (en_lifecycle e) \<and> is_dependency_fresh e facts
     \<and> compatible (decide_compatibility facts (en_facts e) policy))"

definition exact :: "'x GraphCache \<Rightarrow> CompatibilityFacts \<Rightarrow> GraphCompatibilityPolicy \<Rightarrow> nat \<Rightarrow> bool" where
  "exact st facts policy a \<longleftrightarrow> selectable st facts policy a
     \<and> d_klass (decide_compatibility facts (en_facts (gc_heap st a)) policy) = CC_ExactCompatible"

abbreviation scan_all :: "'x GraphCache \<Rightarrow> CompatibilityFacts \<Rightarrow> GraphCompatibilityPolicy \<Rightarrow> nat list \<Rightarrow> scan" where
  "scan_all st facts policy as \<equiv> foldl (scan_step st facts policy) scan_start as"

lemma scan_step_chosen:
  "sn_chosen (scan_step st facts policy acc a) =
     (if selectable st facts policy a \<and> (sn_chosen acc = None \<or> exact st facts policy a) then Some a else sn_chosen acc)"
  "sn_best (scan_step st facts policy acc a) =
     (if selectable st facts policy a \<and> (sn_chosen acc = None \<or> exact st facts policy a)
      then decide_compatibility facts (en_facts (gc_heap st a)) policy else sn_best acc)"
  by (auto simp: scan_step_def selectable_def exact_def Let_def)

lemma scan_chosen:
  assumes "sn_chosen (scan_all st facts policy as) = Some a"
  shows "a \<in> set as" "selectable st facts policy a"
    "sn_best (scan_all st facts policy as) = decide_compatibility facts (en_facts (gc_heap st a)) policy"
  using assms by (induction as rule: rev_induct) (auto simp: scan_start_def scan_step_chosen split: if_splits)

lemma scan_none_iff:
  "sn_chosen (scan_all st facts policy as) = None \<longleftrightarrow> (\<forall>a \<in> set as. \<not> selectable st facts policy a)"
  by (induction as rule: rev_induct) (auto simp: scan_start_def scan_step_chosen)

lemma scan_exact_preferred:
  assumes "b \<in> set as" "exact st facts policy b" "sn_chosen (scan_all st facts policy as) = Some a"
  shows "exact st facts policy a"
  using assms
proof (induction as rule: rev_induct)
  case (snoc c as)
  then show ?case
    by (cases "sn_chosen (scan_all st facts policy as)")
       (auto simp: scan_step_chosen exact_def scan_none_iff split: if_splits)
qed simp

lemma scan_last_exact:
  "exact st facts policy a \<Longrightarrow> sn_chosen (scan_all st facts policy (as @ [a])) = Some a"
  by (simp add: scan_step_chosen exact_def)

section \<open>Operations as steps\<close>

lemma insert_entry_frame [simp]:
  "fst (insert_entry e st) = gc_next st" "gc_next (snd (insert_entry e st)) = Suc (gc_next st)"
  "gc_store (snd (insert_entry e st)) = gc_store st" "gc_key_gen (snd (insert_entry e st)) = gc_key_gen st"
  by (simp_all add: insert_entry_def)

lemma inv_by_artifact: "cache_inv st \<Longrightarrow> (i, a) \<in> set (gc_by_artifact st) \<Longrightarrow> a < gc_next st \<and> en_artifact (gc_heap st a) = i"
  by (fastforce simp: cache_inv_def indexes_ok_def)

lemma inv_residency: "cache_inv st \<Longrightarrow> a < gc_next st \<Longrightarrow> en_residency (gc_heap st a) \<noteq> RT_BackendResident"
  by (simp add: cache_inv_def entries_ok_def Let_def)

text \<open>A backend that keeps its contract, and a hash map that enumerates its elements in some order.\<close>

locale cache_engine = graph_backend "env_backend env" for env :: "'x cache_env" +
  assumes map_ord: "mset (env_map_ord env m) = mset m"

context cache_engine
begin

lemma steps_materialize [engine_intros]:
  assumes "engine_steps env s st" and "a < gc_next st"
  shows "engine_steps env s (snd (materialize_exec env a st))"
proof -
  have "engine_steps env s (upd_entry a (\<lambda>e. e\<lparr>en_exec := h, en_residency := RT_HostResident\<rparr>) (st\<lparr>gc_capture_counter := c\<rparr>))"
    if "h \<noteq> None" for h c
    using that assms
    by (intro engine_steps.step [OF _ engine_step.materialize] engine_intros) simp_all
  then show ?thesis
    using assms by (auto simp: materialize_exec_def Let_def split: sum.splits
        intro!: steps_touch_metric steps_record_update dest: capture_handle)
qed

lemma materialize_frame [simp]:
  "gc_next (snd (materialize_exec env a st)) = gc_next st"
  "gc_key_gen (snd (materialize_exec env a st)) = gc_key_gen st"
  "gc_by_workload (snd (materialize_exec env a st)) = gc_by_workload st"
  "gc_next_token (snd (materialize_exec env a st)) = gc_next_token st"
  by (simp_all add: materialize_exec_def Let_def split: sum.splits)

lemma steps_search:
  assumes "cache_inv s" and s: "engine_steps env s st"
  shows "engine_steps env s (snd (search_candidates env facts policy st))"
proof (cases "gc_by_workload st (workload_key (f_workload facts))")
  case None
  then show ?thesis using s by (simp add: search_candidates_def)
next
  case (Some as)
  note bucket = this
  show ?thesis
  proof (cases "sn_chosen (scan_all st facts policy as)")
    case None
    then show ?thesis using s bucket by (simp add: search_candidates_def Let_def)
  next
    case (Some a)
    then have a: "a < gc_next st"
      using scan_chosen(1) [OF Some] bucket engine_steps_inv [OF s] assms(1) by (auto simp: cache_inv_def indexes_ok_def)
    show ?thesis
      using s a Some bucket
      by (auto simp: search_candidates_def Let_def case_prod_unfold split: sum.splits intro!: engine_intros)
  qed
qed

lemma steps_insert_capture:
  assumes "engine_steps env s st" and "fresh_entry e"
  shows "engine_steps env s (snd (capture_insert env e st))"
  using assms by (auto simp: capture_insert_def Let_def case_prod_unfold intro!: engine_intros)

lemma steps_publish:
  assumes "engine_steps env s st" and "fresh_entry e"
  shows "engine_steps env s (snd (capture_publish env e gen st))"
  using assms steps_insert_capture by (simp add: capture_publish_def split: sum.splits)

lemma steps_capture_begin:
  assumes "engine_steps env s st"
  shows "engine_steps env s (snd (capture_begin env req attempt st))"
  using assms by (auto simp: capture_begin_def Let_def case_prod_unfold split: sum.splits intro!: engine_intros)

lemma capture_begin_fresh:
  "fst (capture_begin env req attempt st) = Inr (e, gen) \<Longrightarrow> fresh_entry e"
  by (auto simp: capture_begin_def Let_def case_prod_unfold fresh_entry_def dest!: capture_handle split: sum.splits)

lemma steps_capture:
  assumes "engine_steps env s st"
  shows "engine_steps env s (snd (capture_graph env req attempt st))"
proof (cases "capture_begin env req attempt st")
  case (Pair r st')
  moreover have "engine_steps env s st'" using steps_capture_begin [OF assms, of req attempt] Pair by simp
  moreover have "fresh_entry e" if "r = Inr (e, g)" for e g
    using capture_begin_fresh [of req attempt st e g] Pair that by simp
  ultimately show ?thesis by (auto simp: capture_graph_def intro: steps_publish split: sum.splits)
qed

lemma steps_single_flight:
  assumes "engine_steps env s st"
  shows "engine_steps env s (snd (run_single_flight env req attempt st))"
  using assms by (auto simp: run_single_flight_def Let_def case_prod_unfold intro!: engine_intros steps_capture)

lemma steps_lookup:
  assumes "cache_inv s" and "engine_steps env s st"
  shows "engine_steps env s (snd (lookup env req st))"
  using assms
  by (auto simp: lookup_def Let_def case_prod_unfold split: sum.splits
      intro!: engine_intros steps_search steps_single_flight)

lemma steps_release:
  assumes "engine_steps env s st" and "\<And>t. gl_token lease = Some t \<Longrightarrow> t < gc_next_token st"
  shows "engine_steps env s (snd (lease_release lease st))"
  using assms by (auto simp: lease_release_def Let_def split: option.splits intro: engine_steps.step engine_step.release)

lemma steps_replay:
  assumes "cache_inv st" and s: "engine_steps env s st" and r: "replay env req (st, mem) = Some (r, st', mem')"
    and t: "\<And>l t. rr_lease req = Some l \<Longrightarrow> gl_token l = Some t \<Longrightarrow> t < gc_next_token st"
  shows "engine_steps env s st'"
proof -
  have "a < gc_next st" if "rr_lease req = Some l" "gl_token l = Some t" "le_keep_alive (gc_tokens st t) = Some a" for l t a
    using assms(1) t [OF that(1,2)] that(3) by (auto simp: cache_inv_def leases_ok_def)
  then show ?thesis
    using s r
    by (auto simp: replay_def Let_def case_prod_unfold split: option.splits if_splits sum.splits prod.splits
        intro!: engine_intros)
qed

lemma steps_pin:
  assumes inv: "cache_inv st" and s: "engine_steps env s st"
  shows "engine_steps env s (snd (pin i st))" "engine_steps env s (snd (unpin i st))"
    "engine_steps env s (snd (evict env i st))" "engine_steps env s (snd (unload env i st))"
proof -
  have a: "a < gc_next st" "en_residency (gc_heap st a) \<noteq> RT_BackendResident" if "map_of (gc_by_artifact st) i = Some a" for a
    using inv_by_artifact [OF inv map_of_SomeD [OF that]] inv_residency [OF inv] by auto
  show "engine_steps env s (snd (pin i st))" "engine_steps env s (snd (unpin i st))"
    using a(1) s by (auto simp: pin_def unpin_def split: option.splits intro!: engine_intros)
  show "engine_steps env s (snd (evict env i st))" "engine_steps env s (snd (unload env i st))"
    using a(2) s by (auto simp: evict_def unload_def Let_def split: option.splits intro!: engine_intros)
qed

lemma steps_invalidate_one:
  assumes inv: "cache_inv s" and s: "engine_steps env s st" and a: "a < gc_next st"
  shows "engine_steps env s (snd (invalidate_one env strong (res, st) a))"
proof -
  have "en_residency (gc_heap st a) \<noteq> RT_BackendResident"
    by (rule inv_residency [OF engine_steps_inv [OF s inv] a])
  then show ?thesis using s a by (auto simp: invalidate_one_def Let_def intro!: engine_intros)
qed

lemma invalidate_one_next: "gc_next (snd (invalidate_one env strong (res, st) a)) = gc_next st"
  by (simp add: invalidate_one_def unload_entry_def Let_def case_prod_unfold)

lemma invalidation_targets_bound:
  assumes "cache_inv st" and "a \<in> set (invalidation_targets env req (st\<lparr>gc_cache_gen := c\<rparr>))"
  shows "a < gc_next st"
  using assms(2) inv_by_artifact [OF assms(1)] mset_eq_setD [OF map_ord [of "gc_by_artifact st"]]
  by (auto simp: invalidation_targets_def split: if_splits option.splits dest!: map_of_SomeD [OF sym])

lemma steps_invalidate:
  assumes "cache_inv s" and "engine_steps env s st"
  shows "engine_steps env s (snd (invalidate env req st))"
proof -
  have fold: "engine_steps env s (snd (foldl (invalidate_one env strong) (res, st') as))"
    if "engine_steps env s st'" "\<forall>a \<in> set as. a < gc_next st'" for strong res st' as
    using that
  proof (induction as arbitrary: res st')
    case (Cons a as)
    obtain res1 st1 where p: "invalidate_one env strong (res, st') a = (res1, st1)" by fastforce
    then have "engine_steps env s st1" using steps_invalidate_one [OF assms(1), of st' a strong res] Cons.prems by simp
    moreover have "gc_next st1 = gc_next st'" using p invalidate_one_next [of strong res st' a] by simp
    ultimately show ?case using p Cons by simp
  qed simp
  have tg: "\<forall>a \<in> set (invalidation_targets env req (st\<lparr>gc_cache_gen := c\<rparr>)). a < gc_next st" for c
    by (rule ballI) (rule invalidation_targets_bound [OF engine_steps_inv [OF assms(2,1)]])
  show ?thesis
    using assms tg by (auto simp: invalidate_def Let_def case_prod_unfold intro!: engine_intros fold)
qed

end

section \<open>The engine over the CPU backend\<close>

lemma cache_new_inv: "cache_new cfg b fs = Some st \<Longrightarrow> cache_inv st"
  by (auto simp: cache_new_def cache_inv_def indexes_ok_def entries_ok_def leases_ok_def live_tokens_def split: option.splits)

text \<open>A machine whose clocks tick once per reading, whose maps enumerate backwards and whose file operations succeed.\<close>

definition example_env :: "CpuGraph cache_env" where
  "example_env = \<lparr>env_backend = cpu_backend \<lparr>fl_mul = (\<lambda>x y. x * y), fl_add = (\<lambda>x y. x + y), fl_of_f64 = (\<lambda>_. 0),
       fl_of_i64 = (\<lambda>_. 0)\<rparr> rev,
     env_us = word_of_nat, env_ms = word_of_nat, env_map_ord = rev, env_node_ord = rev,
     env_put = (\<lambda>_. PutOk), env_open = (\<lambda>_. True), env_dir = (\<lambda>_. [])\<rparr>"

interpretation cpu_engine: cache_engine "example_env\<lparr>env_dir := dir\<rparr>" for dir
  by unfold_locales (simp_all add: example_env_def cpu.capture_handle cpu.capture_validates)

lemma cpu_engine_example: "cache_engine example_env" "cache_engine (example_env\<lparr>env_dir := dir\<rparr>)"
  using cpu_engine.cache_engine_axioms [of "env_dir example_env"] cpu_engine.cache_engine_axioms [of dir] by simp_all

end
