(* ===== verification/GC_Recovery.thy ===== *)
theory GC_Recovery
  imports GC_CacheOps "HOL-Library.List_Lexorder" "HOL-Library.Char_ord"
begin

text \<open>
  Persistence and recovery of the engine (\<open>src/cache.cpp\<close>): the payload of an entry, \<open>load_entry\<close>,
  \<open>persist_all\<close> and \<open>recover\<close>. A result \<open>None\<close> is the undefined behaviour of reading an envelope
  (see \<open>GC_Persistence\<close>); it does not occur for the format version the engine uses.

  Removing an orphaned temporary file is taken to succeed: the code ignores the error, and the
  listing that follows skips temporary files in any case.
\<close>

section \<open>The payload of an entry\<close>

definition payload_body :: "u16 \<Rightarrow> bytes \<Rightarrow> GraphDescriptor option \<times> PersistedMetadata option
    \<Rightarrow> (GraphDescriptor option \<times> PersistedMetadata option) option" where
  "payload_body tag p s = (case s of (desc, md) \<Rightarrow>
     if tag = 1 then (case deserialize_descriptor p of Inl _ \<Rightarrow> None | Inr d \<Rightarrow> Some (Some d, md))
     else if tag = 2 then (case deserialize_metadata p of Inl _ \<Rightarrow> None | Inr m \<Rightarrow> Some (desc, Some m))
     else None)"

text \<open>The entry the code fills in from the two blocks.\<close>

definition restored_entry :: "GraphDescriptor \<Rightarrow> PersistedMetadata \<Rightarrow> 'x CacheEntry" where
  "restored_entry desc md =
     (let facts = facts_from_descriptor_and_workload desc (md_workload md);
          key = (case key_build facts of Inl _ \<Rightarrow> key_default | Inr k \<Rightarrow> k)
      in CacheEntry_default\<lparr>en_artifact := md_artifact md, en_generation := md_generation md,
           en_cache_generation := md_cache_generation md, en_workload := md_workload md,
           en_descriptor := desc, en_desc_view := desc, en_facts := facts, en_key := key,
           en_graph_id := derive_graph_id desc (md_workload md) key,
           en_artifact_size := md_artifact_size md, en_capture_cost_us := md_capture_cost_us md,
           en_instantiate_cost_us := md_instantiate_cost_us md,
           en_dependency_generation := md_dependency_generation md, en_invalidated := md_invalidated md,
           en_lifecycle := (if md_invalidated md then LC_Invalidated else LC_Valid),
           en_residency := RT_MetadataOnly, en_exec := None, en_persisted := True\<rparr>)"

definition decode_entry_payload :: "bytes \<Rightarrow> 'x CacheEntry option" where
  "decode_entry_payload payload = (case loop_decode payload_body payload (None, None) of
       Some (Some desc, Some md) \<Rightarrow> Some (restored_entry desc md)
     | _ \<Rightarrow> None)"

section \<open>Loading, persisting, recovering\<close>

definition load_entry :: "'x cache_env \<Rightarrow> GraphArtifactId \<Rightarrow> 'x GraphCache
    \<Rightarrow> ('x CacheEntry Result \<times> 'x GraphCache) option" where
  "load_entry env i st = (case gc_store st of
       None \<Rightarrow> Some (failure EC_OperationNotSupported ''persistence disabled'', st)
     | Some (s, fs) \<Rightarrow> (case store_get s fs i (env_open env (gc_ios st)) of
           None \<Rightarrow> None
         | Some data \<Rightarrow>
             let st = st\<lparr>gc_ios := gc_ios st + 1\<rparr> in
             case data of
               Inl e \<Rightarrow> Some (Inl e, st)
             | Inr payload \<Rightarrow> (case decode_entry_payload payload of
                   None \<Rightarrow> Some (failure EC_PersistenceCorrupt ''decoded entry rejected'',
                              touch_metric (\<lambda>m. m\<lparr>m_corruption_count := m_corruption_count m + 1\<rparr>) st)
                 | Some e \<Rightarrow> Some (success e, st))))"

fun persist_loop :: "'x cache_env \<Rightarrow> nat list \<Rightarrow> 'x GraphCache \<Rightarrow> unit Result \<times> 'x GraphCache" where
  "persist_loop env [] st = (success (), st)"
| "persist_loop env (a # as) st =
     (let (r, st) = persist_entry env a st in
      case r of
        Inl e \<Rightarrow> (Inl e, st)
      | Inr _ \<Rightarrow> persist_loop env as (upd_entry a (\<lambda>e. e\<lparr>en_persisted := True\<rparr>) st))"

definition persist_all :: "'x cache_env \<Rightarrow> 'x GraphCache \<Rightarrow> unit Result \<times> 'x GraphCache" where
  "persist_all env st = (case gc_store st of
       None \<Rightarrow> (failure EC_OperationNotSupported ''persistence disabled'', st)
     | Some _ \<Rightarrow>
         let snap = map snd (env_map_ord env (gc_by_artifact st));
             (r, st) = persist_loop env snap st
         in case r of
              Inl e \<Rightarrow> (Inl e, st)
            | Inr _ \<Rightarrow> (success (), record_event env ''persist_all''
                         (dec_string (length snap) @ '' entries persisted'') [] st))"

definition contains_tmp :: "string \<Rightarrow> bool" where
  "contains_tmp name = list_ex (\<lambda>k. take 4 (drop k name) = ''.tmp'') [0..<length name]"

definition remove_orphans :: "string list \<Rightarrow> files \<Rightarrow> files" where
  "remove_orphans names fs = foldl (\<lambda>fs name. if contains_tmp name then fs(name := None) else fs) fs names"

definition recover_entry :: "'x CacheEntry \<Rightarrow> 'x GraphCache \<Rightarrow> 'x GraphCache" where
  "recover_entry e st =
     (let (a, st) = insert_entry (e\<lparr>en_residency := RT_MetadataOnly, en_exec := None\<rparr>) st;
          keyhex = key_hex (en_key e)
      in if en_invalidated e then st\<lparr>gc_invalidated_keys := insert keyhex (gc_invalidated_keys st)\<rparr>
         else st\<lparr>gc_key_gen := (gc_key_gen st)(keyhex \<mapsto> en_generation e)\<rparr>)"

fun recover_loop :: "'x cache_env \<Rightarrow> GraphArtifactId list \<Rightarrow> nat \<times> nat \<times> 'x GraphCache
    \<Rightarrow> (nat \<times> nat \<times> 'x GraphCache) option" where
  "recover_loop env [] acc = Some acc"
| "recover_loop env (i # is) (recovered, corrupt, st) = (case load_entry env i st of
       None \<Rightarrow> None
     | Some (Inl err, st) \<Rightarrow> recover_loop env is (recovered, corrupt + 1,
           record_event env ''recover.corrupt'' (''rejected corrupt entry '' @ GraphArtifactId_to_string i)
             (''\"error\":\"'' @ err_message err @ ''\"'')
             (touch_metric (\<lambda>m. m\<lparr>m_corruption_count := m_corruption_count m + 1\<rparr>) st))
     | Some (Inr e, st) \<Rightarrow> recover_loop env is (recovered + 1, corrupt, recover_entry e st))"

definition max_generation :: "('x CacheEntry \<Rightarrow> u64) \<Rightarrow> 'x GraphCache \<Rightarrow> nat list \<Rightarrow> u64" where
  "max_generation g st as = foldl (\<lambda>m a. if g (gc_heap st a) > m then g (gc_heap st a) else m) 0 as"

definition bump_generations :: "'x cache_env \<Rightarrow> 'x GraphCache \<Rightarrow> 'x GraphCache" where
  "bump_generations env st =
     (let as = map snd (env_map_ord env (gc_by_artifact st));
          max_graph = max_generation (\<lambda>e. gg_value (en_generation e)) st as;
          max_cache = max_generation (\<lambda>e. cg_value (en_cache_generation e)) st as;
          st = (if max_graph + 1 > gc_graph_gen st then st\<lparr>gc_graph_gen := max_graph + 1\<rparr> else st)
      in if max_cache + 1 > gc_cache_gen st then st\<lparr>gc_cache_gen := max_cache + 1\<rparr> else st)"

definition recover :: "'x cache_env \<Rightarrow> 'x GraphCache \<Rightarrow> (unit Result \<times> 'x GraphCache) option" where
  "recover env st = (case gc_store st of
       None \<Rightarrow> Some (failure EC_OperationNotSupported ''persistence disabled'', st)
     | Some (s, fs) \<Rightarrow>
         let (start, st) = now_us env st;
             fs = remove_orphans (env_dir env fs) fs;
             st = st\<lparr>gc_store := Some (s, fs)\<rparr>
         in case recover_loop env (store_list (env_dir env fs)) (0, 0, st) of
              None \<Rightarrow> None
            | Some (recovered, corrupt, st) \<Rightarrow>
                let st = bump_generations env st;
                    (finish, st) = now_us env st;
                    st = touch_metric (\<lambda>m. m\<lparr>m_recovery_latency_us := finish - start\<rparr>) st
                in Some (success (), record_event env ''recover.complete''
                     (dec_string recovered @ '' recovered, '' @ dec_string corrupt @ '' rejected'') [] st))"

section \<open>Steps\<close>

lemma restored_fresh: "fresh_entry (restored_entry d m)"
  by (simp add: fresh_entry_def restored_entry_def CacheEntry_default_def Let_def)

lemma restored_simps [simp]:
  "en_exec (restored_entry d m) = None" "en_residency (restored_entry d m) = RT_MetadataOnly"
  "en_artifact (restored_entry d m) = md_artifact m" "en_invalidated (restored_entry d m) = md_invalidated m"
  "en_generation (restored_entry d m) = md_generation m" "en_workload (restored_entry d m) = md_workload m"
  "en_descriptor (restored_entry d m) = d"
  by (simp_all add: restored_entry_def Let_def)

lemma decode_fresh: "decode_entry_payload p = Some e \<Longrightarrow> fresh_entry e \<and> en_exec e = None \<and> en_residency e = RT_MetadataOnly"
  by (auto simp: decode_entry_payload_def restored_fresh split: option.splits)

lemma load_entry_core:
  assumes "load_entry env i st = Some (r, st')"
  shows "same_core st st'"
  using assms by (auto simp: load_entry_def same_core_def Let_def split: option.splits sum.splits)

lemma load_entry_restored:
  "load_entry env i st = Some (Inr e, st') \<Longrightarrow> fresh_entry e \<and> en_exec e = None \<and> en_residency e = RT_MetadataOnly"
  by (auto simp: load_entry_def Let_def split: option.splits sum.splits dest: decode_fresh)

lemma steps_recover_entry [engine_intros]:
  assumes "engine_steps env s st" and "fresh_entry e"
  shows "engine_steps env s (recover_entry e st)"
proof -
  have "fresh_entry (e\<lparr>en_residency := RT_MetadataOnly, en_exec := None\<rparr>)" using assms(2) by (simp add: fresh_entry_def)
  with assms(1) show ?thesis by (auto simp: recover_entry_def Let_def case_prod_unfold intro!: engine_intros)
qed

lemma steps_recover_loop:
  "recover_loop env is (r, c, st) = Some (r', c', st') \<Longrightarrow> engine_steps env s st \<Longrightarrow> engine_steps env s st'"
proof (induction "is" arbitrary: r c st)
  case (Cons i "is")
  from Cons.prems(1) obtain x st1 where l: "load_entry env i st = Some (x, st1)" by (auto split: option.splits)
  have s1: "engine_steps env s st1" using Cons.prems(2) load_entry_core [OF l] by (rule steps_observe)
  show ?case
  proof (cases x)
    case (Inl err)
    with l Cons.prems(1) s1 show ?thesis by (auto intro!: Cons.IH engine_intros)
  next
    case (Inr e)
    then have "fresh_entry e" using l load_entry_restored by blast
    with l Inr Cons.prems(1) s1 show ?thesis by (auto intro!: Cons.IH engine_intros)
  qed
qed simp

lemma steps_recover:
  assumes "recover env st = Some (r, st')" and "engine_steps env s st"
  shows "engine_steps env s st'"
  using assms
  by (auto simp: recover_def bump_generations_def Let_def case_prod_unfold split: option.splits if_splits
      intro!: engine_intros elim!: steps_recover_loop)

lemma steps_persist_loop:
  "engine_steps env s st \<Longrightarrow> \<forall>a \<in> set as. a < gc_next st \<Longrightarrow> engine_steps env s (snd (persist_loop env as st))"
proof (induction as arbitrary: st)
  case (Cons a as)
  then show ?case
    by (auto simp: Let_def case_prod_unfold split: sum.splits intro!: engine_intros Cons.IH)
qed simp

context cache_engine
begin

lemma steps_persist_all:
  assumes "cache_inv st" and "engine_steps env s st"
  shows "engine_steps env s (snd (persist_all env st))"
proof -
  have "\<forall>a \<in> set (map snd (env_map_ord env (gc_by_artifact st))). a < gc_next st"
    using inv_by_artifact [OF assms(1)] mset_eq_setD [OF map_ord [of "gc_by_artifact st"]] by auto
  from steps_persist_loop [OF assms(2) this] assms(2) show ?thesis
    by (auto simp: persist_all_def Let_def case_prod_unfold split: option.splits sum.splits intro!: engine_intros)
qed

end

section \<open>Round trips\<close>

definition md_of :: "'x CacheEntry \<Rightarrow> PersistedMetadata" where
  "md_of e = \<lparr>md_artifact = en_artifact e, md_generation = en_generation e,
     md_cache_generation = en_cache_generation e, md_workload = en_workload e,
     md_artifact_size = en_artifact_size e, md_capture_cost_us = en_capture_cost_us e,
     md_instantiate_cost_us = en_instantiate_cost_us e,
     md_dependency_generation = en_dependency_generation e, md_invalidated = en_invalidated e\<rparr>"

text \<open>An entry whose strings and lists keep the limits of the format.\<close>

definition entry_storable :: "'x CacheEntry \<Rightarrow> bool" where
  "entry_storable e \<longleftrightarrow> descriptor_ok (en_descriptor e) \<and> workload_ok (en_workload e)
     \<and> length (encode_entry_payload e) + 16 < 2 ^ 32"

lemma encode_payload_md: "encode_entry_payload e =
    put_bytes 1 (serialize_descriptor (en_descriptor e)) @ put_bytes 2 (serialize_metadata (md_of e))"
  by (simp add: encode_entry_payload_def md_of_def)

lemma decode_encode_payload:
  assumes "entry_storable e"
  shows "decode_entry_payload (encode_entry_payload e) = Some (restored_entry (descriptor_view (en_descriptor e)) (md_of e))"
proof -
  let ?d = "serialize_descriptor (en_descriptor e)" and ?m = "serialize_metadata (md_of e)"
  have l: "encode_entry_payload e = field 1 ?d @ field 2 ?m" by (simp add: encode_payload_md put_is_field)
  have "length (encode_entry_payload e) + 16 < 2 ^ 32" using assms by (simp add: entry_storable_def)
  then have f: "fits32 ?d" "fits32 ?m" unfolding l by (simp_all add: field_def fits32_def)
  have "deserialize_descriptor ?d = success (descriptor_view (en_descriptor e))"
    using deserialize_serialize_rest [of "en_descriptor e" "[]"] assms by (simp add: entry_storable_def)
  moreover have "deserialize_metadata ?m = success (md_of e)"
    using deserialize_metadata_rest [of "md_of e" "[]"] assms by (simp add: entry_storable_def md_of_def)
  ultimately show ?thesis
    using loop_decode_field [OF f(2), of payload_body 2 "[]"]
    by (simp add: decode_entry_payload_def l loop_decode_field [OF f(1)] payload_body_def loop_decode_Nil)
qed

text \<open>What the index of artifacts holds, through the heap, and what the store can give back.\<close>

definition index_view :: "'x GraphCache \<Rightarrow> GraphArtifactId \<Rightarrow> 'x CacheEntry option" where
  "index_view st i = map_option (gc_heap st) (map_of (gc_by_artifact st) i)"

definition recoverable :: "PersistenceStore \<Rightarrow> files \<Rightarrow> GraphArtifactId \<Rightarrow> 'x CacheEntry option" where
  "recoverable s fs i = Option.bind (store_contents s fs i) decode_entry_payload"

lemma index_view_same_core: "same_core st st' \<Longrightarrow> index_view st' = index_view st"
  by (rule ext) (simp add: same_core_def index_view_def)

lemma store_get_total: "ps_version s \<noteq> 32 \<Longrightarrow> \<exists>x. store_get s fs i b = Some x"
proof (cases "fs (file_for i)")
  case (Some data)
  assume "ps_version s \<noteq> 32"
  then obtain x where "parse_envelope (ps_version s) data = Some x" using parse_envelope_total by blast
  with Some show ?thesis by (simp add: store_get_def split: sum.splits)
qed (simp add: store_get_def)

lemma index_view_insert:
  assumes "cache_inv st"
  shows "index_view (snd (insert_entry e st)) = (index_view st)(en_artifact e \<mapsto> e)"
proof -
  have "map_of (gc_by_artifact st) i \<noteq> Some (gc_next st)" for i
    using inv_by_artifact [OF assms] by (fastforce dest: map_of_SomeD)
  then show ?thesis
    by (auto simp: index_view_def insert_entry_def fun_eq_iff update_conv' map_option_case split: option.splits)
qed

lemma load_entry_recoverable:
  assumes "gc_store st = Some (s, fs)" and "ps_version s \<noteq> 32" and "env_open env (gc_ios st)"
  obtains r st' where "load_entry env i st = Some (r, st')" "same_core st st'" "gc_store st' = gc_store st"
    "recoverable s fs i = (case r of Inl _ \<Rightarrow> None | Inr e \<Rightarrow> Some e)"
proof -
  have "\<exists>x. load_entry env i st = Some x"
    using assms store_get_total [OF assms(2), of fs i True]
    by (auto simp: load_entry_def Let_def split: option.splits sum.splits)
  then obtain r st' where l: "load_entry env i st = Some (r, st')" by auto
  moreover have "recoverable s fs i = (case r of Inl _ \<Rightarrow> None | Inr e \<Rightarrow> Some e)"
    using l assms
    by (auto simp: load_entry_def recoverable_def store_contents_def Let_def split: option.splits sum.splits)
  moreover have "gc_store st' = gc_store st"
    using l by (auto simp: load_entry_def Let_def split: option.splits sum.splits)
  ultimately show ?thesis using that load_entry_core by blast
qed

lemma index_view_recover_entry:
  assumes "cache_inv st" and "fresh_entry e" and "en_exec e = None" and "en_residency e = RT_MetadataOnly"
  shows "index_view (recover_entry e st) = (index_view st)(en_artifact e \<mapsto> e)"
    and "cache_inv (recover_entry e st)" and "gc_store (recover_entry e st) = gc_store st"
proof -
  have e: "e\<lparr>en_residency := RT_MetadataOnly, en_exec := None\<rparr> = e" using assms(3,4) by simp
  have c: "same_core (snd (insert_entry e st)) (recover_entry e st)"
    by (simp add: recover_entry_def Let_def case_prod_unfold same_core_def e)
  show "index_view (recover_entry e st) = (index_view st)(en_artifact e \<mapsto> e)"
    using index_view_same_core [OF c] index_view_insert [OF assms(1)] by simp
  show "cache_inv (recover_entry e st)"
    using engine_steps_inv [OF steps_recover_entry [OF engine_steps.stay assms(2)] assms(1)] .
  show "gc_store (recover_entry e st) = gc_store st"
    by (simp add: recover_entry_def Let_def case_prod_unfold)
qed

lemma recover_loop_spec:
  assumes "gc_store st = Some (s, fs)" and "ps_version s \<noteq> 32" and "\<And>n. env_open env n" and "cache_inv st"
  defines "restored is \<equiv> List.map_filter (recoverable s fs) is :: 'x CacheEntry list"
  shows "\<exists>st' :: 'x GraphCache. recover_loop env is (r, c, st) =
      Some (r + length (restored is), c + (length is - length (restored is)), st')
    \<and> gc_store st' = Some (s, fs)
    \<and> index_view st' = index_view st ++ map_of (rev (map (\<lambda>e. (en_artifact e, e)) (restored is)))"
  using assms(1,4)
proof (induction "is" arbitrary: r c st)
  case Nil
  then show ?case by (simp add: restored_def map_filter_simps)
next
  case (Cons i "is")
  obtain x st1 where l: "load_entry env i st = Some (x, st1)" and core: "same_core st st1"
    and gs: "gc_store st1 = gc_store st"
    and x: "recoverable s fs i = (case x of Inl _ \<Rightarrow> None | Inr e \<Rightarrow> Some e)"
    using load_entry_recoverable [OF Cons.prems(1) assms(2,3)] by metis
  have le: "length (restored is) \<le> length is" by (simp add: restored_def map_filter_def)
  have inv1: "cache_inv st1" using core Cons.prems(2) by (rule cache_inv_same_core)
  show ?case
  proof (cases x)
    case (Inl err)
    let ?st2 = "record_event env ''recover.corrupt'' (''rejected corrupt entry '' @ GraphArtifactId_to_string i)
       (''\"error\":\"'' @ err_message err @ ''\"'') (touch_metric (\<lambda>m. m\<lparr>m_corruption_count := m_corruption_count m + 1\<rparr>) st1)"
    have c2: "same_core st ?st2" using core by (simp add: same_core_def)
    have "gc_store ?st2 = Some (s, fs)" "cache_inv ?st2"
      using gs Cons.prems(1) cache_inv_same_core [OF c2 Cons.prems(2)] by simp_all
    from Cons.IH [OF this, of r "c + 1"] show ?thesis
      using l x Inl index_view_same_core [OF c2] le by (simp add: restored_def map_filter_simps Suc_diff_le)
  next
    case (Inr e)
    note e = load_entry_restored [OF l [unfolded Inr]]
    note f = index_view_recover_entry [OF inv1 conjunct1 [OF e] conjunct1 [OF conjunct2 [OF e]] conjunct2 [OF conjunct2 [OF e]]]
    have "gc_store (recover_entry e st1) = Some (s, fs)" using f(3) gs Cons.prems(1) by simp
    from Cons.IH [OF this f(2), of "r + 1" c] show ?thesis
      using l x Inr f(1) index_view_same_core [OF core] by (simp add: restored_def map_filter_simps del: fun_upd_apply)
  qed
qed

text \<open>Names of artifact files survive the removal of temporary files.\<close>

lemma listed_not_tmp:
  assumes "listed_id name = Some i"
  shows "\<not> contains_tmp name"
proof
  assume "contains_tmp name"
  then obtain k where k: "take 4 (drop k name) = ''.tmp''" by (auto simp: contains_tmp_def list_ex_iff)
  have n: "length name = 39" "take 3 name = ''gc-''" "drop 35 name = ''.gcf''"
    and h: "\<not> list_ex (\<lambda>c. hex_val c > 15) (take 32 (drop 3 name))"
    using assms by (auto simp: listed_id_def hex_to_id_def split: if_splits)
  have lk: "k + 4 \<le> 39" using arg_cong [OF k, of length] n(1) by simp
  have ck: "name ! k = CHR ''.''" "name ! (k + 1) = CHR ''t''"
    using arg_cong [OF k, of "\<lambda>x. x ! 0"] arg_cong [OF k, of "\<lambda>x. x ! 1"] lk n(1) by simp_all
  consider "k < 3" | "3 \<le> k" "k < 35" | "k = 35" using lk by linarith
  then show False
  proof cases
    case 1
    then have "name ! k = ''gc-'' ! k" using n(2) by (metis nth_take)
    with 1 ck(1) show False by (auto simp: less_Suc_eq numeral_3_eq_3)
  next
    case 2
    then have "name ! k = take 32 (drop 3 name) ! (k - 3)" "k - 3 < length (take 32 (drop 3 name))" using n(1) by simp_all
    then have "name ! k \<in> set (take 32 (drop 3 name))" by (metis nth_mem)
    with h ck(1) show False by (auto simp: list_ex_iff hex_val_def)
  next
    case 3
    then have "name ! (k + 1) = drop 35 name ! 1" using n(1) by simp
    with ck(2) n(3) show False by simp
  qed
qed

lemma remove_orphans_listed:
  "listed_id name = Some i \<Longrightarrow> remove_orphans names fs name = fs name"
  using listed_not_tmp by (induction names arbitrary: fs) (auto simp: remove_orphans_def)

lemma finite_remove_orphans: "finite (dom fs) \<Longrightarrow> finite (dom (remove_orphans names fs))"
  by (induction names arbitrary: fs) (simp_all add: remove_orphans_def)

lemma store_contents_files: "(\<And>i. fs' (file_for i) = fs (file_for i)) \<Longrightarrow> store_contents s fs' = store_contents s fs"
  by (simp add: store_contents_def store_get_def fun_eq_iff)

lemma contents_remove_orphans [simp]: "store_contents s (remove_orphans names fs) = store_contents s fs"
  by (rule store_contents_files) (rule remove_orphans_listed [OF listed_file])

lemma bump_generations_frame [simp]: "gc_store (bump_generations env st) = gc_store st"
    "same_core st (bump_generations env st)"
  by (simp_all add: bump_generations_def Let_def same_core_def)

lemma recoverable_cong: "store_contents s fs' = store_contents s fs \<Longrightarrow> recoverable s fs' = recoverable s fs"
  by (simp add: recoverable_def fun_eq_iff)

lemma restored_lookup:
  assumes key: "\<And>i e. f i = Some e \<Longrightarrow> en_artifact e = i" and dom: "dom f \<subseteq> set is"
  shows "map_of (rev (map (\<lambda>e. (en_artifact e, e)) (List.map_filter f is))) = f"
    (is "map_of (rev ?kvs) = _")
proof
  fix i
  have kvs: "(i, e) \<in> set ?kvs \<longleftrightarrow> f i = Some e" for e
    using key dom by (fastforce simp: map_filter_def image_iff)
  show "map_of (rev ?kvs) i = f i"
  proof (cases "map_of (rev ?kvs) i")
    case None
    then have "i \<notin> fst ` set ?kvs" by (simp add: map_of_eq_None_iff)
    then have "f i = None" using kvs by (cases "f i") force+
    with None show ?thesis by simp
  next
    case (Some e)
    then have "(i, e) \<in> set ?kvs" using map_of_SomeD by fastforce
    with Some kvs show ?thesis by simp
  qed
qed

text \<open>
  After \<open>recover\<close> on a directory written by the store, the index holds what the store can give back,
  over what it held before.
\<close>

lemma recover_spec:
  fixes st :: "'x GraphCache"
  assumes "gc_store st = Some (s, fs)" and "ps_version s \<noteq> 32" and "\<And>n. env_open env n" and inv: "cache_inv st"
    and key: "\<And>i e. recoverable s fs i = Some (e :: 'x CacheEntry) \<Longrightarrow> en_artifact e = i"
    and fin: "finite (dom fs)" and dir: "\<And>fs. finite (dom fs) \<Longrightarrow> set (env_dir env fs) = dom fs"
  shows "\<exists>st'. recover env st = Some (success (), st') \<and> index_view st' = index_view st ++ recoverable s fs"
proof -
  let ?fs = "remove_orphans (env_dir env fs) fs"
  let ?st = "snd (now_us env st)\<lparr>gc_store := Some (s, ?fs)\<rparr>"
  let ?is = "store_list (env_dir env ?fs)"
  have core: "same_core st ?st" by (simp add: same_core_def)
  have rec: "recoverable s ?fs = (recoverable s fs :: _ \<Rightarrow> 'x CacheEntry option)" by (rule recoverable_cong) simp
  have "dom (recoverable s fs :: _ \<Rightarrow> 'x CacheEntry option) \<subseteq> set ?is"
  proof
    fix i assume "i \<in> dom (recoverable s fs :: _ \<Rightarrow> 'x CacheEntry option)"
    then have "fs (file_for i) \<noteq> None"
      by (auto simp: recoverable_def store_contents_def store_get_def split: option.splits)
    then have "file_for i \<in> set (env_dir env ?fs)"
      using remove_orphans_listed [OF listed_file] dir [OF finite_remove_orphans [OF fin]] by auto
    then show "i \<in> set ?is" using listed_file by (auto simp: listed_only_file intro!: bexI)
  qed
  then have look: "map_of (rev (map (\<lambda>e. (en_artifact e, e)) (List.map_filter (recoverable s ?fs) ?is)))
      = (recoverable s fs :: _ \<Rightarrow> 'x CacheEntry option)"
    unfolding rec using key by (intro restored_lookup)
  have "gc_store ?st = Some (s, ?fs)" by simp
  from recover_loop_spec [OF this assms(2,3) cache_inv_same_core [OF core inv], of ?is 0 0]
  obtain n m st1 where "recover_loop env ?is (0, 0, ?st) = Some (n, m, st1)"
    and v: "index_view st1 = index_view ?st ++ recoverable s fs"
    unfolding look by auto
  then obtain st2 where r: "recover env st = Some (success (), st2)" and c: "same_core st1 st2"
    using assms(1) bump_generations_frame(2) [of st1 env]
    by (auto simp: recover_def Let_def case_prod_unfold same_core_def)
  then show ?thesis using v index_view_same_core [OF core] index_view_same_core [OF c] by auto
qed

lemma encode_persisted [simp]: "encode_entry_payload (e\<lparr>en_persisted := b\<rparr>) = encode_entry_payload e"
  by (simp add: encode_payload_md md_of_def)

lemma persist_entry_effect:
  assumes "gc_store st = Some (s, fs)" and "\<And>n. env_put env n = PutOk"
  shows "fst (persist_entry env a st) = success ()"
    and "gc_store (snd (persist_entry env a st)) =
      Some (s, snd (store_put s fs (en_artifact (gc_heap st a)) (encode_entry_payload (gc_heap st a)) PutOk))"
  using assms by (simp_all add: persist_entry_def now_us_def Let_def case_prod_unfold store_put_def)

lemma persist_loop_spec:
  assumes "gc_store st = Some (s, fs)" and put: "\<And>n. env_put env n = PutOk"
    and "\<forall>a \<in> set as. length (encode_entry_payload (gc_heap st a)) + 16 < 2 ^ 32"
  shows "\<exists>st' fs'. persist_loop env as st = (success (), st') \<and> gc_store st' = Some (s, fs') \<and>
    (finite (dom fs) \<longrightarrow> finite (dom fs')) \<and> store_contents s fs' = store_contents s fs
      ++ map_of (rev (map (\<lambda>a. (en_artifact (gc_heap st a), encode_entry_payload (gc_heap st a))) as))"
  using assms(1,3)
proof (induction as arbitrary: st fs)
  case (Cons a as)
  let ?e = "gc_heap st a"
  let ?st = "upd_entry a (\<lambda>e. e\<lparr>en_persisted := True\<rparr>) (snd (persist_entry env a st))"
  let ?fs = "snd (store_put s fs (en_artifact ?e) (encode_entry_payload ?e) PutOk)"
  note eff = persist_entry_effect [OF Cons.prems(1) put, of a]
  have st: "gc_store ?st = Some (s, ?fs)" using eff(2) by simp
  have same: "en_artifact (gc_heap ?st b) = en_artifact (gc_heap st b)"
    "encode_entry_payload (gc_heap ?st b) = encode_entry_payload (gc_heap st b)" for b by simp_all
  have "\<forall>b \<in> set as. length (encode_entry_payload (gc_heap ?st b)) + 16 < 2 ^ 32" unfolding same using Cons.prems(2) by simp
  note IH = Cons.IH [OF st this]
  have "persist_loop env (a # as) st = persist_loop env as ?st"
    using eff(1) by (simp add: Let_def case_prod_unfold)
  moreover have "store_contents s ?fs = (store_contents s fs)(en_artifact ?e \<mapsto> encode_entry_payload ?e)"
    using Cons.prems(2) by (intro store.put_law) simp
  moreover have "finite (dom fs) \<Longrightarrow> finite (dom ?fs)" by (simp add: store_put_def Let_def)
  ultimately show ?case using IH unfolding same by (auto simp del: fun_upd_apply)
qed simp

lemma persist_all_contents:
  assumes inv: "cache_inv st" and gs: "gc_store st = Some (s, fs)" and put: "\<And>n. env_put env n = PutOk"
    and ord: "\<And>m. mset (env_map_ord env m) = mset m"
    and small: "\<And>i e. index_view st i = Some e \<Longrightarrow> length (encode_entry_payload e) + 16 < 2 ^ 32"
  shows "\<exists>st' fs'. persist_all env st = (success (), st') \<and> gc_store st' = Some (s, fs')
    \<and> (finite (dom fs) \<longrightarrow> finite (dom fs'))
    \<and> store_contents s fs' = store_contents s fs ++ (\<lambda>i. map_option encode_entry_payload (index_view st i))"
proof -
  let ?as = "map snd (env_map_ord env (gc_by_artifact st))"
  let ?kv = "\<lambda>a. (en_artifact (gc_heap st a), encode_entry_payload (gc_heap st a))"
  have d: "distinct (map fst (gc_by_artifact st))" using inv by (simp add: cache_inv_def indexes_ok_def)
  have set: "set (env_map_ord env (gc_by_artifact st)) = set (gc_by_artifact st)" by (rule mset_eq_setD [OF ord])
  have idx: "(i, a) \<in> set (gc_by_artifact st) \<longleftrightarrow> map_of (gc_by_artifact st) i = Some a" for i a
    using d by (simp add: map_of_eq_Some_iff)
  have "length (encode_entry_payload (gc_heap st a)) + 16 < 2 ^ 32" if "map_of (gc_by_artifact st) i = Some a" for i a
    using small [of i "gc_heap st a"] that by (simp add: index_view_def)
  then have "\<forall>a \<in> set ?as. length (encode_entry_payload (gc_heap st a)) + 16 < 2 ^ 32" by (auto simp: set idx)
  from persist_loop_spec [OF gs put this] obtain st1 fs1 where p: "persist_loop env ?as st = (success (), st1)"
    "gc_store st1 = Some (s, fs1)" "finite (dom fs) \<longrightarrow> finite (dom fs1)" "store_contents s fs1 = store_contents s fs ++ map_of (rev (map ?kv ?as))" by blast
  have kv: "map ?kv ?as = map (\<lambda>(i, a). (i, encode_entry_payload (gc_heap st a))) (env_map_ord env (gc_by_artifact st))"
    unfolding map_map by (rule map_cong [OF refl]) (use inv_by_artifact [OF inv] set in auto)
  have dk: "distinct (map fst (rev (map ?kv ?as)))"
    using d mset_eq_imp_distinct_iff [of "map fst (env_map_ord env (gc_by_artifact st))" "map fst (gc_by_artifact st)"]
    unfolding kv by (simp add: rev_map [symmetric] o_def case_prod_unfold ord)
  have "map_of (rev (map ?kv ?as)) = (\<lambda>i. map_option encode_entry_payload (index_view st i))"
  proof
    fix i
    have "map_of (rev (map ?kv ?as)) i = Some p \<longleftrightarrow> (\<exists>a. (i, a) \<in> set (gc_by_artifact st) \<and> p = encode_entry_payload (gc_heap st a))" for p
      unfolding map_of_eq_Some_iff [OF dk] unfolding kv by (force simp: set image_iff)
    then show "map_of (rev (map ?kv ?as)) i = map_option encode_entry_payload (index_view st i)"
      unfolding idx index_view_def by (cases "map_of (gc_by_artifact st) i"; cases "map_of (rev (map ?kv ?as)) i") auto
  qed
  with p gs show ?thesis by (auto simp: persist_all_def Let_def)
qed

lemma contents_version:
  assumes "ps_version s = ps_version s'"
  shows "store_contents s fs = store_contents s' fs"
proof
  show "store_contents s fs i = store_contents s' fs i" for i
    unfolding store_contents_def store_get_def assms by (rule refl)
qed

text \<open>
  C14: Restart. Persist an engine's graphs, start a new engine on the directory and recover: if every graph
  is within the limits of the format (\<open>entry_storable\<close>: at most 8192 nodes, 16384 edges and
  8192 dependencies, lists of at most 4096 numbers, a payload below 4 GiB), the writes succeed and nothing
  else was stored, the new index holds exactly the artifacts of the old one, each with the identity,
  workload, generations, costs and invalidation flag it had, its descriptor as the format carries it, and no
  executable.
\<close>

theorem restart_restores_index:
  assumes inv: "cache_inv st" and gs: "gc_store st = Some (s, fs)" and ver: "ps_version s = kFormatVersion"
    and new: "\<And>i. store_contents s fs i \<noteq> None \<Longrightarrow> index_view st i \<noteq> None"
    and put: "\<And>n. env_put env n = PutOk" and opn: "\<And>n. env_open env n"
    and fin: "finite (dom fs)" and dir: "\<And>fs. finite (dom fs) \<Longrightarrow> set (env_dir env fs) = dom fs"
    and ord: "\<And>m. mset (env_map_ord env m) = mset m"
    and ok: "\<And>i e. index_view st i = Some e \<Longrightarrow> entry_storable e"
    and cfg: "cfg_enable_persistence cfg"
  shows "\<exists>st1 fs1 st0 st2. persist_all env st = (success (), st1) \<and> gc_store st1 = Some (s, fs1)
     \<and> cache_new cfg (Some b) fs1 = Some (st0 :: 'x GraphCache) \<and> recover env st0 = Some (success (), st2)
     \<and> index_view st2 = (\<lambda>i. map_option (\<lambda>e. restored_entry (descriptor_view (en_descriptor e)) (md_of e)) (index_view st i))"
proof -
  obtain st1 fs1 where p: "persist_all env st = (success (), st1)" "gc_store st1 = Some (s, fs1)"
    and fin1: "finite (dom fs1)" and c: "store_contents s fs1 = store_contents s fs ++ (\<lambda>i. map_option encode_entry_payload (index_view st i))"
    using persist_all_contents [OF inv gs put ord] ok fin by (auto simp: entry_storable_def)
  obtain st0 :: "'x GraphCache" where st0: "cache_new cfg (Some b) fs1 = Some st0" by (simp add: cache_new_def)
  let ?s = "\<lparr>ps_dir = cfg_persistence_dir cfg, ps_version = kFormatVersion\<rparr>"
  have s0: "gc_store st0 = Some (?s, fs1)" "index_view st0 = Map.empty"
    using st0 cfg by (auto simp: cache_new_def index_view_def)
  have none: "store_contents s fs i = None" if "index_view st i = None" for i
    using new [of i] that by blast
  have c1: "store_contents ?s fs1 i = map_option encode_entry_payload (index_view st i)" for i
    using c contents_version [of ?s s fs1] ver none [of i]
    by (cases "index_view st i") (auto simp: map_add_def)
  have r: "recoverable ?s fs1 i
      = map_option (\<lambda>e. restored_entry (descriptor_view (en_descriptor e)) (md_of e)) (index_view st i)" for i
    using ok decode_encode_payload by (cases "index_view st i") (auto simp: recoverable_def c1)
  have art: "en_artifact e = i" if "index_view st i = Some e" for i e
    using that inv_by_artifact [OF inv] by (auto simp: index_view_def dest!: map_of_SomeD)
  have "en_artifact e = i" if "recoverable ?s fs1 i = Some (e :: 'x CacheEntry)" for i e
    using that art by (auto simp: r md_of_def)
  moreover have "ps_version ?s \<noteq> 32" by (simp add: kFormatVersion_def)
  ultimately obtain st2 where "recover env st0 = Some (success (), st2)"
    "index_view st2 = index_view st0 ++ recoverable ?s fs1"
    using recover_spec [OF s0(1) _ opn cache_new_inv [OF st0] _ fin1 dir] by blast
  moreover from this have "index_view st2 =
      (\<lambda>i. map_option (\<lambda>e. restored_entry (descriptor_view (en_descriptor e)) (md_of e)) (index_view st i))"
    by (simp add: r s0(2) fun_eq_iff)
  ultimately show ?thesis using p st0 by blast
qed

text \<open>A concrete engine with one persisted graph, on a machine whose file operations succeed.\<close>

definition recovery_env :: "CpuGraph cache_env" where
  "recovery_env = example_env\<lparr>env_dir := (\<lambda>fs. sorted_list_of_set (dom fs))\<rparr>"

definition example_entry :: "bool \<Rightarrow> CpuGraph CacheEntry" where
  "example_entry revoked = restored_entry GraphDescriptor_default
     (PersistedMetadata_default\<lparr>md_artifact := GraphArtifactId 1 2, md_generation := GraphGeneration 7, md_invalidated := revoked\<rparr>)"

definition example_engine :: "CpuGraph GraphCache" where
  "example_engine = snd (insert_entry (example_entry True) (the (cache_new (GraphCacheConfig_default\<lparr>cfg_enable_persistence := True\<rparr>)
     (Some ()) Map.empty)))"

lemma example_entry_storable: "entry_storable (example_entry b)"
proof -
  have "length (encode_entry_payload (example_entry b)) < 2 ^ 16"
    by (simp add: encode_payload_md md_of_def example_entry_def restored_entry_def Let_def CacheEntry_default_def
        PersistedMetadata_default_def WorkloadIdentity_default_def serialize_metadata_def serialize_descriptor_def
        GraphDescriptor_default_def BackendIdentity_default_def RuntimeDescriptor_default_def
        DeviceDescriptor_default_def SynchronizationDescriptor_default_def ProvenanceDescriptor_default_def
        put_is_field)
  then show ?thesis
    using descriptor_ok_default
    by (simp add: entry_storable_def) (simp add: example_entry_def PersistedMetadata_default_def workload_ok_def
      WorkloadIdentity_default_def fits32_def)
qed

lemma restart_restores_index_witness:
  "\<exists>st1 fs1 st0 st2. persist_all recovery_env example_engine = (success (), st1)
     \<and> gc_store st1 = Some (\<lparr>ps_dir = [], ps_version = kFormatVersion\<rparr>, fs1)
     \<and> cache_new (GraphCacheConfig_default\<lparr>cfg_enable_persistence := True\<rparr>) (Some ()) fs1 = Some (st0 :: CpuGraph GraphCache)
     \<and> recover recovery_env st0 = Some (success (), st2)
     \<and> index_view st2 = [GraphArtifactId 1 2 \<mapsto> restored_entry (descriptor_view (en_descriptor (example_entry True))) (md_of (example_entry True))]"
proof -
  let ?cfg = "GraphCacheConfig_default\<lparr>cfg_enable_persistence := True\<rparr>"
  let ?s = "\<lparr>ps_dir = [], ps_version = kFormatVersion\<rparr>"
  obtain st :: "CpuGraph GraphCache" where st: "cache_new ?cfg (Some ()) Map.empty = Some st" by (simp add: cache_new_def)
  have art: "en_artifact (example_entry True) = GraphArtifactId 1 2" by (simp add: example_entry_def)
  have idx: "index_view example_engine = [GraphArtifactId 1 2 \<mapsto> (example_entry True)]"
    using index_view_insert [OF cache_new_inv [OF st], of "example_entry True"] st art
    by (auto simp: example_engine_def cache_new_def index_view_def)
  have inv: "cache_inv example_engine"
    using engine_steps_inv [OF steps_insert [OF engine_steps.stay, of "example_entry True" recovery_env st]]
      cache_new_inv [OF st] by (simp add: example_engine_def example_entry_def st restored_fresh)
  have gs: "gc_store example_engine = Some (?s, Map.empty)"
    using st by (auto simp: example_engine_def cache_new_def GraphCacheConfig_default_def)
  have "\<exists>st1 fs1 st0 st2. persist_all recovery_env example_engine = (success (), st1) \<and> gc_store st1 = Some (?s, fs1)
     \<and> cache_new ?cfg (Some ()) fs1 = Some (st0 :: CpuGraph GraphCache) \<and> recover recovery_env st0 = Some (success (), st2)
     \<and> index_view st2 = (\<lambda>i. map_option (\<lambda>e. restored_entry (descriptor_view (en_descriptor e)) (md_of e)) (index_view example_engine i))"
    by (rule restart_restores_index [OF inv gs])
       (use example_entry_storable in \<open>auto simp: recovery_env_def example_env_def idx store_contents_def store_get_def split: if_splits\<close>)
  moreover have "(\<lambda>i. map_option (\<lambda>e. restored_entry (descriptor_view (en_descriptor e)) (md_of e)) (index_view example_engine i))
     = [GraphArtifactId 1 2 \<mapsto> restored_entry (descriptor_view (en_descriptor (example_entry True))) (md_of (example_entry True)) :: CpuGraph CacheEntry]"
    by (simp add: idx fun_eq_iff)
  ultimately show ?thesis by (simp only:)
qed

end
