(* ===== verification/GC_CacheLookup.thy ===== *)
theory GC_CacheLookup
  imports GC_CacheOps
begin

text \<open>
  What a lookup returns: a hit leases an entry that passed every check, a candidate that passes them is
  found, and a capture that completes is served by the lookup that asked for it.
\<close>

section \<open>The chosen candidate\<close>

text \<open>A lease that stands for a servable entry of the engine.\<close>

definition lease_on :: "'x GraphCache \<Rightarrow> CompatibilityFacts \<Rightarrow> GraphCompatibilityPolicy \<Rightarrow> 'x GraphLease \<Rightarrow> nat \<Rightarrow> bool" where
  "lease_on st facts policy l a \<longleftrightarrow> (let e = gc_heap st a; dec = decide_compatibility facts (en_facts e) policy in
     a < gc_next st \<and> selectable st facts policy a \<and> workload_key (en_workload e) = workload_key (f_workload facts)
   \<and> (\<exists>t < gc_next_token st. gl_token l = Some t \<and> gc_tokens st t = \<lparr>le_keep_alive = Some a, le_released = False\<rparr>)
   \<and> gl_artifact l = en_artifact e \<and> gl_generation l = en_generation e \<and> gl_exec l = en_exec e \<and> en_exec e \<noteq> None
   \<and> gl_descriptor l = Some (en_desc_view e) \<and> gl_rebind l = needs_rebinding dec)"

text \<open>An entry as the scan sees it does not depend on counters, handles and leases.\<close>

definition same_entry :: "'x CacheEntry \<Rightarrow> 'x CacheEntry \<Rightarrow> bool" where
  "same_entry e e' \<longleftrightarrow> en_artifact e' = en_artifact e \<and> en_generation e' = en_generation e \<and> en_facts e' = en_facts e
     \<and> en_key e' = en_key e \<and> en_workload e' = en_workload e \<and> en_lifecycle e' = en_lifecycle e
     \<and> en_invalidated e' = en_invalidated e \<and> en_desc_view e' = en_desc_view e \<and> en_descriptor e' = en_descriptor e"

lemma selectable_same:
  assumes "same_entry (gc_heap st a) (gc_heap st' a)" and "gc_key_gen st' = gc_key_gen st"
  shows "selectable st' facts policy a = selectable st facts policy a"
  using assms by (simp add: selectable_def same_entry_def is_dependency_fresh_def Let_def)

lemma materialize_entry:
  "same_entry (gc_heap st b) (gc_heap (snd (materialize_exec env a st)) b)"
  "fst (materialize_exec env a st) = Inr () \<Longrightarrow> (\<And>d att h. be_capture (env_backend env) d att = Inr h \<Longrightarrow> h \<noteq> None)
     \<Longrightarrow> en_exec (gc_heap (snd (materialize_exec env a st)) a) \<noteq> None"
  "en_exec (gc_heap st a) \<noteq> None \<Longrightarrow> materialize_exec env a st = (success (), st)"
  by (auto simp: materialize_exec_def same_entry_def Let_def split: sum.splits if_splits)

lemma materialize_more [simp]:
  "gc_key_gen (snd (materialize_exec env a st)) = gc_key_gen st"
  "gc_by_workload (snd (materialize_exec env a st)) = gc_by_workload st"
  "gc_next (snd (materialize_exec env a st)) = gc_next st"
  "gc_next_token (snd (materialize_exec env a st)) = gc_next_token st"
  "gc_config (snd (materialize_exec env a st)) = gc_config st"
  by (simp_all add: materialize_exec_def Let_def split: sum.splits)

lemma make_lease_more [simp]:
  "gc_key_gen (snd (make_lease a b st)) = gc_key_gen st"
  "same_entry (gc_heap st c) (gc_heap (snd (make_lease a b st)) c)"
  "en_exec (gc_heap (snd (make_lease a b st)) c) = en_exec (gc_heap st c)"
  by (simp_all add: make_lease_def Let_def same_entry_def)

lemma fst_make_lease:
  "fst (make_lease a b st) = \<lparr>gl_token = Some (gc_next_token st), gl_artifact = en_artifact (gc_heap st a),
     gl_generation = en_generation (gc_heap st a), gl_exec = en_exec (gc_heap st a),
     gl_descriptor = Some (en_desc_view (gc_heap st a)), gl_rebind = b\<rparr>"
  by (simp add: make_lease_def Let_def)

text \<open>The state in which the chosen candidate is leased: its use is recorded and its handle materialized.\<close>

definition chosen_state :: "'x cache_env \<Rightarrow> nat \<Rightarrow> 'x GraphCache \<Rightarrow> unit Result \<times> 'x GraphCache" where
  "chosen_state env a st = (let (ms, st) = now_ms env st in materialize_exec env a
     (upd_entry a (\<lambda>e. e\<lparr>en_last_access_ms := ms, en_reuse_count := en_reuse_count e + 1\<rparr>) st))"

lemma chosen_state_frame:
  "same_entry (gc_heap st b) (gc_heap (snd (chosen_state env a st)) b)"
  "gc_key_gen (snd (chosen_state env a st)) = gc_key_gen st"
  "gc_next (snd (chosen_state env a st)) = gc_next st"
  "gc_next_token (snd (chosen_state env a st)) = gc_next_token st"
proof -
  let ?st = "upd_entry a (\<lambda>e. e\<lparr>en_last_access_ms := fst (now_ms env st), en_reuse_count := en_reuse_count e + 1\<rparr>) (snd (now_ms env st))"
  have "same_entry (gc_heap st b) (gc_heap ?st b)" by (simp add: same_entry_def)
  then show "same_entry (gc_heap st b) (gc_heap (snd (chosen_state env a st)) b)"
    using materialize_entry(1) [of ?st b env a] by (simp add: chosen_state_def Let_def case_prod_unfold same_entry_def)
qed (simp_all add: chosen_state_def Let_def case_prod_unfold)

lemma search_eq:
  fixes env :: "'x cache_env"
  assumes "gc_by_workload st (workload_key (f_workload facts)) = Some as" and "sn_chosen (scan_all st facts policy as) = Some a"
  defines "dec \<equiv> decide_compatibility facts (en_facts (gc_heap st a)) policy" and "st1 \<equiv> snd (chosen_state env a st)"
  shows "search_candidates env facts policy st = (case fst (chosen_state env a st) of
      Inl err \<Rightarrow> (lookup_result_default\<lparr>lr_outcome := LO_MissCaptureRequired,
           lr_decision := sn_decision (scan_all st facts policy as),
           lr_reason_text := ''cannot materialize graph executable: '' @ err_message err\<rparr>, st1)
    | Inr _ \<Rightarrow> (lookup_result_default\<lparr>lr_outcome := hit_outcome (d_klass dec) (en_residency (gc_heap st1 a)),
           lr_decision := sn_decision (scan_all st facts policy as),
           lr_artifact := en_artifact (gc_heap st a), lr_generation := en_generation (gc_heap st a),
           lr_lease := Some (fst (make_lease a (needs_rebinding dec) st1)), lr_reasons := d_reasons dec\<rparr>,
         snd (make_lease a (needs_rebinding dec) st1)))"
proof -
  note c = scan_chosen [OF assms(2)]
  have "same_entry (gc_heap st a) (gc_heap st1 a)" unfolding st1_def by (rule chosen_state_frame)
  then have s: "\<not> en_invalidated (gc_heap st1 a)" "lifecycle_is_replay_eligible (en_lifecycle (gc_heap st1 a))"
    "en_artifact (gc_heap st1 a) = en_artifact (gc_heap st a)" "en_generation (gc_heap st1 a) = en_generation (gc_heap st a)"
    using c(2) by (auto simp: same_entry_def selectable_def Let_def)
  show ?thesis
    using s unfolding st1_def dec_def
    by (simp add: search_candidates_def assms(1,2) c(3) Let_def case_prod_unfold chosen_state_def lookup_result_default_def
        split: sum.splits)
qed

lemma search_miss:
  assumes "\<And>as. gc_by_workload st (workload_key (f_workload facts)) = Some as \<Longrightarrow> sn_chosen (scan_all st facts policy as) = None"
  shows "lr_lease (fst (search_candidates env facts policy st)) = None" "snd (search_candidates env facts policy st) = st"
  using assms by (auto simp: search_candidates_def lookup_result_default_def Let_def split: option.splits)

context cache_engine
begin

lemma search_hit:
  assumes inv: "cache_inv st" and hit: "lr_lease (fst (search_candidates env facts policy st)) = Some l"
  shows "\<exists>a. lease_on (snd (search_candidates env facts policy st)) facts policy l a
    \<and> lr_artifact (fst (search_candidates env facts policy st)) = gl_artifact l
    \<and> lr_generation (fst (search_candidates env facts policy st)) = gl_generation l
    \<and> lr_outcome (fst (search_candidates env facts policy st)) =
        hit_outcome (d_klass (decide_compatibility facts
          (en_facts (gc_heap (snd (search_candidates env facts policy st)) a)) policy)) RT_HostResident"
proof -
  obtain as a where b: "gc_by_workload st (workload_key (f_workload facts)) = Some as"
      and c: "sn_chosen (scan_all st facts policy as) = Some a"
    using hit search_miss(1) [of st facts policy env] by force
  note ch = scan_chosen [OF c]
  let ?st1 = "snd (chosen_state env a st)" and ?dec = "decide_compatibility facts (en_facts (gc_heap st a)) policy"
  let ?st2 = "snd (make_lease a (needs_rebinding ?dec) ?st1)"
  have ok: "fst (chosen_state env a st) = success ()"
    using hit search_eq [OF b c, of env] by (auto simp: lookup_result_default_def split: sum.splits)
  note eq = search_eq [OF b c, of env, unfolded ok sum.case]
  have a: "a < gc_next st" "workload_key (en_workload (gc_heap st a)) = workload_key (f_workload facts)"
    using inv ch(1) b by (auto simp: cache_inv_def indexes_ok_def)
  have inv1: "cache_inv ?st1"
    using a(1) by (intro engine_steps_inv [OF _ inv, of env])
      (auto simp: chosen_state_def Let_def case_prod_unfold intro!: engine_intros)
  have exec: "en_exec (gc_heap ?st1 a) \<noteq> None"
    using ok capture_handle unfolding chosen_state_def Let_def case_prod_unfold by (intro materialize_entry(2)) auto
  then have res: "en_residency (gc_heap ?st1 a) = RT_HostResident"
    using inv1 a(1) by (auto simp: cache_inv_def entries_ok_def Let_def chosen_state_frame)
  note s1 = chosen_state_frame(1) [of st a env a]
  have s2: "same_entry (gc_heap st a) (gc_heap ?st2 a)"
    using s1 make_lease_more(2) [of ?st1 a a] by (simp add: same_entry_def)
  have "selectable ?st2 facts policy a"
    using selectable_same [OF s2] ch(2) by (simp add: chosen_state_frame)
  then have "lease_on ?st2 facts policy (fst (make_lease a (needs_rebinding ?dec) ?st1)) a"
    using a exec s1 s2
    by (auto simp: lease_on_def Let_def make_lease_effect fst_make_lease same_entry_def chosen_state_frame)
  moreover have "l = fst (make_lease a (needs_rebinding ?dec) ?st1)" using hit eq by (simp add: lookup_result_default_def)
  ultimately show ?thesis
    using eq res s1 s2 by (intro exI [of _ a]) (simp add: fst_make_lease same_entry_def)
qed

end

section \<open>Lookup\<close>

lemma lease_on_frame:
  "same_core st st' \<Longrightarrow> gc_key_gen st' = gc_key_gen st \<Longrightarrow> lease_on st' facts policy l a = lease_on st facts policy l a"
  by (simp add: lease_on_def same_core_def selectable_def Let_def)

lemma lease_on_finish_hit [simp]:
  "lease_on (finish_hit env res req start st) facts policy l a = lease_on st facts policy l a"
  by (rule lease_on_frame) (simp_all add: same_core_def)

text \<open>The state a lookup searches in, and the state after the capture it runs on a miss.\<close>

definition lookup_start :: "'x cache_env \<Rightarrow> GraphLookupRequest \<Rightarrow> 'x GraphCache \<Rightarrow> 'x GraphCache" where
  "lookup_start env req st = bump_scopes (make_facts req) (\<lambda>m. m\<lparr>psm_lookups := psm_lookups m + 1\<rparr>)
     (touch_metric (\<lambda>m. m\<lparr>m_lookups := m_lookups m + 1\<rparr>) (snd (now_us env st)))"

definition lookup_capture :: "'x cache_env \<Rightarrow> GraphLookupRequest \<Rightarrow> 'x GraphCache \<Rightarrow> (GraphArtifactId Result \<times> bool) \<times> 'x GraphCache" where
  "lookup_capture env req st2 =
     (let st = bump_scopes (make_facts req) (\<lambda>m. m\<lparr>psm_misses := psm_misses m + 1\<rparr>) st2
      in run_single_flight env req (CaptureAttemptId (gc_capture_counter st + 1))
           (st\<lparr>gc_capture_counter := gc_capture_counter st + 1\<rparr>))"

lemma lookup_start_frame [simp]:
  "same_core st (lookup_start env req st)" "gc_key_gen (lookup_start env req st) = gc_key_gen st"
  "gc_config (lookup_start env req st) = gc_config st" "gc_heap (lookup_start env req st) = gc_heap st"
  by (simp_all add: lookup_start_def same_core_def)

lemma lookup_eq:
  assumes "search_candidates env (make_facts req) (rq_policy req) (lookup_start env req st) = (cand, st2)"
    and "lookup_capture env req st2 = ((spawned, owned), st3)"
    and "search_candidates env (make_facts req) (rq_policy req) st3 = (again, st4)"
  shows "lookup env req st =
     (if lr_hit cand then (cand, finish_hit env cand req (fst (now_us env st)) st2)
      else let res = cand\<lparr>lr_reason_text := miss_reason (lr_outcome cand)\<rparr>;
               stm = bump_scopes (make_facts req) (\<lambda>m. m\<lparr>psm_misses := psm_misses m + 1\<rparr>) st2
        in if rq_allow_capture req \<and> cfg_allow_capture (gc_config st2) \<and> lr_outcome cand = LO_MissCaptureRequired
           then let res = res\<lparr>lr_capture_started := True, lr_waited_on_capture := \<not> owned\<rparr>
             in case spawned of
               Inl e \<Rightarrow> finish_miss env (res\<lparr>lr_outcome := LO_MissCaptureRequired,
                   lr_reason_text := ''capture failed: '' @ err_message e\<rparr>) (fst (now_us env st))
                   (touch_metric (\<lambda>m. m\<lparr>m_capture_failures := m_capture_failures m + 1\<rparr>) st3)
             | Inr _ \<Rightarrow> if lr_hit again
                 then (again\<lparr>lr_capture_started := True, lr_waited_on_capture := \<not> owned,
                         lr_reason_text := ''captured and replayed-compatible; hit''\<rparr>,
                       finish_hit env again req (fst (now_us env st)) st4)
                 else finish_miss env (res\<lparr>lr_outcome := LO_MissIncompatible,
                        lr_reason_text := ''capture completed but no compatible candidate is replay-eligible''\<rparr>)
                        (fst (now_us env st)) st4
           else finish_miss env res (fst (now_us env st)) stm)"
  using assms
  by (simp add: lookup_def key_build_def lookup_start_def lookup_capture_def Let_def case_prod_unfold split: sum.splits)

text \<open>A lookup is a hit of the first search, or a hit of the search after a successful capture.\<close>

lemma lookup_cases:
  fixes env :: "'x cache_env"
  defines "facts \<equiv> \<lambda>req. make_facts req"
  assumes "lookup env req st = (res, st')"
  obtains
    (first) cand st2 where "search_candidates env (facts req) (rq_policy req) (lookup_start env req st) = (cand, st2)"
      "lr_hit cand" "res = cand" "\<exists>start. st' = finish_hit env cand req start st2"
  | (captured) cand st2 i owned st3 again st4 where
      "search_candidates env (facts req) (rq_policy req) (lookup_start env req st) = (cand, st2)" "\<not> lr_hit cand"
      "rq_allow_capture req" "cfg_allow_capture (gc_config st2)" "lr_outcome cand = LO_MissCaptureRequired"
      "lookup_capture env req st2 = ((Inr i, owned), st3)"
      "search_candidates env (facts req) (rq_policy req) st3 = (again, st4)" "lr_hit again"
      "res = again\<lparr>lr_capture_started := True, lr_waited_on_capture := \<not> owned,
         lr_reason_text := ''captured and replayed-compatible; hit''\<rparr>" "\<exists>start. st' = finish_hit env again req start st4"
  | (miss) cand st2 where "search_candidates env (facts req) (rq_policy req) (lookup_start env req st) = (cand, st2)"
      "\<not> lr_hit cand" "lr_lease res = None"
proof -
  obtain cand st2 where c: "search_candidates env (facts req) (rq_policy req) (lookup_start env req st) = (cand, st2)" by fastforce
  obtain spawned owned st3 where l: "lookup_capture env req st2 = ((spawned, owned), st3)" by (metis surj_pair)
  obtain again st4 where ag: "search_candidates env (facts req) (rq_policy req) st3 = (again, st4)" by fastforce
  note e = lookup_eq [OF c [unfolded facts_def] l ag [unfolded facts_def]]
  show ?thesis
  proof (cases "lr_hit cand")
    case True
    then have "lookup env req st = (cand, finish_hit env cand req (fst (now_us env st)) st2)" using e by simp
    with assms(2) have "res = cand" "st' = finish_hit env cand req (fst (now_us env st)) st2" by auto
    then show ?thesis using first [OF c True] by blast
  next
    case False
    note miss = this
    then have none: "lr_lease cand = None" by (simp add: lr_hit_def)
    show ?thesis
    proof (cases "rq_allow_capture req \<and> cfg_allow_capture (gc_config st2) \<and> lr_outcome cand = LO_MissCaptureRequired
        \<and> (\<exists>i. spawned = Inr i) \<and> lr_hit again")
      case True
      then obtain i where i: "spawned = Inr i" by blast
      have "lookup env req st = (again\<lparr>lr_capture_started := True, lr_waited_on_capture := \<not> owned,
          lr_reason_text := ''captured and replayed-compatible; hit''\<rparr>, finish_hit env again req (fst (now_us env st)) st4)"
        using e miss True i by simp
      with assms(2) have r: "res = again\<lparr>lr_capture_started := True, lr_waited_on_capture := \<not> owned,
          lr_reason_text := ''captured and replayed-compatible; hit''\<rparr>"
        "\<exists>start. st' = finish_hit env again req start st4" by auto
      show ?thesis by (rule captured [OF c miss _ _ _ l [unfolded i] ag _ r]) (use True in simp_all)
    next
      case False
      have "fst (lookup env req st) = res" using assms(2) by simp
      then have "lr_lease res = None"
        unfolding e using miss none False by (auto simp: Let_def lr_hit_def split: sum.splits if_splits)
      then show ?thesis by (rule that(3) [OF c miss])
    qed
  qed
qed

context cache_engine
begin

lemma lookup_capture_inv:
  assumes "cache_inv st"
  shows "cache_inv (snd (lookup_capture env req st))"
  by (rule engine_steps_inv [OF _ assms, of env])
     (auto simp: lookup_capture_def Let_def intro!: steps_single_flight engine_intros)

lemma lookup_lease:
  assumes inv: "cache_inv st" and "lookup env req st = (res, st')" and "lr_lease res = Some l"
  shows "\<exists>a. lease_on st' (make_facts req) (rq_policy req) l a \<and> lr_artifact res = gl_artifact l
    \<and> lr_generation res = gl_generation l
    \<and> lr_outcome res = hit_outcome (d_klass (decide_compatibility (make_facts req) (en_facts (gc_heap st' a)) (rq_policy req))) RT_HostResident"
  using assms(2)
proof (cases rule: lookup_cases)
  case (first cand st2)
  have "cache_inv (lookup_start env req st)" by (rule cache_inv_same_core [OF lookup_start_frame(1) inv])
  from search_hit [OF this, of "make_facts req" "rq_policy req" l] first assms(3) show ?thesis by auto
next
  case (captured cand st2 i owned st3 again st4)
  have "cache_inv (lookup_start env req st)" by (rule cache_inv_same_core [OF lookup_start_frame(1) inv])
  then have "cache_inv st2"
    using engine_steps_inv [OF steps_search [OF _ engine_steps.stay]] captured(1) by (metis snd_conv)
  then have "cache_inv st3" using lookup_capture_inv [of st2 req] captured(6) by simp
  from search_hit [OF this, of "make_facts req" "rq_policy req" l] captured(7-10) assms(3) show ?thesis by auto
next
  case miss
  then show ?thesis using assms(3) by simp
qed

end

section \<open>Serving a captured graph\<close>

text \<open>
  The last candidate of the workload is an exact match with a live handle: the scan picks it, since a
  later exact match replaces an earlier one.
\<close>

definition served :: "'x GraphCache \<Rightarrow> CompatibilityFacts \<Rightarrow> GraphCompatibilityPolicy \<Rightarrow> nat \<Rightarrow> bool" where
  "served st facts policy a \<longleftrightarrow> (\<exists>as. gc_by_workload st (workload_key (f_workload facts)) = Some (as @ [a]))
     \<and> exact st facts policy a \<and> en_exec (gc_heap st a) \<noteq> None"

lemma served_frame:
  "same_core st st' \<Longrightarrow> gc_key_gen st' = gc_key_gen st \<Longrightarrow> served st' facts policy a = served st facts policy a"
  by (simp add: served_def same_core_def exact_def selectable_def Let_def)

lemma chosen_state_live:
  assumes "en_exec (gc_heap st a) \<noteq> None"
  shows "fst (chosen_state env a st) = success ()" "gc_by_workload (snd (chosen_state env a st)) = gc_by_workload st"
    "en_exec (gc_heap (snd (chosen_state env a st)) a) = en_exec (gc_heap st a)"
    "en_residency (gc_heap (snd (chosen_state env a st)) a) = en_residency (gc_heap st a)"
  using assms by (simp_all add: chosen_state_def Let_def case_prod_unfold materialize_entry(3))

lemma hit_outcome_host:
  "hit_outcome CC_ExactCompatible RT_HostResident = LO_ExactHostHit"
  by (simp add: hit_outcome_def)

lemma search_served:
  assumes inv: "cache_inv st" and sv: "served st facts policy a"
  shows "lr_hit (fst (search_candidates env facts policy st))"
    and "lr_outcome (fst (search_candidates env facts policy st)) = LO_ExactHostHit"
    and "lr_artifact (fst (search_candidates env facts policy st)) = en_artifact (gc_heap st a)"
    and "\<not> lr_capture_started (fst (search_candidates env facts policy st))"
    and "served (snd (search_candidates env facts policy st)) facts policy a"
    and "en_artifact (gc_heap (snd (search_candidates env facts policy st)) a) = en_artifact (gc_heap st a)"
proof -
  obtain as where b: "gc_by_workload st (workload_key (f_workload facts)) = Some (as @ [a])"
      and x: "exact st facts policy a" and h: "en_exec (gc_heap st a) \<noteq> None"
    using sv by (auto simp: served_def)
  have a: "a < gc_next st" using inv b by (auto simp: cache_inv_def indexes_ok_def)
  have res: "en_residency (gc_heap st a) = RT_HostResident" using inv a h by (simp add: cache_inv_def entries_ok_def Let_def)
  let ?dec = "decide_compatibility facts (en_facts (gc_heap st a)) policy" and ?st1 = "snd (chosen_state env a st)"
  let ?st2 = "snd (make_lease a (needs_rebinding ?dec) ?st1)"
  have k: "d_klass ?dec = CC_ExactCompatible" using x by (simp add: exact_def)
  note eq = search_eq [OF b scan_last_exact [OF x], of env, unfolded chosen_state_live(1) [OF h] sum.case]
  show "lr_hit (fst (search_candidates env facts policy st))"
    "lr_outcome (fst (search_candidates env facts policy st)) = LO_ExactHostHit"
    "lr_artifact (fst (search_candidates env facts policy st)) = en_artifact (gc_heap st a)"
    "\<not> lr_capture_started (fst (search_candidates env facts policy st))"
    unfolding eq using k res h
    by (simp_all add: lr_hit_def chosen_state_live hit_outcome_host lookup_result_default_def)
  have s2: "same_entry (gc_heap st a) (gc_heap ?st2 a)"
    using chosen_state_frame(1) [of st a env a] make_lease_more(2) [of ?st1 a a] by (simp add: same_entry_def)
  then show "en_artifact (gc_heap (snd (search_candidates env facts policy st)) a) = en_artifact (gc_heap st a)"
    unfolding eq by (simp add: same_entry_def)
  have "selectable ?st2 facts policy a = selectable st facts policy a"
    by (rule selectable_same [OF s2]) (simp add: chosen_state_frame)
  moreover have "en_facts (gc_heap ?st2 a) = en_facts (gc_heap st a)" using s2 by (simp add: same_entry_def)
  ultimately show "served (snd (search_candidates env facts policy st)) facts policy a"
    unfolding eq using b x h by (simp add: served_def exact_def make_lease_effect chosen_state_live)
qed

lemma lookup_served:
  assumes inv: "cache_inv st" and sv: "served st (make_facts req) (rq_policy req) a" and l: "lookup env req st = (res, st')"
  shows "lr_hit res \<and> lr_outcome res = LO_ExactHostHit \<and> lr_artifact res = en_artifact (gc_heap st a) \<and> \<not> lr_capture_started res"
proof -
  have "cache_inv (lookup_start env req st)" by (rule cache_inv_same_core [OF lookup_start_frame(1) inv])
  moreover have "served (lookup_start env req st) (make_facts req) (rq_policy req) a"
    using sv by (simp only: served_frame [OF lookup_start_frame(1,2)])
  ultimately have s: "lr_hit (fst (search_candidates env (make_facts req) (rq_policy req) (lookup_start env req st)))"
    "lr_outcome (fst (search_candidates env (make_facts req) (rq_policy req) (lookup_start env req st))) = LO_ExactHostHit"
    "lr_artifact (fst (search_candidates env (make_facts req) (rq_policy req) (lookup_start env req st)))
       = en_artifact (gc_heap (lookup_start env req st) a)"
    "\<not> lr_capture_started (fst (search_candidates env (make_facts req) (rq_policy req) (lookup_start env req st)))"
    by (rule search_served)+
  from l show ?thesis by (cases rule: lookup_cases) (use s in simp_all)
qed

lemma capture_begin_frame:
  assumes "capture_begin env req attempt st = (Inr (e, g), st1)"
  shows "same_core st st1" "gc_key_gen st1 = gc_key_gen st" "gc_cache_gen st1 = g" "gc_cache_gen st = g"
    "en_facts e = make_facts req" "en_workload e = rq_workload req" "\<not> en_invalidated e" "en_lifecycle e = LC_Valid"
  using assms by (auto simp: capture_begin_def same_core_def Let_def case_prod_unfold split: sum.splits)

lemma capture_insert_effect:
  "fst (capture_insert env e st) = success (en_artifact e)"
  "gc_by_workload (snd (capture_insert env e st)) = push_index (workload_key (en_workload e)) (gc_next st) (gc_by_workload st)"
  "gc_key_gen (snd (capture_insert env e st)) = (gc_key_gen st)(key_hex (en_key e) \<mapsto> en_generation e)"
  "same_entry e (gc_heap (snd (capture_insert env e st)) (gc_next st))"
  "en_exec (gc_heap (snd (capture_insert env e st)) (gc_next st)) = en_exec e"
  by (auto simp: capture_insert_def Let_def case_prod_unfold insert_entry_def same_entry_def)

lemma capture_publish_current: "gc_cache_gen st = g \<Longrightarrow> capture_publish env e g st = capture_insert env e st"
  by (simp add: capture_publish_def capture_check_def)

definition deps_agree :: "KernelIdentityRef list \<Rightarrow> bool" where
  "deps_agree deps \<longleftrightarrow> list_all (\<lambda>d. list_all (\<lambda>c. k_contributes d \<and> k_contributes c \<and> k_name c = k_name d \<longrightarrow>
     k_generation c = k_generation d \<and> k_digest c = k_digest d \<and> k_abi c = k_abi d) deps) deps"

text \<open>A request that its own graph satisfies exactly.\<close>

definition self_matching :: "GraphLookupRequest \<Rightarrow> bool" where
  "self_matching req \<longleftrightarrow> (let f = make_facts req in deps_agree (f_dependencies f)
     \<and> p_namespace_filter (rq_policy req) \<in> {[], wl_namespace (rq_workload req)}
     \<and> (sc_specialized (f_scalar f) \<longrightarrow> \<not> f64_is_nan (sc_float (f_scalar f))))"

lemma facts_step_workload: "f_workload (fst (facts_step acc n)) = f_workload (fst acc)"
  by (auto simp: facts_step_def Let_def split: prod.splits)

lemma f_workload_make_facts [simp]: "f_workload (make_facts req) = rq_workload req"
proof -
  have "f_workload (fst (foldl facts_step acc ns)) = f_workload (fst acc)" for acc ns
    by (induction ns arbitrary: acc) (simp_all add: facts_step_workload)
  then show ?thesis by (simp add: make_facts_def facts_of_def Let_def case_prod_unfold)
qed

lemma self_matching_exact:
  assumes "self_matching req" and "en_facts e = make_facts req"
  shows "d_klass (decide_compatibility (make_facts req) (en_facts e) (rq_policy req)) = CC_ExactCompatible"
    and "is_dependency_fresh e (make_facts req)"
proof -
  show "d_klass (decide_compatibility (make_facts req) (en_facts e) (rq_policy req)) = CC_ExactCompatible"
    using assms by (simp add: self_exact_iff self_matching_def Let_def)
  have "deps_agree (f_dependencies (make_facts req))" using assms(1) by (simp add: self_matching_def Let_def)
  then show "is_dependency_fresh e (make_facts req)"
    unfolding is_dependency_fresh_def deps_agree_def assms(2) list_all_iff by blast
qed

lemma inserted_served:
  assumes e: "en_facts e = make_facts req" "en_workload e = rq_workload req" "\<not> en_invalidated e" "en_lifecycle e = LC_Valid"
    and m: "self_matching req" and "en_exec e \<noteq> None"
  shows "served (snd (capture_insert env e st)) (make_facts req) (rq_policy req) (gc_next st)"
    and "en_artifact (gc_heap (snd (capture_insert env e st)) (gc_next st)) = en_artifact e"
proof -
  let ?st = "snd (capture_insert env e st)" and ?a = "gc_next st"
  note p = capture_insert_effect [where env = env and e = e and st = st]
  have en: "en_facts (gc_heap ?st ?a) = make_facts req" "en_key (gc_heap ?st ?a) = en_key e"
    "en_generation (gc_heap ?st ?a) = en_generation e" "\<not> en_invalidated (gc_heap ?st ?a)"
    "en_lifecycle (gc_heap ?st ?a) = LC_Valid" and art: "en_artifact (gc_heap ?st ?a) = en_artifact e"
    using p(4) e by (simp_all add: same_entry_def)
  note x = self_matching_exact [OF m en(1)]
  have "lifecycle_is_replay_eligible LC_Valid" by (simp add: lifecycle_is_replay_eligible_def)
  then have "exact ?st (make_facts req) (rq_policy req) ?a"
    using en x p(3) by (simp add: exact_def selectable_def Let_def compatible_def)
  moreover have "\<exists>as. gc_by_workload ?st (workload_key (rq_workload req)) = Some (as @ [?a])"
    using p(2) e(2) by (simp add: push_index_def)
  ultimately show "served ?st (make_facts req) (rq_policy req) ?a" using p(5) assms(6) by (simp add: served_def)
  show "en_artifact (gc_heap ?st ?a) = en_artifact e" by (rule art)
qed

lemma published_served:
  assumes b: "capture_begin env req attempt st = (Inr (e, g), st1)" and m: "self_matching req" and "en_exec e \<noteq> None"
  shows "served (snd (capture_publish env e g st1)) (make_facts req) (rq_policy req) (gc_next st1)"
    and "en_artifact (gc_heap (snd (capture_publish env e g st1)) (gc_next st1)) = en_artifact e"
  unfolding capture_publish_current [OF capture_begin_frame(3) [OF b]]
  using inserted_served [OF capture_begin_frame(5-8) [OF b] m assms(3)] by simp_all

lemma finalized_valid:
  assumes ord: "\<And>xs. mset (ord xs) = mset xs" and fin: "finalize ord g = success h"
  shows "validate_graph ord h = success ()"
proof -
  have "h = finalized g" and "topology_ok (g_nodes g) (g_edges g)"
    using finalize_Inr [OF fin] fin validate_topology_iff [OF ord, of "g_nodes g" "g_edges g"]
    by (simp_all add: finalize_eq validate_graph_def)
  then have "topology_ok (g_nodes h) (g_edges h)"
    using topology_ok_mset [of "g_nodes h" "g_nodes g" "g_edges h" "g_edges g"]
    by (simp add: finalized_def canonicalize_topology_def)
  then show ?thesis using validate_topology_iff [OF ord, of "g_nodes h" "g_edges h"] by (simp add: validate_graph_def)
qed

lemma search_all_revoked:
  assumes "\<And>as a. gc_by_workload st (workload_key (f_workload facts)) = Some as \<Longrightarrow> a \<in> set as \<Longrightarrow> en_invalidated (gc_heap st a)"
  shows "search_candidates env facts policy st = (lookup_result_default, st)"
proof -
  have "scan_all st facts policy as = scan_start" if "\<forall>a \<in> set as. en_invalidated (gc_heap st a)" for as
    using that by (induction as) (simp_all add: scan_step_def Let_def)
  then show ?thesis
    using assms by (auto simp: search_candidates_def scan_start_def lookup_result_default_def Let_def split: option.splits)
qed

text \<open>No candidate of the workload is left, or every one has been invalidated.\<close>

definition all_revoked :: "'x GraphCache \<Rightarrow> WorkloadIdentity \<Rightarrow> bool" where
  "all_revoked st wl \<longleftrightarrow> (case gc_by_workload st (workload_key wl) of None \<Rightarrow> True
     | Some as \<Rightarrow> list_all (\<lambda>a. en_invalidated (gc_heap st a)) as)"

context cache_engine
begin

lemma capture_runs:
  assumes fin: "finalize (env_node_ord env) (rq_descriptor req) = success desc"
    and ord: "\<And>xs. mset (env_node_ord env xs) = mset xs"
    and cap: "be_capture (env_backend env) desc attempt = success h"
  shows "\<exists>e g st1. capture_begin env req attempt st = (success (e, g), st1) \<and> en_artifact e = g_artifact desc \<and> en_exec e \<noteq> None"
  using fin finalized_valid [OF ord fin] cap capture_validates [OF cap] capture_handle [OF cap]
  by (auto simp: capture_begin_def Let_def case_prod_unfold)

lemma first_lookup_captures:
  assumes inv: "cache_inv st"
    and revoked: "all_revoked st (rq_workload req)"
    and allow: "rq_allow_capture req" "cfg_allow_capture (gc_config st)" and m: "self_matching req"
    and fin: "finalize (env_node_ord env) (rq_descriptor req) = success desc"
    and ord: "\<And>xs. mset (env_node_ord env xs) = mset xs"
    and cap: "\<And>attempt. \<exists>h. be_capture (env_backend env) desc attempt = success h"
    and l: "lookup env req st = (res, st')"
  shows "lr_hit res \<and> lr_outcome res = LO_ExactHostHit \<and> lr_artifact res = g_artifact desc \<and> lr_capture_started res"
    and "\<exists>a. served st' (make_facts req) (rq_policy req) a \<and> en_artifact (gc_heap st' a) = g_artifact desc"
proof -
  let ?st1 = "lookup_start env req st" and ?f = "make_facts req" and ?p = "rq_policy req"
  have inv1: "cache_inv ?st1" by (rule cache_inv_same_core [OF lookup_start_frame(1) inv])
  have s1: "search_candidates env ?f ?p ?st1 = (lookup_result_default, ?st1)"
    by (rule search_all_revoked) (use revoked lookup_start_frame(1) [of st env req] in
        \<open>auto simp: same_core_def all_revoked_def list_all_iff\<close>)
  define stc where "stc = (let st = bump_scopes ?f (\<lambda>m. m\<lparr>psm_misses := psm_misses m + 1\<rparr>) ?st1 in
     st\<lparr>gc_capture_counter := gc_capture_counter st + 1, gc_active_captures := gc_active_captures st + 1\<rparr>)"
  let ?att = "CaptureAttemptId (gc_capture_counter ?st1 + 1)"
  obtain h where "be_capture (env_backend env) desc ?att = success h" using cap by blast
  from capture_runs [OF fin ord this, of stc] obtain e g stb where b: "capture_begin env req ?att stc = (success (e, g), stb)"
    and art: "en_artifact e = g_artifact desc" and h: "en_exec e \<noteq> None" by blast
  have pub: "fst (capture_publish env e g stb) = success (en_artifact e)"
    by (simp add: capture_publish_current [OF capture_begin_frame(3) [OF b]] capture_insert_effect)
  let ?stp = "snd (capture_publish env e g stb)"
  define st3 where "st3 = ?stp\<lparr>gc_active_captures := gc_active_captures ?stp - 1\<rparr>"
  have c: "lookup_capture env req ?st1 = ((success (en_artifact e), True), st3)"
    using b pub by (simp add: lookup_capture_def run_single_flight_def capture_graph_def stc_def st3_def Let_def case_prod_unfold)
  then have inv3: "cache_inv st3" using lookup_capture_inv [OF inv1, of req] by simp
  have "served st3 ?f ?p (gc_next stb)" "en_artifact (gc_heap st3 (gc_next stb)) = g_artifact desc"
    using published_served [OF b m h] art served_frame [of ?stp st3] by (simp_all add: st3_def same_core_def)
  note sv = search_served [OF inv3 this(1), of env, unfolded this(2)]
  obtain again st4 where ag: "search_candidates env ?f ?p st3 = (again, st4)" by fastforce
  have "lookup env req st = (again\<lparr>lr_capture_started := True, lr_waited_on_capture := \<not> True,
      lr_reason_text := ''captured and replayed-compatible; hit''\<rparr>, finish_hit env again req (fst (now_us env st)) st4)"
    using lookup_eq [OF s1 c ag] sv(1) ag allow by (simp add: lr_hit_def lookup_result_default_def)
  with l have r: "res = again\<lparr>lr_capture_started := True, lr_waited_on_capture := \<not> True,
      lr_reason_text := ''captured and replayed-compatible; hit''\<rparr>" "st' = finish_hit env again req (fst (now_us env st)) st4"
    by auto
  show "lr_hit res \<and> lr_outcome res = LO_ExactHostHit \<and> lr_artifact res = g_artifact desc \<and> lr_capture_started res"
    using sv(1-3) ag r(1) by (simp add: lr_hit_def)
  show "\<exists>a. served st' ?f ?p a \<and> en_artifact (gc_heap st' a) = g_artifact desc"
    using sv(5,6) ag r(2) served_frame [of st4 st'] by (intro exI [of _ "gc_next stb"]) (simp add: same_core_def)
qed

end

section \<open>Properties\<close>

text \<open>
  C1: A lookup that hits leases an entry that really serves the request: the entry is in the engine,
  belongs to the request's workload, is not invalidated, has the current generation of its key, a
  lifecycle eligible for replay and no stale dependency, and the compatibility engine accepts it
  under the request's policy; the lease names its artifact and generation, holds its executable and
  says whether the buffers must be rebound. The reported outcome is the class of that decision.
\<close>

theorem lookup_hit_sound:
  assumes "cache_engine env" and "cache_inv st" and "lookup env req st = (res, st')" and "lr_lease res = Some l"
  shows "\<exists>a. lease_on st' (make_facts req) (rq_policy req) l a \<and> lr_artifact res = gl_artifact l
    \<and> lr_generation res = gl_generation l
    \<and> lr_outcome res = hit_outcome (d_klass (decide_compatibility (make_facts req) (en_facts (gc_heap st' a)) (rq_policy req)))
        RT_HostResident"
  by (rule cache_engine.lookup_lease [OF assms])

text \<open>
  C13: The cache caches. Take a request whose graph matches itself (\<open>self_matching\<close>): a specialized scalar
  is not a NaN, contributing dependencies of one name agree, and the policy's namespace filter is empty or
  the request's own namespace. When every candidate of the workload has been invalidated (or none was ever
  captured), capture is allowed, the descriptor finalizes and the backend can capture it, a lookup
  captures the graph and is served it as an exact hit; the next lookup for the same request is
  served the same artifact as an exact hit without capturing again. The condition is needed: a graph
  specialized on a NaN never equals itself.
\<close>

theorem capture_once_then_hit:
  assumes eng: "cache_engine env" and "cache_inv st"
    and "all_revoked st (rq_workload req)"
    and "rq_allow_capture req" "cfg_allow_capture (gc_config st)" and "self_matching req"
    and "finalize (env_node_ord env) (rq_descriptor req) = success desc"
    and "\<And>xs. mset (env_node_ord env xs) = mset xs"
    and "\<And>attempt. \<exists>h. be_capture (env_backend env) desc attempt = success h"
    and l1: "lookup env req st = (res1, st1)" and l2: "lookup env req st1 = (res2, st2)"
  shows "lr_outcome res1 = LO_ExactHostHit \<and> lr_hit res1 \<and> lr_capture_started res1 \<and> lr_artifact res1 = g_artifact desc
    \<and> lr_outcome res2 = LO_ExactHostHit \<and> lr_hit res2 \<and> \<not> lr_capture_started res2 \<and> lr_artifact res2 = g_artifact desc"
proof -
  note first = cache_engine.first_lookup_captures [OF assms(1-10)]
  obtain a where a: "served st1 (make_facts req) (rq_policy req) a" "en_artifact (gc_heap st1 a) = g_artifact desc"
    using first(2) by blast
  have "cache_inv st1"
    using engine_steps_inv [OF cache_engine.steps_lookup [OF eng assms(2) engine_steps.stay] assms(2), of req] l1 by simp
  from lookup_served [OF this a(1) l2] a(2) first(1) show ?thesis by simp
qed

definition example_request :: GraphLookupRequest where
  "example_request = \<lparr>rq_workload = WorkloadIdentity_default\<lparr>wl_name := ''decode''\<rparr>, rq_backend = BackendIdentity_default,
     rq_runtime = RuntimeDescriptor_default, rq_device = DeviceDescriptor_default,
     rq_descriptor = GraphDescriptor_default\<lparr>g_nodes := [example_node 2, example_node 1], g_edges := [example_edge 1 2 1]\<rparr>,
     rq_policy = policy_default, rq_allow_capture = True, rq_graph_name = ''decode''\<rparr>"

definition example_cache :: "CpuGraph GraphCache" where
  "example_cache = the (cache_new GraphCacheConfig_default (Some ()) Map.empty)"

lemma example_cache_new: "cache_new GraphCacheConfig_default (Some ()) Map.empty = Some example_cache"
  by (simp add: example_cache_def cache_new_def)

lemma example_request_facts:
  "self_matching example_request"
  "topology_ok (g_nodes (rq_descriptor example_request)) (g_edges (rq_descriptor example_request))"
proof -
  show "topology_ok (g_nodes (rq_descriptor example_request)) (g_edges (rq_descriptor example_request))"
    by (simp add: example_request_def topology_ok_def topology_shape_def edge_pairs_def example_simps acyclic_insert wf_acyclic)
  have "f_dependencies (make_facts example_request) = []" "sc_specialized (f_scalar (make_facts example_request)) = False"
    by (simp_all add: make_facts_def facts_of_def example_request_def facts_step_def Let_def example_simps
        GraphDescriptor_default_def CompatibilityFacts_default_def QuantizationConfig_default_def ScalarSpecialization_default_def)
  then show "self_matching example_request"
    by (simp add: self_matching_def Let_def deps_agree_def)
       (simp add: example_request_def policy_default_def)
qed

lemma example_request_captures:
  "\<exists>desc. finalize rev (rq_descriptor example_request) = success desc
     \<and> (\<forall>attempt. \<exists>h. be_capture (env_backend example_env) desc attempt = success h)"
proof -
  have v: "validate_graph rev (rq_descriptor example_request) = success ()"
    using example_request_facts(2) validate_graph_iff [of rev "rq_descriptor example_request"] by simp
  then have f: "finalize rev (rq_descriptor example_request) = success (finalized (rq_descriptor example_request))"
    by (simp add: finalize_eq)
  have "\<exists>h. be_capture (env_backend example_env) (finalized (rq_descriptor example_request)) attempt = success h" for attempt
    using finalized_valid [OF _ f] by (simp add: example_env_def cpu_backend_def cpu_capture_def Let_def)
  with f show ?thesis by blast
qed

theorem capture_once_then_hit_witness:
  "let (res1, st1) = lookup example_env example_request example_cache; (res2, st2) = lookup example_env example_request st1
   in lr_outcome res1 = LO_ExactHostHit \<and> lr_capture_started res1 \<and> lr_outcome res2 = LO_ExactHostHit
      \<and> \<not> lr_capture_started res2 \<and> lr_artifact res2 = lr_artifact res1"
proof -
  obtain res1 st1 where l1: "lookup example_env example_request example_cache = (res1, st1)" by fastforce
  obtain res2 st2 where l2: "lookup example_env example_request st1 = (res2, st2)" by fastforce
  obtain desc where d: "finalize rev (rq_descriptor example_request) = success desc"
    "\<And>attempt. \<exists>h. be_capture (env_backend example_env) desc attempt = success h"
    using example_request_captures by blast
  have "gc_by_workload example_cache = Map.empty" "cfg_allow_capture (gc_config example_cache)"
    by (simp_all add: example_cache_def cache_new_def GraphCacheConfig_default_def)
  then have "lr_outcome res1 = LO_ExactHostHit \<and> lr_hit res1 \<and> lr_capture_started res1 \<and> lr_artifact res1 = g_artifact desc
    \<and> lr_outcome res2 = LO_ExactHostHit \<and> lr_hit res2 \<and> \<not> lr_capture_started res2 \<and> lr_artifact res2 = g_artifact desc"
    by (intro capture_once_then_hit [OF cpu_engine_example(1) cache_new_inv [OF example_cache_new] _ _ _
          example_request_facts(1) _ _ _ l1 l2])
       (use d in \<open>simp_all add: all_revoked_def example_env_def\<close>, simp add: example_request_def)
  then show ?thesis by (simp add: l1 l2)
qed

lemma example_first_lookup:
  assumes "lookup example_env example_request example_cache = (res, st')"
  shows "lr_hit res"
proof -
  obtain desc where d: "finalize rev (rq_descriptor example_request) = success desc"
    "\<And>attempt. \<exists>h. be_capture (env_backend example_env) desc attempt = success h"
    using example_request_captures by blast
  have "gc_by_workload example_cache = Map.empty" "cfg_allow_capture (gc_config example_cache)"
    by (simp_all add: example_cache_def cache_new_def GraphCacheConfig_default_def)
  then have "lr_hit res \<and> lr_outcome res = LO_ExactHostHit \<and> lr_artifact res = g_artifact desc \<and> lr_capture_started res"
    by (intro cache_engine.first_lookup_captures(1) [OF cpu_engine_example(1) cache_new_inv [OF example_cache_new] _ _ _
          example_request_facts(1) _ _ _ assms])
       (use d in \<open>simp_all add: all_revoked_def example_env_def\<close>, simp add: example_request_def)
  then show ?thesis ..
qed

theorem lookup_hit_sound_witness:
  "\<exists>l a. lr_lease (fst (lookup example_env example_request example_cache)) = Some l
     \<and> lease_on (snd (lookup example_env example_request example_cache)) (make_facts example_request) policy_default l a"
proof -
  obtain res st' where l: "lookup example_env example_request example_cache = (res, st')" by fastforce
  then obtain le where le: "lr_lease res = Some le" using example_first_lookup by (auto simp: lr_hit_def)
  have "rq_policy example_request = policy_default" by (simp add: example_request_def)
  with lookup_hit_sound [OF cpu_engine_example(1) cache_new_inv [OF example_cache_new] l le] l le show ?thesis by auto
qed

end
