(* ===== verification/GC_CacheSystem.thy ===== *)
theory GC_CacheSystem
  imports GC_Recovery GC_CacheLookup
begin

text \<open>
  Runs of the cache: clients call the operations of the engine in any order, while captures that other
  threads have begun are pending; the staleness check and the insertion of a pending capture may happen
  at any later points. The theorems of this theory hold in every state such a run reaches.
\<close>

section \<open>Runs\<close>

text \<open>A pending capture: the entry, and the generation it started in, or \<open>None\<close> once it passed the check.\<close>

type_synonym 'x pending = "('x CacheEntry \<times> u64 option) list"
type_synonym 'x cache_sys = "'x GraphCache \<times> 'x pending"

text \<open>A lease that this engine handed out.\<close>

definition owns :: "'x GraphCache \<Rightarrow> 'x GraphLease \<Rightarrow> bool" where
  "owns st l \<longleftrightarrow> (case gl_token l of None \<Rightarrow> True | Some t \<Rightarrow> t < gc_next_token st)"

inductive cache_step :: "'x cache_env \<Rightarrow> 'x cache_sys \<Rightarrow> 'x cache_sys \<Rightarrow> bool" for env where
  sys_lookup: "cache_step env (st, P) (snd (lookup env req st), P)"
| sys_begin: "capture_begin env req attempt st = (Inr (e, g), st') \<Longrightarrow> cache_step env (st, P) (st', (e, Some g) # P)"
| sys_begin_fails: "capture_begin env req attempt st = (Inl err, st') \<Longrightarrow> cache_step env (st, P) (st', P)"
| sys_check: "(e, Some g) \<in> set P \<Longrightarrow> capture_check g st = Inr () \<Longrightarrow>
    cache_step env (st, P) (st, (e, None) # remove1 (e, Some g) P)"
| sys_stale: "(e, Some g) \<in> set P \<Longrightarrow> capture_check g st = Inl err \<Longrightarrow> cache_step env (st, P) (st, remove1 (e, Some g) P)"
| sys_insert: "(e, None) \<in> set P \<Longrightarrow> cache_step env (st, P) (snd (capture_insert env e st), remove1 (e, None) P)"
| sys_replay: "(case rr_lease req of None \<Rightarrow> True | Some l \<Rightarrow> owns st l) \<Longrightarrow>
    replay env req (st, mem) = Some (r, st', mem') \<Longrightarrow> cache_step env (st, P) (st', P)"
| sys_release: "owns st l \<Longrightarrow> cache_step env (st, P) (snd (lease_release l st), P)"
| sys_invalidate: "cache_step env (st, P) (snd (invalidate env ireq st), P)"
| sys_pin: "cache_step env (st, P) (snd (pin i st), P)"
| sys_unpin: "cache_step env (st, P) (snd (unpin i st), P)"
| sys_evict: "cache_step env (st, P) (snd (evict env i st), P)"
| sys_unload: "cache_step env (st, P) (snd (unload env i st), P)"
| sys_persist: "cache_step env (st, P) (snd (persist_all env st), P)"
| sys_recover: "recover env st = Some (r, st') \<Longrightarrow> cache_step env (st, P) (st', P)"

text \<open>A run whose intermediate states all satisfy \<open>Q\<close>.\<close>

inductive cache_run :: "'x cache_env \<Rightarrow> ('x GraphCache \<Rightarrow> bool) \<Rightarrow> 'x cache_sys \<Rightarrow> 'x cache_sys \<Rightarrow> bool" for env Q where
  run_none: "cache_run env Q s s"
| run_step: "cache_run env Q s (st, P) \<Longrightarrow> Q st \<Longrightarrow> cache_step env (st, P) s' \<Longrightarrow> cache_run env Q s s'"

inductive_cases cache_stepE: "cache_step env (st, P) (st', P')"

definition pending_ok :: "'x pending \<Rightarrow> bool" where
  "pending_ok P \<longleftrightarrow> (\<forall>(e, g) \<in> set P. fresh_entry e)"

context cache_engine
begin

lemma cache_step_engine:
  assumes "cache_step env (st, P) (st', P')" and inv: "cache_inv st" and P: "pending_ok P"
  shows "engine_steps env st st' \<and> pending_ok P'"
proof (rule cache_stepE [OF assms(1)])
  fix req attempt e g assume "P' = (e, Some g) # P" "capture_begin env req attempt st = (Inr (e, g), st')"
  then show ?thesis
    using steps_capture_begin [OF engine_steps.stay, of st req attempt] capture_begin_fresh [of req attempt st e g] P
    by (simp add: pending_ok_def)
next
  fix req attempt err assume "P' = P" "capture_begin env req attempt st = (Inl err, st')"
  then show ?thesis using steps_capture_begin [OF engine_steps.stay, of st req attempt] P by simp
next
  fix e g assume "(e, Some g) \<in> set P" "st' = st" "P' = (e, None) # remove1 (e, Some g) P"
  then show ?thesis using P by (auto simp: pending_ok_def dest: set_remove1_subset [THEN subsetD])
next
  fix e g err assume "(e, Some g) \<in> set P" "st' = st" "P' = remove1 (e, Some g) P"
  then show ?thesis using P by (auto simp: pending_ok_def dest: set_remove1_subset [THEN subsetD])
next
  fix e assume "(e, None) \<in> set P" "st' = snd (capture_insert env e st)" "P' = remove1 (e, None) P"
  then show ?thesis
    using steps_insert_capture [OF engine_steps.stay, of e st] P
    by (auto simp: pending_ok_def dest: set_remove1_subset [THEN subsetD])
next
  fix req mem r mem' assume p: "P' = P" and held: "case rr_lease req of None \<Rightarrow> True | Some l \<Rightarrow> owns st l"
    and r: "replay env req (st, mem) = Some (r, st', mem')"
  have "engine_steps env st st'"
    by (rule steps_replay [OF inv engine_steps.stay r]) (use held in \<open>simp add: owns_def\<close>)
  then show ?thesis using P p by simp
next
  fix l assume "owns st l" "st' = snd (lease_release l st)" "P' = P"
  then show ?thesis using steps_release [OF engine_steps.stay, of l st] P by (auto simp: owns_def split: option.splits)
next
  fix r assume "P' = P" and r: "recover env st = Some (r, st')"
  then show ?thesis using steps_recover [OF r engine_steps.stay] P by simp
qed (use steps_lookup [OF inv engine_steps.stay] steps_invalidate [OF inv engine_steps.stay]
       steps_pin [OF inv engine_steps.stay] steps_persist_all [OF inv engine_steps.stay] P in simp_all)

lemma cache_run_engine:
  assumes "cache_run env Q (st, P) s'" and "cache_inv st" and "pending_ok P"
  shows "engine_steps env st (fst s') \<and> cache_inv (fst s') \<and> pending_ok (snd s')"
  using assms
proof (induction "(st, P)" s' rule: cache_run.induct)
  case (run_step st' P' s'')
  obtain st2 P2 where s2: "s'' = (st2, P2)" by fastforce
  have "engine_steps env st' st2 \<and> pending_ok P2"
    using cache_step_engine run_step s2 by simp
  then show ?case using run_step s2 engine_steps_inv engine_steps_trans by (metis fst_conv snd_conv)
qed auto

end

section \<open>Invalidation\<close>

text \<open>What every step keeps of an invalidated entry: its mark, and that no new lease refers to it.\<close>

definition shut_out :: "nat \<Rightarrow> nat \<Rightarrow> 'x GraphCache \<Rightarrow> bool" where
  "shut_out n a st \<longleftrightarrow> a < gc_next st \<and> en_invalidated (gc_heap st a) \<and> n \<le> gc_next_token st
     \<and> (\<forall>t. n \<le> t \<and> t < gc_next_token st \<longrightarrow> le_keep_alive (gc_tokens st t) \<noteq> Some a)"

lemma engine_step_shut_out: "engine_step env st st' \<Longrightarrow> shut_out n a st \<Longrightarrow> shut_out n a st'"
proof (induction rule: engine_step.induct)
  case (observe st st')
  then show ?case by (simp add: same_core_def shut_out_def)
next
  case (lease b st r)
  then show ?case by (auto simp: shut_out_def make_lease_effect less_Suc_eq)
next
  case (release t st)
  then show ?case unfolding release_token_def [symmetric]
    by (auto simp: shut_out_def release_token_effect split: option.splits)
qed (auto simp: shut_out_def counters_onlyD insert_entry_def)

lemma engine_steps_shut_out: "engine_steps env st st' \<Longrightarrow> shut_out n a st \<Longrightarrow> shut_out n a st'"
  by (induction rule: engine_steps.induct) (auto intro: engine_step_shut_out)

lemma invalidate_one_marks:
  "en_invalidated (gc_heap (snd (invalidate_one env strong (res, st) a)) b) \<longleftrightarrow> b = a \<or> en_invalidated (gc_heap st b)"
  by (auto simp: invalidate_one_def unload_entry_def Let_def case_prod_unfold)

lemma invalidate_fold_marks:
  "en_invalidated (gc_heap (snd (foldl (invalidate_one env strong) (res, st) as)) b)
     \<longleftrightarrow> b \<in> set as \<or> en_invalidated (gc_heap st b)"
proof (induction as arbitrary: res st)
  case (Cons a as)
  obtain res1 st1 where p: "invalidate_one env strong (res, st) a = (res1, st1)" by fastforce
  then show ?case using Cons.IH [of res1 st1] invalidate_one_marks [of env strong res st a b] by auto
qed simp

lemma invalidate_marks:
  "en_invalidated (gc_heap (snd (invalidate env req st)) b)
     \<longleftrightarrow> b \<in> set (invalidation_targets env req st) \<or> en_invalidated (gc_heap st b)"
proof -
  have "invalidation_targets env req (st\<lparr>gc_cache_gen := c\<rparr>) = invalidation_targets env req st" for c
    by (simp add: invalidation_targets_def)
  then show ?thesis by (simp add: invalidate_def Let_def case_prod_unfold invalidate_fold_marks)
qed

lemma unload_entry_frame [simp]:
  "gc_next_token (unload_entry env a st) = gc_next_token st" "gc_tokens (unload_entry env a st) = gc_tokens st"
  "gc_store (unload_entry env a st) = gc_store st" "gc_key_gen (unload_entry env a st) = gc_key_gen st"
  "gc_by_workload (unload_entry env a st) = gc_by_workload st" "gc_by_artifact (unload_entry env a st) = gc_by_artifact st"
  "gc_cache_gen (unload_entry env a st) = gc_cache_gen st" "gc_next (unload_entry env a st) = gc_next st"
  by (simp_all add: unload_entry_def Let_def case_prod_unfold)

definition same_frame :: "'x GraphCache \<Rightarrow> 'x GraphCache \<Rightarrow> bool" where
  "same_frame st st' \<longleftrightarrow> gc_next_token st' = gc_next_token st \<and> gc_tokens st' = gc_tokens st \<and> gc_store st' = gc_store st
     \<and> gc_key_gen st' = gc_key_gen st \<and> gc_by_workload st' = gc_by_workload st \<and> gc_by_artifact st' = gc_by_artifact st
     \<and> gc_cache_gen st' = gc_cache_gen st \<and> gc_next st' = gc_next st"

lemma invalidate_one_frame: "same_frame st (snd (invalidate_one env strong (res, st) a))"
  by (simp add: invalidate_one_def Let_def same_frame_def)

lemma invalidate_fold_frame: "same_frame st (snd (foldl (invalidate_one env strong) (res, st) as))"
proof (induction as arbitrary: res st)
  case (Cons a as)
  obtain res1 st1 where p: "invalidate_one env strong (res, st) a = (res1, st1)" by fastforce
  then show ?case using Cons.IH [of st1 res1] invalidate_one_frame [of st env strong res a] by (simp add: same_frame_def)
qed (simp add: same_frame_def)

lemma invalidate_frame:
  "same_frame (st\<lparr>gc_cache_gen := gc_cache_gen st + 1\<rparr>) (snd (invalidate env req st))"
  using invalidate_fold_frame [of "st\<lparr>gc_cache_gen := gc_cache_gen st + 1\<rparr>" env "ir_strong req"]
  by (simp add: invalidate_def Let_def case_prod_unfold same_frame_def)

text \<open>The entries an invalidation request names, through the index of artifacts.\<close>

definition targeted :: "InvalidationRequest \<Rightarrow> GraphArtifactId \<Rightarrow> 'x CacheEntry \<Rightarrow> bool" where
  "targeted req i e \<longleftrightarrow> (if ir_scope req = IS_ByArtifactId then ir_artifact req = i else in_scope req e)"

context cache_engine
begin

lemma targets_iff:
  assumes "cache_inv st" and "map_of (gc_by_artifact st) i = Some a"
  shows "targeted req i (gc_heap st a) \<Longrightarrow> a \<in> set (invalidation_targets env req st)"
  using assms(2) map_of_SomeD [OF assms(2)] mset_eq_setD [OF map_ord [of "gc_by_artifact st"]]
  by (force simp: targeted_def invalidation_targets_def split: if_splits)

lemma invalidated_shut_out:
  assumes inv: "cache_inv st" and "pending_ok P" and "map_of (gc_by_artifact st) i = Some a" and "targeted req i (gc_heap st a)"
    and "cache_run env Q (snd (invalidate env req st), P) (st', P')"
  shows "shut_out (gc_next_token (snd (invalidate env req st))) a st'"
proof -
  let ?st = "snd (invalidate env req st)"
  note s = steps_invalidate [OF inv engine_steps.stay, of req]
  have "cache_inv ?st" by (rule engine_steps_inv [OF s inv])
  then have run: "engine_steps env ?st st'" using cache_run_engine [OF assms(5)] assms(2) by simp
  have "a < gc_next st" using inv_by_artifact [OF inv map_of_SomeD [OF assms(3)]] by simp
  then have "a < gc_next ?st" using invalidate_frame [of st env req] by (simp add: same_frame_def)
  moreover have "en_invalidated (gc_heap ?st a)" using targets_iff [OF inv assms(3,4)] by (simp add: invalidate_marks)
  ultimately have "shut_out (gc_next_token ?st) a ?st" by (auto simp: shut_out_def)
  with run show ?thesis by (rule engine_steps_shut_out)
qed

end

text \<open>
  C2: In every state a run of the cache reaches (lookups, captures of other threads beginning and
  completing, replays, releases, invalidations, eviction, persistence and recovery in any order), the
  indexes agree with the entries, an entry's lifecycle and residency are those of its flags and handle,
  every lease token keeps a live entry, and, below \<open>2 ^ 64\<close> leases, each lease count is the number of
  unreleased leases on the entry and the global count their total.
\<close>

theorem reachable_cache_inv:
  assumes "cache_engine env" and "cache_new cfg b fs = Some st0" and "cache_run env Q (st0, []) (st, P)"
  shows "cache_inv st"
  using cache_engine.cache_run_engine [OF assms(1,3) cache_new_inv [OF assms(2)]] by (simp add: pending_ok_def)

text \<open>
  C3: Invalidation is immediate and permanent: once a request targets an artifact of the index, in every
  state any continuation of the run reaches, its entry is invalidated and no lease handed out since
  refers to it.
\<close>

theorem invalidation_permanent:
  assumes "cache_engine env" and "cache_new cfg b fs = Some st0" and "cache_run env Q (st0, []) (st, P)"
    and "map_of (gc_by_artifact st) i = Some a" and "targeted req i (gc_heap st a)"
    and "cache_run env R (snd (invalidate env req st), P) (st', P')"
  shows "en_invalidated (gc_heap st' a)
     \<and> (\<forall>t. gc_next_token st \<le> t \<and> t < gc_next_token st' \<longrightarrow> le_keep_alive (gc_tokens st' t) \<noteq> Some a)"
proof -
  have "cache_inv st" "pending_ok P"
    using cache_engine.cache_run_engine [OF assms(1,3) cache_new_inv [OF assms(2)]] by (simp_all add: pending_ok_def)
  from cache_engine.invalidated_shut_out [OF assms(1) this assms(4-6)] invalidate_frame [of st env req]
  show ?thesis by (simp add: shut_out_def same_frame_def)
qed

section \<open>Generations\<close>

lemma materialize_gen [simp]: "gc_cache_gen (snd (materialize_exec env a st)) = gc_cache_gen st"
  by (simp add: materialize_exec_def Let_def split: sum.splits)

lemma make_lease_gen [simp]: "gc_cache_gen (snd (make_lease a b st)) = gc_cache_gen st"
  by (simp add: make_lease_def Let_def)

lemma search_gen [simp]: "gc_cache_gen (snd (search_candidates env facts policy st)) = gc_cache_gen st"
  by (auto simp: search_candidates_def Let_def case_prod_unfold split: option.splits sum.splits)

lemma capture_gen [simp]:
  "gc_cache_gen (snd (capture_begin env req attempt st)) = gc_cache_gen st"
  "gc_cache_gen (snd (capture_insert env e st)) = gc_cache_gen st"
  by (auto simp: capture_begin_def capture_insert_def insert_entry_def Let_def case_prod_unfold split: sum.splits)

lemma publish_gen [simp]: "gc_cache_gen (snd (capture_publish env e g st)) = gc_cache_gen st"
  by (simp add: capture_publish_def split: sum.splits)

lemma capture_graph_gen [simp]: "gc_cache_gen (snd (capture_graph env req attempt st)) = gc_cache_gen st"
proof (cases "capture_begin env req attempt st")
  case (Pair r x)
  then have "gc_cache_gen x = gc_cache_gen st" using capture_gen(1) [of env req attempt st] by simp
  with Pair show ?thesis by (auto simp: capture_graph_def split: sum.splits)
qed

lemma single_flight_gen [simp]: "gc_cache_gen (snd (run_single_flight env req attempt st)) = gc_cache_gen st"
  by (simp add: run_single_flight_def Let_def case_prod_unfold)

lemma lookup_gen: "gc_cache_gen (snd (lookup env req st)) = gc_cache_gen st"
  by (auto simp: lookup_def Let_def case_prod_unfold split: sum.splits)

lemma replay_gen: "replay env req (st, mem) = Some (r, st', mem') \<Longrightarrow> gc_cache_gen st' = gc_cache_gen st"
  by (auto simp: replay_def Let_def case_prod_unfold split: option.splits if_splits sum.splits prod.splits)

lemma release_gen: "gc_cache_gen (snd (lease_release l st)) = gc_cache_gen st"
  by (auto simp: lease_release_def release_fn_def Let_def split: option.splits)

lemma pin_gen:
  "gc_cache_gen (snd (pin i st)) = gc_cache_gen st" "gc_cache_gen (snd (unpin i st)) = gc_cache_gen st"
  "gc_cache_gen (snd (evict env i st)) = gc_cache_gen st" "gc_cache_gen (snd (unload env i st)) = gc_cache_gen st"
  by (auto simp: pin_def unpin_def evict_def unload_def Let_def split: option.splits)

lemma persist_gen: "gc_cache_gen (snd (persist_all env st)) = gc_cache_gen st"
proof -
  have "gc_cache_gen (snd (persist_loop env as st)) = gc_cache_gen st" for as st
    by (induction as arbitrary: st) (auto simp: Let_def case_prod_unfold split: sum.splits)
  then show ?thesis by (auto simp: persist_all_def Let_def case_prod_unfold split: option.splits sum.splits)
qed

lemma load_gen: "load_entry env i st = Some (r, st') \<Longrightarrow> gc_cache_gen st' = gc_cache_gen st"
  by (auto simp: load_entry_def Let_def split: option.splits sum.splits)

lemma recover_loop_gen: "recover_loop env is (r, c, st) = Some (r', c', st') \<Longrightarrow> gc_cache_gen st' = gc_cache_gen st"
proof (induction "is" arbitrary: r c st)
  case (Cons i "is")
  have "gc_cache_gen (recover_entry e x) = gc_cache_gen x" for e and x :: "'a GraphCache"
    by (simp add: recover_entry_def insert_entry_def Let_def)
  with Cons show ?case by (fastforce split: option.splits sum.splits dest: load_gen)
qed simp

lemma recover_gen: "recover env st = Some (r, st') \<Longrightarrow> gc_cache_gen st \<le> gc_cache_gen st'"
  by (auto simp: recover_def bump_generations_def Let_def case_prod_unfold split: option.splits if_splits
      dest!: recover_loop_gen)

lemma succ_greater:
  assumes "(x :: u64) \<noteq> - 1"
  shows "x < x + 1"
proof -
  have "unat x < 2 ^ 64" using unsigned_less [of x] by simp
  moreover have "unat x \<noteq> 2 ^ 64 - 1"
  proof
    assume "unat x = 2 ^ 64 - 1"
    then have "word_of_nat (unat x) = (word_of_nat (2 ^ 64 - 1) :: u64)" by (rule arg_cong)
    with assms show False by simp
  qed
  ultimately have "unat (x + 1) = unat x + 1" by (intro unat_succ) simp
  then show ?thesis by (simp add: word_less_nat_alt)
qed

lemma cache_step_gen:
  assumes "cache_step env (st, P) (st', P')" and "gc_cache_gen st \<noteq> - 1"
  shows "gc_cache_gen st \<le> gc_cache_gen st'"
proof (rule cache_stepE [OF assms(1)])
  fix req attempt e g assume "capture_begin env req attempt st = (Inr (e, g), st')"
  then show ?thesis using capture_gen(1) [of env req attempt st] by simp
next
  fix req attempt err assume "capture_begin env req attempt st = (Inl err, st')"
  then show ?thesis using capture_gen(1) [of env req attempt st] by simp
next
  fix ireq assume "st' = snd (invalidate env ireq st)"
  then have "gc_cache_gen st' = gc_cache_gen st + 1" using invalidate_frame [of st env ireq] by (simp add: same_frame_def)
  then show ?thesis using succ_greater [OF assms(2)] by simp
qed (simp_all add: lookup_gen replay_gen release_gen pin_gen persist_gen recover_gen)

text \<open>Runs during which the cache generation does not wrap.\<close>

definition unwrapped :: "'x GraphCache \<Rightarrow> bool" where
  "unwrapped st \<longleftrightarrow> gc_cache_gen st \<noteq> - 1"

lemma cache_run_gen:
  "cache_run env unwrapped s s' \<Longrightarrow> gc_cache_gen (fst s) \<le> gc_cache_gen (fst s')"
proof (induction rule: cache_run.induct)
  case (run_step s st P s')
  then have "gc_cache_gen st \<le> gc_cache_gen (fst s')"
    using cache_step_gen [of env st P "fst s'" "snd s'"] by (simp add: unwrapped_def)
  with run_step show ?case by simp
qed simp

text \<open>
  C17: A capture that began before an invalidation and whose staleness check runs after it is refused:
  whatever other operations run between its start and the invalidation and between the invalidation
  and the check, the check fails with \<open>StaleCompletion\<close>, and publishing, taken as the check and the insertion
  in one step, changes nothing (as long as the 64-bit cache generation does not wrap around). The code makes
  the check and the insertion in two critical sections; an invalidation between them is missed
  (\<open>stale_capture_race\<close>).
\<close>

theorem stale_capture_rejected:
  assumes "capture_begin env req attempt st = (Inr (e, g), st1)"
    and "cache_run env unwrapped (st1, P1) (st2, P2)" and "unwrapped st2"
    and "cache_run env unwrapped (snd (invalidate env ireq st2), P2) (st3, P3)"
  shows "capture_check g st3 = failure EC_StaleCompletion ''cache generation rolled during capture''
    \<and> capture_publish env e g st3 = (failure EC_StaleCompletion ''cache generation rolled during capture'', st3)"
proof -
  have "gc_cache_gen st1 = g" using capture_begin_frame [OF assms(1)] by simp
  moreover have "gc_cache_gen st1 \<le> gc_cache_gen st2" using cache_run_gen [OF assms(2)] by simp
  moreover have "gc_cache_gen (snd (invalidate env ireq st2)) = gc_cache_gen st2 + 1"
    using invalidate_frame [of st2 env ireq] by (simp add: same_frame_def)
  moreover have "gc_cache_gen (snd (invalidate env ireq st2)) \<le> gc_cache_gen st3" using cache_run_gen [OF assms(4)] by simp
  moreover have "gc_cache_gen st2 < gc_cache_gen st2 + 1" using assms(3) by (intro succ_greater) (simp add: unwrapped_def)
  ultimately have "gc_cache_gen st3 \<noteq> g" by auto
  then show ?thesis by (simp add: capture_publish_def capture_check_def)
qed

section \<open>Eviction, shadowing and restarts\<close>

text \<open>No operation ever makes an entry backend-resident, so that eviction and unloading have nothing to free.\<close>

lemma eviction_heap:
  assumes "cache_inv st"
  shows "gc_heap (snd (evict env i st)) = gc_heap st" and "gc_by_artifact (snd (evict env i st)) = gc_by_artifact st"
    and "gc_heap (snd (unload env i st)) = gc_heap st"
proof -
  have "en_residency (gc_heap st a) \<noteq> RT_BackendResident" if "map_of (gc_by_artifact st) i = Some a" for a
    using inv_by_artifact [OF assms map_of_SomeD [OF that]] inv_residency [OF assms] by simp
  then show "gc_heap (snd (evict env i st)) = gc_heap st" "gc_by_artifact (snd (evict env i st)) = gc_by_artifact st"
    "gc_heap (snd (unload env i st)) = gc_heap st" by (auto simp: evict_def unload_def Let_def split: option.splits)
qed

text \<open>
  C18: A leased graph is never evicted or unloaded. In every reachable state, as long as one lease on an
  entry is not released, \<open>evict\<close> and \<open>unload\<close> of any artifact whatsoever leave
  that entry, with its executable, its residency and its counts, as it is; and when the index of artifacts
  holds that entry (below \<open>2 ^ 64\<close> leases), \<open>evict\<close> and \<open>unload\<close> of
  its artifact fail and change nothing. When the index holds a newer entry of the same artifact, captured
  for another workload, the two operations act on that one, and the lease on the older entry does not make
  them fail.
\<close>

theorem leased_never_evicted:
  assumes "cache_engine env" and "cache_new cfg b fs = Some st0" and "cache_run env Q (st0, []) (st, P)"
    and "t < gc_next_token st" and "gc_tokens st t = \<lparr>le_keep_alive = Some a, le_released = False\<rparr>"
  shows "gc_heap (snd (evict env i st)) a = gc_heap st a \<and> gc_heap (snd (unload env i st)) a = gc_heap st a
     \<and> (map_of (gc_by_artifact st) i = Some a \<and> gc_next_token st < 2 ^ 64 \<longrightarrow>
          evict env i st = (failure EC_EvictionImpossible ''graph is pinned or leased'', st)
        \<and> unload env i st = (failure EC_NotResident ''cannot unload while leased'', st))"
proof -
  have inv: "cache_inv st"
    using cache_engine.cache_run_engine [OF assms(1,3) cache_new_inv [OF assms(2)]] by (simp add: pending_ok_def)
  have "t \<in> leases_on st a" using assms(4,5) by (simp add: leases_on_def live_tokens_def)
  then have "0 < card (leases_on st a)" by (auto simp: card_gt_0_iff)
  moreover have "unat (en_lease_count (gc_heap st a)) = card (leases_on st a)"
    if "map_of (gc_by_artifact st) i = Some a" and "gc_next_token st < 2 ^ 64"
    using inv inv_by_artifact [OF inv map_of_SomeD [OF that(1)]] that(2) by (simp add: cache_inv_def leases_ok_def)
  ultimately have "en_lease_count (gc_heap st a) > 0"
    if "map_of (gc_by_artifact st) i = Some a" and "gc_next_token st < 2 ^ 64"
    using that by (intro word_pos) auto
  then show ?thesis using eviction_heap [OF inv] by (auto simp: evict_def unload_def)
qed

text \<open>
  Eviction and unloading free nothing: in every reachable state they leave every entry, with its executable
  and its residency, as it was.
\<close>

theorem eviction_frees_nothing:
  assumes "cache_engine env" and "cache_new cfg b fs = Some st0" and "cache_run env Q (st0, []) (st, P)"
  shows "gc_heap (snd (evict env i st)) = gc_heap st \<and> gc_by_artifact (snd (evict env i st)) = gc_by_artifact st
     \<and> gc_heap (snd (unload env i st)) = gc_heap st"
proof -
  have "cache_inv st"
    using cache_engine.cache_run_engine [OF assms(1,3) cache_new_inv [OF assms(2)]] by (simp add: pending_ok_def)
  from eviction_heap [OF this] show ?thesis by simp
qed

text \<open>
  An entry whose artifact has been captured again, for another workload, is out of reach of every
  invalidation request: only entries in the index of artifacts are considered, and that index holds the
  newest entry of an artifact. It stays servable to its own workload after \<open>invalidate_all\<close>.
\<close>

theorem shadowed_entry_survives_invalidation:
  assumes "cache_engine env" and "cache_inv st" and "a < gc_next st"
    and "map_of (gc_by_artifact st) (en_artifact (gc_heap st a)) \<noteq> Some a" and "\<not> en_invalidated (gc_heap st a)"
  shows "\<not> en_invalidated (gc_heap (snd (invalidate env req st)) a)
    \<and> (\<exists>as. gc_by_workload (snd (invalidate env req st)) (workload_key (en_workload (gc_heap st a))) = Some as \<and> a \<in> set as)"
proof -
  have "a \<notin> set (invalidation_targets env req st)"
  proof
    assume "a \<in> set (invalidation_targets env req st)"
    then obtain i where "(i, a) \<in> set (gc_by_artifact st)"
      using mset_eq_setD [OF cache_engine.map_ord [OF assms(1), of "gc_by_artifact st"]]
      by (auto simp: invalidation_targets_def split: if_splits option.splits dest: map_of_SomeD [OF sym])
    moreover from this have "i = en_artifact (gc_heap st a)" using inv_by_artifact [OF assms(2)] by simp
    moreover have "distinct (map fst (gc_by_artifact st))" using assms(2) by (simp add: cache_inv_def indexes_ok_def)
    ultimately show False using assms(4) by simp
  qed
  moreover have "\<exists>as. gc_by_workload st (workload_key (en_workload (gc_heap st a))) = Some as \<and> a \<in> set as"
    using assms(2,3) unfolding cache_inv_def indexes_ok_def by blast
  ultimately show ?thesis
    using assms(5) invalidate_frame [of st env req] by (simp add: invalidate_marks same_frame_def)
qed

text \<open>
  Invalidation is not persisted: it leaves the store as it is, so a graph whose stored record is
  valid comes back, replay-eligible, when an engine starts on that directory and recovers, even after
  every graph of the old engine was invalidated.
\<close>

theorem revocation_lost_on_restart:
  assumes "gc_store st = Some (s, fs)" and "ps_version s = kFormatVersion"
    and "recoverable s fs i = Some (e :: 'x CacheEntry)" and "\<not> en_invalidated e"
    and key: "\<And>j e. recoverable s fs j = Some (e :: 'x CacheEntry) \<Longrightarrow> en_artifact e = j"
    and opn: "\<And>n. env_open env n" and fin: "finite (dom fs)" and dir: "\<And>fs. finite (dom fs) \<Longrightarrow> set (env_dir env fs) = dom fs"
    and cfg: "cfg_enable_persistence cfg"
  shows "\<exists>st0 st2. gc_store (snd (invalidate_all env st)) = Some (s, fs)
     \<and> cache_new cfg (Some b) fs = Some (st0 :: 'x GraphCache) \<and> recover env st0 = Some (success (), st2)
     \<and> index_view st2 i = Some e \<and> lifecycle_is_replay_eligible (en_lifecycle e)"
proof -
  have keep: "gc_store (snd (invalidate_all env st)) = Some (s, fs)"
    using invalidate_frame [of st env] assms(1) by (simp add: invalidate_all_def same_frame_def)
  obtain st0 :: "'x GraphCache" where st0: "cache_new cfg (Some b) fs = Some st0" by (simp add: cache_new_def)
  let ?s = "\<lparr>ps_dir = cfg_persistence_dir cfg, ps_version = kFormatVersion\<rparr>"
  have s0: "gc_store st0 = Some (?s, fs)" using st0 cfg by (auto simp: cache_new_def)
  have rec: "recoverable ?s fs = (recoverable s fs :: _ \<Rightarrow> 'x CacheEntry option)"
    using contents_version [of ?s s fs] assms(2) by (simp add: recoverable_def fun_eq_iff)
  have v: "ps_version ?s \<noteq> 32" by (simp add: kFormatVersion_def)
  obtain st2 where r: "recover env st0 = Some (success (), st2)" "index_view st2 = index_view st0 ++ recoverable ?s fs"
    using recover_spec [OF s0 v opn cache_new_inv [OF st0] key [folded rec] fin dir] by blast
  moreover have "fresh_entry e"
    using assms(3) by (auto simp: recoverable_def bind_eq_Some_conv dest: decode_fresh)
  ultimately show ?thesis
    using keep st0 assms(3,4) rec by (auto simp: fresh_entry_def lifecycle_is_replay_eligible_def map_add_def)
qed

section \<open>A concrete run\<close>

lemma example_begin:
  "\<exists>e g st1. capture_begin example_env example_request (CaptureAttemptId 1) example_cache = (success (e, g), st1)
     \<and> en_exec e \<noteq> None \<and> gc_next st1 = 0 \<and> gc_by_artifact st1 = [] \<and> gc_cache_gen st1 = 1
     \<and> gc_next_token st1 = 0 \<and> en_artifact e = g_artifact (finalized (rq_descriptor example_request))"
proof -
  obtain desc h where d: "finalize rev (rq_descriptor example_request) = success desc"
    and "be_capture (env_backend example_env) desc (CaptureAttemptId 1) = success h"
    using example_request_captures by blast
  moreover have "desc = finalized (rq_descriptor example_request)" using d finalize_Inr [OF d] by (simp add: finalize_eq)
  ultimately obtain e g st1 where b: "capture_begin example_env example_request (CaptureAttemptId 1) example_cache = (success (e, g), st1)"
      and h: "en_exec e \<noteq> None" "en_artifact e = g_artifact (finalized (rq_descriptor example_request))"
    using cache_engine.capture_runs [OF cpu_engine_example(1), of example_request desc "CaptureAttemptId 1" h example_cache]
    by (auto simp: example_env_def)
  then show ?thesis
    using capture_begin_frame [OF b] by (auto simp: same_core_def example_cache_def cache_new_def)
qed

lemma insert_index:
  "gc_by_artifact (snd (capture_insert env e st)) = AList.update (en_artifact e) (gc_next st) (gc_by_artifact st)"
  "gc_next (snd (capture_insert env e st)) = Suc (gc_next st)"
  "gc_next_token (snd (capture_insert env e st)) = gc_next_token st"
  "b \<noteq> gc_next st \<Longrightarrow> gc_heap (snd (capture_insert env e st)) b = gc_heap st b"
  by (auto simp: capture_insert_def insert_entry_def Let_def case_prod_unfold)

lemma run_capture:
  assumes "cache_run env (\<lambda>_. True) s (st, P)" and b: "capture_begin env req attempt st = (success (e, g), st1)"
  shows "cache_run env (\<lambda>_. True) s (snd (capture_insert env e st1), P)"
proof -
  have "capture_check g st1 = success ()" using capture_begin_frame(3) [OF b] by (simp add: capture_check_def)
  then have "cache_run env (\<lambda>_. True) s (st1, (e, None) # P)"
    using run_step [OF run_step [OF assms(1) TrueI sys_begin [OF b]] TrueI sys_check [of e g]] by simp
  from run_step [OF this TrueI sys_insert [of e]] show ?thesis by simp
qed

definition example_published :: "CpuGraph GraphCache" where
  "example_published = (case capture_begin example_env example_request (CaptureAttemptId 1) example_cache of
     (Inr (e, g), st1) \<Rightarrow> snd (capture_insert example_env e st1) | (Inl _, st1) \<Rightarrow> st1)"

lemma example_published:
  "cache_run example_env (\<lambda>_. True) (example_cache, []) (example_published, [])"
  "gc_next example_published = 1"
  "gc_by_artifact example_published = [(g_artifact (finalized (rq_descriptor example_request)), 0)]"
  "gc_next_token example_published = 0"
  "served example_published (make_facts example_request) (rq_policy example_request) 0"
proof -
  obtain e g st1 where b: "capture_begin example_env example_request (CaptureAttemptId 1) example_cache = (success (e, g), st1)"
    and f: "en_exec e \<noteq> None" "gc_next st1 = 0" "gc_by_artifact st1 = []" "gc_next_token st1 = 0"
      "en_artifact e = g_artifact (finalized (rq_descriptor example_request))" using example_begin by blast
  have p: "example_published = snd (capture_insert example_env e st1)" by (simp add: example_published_def b)
  show "cache_run example_env (\<lambda>_. True) (example_cache, []) (example_published, [])"
    unfolding p by (rule run_capture [OF run_none b])
  show "gc_next example_published = 1" "gc_next_token example_published = 0"
    "gc_by_artifact example_published = [(g_artifact (finalized (rq_descriptor example_request)), 0)]"
    unfolding p using f by (simp_all add: insert_index)
  show "served example_published (make_facts example_request) (rq_policy example_request) 0"
    unfolding p using inserted_served(1) [OF capture_begin_frame(5-8) [OF b] example_request_facts(1) f(1)] f(2) by metis
qed

lemma example_published_inv: "cache_inv example_published"
  using cache_engine.cache_run_engine [OF cpu_engine_example(1) example_published(1) cache_new_inv [OF example_cache_new]]
  by (simp add: pending_ok_def)

lemma search_frame:
  "gc_next (snd (search_candidates env facts policy st)) = gc_next st"
  "gc_by_artifact (snd (search_candidates env facts policy st)) = gc_by_artifact st"
  "gc_next_token (snd (search_candidates env facts policy st)) \<le> gc_next_token st + 1"
  by (auto simp: search_candidates_def materialize_exec_def Let_def case_prod_unfold make_lease_effect split: option.splits sum.splits)

text \<open>The lookup after the capture leases the one entry.\<close>

definition example_leased :: "CpuGraph GraphCache" where
  "example_leased = snd (lookup example_env example_request example_published)"

lemma example_leased:
  "cache_run example_env (\<lambda>_. True) (example_cache, []) (example_leased, [])"
  "gc_by_artifact example_leased = [(g_artifact (finalized (rq_descriptor example_request)), 0)]"
  "gc_next_token example_leased \<le> 1"
  "\<exists>t < gc_next_token example_leased. gc_tokens example_leased t = \<lparr>le_keep_alive = Some 0, le_released = False\<rparr>"
proof -
  show "cache_run example_env (\<lambda>_. True) (example_cache, []) (example_leased, [])"
    unfolding example_leased_def by (rule run_step [OF example_published(1) TrueI sys_lookup])
  obtain res where l: "lookup example_env example_request example_published = (res, example_leased)"
    unfolding example_leased_def by (metis prod.collapse)
  note inv = example_published_inv
  have hit: "lr_hit res" "\<not> lr_capture_started res" using lookup_served [OF inv example_published(5) l] by simp_all
  then obtain le where le: "lr_lease res = Some le" by (auto simp: lr_hit_def)
  from l have frame: "gc_next example_leased = gc_next example_published \<and> gc_by_artifact example_leased = gc_by_artifact example_published
      \<and> gc_next_token example_leased \<le> gc_next_token example_published + 1"
  proof (cases rule: lookup_cases)
    case (first cand st2)
    obtain start where l: "example_leased = finish_hit example_env cand example_request start st2" using first(4) ..
    have "gc_next st2 = gc_next example_published" "gc_by_artifact st2 = gc_by_artifact example_published"
      "gc_next_token st2 \<le> gc_next_token example_published + 1"
      using search_frame [of example_env "make_facts example_request" "rq_policy example_request"
          "lookup_start example_env example_request example_published"] first(1)
        lookup_start_frame(1) [of example_published example_env example_request]
      by (simp_all add: same_core_def)
    then show ?thesis unfolding l by simp
  next
    case captured
    then show ?thesis using hit(2) by simp
  next
    case miss
    then show ?thesis using le by simp
  qed
  then show "gc_by_artifact example_leased = [(g_artifact (finalized (rq_descriptor example_request)), 0)]"
    "gc_next_token example_leased \<le> 1" using example_published(3,4) by simp_all
  from cache_engine.lookup_lease [OF cpu_engine_example(1) inv l le]
  obtain a where "a < gc_next example_leased" "\<exists>t < gc_next_token example_leased. gc_tokens example_leased t = \<lparr>le_keep_alive = Some a, le_released = False\<rparr>"
    by (auto simp: lease_on_def Let_def)
  with frame example_published(2)
  show "\<exists>t < gc_next_token example_leased. gc_tokens example_leased t = \<lparr>le_keep_alive = Some 0, le_released = False\<rparr>" by simp
qed

theorem reachable_cache_inv_witness: "cache_inv example_leased"
  by (rule reachable_cache_inv [OF cpu_engine_example(1) example_cache_new example_leased(1)])

theorem eviction_frees_nothing_witness:
  "gc_heap (snd (evict example_env (GraphArtifactId 1 2) example_published)) = gc_heap example_published"
  using eviction_frees_nothing [OF cpu_engine_example(1) example_cache_new example_published(1)] by simp

theorem leased_never_evicted_witness:
  "let i = g_artifact (finalized (rq_descriptor example_request)) in
   evict example_env i example_leased = (failure EC_EvictionImpossible ''graph is pinned or leased'', example_leased)
   \<and> gc_heap (snd (evict example_env (GraphArtifactId 1 2) example_leased)) 0 = gc_heap example_leased 0"
proof -
  obtain t where t: "t < gc_next_token example_leased" "gc_tokens example_leased t = \<lparr>le_keep_alive = Some 0, le_released = False\<rparr>"
    using example_leased(4) by blast
  note th = leased_never_evicted [OF cpu_engine_example(1) example_cache_new example_leased(1) t]
  from th [of "g_artifact (finalized (rq_descriptor example_request))"] th [of "GraphArtifactId 1 2"] example_leased(2,3)
  show ?thesis by (simp add: Let_def)
qed

theorem invalidation_permanent_witness:
  "en_invalidated (gc_heap (snd (pin (GraphArtifactId 1 2) (snd (invalidate_all example_env example_published)))) 0)"
proof -
  let ?req = "InvalidationRequest_default\<lparr>ir_scope := IS_ByAll\<rparr>"
  have "cache_run example_env (\<lambda>_. True) (snd (invalidate example_env ?req example_published), [])
      (snd (pin (GraphArtifactId 1 2) (snd (invalidate example_env ?req example_published))), [])"
    by (rule run_step [OF run_none TrueI sys_pin])
  from invalidation_permanent [OF cpu_engine_example(1) example_cache_new example_published(1) _ _ this,
      of "g_artifact (finalized (rq_descriptor example_request))" 0]
  show ?thesis by (simp add: example_published(3) targeted_def in_scope_def invalidate_all_def)
qed

theorem stale_capture_rejected_witness:
  "\<exists>e g st1. capture_begin example_env example_request (CaptureAttemptId 1) example_cache = (success (e, g), st1)
     \<and> (let st2 = snd (invalidate_all example_env st1) in
        capture_publish example_env e g st2 = (failure EC_StaleCompletion ''cache generation rolled during capture'', st2))"
proof -
  obtain e g st1 where b: "capture_begin example_env example_request (CaptureAttemptId 1) example_cache = (success (e, g), st1)"
    and g: "gc_cache_gen st1 = 1" using example_begin by blast
  have "unwrapped st1" using g by (simp add: unwrapped_def)
  from stale_capture_rejected [OF b run_none this run_none] b show ?thesis by (auto simp: invalidate_all_def Let_def)
qed

theorem shadowed_entry_survives_invalidation_witness:
  "\<exists>st. cache_run example_env (\<lambda>_. True) (example_cache, []) (st, [])
     \<and> \<not> en_invalidated (gc_heap (snd (invalidate_all example_env st)) 0)"
proof -
  let ?req = "example_request\<lparr>rq_workload := WorkloadIdentity_default\<lparr>wl_name := ''prefill''\<rparr>\<rparr>"
  let ?i = "g_artifact (finalized (rq_descriptor example_request))"
  obtain desc where d: "finalize rev (rq_descriptor ?req) = success desc"
    and "\<forall>attempt. \<exists>h. be_capture (env_backend example_env) desc attempt = success h"
    using example_request_captures by auto
  then obtain h where c: "be_capture (env_backend example_env) desc (CaptureAttemptId 2) = success h" by blast
  have desc: "desc = finalized (rq_descriptor example_request)" using d finalize_Inr [OF d] by (simp add: finalize_eq)
  have ord: "env_node_ord example_env = rev" by (simp add: example_env_def)
  obtain e g st1 where b: "capture_begin example_env ?req (CaptureAttemptId 2) example_published = (success (e, g), st1)"
      and art: "en_artifact e = ?i"
    using cache_engine.capture_runs [OF cpu_engine_example(1) d [folded ord] _ c, of example_published] desc ord by auto
  note f = capture_begin_frame [OF b]
  let ?st = "snd (capture_insert example_env e st1)"
  have run: "cache_run example_env (\<lambda>_. True) (example_cache, []) (?st, [])" by (rule run_capture [OF example_published(1) b])
  then have inv: "cache_inv ?st"
    using cache_engine.cache_run_engine [OF cpu_engine_example(1) _ cache_new_inv [OF example_cache_new]] by (fastforce simp: pending_ok_def)
  have n: "gc_next st1 = 1" "gc_heap st1 = gc_heap example_published" "gc_by_artifact st1 = [(?i, 0)]"
    using f(1) example_published(2,3) by (simp_all add: same_core_def)
  have h0: "gc_heap ?st 0 = gc_heap example_published 0" using insert_index(4) [of 0 st1 example_env e] n by simp
  have idx: "gc_by_artifact ?st = [(?i, 1)]" "gc_next ?st = 2" using n art by (simp_all add: insert_index)
  have "\<not> en_invalidated (gc_heap ?st 0)" unfolding h0
    using example_published(5) by (auto simp: served_def exact_def selectable_def Let_def)
  moreover have "en_artifact (gc_heap ?st 0) = ?i"
    unfolding h0 using inv_by_artifact [OF example_published_inv, of ?i 0] example_published(3) by simp
  ultimately have "\<not> en_invalidated (gc_heap (snd (invalidate_all example_env ?st)) 0)"
    using shadowed_entry_survives_invalidation [OF cpu_engine_example(1) inv, of 0] idx by (simp add: invalidate_all_def)
  with run show ?thesis by blast
qed

theorem revocation_lost_on_restart_witness:
  "let s = \<lparr>ps_dir = [], ps_version = kFormatVersion\<rparr>;
       fs = snd (store_put s Map.empty (GraphArtifactId 1 2) (encode_entry_payload (example_entry False)) PutOk)
   in \<exists>st0 st2 e. gc_store (snd (invalidate_all recovery_env (example_cache\<lparr>gc_store := Some (s, fs)\<rparr>))) = Some (s, fs)
     \<and> cache_new (GraphCacheConfig_default\<lparr>cfg_enable_persistence := True\<rparr>) (Some ()) fs = Some (st0 :: CpuGraph GraphCache)
     \<and> recover recovery_env st0 = Some (success (), st2) \<and> index_view st2 (GraphArtifactId 1 2) = Some e \<and> \<not> en_invalidated e"
proof -
  let ?s = "\<lparr>ps_dir = [], ps_version = kFormatVersion\<rparr>" and ?i = "GraphArtifactId 1 2"
  let ?p = "encode_entry_payload (example_entry False)"
  let ?fs = "snd (store_put ?s Map.empty ?i ?p PutOk)"
  let ?e = "restored_entry (descriptor_view (en_descriptor (example_entry False))) (md_of (example_entry False)) :: CpuGraph CacheEntry"
  have "store_contents ?s Map.empty = Map.empty" by (simp add: store_contents_def store_get_def fun_eq_iff)
  moreover have "length ?p + 16 < 2 ^ 32" using example_entry_storable by (simp add: entry_storable_def)
  ultimately have c: "store_contents ?s ?fs = [?i \<mapsto> ?p]" using store.put_law [of ?p ?s Map.empty ?i] by (simp del: fun_upd_apply)
  have rec: "recoverable ?s ?fs = [?i \<mapsto> ?e]"
    using decode_encode_payload [OF example_entry_storable] by (simp add: recoverable_def c fun_eq_iff)
  have art: "en_artifact (example_entry False) = ?i" by (simp add: example_entry_def)
  have key: "en_artifact e = j" if "recoverable ?s ?fs j = Some (e :: CpuGraph CacheEntry)" for j e
    using that art unfolding rec by (auto simp: md_of_def split: if_splits)
  have inv: "\<not> en_invalidated ?e" by (simp add: md_of_def example_entry_def)
  have "\<exists>st0 st2. gc_store (snd (invalidate_all recovery_env (example_cache\<lparr>gc_store := Some (?s, ?fs)\<rparr>))) = Some (?s, ?fs)
     \<and> cache_new (GraphCacheConfig_default\<lparr>cfg_enable_persistence := True\<rparr>) (Some ()) ?fs = Some (st0 :: CpuGraph GraphCache)
     \<and> recover recovery_env st0 = Some (success (), st2) \<and> index_view st2 ?i = Some ?e \<and> lifecycle_is_replay_eligible (en_lifecycle ?e)"
    by (rule revocation_lost_on_restart [OF _ _ _ inv key])
       (use rec in \<open>simp_all add: recovery_env_def example_env_def store_put_def Let_def\<close>)
  with inv show ?thesis unfolding Let_def by blast
qed

text \<open>
  The check and the insertion are separate critical sections, and an invalidation that falls between
  them goes unnoticed: in this run a capture begins and passes the check, every graph is then
  invalidated, and the capture still publishes an entry that is served afterwards.
\<close>

theorem stale_capture_race:
  "\<exists>e g st1. capture_begin example_env example_request (CaptureAttemptId 1) example_cache = (success (e, g), st1)
     \<and> capture_check g st1 = success ()
     \<and> (let st2 = snd (invalidate_all example_env st1); st3 = snd (capture_insert example_env e st2) in
        cache_run example_env (\<lambda>_. True) (example_cache, []) (st3, [])
        \<and> served st3 (make_facts example_request) (rq_policy example_request) (gc_next st2)
        \<and> \<not> en_invalidated (gc_heap st3 (gc_next st2)))"
proof -
  obtain e g st1 where b: "capture_begin example_env example_request (CaptureAttemptId 1) example_cache = (success (e, g), st1)"
    and h: "en_exec e \<noteq> None" using example_begin by blast
  have c: "capture_check g st1 = success ()" using capture_begin_frame(3) [OF b] by (simp add: capture_check_def)
  let ?st2 = "snd (invalidate_all example_env st1)" and ?st3 = "snd (capture_insert example_env e (snd (invalidate_all example_env st1)))"
  have "cache_run example_env (\<lambda>_. True) (example_cache, []) (st1, [(e, Some g)])"
    by (rule run_step [OF run_none TrueI sys_begin [OF b]])
  from run_step [OF this TrueI sys_check [OF _ c, of e]]
  have "cache_run example_env (\<lambda>_. True) (example_cache, []) (st1, [(e, None)])" by simp
  from run_step [OF this TrueI sys_invalidate]
  have "cache_run example_env (\<lambda>_. True) (example_cache, []) (?st2, [(e, None)])" by (simp only: invalidate_all_def)
  from run_step [OF this TrueI sys_insert [of e]] have "cache_run example_env (\<lambda>_. True) (example_cache, []) (?st3, [])" by simp
  moreover have sv: "served ?st3 (make_facts example_request) (rq_policy example_request) (gc_next ?st2)"
    by (rule inserted_served(1) [OF capture_begin_frame(5-8) [OF b] example_request_facts(1) h])
  moreover have "\<not> en_invalidated (gc_heap ?st3 (gc_next ?st2))"
    using sv by (auto simp: served_def exact_def selectable_def Let_def)
  ultimately show ?thesis using b c by (auto simp: Let_def)
qed

end
