(* ===== verification/GC_Observe.thy ===== *)
theory GC_Observe
  imports GC_CacheSystem
begin

text \<open>
  Observability of the engine (\<open>src/cache.cpp\<close>): \<open>metrics\<close>, \<open>snapshot\<close>, \<open>explain\<close> and \<open>events\<close>, as
  functions of the engine's state.
\<close>

section \<open>Definitions\<close>

definition metrics :: "'x cache_env \<Rightarrow> 'x GraphCache \<Rightarrow> Metrics" where
  "metrics env st =
     (let resident = foldl (\<lambda>n (i, a). if en_residency (gc_heap st a) = RT_BackendResident then n + 1 else n) 0
            (env_map_ord env (gc_by_artifact st))
      in (gc_metrics st)\<lparr>m_backend_resident_count := resident, m_active_leases := gc_active_leases st,
           m_active_captures := gc_active_captures st, m_active_replays := gc_active_replays st\<rparr>)"

record Snapshot =
  ss_graphs_total :: u64
  ss_by_lifecycle :: "u64 list"
  ss_by_residency :: "u64 list"
  ss_active_captures :: u64
  ss_active_validations :: u64
  ss_active_loads :: u64
  ss_active_leases :: u64
  ss_active_replays :: u64
  ss_metrics :: Metrics

text \<open>Counting in a fixed array; an index outside it is skipped.\<close>

definition bump_at :: "int \<Rightarrow> u64 list \<Rightarrow> u64 list" where
  "bump_at i xs = (if i \<ge> 0 \<and> i < int (length xs) then xs[nat i := xs ! nat i + 1] else xs)"

definition count_entry :: "'x GraphCache \<Rightarrow> u64 \<times> u64 list \<times> u64 list \<Rightarrow> GraphArtifactId \<times> nat \<Rightarrow> u64 \<times> u64 list \<times> u64 list" where
  "count_entry st acc x = (case acc of (n, ls, rs) \<Rightarrow> let e = gc_heap st (snd x) in
     (n + 1, bump_at (GraphLifecycle_code (en_lifecycle e)) ls, bump_at (ResidencyTier_code (en_residency e)) rs))"

definition snapshot :: "'x cache_env \<Rightarrow> 'x GraphCache \<Rightarrow> Snapshot" where
  "snapshot env st =
     (let (n, ls, rs) = foldl (count_entry st) (0, replicate 22 0, replicate 5 0) (env_map_ord env (gc_by_artifact st))
      in \<lparr>ss_graphs_total = n, ss_by_lifecycle = ls, ss_by_residency = rs,
          ss_active_captures = gc_active_captures st, ss_active_validations = 0, ss_active_loads = 0,
          ss_active_leases = gc_active_leases st, ss_active_replays = gc_active_replays st, ss_metrics = metrics env st\<rparr>)"

definition escape_json :: "string \<Rightarrow> string" where
  "escape_json s = concat (map (\<lambda>c. if c = CHR 0x22 \<or> c = CHR 0x5C then [CHR 0x5C, c] else [c]) s)"

record Explain =
  ex_artifact :: GraphArtifactId
  ex_decision :: GraphCompatibilityClass
  ex_hit :: bool
  ex_outcome :: LookupOutcome
  ex_text :: string
  ex_json :: string

definition reason_json :: "CompatibilityReason \<Rightarrow> string" where
  "reason_json r = ''{\"code\":\"'' @ CompatibilityReasonCode_to_string (cr_code r)
     @ ''\",\"field\":\"'' @ escape_json (cr_field r) @ ''\"}''"

fun reasons_json :: "CompatibilityReason list \<Rightarrow> string" where
  "reasons_json [] = []"
| "reasons_json [r] = reason_json r"
| "reasons_json (r # rs) = reason_json r @ '','' @ reasons_json rs"

definition explain :: "'x GraphLookupResult \<Rightarrow> Explain" where
  "explain res = \<lparr>ex_artifact = lr_artifact res, ex_decision = d_klass (lr_decision res), ex_hit = lr_hit res,
     ex_outcome = lr_outcome res, ex_text = lr_reason_text res,
     ex_json = ''{\"outcome\":\"'' @ LookupOutcome_to_string (lr_outcome res)
       @ ''\",\"hit\":'' @ (if lr_hit res then ''true'' else ''false'')
       @ '',\"artifact\":\"'' @ GraphArtifactId_to_string (lr_artifact res)
       @ ''\",\"generation\":'' @ dec_string (unat (gg_value (lr_generation res)))
       @ '',\"decision\":\"'' @ GraphCompatibilityClass_to_string (d_klass (lr_decision res)) @ ''\"''
       @ (if lr_reasons res \<noteq> [] then '',\"reasons\":['' @ reasons_json (lr_reasons res) @ '']'' else [])
       @ ''}''\<rparr>"

definition events :: "nat \<Rightarrow> 'x GraphCache \<Rightarrow> Event list" where
  "events limit st = (let start = (if length (gc_events st) > limit then length (gc_events st) - limit else 0)
     in drop start (gc_events st))"

definition shape_summary :: "GraphCompatibilityDecision \<Rightarrow> string" where
  "shape_summary d = foldl (\<lambda>s r. (if s = [] then [] else s @ ''; '')
     @ CompatibilityReasonCode_to_string (cr_code r) @ ''('' @ cr_field r @ '')'') [] (d_reasons d)"

section \<open>Snapshots\<close>

lemma length_bump_at [simp]: "length (bump_at i xs) = length xs"
  by (simp add: bump_at_def)

lemma bump_at_nth: "k < length xs \<Longrightarrow> bump_at i xs ! k = xs ! k + (if i = int k then 1 else 0)"
  by (auto simp: bump_at_def nth_list_update)

lemma count_entry_simp: "count_entry st (n, ls, rs) x = (n + 1, bump_at (GraphLifecycle_code (en_lifecycle (gc_heap st (snd x)))) ls,
    bump_at (ResidencyTier_code (en_residency (gc_heap st (snd x)))) rs)"
  by (simp add: count_entry_def Let_def)

lemma count_entries:
  fixes st :: "'x GraphCache"
  defines "f \<equiv> \<lambda>x. GraphLifecycle_code (en_lifecycle (gc_heap st (snd x)))"
    and "r \<equiv> \<lambda>x. ResidencyTier_code (en_residency (gc_heap st (snd x)))"
  shows "\<exists>ls rs. foldl (count_entry st) (0, replicate 22 0, replicate 5 0) xs = (word_of_nat (length xs), ls, rs)
     \<and> length ls = 22 \<and> length rs = 5
     \<and> (\<forall>k < 22. ls ! k = word_of_nat (length (filter (\<lambda>x. f x = int k) xs)))
     \<and> (\<forall>k < 5. rs ! k = word_of_nat (length (filter (\<lambda>x. r x = int k) xs)))"
proof (induction xs rule: rev_induct)
  case (snoc x xs)
  then obtain ls rs where IH: "foldl (count_entry st) (0, replicate 22 0, replicate 5 0) xs = (word_of_nat (length xs), ls, rs)"
    "length ls = 22" "length rs = 5" "\<forall>k < 22. ls ! k = word_of_nat (length (filter (\<lambda>x. f x = int k) xs))"
    "\<forall>k < 5. rs ! k = word_of_nat (length (filter (\<lambda>x. r x = int k) xs))" by blast
  show ?case
    by (rule exI [of _ "bump_at (f x) ls"], rule exI [of _ "bump_at (r x) rs"])
       (use IH in \<open>simp add: count_entry_simp f_def r_def bump_at_nth add.commute\<close>)
qed simp

lemma filter_count_perm: "mset xs = mset ys \<Longrightarrow> length (filter P xs) = length (filter P ys)"
  by (metis mset_filter size_mset)

text \<open>
  A snapshot is exact. In every reachable state the total is the number of artifacts in the index,
  the array by lifecycle counts the valid graphs at \<open>Valid\<close> and the invalidated ones at \<open>Invalidated\<close>
  and nothing elsewhere, and the array by residency counts graphs with a handle as host-resident and
  the others as metadata only; none is ever counted as backend-resident.
\<close>

theorem snapshot_exact:
  assumes "cache_engine env" and "cache_new cfg b fs = Some st0" and "cache_run env Q (st0, []) (st, P)"
  shows "ss_graphs_total (snapshot env st) = word_of_nat (graph_count st)
     \<and> ss_by_lifecycle (snapshot env st) = (replicate 22 0)
         [5 := word_of_nat (length (filter (\<lambda>(i, a). \<not> en_invalidated (gc_heap st a)) (gc_by_artifact st))),
          17 := word_of_nat (length (filter (\<lambda>(i, a). en_invalidated (gc_heap st a)) (gc_by_artifact st)))]
     \<and> ss_by_residency (snapshot env st) = (replicate 5 0)
         [1 := word_of_nat (length (filter (\<lambda>(i, a). en_exec (gc_heap st a) = None) (gc_by_artifact st))),
          3 := word_of_nat (length (filter (\<lambda>(i, a). en_exec (gc_heap st a) \<noteq> None) (gc_by_artifact st)))]"
proof -
  let ?xs = "env_map_ord env (gc_by_artifact st)"
  have inv: "cache_inv st"
    using cache_engine.cache_run_engine [OF assms(1,3) cache_new_inv [OF assms(2)]] by (simp add: pending_ok_def)
  have ord: "mset ?xs = mset (gc_by_artifact st)" by (rule cache_engine.map_ord [OF assms(1)])
  obtain ls rs where c: "foldl (count_entry st) (0, replicate 22 0, replicate 5 0) ?xs = (word_of_nat (length ?xs), ls, rs)"
    "length ls = 22" "length rs = 5"
    and ls: "\<And>k. k < 22 \<Longrightarrow> ls ! k = word_of_nat (length (filter (\<lambda>x. GraphLifecycle_code (en_lifecycle (gc_heap st (snd x))) = int k) ?xs))"
    and rs: "\<And>k. k < 5 \<Longrightarrow> rs ! k = word_of_nat (length (filter (\<lambda>x. ResidencyTier_code (en_residency (gc_heap st (snd x))) = int k) ?xs))"
    using count_entries [of st ?xs] by blast
  have e: "en_lifecycle (gc_heap st (snd x)) = (if en_invalidated (gc_heap st (snd x)) then LC_Invalidated else LC_Valid)"
    "en_residency (gc_heap st (snd x)) = (if en_exec (gc_heap st (snd x)) = None then RT_MetadataOnly else RT_HostResident)"
    if "x \<in> set (gc_by_artifact st)" for x
    using inv_by_artifact [OF inv, of "fst x" "snd x"] that inv by (simp_all add: cache_inv_def entries_ok_def Let_def)
  have fl: "filter (\<lambda>x. GraphLifecycle_code (en_lifecycle (gc_heap st (snd x))) = int k) (gc_by_artifact st)
     = filter (\<lambda>(i, a). (if en_invalidated (gc_heap st a) then 17 else 5) = k) (gc_by_artifact st)" for k
    by (rule filter_cong [OF refl]) (auto simp: e)
  have fr: "filter (\<lambda>x. ResidencyTier_code (en_residency (gc_heap st (snd x))) = int k) (gc_by_artifact st)
     = filter (\<lambda>(i, a). (if en_exec (gc_heap st a) = None then 1 else 3) = k) (gc_by_artifact st)" for k
    by (rule filter_cong [OF refl]) (auto simp: e)
  have "ls = (replicate 22 0)
         [5 := word_of_nat (length (filter (\<lambda>(i, a). \<not> en_invalidated (gc_heap st a)) (gc_by_artifact st))),
          17 := word_of_nat (length (filter (\<lambda>(i, a). en_invalidated (gc_heap st a)) (gc_by_artifact st)))]"
    by (rule nth_equalityI)
       (auto simp: c ls filter_count_perm [OF ord] fl nth_list_update case_prod_unfold cong: filter_cong)
  moreover have "rs = (replicate 5 0)
         [1 := word_of_nat (length (filter (\<lambda>(i, a). en_exec (gc_heap st a) = None) (gc_by_artifact st))),
          3 := word_of_nat (length (filter (\<lambda>(i, a). en_exec (gc_heap st a) \<noteq> None) (gc_by_artifact st)))]"
    by (rule nth_equalityI)
       (auto simp: c rs filter_count_perm [OF ord] fr nth_list_update case_prod_unfold cong: filter_cong)
  moreover have "length ?xs = graph_count st" using ord by (metis graph_count_def size_mset)
  ultimately show ?thesis using c by (simp add: snapshot_def)
qed

theorem snapshot_exact_witness:
  "ss_graphs_total (snapshot example_env example_published) = 1
     \<and> ss_by_lifecycle (snapshot example_env example_published) ! 5 = 1
     \<and> ss_by_residency (snapshot example_env example_published) ! 3 = 1"
proof -
  have h: "\<not> en_invalidated (gc_heap example_published 0)" "en_exec (gc_heap example_published 0) \<noteq> None"
    using example_published(5) by (auto simp: served_def exact_def selectable_def Let_def)
  then show ?thesis
    using snapshot_exact [OF cpu_engine_example(1) example_cache_new example_published(1)] example_published(3)
    by (simp add: graph_count_def)
qed

end
