(* ===== verification/GC_SingleFlight.thy ===== *)
theory GC_SingleFlight
  imports GC_Result
begin

text \<open>
  The single-flight wrapper \<open>run_single_flight\<close> of \<open>src/cache.cpp\<close> under concurrency. Each critical
  section of the code, guarded by the capture mutex or by the mutex of an attempt, is one step of a
  thread; the capture itself, \<open>fn()\<close>, runs between two steps and returns an arbitrary result of type
  \<open>'r\<close>. The result a waiter returns is read after the wait, when it can no longer change.
\<close>

section \<open>Attempts, threads and steps\<close>

record 'r CaptureAttempt =
  ca_done :: bool
  ca_res :: "'r option"
  ca_waiters :: u32

definition CaptureAttempt_default :: "'r CaptureAttempt" where
  "CaptureAttempt_default = \<lparr>ca_done = False, ca_res = None, ca_waiters = 0\<rparr>"

text \<open>Where a thread stands: before the call, owning an attempt, waiting for one, or returned.\<close>

datatype 'r sf_pc = SF_Enter string
  | SF_Capturing string nat
  | SF_Captured string nat 'r
  | SF_Signalled string nat 'r
  | SF_Waiting string nat
  | SF_Returned nat 'r bool

record 'r single_flight =
  sf_inflight :: "string \<Rightarrow> nat option"
  sf_attempts :: "nat \<Rightarrow> 'r CaptureAttempt"
  sf_next :: nat
  sf_pc :: "nat \<Rightarrow> 'r sf_pc"
  sf_active :: nat

definition sf_init :: "(nat \<Rightarrow> string) \<Rightarrow> 'r single_flight" where
  "sf_init keys = \<lparr>sf_inflight = Map.empty, sf_attempts = (\<lambda>_. CaptureAttempt_default), sf_next = 0,
     sf_pc = (\<lambda>t. SF_Enter (keys t)), sf_active = 0\<rparr>"

inductive sf_step :: "nat \<Rightarrow> 'r single_flight \<Rightarrow> 'r single_flight \<Rightarrow> bool" for t where
  own: "sf_pc s t = SF_Enter k \<Longrightarrow> sf_inflight s k = None \<Longrightarrow>
    sf_step t s (s\<lparr>sf_inflight := (sf_inflight s)(k \<mapsto> sf_next s),
      sf_attempts := (sf_attempts s)(sf_next s := CaptureAttempt_default), sf_next := sf_next s + 1,
      sf_pc := (sf_pc s)(t := SF_Capturing k (sf_next s)), sf_active := sf_active s + 1\<rparr>)"
| join: "sf_pc s t = SF_Enter k \<Longrightarrow> sf_inflight s k = Some n \<Longrightarrow>
    sf_step t s (s\<lparr>sf_attempts := (sf_attempts s)(n := (sf_attempts s n)\<lparr>ca_waiters := ca_waiters (sf_attempts s n) + 1\<rparr>),
      sf_pc := (sf_pc s)(t := SF_Waiting k n)\<rparr>)"
| capture: "sf_pc s t = SF_Capturing k n \<Longrightarrow> sf_step t s (s\<lparr>sf_pc := (sf_pc s)(t := SF_Captured k n r)\<rparr>)"
| signal: "sf_pc s t = SF_Captured k n r \<Longrightarrow>
    sf_step t s (s\<lparr>sf_attempts := (sf_attempts s)(n := (sf_attempts s n)\<lparr>ca_res := Some r, ca_done := True\<rparr>),
      sf_pc := (sf_pc s)(t := SF_Signalled k n r)\<rparr>)"
| erase: "sf_pc s t = SF_Signalled k n r \<Longrightarrow>
    sf_step t s (s\<lparr>sf_inflight := (sf_inflight s)(k := None), sf_pc := (sf_pc s)(t := SF_Returned n r True),
      sf_active := sf_active s - 1\<rparr>)"
| wake: "sf_pc s t = SF_Waiting k n \<Longrightarrow> ca_done (sf_attempts s n) \<Longrightarrow> ca_res (sf_attempts s n) = Some r \<Longrightarrow>
    sf_step t s (s\<lparr>sf_pc := (sf_pc s)(t := SF_Returned n r False)\<rparr>)"

inductive sf_reach :: "'r single_flight \<Rightarrow> 'r single_flight \<Rightarrow> bool" for s where
  start: "sf_reach s s"
| move: "sf_reach s s' \<Longrightarrow> sf_step t s' s'' \<Longrightarrow> sf_reach s s''"

section \<open>The invariant\<close>

text \<open>The attempt a thread owns, with its key.\<close>

fun owner_of :: "'r sf_pc \<Rightarrow> (string \<times> nat) option" where
  "owner_of (SF_Capturing k n) = Some (k, n)"
| "owner_of (SF_Captured k n r) = Some (k, n)"
| "owner_of (SF_Signalled k n r) = Some (k, n)"
| "owner_of _ = None"

fun thread_ok :: "'r single_flight \<Rightarrow> 'r sf_pc \<Rightarrow> bool" where
  "thread_ok s (SF_Enter k) \<longleftrightarrow> True"
| "thread_ok s (SF_Capturing k n) \<longleftrightarrow> n < sf_next s \<and> sf_inflight s k = Some n \<and> \<not> ca_done (sf_attempts s n)"
| "thread_ok s (SF_Captured k n r) \<longleftrightarrow> n < sf_next s \<and> sf_inflight s k = Some n \<and> \<not> ca_done (sf_attempts s n)"
| "thread_ok s (SF_Signalled k n r) \<longleftrightarrow> n < sf_next s \<and> sf_inflight s k = Some n
     \<and> ca_done (sf_attempts s n) \<and> ca_res (sf_attempts s n) = Some r"
| "thread_ok s (SF_Waiting k n) \<longleftrightarrow> n < sf_next s \<and> (ca_done (sf_attempts s n) \<or> sf_inflight s k = Some n)"
| "thread_ok s (SF_Returned n r b) \<longleftrightarrow> n < sf_next s \<and> ca_done (sf_attempts s n) \<and> ca_res (sf_attempts s n) = Some r"

definition sf_inv :: "'r single_flight \<Rightarrow> bool" where
  "sf_inv s \<longleftrightarrow> (\<forall>t. thread_ok s (sf_pc s t))
     \<and> (\<forall>k n. sf_inflight s k = Some n \<longrightarrow> n < sf_next s \<and> (\<exists>t. owner_of (sf_pc s t) = Some (k, n)))
     \<and> (\<forall>n < sf_next s. ca_done (sf_attempts s n) \<longrightarrow> ca_res (sf_attempts s n) \<noteq> None)
     \<and> (\<forall>t t' k k' n. owner_of (sf_pc s t) = Some (k, n) \<longrightarrow> owner_of (sf_pc s t') = Some (k', n) \<longrightarrow> t = t')
     \<and> (\<forall>k k' n. sf_inflight s k = Some n \<longrightarrow> sf_inflight s k' = Some n \<longrightarrow> k = k')"

lemma owner_ok: "thread_ok s p \<Longrightarrow> owner_of p = Some (k, n) \<Longrightarrow> n < sf_next s \<and> sf_inflight s k = Some n"
  by (cases p) auto

lemma sf_init_inv: "sf_inv (sf_init keys)"
  by (simp add: sf_inv_def sf_init_def)

lemma sf_invD:
  assumes "sf_inv s"
  shows "thread_ok s (sf_pc s t)"
    and "sf_inflight s k = Some n \<Longrightarrow> n < sf_next s \<and> (\<exists>t. owner_of (sf_pc s t) = Some (k, n))"
    and "n < sf_next s \<Longrightarrow> ca_done (sf_attempts s n) \<Longrightarrow> ca_res (sf_attempts s n) \<noteq> None"
    and "owner_of (sf_pc s t) = Some (k, n) \<Longrightarrow> owner_of (sf_pc s t') = Some (k', n) \<Longrightarrow> t = t'"
    and "sf_inflight s k = Some n \<Longrightarrow> sf_inflight s k' = Some n \<Longrightarrow> k = k'"
  using assms unfolding sf_inv_def by blast+

lemma sf_step_thread: "sf_step t s s' \<Longrightarrow> sf_inv s \<Longrightarrow> thread_ok s' (sf_pc s' u)"
proof (induction rule: sf_step.induct)
  case (own s k)
  then show ?case using sf_invD(1) [OF own(3), of u] by (cases "sf_pc s u") (auto simp: CaptureAttempt_default_def)
next
  case (join s k n)
  then show ?case using sf_invD(1) [OF join(3), of u] sf_invD(2) [OF join(3) join(2)] by (cases "sf_pc s u") auto
next
  case (capture s k n r)
  then show ?case using sf_invD(1) [OF capture(2), of u] sf_invD(1) [OF capture(2), of t] by (cases "sf_pc s u") auto
next
  case (signal s k n r)
  then have "u = t \<or> (\<forall>k'. owner_of (sf_pc s u) \<noteq> Some (k', n))" using sf_invD(4) [OF signal(2), of t k n u] by auto
  then show ?case
    using signal(1) sf_invD(1) [OF signal(2), of u] sf_invD(1) [OF signal(2), of t] by (cases "sf_pc s u") auto
next
  case (erase s k n r)
  have "u = t \<or> (\<forall>k'. owner_of (sf_pc s u) \<noteq> Some (k', n))" using erase sf_invD(4) [OF erase(2), of t k n u] by auto
  then show ?case
    using erase(1) sf_invD(1) [OF erase(2), of u] sf_invD(1) [OF erase(2), of t] by (cases "sf_pc s u") auto
next
  case (wake s k n r)
  then show ?case using sf_invD(1) [OF wake(4), of u] sf_invD(1) [OF wake(4), of t] by (cases "sf_pc s u") auto
qed

lemma owner_back:
  "sf_step t s s' \<Longrightarrow> owner_of (sf_pc s' u) = Some (k, n) \<Longrightarrow> owner_of (sf_pc s u) = Some (k, n) \<or> u = t \<and> n = sf_next s"
  by (induction rule: sf_step.induct) (auto split: if_splits)

lemma owner_forward:
  "sf_step t s s' \<Longrightarrow> owner_of (sf_pc s u) = Some (k, n) \<Longrightarrow> owner_of (sf_pc s' u) = Some (k, n) \<or> sf_inflight s' k = None"
  by (induction rule: sf_step.induct) (auto split: if_splits)

lemma inflight_back:
  "sf_step t s s' \<Longrightarrow> sf_inflight s' k = Some n \<Longrightarrow> sf_inflight s k = Some n \<or> n = sf_next s \<and> owner_of (sf_pc s' t) = Some (k, n)"
  by (induction rule: sf_step.induct) (auto split: if_splits)

lemma sf_next_mono: "sf_step t s s' \<Longrightarrow> sf_next s \<le> sf_next s'"
  by (induction rule: sf_step.induct) simp_all

lemma sf_step_inv: "sf_step t s s' \<Longrightarrow> sf_inv s \<Longrightarrow> sf_inv s'"
proof -
  assume st: "sf_step t s s'" and inv: "sf_inv s"
  note ok = sf_invD(1) [OF inv]
  have own: "owner_of (sf_pc s u) = Some (k, n) \<Longrightarrow> n < sf_next s \<and> sf_inflight s k = Some n" for u k n
    using owner_ok ok by blast
  have thr: "thread_ok s' (sf_pc s' u)" for u by (rule sf_step_thread [OF st inv])
  have "n < sf_next s' \<and> (\<exists>t. owner_of (sf_pc s' t) = Some (k, n))" if k: "sf_inflight s' k = Some n" for k n
  proof -
    have "\<exists>u. owner_of (sf_pc s' u) = Some (k, n)"
      using inflight_back [OF st k] sf_invD(2) [OF inv, of k n] owner_forward [OF st, of _ k n] k by fastforce
    then show ?thesis using owner_ok [OF thr] by blast
  qed
  moreover have "(\<forall>n < sf_next s'. ca_done (sf_attempts s' n) \<longrightarrow> ca_res (sf_attempts s' n) \<noteq> None)"
    using st sf_invD(3) [OF inv] by (induction rule: sf_step.induct) (auto simp: CaptureAttempt_default_def less_Suc_eq)
  moreover have "(\<forall>u v k k' n. owner_of (sf_pc s' u) = Some (k, n) \<longrightarrow> owner_of (sf_pc s' v) = Some (k', n) \<longrightarrow> u = v)"
    using owner_back [OF st] sf_invD(4) [OF inv] own by (metis less_irrefl)
  moreover have "(\<forall>k k' n. sf_inflight s' k = Some n \<longrightarrow> sf_inflight s' k' = Some n \<longrightarrow> k = k')"
    using st sf_invD(2,5) [OF inv] by (induction rule: sf_step.induct) (auto split: if_splits)
  ultimately show "sf_inv s'" using thr unfolding sf_inv_def by blast
qed

lemma sf_reach_inv: "sf_reach s s' \<Longrightarrow> sf_inv s \<Longrightarrow> sf_inv s'"
  by (induction rule: sf_reach.induct) (auto intro: sf_step_inv)

section \<open>What single flight guarantees\<close>

text \<open>Whether a thread runs, or has run, the capture function itself.\<close>

definition in_flight :: "'r single_flight \<Rightarrow> string \<Rightarrow> nat \<Rightarrow> bool" where
  "in_flight s k t \<longleftrightarrow> (\<exists>n. owner_of (sf_pc s t) = Some (k, n))"

text \<open>
  C19: Under any interleaving of any number of threads, at most one thread at a time runs a capture for a
  key, and all threads that return from one attempt, the owner and those that joined it, return the
  same result: the one the owner's capture produced.
\<close>

theorem single_flight_safe:
  assumes "sf_reach (sf_init keys) s"
  shows "(in_flight s k t \<and> in_flight s k u \<longrightarrow> t = u)
    \<and> (sf_pc s t = SF_Returned n r b \<and> sf_pc s u = SF_Returned n r' b' \<longrightarrow> r = r')
    \<and> (sf_pc s t = SF_Signalled k n r \<and> sf_pc s u = SF_Returned n r' b' \<longrightarrow> r = r')"
proof -
  have inv: "sf_inv s" using sf_reach_inv [OF assms sf_init_inv] .
  note ok = sf_invD(1) [OF inv]
  have "t = u" if "in_flight s k t" "in_flight s k u"
  proof -
    obtain m n where o: "owner_of (sf_pc s t) = Some (k, m)" "owner_of (sf_pc s u) = Some (k, n)"
      using \<open>in_flight s k t\<close> \<open>in_flight s k u\<close> by (auto simp: in_flight_def)
    then have "m = n" using owner_ok [OF ok o(1)] owner_ok [OF ok o(2)] by simp
    then show "t = u" using sf_invD(4) [OF inv o(1)] o(2) by simp
  qed
  moreover have "r = r'" if "sf_pc s t = SF_Returned n r b" "sf_pc s u = SF_Returned n r' b'"
    using ok [of t] ok [of u] that by simp
  moreover have "r = r'" if "sf_pc s t = SF_Signalled k n r" "sf_pc s u = SF_Returned n r' b'"
    using ok [of t] ok [of u] that by simp
  ultimately show ?thesis by blast
qed

text \<open>
  No thread waits for nothing: in every reachable state in which some thread has not returned, some
  thread can take a step; a waiting thread can return, or the thread that owns its attempt is still on
  the way to signalling it.
\<close>

theorem single_flight_progress:
  assumes "sf_reach (sf_init keys) s"
  shows "(case sf_pc s t of SF_Returned n r b \<Rightarrow> True
     | SF_Waiting k n \<Rightarrow> (\<exists>s'. sf_step t s s') \<or> (\<exists>u s'. owner_of (sf_pc s u) = Some (k, n) \<and> sf_step u s s')
     | _ \<Rightarrow> (\<exists>s'. sf_step t s s'))"
proof -
  have inv: "sf_inv s" using sf_reach_inv [OF assms sf_init_inv] .
  have owner: "\<exists>s'. sf_step u s s'" if "owner_of (sf_pc s u) = Some (k, n)" for u k n
    using that by (cases "sf_pc s u") (auto intro: sf_step.intros)
  show ?thesis
  proof (cases "sf_pc s t")
    case (SF_Enter k)
    then show ?thesis by (cases "sf_inflight s k") (auto intro: sf_step.intros)
  next
    case (SF_Waiting k n)
    show ?thesis
    proof (cases "ca_done (sf_attempts s n)")
      case True
      then obtain r where "ca_res (sf_attempts s n) = Some r"
        using sf_invD(1) [OF inv, of t] sf_invD(3) [OF inv, of n] SF_Waiting by auto
      then show ?thesis using True SF_Waiting by (auto intro: sf_step.wake)
    next
      case False
      then have "sf_inflight s k = Some n" using sf_invD(1) [OF inv, of t] SF_Waiting by simp
      then obtain u where "owner_of (sf_pc s u) = Some (k, n)" using sf_invD(2) [OF inv] by blast
      then show ?thesis using owner SF_Waiting by auto
    qed
  qed (use owner [of t] in auto)
qed

text \<open>A thread that finds nothing in flight runs its own capture to the end.\<close>

lemma solo_flight:
  assumes "sf_reach s0 s" and "sf_pc s t = SF_Enter k" and "sf_inflight s k = None"
  shows "\<exists>s'. sf_reach s0 s' \<and> sf_pc s' t = SF_Returned (sf_next s) r True \<and> sf_inflight s' = sf_inflight s
    \<and> (\<forall>u. u \<noteq> t \<longrightarrow> sf_pc s' u = sf_pc s u) \<and> sf_next s' = sf_next s + 1"
proof -
  obtain s1 where s1: "sf_reach s0 s1" "sf_pc s1 = (sf_pc s)(t := SF_Capturing k (sf_next s))"
    "sf_inflight s1 = (sf_inflight s)(k \<mapsto> sf_next s)" "sf_next s1 = sf_next s + 1"
    using sf_reach.move [OF assms(1) sf_step.own [OF assms(2,3)]] by auto
  have c: "sf_pc s1 t = SF_Capturing k (sf_next s)" using s1(2) by simp
  obtain s2 where s2: "sf_reach s0 s2" "sf_pc s2 = (sf_pc s)(t := SF_Captured k (sf_next s) r)"
    "sf_inflight s2 = (sf_inflight s)(k \<mapsto> sf_next s)" "sf_next s2 = sf_next s + 1"
    using sf_reach.move [OF s1(1) sf_step.capture [OF c, of r]] s1 by auto
  have d: "sf_pc s2 t = SF_Captured k (sf_next s) r" using s2(2) by simp
  obtain s3 where s3: "sf_reach s0 s3" "sf_pc s3 = (sf_pc s)(t := SF_Signalled k (sf_next s) r)"
    "sf_inflight s3 = (sf_inflight s)(k \<mapsto> sf_next s)" "sf_next s3 = sf_next s + 1"
    using sf_reach.move [OF s2(1) sf_step.signal [OF d]] s2 by auto
  have e: "sf_pc s3 t = SF_Signalled k (sf_next s) r" using s3(2) by simp
  have "(sf_inflight s)(k := None) = sf_inflight s" using assms(3) by (auto simp: fun_eq_iff)
  then show ?thesis
    using sf_reach.move [OF s3(1) sf_step.erase [OF e]] s3 by (auto simp: fun_upd_upd)
qed

text \<open>
  Single flight does not make concurrent misses share one capture: a thread that missed while the
  first capture ran, but enters after it has been erased, captures again. Here two threads that missed
  for the same key both return as owners of a capture of their own.
\<close>

theorem single_flight_can_repeat:
  fixes r r' :: 'r
  shows "\<exists>s. sf_reach (sf_init (\<lambda>_. ''key'')) s \<and> sf_pc s 0 = SF_Returned 0 r True \<and> sf_pc s 1 = SF_Returned 1 r' True"
proof -
  let ?s = "sf_init (\<lambda>_. ''key'') :: 'r single_flight"
  have e: "sf_pc ?s t = SF_Enter ''key''" "sf_inflight ?s ''key'' = None" "sf_next ?s = 0" for t by (simp_all add: sf_init_def)
  obtain s1 where s1: "sf_reach ?s s1" "sf_pc s1 0 = SF_Returned 0 r True" "sf_inflight s1 ''key'' = None"
    "sf_pc s1 1 = SF_Enter ''key''" "sf_next s1 = 1"
  proof -
    from solo_flight [OF sf_reach.start e(1,2), of 0 r, unfolded e(3)] obtain s1 where
      "sf_reach ?s s1" "sf_pc s1 0 = SF_Returned 0 r True" "sf_inflight s1 = sf_inflight ?s"
      "\<forall>u. u \<noteq> 0 \<longrightarrow> sf_pc s1 u = sf_pc ?s u" "sf_next s1 = 0 + 1" by blast
    then show thesis using that [of s1] e by simp
  qed
  from solo_flight [OF s1(1,4,3), of r', unfolded s1(5)] obtain s2 where
    s2: "sf_reach ?s s2" "sf_pc s2 1 = SF_Returned 1 r' True" "\<forall>u. u \<noteq> 1 \<longrightarrow> sf_pc s2 u = sf_pc s1 u" by blast
  then have "sf_pc s2 0 = SF_Returned 0 r True" using s1(2) by simp
  with s2 show ?thesis by blast
qed

theorem single_flight_safe_witness:
  "\<exists>s. sf_reach (sf_init (\<lambda>_. ''key'')) s \<and> in_flight s ''key'' 0 \<and> \<not> in_flight (s :: nat single_flight) ''key'' 1"
proof -
  let ?s = "sf_init (\<lambda>_. ''key'') :: nat single_flight"
  have e: "sf_pc ?s 0 = SF_Enter ''key''" "sf_inflight ?s ''key'' = None" by (simp_all add: sf_init_def)
  obtain s1 where s1: "sf_reach ?s s1" "in_flight s1 ''key'' 0"
    using sf_reach.move [OF sf_reach.start sf_step.own [OF e]] by (force simp: in_flight_def)
  with single_flight_safe [OF s1(1), of "''key''" 0 1] show ?thesis by auto
qed

theorem single_flight_progress_witness:
  "\<exists>s s'. sf_reach (sf_init (\<lambda>_. ''key'')) s \<and> sf_step 0 (s :: nat single_flight) s'"
proof -
  let ?s = "sf_init (\<lambda>_. ''key'') :: nat single_flight"
  have "sf_pc ?s 0 = SF_Enter ''key''" by (simp add: sf_init_def)
  with single_flight_progress [where keys = "\<lambda>_. ''key''" and t = 0 and s = ?s, OF sf_reach.start]
  have "\<exists>s'. sf_step 0 ?s s'" by simp
  then show ?thesis using sf_reach.start by blast
qed

end
