(* ===== verification/GC_Coordinator.thy ===== *)
theory GC_Coordinator
  imports GC_Protocol GC_Persistence GC_CacheTypes
begin

text \<open>
  The coordinator process, \<open>tools/coordinator_main.cpp\<close>. It owns the authority (epoch, cache
  generation, graph generations), keeps the table of captured graphs and routes captures and replays
  to the workers.

  The state is the code's \<open>State\<close>; a handler takes it with a message that arrived on a connection and
  returns it with the messages it sends, each with the socket it goes to (\<open>send_quiet\<close> discards the
  result of the write, so nothing else depends on it). \<open>frames_loop\<close> cuts the bytes of a connection into
  messages, \<open>poll\<close> is one round of the main loop: what \<open>select\<close>, \<open>accept\<close> and \<open>recv\<close> report is its
  argument. The log lines on \<open>stderr\<close> are left out.
\<close>

section \<open>State\<close>

record Conn =
  cc_sock :: i64
  cc_is_worker :: bool
  cc_is_client :: bool
  cc_worker_id :: u64
  cc_worker_boot :: u64
  cc_buf :: bytes

record Entry =
  ent_artifact :: GraphArtifactId
  ent_generation :: GraphGeneration
  ent_worker_id :: u64
  ent_cache_gen_at_publish :: u64

record PendingCapture =
  pnd_client_sock :: i64
  pnd_worker_id :: u64
  pnd_request_id :: u64
  pnd_key :: string

record State =
  co_epoch :: CoordinatorEpoch
  co_cache_gen :: CacheGeneration
  co_graph_gen_counter :: u64
  co_capture_counter :: u64
  co_worker_boot :: "u64 \<rightharpoonup> u64"
  co_worker_connected :: "u64 set"
  co_worker_sock :: "u64 \<rightharpoonup> i64"
  co_graphs :: "string \<rightharpoonup> Entry"
  co_invalidated :: "string set"
  co_pending :: "u64 \<rightharpoonup> PendingCapture"
  co_pending_replays :: "u64 \<rightharpoonup> i64"

definition State_default :: State where
  "State_default = \<lparr>co_epoch = CoordinatorEpoch 1, co_cache_gen = CacheGeneration 1, co_graph_gen_counter = 1,
     co_capture_counter = 0, co_worker_boot = Map.empty, co_worker_connected = {}, co_worker_sock = Map.empty,
     co_graphs = Map.empty, co_invalidated = {}, co_pending = Map.empty, co_pending_replays = Map.empty\<rparr>"

definition Conn_new :: "i64 \<Rightarrow> Conn" where
  "Conn_new s = \<lparr>cc_sock = s, cc_is_worker = False, cc_is_client = False, cc_worker_id = 0,
     cc_worker_boot = 0, cc_buf = []\<rparr>"

type_synonym sends = "(i64 \<times> ProtocolMessage) list"

text \<open>\<open>std::map::operator[]\<close> on a map of integers: a missing key is inserted with the value 0.\<close>

definition map_at :: "(u64 \<rightharpoonup> 'w :: zero) \<Rightarrow> u64 \<Rightarrow> 'w" where
  "map_at m k = (case m k of None \<Rightarrow> 0 | Some v \<Rightarrow> v)"

definition map_touch :: "(u64 \<rightharpoonup> 'w :: zero) \<Rightarrow> u64 \<Rightarrow> (u64 \<rightharpoonup> 'w)" where
  "map_touch m k = m(k \<mapsto> map_at m k)"

section \<open>Replies and authority\<close>

definition send_status :: "State \<Rightarrow> i64 \<Rightarrow> ProtocolMessageType \<Rightarrow> u64 \<Rightarrow> ProtocolStatus \<Rightarrow> CoordinatorEpoch
    \<Rightarrow> CacheGeneration \<Rightarrow> sends" where
  "send_status st sock type rid status epoch cg =
     [(sock, ProtocolMessage_default\<lparr>pm_type := type, pm_request_id := rid, pm_epoch := epoch,
         pm_cache_gen := (if CacheGeneration_valid cg then cg else co_cache_gen st), pm_status := status\<rparr>)]"

abbreviation reply :: "State \<Rightarrow> i64 \<Rightarrow> ProtocolMessageType \<Rightarrow> u64 \<Rightarrow> ProtocolStatus \<Rightarrow> sends" where
  "reply st sock type rid status \<equiv> send_status st sock type rid status (co_epoch st) (CacheGeneration 0)"

definition is_stale_epoch :: "State \<Rightarrow> ProtocolMessage \<Rightarrow> bool" where
  "is_stale_epoch st m \<longleftrightarrow> CoordinatorEpoch_valid (pm_epoch m) \<and> pm_epoch m \<noteq> co_epoch st"

definition boot_for :: "State \<Rightarrow> u64 \<Rightarrow> u64" where
  "boot_for st wid = (case co_worker_boot st wid of None \<Rightarrow> 0 | Some b \<Rightarrow> b)"

definition is_stale_cache_gen :: "State \<Rightarrow> ProtocolMessage \<Rightarrow> bool" where
  "is_stale_cache_gen st m \<longleftrightarrow> CacheGeneration_valid (pm_cache_gen m) \<and> pm_cache_gen m \<noteq> co_cache_gen st"

definition is_stale_boot :: "State \<Rightarrow> ProtocolMessage \<Rightarrow> bool" where
  "is_stale_boot st m \<longleftrightarrow> WorkerId_valid (pm_worker_id m) \<and> boot_for st (wid_value (pm_worker_id m)) \<noteq> 0
     \<and> wb_value (pm_worker_boot m) \<noteq> 0 \<and> wb_value (pm_worker_boot m) \<noteq> boot_for st (wid_value (pm_worker_id m))"

section \<open>Registration\<close>

definition handle_register :: "i64 \<Rightarrow> ProtocolMessage \<Rightarrow> Conn \<Rightarrow> State \<Rightarrow> sends \<times> Conn \<times> State" where
  "handle_register s m c st =
     (let wid = wid_value (pm_worker_id m); boot = wb_value (pm_worker_boot m) in
      if is_stale_epoch st m then (reply st s PT_RegisterAck (pm_request_id m) PS_StaleEpoch, c, st)
      else if wid \<in> co_worker_connected st \<and> boot_for st wid \<noteq> 0 \<and> boot_for st wid \<noteq> boot
      then (reply st s PT_RegisterAck (pm_request_id m) PS_StaleWorkerBoot, c, st)
      else
        let c = c\<lparr>cc_is_worker := True, cc_worker_id := wid, cc_worker_boot := boot\<rparr>;
            st = st\<lparr>co_worker_boot := (co_worker_boot st)(wid \<mapsto> boot),
                    co_worker_connected := insert wid (co_worker_connected st),
                    co_worker_sock := (co_worker_sock st)(wid \<mapsto> s)\<rparr>
        in (send_status st s PT_RegisterAck (pm_request_id m) PS_Ok (co_epoch st) (co_cache_gen st), c, st))"

definition handle_hello :: "i64 \<Rightarrow> ProtocolMessage \<Rightarrow> Conn \<Rightarrow> State \<Rightarrow> sends \<times> Conn \<times> State" where
  "handle_hello s m c st =
     (let c = c\<lparr>cc_is_client := True\<rparr> in
      if is_stale_epoch st m then (reply st s PT_Welcome (pm_request_id m) PS_StaleEpoch, c, st)
      else (send_status st s PT_Welcome (pm_request_id m) PS_Ok (co_epoch st) (co_cache_gen st), c, st))"

section \<open>Lookup\<close>

text \<open>The request: a descriptor and four members of the workload, or the status of the refusal.\<close>

definition or_status :: "ProtocolStatus \<Rightarrow> 'a option \<Rightarrow> ProtocolStatus + 'a" where
  "or_status s v = (case v of None \<Rightarrow> Inl s | Some x \<Rightarrow> Inr x)"

definition decode_lookup :: "bytes \<Rightarrow> ProtocolStatus + GraphDescriptor \<times> WorkloadIdentity" where
  "decode_lookup payload =
     (case cr_need 1 (canonical_reader payload) of
        None \<Rightarrow> Inl PS_InvalidRequest
      | Some (p, r) \<Rightarrow> (case deserialize_descriptor p of
          Inl _ \<Rightarrow> Inl PS_Malformed
        | Inr desc \<Rightarrow> or_status PS_InvalidRequest (do {
            (name, r) \<leftarrow> read_field 2 decode_str r;
            (version, r) \<leftarrow> read_field 3 decode_u32 r;
            (ns, r) \<leftarrow> read_field 4 decode_str r;
            (rev, r) \<leftarrow> read_field 5 decode_str r;
            Some (desc, WorkloadIdentity_default\<lparr>wl_name := name, wl_version := version, wl_namespace := ns,
              wl_model_revision := rev\<rparr>) })))"

definition lookup_facts_step :: "CompatibilityFacts \<Rightarrow> GraphNodeDescriptor \<Rightarrow> CompatibilityFacts" where
  "lookup_facts_step f n =
     (if n_datatype n \<noteq> DT_None
      then f\<lparr>f_datatypes := f_datatypes f @ [n_datatype n], f_layouts := f_layouts f @ [n_layout n],
             f_scalar := (if sc_specialized (n_scalar n) then n_scalar n else f_scalar f)\<rparr>
      else f)"

definition lookup_facts :: "GraphDescriptor \<Rightarrow> WorkloadIdentity \<Rightarrow> CompatibilityFacts" where
  "lookup_facts desc wl =
     (let f0 = CompatibilityFacts_default\<lparr>f_workload := wl, f_backend := g_backend desc, f_runtime := g_runtime desc,
                 f_device := g_device desc, f_topology := canonical_topology (g_nodes desc) (g_edges desc)\<rparr>
      in (foldl lookup_facts_step f0 (g_nodes desc))\<lparr>f_dependencies := g_dependencies desc,
            f_model_revision := wl_model_revision wl, f_policy_generation := wl_policy_generation wl\<rparr>)"

definition lookup_key :: "GraphDescriptor \<Rightarrow> WorkloadIdentity \<Rightarrow> string" where
  "lookup_key desc wl = (case key_build (lookup_facts desc wl) of Inl _ \<Rightarrow> [] | Inr key \<Rightarrow> key_hex key)"

definition encode_capture :: "GraphDescriptor \<Rightarrow> WorkloadIdentity \<Rightarrow> bytes" where
  "encode_capture desc wl = put_bytes 1 (serialize_descriptor desc) @ put_str 2 (wl_name wl)
     @ put_u32 3 (wl_version wl) @ put_str 4 (wl_namespace wl) @ put_str 5 (wl_model_revision wl)"

definition graph_reply :: "State \<Rightarrow> u64 \<Rightarrow> GraphGeneration \<Rightarrow> string \<Rightarrow> ProtocolMessage" where
  "graph_reply st rid gen artifact_hex = ProtocolMessage_default\<lparr>pm_type := PT_LookupResult, pm_request_id := rid,
     pm_epoch := co_epoch st, pm_cache_gen := co_cache_gen st, pm_status := PS_Ok, pm_graph_gen := gen,
     pm_payload := put_str 1 artifact_hex\<rparr>"

definition capture_instruct :: "State \<Rightarrow> u64 \<Rightarrow> u64 \<Rightarrow> GraphDescriptor \<Rightarrow> WorkloadIdentity \<Rightarrow> ProtocolMessage" where
  "capture_instruct st wid attempt desc wl = ProtocolMessage_default\<lparr>pm_type := PT_CaptureInstruct,
     pm_epoch := co_epoch st, pm_cache_gen := co_cache_gen st, pm_worker_id := WorkerId wid,
     pm_worker_boot := WorkerBootId (map_at (co_worker_boot st) wid),
     pm_capture_attempt := CaptureAttemptId attempt, pm_payload := encode_capture desc wl\<rparr>"

definition handle_lookup :: "i64 \<Rightarrow> ProtocolMessage \<Rightarrow> State \<Rightarrow> sends \<times> State" where
  "handle_lookup s m st = (case decode_lookup (pm_payload m) of
       Inl status \<Rightarrow> (reply st s PT_LookupResult (pm_request_id m) status, st)
     | Inr (desc, wl) \<Rightarrow>
       let keyhex = lookup_key desc wl in
       case (if keyhex \<in> co_invalidated st then None else co_graphs st keyhex) of
         Some e \<Rightarrow> ([(s, graph_reply st (pm_request_id m) (ent_generation e) (GraphArtifactId_to_string (ent_artifact e)))], st)
       | None \<Rightarrow>
         if co_worker_connected st = {} then (reply st s PT_LookupResult (pm_request_id m) PS_WorkerUnavailable, st)
         else let wid = Min (co_worker_connected st); attempt = co_capture_counter st + 1;
                  inst = capture_instruct st wid attempt desc wl;
                  st = st\<lparr>co_capture_counter := attempt, co_worker_boot := map_touch (co_worker_boot st) wid\<rparr>;
                  target = map_at (co_worker_sock st) wid;
                  st = st\<lparr>co_worker_sock := map_touch (co_worker_sock st) wid,
                          co_pending := (co_pending st)(attempt \<mapsto> \<lparr>pnd_client_sock = s, pnd_worker_id = wid,
                             pnd_request_id = pm_request_id m, pnd_key = keyhex\<rparr>)\<rparr>
              in ([(target, inst)], st))"

section \<open>Capture results\<close>

text \<open>
  \<open>sscanf(s.c_str(), "%16llx:%16llx", &hi, &lo)\<close>: each directive skips white space and takes at most 16
  characters of an optional sign, an optional \<open>0x\<close> and hexadecimal digits; a directive that fails
  leaves its variable, and the rest, at 0.
\<close>

definition is_space :: "char \<Rightarrow> bool" where
  "is_space ch \<longleftrightarrow> (let c = of_char ch :: nat in c = 32 \<or> 9 \<le> c \<and> c \<le> 13)"

definition scan_digits :: "string \<Rightarrow> nat \<Rightarrow> (u64 \<times> string) option" where
  "scan_digits s width =
     (let (s, width) = (if take 1 s = ''0'' \<and> take 1 (drop 1 s) \<in> {''x'', ''X''} \<and> 2 \<le> width
                        then (drop 2 s, width - 2) else (s, width));
          ds = takeWhile (\<lambda>c. hex_val c \<le> 15) (take width s)
      in if ds = [] then None else Some (parse16 0 ds, drop (length ds) s))"

definition scan_llx16 :: "string \<Rightarrow> (u64 \<times> string) option" where
  "scan_llx16 s = (let s = dropWhile is_space s in
     if take 1 s = ''-'' then map_option (\<lambda>(v, r). (- v, r)) (scan_digits (tl s) 15)
     else if take 1 s = ''+'' then scan_digits (tl s) 15
     else scan_digits s 16)"

definition scan_artifact :: "string \<Rightarrow> GraphArtifactId" where
  "scan_artifact s = (case scan_llx16 (takeWhile (\<lambda>c. c \<noteq> CHR 0x00) s) of
       None \<Rightarrow> GraphArtifactId 0 0
     | Some (hi, r) \<Rightarrow> if take 1 r = '':'' then (case scan_llx16 (tl r) of
           None \<Rightarrow> GraphArtifactId hi 0 | Some (lo, _) \<Rightarrow> GraphArtifactId hi lo)
         else GraphArtifactId hi 0)"

definition artifact_key :: "string \<Rightarrow> string" where
  "artifact_key hex = ''artifact:'' @ hex"

definition publish :: "string \<Rightarrow> PendingCapture \<Rightarrow> GraphGeneration \<Rightarrow> State \<Rightarrow> State" where
  "publish artifact_hex pc gen st =
     (let e = \<lparr>ent_artifact = scan_artifact artifact_hex, ent_generation = gen, ent_worker_id = pnd_worker_id pc,
               ent_cache_gen_at_publish = cg_value (co_cache_gen st)\<rparr>;
          st = st\<lparr>co_graphs := (co_graphs st)(artifact_key artifact_hex \<mapsto> e)\<rparr>;
          st = (if pnd_key pc \<noteq> []
                then st\<lparr>co_graphs := (co_graphs st)(pnd_key pc \<mapsto> e), co_invalidated := co_invalidated st - {pnd_key pc}\<rparr>
                else st)
      in st\<lparr>co_invalidated := co_invalidated st - {artifact_key artifact_hex}\<rparr>)"

definition handle_capture_result :: "i64 \<Rightarrow> ProtocolMessage \<Rightarrow> State \<Rightarrow> sends \<times> State" where
  "handle_capture_result s m st =
     (let attempt = ca_value (pm_capture_attempt m) in
      case co_pending st attempt of
        None \<Rightarrow> (reply st s PT_LookupResult (pm_request_id m) PS_DuplicateCaptureCompletion, st)
      | Some pc \<Rightarrow>
        let st = st\<lparr>co_pending := (co_pending st)(attempt := None)\<rparr>;
            refuse = \<lambda>st. send_status st (pnd_client_sock pc) PT_LookupResult (pnd_request_id pc) PS_CaptureFailed
                            (co_epoch st) (co_cache_gen st)
        in if pm_status m \<noteq> PS_Ok then (refuse st, st)
           else let gen = GraphGeneration (co_graph_gen_counter st + 1);
                    st = st\<lparr>co_graph_gen_counter := co_graph_gen_counter st + 1\<rparr>
                in case read_field 1 decode_str (canonical_reader (pm_payload m)) of
                     None \<Rightarrow> (refuse st, st)
                   | Some (artifact_hex, _) \<Rightarrow>
                       ([(pnd_client_sock pc, graph_reply st (pnd_request_id pc) gen artifact_hex)], publish artifact_hex pc gen st))"

section \<open>Replay\<close>

definition handle_replay_instruct :: "i64 \<Rightarrow> ProtocolMessage \<Rightarrow> State \<Rightarrow> sends \<times> State" where
  "handle_replay_instruct s m st =
     (let refuse = \<lambda>status. (reply st s PT_ReplayResult (pm_request_id m) status, st) in
      case read_field 1 decode_str (canonical_reader (pm_payload m)) of
        None \<Rightarrow> refuse PS_InvalidRequest
      | Some (artifact_hex, _) \<Rightarrow>
        (case (if artifact_key artifact_hex \<in> co_invalidated st then None else co_graphs st (artifact_key artifact_hex)) of
           None \<Rightarrow> refuse PS_StaleGraphGeneration
         | Some e \<Rightarrow>
           if GraphGeneration_valid (pm_graph_gen m) \<and> pm_graph_gen m \<noteq> ent_generation e then refuse PS_StaleGraphGeneration
           else (case co_worker_sock st (ent_worker_id e) of
               None \<Rightarrow> refuse PS_WorkerUnavailable
             | Some target \<Rightarrow>
               let wid = ent_worker_id e in
               ([(target, ProtocolMessage_default\<lparr>pm_type := PT_ReplayInstruct, pm_request_id := pm_request_id m,
                    pm_epoch := co_epoch st, pm_cache_gen := co_cache_gen st, pm_worker_id := WorkerId wid,
                    pm_worker_boot := WorkerBootId (map_at (co_worker_boot st) wid), pm_graph_gen := ent_generation e,
                    pm_replay_attempt := pm_replay_attempt m, pm_payload := pm_payload m\<rparr>)],
                st\<lparr>co_worker_boot := map_touch (co_worker_boot st) wid,
                   co_pending_replays := (co_pending_replays st)(pm_request_id m \<mapsto> s)\<rparr>))))"

definition handle_replay_result :: "i64 \<Rightarrow> ProtocolMessage \<Rightarrow> State \<Rightarrow> sends \<times> State" where
  "handle_replay_result s m st =
     (let resp = ProtocolMessage_default\<lparr>pm_type := PT_ReplayResult, pm_request_id := pm_request_id m,
                   pm_epoch := co_epoch st, pm_cache_gen := co_cache_gen st, pm_status := pm_status m,
                   pm_payload := pm_payload m\<rparr>
      in case co_pending_replays st (pm_request_id m) of
           None \<Rightarrow> ([(s, resp)], st)
         | Some target \<Rightarrow> ([(target, resp)],
             st\<lparr>co_pending_replays := (co_pending_replays st)(pm_request_id m := None)\<rparr>))"

section \<open>Invalidation\<close>

definition handle_invalidate :: "i64 \<Rightarrow> ProtocolMessage \<Rightarrow> State \<Rightarrow> sends \<times> State" where
  "handle_invalidate s m st =
     (let st = st\<lparr>co_cache_gen := CacheGeneration (cg_value (co_cache_gen st) + 1)\<rparr>;
          st = (if pm_flags m AND 1 \<noteq> 0 then st\<lparr>co_epoch := CoordinatorEpoch (ce_value (co_epoch st) + 1)\<rparr> else st);
          st = st\<lparr>co_invalidated := co_invalidated st \<union> dom (co_graphs st)\<rparr>
      in ([(s, ProtocolMessage_default\<lparr>pm_type := PT_InvalidateAck, pm_request_id := pm_request_id m,
             pm_epoch := co_epoch st, pm_cache_gen := co_cache_gen st, pm_status := PS_Ok\<rparr>)], st))"

section \<open>A message\<close>

text \<open>The dispatch on the type of a message, in the order of the code; the flag says whether to go on running.\<close>

definition handle_message :: "i64 \<Rightarrow> ProtocolMessage \<Rightarrow> Conn \<Rightarrow> State \<Rightarrow> sends \<times> bool \<times> Conn \<times> State" where
  "handle_message s m c st =
     (let refuse = \<lambda>type status. (reply st s type (pm_request_id m) status, True, c, st);
          on = \<lambda>h. (case h of (outs, st) \<Rightarrow> (outs, True, c, st)) in
      if pm_type m = PT_Register then (case handle_register s m c st of (outs, c, st) \<Rightarrow> (outs, True, c, st))
      else if pm_type m = PT_Hello then (case handle_hello s m c st of (outs, c, st) \<Rightarrow> (outs, True, c, st))
      else if is_stale_epoch st m
      then refuse (if pm_type m = PT_ReplayInstruct then PT_ReplayResult else PT_LookupResult) PS_StaleEpoch
      else if is_stale_cache_gen st m then refuse PT_LookupResult PS_StaleCacheGeneration
      else if is_stale_boot st m then refuse PT_LookupResult PS_StaleWorkerBoot
      else if pm_type m = PT_Lookup then on (handle_lookup s m st)
      else if pm_type m = PT_CaptureResult then on (handle_capture_result s m st)
      else if pm_type m = PT_ReplayInstruct then on (handle_replay_instruct s m st)
      else if pm_type m = PT_ReplayResult then on (handle_replay_result s m st)
      else if pm_type m = PT_Invalidate then on (handle_invalidate s m st)
      else if pm_type m = PT_Shutdown then ([], False, c, st)
      else ([], True, c, st))"

section \<open>Connections and the main loop\<close>

record server =
  sv_state :: State
  sv_running :: bool
  sv_sent :: sends

definition handle_frame :: "i64 \<Rightarrow> bytes \<Rightarrow> Conn \<times> server \<Rightarrow> Conn \<times> server" where
  "handle_frame s body cv = (case cv of (c, sv) \<Rightarrow> case decode_message body of
       Inl _ \<Rightarrow> (c, sv\<lparr>sv_sent := sv_sent sv @ reply (sv_state sv) s PT_LookupResult 0 PS_Malformed\<rparr>)
     | Inr m \<Rightarrow> (case handle_message s m c (sv_state sv) of (outs, go, c, st) \<Rightarrow>
         (c, sv\<lparr>sv_state := st, sv_running := sv_running sv \<and> go, sv_sent := sv_sent sv @ outs\<rparr>)))"

definition frame_len :: "bytes \<Rightarrow> u32" where
  "frame_len buf = ucast (buf ! 0) OR push_bit 8 (ucast (buf ! 1)) OR push_bit 16 (ucast (buf ! 2))
     OR push_bit 24 (ucast (buf ! 3))"

text \<open>
  The loop over the complete frames of a buffer. It returns what is left of the buffer and whether the
  connection is to be closed.
\<close>

function frames_loop :: "i64 \<Rightarrow> bytes \<Rightarrow> Conn \<times> server \<Rightarrow> bytes \<times> bool \<times> Conn \<times> server" where
  "frames_loop s buf cv =
     (if length buf < 4 then (buf, False, cv)
      else let len = frame_len buf in
        if len = 0 then frames_loop s (drop 4 buf) cv
        else if len > MaxFrameSize then (buf, True, cv)
        else if length buf < 4 + unat len then (buf, False, cv)
        else frames_loop s (drop (4 + unat len) buf) (handle_frame s (take (unat len) (drop 4 buf)) cv))"
  by pat_completeness auto
termination
  by (relation "measure (\<lambda>(s, buf, cv). length buf)") auto

declare frames_loop.simps [simp del]

text \<open>Bytes arrive on a connection. The handlers do not look at the buffer, which the loop owns meanwhile.\<close>

definition conn_recv :: "i64 \<Rightarrow> bytes \<Rightarrow> Conn \<times> server \<Rightarrow> bool \<times> Conn \<times> server" where
  "conn_recv s data cv = (case cv of (c, sv) \<Rightarrow>
     case frames_loop s (cc_buf c @ data) (c\<lparr>cc_buf := []\<rparr>, sv) of (rest, close, c, sv) \<Rightarrow> (close, c\<lparr>cc_buf := rest\<rparr>, sv))"

record coordinator =
  cd_listener :: i64
  cd_conns :: "(i64 \<times> Conn) list"
  cd_server :: server

text \<open>
  A round of the main loop. \<open>select\<close> fails, times out or reports ready sockets; \<open>accept\<close> yields a socket
  or nothing; \<open>recv\<close> yields up to 16384 bytes, none when the peer closed the connection or it failed.
\<close>

datatype poll_event = PE_Error | PE_Timeout | PE_Ready (pe_ready: "i64 \<Rightarrow> bool") (pe_accept: "i64 option") (pe_recv: "i64 \<Rightarrow> bytes")

definition serve_conn :: "(i64 \<Rightarrow> bytes) \<Rightarrow> coordinator \<times> i64 list \<Rightarrow> i64 \<Rightarrow> coordinator \<times> i64 list" where
  "serve_conn recv acc s = (case acc of (cd, closing) \<Rightarrow>
     (case map_of (cd_conns cd) s of
        None \<Rightarrow> (cd, closing)
      | Some c \<Rightarrow>
        if recv s = [] then (cd, closing @ [s])
        else (case conn_recv s (recv s) (c, cd_server cd) of (close, c, sv) \<Rightarrow>
          (cd\<lparr>cd_conns := AList.update s c (cd_conns cd), cd_server := sv\<rparr>,
           if close then closing @ [s] else closing))))"

definition close_conn :: "coordinator \<Rightarrow> i64 \<Rightarrow> coordinator" where
  "close_conn cd s = (case map_of (cd_conns cd) s of
       None \<Rightarrow> cd
     | Some c \<Rightarrow> cd\<lparr>cd_conns := AList.delete s (cd_conns cd),
         cd_server := (if cc_is_worker c
           then (cd_server cd)\<lparr>sv_state := (sv_state (cd_server cd))\<lparr>co_worker_connected :=
                   co_worker_connected (sv_state (cd_server cd)) - {cc_worker_id c}\<rparr>\<rparr>
           else cd_server cd)\<rparr>)"

definition poll :: "poll_event \<Rightarrow> coordinator \<Rightarrow> coordinator" where
  "poll ev cd = (case ev of
       PE_Error \<Rightarrow> cd\<lparr>cd_server := (cd_server cd)\<lparr>sv_running := False\<rparr>\<rparr>
     | PE_Timeout \<Rightarrow> cd
     | PE_Ready ready acc recv \<Rightarrow>
       let fds = (\<lambda>s. s \<in> set (map fst (cd_conns cd)) \<and> 0 \<le> sint s \<and> ready s);
           cd = (if fds (cd_listener cd)
                 then (case acc of None \<Rightarrow> cd | Some h \<Rightarrow> cd\<lparr>cd_conns := AList.update h (Conn_new h) (cd_conns cd)\<rparr>)
                 else cd);
           order = filter (\<lambda>s. s \<noteq> cd_listener cd \<and> fds s) (sort_key sint (map fst (cd_conns cd)));
           (cd, closing) = foldl (serve_conn recv) (cd, []) order
       in foldl close_conn cd closing)"

fun coordinator_main :: "poll_event list \<Rightarrow> coordinator \<Rightarrow> coordinator" where
  "coordinator_main [] cd = cd"
| "coordinator_main (ev # evs) cd =
     (if sv_running (cd_server cd) then coordinator_main evs (poll ev cd) else cd)"

definition coordinator_start :: "i64 \<Rightarrow> coordinator" where
  "coordinator_start listener = \<lparr>cd_listener = listener, cd_conns = [(listener, Conn_new listener)],
     cd_server = \<lparr>sv_state = State_default, sv_running = True, sv_sent = []\<rparr>\<rparr>"


section \<open>Runs\<close>

text \<open>
  What the coordinator makes of its connections is a sequence of inputs: messages, frames that do not
  decode, and workers' connections that end.
\<close>

datatype co_input = CI_Message i64 ProtocolMessage | CI_Malformed i64 | CI_Gone u64

definition co_apply :: "State \<Rightarrow> co_input \<Rightarrow> sends \<times> State" where
  "co_apply st i = (case i of
       CI_Message s m \<Rightarrow> (case handle_message s m (Conn_new s) st of (outs, go, c, st) \<Rightarrow> (outs, st))
     | CI_Malformed s \<Rightarrow> (reply st s PT_LookupResult 0 PS_Malformed, st)
     | CI_Gone wid \<Rightarrow> ([], st\<lparr>co_worker_connected := co_worker_connected st - {wid}\<rparr>))"

fun co_run :: "State \<Rightarrow> co_input list \<Rightarrow> sends \<times> State" where
  "co_run st [] = ([], st)"
| "co_run st (i # is) = (case co_apply st i of (outs, st) \<Rightarrow> case co_run st is of (outs', st) \<Rightarrow> (outs @ outs', st))"

lemma co_run_append:
  "co_run st (is @ js) = (case co_run st is of (outs, st) \<Rightarrow> case co_run st js of (outs', st) \<Rightarrow> (outs @ outs', st))"
  by (induction "is" arbitrary: st) (simp_all add: case_prod_unfold)

lemma handle_message_conn:
  "handle_message s m c st = (outs, go, c', st') \<Longrightarrow>
     co_apply st (CI_Message s m) = (outs, st') \<and> cc_buf c' = cc_buf c"
  by (auto simp: co_apply_def handle_message_def handle_register_def handle_hello_def Let_def case_prod_unfold
      split: if_splits)

text \<open>The invariant of the state: the workers on duty are known, and a graph that is not invalidated was
  published under the current cache generation.\<close>

definition coord_inv :: "State \<Rightarrow> bool" where
  "coord_inv st \<longleftrightarrow> finite (co_worker_connected st)
     \<and> co_worker_connected st \<subseteq> dom (co_worker_boot st) \<inter> dom (co_worker_sock st)
     \<and> (\<forall>k e. co_graphs st k = Some e \<and> k \<notin> co_invalidated st \<longrightarrow> ent_cache_gen_at_publish e = cg_value (co_cache_gen st))"

lemma map_at_Some [simp]: "m k = Some v \<Longrightarrow> map_at m k = v"
  by (simp add: map_at_def)

lemma dom_map_touch [simp]: "dom (map_touch m k) = insert k (dom m)"
  by (simp add: map_touch_def)

lemma map_touch_dom [simp]: "k \<in> dom m \<Longrightarrow> map_touch m k = m"
  by (auto simp: map_touch_def intro: fun_upd_idem)

lemma coord_inv_start: "coord_inv State_default"
  by (simp add: coord_inv_def State_default_def)

lemma coord_inv_cong:
  "coord_inv st \<Longrightarrow> co_worker_connected st' = co_worker_connected st \<Longrightarrow> dom (co_worker_boot st) \<subseteq> dom (co_worker_boot st')
   \<Longrightarrow> dom (co_worker_sock st) \<subseteq> dom (co_worker_sock st') \<Longrightarrow> co_graphs st' = co_graphs st
   \<Longrightarrow> co_invalidated st' = co_invalidated st \<Longrightarrow> co_cache_gen st' = co_cache_gen st \<Longrightarrow> coord_inv st'"
  by (simp add: coord_inv_def) blast

lemma coord_inv_lookup: "coord_inv st \<Longrightarrow> coord_inv (snd (handle_lookup s m st))"
  by (erule coord_inv_cong) (auto simp: handle_lookup_def Let_def split: sum.splits option.splits)

lemma coord_inv_publish: "coord_inv st \<Longrightarrow> coord_inv (publish hex pc gen st)"
  by (auto simp: coord_inv_def publish_def Let_def)

lemma coord_inv_consumed:
  "coord_inv st \<Longrightarrow> coord_inv (st\<lparr>co_pending := p\<rparr>)"
  "coord_inv st \<Longrightarrow> coord_inv (st\<lparr>co_pending := p, co_graph_gen_counter := g\<rparr>)"
  by (simp_all add: coord_inv_def)

lemma coord_inv_capture_result: "coord_inv st \<Longrightarrow> coord_inv (snd (handle_capture_result s m st))"
  by (simp add: handle_capture_result_def Let_def coord_inv_publish coord_inv_consumed case_prod_unfold
      split: option.split)

lemma coord_inv_replay:
  "coord_inv st \<Longrightarrow> coord_inv (snd (handle_replay_instruct s m st))"
  "coord_inv st \<Longrightarrow> coord_inv (snd (handle_replay_result s m st))"
  by (erule coord_inv_cong; auto simp: handle_replay_instruct_def handle_replay_result_def Let_def split: option.splits)+

lemma coord_inv_invalidate: "coord_inv st \<Longrightarrow> coord_inv (snd (handle_invalidate s m st))"
  by (auto simp: coord_inv_def handle_invalidate_def Let_def)

lemma coord_inv_apply: "coord_inv st \<Longrightarrow> coord_inv (snd (co_apply st i))"
proof (cases i)
  case (CI_Message s m)
  assume inv: "coord_inv st"
  then have "coord_inv (snd (snd (handle_register s m c st)))" "coord_inv (snd (snd (handle_hello s m c st)))" for c
    by (auto simp: coord_inv_def handle_register_def handle_hello_def Let_def)
  with CI_Message inv coord_inv_lookup [OF inv, of s m] coord_inv_capture_result [OF inv, of s m]
    coord_inv_replay [OF inv, of s m] coord_inv_invalidate [OF inv, of s m]
  show ?thesis by (simp add: co_apply_def handle_message_def Let_def case_prod_unfold)
qed (auto simp: co_apply_def coord_inv_def)

lemma coord_inv_run: "coord_inv st \<Longrightarrow> coord_inv (snd (co_run st is))"
  by (induction "is" arbitrary: st) (simp_all add: case_prod_unfold coord_inv_apply)

end
