(* ===== verification/GC_Authority.thy ===== *)
theory GC_Authority
  imports GC_Coordinator
begin

text \<open>
  What the coordinator guarantees: the bytes of a connection are cut into messages independently of how
  they arrive, authority only moves forward, a replay is routed only to a graph published under the
  current cache generation, and a capture completes at most once. These hold along every run, a sequence
  of messages and lost workers; \<open>GC_Streams\<close> shows that the main loop is such a run.
\<close>

section \<open>Streams\<close>

lemma frame_len_append: "4 \<le> length a \<Longrightarrow> frame_len (a @ b) = frame_len a"
  by (auto simp: frame_len_def nth_append)

lemma frames_loop_append:
  "frames_loop s a cv = (rest, close, cv') \<Longrightarrow>
     frames_loop s (a @ b) cv = (if close then (rest @ b, True, cv') else frames_loop s (rest @ b) cv')"
proof (induction s a cv arbitrary: rest cv' rule: frames_loop.induct)
  case (1 s buf cv)
  let ?len = "frame_len buf"
  consider "length buf < 4" | "4 \<le> length buf" "?len = 0" | "4 \<le> length buf" "?len \<noteq> 0" "MaxFrameSize < ?len"
    | "4 \<le> length buf" "?len \<noteq> 0" "\<not> MaxFrameSize < ?len" "length buf < 4 + unat ?len"
    | "4 \<le> length buf" "?len \<noteq> 0" "\<not> MaxFrameSize < ?len" "4 + unat ?len \<le> length buf"
    by linarith
  then show ?case
  proof cases
    case 2
    with "1.prems" have "frames_loop s (drop 4 buf) cv = (rest, close, cv')" by (simp add: frames_loop.simps [of s buf])
    from "1.IH"(1) [OF _ _ _ this] 2 show ?thesis
      by (simp add: frames_loop.simps [of s "buf @ b"] frame_len_append)
  next
    case 3
    with "1.prems" show ?thesis
      by (auto simp add: frames_loop.simps [of s buf] frames_loop.simps [of s "rest @ b"] frame_len_append Let_def)
  next
    case 5
    with "1.prems" have "frames_loop s (drop (4 + unat ?len) buf) (handle_frame s (take (unat ?len) (drop 4 buf)) cv) = (rest, close, cv')"
      by (simp add: frames_loop.simps [of s buf] Let_def)
    from "1.IH"(2) [OF _ _ _ _ _ this] 5 show ?thesis
      by (simp add: frames_loop.simps [of s "buf @ b"] frame_len_append Let_def)
  qed (use "1.prems" in \<open>auto simp add: frames_loop.simps [of s buf] Let_def\<close>)
qed

lemma frame_len_frame: "length body < 2 ^ 32 \<Longrightarrow> unat (frame_len (frame_of body @ rest)) = length body"
  using le_word_4 [of "put_u32_le (word_of_nat (length body))"]
  by (simp add: frame_of_def frame_len_def nth_append unat_of_nat)

lemma frames_loop_message:
  assumes "message_ok m"
  shows "frames_loop s (frame_of (encode_message m) @ rest) cv = frames_loop s rest (handle_frame s (encode_message m) cv)"
proof -
  let ?buf = "frame_of (encode_message m) @ rest" and ?n = "74 + length (pm_payload m)"
  have n: "unat (frame_len ?buf) = ?n"
    using frame_len_frame [of "encode_message m" rest] assms by (simp add: size_simps message_ok_def)
  moreover have "\<not> MaxFrameSize < frame_len ?buf"
    using n assms by (simp add: word_less_nat_alt MaxFrameSize_def message_ok_def)
  moreover have "frame_len ?buf \<noteq> 0" using n by (metis add_eq_0_iff_both_eq_0 unat_0 zero_neq_numeral)
  moreover have "length ?buf = 4 + (?n + length rest)" by (simp add: frame_of_def size_simps)
  moreover have "take ?n (drop 4 ?buf) = encode_message m" "drop (4 + ?n) ?buf = rest"
    by (simp_all add: frame_of_def size_simps)
  ultimately show ?thesis by (simp add: frames_loop.simps [of s ?buf] Let_def size_simps)
qed

lemma frames_loop_messages:
  "list_all message_ok ms \<Longrightarrow>
     frames_loop s (concat (map (\<lambda>m. frame_of (encode_message m)) ms)) cv
     = ([], False, foldl (\<lambda>cv m. handle_frame s (encode_message m) cv) cv ms)"
  by (induction ms arbitrary: cv) (simp_all add: frames_loop_message, simp add: frames_loop.simps)

lemma handle_frame_buf: "cc_buf (fst (handle_frame s body cv)) = cc_buf (fst cv)"
  using handle_message_conn by (auto simp: handle_frame_def split: prod.splits sum.splits)

lemma frames_loop_buf: "frames_loop s buf cv = (rest, close, cv') \<Longrightarrow> cc_buf (fst cv') = cc_buf (fst cv)"
proof (induction s buf cv rule: frames_loop.induct)
  case (1 s buf cv)
  from "1.prems" "1.IH" handle_frame_buf show ?case
    by (subst (asm) frames_loop.simps) (auto simp: Let_def split: if_splits)
qed


text \<open>A connection whose bytes arrive in the given chunks, and a message handled on it.\<close>

definition conn_stream :: "i64 \<Rightarrow> bytes list \<Rightarrow> bool \<times> Conn \<times> server \<Rightarrow> bool \<times> Conn \<times> server" where
  "conn_stream s chunks = (\<lambda>acc. foldl (\<lambda>(close, cv) data. if close then (close, cv) else conn_recv s data cv) acc chunks)"

definition deliver :: "i64 \<Rightarrow> Conn \<times> server \<Rightarrow> ProtocolMessage \<Rightarrow> Conn \<times> server" where
  "deliver s cv m = (case cv of (c, sv) \<Rightarrow> case handle_message s m c (sv_state sv) of (outs, go, c, st) \<Rightarrow>
     (c, sv\<lparr>sv_state := st, sv_running := sv_running sv \<and> go, sv_sent := sv_sent sv @ outs\<rparr>))"

lemma handle_frame_deliver: "message_ok m \<Longrightarrow> handle_frame s (encode_message m) cv = deliver s cv m"
  by (simp add: handle_frame_def deliver_def decode_encode_message split: prod.splits)

lemma conn_buf_idem: "cc_buf c = b \<Longrightarrow> c\<lparr>cc_buf := b\<rparr> = c"
  by (cases c) simp

lemma conn_stream_frames:
  "frames_loop s (cc_buf c @ concat chunks) (c\<lparr>cc_buf := []\<rparr>, sv) = (rest, False, c', sv') \<Longrightarrow>
     chunks \<noteq> [] \<Longrightarrow> conn_stream s chunks (False, c, sv) = (False, c'\<lparr>cc_buf := rest\<rparr>, sv')"
proof (induction chunks arbitrary: c sv)
  case (Cons data chunks)
  obtain rest1 close c1 sv1 where l: "frames_loop s (cc_buf c @ data) (c\<lparr>cc_buf := []\<rparr>, sv) = (rest1, close, c1, sv1)"
    using prod_cases4 by blast
  from frames_loop_append [OF l, of "concat chunks"] Cons.prems(1)
  have n: "\<not> close" and r: "frames_loop s (rest1 @ concat chunks) (c1, sv1) = (rest, False, c', sv')"
    by (auto split: if_splits)
  have "cc_buf c1 = []" using frames_loop_buf [OF l] by simp
  then have c1: "c1\<lparr>cc_buf := []\<rparr> = c1" by (rule conn_buf_idem)
  have step: "conn_recv s data (c, sv) = (False, c1\<lparr>cc_buf := rest1\<rparr>, sv1)" using l n by (simp add: conn_recv_def)
  show ?case
  proof (cases "chunks = []")
    case True
    then have "frames_loop s (cc_buf c @ data) (c\<lparr>cc_buf := []\<rparr>, sv) = (rest, False, c', sv')" using Cons.prems(1) by simp
    then show ?thesis using True step l by (simp add: conn_stream_def)
  next
    case False
    have "conn_stream s chunks (False, c1\<lparr>cc_buf := rest1\<rparr>, sv1) = (False, c'\<lparr>cc_buf := rest\<rparr>, sv')"
      using Cons.IH [of "c1\<lparr>cc_buf := rest1\<rparr>" sv1] r c1 False by simp
    then show ?thesis using step by (simp add: conn_stream_def)
  qed
qed simp


text \<open>
  C25: The coordinator handles exactly the messages its peer sent, in order, however TCP cuts the bytes:
  if the chunks that arrive on a connection make up the frames of well-formed messages, feeding them to
  the connection one after the other handles these messages one after the other, leaves the buffer
  empty and the connection open.
\<close>

theorem coordinator_reassembles:
  assumes "list_all message_ok ms" and "concat chunks = concat (map (\<lambda>m. frame_of (encode_message m)) ms)"
    and "cc_buf c = []"
  shows "conn_stream s chunks (False, c, sv) = (False, foldl (deliver s) (c, sv) ms)"
proof (cases "chunks = []")
  case True
  then have "ms = []" using assms(2) by (cases ms) (auto simp: frame_of_def encode_message_def put_u8_le_def)
  with True show ?thesis by (simp add: conn_stream_def)
next
  case False
  let ?cv = "foldl (deliver s) (c, sv) ms"
  have "foldl (\<lambda>cv m. handle_frame s (encode_message m) cv) cv ms = foldl (deliver s) cv ms" for cv
    using assms(1) by (induction ms arbitrary: cv) (simp_all add: handle_frame_deliver)
  then have "frames_loop s (cc_buf c @ concat chunks) (c, sv) = ([], False, ?cv)"
    using frames_loop_messages [OF assms(1)] assms(2,3) by simp
  then have l: "frames_loop s (cc_buf c @ concat chunks) (c\<lparr>cc_buf := []\<rparr>, sv) = ([], False, ?cv)"
    by (simp only: conn_buf_idem [OF assms(3)])
  then have "cc_buf (fst ?cv) = []" using frames_loop_buf [OF l] by simp
  then have "((fst ?cv)\<lparr>cc_buf := []\<rparr>, snd ?cv) = ?cv" by (simp only: conn_buf_idem prod.collapse)
  with conn_stream_frames [of s c chunks sv "[]" "fst ?cv" "snd ?cv"] l False show ?thesis
    by (simp only: prod.collapse not_False_eq_True simp_thms)
qed

section \<open>Authority only moves forward\<close>

definition unwrapped_run :: "State \<Rightarrow> nat \<Rightarrow> bool" where
  "unwrapped_run st n \<longleftrightarrow> unat (co_graph_gen_counter st) + n < 2 ^ 64 \<and> unat (co_capture_counter st) + n < 2 ^ 64
     \<and> unat (cg_value (co_cache_gen st)) + n < 2 ^ 64"

text \<open>The effect of an input on the counters and on the tables, in one relation.\<close>

definition succ_or_same :: "u64 \<Rightarrow> u64 \<Rightarrow> bool" where
  "succ_or_same a b \<longleftrightarrow> b = a \<or> b = a + 1"

definition moves :: "State \<Rightarrow> State \<Rightarrow> bool" where
  "moves st st' \<longleftrightarrow> succ_or_same (co_graph_gen_counter st) (co_graph_gen_counter st')
     \<and> succ_or_same (co_capture_counter st) (co_capture_counter st')
     \<and> succ_or_same (cg_value (co_cache_gen st)) (cg_value (co_cache_gen st'))
     \<and> (\<forall>k e. co_graphs st' k = Some e \<longrightarrow> co_graphs st k = Some e \<and> (k \<in> co_invalidated st \<longrightarrow> k \<in> co_invalidated st')
          \<or> ent_generation e = GraphGeneration (co_graph_gen_counter st + 1) \<and> co_graph_gen_counter st' = co_graph_gen_counter st + 1)
     \<and> (\<forall>a. co_pending st' a \<noteq> None \<longrightarrow> co_pending st a \<noteq> None \<or> a = co_capture_counter st + 1 \<and> co_capture_counter st' = a)"

lemma moves_same:
  "co_graph_gen_counter st' = co_graph_gen_counter st \<Longrightarrow> co_capture_counter st' = co_capture_counter st
   \<Longrightarrow> co_cache_gen st' = co_cache_gen st \<Longrightarrow> co_graphs st' = co_graphs st \<Longrightarrow> co_invalidated st' = co_invalidated st
   \<Longrightarrow> co_pending st' = co_pending st \<Longrightarrow> moves st st'"
  by (simp add: moves_def succ_or_same_def)

lemma moves_lookup: "moves st (snd (handle_lookup s m st))"
  by (auto simp: moves_def succ_or_same_def handle_lookup_def Let_def split: sum.splits option.splits)

lemma moves_capture_result: "moves st (snd (handle_capture_result s m st))"
  by (auto simp: moves_def succ_or_same_def handle_capture_result_def publish_def Let_def split: option.splits)

lemma moves_replay: "moves st (snd (handle_replay_instruct s m st))" "moves st (snd (handle_replay_result s m st))"
  by (rule moves_same; auto simp: handle_replay_instruct_def handle_replay_result_def Let_def split: option.splits)+

lemma moves_invalidate: "moves st (snd (handle_invalidate s m st))"
  by (auto simp: moves_def succ_or_same_def handle_invalidate_def Let_def)

lemma moves_apply: "moves st (snd (co_apply st i))"
proof (cases i)
  case (CI_Message s m)
  have "moves st (snd (snd (handle_register s m c st)))" "moves st (snd (snd (handle_hello s m c st)))" for c
    by (auto simp: handle_register_def handle_hello_def Let_def intro!: moves_same)
  with CI_Message moves_lookup [of st s m] moves_capture_result [of st s m] moves_replay [of st s m]
    moves_invalidate [of st s m] moves_same [of st st]
  show ?thesis by (simp add: co_apply_def handle_message_def Let_def case_prod_unfold)
qed (auto simp: co_apply_def intro: moves_same)


lemma succ_greater_u64: "unat (a :: u64) + 1 < 2 ^ 64 \<Longrightarrow> a < a + 1"
  by (simp add: word_less_nat_alt unat_word_ariths)

lemma succ_or_sameD:
  assumes "succ_or_same a b" and "unat a + n < 2 ^ 64" and "0 < n"
  shows "a \<le> b" and "unat b + (n - 1) < 2 ^ 64"
proof -
  have "unat (a + 1) = unat a + 1" using assms(2,3) by (simp add: unat_word_ariths)
  with assms show "a \<le> b" "unat b + (n - 1) < 2 ^ 64" by (auto simp: succ_or_same_def word_le_nat_alt)
qed

lemma unwrapped_moves: "moves st st' \<Longrightarrow> unwrapped_run st (Suc n) \<Longrightarrow> unwrapped_run st' n"
  using succ_or_sameD(2) [where n = "Suc n"] by (auto simp: moves_def unwrapped_run_def)

lemma unwrapped_less: "unwrapped_run st n \<Longrightarrow> m \<le> n \<Longrightarrow> unwrapped_run st m"
  by (auto simp: unwrapped_run_def)

text \<open>A property of the state that every input keeps, as long as no counter wraps around, holds along a run.\<close>

locale run_invariant =
  fixes P :: "State \<Rightarrow> bool"
  assumes kept: "P st \<Longrightarrow> unwrapped_run st 1 \<Longrightarrow> moves st st' \<Longrightarrow> P st'"
begin

lemma after_run: "P st \<Longrightarrow> unwrapped_run st (length is) \<Longrightarrow> P (snd (co_run st is))"
proof (induction "is" arbitrary: st)
  case (Cons i "is")
  from Cons.prems have "P (snd (co_apply st i))" "unwrapped_run (snd (co_apply st i)) (length is)"
    using kept [OF _ _ moves_apply] unwrapped_moves [OF moves_apply] unwrapped_less by auto
  with Cons.IH show ?case by (simp add: case_prod_unfold)
qed simp

end

lemma unwrapped_after_run:
  "unwrapped_run st (length is + n) \<Longrightarrow> unwrapped_run (snd (co_run st is)) n"
proof (induction "is" arbitrary: st)
  case (Cons i "is")
  then show ?case using unwrapped_moves [OF moves_apply, of st "length is + n" i] by (simp add: case_prod_unfold)
qed simp

definition past_generation :: "u64 \<Rightarrow> State \<Rightarrow> bool" where
  "past_generation g st \<longleftrightarrow> g < cg_value (co_cache_gen st)"

definition consumed :: "u64 \<Rightarrow> State \<Rightarrow> bool" where
  "consumed a st \<longleftrightarrow> a \<le> co_capture_counter st \<and> co_pending st a = None"

definition only_fresh :: "u64 \<Rightarrow> State \<Rightarrow> bool" where
  "only_fresh g st \<longleftrightarrow> g \<le> co_graph_gen_counter st
     \<and> (\<forall>k e. co_graphs st k = Some e \<and> k \<notin> co_invalidated st \<longrightarrow> g < gg_value (ent_generation e))"

definition pending_known :: "State \<Rightarrow> bool" where
  "pending_known st \<longleftrightarrow> (\<forall>a. co_pending st a \<noteq> None \<longrightarrow> a \<le> co_capture_counter st)"

interpretation past: run_invariant "past_generation g" for g
proof unfold_locales
  show "past_generation g st'" if "past_generation g st" "unwrapped_run st 1" "moves st st'" for st st'
    using that succ_or_sameD(1) [of "cg_value (co_cache_gen st)" "cg_value (co_cache_gen st')" 1]
    by (simp add: past_generation_def unwrapped_run_def moves_def less_le_trans)
qed

interpretation once: run_invariant "consumed a" for a
proof unfold_locales
  show "consumed a st'" if "consumed a st" "unwrapped_run st 1" "moves st st'" for st st'
  proof -
    have "co_capture_counter st < co_capture_counter st + 1" "co_capture_counter st \<le> co_capture_counter st'"
      using that(2,3) succ_greater_u64 succ_or_sameD(1) [of "co_capture_counter st" _ 1]
      by (simp_all add: unwrapped_run_def moves_def)
    with that show ?thesis by (force simp: consumed_def moves_def)
  qed
qed

interpretation fence: run_invariant "only_fresh g" for g
proof unfold_locales
  show "only_fresh g st'" if "only_fresh g st" "unwrapped_run st 1" "moves st st'" for st st'
  proof -
    have "co_graph_gen_counter st < co_graph_gen_counter st + 1" "co_graph_gen_counter st \<le> co_graph_gen_counter st'"
      using that(2,3) succ_greater_u64 succ_or_sameD(1) [of "co_graph_gen_counter st" _ 1]
      by (simp_all add: unwrapped_run_def moves_def)
    with that show ?thesis by (fastforce simp: only_fresh_def moves_def)
  qed
qed

interpretation known: run_invariant pending_known
proof unfold_locales
  show "pending_known st'" if "pending_known st" "unwrapped_run st 1" "moves st st'" for st st'
  proof -
    have "co_capture_counter st \<le> co_capture_counter st'"
      using that(2,3) succ_or_sameD(1) [of "co_capture_counter st" _ 1] by (simp add: unwrapped_run_def moves_def)
    moreover have "co_pending st a \<noteq> None \<or> a = co_capture_counter st'" if "co_pending st' a \<noteq> None" for a
      using \<open>moves st st'\<close> that by (auto simp: moves_def)
    ultimately show ?thesis using that(1) unfolding pending_known_def by (metis order_refl order_trans)
  qed
qed


section \<open>Requests\<close>

text \<open>Completions and invalidations, with the checks of authority that precede their handlers.\<close>

lemma capture_result_apply:
  assumes "pm_type m = PT_CaptureResult"
  shows "co_apply st (CI_Message s m) =
    (if is_stale_epoch st m then (reply st s PT_LookupResult (pm_request_id m) PS_StaleEpoch, st)
     else if is_stale_cache_gen st m then (reply st s PT_LookupResult (pm_request_id m) PS_StaleCacheGeneration, st)
     else if is_stale_boot st m then (reply st s PT_LookupResult (pm_request_id m) PS_StaleWorkerBoot, st)
     else handle_capture_result s m st)"
  using assms by (simp add: co_apply_def handle_message_def Let_def case_prod_unfold)

lemma capture_result_no_pending:
  "co_pending st (ca_value (pm_capture_attempt m)) = None \<Longrightarrow>
     handle_capture_result s m st = (reply st s PT_LookupResult (pm_request_id m) PS_DuplicateCaptureCompletion, st)"
  by (simp add: handle_capture_result_def Let_def)

lemma capture_result_consumes:
  "co_pending (snd (handle_capture_result s m st)) (ca_value (pm_capture_attempt m)) = None"
  "co_capture_counter (snd (handle_capture_result s m st)) = co_capture_counter st"
  by (auto simp: handle_capture_result_def publish_def Let_def split: option.splits)

lemma invalidate_accepted:
  assumes "pm_type m = PT_Invalidate" and "co_apply st (CI_Message s m) = (outs, st1)" and "st1 \<noteq> st"
  shows "st1 = snd (handle_invalidate s m st)"
  using assms by (auto simp: co_apply_def handle_message_def Let_def case_prod_unfold split: if_splits)

lemma unwrapped_start: "n < 2 ^ 64 - 1 \<Longrightarrow> unwrapped_run State_default n"
  by (simp add: unwrapped_run_def State_default_def)

lemma after_accepted:
  assumes "co_run State_default is = (outs, st)" and "co_apply st i = (outs1, st1)" and "length is + n < 2 ^ 64 - 2"
  shows "unwrapped_run st (Suc n)" and "unwrapped_run st1 n"
proof -
  show u: "unwrapped_run st (Suc n)"
    using unwrapped_after_run [of State_default "is" "Suc n"] unwrapped_start assms(1,3) by simp
  show "unwrapped_run st1 n" using unwrapped_moves [OF moves_apply u, of i] assms(2) by simp
qed

lemma sent_types:
  "(t, r) \<in> set (send_status st s type rid status ep cg) \<Longrightarrow> pm_type r = type"
  "pm_type (graph_reply st rid gen hex) = PT_LookupResult"
  "pm_type (capture_instruct st wid a desc wl) = PT_CaptureInstruct"
  by (simp_all add: send_status_def graph_reply_def capture_instruct_def)

lemma replay_instruct_sender:
  assumes "(t, r) \<in> set (fst (co_apply st (CI_Message s m)))" and "pm_type r = PT_ReplayInstruct"
  shows "co_apply st (CI_Message s m) = handle_replay_instruct s m st"
proof -
  have "pm_type r \<noteq> PT_ReplayInstruct" if "(t, r) \<in> set (fst (handle_lookup s m st))"
    using that by (auto simp: handle_lookup_def Let_def sent_types split: sum.splits option.splits if_splits)
  moreover have "pm_type r \<noteq> PT_ReplayInstruct" if "(t, r) \<in> set (fst (handle_capture_result s m st))"
    using that by (auto simp: handle_capture_result_def Let_def sent_types split: option.splits if_splits)
  moreover have "pm_type r \<noteq> PT_ReplayInstruct" if "(t, r) \<in> set (fst (handle_replay_result s m st))"
    using that by (auto simp: handle_replay_result_def Let_def split: option.splits)
  moreover have "pm_type r \<noteq> PT_ReplayInstruct" if "(t, r) \<in> set (fst (handle_invalidate s m st))"
    using that by (auto simp: handle_invalidate_def Let_def)
  moreover have "pm_type r \<noteq> PT_ReplayInstruct"
    if "(t, r) \<in> set (fst (handle_register s m c st)) \<or> (t, r) \<in> set (fst (handle_hello s m c st))" for c
    using that by (auto simp: handle_register_def handle_hello_def Let_def sent_types split: if_splits)
  ultimately show ?thesis using assms
    by (auto simp: co_apply_def handle_message_def Let_def case_prod_unfold sent_types split: if_splits)
qed

text \<open>
  C20: A capture completes at most once. If a completion had any effect, then in every state the
  coordinator reaches afterwards another completion of the same attempt, from whatever connection, is
  refused and changes nothing (below \<open>2 ^ 64\<close> inputs).
\<close>

theorem capture_completes_once:
  assumes "co_run State_default is = (outs, st)" and "pm_type m = PT_CaptureResult"
    and "co_apply st (CI_Message s m) = (outs1, st1)" and "st1 \<noteq> st"
    and "co_run st1 js = (outs2, st2)" and "length is + length js < 2 ^ 64 - 2"
    and "pm_type m' = PT_CaptureResult" and "pm_capture_attempt m' = pm_capture_attempt m"
  shows "\<exists>status. status \<noteq> PS_Ok
     \<and> co_apply st2 (CI_Message s' m') = (reply st2 s' PT_LookupResult (pm_request_id m') status, st2)"
proof -
  let ?a = "ca_value (pm_capture_attempt m)"
  have h: "st1 = snd (handle_capture_result s m st)" "co_pending st ?a \<noteq> None"
    using assms(3,4) capture_result_no_pending [of st m s] capture_result_apply [OF assms(2), of st s]
    by (auto split: if_splits)
  have "pending_known st"
    using known.after_run [of State_default "is"] assms(1,6) unwrapped_start
    by (simp add: pending_known_def State_default_def)
  then have "consumed ?a st1"
    using h capture_result_consumes [of s m st] by (auto simp: consumed_def pending_known_def)
  from once.after_run [OF this after_accepted(2) [OF assms(1,3,6)]]
  have "co_pending st2 ?a = None" using assms(5) by (simp add: consumed_def)
  then have "handle_capture_result s' m' st2
      = (reply st2 s' PT_LookupResult (pm_request_id m') PS_DuplicateCaptureCompletion, st2)"
    using capture_result_no_pending assms(8) by simp
  then show ?thesis using capture_result_apply [OF assms(7), of st2 s'] by auto
qed

text \<open>
  C21: Invalidation is a fence. After the coordinator accepted an invalidation, every graph that it
  considers valid in any later state was published by a completion it handled after the invalidation:
  the graph's generation is above every generation given out before, and it was published under the
  cache generation in force.
\<close>

theorem invalidation_fences:
  assumes "co_run State_default is = (outs, st)" and "pm_type m = PT_Invalidate"
    and "co_apply st (CI_Message s m) = (outs1, st1)" and "st1 \<noteq> st"
    and "co_run st1 js = (outs2, st2)" and "length is + length js < 2 ^ 64 - 2"
    and "co_graphs st2 k = Some e" and "k \<notin> co_invalidated st2"
  shows "co_graph_gen_counter st < gg_value (ent_generation e)
     \<and> ent_cache_gen_at_publish e = cg_value (co_cache_gen st2)"
proof -
  have st1: "st1 = snd (handle_invalidate s m st)" using invalidate_accepted assms(2-4) by blast
  note u = after_accepted(2) [OF assms(1,3,6)]
  have "only_fresh (co_graph_gen_counter st) st1"
    by (auto simp: st1 only_fresh_def handle_invalidate_def Let_def)
  from fence.after_run [OF this u] have "only_fresh (co_graph_gen_counter st) st2" using assms(5) by simp
  moreover have "coord_inv st2"
    using coord_inv_run [OF coord_inv_run [OF coord_inv_start, of "is @ [CI_Message s m]"], of js] assms(1,3,5)
    by (simp add: co_run_append)
  ultimately show ?thesis using assms(7,8) by (auto simp: only_fresh_def coord_inv_def)
qed

text \<open>
  C22: A completion that was under way when the coordinator accepted an invalidation is refused. The
  worker echoes the cache generation of the instruction, and in every later state a completion that
  carries a cache generation from before the invalidation is answered to its sender with a staleness
  status and changes nothing.
\<close>

theorem late_completion_refused:
  assumes "co_run State_default is = (outs, st)" and "pm_type m = PT_Invalidate"
    and "co_apply st (CI_Message s m) = (outs1, st1)" and "st1 \<noteq> st"
    and "co_run st1 js = (outs2, st2)" and "length is + length js < 2 ^ 64 - 2"
    and "pm_type r = PT_CaptureResult" and "pm_cache_gen r = CacheGeneration g" and "g \<noteq> 0"
    and "g \<le> cg_value (co_cache_gen st)"
  shows "\<exists>status. status \<in> {PS_StaleEpoch, PS_StaleCacheGeneration}
     \<and> co_apply st2 (CI_Message w r) = (reply st2 w PT_LookupResult (pm_request_id r) status, st2)"
proof -
  have st1: "st1 = snd (handle_invalidate s m st)" using invalidate_accepted assms(2-4) by blast
  note u0 = after_accepted(1) [OF assms(1,3,6)] and u = after_accepted(2) [OF assms(1,3,6)]
  have "cg_value (co_cache_gen st) < cg_value (co_cache_gen st) + 1"
    using u0 by (intro succ_greater_u64) (simp add: unwrapped_run_def)
  then have "past_generation g st1" using assms(10)
    by (simp add: st1 past_generation_def handle_invalidate_def Let_def le_less_trans)
  from past.after_run [OF this u] have "g < cg_value (co_cache_gen st2)" using assms(5) by (simp add: past_generation_def)
  then have "is_stale_cache_gen st2 r"
    using assms(8,9) by (auto simp: is_stale_cache_gen_def CacheGeneration_valid_def dest: arg_cong [of _ _ cg_value])
  with capture_result_apply [OF assms(7), of st2 w] show ?thesis by auto
qed

text \<open>
  C23: The coordinator routes a replay only to the live graph asked for: in every state a run reaches, a
  replay instruction it sends is for an artifact that is registered, not invalidated since, published under
  the cache generation in force and of the generation the client named (if any); it carries that generation,
  the current epoch and cache generation and the client's payload, and goes to the socket registered for the
  worker id that the graph's entry records.
\<close>

theorem replay_routed_to_live_graph:
  assumes "co_run State_default is = (outs0, st)"
    and "co_apply st (CI_Message s m) = (outs, st')" and "(t, r) \<in> set outs" and "pm_type r = PT_ReplayInstruct"
  shows "\<exists>hex rest e. read_field 1 decode_str (canonical_reader (pm_payload m)) = Some (hex, rest)
     \<and> co_graphs st (artifact_key hex) = Some e \<and> artifact_key hex \<notin> co_invalidated st
     \<and> ent_cache_gen_at_publish e = cg_value (co_cache_gen st)
     \<and> (GraphGeneration_valid (pm_graph_gen m) \<longrightarrow> pm_graph_gen m = ent_generation e)
     \<and> pm_graph_gen r = ent_generation e \<and> pm_epoch r = co_epoch st \<and> pm_cache_gen r = co_cache_gen st
     \<and> pm_payload r = pm_payload m \<and> co_worker_sock st (ent_worker_id e) = Some t"
proof -
  have "coord_inv st" using coord_inv_run [OF coord_inv_start, of "is"] assms(1) by simp
  moreover have "co_apply st (CI_Message s m) = handle_replay_instruct s m st"
    using replay_instruct_sender [of t r st s m] assms(2-4) by simp
  ultimately show ?thesis using assms(2-4)
    by (auto simp: handle_replay_instruct_def send_status_def Let_def coord_inv_def split: option.splits if_splits)
qed

section \<open>An example run\<close>

text \<open>A worker registers, a client looks up a graph, the worker reports it captured.\<close>

definition example_register :: co_input where
  "example_register = CI_Message 10 (ProtocolMessage_default\<lparr>pm_type := PT_Register, pm_worker_id := WorkerId 1,
     pm_worker_boot := WorkerBootId 5, pm_epoch := CoordinatorEpoch 1\<rparr>)"

definition example_lookup :: co_input where
  "example_lookup = CI_Message 11 (ProtocolMessage_default\<lparr>pm_type := PT_Lookup, pm_request_id := 7,
     pm_payload := encode_capture GraphDescriptor_default WorkloadIdentity_default\<rparr>)"

definition example_result :: ProtocolMessage where
  "example_result = ProtocolMessage_default\<lparr>pm_type := PT_CaptureResult, pm_epoch := CoordinatorEpoch 1,
     pm_cache_gen := CacheGeneration 1, pm_worker_id := WorkerId 1, pm_worker_boot := WorkerBootId 5,
     pm_capture_attempt := CaptureAttemptId 1, pm_payload := put_str 1 ''00''\<rparr>"

definition example_invalidate :: ProtocolMessage where
  "example_invalidate = ProtocolMessage_default\<lparr>pm_type := PT_Invalidate\<rparr>"

lemma decode_lookup_encode:
  assumes "descriptor_ok desc" and "fits32 (serialize_descriptor desc)"
    and "fits32 (wl_name wl)" and "fits32 (wl_namespace wl)" and "fits32 (wl_model_revision wl)"
  shows "decode_lookup (encode_capture desc wl) = Inr (descriptor_view desc,
     WorkloadIdentity_default\<lparr>wl_name := wl_name wl, wl_version := wl_version wl, wl_namespace := wl_namespace wl,
       wl_model_revision := wl_model_revision wl\<rparr>)"
proof -
  note str = read_put(6) [of "wl_model_revision wl" _ "[]", simplified]
  have "deserialize_descriptor (serialize_descriptor desc) = success (descriptor_view desc)"
    using deserialize_serialize_rest [OF assms(1), of "[]"] by simp
  with assms(2-) show ?thesis by (simp add: decode_lookup_def encode_capture_def read_put str or_status_def)
qed

lemma example_default_fits: "fits32 (serialize_descriptor GraphDescriptor_default)"
  by (simp add: fits32_def serialize_descriptor_def GraphDescriptor_default_def BackendIdentity_default_def
      RuntimeDescriptor_default_def DeviceDescriptor_default_def SynchronizationDescriptor_default_def
      ProvenanceDescriptor_default_def put_is_field)

definition example_key :: string where
  "example_key = lookup_key (descriptor_view GraphDescriptor_default) WorkloadIdentity_default"

definition example_pending :: State where
  "example_pending = State_default\<lparr>co_worker_boot := [1 \<mapsto> 5], co_worker_connected := {1}, co_worker_sock := [1 \<mapsto> 10],
     co_capture_counter := 1, co_pending := [1 \<mapsto> \<lparr>pnd_client_sock = 11, pnd_worker_id = 1, pnd_request_id = 7,
       pnd_key = example_key\<rparr>]\<rparr>"

lemma example_run: "\<exists>outs. co_run State_default [example_register, example_lookup] = (outs, example_pending)"
proof -
  let ?st = "State_default\<lparr>co_worker_boot := [1 \<mapsto> 5], co_worker_connected := {1}, co_worker_sock := [1 \<mapsto> 10]\<rparr>"
  have "\<exists>outs. co_apply State_default example_register = (outs, ?st)"
    by (simp add: example_register_def co_apply_def handle_message_def handle_register_def State_default_def
        is_stale_epoch_def ProtocolMessage_default_def Let_def)
  moreover have "decode_lookup (encode_capture GraphDescriptor_default WorkloadIdentity_default)
      = Inr (descriptor_view GraphDescriptor_default, WorkloadIdentity_default)"
    using decode_lookup_encode [OF descriptor_ok_default example_default_fits, of WorkloadIdentity_default]
    by (simp add: WorkloadIdentity_default_def fits32_def)
  then have "\<exists>outs. co_apply ?st example_lookup = (outs, example_pending)"
    by (simp add: example_lookup_def example_pending_def example_key_def co_apply_def handle_message_def handle_lookup_def
        State_default_def is_stale_epoch_def is_stale_cache_gen_def is_stale_boot_def ProtocolMessage_default_def
        CoordinatorEpoch_valid_def CacheGeneration_valid_def WorkerId_valid_def map_touch_dom map_at_def Let_def)
  ultimately show ?thesis by (auto simp: case_prod_unfold)
qed

lemmas example_message_simps = example_pending_def State_default_def ProtocolMessage_default_def example_result_def
  example_invalidate_def is_stale_epoch_def is_stale_cache_gen_def is_stale_boot_def CoordinatorEpoch_valid_def
  CacheGeneration_valid_def WorkerId_valid_def boot_for_def

lemma example_completes: "snd (co_apply example_pending (CI_Message 10 example_result)) \<noteq> example_pending"
proof -
  have "co_apply example_pending (CI_Message 10 example_result) = handle_capture_result 10 example_result example_pending"
    by (subst capture_result_apply) (simp_all add: example_message_simps)
  moreover have "co_pending example_pending (ca_value (pm_capture_attempt example_result)) \<noteq> None"
    by (simp add: example_pending_def example_result_def)
  ultimately show ?thesis using capture_result_consumes(1) [of 10 example_result example_pending] by metis
qed

definition example_revoked :: State where
  "example_revoked = example_pending\<lparr>co_cache_gen := CacheGeneration 2\<rparr>"

lemma example_revoke:
  "\<exists>outs. co_apply example_pending (CI_Message 11 example_invalidate) = (outs, example_revoked)"
  "example_revoked \<noteq> example_pending"
proof -
  have "co_apply example_pending (CI_Message 11 example_invalidate) = handle_invalidate 11 example_invalidate example_pending"
    by (simp add: co_apply_def handle_message_def example_message_simps case_prod_unfold Let_def)
  then show "\<exists>outs. co_apply example_pending (CI_Message 11 example_invalidate) = (outs, example_revoked)"
    by (simp add: handle_invalidate_def example_revoked_def example_message_simps Let_def)
  show "example_revoked \<noteq> example_pending"
    by (auto simp: example_revoked_def example_message_simps dest: arg_cong [of _ _ co_cache_gen])
qed

section \<open>Witnesses\<close>

theorem capture_completes_once_witness:
  "\<exists>status. status \<noteq> PS_Ok \<and> (let st = snd (co_apply example_pending (CI_Message 10 example_result)) in
     co_apply st (CI_Message 12 example_result) = (reply st 12 PT_LookupResult 0 status, st))"
proof -
  obtain outs where r: "co_run State_default [example_register, example_lookup] = (outs, example_pending)"
    using example_run by blast
  have t: "pm_type example_result = PT_CaptureResult" "pm_request_id example_result = 0"
    by (simp_all add: example_result_def ProtocolMessage_default_def)
  from capture_completes_once [OF r t(1) prod.collapse [symmetric] example_completes co_run.simps(1) _ t(1), of 12]
  show ?thesis by (simp add: t Let_def)
qed

theorem invalidation_fences_witness:
  "\<exists>outs st2 e. co_run example_revoked [CI_Message 10 (example_result\<lparr>pm_cache_gen := CacheGeneration 2\<rparr>)] = (outs, st2)
     \<and> co_graphs st2 ''artifact:00'' = Some e \<and> ''artifact:00'' \<notin> co_invalidated st2
     \<and> 1 < gg_value (ent_generation e) \<and> ent_cache_gen_at_publish e = cg_value (co_cache_gen st2)"
proof -
  obtain outs where r: "co_run State_default [example_register, example_lookup] = (outs, example_pending)"
    using example_run by blast
  have t: "pm_type example_invalidate = PT_Invalidate" "co_graph_gen_counter example_pending = 1"
    by (simp_all add: example_message_simps)
  obtain outs1 where step: "co_apply example_pending (CI_Message 11 example_invalidate) = (outs1, example_revoked)"
    using example_revoke(1) by blast
  let ?late = "example_result\<lparr>pm_cache_gen := CacheGeneration 2\<rparr>"
  have "co_apply example_revoked (CI_Message 10 ?late) = handle_capture_result 10 ?late example_revoked"
    by (subst capture_result_apply) (simp_all add: example_revoked_def example_message_simps)
  moreover have "read_field 1 decode_str (canonical_reader (put_str 1 ''00'')) = Some (''00'', canonical_reader [])"
    using read_put(6) [of "''00''" 1 "[]"] by (simp add: fits32_def)
  ultimately have "\<exists>outs st2 e. co_run example_revoked [CI_Message 10 ?late] = (outs, st2)
      \<and> co_graphs st2 ''artifact:00'' = Some e \<and> ''artifact:00'' \<notin> co_invalidated st2"
    by (simp add: handle_capture_result_def publish_def artifact_key_def example_revoked_def
        example_message_simps Let_def)
  then obtain outs2 st2 e where l: "co_run example_revoked [CI_Message 10 ?late] = (outs2, st2)"
    "co_graphs st2 ''artifact:00'' = Some e" "''artifact:00'' \<notin> co_invalidated st2" by blast
  from invalidation_fences [OF r t(1) step example_revoke(2) l(1) _ l(2,3)] t(2) l show ?thesis by auto
qed

theorem late_completion_refused_witness:
  "\<exists>status. status \<in> {PS_StaleEpoch, PS_StaleCacheGeneration} \<and> co_pending example_revoked 1 \<noteq> None
     \<and> co_apply example_revoked (CI_Message 10 example_result) = (reply example_revoked 10 PT_LookupResult 0 status, example_revoked)"
proof -
  obtain outs where r: "co_run State_default [example_register, example_lookup] = (outs, example_pending)"
    using example_run by blast
  have t: "pm_type example_invalidate = PT_Invalidate" "pm_type example_result = PT_CaptureResult"
    "pm_cache_gen example_result = CacheGeneration 1" "pm_request_id example_result = 0"
    by (simp_all add: example_message_simps)
  obtain outs1 where step: "co_apply example_pending (CI_Message 11 example_invalidate) = (outs1, example_revoked)"
    using example_revoke(1) by blast
  have "1 \<le> cg_value (co_cache_gen example_pending)" by (simp add: example_message_simps)
  from late_completion_refused [OF r t(1) step example_revoke(2) co_run.simps(1) _ t(2,3) _ this, of 10]
  show ?thesis by (simp add: t example_revoked_def example_pending_def)
qed

theorem coordinator_reassembles_witness:
  "let m = ProtocolMessage_default; wire = frame_of (encode_message m) @ frame_of (encode_message m);
       c = Conn_new 11; sv = \<lparr>sv_state = State_default, sv_running = True, sv_sent = []\<rparr>
   in conn_stream 11 [take 7 wire, drop 7 wire] (False, c, sv) = (False, deliver 11 (deliver 11 (c, sv) m) m)"
proof -
  have "message_ok ProtocolMessage_default"
    by (simp add: message_ok_def ProtocolMessage_default_def valid_type_def ProtocolVersion_def)
  then have "list_all message_ok [ProtocolMessage_default, ProtocolMessage_default]" by simp
  from coordinator_reassembles [OF this, of "[take 7 w, drop 7 w]" "Conn_new 11" for w]
  show ?thesis by (simp add: Let_def Conn_new_def)
qed


definition example_replay :: ProtocolMessage where
  "example_replay = ProtocolMessage_default\<lparr>pm_type := PT_ReplayInstruct, pm_request_id := 8, pm_graph_gen := GraphGeneration 2,
     pm_payload := put_str 1 ''00''\<rparr>"

theorem replay_routed_to_live_graph_witness:
  "\<exists>st outs r. snd (co_apply example_pending (CI_Message 10 example_result)) = st
     \<and> fst (co_apply st (CI_Message 11 example_replay)) = outs \<and> (10, r) \<in> set outs \<and> pm_type r = PT_ReplayInstruct
     \<and> pm_epoch r = CoordinatorEpoch 1 \<and> pm_cache_gen r = CacheGeneration 1 \<and> pm_payload r = put_str 1 ''00''"
proof -
  let ?st = "snd (co_apply example_pending (CI_Message 10 example_result))"
  obtain outs where r: "co_run State_default [example_register, example_lookup, CI_Message 10 example_result] = (outs, ?st)"
    using example_run by (auto simp: case_prod_unfold)
  have "co_apply example_pending (CI_Message 10 example_result) = handle_capture_result 10 example_result example_pending"
    by (subst capture_result_apply) (simp_all add: example_message_simps)
  moreover have rd: "read_field 1 decode_str (canonical_reader (put_str 1 ''00'')) = Some (''00'', canonical_reader [])"
    using read_put(6) [of "''00''" 1 "[]"] by (simp add: fits32_def)
  ultimately have st: "co_epoch ?st = CoordinatorEpoch 1" "co_cache_gen ?st = CacheGeneration 1"
    "co_worker_sock ?st = [1 \<mapsto> 10]" "co_worker_boot ?st = [1 \<mapsto> 5]"
    "co_graphs ?st (artifact_key ''00'') \<noteq> None" "artifact_key ''00'' \<notin> co_invalidated ?st"
    "\<forall>e. co_graphs ?st (artifact_key ''00'') = Some e \<longrightarrow> ent_generation e = GraphGeneration 2 \<and> ent_worker_id e = 1"
    by (simp_all add: handle_capture_result_def publish_def example_message_simps Let_def)
  have "co_apply ?st (CI_Message 11 example_replay) = handle_replay_instruct 11 example_replay ?st"
    by (simp add: co_apply_def handle_message_def example_replay_def st is_stale_epoch_def is_stale_cache_gen_def
        is_stale_boot_def ProtocolMessage_default_def CoordinatorEpoch_valid_def CacheGeneration_valid_def
        WorkerId_valid_def Let_def case_prod_unfold)
  with st obtain m where m: "(10, m) \<in> set (fst (co_apply ?st (CI_Message 11 example_replay)))" "pm_type m = PT_ReplayInstruct"
    by (auto simp: handle_replay_instruct_def example_replay_def rd ProtocolMessage_default_def Let_def)
  from replay_routed_to_live_graph [OF r prod.collapse [symmetric] m]
  have "pm_epoch m = CoordinatorEpoch 1 \<and> pm_cache_gen m = CacheGeneration 1 \<and> pm_payload m = put_str 1 ''00''"
    by (auto simp: st example_replay_def)
  with m show ?thesis by blast
qed

end
