(* ===== verification/GC_Worker.thy ===== *)
theory GC_Worker
  imports GC_Protocol GC_Serialization GC_CacheTypes
begin

text \<open>
  The worker process, \<open>tools/worker_main.cpp\<close>: it registers with the coordinator, captures the graphs it is
  told to capture and replays them on the floats a request carries.

  The backend is the parameter \<open>B\<close>, the iteration order of hash maps \<open>ord\<close>, the conversions between
  \<open>float\<close> and \<open>double\<close> are \<open>fl_of_f64 fl\<close> and \<open>to_f64\<close>. The two vectors of a replay are the buffers 0 and 1 of a
  memory of their own. A replay that accesses memory out of bounds has no result (\<open>None\<close>).
\<close>

section \<open>Payloads\<close>

record DecodedCapture =
  dc_descriptor :: GraphDescriptor
  dc_workload :: WorkloadIdentity

definition need_or :: "string \<Rightarrow> 'a option \<Rightarrow> 'a Result" where
  "need_or msg v = (case v of None \<Rightarrow> failure EC_ProtocolMalformed msg | Some x \<Rightarrow> success x)"

definition decode_capture :: "bytes \<Rightarrow> DecodedCapture Result" where
  "decode_capture payload = (case cr_next (canonical_reader payload) of
       (None, _) \<Rightarrow> failure EC_ProtocolMalformed ''capture payload''
     | (Some (tag, p), r) \<Rightarrow>
       if tag \<noteq> 1 then failure EC_ProtocolMalformed ''expected descriptor''
       else bind_result (deserialize_descriptor p) (\<lambda>desc.
            bind_result (need_or ''wl_name'' (read_field 2 decode_str r)) (\<lambda>(name, r).
            bind_result (need_or ''wl_ver'' (read_field 3 decode_u32 r)) (\<lambda>(version, r).
            bind_result (need_or ''wl_ns'' (read_field 4 decode_str r)) (\<lambda>(ns, r).
            bind_result (need_or ''wl_modelrev'' (read_field 5 decode_str r)) (\<lambda>(rev, r).
            success \<lparr>dc_descriptor = desc, dc_workload = WorkloadIdentity_default\<lparr>wl_name := name,
              wl_version := version, wl_namespace := ns, wl_model_revision := rev\<rparr>\<rparr>))))))"

fun replay_elements :: "float_ops \<Rightarrow> u16 \<Rightarrow> nat \<Rightarrow> CanonicalReader \<Rightarrow> f32 list Result" where
  "replay_elements fl t 0 r = success []"
| "replay_elements fl t (Suc n) r =
     bind_result (need_or ''replay element'' (cr_need t r)) (\<lambda>(p, r).
     bind_result (need_or ''replay element decode'' (decode_u64 p)) (\<lambda>bits.
     bind_result (replay_elements fl t n r) (\<lambda>xs. success (fl_of_f64 fl bits # xs))))"

definition replay_floats :: "float_ops \<Rightarrow> u16 \<Rightarrow> u16 \<Rightarrow> CanonicalReader \<Rightarrow> f32 list Result" where
  "replay_floats fl tc te r =
     bind_result (need_or ''replay count'' (cr_need tc r)) (\<lambda>(p, r).
     bind_result (need_or ''replay count decode''
        (case decode_u32 p of None \<Rightarrow> None | Some n \<Rightarrow> if n > 2 ^ 20 then None else Some n)) (\<lambda>n.
     replay_elements fl te (unat n) r))"

definition decode_replay_input :: "float_ops \<Rightarrow> bytes \<Rightarrow> f32 list Result" where
  "decode_replay_input fl payload = replay_floats fl 1 2 (canonical_reader payload)"

definition decode_replay_instruct :: "float_ops \<Rightarrow> bytes \<Rightarrow> (string \<times> f32 list) Result" where
  "decode_replay_instruct fl payload =
     bind_result (need_or ''artifact'' (cr_need 1 (canonical_reader payload))) (\<lambda>(p, r).
     bind_result (need_or ''artifact hex'' (decode_str p)) (\<lambda>hex.
     bind_result (replay_floats fl 2 3 r) (\<lambda>xs. success (hex, xs))))"

definition encode_replay_output :: "(f32 \<Rightarrow> f64) \<Rightarrow> f32 list \<Rightarrow> bytes" where
  "encode_replay_output to_f64 out = put_u32 1 (word_of_nat (length out)) @ concat (map (\<lambda>v. put_f64 2 (to_f64 v)) out)"

definition encode_replay_payload :: "(f32 \<Rightarrow> f64) \<Rightarrow> f32 list \<Rightarrow> bytes" where
  "encode_replay_payload to_f64 inp = put_u32 1 (word_of_nat (length inp)) @ concat (map (\<lambda>v. put_f64 2 (to_f64 v)) inp)"

definition artifact_id_hex_lookup :: "GraphArtifactId \<Rightarrow> string" where
  "artifact_id_hex_lookup i = GraphArtifactId_to_string i"

section \<open>State and instructions\<close>

record 'x WorkerState =
  ws_descs :: "(GraphArtifactId \<times> GraphDescriptor) list"
  ws_execs :: "GraphArtifactId \<rightharpoonup> 'x option"
  ws_worker_id :: u64
  ws_boot_id :: u64

definition worker_response :: "'x WorkerState \<Rightarrow> ProtocolMessage \<Rightarrow> ProtocolMessage" where
  "worker_response st m = ProtocolMessage_default\<lparr>
     pm_type := (if pm_type m = PT_CaptureInstruct then PT_CaptureResult else PT_ReplayResult),
     pm_request_id := pm_request_id m, pm_epoch := pm_epoch m, pm_cache_gen := pm_cache_gen m,
     pm_worker_id := WorkerId (ws_worker_id st), pm_worker_boot := WorkerBootId (ws_boot_id st),
     pm_capture_attempt := pm_capture_attempt m, pm_replay_attempt := pm_replay_attempt m,
     pm_graph_gen := pm_graph_gen m, pm_status := PS_Ok\<rparr>"

definition capture_for :: "'x graph_backend_ops \<Rightarrow> (GraphNodeId list \<Rightarrow> GraphNodeId list) \<Rightarrow> ProtocolMessage
    \<Rightarrow> (GraphDescriptor \<times> 'x option) Result" where
  "capture_for B ord m =
     bind_result (decode_capture (pm_payload m)) (\<lambda>dc.
     bind_result (finalize ord (dc_descriptor dc)) (\<lambda>desc.
     bind_result (be_capture B desc (pm_capture_attempt m)) (\<lambda>exec.
     bind_result (be_validate B desc exec) (\<lambda>_. success (desc, exec)))))"

definition worker_capture :: "'x graph_backend_ops \<Rightarrow> (GraphNodeId list \<Rightarrow> GraphNodeId list) \<Rightarrow> ProtocolMessage
    \<Rightarrow> 'x WorkerState \<Rightarrow> ProtocolMessage \<times> 'x WorkerState" where
  "worker_capture B ord m st = (let resp = worker_response st m in case capture_for B ord m of
       Inl _ \<Rightarrow> (resp\<lparr>pm_status := PS_CaptureFailed\<rparr>, st)
     | Inr (desc, exec) \<Rightarrow>
       (resp\<lparr>pm_payload := put_str 1 (artifact_id_hex_lookup (g_artifact desc)) @ put_u32 2 (word_of_nat (length (g_nodes desc)))\<rparr>,
        st\<lparr>ws_descs := AList.update (g_artifact desc) desc (ws_descs st),
           ws_execs := (ws_execs st)(g_artifact desc \<mapsto> exec)\<rparr>))"

text \<open>A vector of floats in memory, and back.\<close>

definition float_bytes :: "f32 list \<Rightarrow> bytes" where
  "float_bytes xs = concat (map (le_bytes 4) xs)"

definition floats_of :: "bytes \<Rightarrow> f32 list" where
  "floats_of b = map (\<lambda>i. le_loop 4 b (4 * i)) [0..<length b div 4]"

definition replay_memory :: "f32 list \<Rightarrow> memory" where
  "replay_memory xs = [0 \<mapsto> float_bytes xs, 1 \<mapsto> float_bytes (replicate (length xs) 0)]"

definition replay_buffers :: "f32 list \<Rightarrow> ReplayBuffers" where
  "replay_buffers xs = \<lparr>rb_inputs = [0], rb_outputs = [1], rb_input_bytes = [word_of_nat (length xs) * 4],
     rb_output_bytes = [word_of_nat (length xs) * 4]\<rparr>"

definition find_artifact :: "string \<Rightarrow> 'x WorkerState \<Rightarrow> GraphArtifactId option" where
  "find_artifact hex st = find (\<lambda>i. GraphArtifactId_to_string i = hex) (sort (map fst (ws_descs st)))"

definition worker_replay :: "'x graph_backend_ops \<Rightarrow> float_ops \<Rightarrow> (f32 \<Rightarrow> f64) \<Rightarrow> ProtocolMessage \<Rightarrow> 'x WorkerState
    \<Rightarrow> ProtocolMessage option" where
  "worker_replay B fl to_f64 m st =
     (let resp = worker_response st m; failed = resp\<lparr>pm_status := PS_ReplayFailed\<rparr> in
      case decode_replay_instruct fl (pm_payload m) of
        Inl _ \<Rightarrow> Some failed
      | Inr (hex, xs) \<Rightarrow>
        (case find_artifact hex st of
           None \<Rightarrow> Some failed
         | Some target \<Rightarrow> (case (map_of (ws_descs st) target, ws_execs st target) of
             (Some desc, Some exec) \<Rightarrow>
               (case be_replay B desc exec (replay_buffers xs)
                    \<lparr>rd_attempt = pm_replay_attempt m, rd_timestamp_ms = 0, rd_expected_replays = 1, rd_reason = []\<rparr>
                    (replay_memory xs) of
                  None \<Rightarrow> None
                | Some (Inl _, mem) \<Rightarrow> Some failed
                | Some (Inr _, mem) \<Rightarrow>
                    Some (resp\<lparr>pm_payload := encode_replay_output to_f64 (floats_of (case mem 1 of None \<Rightarrow> [] | Some b \<Rightarrow> b))\<rparr>))
           | _ \<Rightarrow> Some failed)))"

text \<open>An instruction: what is sent back, if anything, and the new state.\<close>

definition worker_handle :: "'x graph_backend_ops \<Rightarrow> (GraphNodeId list \<Rightarrow> GraphNodeId list) \<Rightarrow> float_ops \<Rightarrow> (f32 \<Rightarrow> f64)
    \<Rightarrow> ProtocolMessage \<Rightarrow> 'x WorkerState \<Rightarrow> (ProtocolMessage list \<times> 'x WorkerState) option" where
  "worker_handle B ord fl to_f64 m st =
     (if pm_type m = PT_CaptureInstruct
      then (case worker_capture B ord m st of (resp, st) \<Rightarrow> Some ([resp], st))
      else if pm_type m = PT_ReplayInstruct
      then (case worker_replay B fl to_f64 m st of None \<Rightarrow> None | Some resp \<Rightarrow> Some ([resp], st))
      else Some ([], st))"

section \<open>The process\<close>

definition worker_boot_id :: "u64 \<Rightarrow> u64" where
  "worker_boot_id pid = push_bit 1 pid XOR 0x9E3779B97F4A7C15"

definition worker_start :: "u64 \<Rightarrow> u64 \<Rightarrow> 'x WorkerState" where
  "worker_start wid pid = \<lparr>ws_descs = [], ws_execs = Map.empty, ws_worker_id = wid, ws_boot_id = worker_boot_id pid\<rparr>"

definition worker_register :: "'x WorkerState \<Rightarrow> ProtocolMessage" where
  "worker_register st = ProtocolMessage_default\<lparr>pm_type := PT_Register, pm_worker_id := WorkerId (ws_worker_id st),
     pm_worker_boot := WorkerBootId (ws_boot_id st), pm_epoch := CoordinatorEpoch 1\<rparr>"

text \<open>
  The loop over what successive calls of \<open>recv_frame\<close> return; it stops at an error and at \<open>Shutdown\<close>.
\<close>

fun worker_loop :: "'x graph_backend_ops \<Rightarrow> (GraphNodeId list \<Rightarrow> GraphNodeId list) \<Rightarrow> float_ops \<Rightarrow> (f32 \<Rightarrow> f64)
    \<Rightarrow> ProtocolMessage Result list \<Rightarrow> 'x WorkerState \<Rightarrow> (ProtocolMessage list \<times> 'x WorkerState) option" where
  "worker_loop B ord fl to_f64 [] st = Some ([], st)"
| "worker_loop B ord fl to_f64 (r # rs) st = (case r of
       Inl _ \<Rightarrow> Some ([], st)
     | Inr m \<Rightarrow> if pm_type m = PT_Shutdown then Some ([], st)
         else do {
           (outs, st) \<leftarrow> worker_handle B ord fl to_f64 m st;
           (outs', st) \<leftarrow> worker_loop B ord fl to_f64 rs st;
           Some (outs @ outs', st) })"

text \<open>
  \<open>main\<close> behind the connection: the exit code and the messages sent. \<open>sent\<close> is whether the registration
  could be sent, \<open>ack\<close> the first frame received.
\<close>

definition worker_main :: "'x graph_backend_ops \<Rightarrow> (GraphNodeId list \<Rightarrow> GraphNodeId list) \<Rightarrow> float_ops \<Rightarrow> (f32 \<Rightarrow> f64)
    \<Rightarrow> u64 \<Rightarrow> u64 \<Rightarrow> bool \<Rightarrow> ProtocolMessage Result \<Rightarrow> ProtocolMessage Result list \<Rightarrow> (nat \<times> ProtocolMessage list) option" where
  "worker_main B ord fl to_f64 wid pid sent ack rs =
     (let st = worker_start wid pid; reg = worker_register st in
      if \<not> sent then Some (2, [])
      else case ack of
        Inl _ \<Rightarrow> Some (2, [reg])
      | Inr a \<Rightarrow>
        if pm_type a \<noteq> PT_RegisterAck then Some (2, [reg])
        else if pm_status a \<noteq> PS_Ok then Some (1, [reg])
        else (case worker_loop B ord fl to_f64 rs st of None \<Rightarrow> None | Some (outs, _) \<Rightarrow> Some (0, reg # outs)))"

section \<open>Codecs\<close>

lemma replay_elements_enc:
  "replay_elements fl t (length xs) (canonical_reader (concat (map (\<lambda>v. put_f64 t (to_f64 v)) xs) @ rest))
     = success (map (\<lambda>v. fl_of_f64 fl (to_f64 v)) xs)"
  by (induction xs) (simp_all add: need_or_def put_is_field cr_need_field u64c.dec_enc)

lemma replay_count: "length xs \<le> 2 ^ 20 \<Longrightarrow> unat (word_of_nat (length xs) :: u32) = length xs"
  "length xs \<le> 2 ^ 20 \<Longrightarrow> \<not> (2 ^ 20 < (word_of_nat (length xs) :: u32))"
  by (simp_all add: unat_of_nat word_less_nat_alt)

lemma replay_floats_enc:
  assumes "length xs \<le> 2 ^ 20"
  shows "replay_floats fl tc te (canonical_reader (put_u32 tc (word_of_nat (length xs))
     @ concat (map (\<lambda>v. put_f64 te (to_f64 v)) xs))) = success (map (\<lambda>v. fl_of_f64 fl (to_f64 v)) xs)"
  using replay_count [OF assms] replay_elements_enc [of fl te xs to_f64 "[]"]
  by (simp add: replay_floats_def need_or_def put_is_field cr_need_field u32c.dec_enc)

lemma length_float_bytes [simp]: "length (float_bytes xs) = 4 * length xs"
  by (induction xs) (simp_all add: float_bytes_def)

lemma floats_of_float_bytes: "floats_of (float_bytes xs) = xs"
proof (rule nth_equalityI)
  fix i assume "i < length (floats_of (float_bytes xs))"
  then have i: "i < length xs" by (simp add: floats_of_def)
  have "float_bytes (take i xs @ xs ! i # drop (Suc i) xs)
      = float_bytes (take i xs) @ le_bytes 4 (xs ! i) @ float_bytes (drop (Suc i) xs)" by (simp add: float_bytes_def)
  then have "float_bytes xs = float_bytes (take i xs) @ le_bytes 4 (xs ! i) @ float_bytes (drop (Suc i) xs)"
    by (simp only: id_take_nth_drop [OF i, symmetric])
  moreover have "(le_loop 4 (float_bytes (take i xs) @ rest) (4 * i) :: f32) = le_loop 4 rest 0" for rest
    using i by (intro le_loop_append) simp
  moreover have "le_loop 4 (le_bytes 4 (xs ! i) @ rest) 0 = xs ! i" for rest
    using le_loop_eq [of 4 0 "le_bytes 4 (xs ! i) @ rest" "xs ! i"] by simp
  ultimately have "le_loop 4 (float_bytes xs) (4 * i) = xs ! i" by simp
  with i show "floats_of (float_bytes xs) ! i = xs ! i" by (simp add: floats_of_def)
qed (simp add: floats_of_def)

end
