(* ===== verification/GC_Distributed.thy ===== *)
theory GC_Distributed
  imports GC_Authority GC_Worker
begin

text \<open>
  The distributed system: a client (\<open>examples/distributed_client.cpp\<close>), the coordinator and a worker
  exchanging messages. A request is followed from the client through the coordinator to the worker and
  back: a lookup that misses captures the graph on the worker and names it to the client, the next lookup
  hits, and a replay returns what the graph computes.
\<close>

section \<open>The client\<close>

definition encode_lookup :: "GraphDescriptor \<Rightarrow> WorkloadIdentity \<Rightarrow> bytes" where
  "encode_lookup desc wl = put_bytes 1 (serialize_descriptor desc) @ put_str 2 (wl_name wl)
     @ put_u32 3 (wl_version wl) @ put_str 4 (wl_namespace wl) @ put_str 5 (wl_model_revision wl)"

definition encode_replay :: "(f32 \<Rightarrow> f64) \<Rightarrow> string \<Rightarrow> f32 list \<Rightarrow> bytes" where
  "encode_replay to_f64 hex inp = put_str 1 hex @ put_u32 2 (word_of_nat (length inp))
     @ concat (map (\<lambda>v. put_f64 3 (to_f64 v)) inp)"

definition decode_artifact :: "ProtocolMessage \<Rightarrow> string option" where
  "decode_artifact m = map_option fst (read_field 1 decode_str (canonical_reader (pm_payload m)))"

definition decode_output :: "float_ops \<Rightarrow> ProtocolMessage \<Rightarrow> f32 list option" where
  "decode_output fl m = do {
     (n, r) \<leftarrow> read_field 1 decode_u32 (canonical_reader (pm_payload m));
     if n > 2 ^ 20 then None
     else do {
       (bits, r) \<leftarrow> read_many (unat n) (read_field 2 decode_u64) r;
       Some (map (fl_of_f64 fl) bits) } }"

definition make_desc :: "u64 \<Rightarrow> GraphDescriptor" where
  "make_desc bytes =
     (let c = GraphNodeDescriptor_default\<lparr>n_id := GraphNodeId 1 1, n_category := NC_MemoryCopy, n_name := ''copy'',
                n_memory_bytes := bytes, n_inputs := [0], n_outputs := [0],
                n_binding := (n_binding GraphNodeDescriptor_default)\<lparr>bd_rebinding_eligible := True\<rparr>\<rparr>;
          kernel = KernelIdentityRef_default\<lparr>k_name := ''scale'', k_contributes := True\<rparr>;
          k = GraphNodeDescriptor_default\<lparr>n_id := GraphNodeId 2 2, n_category := NC_Kernel, n_name := ''scale'',
                n_kernel := kernel, n_memory_bytes := bytes,
                n_shape := (n_shape GraphNodeDescriptor_default)\<lparr>sh_dims := [bytes div 4]\<rparr>, n_datatype := DT_F32,
                n_scalar := (n_scalar GraphNodeDescriptor_default)\<lparr>sc_specialized := True, sc_float := 0x4000000000000000\<rparr>,
                n_inputs := [0], n_outputs := [0],
                n_binding := (n_binding GraphNodeDescriptor_default)\<lparr>bd_rebinding_eligible := True\<rparr>\<rparr>;
          e = GraphEdgeDescriptor_default\<lparr>e_id := GraphEdgeId 1 1, e_from := n_id c, e_to := n_id k, e_kind := DK_Execution\<rparr>
      in GraphDescriptor_default\<lparr>
           g_backend := (g_backend GraphDescriptor_default)\<lparr>bk_kind := BK_Cpu, bk_name := ''cpu'', bk_version := 1\<rparr>,
           g_runtime := (g_runtime GraphDescriptor_default)\<lparr>rt_version := 1, rt_graph_abi := 1, rt_kernel_abi := 1\<rparr>,
           g_device := (g_device GraphDescriptor_default)\<lparr>dev_vendor := AV_Cpu, dev_arch := ''cpu''\<rparr>,
           g_nodes := [c, k], g_edges := [e], g_dependencies := [kernel]\<rparr>)"

definition client_hello :: ProtocolMessage where
  "client_hello = ProtocolMessage_default\<lparr>pm_type := PT_Hello, pm_request_id := 1\<rparr>"

definition client_lookup :: "GraphDescriptor \<Rightarrow> WorkloadIdentity \<Rightarrow> ProtocolMessage" where
  "client_lookup desc wl = ProtocolMessage_default\<lparr>pm_type := PT_Lookup, pm_request_id := 11,
     pm_epoch := CoordinatorEpoch 1, pm_cache_gen := CacheGeneration 1, pm_payload := encode_lookup desc wl\<rparr>"

definition client_replay :: "(f32 \<Rightarrow> f64) \<Rightarrow> GraphGeneration \<Rightarrow> string \<Rightarrow> f32 list \<Rightarrow> ProtocolMessage" where
  "client_replay to_f64 gen hex inp = ProtocolMessage_default\<lparr>pm_type := PT_ReplayInstruct, pm_request_id := 13,
     pm_epoch := CoordinatorEpoch 1, pm_cache_gen := CacheGeneration 1, pm_graph_gen := gen,
     pm_replay_attempt := ReplayAttemptId 21, pm_payload := encode_replay to_f64 hex inp\<rparr>"

section \<open>Views\<close>

lemma ser_encode_node_view: "ser_encode_node (node_view n) = ser_encode_node n"
  by (simp add: ser_encode_node_def node_view_def ScalarSpecialization_default_def QuantizationConfig_default_def)

lemma serialize_descriptor_view: "serialize_descriptor (descriptor_view g) = serialize_descriptor g"
  by (simp add: serialize_descriptor_def descriptor_view_def runtime_view_def ser_encode_node_view dep_view_def
      ser_encode_dep_def comp_def)

definition wire_workload :: "WorkloadIdentity \<Rightarrow> WorkloadIdentity" where
  "wire_workload wl = WorkloadIdentity_default\<lparr>wl_name := wl_name wl, wl_version := wl_version wl,
     wl_namespace := wl_namespace wl, wl_model_revision := wl_model_revision wl\<rparr>"

definition wire_ok :: "GraphDescriptor \<Rightarrow> WorkloadIdentity \<Rightarrow> bool" where
  "wire_ok desc wl \<longleftrightarrow> descriptor_ok desc \<and> fits32 (serialize_descriptor desc)
     \<and> fits32 (wl_name wl) \<and> fits32 (wl_namespace wl) \<and> fits32 (wl_model_revision wl)"

lemma decode_lookup_client: "wire_ok desc wl \<Longrightarrow> decode_lookup (encode_lookup desc wl) = Inr (descriptor_view desc, wire_workload wl)"
  using decode_lookup_encode [of desc wl] by (simp add: wire_ok_def wire_workload_def encode_lookup_def encode_capture_def)

lemma encode_capture_view: "encode_capture (descriptor_view desc) (wire_workload wl) = encode_lookup desc wl"
  by (simp add: encode_capture_def encode_lookup_def serialize_descriptor_view wire_workload_def)

lemma decode_capture_client:
  assumes "wire_ok desc wl"
  shows "decode_capture (encode_lookup desc wl) = success \<lparr>dc_descriptor = descriptor_view desc, dc_workload = wire_workload wl\<rparr>"
proof -
  note str = read_put(6) [of "wl_model_revision wl" _ "[]", simplified]
  have "deserialize_descriptor (serialize_descriptor desc) = success (descriptor_view desc)"
    using deserialize_serialize_rest [of desc "[]"] assms by (simp add: wire_ok_def)
  moreover have "cr_next (canonical_reader (put_bytes 1 (serialize_descriptor desc) @ rest))
      = (Some (1, serialize_descriptor desc), canonical_reader rest)" for rest
    using assms by (simp add: wire_ok_def put_is_field cr_next_field)
  ultimately show ?thesis using assms
    by (simp add: decode_capture_def encode_lookup_def read_put str wire_ok_def need_or_def wire_workload_def)
qed

section \<open>Artifact names\<close>

lemma hex16_char: "c \<in> set (hex16 v) \<Longrightarrow> hex_val c \<le> 15"
  using hex16_digits [of v] by (auto simp: list_ex_iff not_less)

lemma hex_val_other:
  "hex_val (CHR ''x'') = 16" "hex_val (CHR ''X'') = 16" "hex_val (CHR ''-'') = 16" "hex_val (CHR ''+'') = 16"
  "hex_val (CHR '':'') = 16" "hex_val (CHR 0x00) = 16"
  by (simp_all add: hex_val_def)

lemma is_space_hex: "hex_val c \<le> 15 \<Longrightarrow> \<not> is_space c"
  by (auto simp: hex_val_def is_space_def Let_def split: if_splits)

lemma scan_hex16: "scan_llx16 (hex16 v @ rest) = Some (v, rest)"
proof -
  obtain a b ds where h: "hex16 v = a # b # ds"
    using length_hex16 [of v] by (cases "hex16 v"; cases "tl (hex16 v)") auto
  have ab: "hex_val a \<le> 15" "hex_val b \<le> 15" using hex16_char [of _ v] h by auto
  then have "a \<notin> {CHR ''-'', CHR ''+''}" "b \<notin> {CHR ''x'', CHR ''X''}" using hex_val_other by auto
  moreover have tw: "takeWhile (\<lambda>c. hex_val c \<le> 15) ds = ds" using hex16_char [of _ v] h by (simp add: takeWhile_eq_all_conv)
  moreover have "length ds = 14" using length_hex16 [of v] h by simp
  ultimately show ?thesis using ab is_space_hex [of a] parse16_hex16 [of v] h
    by (simp add: scan_llx16_def scan_digits_def tw Let_def)
qed

lemma scan_artifact_to_string: "scan_artifact (GraphArtifactId_to_string i) = i"
proof -
  have "\<forall>c \<in> set (GraphArtifactId_to_string i). c \<noteq> CHR 0x00"
    using hex16_char hex_val_other(6) by (fastforce simp: GraphArtifactId_to_string_def)
  then have "takeWhile (\<lambda>c. c \<noteq> CHR 0x00) (GraphArtifactId_to_string i) = GraphArtifactId_to_string i"
    by (simp add: takeWhile_eq_all_conv)
  then have "scan_artifact (GraphArtifactId_to_string i) = (case scan_llx16 (GraphArtifactId_to_string i) of
       None \<Rightarrow> GraphArtifactId 0 0
     | Some (hi, r) \<Rightarrow> if take 1 r = '':'' then (case scan_llx16 (tl r) of
           None \<Rightarrow> GraphArtifactId hi 0 | Some (lo, _) \<Rightarrow> GraphArtifactId hi lo)
         else GraphArtifactId hi 0)" by (simp only: scan_artifact_def)
  also have "\<dots> = i" using scan_hex16 [of "aid_lo i" "[]"] by (simp add: GraphArtifactId_to_string_def scan_hex16)
  finally show ?thesis .
qed


section \<open>A capture, end to end\<close>

text \<open>The authority checks a message passes, and the agreement between the coordinator and a worker.\<close>

definition authorised :: "State \<Rightarrow> ProtocolMessage \<Rightarrow> bool" where
  "authorised st m \<longleftrightarrow> \<not> is_stale_epoch st m \<and> \<not> is_stale_cache_gen st m \<and> \<not> is_stale_boot st m"

definition on_duty :: "State \<Rightarrow> 'x WorkerState \<Rightarrow> i64 \<Rightarrow> bool" where
  "on_duty st ws t \<longleftrightarrow> ws_worker_id ws \<in> co_worker_connected st
     \<and> co_worker_boot st (ws_worker_id ws) = Some (ws_boot_id ws) \<and> co_worker_sock st (ws_worker_id ws) = Some t"

text \<open>The coordinator offers the worker's graph under this name and generation.\<close>

definition offers :: "State \<Rightarrow> 'x WorkerState \<Rightarrow> GraphDescriptor \<Rightarrow> 'x option \<Rightarrow> GraphGeneration \<Rightarrow> bool" where
  "offers st ws desc exec gen \<longleftrightarrow>
     (\<exists>e. co_graphs st (artifact_key (GraphArtifactId_to_string (g_artifact desc))) = Some e
        \<and> ent_generation e = gen \<and> ent_worker_id e = ws_worker_id ws)
     \<and> artifact_key (GraphArtifactId_to_string (g_artifact desc)) \<notin> co_invalidated st
     \<and> map_of (ws_descs ws) (g_artifact desc) = Some desc \<and> ws_execs ws (g_artifact desc) = Some exec"

lemma authorised_apply:
  assumes "authorised st m"
  shows "pm_type m = PT_Lookup \<Longrightarrow> co_apply st (CI_Message s m) = handle_lookup s m st"
    and "pm_type m = PT_CaptureResult \<Longrightarrow> co_apply st (CI_Message s m) = handle_capture_result s m st"
    and "pm_type m = PT_ReplayInstruct \<Longrightarrow> co_apply st (CI_Message s m) = handle_replay_instruct s m st"
    and "pm_type m = PT_ReplayResult \<Longrightarrow> co_apply st (CI_Message s m) = handle_replay_result s m st"
  using assms by (simp_all add: authorised_def co_apply_def handle_message_def Let_def case_prod_unfold)

lemma worker_response_authorised:
  assumes "on_duty st ws t" and "pm_epoch m = co_epoch st" and "pm_cache_gen m = co_cache_gen st"
  shows "authorised st (worker_response ws m)"
  using assms by (simp add: authorised_def on_duty_def worker_response_def is_stale_epoch_def is_stale_cache_gen_def
      is_stale_boot_def boot_for_def)

lemma authorised_cong:
  "pm_epoch m' = pm_epoch m \<Longrightarrow> pm_cache_gen m' = pm_cache_gen m \<Longrightarrow> pm_worker_id m' = pm_worker_id m
   \<Longrightarrow> pm_worker_boot m' = pm_worker_boot m \<Longrightarrow> co_epoch st' = co_epoch st \<Longrightarrow> co_cache_gen st' = co_cache_gen st
   \<Longrightarrow> co_worker_boot st' = co_worker_boot st \<Longrightarrow> authorised st' m' = authorised st m"
  by (simp add: authorised_def is_stale_epoch_def is_stale_cache_gen_def is_stale_boot_def boot_for_def)

lemma lookup_key_nonempty: "lookup_key desc wl \<noteq> []"
  using length_sha_hex by (auto simp: lookup_key_def key_build_def key_hex_def Let_def dest: arg_cong [of _ _ length])


lemma read_artifact: "fits32 hex \<Longrightarrow> read_field 1 decode_str (canonical_reader (put_str 1 hex @ rest)) = Some (hex, canonical_reader rest)"
  "fits32 hex \<Longrightarrow> read_field 1 decode_str (canonical_reader (put_str 1 hex)) = Some (hex, canonical_reader [])"
  using read_put(6) [of hex 1 rest] read_put(6) [of hex 1 "[]"] by simp_all

lemma fits32_artifact: "fits32 (GraphArtifactId_to_string i)"
  by (simp add: fits32_def GraphArtifactId_to_string_length)

lemma lookup_dispatches:
  assumes "wire_ok desc wl" and "on_duty st ws t" and "ws_worker_id ws = Min (co_worker_connected st)"
    and "pm_payload m = encode_lookup desc wl"
    and "k = lookup_key (descriptor_view desc) (wire_workload wl)" and "k \<in> co_invalidated st \<or> co_graphs st k = None"
  shows "handle_lookup s m st =
     ([(t, capture_instruct st (ws_worker_id ws) (co_capture_counter st + 1) (descriptor_view desc) (wire_workload wl))],
      st\<lparr>co_capture_counter := co_capture_counter st + 1,
         co_pending := (co_pending st)(co_capture_counter st + 1 \<mapsto>
           \<lparr>pnd_client_sock = s, pnd_worker_id = ws_worker_id ws, pnd_request_id = pm_request_id m, pnd_key = k\<rparr>)\<rparr>)"
proof -
  have "map_touch (co_worker_boot st) (ws_worker_id ws) = co_worker_boot st"
    "map_touch (co_worker_sock st) (ws_worker_id ws) = co_worker_sock st"
    using assms(2) by (auto simp: on_duty_def intro!: map_touch_dom)
  moreover have "co_worker_connected st \<noteq> {}" "co_worker_sock st (ws_worker_id ws) = Some t" using assms(2) by (auto simp: on_duty_def)
  ultimately show ?thesis using assms(3-6) decode_lookup_client [OF assms(1)]
    by (auto simp: handle_lookup_def Let_def)
qed

lemma worker_captures:
  assumes "graph_backend B" and "wire_ok desc wl" and "pm_type m = PT_CaptureInstruct" and "pm_payload m = encode_lookup desc wl"
    and "finalize ord (descriptor_view desc) = success fd" and "be_capture B fd (pm_capture_attempt m) = success h"
  shows "worker_handle B ord fl to_f64 m ws =
     Some ([(worker_response ws m)\<lparr>pm_payload := put_str 1 (GraphArtifactId_to_string (g_artifact fd))
              @ put_u32 2 (word_of_nat (length (g_nodes fd)))\<rparr>],
           ws\<lparr>ws_descs := AList.update (g_artifact fd) fd (ws_descs ws), ws_execs := (ws_execs ws)(g_artifact fd \<mapsto> h)\<rparr>)"
  using assms(3-6) decode_capture_client [OF assms(2)] graph_backend.capture_validates [OF assms(1,6)]
  by (simp add: worker_handle_def worker_capture_def capture_for_def artifact_id_hex_lookup_def Let_def)

lemma result_published:
  assumes "co_pending st (ca_value (pm_capture_attempt r)) = Some pc" and "pm_status r = PS_Ok"
    and "pm_payload r = put_str 1 hex @ rest" and "fits32 hex"
  shows "handle_capture_result t r st =
    (let gen = GraphGeneration (co_graph_gen_counter st + 1);
         st' = st\<lparr>co_pending := (co_pending st)(ca_value (pm_capture_attempt r) := None),
                   co_graph_gen_counter := co_graph_gen_counter st + 1\<rparr>
     in ([(pnd_client_sock pc, graph_reply st' (pnd_request_id pc) gen hex)], publish hex pc gen st'))"
  using assms by (simp add: handle_capture_result_def read_artifact Let_def)

lemma published_graphs:
  fixes hex gen st
  defines "e \<equiv> \<lambda>pc. \<lparr>ent_artifact = scan_artifact hex, ent_generation = gen, ent_worker_id = pnd_worker_id pc,
     ent_cache_gen_at_publish = cg_value (co_cache_gen st)\<rparr>"
  assumes "pnd_key pc \<noteq> []"
  shows "co_graphs (publish hex pc gen st) (artifact_key hex) = Some (e pc)"
    and "co_graphs (publish hex pc gen st) (pnd_key pc) = Some (e pc)"
    and "artifact_key hex \<notin> co_invalidated (publish hex pc gen st)" and "pnd_key pc \<notin> co_invalidated (publish hex pc gen st)"
    and "co_epoch (publish hex pc gen st) = co_epoch st" and "co_cache_gen (publish hex pc gen st) = co_cache_gen st"
    and "co_worker_boot (publish hex pc gen st) = co_worker_boot st" and "co_worker_sock (publish hex pc gen st) = co_worker_sock st"
    and "co_worker_connected (publish hex pc gen st) = co_worker_connected st"
  using assms(2) by (simp_all add: e_def publish_def Let_def)

lemma capture_end_to_end:
  assumes "graph_backend B" and "wire_ok desc wl" and "on_duty st ws t" and "ws_worker_id ws = Min (co_worker_connected st)"
    and "pm_type m = PT_Lookup" and "authorised st m" and "pm_payload m = encode_lookup desc wl"
    and "k = lookup_key (descriptor_view desc) (wire_workload wl)" and "k \<in> co_invalidated st \<or> co_graphs st k = None"
    and "finalize ord (descriptor_view desc) = success fd"
    and "be_capture B fd (CaptureAttemptId (co_capture_counter st + 1)) = success h"
  shows "\<exists>inst r answer st1 ws1 st2. co_apply st (CI_Message s m) = ([(t, inst)], st1)
     \<and> worker_handle B ord fl to_f64 inst ws = Some ([r], ws1)
     \<and> co_apply st1 (CI_Message t r) = ([(s, answer)], st2)
     \<and> pm_type answer = PT_LookupResult \<and> pm_status answer = PS_Ok \<and> pm_request_id answer = pm_request_id m
     \<and> decode_artifact answer = Some (GraphArtifactId_to_string (g_artifact fd))
     \<and> pm_graph_gen answer = GraphGeneration (co_graph_gen_counter st + 1)
     \<and> offers st2 ws1 fd h (pm_graph_gen answer) \<and> on_duty st2 ws1 t
     \<and> co_epoch st2 = co_epoch st \<and> co_cache_gen st2 = co_cache_gen st
     \<and> (\<forall>s' m'. pm_type m' = PT_Lookup \<and> authorised st2 m' \<and> pm_payload m' = pm_payload m \<longrightarrow>
          co_apply st2 (CI_Message s' m') = ([(s', answer\<lparr>pm_request_id := pm_request_id m'\<rparr>)], st2))"
proof -
  let ?hex = "GraphArtifactId_to_string (g_artifact fd)" and ?a = "co_capture_counter st + 1"
  let ?pc = "\<lparr>pnd_client_sock = s, pnd_worker_id = ws_worker_id ws, pnd_request_id = pm_request_id m, pnd_key = k\<rparr>"
  let ?inst = "capture_instruct st (ws_worker_id ws) ?a (descriptor_view desc) (wire_workload wl)"
  let ?st1 = "st\<lparr>co_capture_counter := ?a, co_pending := (co_pending st)(?a \<mapsto> ?pc)\<rparr>"
  let ?r = "(worker_response ws ?inst)\<lparr>pm_payload := put_str 1 ?hex @ put_u32 2 (word_of_nat (length (g_nodes fd)))\<rparr>"
  let ?ws1 = "ws\<lparr>ws_descs := AList.update (g_artifact fd) fd (ws_descs ws), ws_execs := (ws_execs ws)(g_artifact fd \<mapsto> h)\<rparr>"
  let ?st1' = "?st1\<lparr>co_pending := (co_pending ?st1)(?a := None), co_graph_gen_counter := co_graph_gen_counter st + 1\<rparr>"
  let ?gen = "GraphGeneration (co_graph_gen_counter st + 1)"
  let ?st2 = "publish ?hex ?pc ?gen ?st1'" and ?answer = "graph_reply ?st1' (pm_request_id m) ?gen ?hex"
  have k: "k \<noteq> []" using assms(8) lookup_key_nonempty by simp
  note pub = published_graphs [of ?pc ?hex ?gen ?st1', simplified k simp_thms PendingCapture.select_convs]
  have inst: "pm_type ?inst = PT_CaptureInstruct" "pm_payload ?inst = encode_lookup desc wl"
    "pm_capture_attempt ?inst = CaptureAttemptId ?a" "pm_epoch ?inst = co_epoch st" "pm_cache_gen ?inst = co_cache_gen st"
    by (simp_all add: capture_instruct_def encode_capture_view)
  have duty: "on_duty ?st1 ws t" using assms(3) by (simp add: on_duty_def)
  have one: "co_apply st (CI_Message s m) = ([(t, ?inst)], ?st1)"
    using authorised_apply(1) [OF assms(6,5)] lookup_dispatches [OF assms(2-4,7-9)] by simp
  have two: "worker_handle B ord fl to_f64 ?inst ws = Some ([?r], ?ws1)"
    using worker_captures [OF assms(1,2) inst(1,2) assms(10)] assms(11) inst(3) by simp
  have "authorised ?st1 (worker_response ws ?inst)" using worker_response_authorised [OF duty] inst(4,5) by simp
  then have auth: "authorised ?st1 ?r" by (rule iffD2 [OF authorised_cong, rotated -1]) simp_all
  have r: "pm_type ?r = PT_CaptureResult" "pm_status ?r = PS_Ok" "pm_capture_attempt ?r = CaptureAttemptId ?a"
    using inst by (simp_all add: worker_response_def)
  have three: "co_apply ?st1 (CI_Message t ?r) = ([(s, ?answer)], ?st2)"
    using authorised_apply(2) [OF auth r(1), of t] result_published [of ?st1 ?r ?pc ?hex _ t] r fits32_artifact
    by (simp add: Let_def)
  have again: "co_apply ?st2 (CI_Message s' m') = ([(s', ?answer\<lparr>pm_request_id := pm_request_id m'\<rparr>)], ?st2)"
    if "pm_type m' = PT_Lookup" "authorised ?st2 m'" "pm_payload m' = pm_payload m" for s' m'
    using authorised_apply(1) [OF that(2,1)] that(3) assms(7,8) decode_lookup_client [OF assms(2)] pub
    by (simp add: handle_lookup_def scan_artifact_to_string graph_reply_def)
  have "offers ?st2 ?ws1 fd h ?gen" "on_duty ?st2 ?ws1 t"
    using pub assms(3) by (simp_all add: offers_def on_duty_def map_of_update)
  moreover have "co_epoch ?st2 = co_epoch st" "co_cache_gen ?st2 = co_cache_gen st" using pub by simp_all
  moreover have "decode_artifact ?answer = Some ?hex"
    by (simp add: decode_artifact_def graph_reply_def read_artifact fits32_artifact)
  ultimately show ?thesis using one two three again
    by (intro exI conjI) (assumption | simp add: graph_reply_def)+
qed

text \<open>
  C4: A lookup that misses is answered end to end, for a descriptor and workload within the limits of the
  wire format (\<open>wire_ok\<close>: at most 8192 nodes, 16384 edges and 8192 dependencies, members below
  4 GiB). The coordinator sends the request to the worker on duty, the worker captures the finalized
  descriptor and its report makes the coordinator answer the client with the artifact's name and a fresh
  generation; the coordinator then offers the graph the worker holds, and every further lookup of the same
  descriptor and workload by any client with current authority is answered with the same artifact and
  generation, with no message to a worker and no change of state.
\<close>

theorem distributed_capture:
  assumes "graph_backend B" and "wire_ok desc wl" and "on_duty st ws t" and "ws_worker_id ws = Min (co_worker_connected st)"
    and "pm_type m = PT_Lookup" and "authorised st m" and "pm_payload m = encode_lookup desc wl"
    and "k = lookup_key (descriptor_view desc) (wire_workload wl)" and "k \<in> co_invalidated st \<or> co_graphs st k = None"
    and "finalize ord (descriptor_view desc) = success fd"
    and "be_capture B fd (CaptureAttemptId (co_capture_counter st + 1)) = success h"
  shows "\<exists>inst r answer st1 ws1 st2. co_apply st (CI_Message s m) = ([(t, inst)], st1)
     \<and> worker_handle B ord fl to_f64 inst ws = Some ([r], ws1)
     \<and> co_apply st1 (CI_Message t r) = ([(s, answer)], st2)
     \<and> pm_type answer = PT_LookupResult \<and> pm_status answer = PS_Ok \<and> pm_request_id answer = pm_request_id m
     \<and> decode_artifact answer = Some (GraphArtifactId_to_string (g_artifact fd))
     \<and> pm_graph_gen answer = GraphGeneration (co_graph_gen_counter st + 1)
     \<and> offers st2 ws1 fd h (pm_graph_gen answer) \<and> on_duty st2 ws1 t
     \<and> (\<forall>s' m'. pm_type m' = PT_Lookup \<and> authorised st2 m' \<and> pm_payload m' = pm_payload m \<longrightarrow>
          co_apply st2 (CI_Message s' m') = ([(s', answer\<lparr>pm_request_id := pm_request_id m'\<rparr>)], st2))"
  using capture_end_to_end [OF assms, of s fl to_f64] by blast

section \<open>A replay, end to end\<close>

lemma run_nodes_sizes: "list_all (node_fits bufs mem) ns \<Longrightarrow> same_sizes mem (fst (run_nodes fl bufs ns mem))"
proof (induction ns arbitrary: mem)
  case (Cons n ns)
  let ?mem = "fst (node_effect fl bufs n mem)"
  have "same_sizes mem ?mem" using Cons.prems node_effect_sizes [of bufs mem n fl] by simp
  moreover from this have "list_all (node_fits bufs ?mem) ns"
    using Cons.prems by (auto simp: list_all_iff intro: node_fits_same_sizes)
  ultimately show ?case using Cons.IH [of ?mem] by (simp add: case_prod_unfold same_sizes_def)
qed (simp add: same_sizes_def)

lemma find_artifact_found:
  assumes "i \<in> fst ` set (ws_descs ws)"
  shows "find_artifact (GraphArtifactId_to_string i) ws = Some i"
proof (cases "find_artifact (GraphArtifactId_to_string i) ws")
  case None
  with assms show ?thesis by (auto simp: find_artifact_def find_None_iff)
next
  case (Some j)
  then show ?thesis by (auto simp: find_artifact_def find_Some_iff GraphArtifactId_to_string_inj)
qed

lemma decode_replay_client:
  "length xs \<le> 2 ^ 20 \<Longrightarrow> fits32 hex \<Longrightarrow>
     decode_replay_instruct fl (encode_replay to_f64 hex xs) = success (hex, map (\<lambda>v. fl_of_f64 fl (to_f64 v)) xs)"
  using replay_floats_enc [of xs fl 2 3 to_f64]
  by (simp add: decode_replay_instruct_def encode_replay_def need_or_def put_is_field cr_need_field decode_str_def)

interpretation f64s: stream_codec "put_f64 2" "read_field 2 decode_u64" "\<lambda>_. True" "\<lambda>v. v"
  by unfold_locales (simp add: read_put(4) [unfolded decode_f64_def [abs_def]])

lemma decode_output_enc:
  assumes "length xs \<le> 2 ^ 20" and "pm_payload m = encode_replay_output to_f64 xs"
  shows "decode_output fl m = Some (map (\<lambda>v. fl_of_f64 fl (to_f64 v)) xs)"
  using replay_count [OF assms(1)] assms(2) f64s.read_many_enc [of "map to_f64 xs" "[]"]
  by (simp add: decode_output_def encode_replay_output_def read_put comp_def list_all_iff)

lemma cpu_worker_replays:
  fixes xs to_f64 fl
  defines "ys \<equiv> map (\<lambda>v. fl_of_f64 fl (to_f64 v)) xs"
  assumes "\<And>xs. mset (ord xs) = mset xs" and "cpu_capture ord fd = success (Some g)"
    and "map_of (ws_descs ws) (g_artifact fd) = Some fd" and "ws_execs ws (g_artifact fd) = Some (Some g)"
    and "pm_type m = PT_ReplayInstruct" and "pm_payload m = encode_replay to_f64 (GraphArtifactId_to_string (g_artifact fd)) xs"
    and "length xs \<le> 2 ^ 20"
    and "list_all (\<lambda>n. node_fits (replay_buffers ys) (replay_memory ys) (cpu_node n)) (g_nodes fd)"
  shows "\<exists>ns out. mset ns = mset (map cpu_node (g_nodes fd)) \<and> map cn_id ns = cpu_order g
     \<and> fst (run_nodes fl (replay_buffers ys) ns (replay_memory ys)) 1 = Some out \<and> length out = 4 * length xs
     \<and> worker_handle (cpu_backend fl ord) ord fl to_f64 m ws =
         Some ([(worker_response ws m)\<lparr>pm_payload := encode_replay_output to_f64 (floats_of out)\<rparr>], ws)"
proof -
  let ?bufs = "replay_buffers ys" and ?mem = "replay_memory ys"
  let ?rd = "\<lparr>rd_attempt = pm_replay_attempt m, rd_timestamp_ms = 0, rd_expected_replays = 1, rd_reason = []\<rparr>"
  from cpu_replay_run [OF assms(2,3,9), of fl ?rd] obtain ns res where
    ns: "mset ns = mset (map cpu_node (g_nodes fd))" "map cn_id ns = cpu_order g"
    and rep: "cpu_replay fl (Some g) ?bufs ?rd ?mem = Some (success res, fst (run_nodes fl ?bufs ns ?mem))" by blast
  have "list_all (node_fits ?bufs ?mem) ns"
    using assms(9) mset_eq_setD [OF ns(1)] by (simp add: list_all_iff)
  from run_nodes_sizes [OF this, of fl]
  have "map_option length (fst (run_nodes fl ?bufs ns ?mem) 1) = map_option length (?mem 1)" by (simp add: same_sizes_def)
  then obtain out where out: "fst (run_nodes fl ?bufs ns ?mem) 1 = Some out" "length out = 4 * length xs"
    by (auto simp: replay_memory_def ys_def)
  have "find_artifact (GraphArtifactId_to_string (g_artifact fd)) ws = Some (g_artifact fd)"
    using assms(4) by (intro find_artifact_found) (metis fst_conv imageI map_of_SomeD)
  then have "worker_replay (cpu_backend fl ord) fl to_f64 m ws =
      Some ((worker_response ws m)\<lparr>pm_payload := encode_replay_output to_f64 (floats_of out)\<rparr>)"
    using assms(4,5,7,8) decode_replay_client [OF assms(8) fits32_artifact, of fl to_f64] rep out(1)
    by (simp add: worker_replay_def cpu_backend_def ys_def Let_def)
  with ns out assms(6) show ?thesis by (auto simp: worker_handle_def)
qed

lemma replay_forwarded:
  assumes "offers st ws fd exec gen" and "on_duty st ws t" and "pm_graph_gen m = gen \<or> \<not> GraphGeneration_valid (pm_graph_gen m)"
    and "read_field 1 decode_str (canonical_reader (pm_payload m)) = Some (GraphArtifactId_to_string (g_artifact fd), rest)"
  shows "\<exists>ri. handle_replay_instruct s m st = ([(t, ri)], st\<lparr>co_pending_replays := (co_pending_replays st)(pm_request_id m \<mapsto> s)\<rparr>)
     \<and> pm_type ri = PT_ReplayInstruct \<and> pm_payload ri = pm_payload m \<and> pm_request_id ri = pm_request_id m
     \<and> pm_epoch ri = co_epoch st \<and> pm_cache_gen ri = co_cache_gen st"
proof -
  have "map_touch (co_worker_boot st) (ws_worker_id ws) = co_worker_boot st"
    using assms(2) by (auto simp: on_duty_def intro!: map_touch_dom)
  with assms show ?thesis by (auto simp: handle_replay_instruct_def offers_def on_duty_def Let_def)
qed

lemma replay_end_to_end:
  fixes xs to_f64 fl
  defines "conv \<equiv> map (\<lambda>v. fl_of_f64 fl (to_f64 v))"
  assumes "\<And>xs. mset (ord xs) = mset xs" and "cpu_capture ord fd = success (Some g)"
    and "offers st ws fd (Some g) gen" and "on_duty st ws t"
    and "pm_type m = PT_ReplayInstruct" and "authorised st m" and "pm_graph_gen m = gen \<or> \<not> GraphGeneration_valid (pm_graph_gen m)"
    and "pm_payload m = encode_replay to_f64 (GraphArtifactId_to_string (g_artifact fd)) xs" and "length xs \<le> 2 ^ 20"
    and "list_all (\<lambda>n. node_fits (replay_buffers (conv xs)) (replay_memory (conv xs)) (cpu_node n)) (g_nodes fd)"
  shows "\<exists>ri r answer st1 st2 ns out. co_apply st (CI_Message s m) = ([(t, ri)], st1)
     \<and> worker_handle (cpu_backend fl ord) ord fl to_f64 ri ws = Some ([r], ws)
     \<and> co_apply st1 (CI_Message t r) = ([(s, answer)], st2)
     \<and> pm_type answer = PT_ReplayResult \<and> pm_status answer = PS_Ok \<and> pm_request_id answer = pm_request_id m
     \<and> mset ns = mset (map cpu_node (g_nodes fd)) \<and> map cn_id ns = cpu_order g
     \<and> fst (run_nodes fl (replay_buffers (conv xs)) ns (replay_memory (conv xs))) 1 = Some out
     \<and> decode_output fl answer = Some (conv (floats_of out))"
proof -
  have rd: "read_field 1 decode_str (canonical_reader (pm_payload m)) = Some (GraphArtifactId_to_string (g_artifact fd),
      canonical_reader (put_u32 2 (word_of_nat (length xs)) @ concat (map (\<lambda>v. put_f64 3 (to_f64 v)) xs)))"
    using assms(9) read_artifact(1) [OF fits32_artifact] by (simp add: encode_replay_def)
  from replay_forwarded [OF assms(4,5,8) rd, of s] obtain ri where
    one: "handle_replay_instruct s m st = ([(t, ri)], st\<lparr>co_pending_replays := (co_pending_replays st)(pm_request_id m \<mapsto> s)\<rparr>)"
    and ri: "pm_type ri = PT_ReplayInstruct" "pm_payload ri = pm_payload m" "pm_request_id ri = pm_request_id m"
      "pm_epoch ri = co_epoch st" "pm_cache_gen ri = co_cache_gen st" by blast
  let ?st1 = "st\<lparr>co_pending_replays := (co_pending_replays st)(pm_request_id m \<mapsto> s)\<rparr>"
  from cpu_worker_replays [OF assms(2,3) _ _ ri(1), of ws to_f64 xs fl] ri(2) assms(4,9-11) obtain ns out where
    ns: "mset ns = mset (map cpu_node (g_nodes fd))" "map cn_id ns = cpu_order g"
    and out: "fst (run_nodes fl (replay_buffers (conv xs)) ns (replay_memory (conv xs))) 1 = Some out" "length out = 4 * length xs"
    and two: "worker_handle (cpu_backend fl ord) ord fl to_f64 ri ws =
         Some ([(worker_response ws ri)\<lparr>pm_payload := encode_replay_output to_f64 (floats_of out)\<rparr>], ws)"
    by (auto simp: offers_def conv_def)
  let ?r = "(worker_response ws ri)\<lparr>pm_payload := encode_replay_output to_f64 (floats_of out)\<rparr>"
  have "authorised ?st1 (worker_response ws ri)"
    using worker_response_authorised [of ?st1 ws t ri] assms(5) ri(4,5) by (simp add: on_duty_def)
  then have auth: "authorised ?st1 ?r" by (rule iffD2 [OF authorised_cong, rotated -1]) simp_all
  have r: "pm_type ?r = PT_ReplayResult" "pm_request_id ?r = pm_request_id m" "pm_status ?r = PS_Ok"
    using ri by (simp_all add: worker_response_def)
  obtain answer st2 where three: "handle_replay_result t ?r ?st1 = ([(s, answer)], st2)"
    and a: "pm_type answer = PT_ReplayResult" "pm_status answer = PS_Ok" "pm_request_id answer = pm_request_id m"
      "pm_payload answer = encode_replay_output to_f64 (floats_of out)"
    using r by (auto simp: handle_replay_result_def Let_def)
  have "length (floats_of out) \<le> 2 ^ 20" using out(2) assms(10) by (simp add: floats_of_def)
  from decode_output_enc [OF this a(4), of fl] have "decode_output fl answer = Some (conv (floats_of out))" by (simp add: conv_def)
  with one two three a ns out(1) authorised_apply(3) [OF assms(7,6), of s] authorised_apply(4) [OF auth r(1), of t]
  show ?thesis by (intro exI conjI) (assumption | simp)+
qed

text \<open>
  C5: A replay is answered end to end with what the graph computes. If the coordinator offers a graph
  that a CPU worker on duty holds, and the floats the client sends are enough for the graph's nodes, the
  coordinator forwards the request to that worker, the worker replays without touching memory out of
  bounds, and the client that asked receives the output buffer as it is after the nodes were applied in
  the canonical order to the client's floats and a zeroed output (up to the conversions between float and
  double on the wire).
\<close>

theorem distributed_replay:
  fixes xs to_f64 fl
  defines "conv \<equiv> map (\<lambda>v. fl_of_f64 fl (to_f64 v))"
  assumes "\<And>xs. mset (ord xs) = mset xs" and "cpu_capture ord fd = success (Some g)"
    and "offers st ws fd (Some g) gen" and "on_duty st ws t"
    and "pm_type m = PT_ReplayInstruct" and "authorised st m" and "pm_graph_gen m = gen \<or> \<not> GraphGeneration_valid (pm_graph_gen m)"
    and "pm_payload m = encode_replay to_f64 (GraphArtifactId_to_string (g_artifact fd)) xs" and "length xs \<le> 2 ^ 20"
    and "list_all (\<lambda>n. node_fits (replay_buffers (conv xs)) (replay_memory (conv xs)) (cpu_node n)) (g_nodes fd)"
  shows "\<exists>ri r answer st1 st2 ns out. co_apply st (CI_Message s m) = ([(t, ri)], st1)
     \<and> worker_handle (cpu_backend fl ord) ord fl to_f64 ri ws = Some ([r], ws)
     \<and> co_apply st1 (CI_Message t r) = ([(s, answer)], st2)
     \<and> pm_type answer = PT_ReplayResult \<and> pm_status answer = PS_Ok \<and> pm_request_id answer = pm_request_id m
     \<and> mset ns = mset (map cpu_node (g_nodes fd)) \<and> map cn_id ns = cpu_order g
     \<and> fst (run_nodes fl (replay_buffers (conv xs)) ns (replay_memory (conv xs))) 1 = Some out
     \<and> decode_output fl answer = Some (conv (floats_of out))"
  unfolding conv_def by (rule replay_end_to_end [OF assms(2-10) assms(11) [unfolded conv_def]])

section \<open>Too few floats\<close>

text \<open>A node that names the one buffer the worker provides on each side, and one that needs more bytes than it has.\<close>

definition names_buffer :: "CpuNode \<Rightarrow> bool" where
  "names_buffer n \<longleftrightarrow> (cn_category n \<in> {NC_Kernel, NC_MemoryCopy} \<longrightarrow> cn_src n = 0 \<and> cn_dst n = 0)
     \<and> (cn_category n = NC_MemorySet \<longrightarrow> cn_dst n = 0)"

definition needs_more :: "nat \<Rightarrow> CpuNode \<Rightarrow> bool" where
  "needs_more bytes n \<longleftrightarrow> active n \<and> bytes < unat (cn_bytes n)"

lemma fits_or_needs_more:
  assumes "names_buffer n" and "same_sizes (replay_memory ys) mem"
  shows "node_fits (replay_buffers ys) mem n \<longleftrightarrow> \<not> needs_more (4 * length ys) n"
proof -
  have "map_option length (mem 0) = Some (4 * length ys)" "map_option length (mem 1) = Some (4 * length ys)"
    using assms(2) by (simp_all add: same_sizes_def replay_memory_def)
  with assms(1) show ?thesis
    by (auto simp: node_fits_def needs_more_def names_buffer_def active_def holds_def replay_buffers_def split: NodeCategory.splits)
qed

lemma kernel_loop_sizes: "kernel_loop f src dst is mem = Some mem' \<Longrightarrow> same_sizes mem mem'"
proof (induction "is" arbitrary: mem)
  case (Cons i "is")
  then obtain x m where "store_lane mem dst i (f x) = Some m" "same_sizes m mem'" by (auto split: Option.bind_splits)
  then show ?case by (auto simp: same_sizes_def store_lane_def split: option.splits if_splits)
qed (simp add: same_sizes_def)

lemma replay_node_overruns:
  assumes "names_buffer n" and "same_sizes (replay_memory ys) (rp_mem st)" and "needs_more (4 * length ys) n"
  shows "replay_node fl (replay_buffers ys) n st = None"
proof -
  have len: "map_option length (rp_mem st 0) = Some (4 * length ys)" "map_option length (rp_mem st 1) = Some (4 * length ys)"
    using assms(2) by (simp_all add: same_sizes_def replay_memory_def)
  have read: "read_mem 1 (unat (cn_bytes n)) mem = None" if "same_sizes (rp_mem st) mem" for mem
  proof -
    have "map_option length (mem 1) = Some (4 * length ys)" using that len(2) by (simp add: same_sizes_def)
    with assms(3) show ?thesis by (auto simp: read_mem_def needs_more_def)
  qed
  show ?thesis
  proof (cases "cn_category n = NC_Kernel")
    case True
    then have "cn_src n = 0" "cn_dst n = 0" using assms(1) by (simp_all add: names_buffer_def)
    with True read show ?thesis
      by (auto simp: replay_node_def replay_buffers_def run_cpu_kernel_def Let_def dest: kernel_loop_sizes split: Option.bind_splits)
  next
    case False
    with assms(1,3) len show ?thesis
      by (auto simp: replay_node_def replay_buffers_def needs_more_def names_buffer_def active_def mem_copy_def mem_set_def)
  qed
qed

lemma replay_loop_overruns:
  assumes "\<And>nid. nid \<in> set nids \<Longrightarrow> find (\<lambda>n. cn_id n = nid) (cpu_nodes g) = Some (node nid)"
    and "list_all names_buffer (map node nids)" and "list_ex (needs_more (4 * length ys)) (map node nids)"
    and "same_sizes (replay_memory ys) (rp_mem st)"
  shows "replay_loop fl g (replay_buffers ys) nids st = None"
  using assms
proof (induction nids arbitrary: st)
  case (Cons nid nids)
  have nb: "names_buffer (node nid)" and f: "find (\<lambda>n. cn_id n = nid) (cpu_nodes g) = Some (node nid)" using Cons.prems by simp_all
  show ?case
  proof (cases "needs_more (4 * length ys) (node nid)")
    case True
    with replay_node_overruns [OF nb Cons.prems(4)] f show ?thesis by simp
  next
    case False
    then have fit: "node_fits (replay_buffers ys) (rp_mem st) (node nid)" using fits_or_needs_more [OF nb Cons.prems(4)] by simp
    obtain st1 where st1: "replay_node fl (replay_buffers ys) (node nid) st = Some (success (), st1)"
      "rp_mem st1 = fst (node_effect fl (replay_buffers ys) (node nid) (rp_mem st))"
      using replay_node_effect [OF fit, of fl] by (simp add: case_prod_unfold)
    have "same_sizes (replay_memory ys) (rp_mem st1)"
      using node_effect_sizes [OF fit, of fl] Cons.prems(4) st1(2) by (simp add: same_sizes_def)
    from Cons.IH [OF _ _ _ this] Cons.prems False st1(1) f show ?thesis by simp
  qed
qed simp

lemma worker_overruns:
  assumes "\<And>xs. mset (ord xs) = mset xs" and "cpu_capture ord fd = success (Some g)"
    and "map_of (ws_descs ws) (g_artifact fd) = Some fd" and "ws_execs ws (g_artifact fd) = Some (Some g)"
    and "pm_type m = PT_ReplayInstruct" and "pm_payload m = encode_replay to_f64 (GraphArtifactId_to_string (g_artifact fd)) xs"
    and "length xs \<le> 2 ^ 20" and "list_all (\<lambda>n. names_buffer (cpu_node n)) (g_nodes fd)"
    and "list_ex (\<lambda>n. needs_more (4 * length xs) (cpu_node n)) (g_nodes fd)"
  shows "worker_handle (cpu_backend fl ord) ord fl to_f64 m ws = None"
proof -
  let ?ys = "map (\<lambda>v. fl_of_f64 fl (to_f64 v)) xs"
  from capture_nodes_in_order [OF assms(1,2)] obtain node where
    find: "\<And>nid. nid \<in> set (cpu_order g) \<Longrightarrow> find (\<lambda>n. cn_id n = nid) (cpu_nodes g) = Some (node nid)"
    and perm: "mset (map node (cpu_order g)) = mset (map cpu_node (g_nodes fd))" by auto
  from mset_eq_setD [OF perm] assms(8,9)
  have "list_all names_buffer (map node (cpu_order g))" "list_ex (needs_more (4 * length ?ys)) (map node (cpu_order g))"
    by (auto simp: list_all_iff list_ex_iff)
  from replay_loop_overruns [OF find this] have "cpu_replay fl (Some g) (replay_buffers ?ys) rd (replay_memory ?ys) = None" for rd
    by (simp add: cpu_replay_def same_sizes_def)
  moreover have "find_artifact (GraphArtifactId_to_string (g_artifact fd)) ws = Some (g_artifact fd)"
    using assms(3) by (intro find_artifact_found) (metis fst_conv imageI map_of_SomeD)
  ultimately show ?thesis using assms(3-7) decode_replay_client [OF assms(7) fits32_artifact, of fl to_f64]
    by (simp add: worker_handle_def worker_replay_def cpu_backend_def Let_def)
qed

text \<open>
  C38: Nobody checks that a client sends enough floats. For every graph a CPU worker has captured whose nodes
  use the first input and output buffer, and every request to replay it that carries current authority, the
  coordinator forwards the request whatever the number of floats; and the worker's replay accesses memory
  out of bounds (\<open>None\<close>) exactly when some kernel, copy or set of the graph covers more bytes than the client's
  floats have. The worker makes both buffers as long as the floats it received, and the backend uses the
  sizes of the nodes without comparing.
\<close>

theorem replay_overruns_iff_short:
  assumes "\<And>xs. mset (ord xs) = mset xs" and "cpu_capture ord fd = success (Some g)"
    and "offers st ws fd (Some g) gen" and "on_duty st ws t"
    and "pm_type m = PT_ReplayInstruct" and "authorised st m" and "pm_graph_gen m = gen \<or> \<not> GraphGeneration_valid (pm_graph_gen m)"
    and "pm_payload m = encode_replay to_f64 (GraphArtifactId_to_string (g_artifact fd)) xs" and "length xs \<le> 2 ^ 20"
    and "list_all (\<lambda>n. names_buffer (cpu_node n)) (g_nodes fd)"
  shows "\<exists>ri st1. co_apply st (CI_Message s m) = ([(t, ri)], st1)
     \<and> (worker_handle (cpu_backend fl ord) ord fl to_f64 ri ws = None
          \<longleftrightarrow> list_ex (\<lambda>n. needs_more (4 * length xs) (cpu_node n)) (g_nodes fd))"
proof -
  let ?ys = "map (\<lambda>v. fl_of_f64 fl (to_f64 v)) xs"
  have rd: "read_field 1 decode_str (canonical_reader (pm_payload m)) = Some (GraphArtifactId_to_string (g_artifact fd),
      canonical_reader (put_u32 2 (word_of_nat (length xs)) @ concat (map (\<lambda>v. put_f64 3 (to_f64 v)) xs)))"
    using assms(8) read_artifact(1) [OF fits32_artifact] by (simp add: encode_replay_def)
  from replay_forwarded [OF assms(3,4,7) rd, of s] authorised_apply(3) [OF assms(6,5), of s]
  obtain ri st1 where one: "co_apply st (CI_Message s m) = ([(t, ri)], st1)"
    and ri: "pm_type ri = PT_ReplayInstruct" "pm_payload ri = encode_replay to_f64 (GraphArtifactId_to_string (g_artifact fd)) xs"
    using assms(8) by auto
  have ws: "map_of (ws_descs ws) (g_artifact fd) = Some fd" "ws_execs ws (g_artifact fd) = Some (Some g)"
    using assms(3) by (simp_all add: offers_def)
  have "worker_handle (cpu_backend fl ord) ord fl to_f64 ri ws \<noteq> None"
    if "\<not> list_ex (\<lambda>n. needs_more (4 * length xs) (cpu_node n)) (g_nodes fd)"
  proof -
    have "list_all (\<lambda>n. node_fits (replay_buffers ?ys) (replay_memory ?ys) (cpu_node n)) (g_nodes fd)"
      using that assms(10) fits_or_needs_more [where ys = ?ys and mem = "replay_memory ?ys"]
      by (auto simp: list_all_iff list_ex_iff same_sizes_def)
    from cpu_worker_replays [OF assms(1,2) ws ri assms(9) this] show ?thesis by auto
  qed
  then have "worker_handle (cpu_backend fl ord) ord fl to_f64 ri ws = None
      \<longleftrightarrow> list_ex (\<lambda>n. needs_more (4 * length xs) (cpu_node n)) (g_nodes fd)"
    using worker_overruns [OF assms(1,2) ws ri assms(9,10), of fl] by blast
  with one show ?thesis by (intro exI conjI)
qed

section \<open>Examples\<close>

definition example_duty :: State where
  "example_duty = State_default\<lparr>co_worker_boot := [1 \<mapsto> 5], co_worker_connected := {1}, co_worker_sock := [1 \<mapsto> 10]\<rparr>"

definition example_worker :: "CpuGraph WorkerState" where
  "example_worker = \<lparr>ws_descs = [], ws_execs = Map.empty, ws_worker_id = 1, ws_boot_id = 5\<rparr>"

definition example_floats :: float_ops where
  "example_floats = \<lparr>fl_mul = \<lambda>x y. 0, fl_add = \<lambda>x y. 0, fl_of_f64 = ucast, fl_of_i64 = ucast\<rparr>"

lemma example_on_duty: "on_duty example_duty example_worker 10"
  by (simp add: on_duty_def example_duty_def example_worker_def)

lemma client_authorised: "authorised example_duty (client_lookup desc wl)"
  by (simp add: authorised_def is_stale_epoch_def is_stale_cache_gen_def is_stale_boot_def client_lookup_def example_duty_def
      State_default_def ProtocolMessage_default_def WorkerId_valid_def)

theorem distributed_capture_witness:
  "\<exists>inst r answer st1 ws1 st2 fd. co_apply example_duty (CI_Message 11 (client_lookup GraphDescriptor_default WorkloadIdentity_default)) = ([(10, inst)], st1)
     \<and> worker_handle (cpu_backend example_floats id) id example_floats ucast inst example_worker = Some ([r], ws1)
     \<and> co_apply st1 (CI_Message 10 r) = ([(11, answer)], st2)
     \<and> finalize id (descriptor_view GraphDescriptor_default) = success fd
     \<and> decode_artifact answer = Some (GraphArtifactId_to_string (g_artifact fd)) \<and> pm_graph_gen answer = GraphGeneration 2"
proof -
  let ?d = "descriptor_view GraphDescriptor_default" and ?m = "client_lookup GraphDescriptor_default WorkloadIdentity_default"
  have ok: "wire_ok GraphDescriptor_default WorkloadIdentity_default"
    using descriptor_ok_default example_default_fits by (simp add: wire_ok_def WorkloadIdentity_default_def fits32_def)
  have "topology_ok (g_nodes ?d) (g_edges ?d)"
    by (simp add: topology_ok_def topology_shape_def edge_pairs_def descriptor_view_def GraphDescriptor_default_def wf_acyclic)
  then have v: "validate_graph id ?d = success ()" using validate_graph_iff [of id ?d] by simp
  then have f: "finalize id ?d = success (finalized ?d)" by (simp add: finalize_eq)
  have "g_nodes (finalized ?d) = []" "g_edges (finalized ?d) = []"
    by (simp_all add: finalized_fields descriptor_view_def GraphDescriptor_default_def)
  then have "validate_graph id (finalized ?d) = success ()"
    using validate_graph_iff [of id "finalized ?d"]
    by (simp add: topology_ok_def topology_shape_def edge_pairs_def wf_acyclic)
  then obtain h where h: "be_capture (cpu_backend example_floats id) (finalized ?d) (CaptureAttemptId (co_capture_counter example_duty + 1)) = success h"
    by (simp add: cpu_backend_def cpu_capture_def Let_def)
  have g: "co_graph_gen_counter example_duty + 1 = 2" "co_graphs example_duty = Map.empty"
    by (simp_all add: example_duty_def State_default_def)
  have w: "ws_worker_id example_worker = Min (co_worker_connected example_duty)" "pm_type ?m = PT_Lookup"
    "pm_payload ?m = encode_lookup GraphDescriptor_default WorkloadIdentity_default"
    by (simp_all add: example_worker_def example_duty_def client_lookup_def)
  from distributed_capture [OF cpu.graph_backend_axioms ok example_on_duty w(1,2) client_authorised w(3) refl _ f h, of 11 example_floats ucast]
  show ?thesis using f unfolding g by auto
qed

definition example_copy :: GraphDescriptor where
  "example_copy = GraphDescriptor_default\<lparr>g_nodes := [(example_node 1)\<lparr>n_category := NC_MemoryCopy, n_memory_bytes := 4\<rparr>]\<rparr>"

definition example_graph :: CpuGraph where
  "example_graph = (case cpu_capture id example_copy of Inr (Some g) \<Rightarrow> g)"

definition example_holder :: "CpuGraph WorkerState" where
  "example_holder = example_worker\<lparr>ws_descs := [(g_artifact example_copy, example_copy)],
     ws_execs := [g_artifact example_copy \<mapsto> Some example_graph]\<rparr>"

definition example_offer :: State where
  "example_offer = example_duty\<lparr>co_graphs := [artifact_key (GraphArtifactId_to_string (g_artifact example_copy)) \<mapsto>
     \<lparr>ent_artifact = g_artifact example_copy, ent_generation = GraphGeneration 2, ent_worker_id = 1, ent_cache_gen_at_publish = 1\<rparr>]\<rparr>"

lemma example_copy_captured: "cpu_capture id example_copy = success (Some example_graph)"
proof -
  have "topology_ok (g_nodes example_copy) (g_edges example_copy)"
    by (simp add: example_copy_def topology_ok_def topology_shape_def edge_pairs_def example_simps GraphDescriptor_default_def wf_acyclic)
  then have "validate_graph id example_copy = success ()" using validate_graph_iff [of id example_copy] by simp
  then obtain g where "cpu_capture id example_copy = success (Some g)" by (simp add: cpu_capture_def Let_def)
  then show ?thesis by (simp add: example_graph_def)
qed

lemma example_offers: "offers example_offer example_holder example_copy (Some example_graph) (GraphGeneration 2)"
  "on_duty example_offer example_holder 10"
  by (simp_all add: offers_def on_duty_def example_offer_def example_holder_def example_duty_def example_worker_def State_default_def)

lemma example_copy_fits:
  "list_all (\<lambda>n. node_fits (replay_buffers [x]) (replay_memory [x]) (cpu_node n)) (g_nodes example_copy)"
  by (simp add: example_copy_def node_fits_def holds_def cpu_node_def replay_buffers_def replay_memory_def example_simps)

theorem distributed_replay_witness:
  "\<exists>m ri r answer st1 st2. m = client_replay ucast (GraphGeneration 2) (GraphArtifactId_to_string (g_artifact example_copy)) [7]
     \<and> co_apply example_offer (CI_Message 11 m) = ([(10, ri)], st1)
     \<and> worker_handle (cpu_backend example_floats id) id example_floats ucast ri example_holder = Some ([r], example_holder)
     \<and> co_apply st1 (CI_Message 10 r) = ([(11, answer)], st2)
     \<and> pm_status answer = PS_Ok \<and> decode_output example_floats answer = Some [7]"
proof -
  let ?m = "client_replay ucast (GraphGeneration 2) (GraphArtifactId_to_string (g_artifact example_copy)) [7]"
  have m: "pm_type ?m = PT_ReplayInstruct" "authorised example_offer ?m" "pm_graph_gen ?m = GraphGeneration 2"
    "pm_payload ?m = encode_replay ucast (GraphArtifactId_to_string (g_artifact example_copy)) [7]"
    by (simp_all add: client_replay_def authorised_def is_stale_epoch_def is_stale_cache_gen_def is_stale_boot_def
        example_offer_def example_duty_def State_default_def ProtocolMessage_default_def WorkerId_valid_def)
  have conv: "map (\<lambda>v :: f32. fl_of_f64 example_floats (ucast v)) [7] = [7]" by (simp add: example_floats_def)
  from distributed_replay [OF _ example_copy_captured example_offers m(1,2) _ m(4), of example_floats 11] m(3)
    example_copy_fits [of 7]
  obtain ri r answer st1 st2 ns out where
    steps: "co_apply example_offer (CI_Message 11 ?m) = ([(10, ri)], st1)"
      "worker_handle (cpu_backend example_floats id) id example_floats ucast ri example_holder = Some ([r], example_holder)"
      "co_apply st1 (CI_Message 10 r) = ([(11, answer)], st2)" "pm_status answer = PS_Ok"
    and ns: "mset ns = mset (map cpu_node (g_nodes example_copy))"
    and out: "fst (run_nodes example_floats (replay_buffers [7]) ns (replay_memory [7])) 1 = Some out"
    and ans: "decode_output example_floats answer = Some (map (\<lambda>v. fl_of_f64 example_floats (ucast v)) (floats_of out))"
    unfolding conv by auto
  have "ns = [cpu_node (hd (g_nodes example_copy))]" using ns by (simp add: example_copy_def)
  then have "out = float_bytes [7]" using out
    by (simp add: node_effect_def cpu_node_def example_copy_def example_simps replay_buffers_def replay_memory_def Let_def)
  then have "floats_of out = [7]" using floats_of_float_bytes by simp
  with steps ans conv show ?thesis by auto
qed

lemma example_copy_wire: "wire_ok example_copy WorkloadIdentity_default"
proof -
  let ?n = "(example_node 1)\<lparr>n_category := NC_MemoryCopy, n_memory_bytes := 4\<rparr>"
  note defaults = example_simps KernelIdentityRef_default_def ShapeDescriptor_default_def ScalarSpecialization_default_def
    QuantizationConfig_default_def BindingDescriptor_default_def LaunchGeometry_default_def
  have n: "ser_node_ok ?n" "length (ser_encode_node ?n) < 2 ^ 16"
    by (simp_all add: defaults ser_node_ok_def node_encodable_def fits32_def ser_encode_node_def put_is_field)
  then have "descriptor_ok example_copy"
    using descriptor_ok_default by (simp add: descriptor_ok_def example_copy_def fits32_def)
  moreover have "fits32 (serialize_descriptor example_copy)"
    using n(2) by (simp add: fits32_def example_copy_def serialize_descriptor_def GraphDescriptor_default_def BackendIdentity_default_def
        RuntimeDescriptor_default_def DeviceDescriptor_default_def SynchronizationDescriptor_default_def
        ProvenanceDescriptor_default_def put_is_field)
  ultimately show ?thesis by (simp add: wire_ok_def WorkloadIdentity_default_def fits32_def)
qed

text \<open>
  The graph that copies four bytes is looked up, captured and published; then a client replays it with no floats.
\<close>

theorem replay_overruns_iff_short_witness:
  "\<exists>inst r answer st1 ws1 st2 ri st3 hex.
     co_apply example_duty (CI_Message 11 (client_lookup example_copy WorkloadIdentity_default)) = ([(10, inst)], st1)
   \<and> worker_handle (cpu_backend example_floats id) id example_floats ucast inst example_worker = Some ([r], ws1)
   \<and> co_apply st1 (CI_Message 10 r) = ([(11, answer)], st2)
   \<and> decode_artifact answer = Some hex
   \<and> co_apply st2 (CI_Message 11 (client_replay ucast (GraphGeneration 2) hex [])) = ([(10, ri)], st3)
   \<and> worker_handle (cpu_backend example_floats id) id example_floats ucast ri ws1 = None"
proof -
  let ?d = "descriptor_view example_copy" and ?m = "client_lookup example_copy WorkloadIdentity_default"
  let ?fd = "finalized ?d"
  have nodes: "g_nodes ?fd = g_nodes ?d" "g_edges ?fd = []"
    by (simp_all add: finalized_fields descriptor_view_def example_copy_def GraphDescriptor_default_def)
  have t: "topology_ok (g_nodes ?d) []"
    by (simp add: topology_ok_def topology_shape_def edge_pairs_def descriptor_view_def example_copy_def node_view_def
        example_simps GraphDescriptor_default_def wf_acyclic)
  then have "validate_graph id ?d = success ()" "validate_graph id ?fd = success ()"
    using validate_graph_iff [of id ?d] validate_graph_iff [of id ?fd] nodes
    by (simp_all add: descriptor_view_def example_copy_def GraphDescriptor_default_def)
  then obtain g where f: "finalize id ?d = success ?fd" and g: "cpu_capture id ?fd = success (Some g)"
    by (simp add: finalize_eq cpu_capture_def Let_def)
  then have h: "be_capture (cpu_backend example_floats id) ?fd (CaptureAttemptId (co_capture_counter example_duty + 1)) = success (Some g)"
    by (simp add: cpu_backend_def)
  have w: "ws_worker_id example_worker = Min (co_worker_connected example_duty)" "pm_type ?m = PT_Lookup"
    "pm_payload ?m = encode_lookup example_copy WorkloadIdentity_default"
    by (simp_all add: example_worker_def example_duty_def client_lookup_def)
  have c: "co_graph_gen_counter example_duty + 1 = 2" "co_graphs example_duty = Map.empty"
    "co_epoch example_duty = CoordinatorEpoch 1" "co_cache_gen example_duty = CacheGeneration 1"
    by (simp_all add: example_duty_def State_default_def)
  from capture_end_to_end [OF cpu.graph_backend_axioms example_copy_wire example_on_duty w(1,2) client_authorised w(3) refl _ f h,
      of 11 example_floats ucast] c
  obtain inst r answer st1 ws1 st2 where run:
    "co_apply example_duty (CI_Message 11 ?m) = ([(10, inst)], st1)"
    "worker_handle (cpu_backend example_floats id) id example_floats ucast inst example_worker = Some ([r], ws1)"
    "co_apply st1 (CI_Message 10 r) = ([(11, answer)], st2)"
    and a: "decode_artifact answer = Some (GraphArtifactId_to_string (g_artifact ?fd))"
    and off: "offers st2 ws1 ?fd (Some g) (GraphGeneration 2)" "on_duty st2 ws1 10"
    and ep: "co_epoch st2 = CoordinatorEpoch 1" "co_cache_gen st2 = CacheGeneration 1" by auto
  let ?r = "client_replay ucast (GraphGeneration 2) (GraphArtifactId_to_string (g_artifact ?fd)) []"
  have m: "pm_type ?r = PT_ReplayInstruct" "authorised st2 ?r" "pm_graph_gen ?r = GraphGeneration 2"
    "pm_payload ?r = encode_replay ucast (GraphArtifactId_to_string (g_artifact ?fd)) []"
    by (simp_all add: client_replay_def authorised_def is_stale_epoch_def is_stale_cache_gen_def is_stale_boot_def
        ep ProtocolMessage_default_def WorkerId_valid_def)
  have n: "list_all (\<lambda>n. names_buffer (cpu_node n)) (g_nodes ?fd)" "list_ex (\<lambda>n. needs_more 0 (cpu_node n)) (g_nodes ?fd)"
    unfolding nodes by (simp_all add: descriptor_view_def example_copy_def node_view_def cpu_node_def names_buffer_def
        needs_more_def active_def example_simps GraphDescriptor_default_def)
  from replay_overruns_iff_short [OF _ g off m(1,2) _ m(4) _ n(1), of 11 example_floats] m(3) n(2)
  obtain ri st3 where "co_apply st2 (CI_Message 11 ?r) = ([(10, ri)], st3)"
    "worker_handle (cpu_backend example_floats id) id example_floats ucast ri ws1 = None" by auto
  with run a show ?thesis by (intro exI conjI) assumption+
qed

end
