(* ===== verification/GC_CudaBackend.thy ===== *)
theory GC_CudaBackend
  imports GC_CpuBackend
begin

text \<open>
  The CUDA graph backend, \<open>src/cuda/cuda_backend.cu\<close>, and the stubs \<open>src/backend.cpp\<close> has in its place
  when the build has no CUDA.

  The CUDA runtime is not part of the repository: it is the parameter \<open>api\<close>, a record of the calls the
  backend makes, over a runtime state \<open>'s\<close> of which nothing is known. A call that creates something
  answers the handle, or \<open>None\<close> for anything but \<open>cudaSuccess\<close>; handle 0 is \<open>nullptr\<close>. What the code relies
  on is the documented behaviour of these calls, stated in the locale \<open>cuda_runtime\<close> over a view of the
  runtime state: the live streams, graphs, instantiated graphs and device buffers. Device and host
  memory are separate address spaces. Threads of a kernel run one after the other in an order the
  model leaves open; the arithmetic of the device is the parameter \<open>gpu\<close>, with one function for
  \<open>x * b + a\<close>, which the device compiler may contract to one rounding.
\<close>

section \<open>The runtime the backend calls\<close>

type_synonym i32 = "32 word"

datatype cudaMemcpyKind = MK_HostToDevice | MK_DeviceToHost

datatype cptr = NullP | HostP buffer | DevP buffer

record memcpy_parms =
  mp_dst :: cptr
  mp_src :: cptr
  mp_bytes :: u64
  mp_kind :: cudaMemcpyKind

record kernel_parms =
  kp_grid :: u32
  kp_block :: u32
  kp_in :: buffer
  kp_out :: buffer
  kp_n :: i32
  kp_a :: f32
  kp_b :: f32
  kp_op :: i32

record cudaDeviceProp =
  prop_name :: string
  prop_major :: i32
  prop_minor :: i32

record 's cuda_world =
  cw_host :: memory
  cw_brk :: buffer
  cw_rt :: 's

record 's cuda_api =
  cudaStreamCreate :: "'s \<Rightarrow> nat option \<times> 's"
  cudaMalloc :: "u64 \<Rightarrow> 's \<Rightarrow> buffer option \<times> 's"
  cudaGraphCreate :: "'s \<Rightarrow> nat option \<times> 's"
  cudaGraphAddMemcpyNode :: "nat \<Rightarrow> nat list \<Rightarrow> memcpy_parms \<Rightarrow> 's \<Rightarrow> nat option \<times> 's"
  cudaGraphAddKernelNode :: "nat \<Rightarrow> nat list \<Rightarrow> kernel_parms \<Rightarrow> 's \<Rightarrow> nat option \<times> 's"
  cudaGraphInstantiate :: "nat \<Rightarrow> 's \<Rightarrow> nat option \<times> 's"
  cudaGraphExecMemcpyNodeSetParams1D :: "nat \<Rightarrow> nat \<Rightarrow> memcpy_parms \<Rightarrow> 's \<Rightarrow> bool \<times> 's"
  cudaGraphLaunch :: "nat \<Rightarrow> nat \<Rightarrow> 's cuda_world \<Rightarrow> bool \<times> 's cuda_world"
  cudaStreamSynchronize :: "nat \<Rightarrow> 's cuda_world \<Rightarrow> bool \<times> 's cuda_world"
  cudaGraphExecDestroy :: "nat \<Rightarrow> 's \<Rightarrow> 's"
  cudaGraphDestroy :: "nat \<Rightarrow> 's \<Rightarrow> 's"
  cudaStreamDestroy :: "nat \<Rightarrow> 's \<Rightarrow> 's"
  cudaFree :: "buffer \<Rightarrow> 's \<Rightarrow> 's"
  cudaGetDeviceCount :: "'s \<Rightarrow> i32 option"
  cudaGetDeviceProperties :: "'s \<Rightarrow> cudaDeviceProp option"

section \<open>The kernel\<close>

record gpu_ops =
  gpu_mul :: "f32 \<Rightarrow> f32 \<Rightarrow> f32"
  gpu_add :: "f32 \<Rightarrow> f32 \<Rightarrow> f32"
  gpu_muladd :: "f32 \<Rightarrow> f32 \<Rightarrow> f32 \<Rightarrow> f32"

definition op_code :: "string \<Rightarrow> i32" where
  "op_code name = (
     if name = ''scale'' then 1
     else if name = ''addscalar'' then 2
     else if name = ''linear'' then 3
     else if name = ''square'' then 4
     else if name = ''relu'' then 5
     else 0)"

definition gpu_lane :: "gpu_ops \<Rightarrow> i32 \<Rightarrow> f32 \<Rightarrow> f32 \<Rightarrow> f32 \<Rightarrow> f32" where
  "gpu_lane gpu op a b x = (
     if op = 0 then x
     else if op = 1 then gpu_mul gpu x a
     else if op = 2 then gpu_add gpu x a
     else if op = 3 then gpu_muladd gpu x b a
     else if op = 4 then gpu_mul gpu x x
     else if op = 5 then (if f32_positive x then x else 0)
     else 0)"

text \<open>One thread; \<open>i\<close> is unsigned arithmetic converted to \<open>int\<close>, an access outside a buffer is \<open>None\<close>.\<close>

definition gc_generic_kernel :: "gpu_ops \<Rightarrow> kernel_parms \<Rightarrow> nat \<times> nat \<Rightarrow> memory \<Rightarrow> memory option" where
  "gc_generic_kernel gpu kp bt mem = (case bt of (blockIdx, threadIdx) \<Rightarrow>
     let i = sint (word_of_nat blockIdx * kp_block kp + word_of_nat threadIdx :: i32) in
     if i < sint (kp_n kp) then
       (if i < 0 then None
        else do { x \<leftarrow> load_lane mem (kp_in kp) (nat i);
                  store_lane mem (kp_out kp) (nat i) (gpu_lane gpu (kp_op kp) (kp_a kp) (kp_b kp) x) })
     else Some mem)"

section \<open>Captured graphs\<close>

record CudaGraphState =
  cs_exec :: nat
  cs_graph :: nat
  cs_stream :: nat
  cs_buffers :: "buffer list"
  cs_h2d :: nat
  cs_d2h :: nat
  cs_kernels :: "nat list"
  cs_ops :: "i32 list"
  cs_as :: "f32 list"
  cs_bs :: "f32 list"
  cs_bytes :: u64
  cs_n :: i32
  cs_h_in :: buffer
  cs_h_out :: buffer

definition make_1d :: "cptr \<Rightarrow> cptr \<Rightarrow> u64 \<Rightarrow> cudaMemcpyKind \<Rightarrow> memcpy_parms" where
  "make_1d dst src bytes kind = \<lparr>mp_dst = dst, mp_src = src, mp_bytes = bytes, mp_kind = kind\<rparr>"

text \<open>\<open>0x38d1b717\<close> is \<open>0.0001f\<close>; converting an \<open>int32_t\<close> is converting the \<open>int64_t\<close> of the same value.\<close>

fun fill_pattern_loop :: "float_ops \<Rightarrow> nat \<Rightarrow> u32 \<Rightarrow> f32 list" where
  "fill_pattern_loop fl 0 s = []"
| "fill_pattern_loop fl (Suc k) s =
     (let s = s XOR push_bit 13 s; s = s XOR drop_bit 7 s; s = s XOR push_bit 17 s
      in fl_mul fl (fl_of_i64 fl (scast s)) 0x38d1b717 # fill_pattern_loop fl k s)"

definition fill_pattern :: "float_ops \<Rightarrow> nat \<Rightarrow> u32 \<Rightarrow> f32 list" where
  "fill_pattern fl k seed = fill_pattern_loop fl k (if seed \<noteq> 0 then seed else 1)"

text \<open>A \<open>std::vector<float>\<close> of the state is a host buffer, released with the state.\<close>

definition host_vector :: "f32 list \<Rightarrow> 's cuda_world \<Rightarrow> buffer \<times> 's cuda_world" where
  "host_vector xs w = (cw_brk w, w\<lparr>cw_host := (cw_host w)(cw_brk w \<mapsto> concat (map (le_bytes 4) xs)), cw_brk := cw_brk w + 1\<rparr>)"

definition release_vectors :: "CudaGraphState \<Rightarrow> 's cuda_world \<Rightarrow> 's cuda_world" where
  "release_vectors st w = w\<lparr>cw_host := (cw_host w)(cs_h_in st := None, cs_h_out st := None)\<rparr>"

text \<open>A call with its error return, and the sequence of two such steps.\<close>

definition cu_call :: "('s \<Rightarrow> nat option \<times> 's) \<Rightarrow> ErrorCode \<Rightarrow> string \<Rightarrow> 's cuda_world \<Rightarrow> nat Result \<times> 's cuda_world" where
  "cu_call f code msg w = (case f (cw_rt w) of
       (None, r) \<Rightarrow> (failure code msg, w\<lparr>cw_rt := r\<rparr>)
     | (Some h, r) \<Rightarrow> (success h, w\<lparr>cw_rt := r\<rparr>))"

definition cu_bind :: "('w \<Rightarrow> 'a Result \<times> 'w) \<Rightarrow> ('a \<Rightarrow> 'w \<Rightarrow> 'b Result \<times> 'w) \<Rightarrow> 'w \<Rightarrow> 'b Result \<times> 'w" where
  "cu_bind m f w = (case m w of (Inl e, w) \<Rightarrow> (Inl e, w) | (Inr x, w) \<Rightarrow> f x w)"

fun malloc_buffers :: "'s cuda_api \<Rightarrow> nat \<Rightarrow> CudaGraphState \<Rightarrow> 's cuda_world \<Rightarrow> CudaGraphState Result \<times> 's cuda_world" where
  "malloc_buffers api 0 st w = (success st, w)"
| "malloc_buffers api (Suc k) st w =
     cu_bind (cu_call (cudaMalloc api (cs_bytes st)) EC_OutOfMemory ''cudaMalloc failed'')
       (\<lambda>p. malloc_buffers api k (st\<lparr>cs_buffers := cs_buffers st @ [p]\<rparr>)) w"

definition kernel_args :: "CudaGraphState \<Rightarrow> nat \<Rightarrow> kernel_parms" where
  "kernel_args st i = \<lparr>kp_grid = ucast ((cs_bytes st div 4 + 255) div 256), kp_block = 256,
     kp_in = cs_buffers st ! i, kp_out = cs_buffers st ! (i + 1), kp_n = cs_n st,
     kp_a = cs_as st ! i, kp_b = cs_bs st ! i, kp_op = cs_ops st ! i\<rparr>"

fun add_kernels :: "'s cuda_api \<Rightarrow> nat \<Rightarrow> nat \<Rightarrow> CudaGraphState \<Rightarrow> 's cuda_world \<Rightarrow> CudaGraphState Result \<times> 's cuda_world" where
  "add_kernels api i 0 st w = (success st, w)"
| "add_kernels api i (Suc k) st w =
     (let dep = (if i = 0 then cs_h2d st else cs_kernels st ! (i - 1)) in
      cu_bind (cu_call (cudaGraphAddKernelNode api (cs_graph st) [dep] (kernel_args st i))
          EC_Internal ''cudaGraphAddKernelNode failed'')
        (\<lambda>knode. add_kernels api (Suc i) k (st\<lparr>cs_kernels := cs_kernels st @ [knode]\<rparr>)) w)"

definition cuda_build :: "'s cuda_api \<Rightarrow> nat \<Rightarrow> CudaGraphState \<Rightarrow> 's cuda_world \<Rightarrow> CudaGraphState Result \<times> 's cuda_world" where
  "cuda_build api nk st =
     cu_bind (cu_call (cudaStreamCreate api) EC_DeviceUnavailable ''cudaStreamCreate failed'') (\<lambda>s.
     cu_bind (malloc_buffers api (nk + 1) (st\<lparr>cs_stream := s\<rparr>)) (\<lambda>st.
     cu_bind (cu_call (cudaGraphCreate api) EC_Internal ''cudaGraphCreate failed'') (\<lambda>g.
     cu_bind (cu_call (cudaGraphAddMemcpyNode api g []
         (make_1d (DevP (cs_buffers st ! 0)) (HostP (cs_h_in st)) (cs_bytes st) MK_HostToDevice))
         EC_Internal ''cudaGraphAddMemcpyNode H2D failed'') (\<lambda>h2d.
     cu_bind (add_kernels api 0 nk (st\<lparr>cs_graph := g, cs_h2d := h2d\<rparr>)) (\<lambda>st.
     cu_bind (cu_call (cudaGraphAddMemcpyNode api g [cs_kernels st ! (nk - 1)]
         (make_1d (HostP (cs_h_out st)) (DevP (cs_buffers st ! nk)) (cs_bytes st) MK_DeviceToHost))
         EC_Internal ''cudaGraphAddMemcpyNode D2H failed'') (\<lambda>d2h.
     cu_bind (cu_call (cudaGraphInstantiate api g) EC_Internal ''cudaGraphInstantiate failed'') (\<lambda>e w.
     (success (st\<lparr>cs_d2h := d2h, cs_exec := e\<rparr>), w))))))))"

definition cuda_identity :: BackendIdentity where
  "cuda_identity = \<lparr>bk_kind = BK_Cuda, bk_name = ''cuda-graph'', bk_version = 1, bk_impl = ''graphcache-cuda-graph''\<rparr>"

definition cuda_kernels :: "GraphDescriptor \<Rightarrow> GraphNodeDescriptor list" where
  "cuda_kernels desc = filter (\<lambda>n. n_category n = NC_Kernel) (g_nodes desc)"

definition cuda_bytes :: "GraphDescriptor \<Rightarrow> u64" where
  "cuda_bytes desc = (let b = foldl (\<lambda>b n. if n_memory_bytes n > b then n_memory_bytes n else b) 0 (cuda_kernels desc)
     in if b = 0 then 64 else b)"

definition cuda_state :: "float_ops \<Rightarrow> GraphDescriptor \<Rightarrow> buffer \<Rightarrow> buffer \<Rightarrow> CudaGraphState" where
  "cuda_state fl desc h_in h_out = \<lparr>cs_exec = 0, cs_graph = 0, cs_stream = 0, cs_buffers = [], cs_h2d = 0, cs_d2h = 0,
     cs_kernels = [], cs_ops = map (\<lambda>k. op_code (k_name (n_kernel k))) (cuda_kernels desc),
     cs_as = map (\<lambda>k. fl_of_f64 fl (sc_float (n_scalar k))) (cuda_kernels desc),
     cs_bs = map (\<lambda>k. fl_of_i64 fl (sc_int (n_scalar k))) (cuda_kernels desc),
     cs_bytes = cuda_bytes desc, cs_n = ucast (cuda_bytes desc div 4), cs_h_in = h_in, cs_h_out = h_out\<rparr>"

definition cuda_capture :: "'s cuda_api \<Rightarrow> float_ops \<Rightarrow> GraphDescriptor \<Rightarrow> 's cuda_world
    \<Rightarrow> CudaGraphState option Result \<times> 's cuda_world" where
  "cuda_capture api fl desc w =
    (if cuda_kernels desc = [] then (failure EC_InvalidArgument ''CUDA graph requires at least one kernel node'', w)
     else let n = cuda_bytes desc div 4 in
     if n = 0 then (failure EC_InvalidArgument ''CUDA graph workload has zero elements'', w)
     else let (h_in, w) = host_vector (fill_pattern fl (unat n) 0xC0FFEE) w;
              (h_out, w) = host_vector (replicate (unat n) 0) w;
              st = cuda_state fl desc h_in h_out
          in case cuda_build api (length (cuda_kernels desc)) st w of
               (Inl e, w) \<Rightarrow> (Inl e, release_vectors st w)
             | (Inr st, w) \<Rightarrow> (success (Some st), w))"

definition cuda_load :: "GraphDescriptor \<Rightarrow> CudaGraphState option \<Rightarrow> unit Result" where
  "cuda_load desc exec = success ()"

text \<open>The launch and the wait shared by \<open>validate\<close> and \<open>replay\<close>.\<close>

definition launch_and_wait :: "'s cuda_api \<Rightarrow> CudaGraphState \<Rightarrow> 's cuda_world \<Rightarrow> unit Result \<times> 's cuda_world" where
  "launch_and_wait api st w = (case cudaGraphLaunch api (cs_exec st) (cs_stream st) w of
       (False, w) \<Rightarrow> (failure EC_Internal ''cudaGraphLaunch failed'', w)
     | (True, w) \<Rightarrow> (case cudaStreamSynchronize api (cs_stream st) w of
           (False, w) \<Rightarrow> (failure EC_Internal ''cudaStreamSynchronize failed'', w)
         | (True, w) \<Rightarrow> (success (), w)))"

definition cuda_validate :: "'s cuda_api \<Rightarrow> GraphDescriptor \<Rightarrow> CudaGraphState option \<Rightarrow> 's cuda_world \<Rightarrow> unit Result \<times> 's cuda_world" where
  "cuda_validate api desc exec w = (case exec of
       None \<Rightarrow> (failure EC_InvalidArgument ''null cuda graph handle'', w)
     | Some st \<Rightarrow> launch_and_wait api st w)"

definition cuda_can_rebind :: "GraphDescriptor \<Rightarrow> bool Result" where
  "cuda_can_rebind desc = success (\<not> list_ex (\<lambda>n. n_category n = NC_Kernel \<and>
     (bd_class (n_binding n) = BC_RecaptureRequired \<or> bd_class (n_binding n) = BC_Immutable)) (g_nodes desc))"

definition bind_h2d :: "'s cuda_api \<Rightarrow> CudaGraphState \<Rightarrow> cptr \<Rightarrow> 's cuda_world \<Rightarrow> bool \<times> 's cuda_world" where
  "bind_h2d api st src w = (case cudaGraphExecMemcpyNodeSetParams1D api (cs_exec st) (cs_h2d st)
       (make_1d (DevP (cs_buffers st ! 0)) src (cs_bytes st) MK_HostToDevice) (cw_rt w) of
     (ok, r) \<Rightarrow> (ok, w\<lparr>cw_rt := r\<rparr>))"

definition bind_d2h :: "'s cuda_api \<Rightarrow> CudaGraphState \<Rightarrow> cptr \<Rightarrow> 's cuda_world \<Rightarrow> bool \<times> 's cuda_world" where
  "bind_d2h api st dst w = (case cudaGraphExecMemcpyNodeSetParams1D api (cs_exec st) (cs_d2h st)
       (make_1d dst (DevP (cs_buffers st ! length (cs_kernels st))) (cs_bytes st) MK_DeviceToHost) (cw_rt w) of
     (ok, r) \<Rightarrow> (ok, w\<lparr>cw_rt := r\<rparr>))"

text \<open>
  \<open>latency\<close> is what the steady clock measured; the digest reads the output buffer after the launch, which
  is undefined (\<open>None\<close>) when the buffer is shorter than the graph's bytes.
\<close>

definition cuda_replay :: "'s cuda_api \<Rightarrow> CudaGraphState option \<Rightarrow> ReplayBuffers \<Rightarrow> ReplayDescriptor \<Rightarrow> u64
    \<Rightarrow> 's cuda_world \<Rightarrow> (GraphReplayResult Result \<times> 's cuda_world) option" where
  "cuda_replay api exec bufs rd latency w = (case exec of
       None \<Rightarrow> Some (failure EC_InvalidArgument ''null cuda graph handle'', w)
     | Some st \<Rightarrow>
       if rb_inputs bufs = [] \<or> rb_outputs bufs = []
       then Some (failure EC_InvalidArgument ''cuda replay requires input and output buffers'', w)
       else case bind_h2d api st (HostP (hd (rb_inputs bufs))) w of
         (False, w) \<Rightarrow> Some (failure EC_Internal ''rebind h2d failed'', w)
       | (True, w) \<Rightarrow> (case bind_d2h api st (HostP (hd (rb_outputs bufs))) w of
           (False, w) \<Rightarrow> Some (failure EC_Internal ''rebind d2h failed'', w)
         | (True, w) \<Rightarrow> (case launch_and_wait api st w of
             (Inl e, w) \<Rightarrow> Some (Inl e, w)
           | (Inr _, w) \<Rightarrow> do {
               out \<leftarrow> read_mem (hd (rb_outputs bufs)) (unat (cs_bytes st)) (cw_host w);
               let digest = sha_compute out;
               Some (success \<lparr>gr_ok = True, gr_attempt = ra_value (rd_attempt rd),
                 gr_replayed_nodes = word_of_nat (length (cs_kernels st) + 2), gr_digest = digest,
                 gr_digest_hex = sha_hex digest, gr_latency_us = latency\<rparr>, w) })))"

definition ptr_of :: "buffer option \<Rightarrow> cptr" where
  "ptr_of a = (case a of None \<Rightarrow> NullP | Some p \<Rightarrow> HostP p)"

fun rebind_updates :: "'s cuda_api \<Rightarrow> CudaGraphState \<Rightarrow> RebindUpdate list \<Rightarrow> 's cuda_world \<Rightarrow> 's cuda_world" where
  "rebind_updates api st [] w = w"
| "rebind_updates api st (u # us) w = rebind_updates api st us
     (case ru_role u of
        RR_InputBuffer \<Rightarrow> snd (bind_h2d api st (ptr_of (ru_address u)) w)
      | RR_OutputBuffer \<Rightarrow> snd (bind_d2h api st (ptr_of (ru_address u)) w)
      | _ \<Rightarrow> w)"

definition cuda_rebind :: "'s cuda_api \<Rightarrow> GraphDescriptor \<Rightarrow> CudaGraphState option \<Rightarrow> RebindSpec \<Rightarrow> 's cuda_world
    \<Rightarrow> unit Result \<times> 's cuda_world" where
  "cuda_rebind api desc exec spec w = (case exec of
       None \<Rightarrow> (failure EC_InvalidArgument ''null cuda graph handle'', w)
     | Some st \<Rightarrow> (success (), rebind_updates api st (rs_updates spec) w))"

definition free_resources :: "'s cuda_api \<Rightarrow> CudaGraphState \<Rightarrow> 's \<Rightarrow> 's" where
  "free_resources api st r =
     (let r = if cs_exec st \<noteq> 0 then cudaGraphExecDestroy api (cs_exec st) r else r;
          r = if cs_graph st \<noteq> 0 then cudaGraphDestroy api (cs_graph st) r else r;
          r = if cs_stream st \<noteq> 0 then cudaStreamDestroy api (cs_stream st) r else r
      in fold (\<lambda>p r. if p \<noteq> 0 then cudaFree api p r else r) (cs_buffers st) r)"

definition cuda_unload :: "'s cuda_api \<Rightarrow> GraphDescriptor \<Rightarrow> CudaGraphState option \<Rightarrow> 's cuda_world
    \<Rightarrow> unit Result \<times> CudaGraphState option \<times> 's cuda_world" where
  "cuda_unload api desc exec w = (success (), None, case exec of
       None \<Rightarrow> w
     | Some st \<Rightarrow> release_vectors st (w\<lparr>cw_rt := free_resources api st (cw_rt w)\<rparr>))"

definition cuda_resident_bytes :: "GraphDescriptor \<Rightarrow> CudaGraphState option \<Rightarrow> u64" where
  "cuda_resident_bytes desc exec = (case exec of
       None \<Rightarrow> 0 | Some st \<Rightarrow> cs_bytes st * word_of_nat (length (cs_buffers st)))"

section \<open>Registration and device queries\<close>

definition CudaRegistrar :: "'b \<Rightarrow> (string \<rightharpoonup> 'b) \<Rightarrow> (string \<rightharpoonup> 'b)" where
  "CudaRegistrar cuda reg = register_backend_factory ''cuda-graph'' cuda reg"

definition cuda_available :: "'s cuda_api \<Rightarrow> 's \<Rightarrow> bool" where
  "cuda_available api r = (case cudaGetDeviceCount api r of None \<Rightarrow> False | Some c \<Rightarrow> sint c > 0)"

definition cuda_device_name :: "'s cuda_api \<Rightarrow> 's \<Rightarrow> string" where
  "cuda_device_name api r = (case cudaGetDeviceProperties api r of None \<Rightarrow> [] | Some p \<Rightarrow> prop_name p)"

definition cuda_compute_major :: "'s cuda_api \<Rightarrow> 's \<Rightarrow> u32" where
  "cuda_compute_major api r = (case cudaGetDeviceProperties api r of None \<Rightarrow> 0 | Some p \<Rightarrow> prop_major p)"

definition cuda_compute_minor :: "'s cuda_api \<Rightarrow> 's \<Rightarrow> u32" where
  "cuda_compute_minor api r = (case cudaGetDeviceProperties api r of None \<Rightarrow> 0 | Some p \<Rightarrow> prop_minor p)"

definition cuda_require_capability :: "'s cuda_api \<Rightarrow> 's \<Rightarrow> u32 \<Rightarrow> u32 \<Rightarrow> unit Result" where
  "cuda_require_capability api r major minor =
    (if \<not> cuda_available api r then failure EC_DeviceUnavailable ''no CUDA device''
     else case cudaGetDeviceProperties api r of
         None \<Rightarrow> failure EC_DeviceUnavailable ''cannot query CUDA device''
       | Some p \<Rightarrow>
         if sint (prop_major p) < sint major \<or> (sint (prop_major p) = sint major \<and> sint (prop_minor p) < sint minor)
         then failure EC_DeviceUnavailable (''CUDA device compute capability below required '' @
                dec_string (unat major) @ ''.'' @ dec_string (unat minor))
         else success ())"

text \<open>The stubs of a build without CUDA.\<close>

definition stub_cuda_available :: bool where
  "stub_cuda_available = False"

definition stub_cuda_device_name :: string where
  "stub_cuda_device_name = []"

definition stub_cuda_compute_major :: u32 where
  "stub_cuda_compute_major = 0"

definition stub_cuda_compute_minor :: u32 where
  "stub_cuda_compute_minor = 0"

definition stub_cuda_require_capability :: "u32 \<Rightarrow> u32 \<Rightarrow> unit Result" where
  "stub_cuda_require_capability major minor = failure EC_BackendUnavailable ''CUDA is not available in this build''"

section \<open>The documented behaviour of the runtime\<close>

text \<open>
  A graph is its nodes in the order they were added, each with the nodes it depends on. An
  instantiated graph is a copy of them. Launching it runs every node once, each after the nodes it
  depends on; a kernel node runs every thread of its grid once, in an order chosen per node.
\<close>

datatype node_params = NP_Memcpy memcpy_parms | NP_Kernel kernel_parms

record graph_node =
  gn_id :: nat
  gn_deps :: "nat list"
  gn_params :: node_params

record cuda_view =
  vw_streams :: "nat set"
  vw_graphs :: "nat \<rightharpoonup> graph_node list"
  vw_execs :: "nat \<rightharpoonup> graph_node list"
  vw_mem :: memory

type_synonym thread_order = "nat \<Rightarrow> (nat \<times> nat) list \<Rightarrow> (nat \<times> nat) list"

definition copy_bytes :: "memory \<Rightarrow> buffer \<Rightarrow> memory \<Rightarrow> buffer \<Rightarrow> nat \<Rightarrow> memory option" where
  "copy_bytes from p to q n = (case (from p, to q) of
       (Some s, Some t) \<Rightarrow> if n \<le> length s \<and> n \<le> length t then Some (to(q \<mapsto> take n s @ drop n t)) else None
     | _ \<Rightarrow> None)"

definition run_memcpy :: "memcpy_parms \<Rightarrow> memory \<times> memory \<Rightarrow> (memory \<times> memory) option" where
  "run_memcpy mp m = (case (mp_kind mp, mp_dst mp, mp_src mp) of
       (MK_HostToDevice, DevP q, HostP p) \<Rightarrow> map_option (Pair (fst m)) (copy_bytes (fst m) p (snd m) q (unat (mp_bytes mp)))
     | (MK_DeviceToHost, HostP q, DevP p) \<Rightarrow>
         map_option (\<lambda>h. (h, snd m)) (copy_bytes (snd m) p (fst m) q (unat (mp_bytes mp)))
     | _ \<Rightarrow> None)"

fun run_threads :: "gpu_ops \<Rightarrow> kernel_parms \<Rightarrow> (nat \<times> nat) list \<Rightarrow> memory \<Rightarrow> memory option" where
  "run_threads gpu kp [] mem = Some mem"
| "run_threads gpu kp (t # ts) mem = do { mem \<leftarrow> gc_generic_kernel gpu kp t mem; run_threads gpu kp ts mem }"

definition kernel_threads :: "kernel_parms \<Rightarrow> (nat \<times> nat) list" where
  "kernel_threads kp = List.product [0..<unat (kp_grid kp)] [0..<unat (kp_block kp)]"

definition run_node :: "gpu_ops \<Rightarrow> thread_order \<Rightarrow> graph_node \<Rightarrow> memory \<times> memory \<Rightarrow> (memory \<times> memory) option" where
  "run_node gpu ts node m = (case gn_params node of
       NP_Memcpy mp \<Rightarrow> run_memcpy mp m
     | NP_Kernel kp \<Rightarrow> map_option (Pair (fst m)) (run_threads gpu kp (ts (gn_id node) (kernel_threads kp)) (snd m)))"

fun run_graph :: "gpu_ops \<Rightarrow> thread_order \<Rightarrow> graph_node list \<Rightarrow> memory \<times> memory \<Rightarrow> (memory \<times> memory) option" where
  "run_graph gpu ts [] m = Some m"
| "run_graph gpu ts (n # ns) m = do { m \<leftarrow> run_node gpu ts n m; run_graph gpu ts ns m }"

definition launch_order :: "graph_node list \<Rightarrow> graph_node list \<Rightarrow> bool" where
  "launch_order ns order \<longleftrightarrow> mset order = mset ns
     \<and> (\<forall>i < length order. set (gn_deps (order ! i)) \<subseteq> gn_id ` set (take i order))"

definition set_params :: "nat \<Rightarrow> memcpy_parms \<Rightarrow> graph_node list \<Rightarrow> graph_node list" where
  "set_params n mp ns = map (\<lambda>x. if gn_id x = n then x\<lparr>gn_params := NP_Memcpy mp\<rparr> else x) ns"

definition keeps :: "cuda_view \<Rightarrow> cuda_view \<Rightarrow> bool" where
  "keeps v v' \<longleftrightarrow> vw_streams v' = vw_streams v \<and> vw_graphs v' = vw_graphs v \<and> vw_execs v' = vw_execs v
     \<and> same_sizes (vw_mem v) (vw_mem v')"

locale cuda_runtime =
  fixes api :: "'s cuda_api" and view :: "'s \<Rightarrow> cuda_view" and gpu :: gpu_ops
  assumes stream_create: "cudaStreamCreate api r = (Some s, r') \<Longrightarrow>
      s \<noteq> 0 \<and> s \<notin> vw_streams (view r) \<and> view r' = (view r)\<lparr>vw_streams := insert s (vw_streams (view r))\<rparr>"
    and malloc: "cudaMalloc api bytes r = (Some p, r') \<Longrightarrow> p \<noteq> 0 \<and> p \<notin> dom (vw_mem (view r))
      \<and> (\<exists>c. length c = unat bytes \<and> view r' = (view r)\<lparr>vw_mem := (vw_mem (view r))(p \<mapsto> c)\<rparr>)"
    and graph_create: "cudaGraphCreate api r = (Some g, r') \<Longrightarrow>
      g \<noteq> 0 \<and> g \<notin> dom (vw_graphs (view r)) \<and> view r' = (view r)\<lparr>vw_graphs := (vw_graphs (view r))(g \<mapsto> [])\<rparr>"
    and add_memcpy: "cudaGraphAddMemcpyNode api g deps mp r = (Some n, r') \<Longrightarrow> vw_graphs (view r) g = Some ns \<Longrightarrow>
      n \<notin> gn_id ` set ns \<and> view r' = (view r)\<lparr>vw_graphs := (vw_graphs (view r))
        (g \<mapsto> ns @ [\<lparr>gn_id = n, gn_deps = deps, gn_params = NP_Memcpy mp\<rparr>])\<rparr>"
    and add_kernel: "cudaGraphAddKernelNode api g deps kp r = (Some n, r') \<Longrightarrow> vw_graphs (view r) g = Some ns \<Longrightarrow>
      n \<notin> gn_id ` set ns \<and> view r' = (view r)\<lparr>vw_graphs := (vw_graphs (view r))
        (g \<mapsto> ns @ [\<lparr>gn_id = n, gn_deps = deps, gn_params = NP_Kernel kp\<rparr>])\<rparr>"
    and instantiate: "cudaGraphInstantiate api g r = (Some e, r') \<Longrightarrow> vw_graphs (view r) g = Some ns \<Longrightarrow>
      e \<noteq> 0 \<and> e \<notin> dom (vw_execs (view r)) \<and> view r' = (view r)\<lparr>vw_execs := (vw_execs (view r))(e \<mapsto> ns)\<rparr>"
    and set_params_1d: "cudaGraphExecMemcpyNodeSetParams1D api e n mp r = (ok, r') \<Longrightarrow> vw_execs (view r) e = Some ns \<Longrightarrow>
      view r' = (if ok then (view r)\<lparr>vw_execs := (vw_execs (view r))(e \<mapsto> set_params n mp ns)\<rparr> else view r)"
    and launch_keeps: "keeps (view (cw_rt w)) (view (cw_rt (snd (cudaGraphLaunch api e s w))))"
    and sync_keeps: "keeps (view (cw_rt w)) (view (cw_rt (snd (cudaStreamSynchronize api s w))))"
    and launch_runs: "cudaGraphLaunch api e s w = (True, w1) \<Longrightarrow> cudaStreamSynchronize api s w1 = (True, w2) \<Longrightarrow>
      vw_execs (view (cw_rt w)) e = Some ns \<Longrightarrow>
      \<exists>order ts. launch_order ns order \<and> (\<forall>k xs. mset (ts k xs) = mset xs)
        \<and> (\<forall>h d. run_graph gpu ts order (cw_host w, vw_mem (view (cw_rt w))) = Some (h, d)
            \<longrightarrow> cw_host w2 = h \<and> vw_mem (view (cw_rt w2)) = d)"
    and exec_destroy: "e \<in> dom (vw_execs (view r)) \<Longrightarrow>
      view (cudaGraphExecDestroy api e r) = (view r)\<lparr>vw_execs := (vw_execs (view r))(e := None)\<rparr>"
    and graph_destroy: "g \<in> dom (vw_graphs (view r)) \<Longrightarrow>
      view (cudaGraphDestroy api g r) = (view r)\<lparr>vw_graphs := (vw_graphs (view r))(g := None)\<rparr>"
    and stream_destroy: "s \<in> vw_streams (view r) \<Longrightarrow>
      view (cudaStreamDestroy api s r) = (view r)\<lparr>vw_streams := vw_streams (view r) - {s}\<rparr>"
    and free_buffer: "p \<in> dom (vw_mem (view r)) \<Longrightarrow>
      view (cudaFree api p r) = (view r)\<lparr>vw_mem := (vw_mem (view r))(p := None)\<rparr>"

end
