(* ===== verification/GC_CudaReplay.thy ===== *)
theory GC_CudaReplay
  imports GC_CudaBackend
begin

text \<open>
  What the CUDA backend's graphs compute and what they hold: a launch applies the kernels of the graph
  lane by lane whatever order the threads run in, replays of a captured graph return that result
  through any history of the graph, unloading it gives back every resource, and on one kernel it agrees
  with the CPU backend.
\<close>

section \<open>Threads\<close>

text \<open>The output buffer when the threads of the lanes in \<open>S\<close> have run.\<close>

definition lanes_on :: "nat set \<Rightarrow> (f32 \<Rightarrow> f32) \<Rightarrow> bytes \<Rightarrow> bytes \<Rightarrow> nat \<Rightarrow> bytes" where
  "lanes_on S f s t n = concat (map (\<lambda>i. if i \<in> S then le_bytes 4 (f (le_loop 4 s (4 * i))) else take 4 (drop (4 * i) t)) [0..<n])
     @ drop (4 * n) t"

lemma length_chunks: "(\<And>i. i < n \<Longrightarrow> length (g i) = 4) \<Longrightarrow> length (concat (map g [0..<n])) = 4 * n"
  by (induction n) simp_all

lemma concat_chunks:
  assumes "i < n"
  shows "concat (map g [0..<n]) = concat (map g [0..<i]) @ g i @ concat (map g [Suc i..<n])"
proof -
  have "[0..<n] = [0..<i] @ i # [Suc i..<n]" using assms upt_add_eq_append [of 0 i "n - i"] by (simp add: upt_conv_Cons)
  then show ?thesis by simp
qed

definition lane_chunk :: "nat set \<Rightarrow> (f32 \<Rightarrow> f32) \<Rightarrow> bytes \<Rightarrow> bytes \<Rightarrow> nat \<Rightarrow> bytes" where
  "lane_chunk S f s t i = (if i \<in> S then le_bytes 4 (f (le_loop 4 s (4 * i))) else take 4 (drop (4 * i) t))"

lemma length_lane_chunk: "4 * n \<le> length t \<Longrightarrow> i < n \<Longrightarrow> length (lane_chunk S f s t i) = 4"
  by (simp add: lane_chunk_def)

lemma lanes_on_chunks: "lanes_on S f s t n = concat (map (lane_chunk S f s t) [0..<n]) @ drop (4 * n) t"
  by (simp add: lanes_on_def lane_chunk_def [abs_def])

lemma length_lanes_on [simp]: "4 * n \<le> length t \<Longrightarrow> length (lanes_on S f s t n) = length t"
  by (simp add: lanes_on_chunks length_chunks length_lane_chunk)

lemma lanes_on_write:
  assumes "4 * n \<le> length t" and "i < n"
  shows "take (4 * i) (lanes_on S f s t n) @ le_bytes 4 (f (le_loop 4 s (4 * i))) @ drop (4 * i + 4) (lanes_on S f s t n)
    = lanes_on (insert i S) f s t n"
proof -
  let ?g = "\<lambda>S. lane_chunk S f s t"
  have "concat (map (?g (insert i S)) [0..<i]) = concat (map (?g S) [0..<i])"
    "concat (map (?g (insert i S)) [Suc i..<n]) = concat (map (?g S) [Suc i..<n])"
    by (auto simp: lane_chunk_def intro!: arg_cong [of _ _ concat])
  moreover have "?g (insert i S) i = le_bytes 4 (f (le_loop 4 s (4 * i)))" by (simp add: lane_chunk_def)
  moreover have "length (concat (map (?g S) [0..<i])) = 4 * i" "length (?g S i) = 4"
    using assms by (simp_all add: length_chunks length_lane_chunk)
  ultimately show ?thesis by (simp add: lanes_on_chunks concat_chunks [OF assms(2)])
qed

lemma lanes_on_none: "4 * n \<le> length t \<Longrightarrow> lanes_on {} f s t n = t"
proof -
  assume n: "4 * n \<le> length t"
  have "concat (map (\<lambda>i. take 4 (drop (4 * i) t)) [0..<n]) = take (4 * n) t"
    using n by (induction n) (simp_all add: take_add add.commute [of 4] del: drop_drop)
  then show ?thesis by (simp add: lanes_on_def)
qed

lemma lanes_on_all: "{0..<n} \<subseteq> S \<Longrightarrow> lanes_on S f s t n = lanes f s n @ drop (4 * n) t"
  unfolding lanes_on_def lanes_def by (auto intro!: arg_cong [of _ _ concat])

text \<open>The lane of a thread, and one thread of a kernel from one buffer to another.\<close>

definition thread_lane :: "kernel_parms \<Rightarrow> nat \<times> nat \<Rightarrow> nat" where
  "thread_lane kp bt = fst bt * unat (kp_block kp) + snd bt"

definition params_lane :: "gpu_ops \<Rightarrow> kernel_parms \<Rightarrow> f32 \<Rightarrow> f32" where
  "params_lane gpu kp = gpu_lane gpu (kp_op kp) (kp_a kp) (kp_b kp)"

lemma sint_of_nat_i32: "k < 2 ^ 31 \<Longrightarrow> sint (word_of_nat k :: i32) = int k"
  by (simp add: signed_of_nat signed_take_bit_int_eq_self)

text \<open>No lane index overflows, and the grid reaches every lane.\<close>

definition grid_ok :: "kernel_parms \<Rightarrow> nat \<Rightarrow> bool" where
  "grid_ok kp n \<longleftrightarrow> kp_n kp = word_of_nat n \<and> n < 2 ^ 31 \<and> 0 < unat (kp_block kp)
     \<and> n \<le> unat (kp_grid kp) * unat (kp_block kp) \<and> unat (kp_grid kp) * unat (kp_block kp) \<le> 2 ^ 31"

lemma thread_lane_bound:
  assumes "bt \<in> set (kernel_threads kp)"
  shows "thread_lane kp bt < unat (kp_grid kp) * unat (kp_block kp)"
proof -
  obtain b t where bt: "bt = (b, t)" "b < unat (kp_grid kp)" "t < unat (kp_block kp)"
    using assms by (auto simp: kernel_threads_def)
  then have "b * unat (kp_block kp) + t < Suc b * unat (kp_block kp)" by simp
  also have "\<dots> \<le> unat (kp_grid kp) * unat (kp_block kp)" using bt(2) by (intro mult_le_mono1) simp
  finally show ?thesis by (simp add: bt thread_lane_def)
qed

lemma thread_lane_onto:
  assumes "i < unat (kp_grid kp) * unat (kp_block kp)"
  shows "\<exists>bt \<in> set (kernel_threads kp). thread_lane kp bt = i"
proof (rule bexI [where x = "(i div unat (kp_block kp), i mod unat (kp_block kp))"])
  have "0 < unat (kp_block kp)" using assms by (cases "unat (kp_block kp)") simp_all
  then show "(i div unat (kp_block kp), i mod unat (kp_block kp)) \<in> set (kernel_threads kp)"
    using assms by (simp add: kernel_threads_def less_mult_imp_div_less)
qed (simp add: thread_lane_def)

lemma thread_runs:
  assumes "grid_ok kp n" and "bt \<in> set (kernel_threads kp)" and "kp_in kp \<noteq> kp_out kp"
    and "mem (kp_in kp) = Some s" and "4 * n \<le> length s" and "4 * n \<le> length t"
    and "mem (kp_out kp) = Some (lanes_on S (params_lane gpu kp) s t n)"
  shows "gc_generic_kernel gpu kp bt mem = Some (mem(kp_out kp \<mapsto>
     lanes_on (if thread_lane kp bt < n then insert (thread_lane kp bt) S else S) (params_lane gpu kp) s t n))"
proof -
  obtain b th where bt: "bt = (b, th)" by fastforce
  let ?i = "thread_lane kp bt"
  have "?i < 2 ^ 31" using thread_lane_bound [OF assms(2)] assms(1) by (simp add: grid_ok_def)
  then have i: "sint (word_of_nat b * kp_block kp + word_of_nat th :: i32) = int ?i"
    using sint_of_nat_i32 [of ?i] by (simp add: thread_lane_def bt)
  have n: "sint (kp_n kp) = int n" using assms(1) by (simp add: grid_ok_def sint_of_nat_i32)
  show ?thesis
  proof (cases "?i < n")
    case True
    then have "4 * ?i + 4 \<le> length s" "4 * ?i + 4 \<le> length t" using assms(5,6) by auto
    then have "load_lane mem (kp_in kp) ?i = Some (le_loop 4 s (4 * ?i))"
      and "store_lane mem (kp_out kp) ?i (params_lane gpu kp (le_loop 4 s (4 * ?i)))
        = Some (mem(kp_out kp \<mapsto> lanes_on (insert ?i S) (params_lane gpu kp) s t n))"
      using assms(4,6,7) lanes_on_write [OF assms(6) True, of S "params_lane gpu kp" s]
      by (simp_all add: load_lane_def store_lane_def)
    then show ?thesis using True by (simp add: gc_generic_kernel_def bt i [unfolded bt] n params_lane_def)
  next
    case False
    moreover have "mem(kp_out kp \<mapsto> lanes_on S (params_lane gpu kp) s t n) = mem" by (simp add: fun_upd_idem assms(7))
    ultimately show ?thesis by (simp add: gc_generic_kernel_def bt i [unfolded bt] n del: fun_upd_apply)
  qed
qed

lemma threads_run:
  assumes "grid_ok kp n" and "set ts \<subseteq> set (kernel_threads kp)" and "kp_in kp \<noteq> kp_out kp"
    and "mem (kp_in kp) = Some s" and "4 * n \<le> length s" and "4 * n \<le> length t"
    and "mem (kp_out kp) = Some (lanes_on S (params_lane gpu kp) s t n)"
  shows "run_threads gpu kp ts mem = Some (mem(kp_out kp \<mapsto>
     lanes_on (S \<union> (thread_lane kp ` set ts \<inter> {0..<n})) (params_lane gpu kp) s t n))"
  using assms(2,4,7)
proof (induction ts arbitrary: mem S)
  case Nil
  then show ?case by (simp add: fun_upd_idem)
next
  case (Cons bt ts)
  let ?S = "if thread_lane kp bt < n then insert (thread_lane kp bt) S else S"
  let ?mem = "mem(kp_out kp \<mapsto> lanes_on ?S (params_lane gpu kp) s t n)"
  have "gc_generic_kernel gpu kp bt mem = Some ?mem"
    using Cons.prems by (intro thread_runs [OF assms(1) _ assms(3) _ assms(5,6)]) simp_all
  moreover have "run_threads gpu kp ts ?mem = Some (?mem(kp_out kp \<mapsto>
     lanes_on (?S \<union> (thread_lane kp ` set ts \<inter> {0..<n})) (params_lane gpu kp) s t n))"
    using Cons.prems assms(3) by (intro Cons.IH) simp_all
  moreover have "?S \<union> (thread_lane kp ` set ts \<inter> {0..<n}) = S \<union> (thread_lane kp ` set (bt # ts) \<inter> {0..<n})" by auto
  ultimately show ?case by (simp only: run_threads.simps Option.bind_lunit fun_upd_upd)
qed

lemma kernel_runs:
  assumes "grid_ok kp n" and "mset ts = mset (kernel_threads kp)" and "kp_in kp \<noteq> kp_out kp"
    and "mem (kp_in kp) = Some s" and "mem (kp_out kp) = Some t" and "4 * n \<le> length s" and "4 * n \<le> length t"
  shows "run_threads gpu kp ts mem = Some (mem(kp_out kp \<mapsto> lanes (params_lane gpu kp) s n @ drop (4 * n) t))"
proof -
  note ts = mset_eq_setD [OF assms(2)]
  have "{0..<n} \<subseteq> thread_lane kp ` set ts"
  proof
    fix i assume "i \<in> {0..<n}"
    then have "i < unat (kp_grid kp) * unat (kp_block kp)" using assms(1) by (simp add: grid_ok_def)
    from thread_lane_onto [OF this] show "i \<in> thread_lane kp ` set ts" unfolding ts by auto
  qed
  then have "{0..<n} \<subseteq> {} \<union> (thread_lane kp ` set ts \<inter> {0..<n})" by auto
  from lanes_on_all [OF this] threads_run [where ts = ts and S = "{}" and mem = mem and gpu = gpu, OF assms(1) _ assms(3,4,6,7)] ts assms(5)
  show ?thesis by (simp add: lanes_on_none [OF assms(7)])
qed

section \<open>A launch\<close>

text \<open>The nodes of a captured graph, with the endpoints its copies currently have on the host.\<close>

definition kernel_node :: "CudaGraphState \<Rightarrow> nat \<Rightarrow> graph_node" where
  "kernel_node st i = \<lparr>gn_id = cs_kernels st ! i, gn_deps = [if i = 0 then cs_h2d st else cs_kernels st ! (i - 1)],
     gn_params = NP_Kernel (kernel_args st i)\<rparr>"

definition h2d_node :: "CudaGraphState \<Rightarrow> cptr \<Rightarrow> graph_node" where
  "h2d_node st src = \<lparr>gn_id = cs_h2d st, gn_deps = [],
     gn_params = NP_Memcpy (make_1d (DevP (cs_buffers st ! 0)) src (cs_bytes st) MK_HostToDevice)\<rparr>"

definition d2h_node :: "CudaGraphState \<Rightarrow> cptr \<Rightarrow> graph_node" where
  "d2h_node st dst = \<lparr>gn_id = cs_d2h st, gn_deps = [cs_kernels st ! (length (cs_kernels st) - 1)],
     gn_params = NP_Memcpy (make_1d dst (DevP (cs_buffers st ! length (cs_kernels st))) (cs_bytes st) MK_DeviceToHost)\<rparr>"

definition chain_nodes :: "CudaGraphState \<Rightarrow> cptr \<Rightarrow> cptr \<Rightarrow> graph_node list" where
  "chain_nodes st src dst =
     h2d_node st src # map (kernel_node st) [0..<length (cs_kernels st)] @ [d2h_node st dst]"

definition node_ids :: "CudaGraphState \<Rightarrow> nat list" where
  "node_ids st = cs_h2d st # cs_kernels st @ [cs_d2h st]"

lemma chain_ids: "map gn_id (chain_nodes st src dst) = node_ids st"
  by (simp add: chain_nodes_def node_ids_def h2d_node_def d2h_node_def kernel_node_def o_def map_nth)

lemma length_chain [simp]: "length (chain_nodes st src dst) = length (cs_kernels st) + 2"
  by (simp add: chain_nodes_def)

lemma chain_deps:
  assumes "i < length (cs_kernels st) + 2" and "cs_kernels st \<noteq> []"
  shows "gn_deps (chain_nodes st src dst ! i) = (if i = 0 then [] else [node_ids st ! (i - 1)])"
  using assms by (auto simp: chain_nodes_def node_ids_def h2d_node_def d2h_node_def kernel_node_def nth_Cons nth_append
      split: nat.splits intro!: arg_cong [of _ _ "(!) (cs_kernels st)"])

text \<open>A chain has one launch_order.\<close>

lemma chain_schedule:
  assumes "distinct (node_ids st)" and "cs_kernels st \<noteq> []" and sched: "launch_order (chain_nodes st src dst) order"
  shows "order = chain_nodes st src dst"
proof -
  let ?ns = "chain_nodes st src dst"
  have perm: "mset order = mset ?ns" and deps: "\<And>i. i < length order \<Longrightarrow> set (gn_deps (order ! i)) \<subseteq> gn_id ` set (take i order)"
    using sched by (auto simp: launch_order_def)
  have len: "length order = length ?ns" using perm by (metis size_mset)
  have dist: "distinct (map gn_id ?ns)" using assms(1) by (simp add: chain_ids)
  have "distinct ?ns" using dist by (simp add: distinct_map)
  then have do: "distinct order" using perm mset_eq_imp_distinct_iff by blast
  have "take k order = take k ?ns" if "k \<le> length ?ns" for k
    using that
  proof (induction k)
    case (Suc k)
    then have IH: "take k order = take k ?ns" and k: "k < length ?ns" "k < length order" using len by auto
    have "order ! k \<in> set ?ns" using perm k(2) mset_eq_setD nth_mem by blast
    then obtain j where j: "j < length ?ns" "order ! k = ?ns ! j" by (metis in_set_conv_nth)
    have "\<not> j < k"
    proof
      assume "j < k"
      then have "order ! j = ?ns ! j" using IH k by (metis nth_take)
      with j(2) \<open>j < k\<close> k(2) nth_eq_iff_index_eq [OF do, of j k] show False by simp
    qed
    moreover have "\<not> k < j"
    proof
      assume "k < j"
      then have "node_ids st ! (j - 1) \<in> gn_id ` set (take k ?ns)"
        using deps [OF k(2)] j chain_deps [of j st src dst] assms(2) IH by simp
      then obtain i where i: "i < k" "node_ids st ! (j - 1) = gn_id (?ns ! i)"
        using k(1) by (auto simp: in_set_conv_nth)
      then have "node_ids st ! (j - 1) = node_ids st ! i"
        using k(1) chain_ids [of st src dst] by (metis less_trans nth_map)
      moreover have "j - 1 < length (node_ids st)" "i < length (node_ids st)"
        using j(1) i(1) k(1) by (simp_all add: node_ids_def)
      ultimately show False using nth_eq_iff_index_eq [OF assms(1), of "j - 1" i] i(1) \<open>k < j\<close> by simp
    qed
    ultimately have "order ! k = ?ns ! k" using j(2) by simp
    with IH k show ?case by (simp add: take_Suc_conv_app_nth)
  qed simp
  from this [of "length ?ns"] len show ?thesis by simp
qed

lemma run_graph_append:
  "run_graph gpu ts (ns @ ms) m = Option.bind (run_graph gpu ts ns m) (run_graph gpu ts ms)"
  by (induction ns arbitrary: m) (auto split: Option.bind_splits)

lemma lanes_id: "4 * n \<le> length s \<Longrightarrow> lanes (\<lambda>x. x) s n = take (4 * n) s"
proof -
  assume n: "4 * n \<le> length s"
  have "le_bytes 4 (le_loop 4 s (4 * i) :: f32) = take 4 (drop (4 * i) s)" if "i < n" for i
    using that n le_loop_eq [of 4 "4 * i" s "le_loop 4 s (4 * i) :: f32"] by simp
  then have "lanes (\<lambda>x. x) s n = concat (map (\<lambda>i. take 4 (drop (4 * i) s)) [0..<n])"
    unfolding lanes_def by (auto intro!: arg_cong [of _ _ concat])
  also have "\<dots> = take (4 * n) s" using n by (induction n) (simp_all add: take_add add.commute [of 4] del: drop_drop)
  finally show ?thesis .
qed

lemma lane_of_lanes:
  assumes "i < n"
  shows "le_loop 4 (lanes f s n @ t) (4 * i) = f (le_loop 4 s (4 * i))"
proof -
  let ?g = "\<lambda>i. le_bytes 4 (f (le_loop 4 s (4 * i)))"
  have "lanes f s n @ t = concat (map ?g [0..<i]) @ ?g i @ concat (map ?g [Suc i..<n]) @ t"
    using concat_chunks [OF assms, of ?g] by (simp add: lanes_def)
  moreover have "length (concat (map ?g [0..<i])) = 4 * i" by (simp add: length_chunks)
  ultimately have "take 4 (drop (4 * i) (lanes f s n @ t)) = ?g i" by simp
  moreover have "4 * i + 4 \<le> length (lanes f s n @ t)" using assms by simp
  ultimately show ?thesis using le_loop_eq [of 4 "4 * i" "lanes f s n @ t" "f (le_loop 4 s (4 * i)) :: f32"] by simp
qed

lemma lanes_lanes: "lanes g (lanes f s n @ t) n = lanes (\<lambda>x. g (f x)) s n"
  unfolding lanes_def [of g] lanes_def [of "\<lambda>x. g (f x)"]
  by (auto simp: lane_of_lanes intro!: arg_cong [of _ _ concat])

text \<open>The graph's buffers on the device, and its first \<open>k\<close> kernels on one lane.\<close>

definition elements :: "CudaGraphState \<Rightarrow> nat" where
  "elements st = unat (cs_bytes st) div 4"

definition cuda_layout :: "CudaGraphState \<Rightarrow> bool" where
  "cuda_layout st \<longleftrightarrow> cs_kernels st \<noteq> [] \<and> length (cs_buffers st) = Suc (length (cs_kernels st)) \<and> distinct (cs_buffers st)
     \<and> distinct (node_ids st) \<and> cs_n st = ucast (cs_bytes st div 4)"

definition buffers_ok :: "CudaGraphState \<Rightarrow> memory \<Rightarrow> bool" where
  "buffers_ok st d \<longleftrightarrow> (\<forall>p \<in> set (cs_buffers st). \<exists>c. d p = Some c \<and> length c = unat (cs_bytes st))"

definition chain_lane :: "gpu_ops \<Rightarrow> CudaGraphState \<Rightarrow> nat \<Rightarrow> f32 \<Rightarrow> f32" where
  "chain_lane gpu st k = fold (\<lambda>i. gpu_lane gpu (cs_ops st ! i) (cs_as st ! i) (cs_bs st ! i)) [0..<k]"

lemma buffers_okD: "buffers_ok st d \<Longrightarrow> i < length (cs_buffers st) \<Longrightarrow> \<exists>c. d (cs_buffers st ! i) = Some c \<and> length c = unat (cs_bytes st)"
  by (simp add: buffers_ok_def)

lemma grid_covers:
  assumes "cuda_layout st" and "elements st < 2 ^ 31"
  shows "grid_ok (kernel_args st i) (elements st)"
proof -
  let ?n = "cs_bytes st div 4" and ?e = "elements st"
  have n: "unat ?n = ?e" by (simp add: elements_def unat_div_4)
  have "?e + 255 < 2 ^ 64" using assms(2) by simp
  then have "unat (?n + 255) = ?e + 255" using n by (simp add: unat_word_ariths)
  then have "unat ((?n + 255) div 256) = (?e + 255) div 256" by (simp add: unat_div)
  moreover have le: "(?e + 255) div 256 * 256 \<le> 2 ^ 31"
  proof -
    have "(?e + 255) div 256 \<le> 2 ^ 23" using assms(2) by simp
    then show ?thesis by simp
  qed
  ultimately have g: "unat (kp_grid (kernel_args st i)) = (?e + 255) div 256"
    by (simp add: kernel_args_def unsigned_ucast_eq take_bit_nat_eq_self)
  have b: "unat (kp_block (kernel_args st i)) = 256" by (simp add: kernel_args_def)
  have "cs_n st = word_of_nat ?e" using assms(1) by (simp add: cuda_layout_def flip: n)
  then show ?thesis using le assms(2) unfolding grid_ok_def g b by (simp add: kernel_args_def)
qed

lemma kernels_run:
  assumes "cuda_layout st" and "elements st < 2 ^ 31" and "\<And>k xs. mset (ts k xs) = mset xs"
    and "buffers_ok st d" and "d (cs_buffers st ! 0) = Some (take (unat (cs_bytes st)) s)"
    and "unat (cs_bytes st) \<le> length s" and "k \<le> length (cs_kernels st)"
  shows "\<exists>d' tail. run_graph gpu ts (map (kernel_node st) [0..<k]) (h, d) = Some (h, d') \<and> buffers_ok st d'
     \<and> d' (cs_buffers st ! k) = Some (lanes (chain_lane gpu st k) s (elements st) @ tail)"
  using assms(7)
proof (induction k)
  case 0
  have "4 * elements st \<le> unat (cs_bytes st)" by (simp add: elements_def)
  then have "take (unat (cs_bytes st)) s = lanes (\<lambda>x. x) s (elements st) @ drop (4 * elements st) (take (unat (cs_bytes st)) s)"
    using assms(6) by (simp add: lanes_id) (metis append_take_drop_id min.absorb1 take_take)
  then show ?case using assms(4,5) by (auto simp: chain_lane_def id_def)
next
  case (Suc k)
  then obtain d1 tail where run: "run_graph gpu ts (map (kernel_node st) [0..<k]) (h, d) = Some (h, d1)"
    and ok: "buffers_ok st d1"
    and out: "d1 (cs_buffers st ! k) = Some (lanes (chain_lane gpu st k) s (elements st) @ tail)" (is "_ = Some ?s") by auto
  let ?kp = "kernel_args st k"
  have k: "k < length (cs_buffers st)" "Suc k < length (cs_buffers st)" using Suc.prems assms(1) by (auto simp: cuda_layout_def)
  obtain t where t: "d1 (kp_out ?kp) = Some t" "length t = unat (cs_bytes st)"
    using buffers_okD [OF ok k(2)] by (auto simp: kernel_args_def)
  have s: "d1 (kp_in ?kp) = Some ?s" using out by (simp add: kernel_args_def)
  have ne: "kp_in ?kp \<noteq> kp_out ?kp" using assms(1) k by (simp add: cuda_layout_def kernel_args_def nth_eq_iff_index_eq)
  have len: "4 * elements st \<le> length ?s" "4 * elements st \<le> length t" by (simp_all add: t(2) elements_def)
  have "run_threads gpu ?kp (ts (cs_kernels st ! k) (kernel_threads ?kp)) d1
      = Some (d1(kp_out ?kp \<mapsto> lanes (params_lane gpu ?kp) ?s (elements st) @ drop (4 * elements st) t))" (is "_ = Some ?d2")
    by (rule kernel_runs [OF grid_covers [OF assms(1,2)] assms(3) ne s t(1) len])
  then have "run_graph gpu ts (map (kernel_node st) [0..<Suc k]) (h, d) = Some (h, ?d2)"
    by (simp add: run_graph_append run run_node_def kernel_node_def del: fun_upd_apply)
  moreover have "buffers_ok st ?d2" using ok t len(2) by (auto simp: buffers_ok_def)
  moreover have "?d2 (cs_buffers st ! Suc k) = Some (lanes (chain_lane gpu st (Suc k)) s (elements st) @ drop (4 * elements st) t)"
    by (simp add: kernel_args_def lanes_lanes params_lane_def chain_lane_def comp_def)
  ultimately show ?case by blast
qed

lemma chain_runs:
  assumes "cuda_layout st" and "elements st < 2 ^ 31" and "\<And>k xs. mset (ts k xs) = mset xs" and "buffers_ok st d"
    and "h p = Some s" and "unat (cs_bytes st) \<le> length s" and "h q = Some t" and "unat (cs_bytes st) \<le> length t"
  shows "\<exists>d' tail. run_graph gpu ts (chain_nodes st (HostP p) (HostP q)) (h, d)
       = Some (h(q \<mapsto> lanes (chain_lane gpu st (length (cs_kernels st))) s (elements st) @ tail @ drop (unat (cs_bytes st)) t), d')
     \<and> length tail = unat (cs_bytes st) mod 4"
proof -
  let ?b = "unat (cs_bytes st)" and ?nk = "length (cs_kernels st)"
  let ?d1 = "d(cs_buffers st ! 0 \<mapsto> take ?b s)"
  obtain c where c: "d (cs_buffers st ! 0) = Some c" "length c = ?b"
    using assms(1) buffers_okD [OF assms(4), of 0] by (auto simp: cuda_layout_def)
  then have h2d: "run_node gpu ts (h2d_node st (HostP p)) (h, d) = Some (h, ?d1)"
    using assms(5,6) by (simp add: run_node_def h2d_node_def make_1d_def run_memcpy_def copy_bytes_def)
  have "buffers_ok st ?d1" using assms(4,6) by (auto simp: buffers_ok_def)
  then obtain d2 tail where run: "run_graph gpu ts (map (kernel_node st) [0..<?nk]) (h, ?d1) = Some (h, d2)"
    and ok: "buffers_ok st d2" and out: "d2 (cs_buffers st ! ?nk) = Some (lanes (chain_lane gpu st ?nk) s (elements st) @ tail)"
    using kernels_run [where ts = ts and d = ?d1 and gpu = gpu and h = h, OF assms(1,2,3) _ _ assms(6) le_refl] by auto
  have "cs_buffers st ! ?nk \<in> set (cs_buffers st)" using assms(1) by (simp add: cuda_layout_def)
  then have len: "4 * elements st + length tail = ?b" using ok out by (fastforce simp: buffers_ok_def)
  then have "run_node gpu ts (d2h_node st (HostP q)) (h, d2)
      = Some (h(q \<mapsto> lanes (chain_lane gpu st ?nk) s (elements st) @ tail @ drop ?b t), d2)"
    using out assms(7,8) by (simp add: run_node_def d2h_node_def make_1d_def run_memcpy_def copy_bytes_def)
  then have "run_graph gpu ts (chain_nodes st (HostP p) (HostP q)) (h, d)
      = Some (h(q \<mapsto> lanes (chain_lane gpu st ?nk) s (elements st) @ tail @ drop ?b t), d2)"
    by (simp add: chain_nodes_def h2d run_graph_append run del: fun_upd_apply)
  moreover have "length tail = ?b mod 4" using len by (simp add: elements_def) presburger
  ultimately show ?thesis by blast
qed

section \<open>What a captured graph holds\<close>

definition cuda_ready :: "CudaGraphState \<Rightarrow> cuda_view \<Rightarrow> bool" where
  "cuda_ready st v \<longleftrightarrow> cuda_layout st \<and> buffers_ok st (vw_mem v)
     \<and> (\<exists>src dst. vw_execs v (cs_exec st) = Some (chain_nodes st src dst))"

type_synonym resources = "nat set \<times> nat set \<times> nat set \<times> nat set"

definition resources :: "cuda_view \<Rightarrow> resources" where
  "resources v = (vw_streams v, dom (vw_graphs v), dom (vw_execs v), dom (vw_mem v))"

text \<open>The graph's stream, graph, instantiated graph and buffers are live in addition to \<open>R\<close>.\<close>

fun cuda_owns :: "CudaGraphState \<Rightarrow> resources \<Rightarrow> cuda_view \<Rightarrow> bool" where
  "cuda_owns st (S, G, E, M) v \<longleftrightarrow>
     resources v = (insert (cs_stream st) S, insert (cs_graph st) G, insert (cs_exec st) E, set (cs_buffers st) \<union> M)
     \<and> cs_stream st \<notin> S \<and> cs_graph st \<notin> G \<and> cs_exec st \<notin> E \<and> set (cs_buffers st) \<inter> M = {}
     \<and> cs_stream st \<noteq> 0 \<and> cs_graph st \<noteq> 0 \<and> cs_exec st \<noteq> 0 \<and> 0 \<notin> set (cs_buffers st)"

lemma cu_bind_InrD: "cu_bind m f w = (Inr y, w') \<Longrightarrow> \<exists>x w1. m w = (Inr x, w1) \<and> f x w1 = (Inr y, w')"
  by (auto simp: cu_bind_def split: prod.splits sum.splits)

lemma cu_call_InrD: "cu_call f code msg w = (Inr h, w') \<Longrightarrow> \<exists>r. f (cw_rt w) = (Some h, r) \<and> w' = w\<lparr>cw_rt := r\<rparr>"
  by (auto simp: cu_call_def split: prod.splits option.splits)

lemma kernel_node_final: "kernel_node (st\<lparr>cs_d2h := d, cs_exec := e\<rparr>) = kernel_node st"
  by (rule ext) (simp add: kernel_node_def kernel_args_def)

lemma set_params_chain:
  assumes "distinct (node_ids st)"
  shows "set_params (cs_h2d st) (make_1d (DevP (cs_buffers st ! 0)) p (cs_bytes st) MK_HostToDevice) (chain_nodes st src dst)
      = chain_nodes st p dst"
    and "set_params (cs_d2h st) (make_1d q (DevP (cs_buffers st ! length (cs_kernels st))) (cs_bytes st) MK_DeviceToHost) (chain_nodes st src dst)
      = chain_nodes st src q"
proof -
  have "cs_kernels st ! i \<noteq> cs_h2d st" "cs_kernels st ! i \<noteq> cs_d2h st" if "i < length (cs_kernels st)" for i
    using assms nth_mem [OF that] by (auto simp: node_ids_def)
  moreover have "cs_h2d st \<noteq> cs_d2h st" using assms by (simp add: node_ids_def)
  ultimately show "set_params (cs_h2d st) (make_1d (DevP (cs_buffers st ! 0)) p (cs_bytes st) MK_HostToDevice) (chain_nodes st src dst)
      = chain_nodes st p dst"
    and "set_params (cs_d2h st) (make_1d q (DevP (cs_buffers st ! length (cs_kernels st))) (cs_bytes st) MK_DeviceToHost) (chain_nodes st src dst)
      = chain_nodes st src q"
    by (auto simp: set_params_def chain_nodes_def h2d_node_def d2h_node_def kernel_node_def)
qed

lemma keeps_ready: "keeps v v' \<Longrightarrow> cuda_ready st v \<Longrightarrow> cuda_ready st v'"
proof -
  assume k: "keeps v v'" and r: "cuda_ready st v"
  have "\<exists>c. vw_mem v' p = Some c \<and> length c = unat (cs_bytes st)"
    if "vw_mem v p = Some c" "length c = unat (cs_bytes st)" for p c
  proof -
    have "map_option length (vw_mem v' p) = Some (length c)" using k that(1) by (simp add: keeps_def same_sizes_def)
    then show ?thesis using that(2) by (auto simp: map_option_eq_Some)
  qed
  with k r show ?thesis unfolding cuda_ready_def buffers_ok_def keeps_def by metis
qed

lemma keeps_owns: "keeps v v' \<Longrightarrow> cuda_owns st R v \<Longrightarrow> cuda_owns st R v'"
proof -
  assume k: "keeps v v'" and o: "cuda_owns st R v"
  have "dom (vw_mem v') = dom (vw_mem v)"
    using k unfolding keeps_def same_sizes_def dom_def by (metis (no_types) map_option_is_None)
  with k o show ?thesis by (cases R) (simp add: resources_def keeps_def)
qed

lemma keeps_refl: "keeps v v"
  by (simp add: keeps_def same_sizes_def)

lemma keeps_trans: "keeps u v \<Longrightarrow> keeps v w \<Longrightarrow> keeps u w"
  by (simp add: keeps_def same_sizes_def)

definition cuda_holds :: "CudaGraphState \<Rightarrow> resources \<Rightarrow> cuda_view \<Rightarrow> bool" where
  "cuda_holds st R v \<longleftrightarrow> cuda_ready st v \<and> cuda_owns st R v"

lemma keeps_holds: "keeps v v' \<Longrightarrow> cuda_holds st R v \<Longrightarrow> cuda_holds st R v'"
  by (simp add: cuda_holds_def keeps_ready keeps_owns)

lemma holds_rebound:
  "cuda_holds st R v \<Longrightarrow> cuda_holds st R (v\<lparr>vw_execs := (vw_execs v)(cs_exec st \<mapsto> chain_nodes st src dst)\<rparr>)"
  by (cases R) (auto simp: cuda_holds_def cuda_ready_def resources_def)

text \<open>What happens to a captured graph: the backend's operations on it, and writes of the caller to host memory.\<close>

datatype cuda_use = CU_validate | CU_replay ReplayBuffers ReplayDescriptor u64 | CU_rebind RebindSpec | CU_caller memory

fun cuda_use_step :: "'s cuda_api \<Rightarrow> GraphDescriptor \<Rightarrow> CudaGraphState \<Rightarrow> cuda_use \<Rightarrow> 's cuda_world \<Rightarrow> 's cuda_world option" where
  "cuda_use_step api desc st CU_validate w = Some (snd (cuda_validate api desc (Some st) w))"
| "cuda_use_step api desc st (CU_replay bufs rd latency) w = map_option snd (cuda_replay api (Some st) bufs rd latency w)"
| "cuda_use_step api desc st (CU_rebind spec) w = Some (snd (cuda_rebind api desc (Some st) spec w))"
| "cuda_use_step api desc st (CU_caller mem) w = Some (w\<lparr>cw_host := mem\<rparr>)"

fun cuda_uses :: "'s cuda_api \<Rightarrow> GraphDescriptor \<Rightarrow> CudaGraphState \<Rightarrow> cuda_use list \<Rightarrow> 's cuda_world \<Rightarrow> 's cuda_world option" where
  "cuda_uses api desc st [] w = Some w"
| "cuda_uses api desc st (u # us) w = do { w \<leftarrow> cuda_use_step api desc st u w; cuda_uses api desc st us w }"

text \<open>The kernels of a descriptor in the order of its nodes, on one lane.\<close>

definition descriptor_lane :: "gpu_ops \<Rightarrow> float_ops \<Rightarrow> GraphDescriptor \<Rightarrow> f32 \<Rightarrow> f32" where
  "descriptor_lane gpu fl desc = fold (\<lambda>k. gpu_lane gpu (op_code (k_name (n_kernel k)))
     (fl_of_f64 fl (sc_float (n_scalar k))) (fl_of_i64 fl (sc_int (n_scalar k)))) (cuda_kernels desc)"

lemma fold_nth: "fold (\<lambda>i. f (xs ! i)) [0..<length xs] = fold f xs"
  using fold_map [of f "\<lambda>i. xs ! i" "[0..<length xs]"] by (simp add: map_nth comp_def)

lemma descriptor_lane_state:
  assumes "cs_ops st = cs_ops (cuda_state fl desc a b)" and "cs_as st = cs_as (cuda_state fl desc a b)"
    and "cs_bs st = cs_bs (cuda_state fl desc a b)" and "length (cs_kernels st) = length (cuda_kernels desc)"
  shows "chain_lane gpu st (length (cs_kernels st)) = descriptor_lane gpu fl desc"
proof -
  let ?f = "\<lambda>k. gpu_lane gpu (op_code (k_name (n_kernel k)))
     (fl_of_f64 fl (sc_float (n_scalar k))) (fl_of_i64 fl (sc_int (n_scalar k)))"
  have "chain_lane gpu st (length (cs_kernels st)) = fold (\<lambda>i. ?f (cuda_kernels desc ! i)) [0..<length (cuda_kernels desc)]"
    unfolding chain_lane_def assms(4) by (rule ext, rule fold_cong) (simp_all add: assms(1-3) cuda_state_def)
  then show ?thesis by (simp add: fold_nth [of ?f] descriptor_lane_def)
qed

context cuda_runtime
begin

lemma malloc_buffers_view:
  "malloc_buffers api k st w = (Inr st', w') \<Longrightarrow> \<exists>ps m. st' = st\<lparr>cs_buffers := cs_buffers st @ ps\<rparr> \<and> length ps = k
     \<and> distinct ps \<and> 0 \<notin> set ps \<and> set ps \<inter> dom (vw_mem (view (cw_rt w))) = {}
     \<and> view (cw_rt w') = (view (cw_rt w))\<lparr>vw_mem := m\<rparr> \<and> dom m = set ps \<union> dom (vw_mem (view (cw_rt w)))
     \<and> (\<forall>p \<in> set ps. \<exists>c. m p = Some c \<and> length c = unat (cs_bytes st))
     \<and> (\<forall>p. p \<notin> set ps \<longrightarrow> m p = vw_mem (view (cw_rt w)) p)"
proof (induction k arbitrary: st w)
  case 0
  then show ?case by (intro exI [of _ "[]"] exI [of _ "vw_mem (view (cw_rt w))"]) auto
next
  case (Suc k)
  from Suc.prems obtain p r where call: "cudaMalloc api (cs_bytes st) (cw_rt w) = (Some p, r)"
    and rest: "malloc_buffers api k (st\<lparr>cs_buffers := cs_buffers st @ [p]\<rparr>) (w\<lparr>cw_rt := r\<rparr>) = (Inr st', w')"
    by (auto dest!: cu_bind_InrD cu_call_InrD)
  let ?v = "view (cw_rt w)"
  from malloc [OF call] obtain c where p: "p \<noteq> 0" "p \<notin> dom (vw_mem ?v)" "length c = unat (cs_bytes st)"
    and r: "view r = ?v\<lparr>vw_mem := (vw_mem ?v)(p \<mapsto> c)\<rparr>" by auto
  from Suc.IH [OF rest] obtain ps m where ih: "st' = st\<lparr>cs_buffers := cs_buffers st @ p # ps\<rparr>" "length ps = k"
    "distinct ps" "0 \<notin> set ps" "set ps \<inter> insert p (dom (vw_mem ?v)) = {}" "view (cw_rt w') = ?v\<lparr>vw_mem := m\<rparr>"
    "dom m = set ps \<union> insert p (dom (vw_mem ?v))"
    "\<forall>q \<in> set ps. \<exists>c. m q = Some c \<and> length c = unat (cs_bytes st)"
    "\<forall>q. q \<notin> set ps \<longrightarrow> m q = ((vw_mem ?v)(p \<mapsto> c)) q"
    by (auto simp: r simp del: fun_upd_apply)
  have "m p = Some c" using ih(5,9) by auto
  with p ih show ?case by (intro exI [of _ "p # ps"] exI [of _ m]) auto
qed

lemma add_kernels_view:
  "add_kernels api i k st w = (Inr st', w') \<Longrightarrow> vw_graphs (view (cw_rt w)) (cs_graph st) = Some ns \<Longrightarrow>
   length (cs_kernels st) = i \<Longrightarrow> \<exists>ks. st' = st\<lparr>cs_kernels := cs_kernels st @ ks\<rparr> \<and> length ks = k \<and> distinct ks
     \<and> set ks \<inter> gn_id ` set ns = {} \<and> view (cw_rt w') = (view (cw_rt w))\<lparr>vw_graphs :=
        (vw_graphs (view (cw_rt w)))(cs_graph st \<mapsto> ns @ map (kernel_node st') [i..<i + k])\<rparr>"
proof (induction k arbitrary: i st w ns)
  case 0
  then show ?case by (intro exI [of _ "[]"]) (simp add: fun_upd_idem)
next
  case (Suc k)
  let ?v = "view (cw_rt w)" and ?g = "cs_graph st"
  let ?dep = "if i = 0 then cs_h2d st else cs_kernels st ! (i - 1)"
  from Suc.prems(1) obtain h r where call: "cudaGraphAddKernelNode api ?g [?dep] (kernel_args st i) (cw_rt w) = (Some h, r)"
    and rest: "add_kernels api (Suc i) k (st\<lparr>cs_kernels := cs_kernels st @ [h]\<rparr>) (w\<lparr>cw_rt := r\<rparr>) = (Inr st', w')"
    by (auto simp: Let_def dest!: cu_bind_InrD cu_call_InrD)
  let ?n = "\<lparr>gn_id = h, gn_deps = [?dep], gn_params = NP_Kernel (kernel_args st i)\<rparr>"
  from add_kernel [OF call Suc.prems(2)] have h: "h \<notin> gn_id ` set ns"
    and r: "view r = ?v\<lparr>vw_graphs := (vw_graphs ?v)(?g \<mapsto> ns @ [?n])\<rparr>" by auto
  have g: "vw_graphs (view (cw_rt (w\<lparr>cw_rt := r\<rparr>))) (cs_graph (st\<lparr>cs_kernels := cs_kernels st @ [h]\<rparr>)) = Some (ns @ [?n])"
    by (simp add: r)
  obtain ks where ks: "st' = st\<lparr>cs_kernels := cs_kernels st @ h # ks\<rparr>" "length ks = k" "distinct ks"
    "set ks \<inter> insert h (gn_id ` set ns) = {}"
    "view (cw_rt w') = ?v\<lparr>vw_graphs := (vw_graphs ?v)(?g \<mapsto> (ns @ [?n]) @ map (kernel_node st') [Suc i..<Suc i + k])\<rparr>"
    using Suc.IH [OF rest g] Suc.prems(3) by (auto simp: r simp del: fun_upd_apply upt_Suc)
  have "kernel_node st' i = ?n" using Suc.prems(3) by (auto simp: ks(1) kernel_node_def kernel_args_def nth_append)
  then have "ns @ map (kernel_node st') [i..<i + Suc k] = (ns @ [?n]) @ map (kernel_node st') [Suc i..<Suc i + k]"
    by (simp add: upt_conv_Cons del: upt_Suc)
  with ks h show ?case by (intro exI [of _ "h # ks"]) (auto simp del: upt_Suc fun_upd_apply)
qed

lemma graph_built:
  assumes graph: "cudaGraphCreate api (cw_rt w2) = (Some g, r3)"
    and h2d: "cudaGraphAddMemcpyNode api g [] (make_1d (DevP (cs_buffers st2 ! 0)) (HostP (cs_h_in st2)) (cs_bytes st2) MK_HostToDevice) r3
        = (Some h, r4)"
    and kernels: "add_kernels api 0 nk (st2\<lparr>cs_graph := g, cs_h2d := h\<rparr>) (w2\<lparr>cw_rt := r4\<rparr>) = (Inr st5, w5)"
    and d2h: "cudaGraphAddMemcpyNode api g [cs_kernels st5 ! (nk - 1)]
        (make_1d (HostP (cs_h_out st5)) (DevP (cs_buffers st5 ! nk)) (cs_bytes st5) MK_DeviceToHost) (cw_rt w5) = (Some d, r6)"
    and exec: "cudaGraphInstantiate api g r6 = (Some e, r7)" and st': "st' = st5\<lparr>cs_d2h := d, cs_exec := e\<rparr>"
    and none: "cs_kernels st2 = []"
  defines "ns \<equiv> chain_nodes st' (HostP (cs_h_in st2)) (HostP (cs_h_out st2))" and "v \<equiv> view (cw_rt w2)"
  shows "\<exists>ks. st' = st2\<lparr>cs_graph := g, cs_h2d := h, cs_kernels := ks, cs_d2h := d, cs_exec := e\<rparr> \<and> length ks = nk"
    and "distinct (node_ids st')" and "g \<noteq> 0" and "e \<noteq> 0" and "g \<notin> dom (vw_graphs v)" and "e \<notin> dom (vw_execs v)"
    and "view r7 = v\<lparr>vw_graphs := (vw_graphs v)(g \<mapsto> ns), vw_execs := (vw_execs v)(e \<mapsto> ns)\<rparr>"
proof -
  note g = graph_create [OF graph, folded v_def]
  let ?h = "h2d_node st' (HostP (cs_h_in st2))" and ?st4 = "st2\<lparr>cs_graph := g, cs_h2d := h\<rparr>"
  have "vw_graphs (view r3) g = Some []" using g by simp
  note n4 = add_memcpy [OF h2d this]
  from n4 g have "vw_graphs (view (cw_rt (w2\<lparr>cw_rt := r4\<rparr>))) (cs_graph ?st4)
      = Some [\<lparr>gn_id = h, gn_deps = [], gn_params = NP_Memcpy (make_1d (DevP (cs_buffers st2 ! 0)) (HostP (cs_h_in st2)) (cs_bytes st2) MK_HostToDevice)\<rparr>]"
    (is "_ = Some [?n]") by simp
  from add_kernels_view [OF kernels this] none obtain ks where
    ks: "st5 = ?st4\<lparr>cs_kernels := ks\<rparr>" "length ks = nk" "distinct ks" "h \<notin> set ks"
    and w5: "view (cw_rt w5) = (view r4)\<lparr>vw_graphs := (vw_graphs (view r4))(g \<mapsto> ?n # map (kernel_node st5) [0..<nk])\<rparr>"
    by auto
  have "vw_graphs (view (cw_rt w5)) g = Some (?n # map (kernel_node st5) [0..<nk])" by (simp add: w5)
  note n6 = add_memcpy [OF d2h this]
  have "map gn_id (map (kernel_node st5) [0..<nk]) = ks"
    using ks(2) by (auto simp: kernel_node_def ks(1) o_def map_nth)
  then have ids: "gn_id ` set (map (kernel_node st5) [0..<nk]) = set ks" by (metis list.set_map)
  have ns: "(?n # map (kernel_node st5) [0..<nk]) @ [\<lparr>gn_id = d, gn_deps = [cs_kernels st5 ! (nk - 1)], gn_params = NP_Memcpy
       (make_1d (HostP (cs_h_out st5)) (DevP (cs_buffers st5 ! nk)) (cs_bytes st5) MK_DeviceToHost)\<rparr>] = ns"
    unfolding ns_def chain_nodes_def st' kernel_node_final using ks(2) by (simp add: h2d_node_def d2h_node_def ks(1))
  with n6 have "vw_graphs (view r6) g = Some ns" by simp
  note n7 = instantiate [OF exec this]
  show "\<exists>ks. st' = st2\<lparr>cs_graph := g, cs_h2d := h, cs_kernels := ks, cs_d2h := d, cs_exec := e\<rparr> \<and> length ks = nk"
    using ks by (intro exI [of _ ks]) (simp add: st')
  show "distinct (node_ids st')" using ks n6 ids by (auto simp: st' node_ids_def)
  show "g \<noteq> 0" "e \<noteq> 0" "g \<notin> dom (vw_graphs v)" "e \<notin> dom (vw_execs v)"
    using g n7 n6 w5 n4 by auto
  show "view r7 = v\<lparr>vw_graphs := (vw_graphs v)(g \<mapsto> ns), vw_execs := (vw_execs v)(e \<mapsto> ns)\<rparr>"
    using g n7 n6 w5 n4 ns by simp
qed

lemma cuda_build_ready:
  assumes "cuda_build api nk st w = (Inr st', w')" and nk: "0 < nk" and "cs_buffers st = []" and "cs_kernels st = []"
    and "cs_n st = ucast (cs_bytes st div 4)"
  shows "cuda_ready st' (view (cw_rt w'))" and "cuda_owns st' (resources (view (cw_rt w))) (view (cw_rt w'))"
    and "cs_ops st' = cs_ops st \<and> cs_as st' = cs_as st \<and> cs_bs st' = cs_bs st \<and> cs_bytes st' = cs_bytes st
      \<and> length (cs_kernels st') = nk"
proof -
  from assms(1) obtain s r1 st2 w2 g r3 h r4 st5 w5 d r6 e r7 where
    stream: "cudaStreamCreate api (cw_rt w) = (Some s, r1)"
    and bufs: "malloc_buffers api (nk + 1) (st\<lparr>cs_stream := s\<rparr>) (w\<lparr>cw_rt := r1\<rparr>) = (Inr st2, w2)"
    and graph: "cudaGraphCreate api (cw_rt w2) = (Some g, r3)"
    and h2d: "cudaGraphAddMemcpyNode api g [] (make_1d (DevP (cs_buffers st2 ! 0)) (HostP (cs_h_in st2)) (cs_bytes st2) MK_HostToDevice) r3
        = (Some h, r4)"
    and kernels: "add_kernels api 0 nk (st2\<lparr>cs_graph := g, cs_h2d := h\<rparr>) (w2\<lparr>cw_rt := r4\<rparr>) = (Inr st5, w5)"
    and d2h: "cudaGraphAddMemcpyNode api g [cs_kernels st5 ! (nk - 1)]
        (make_1d (HostP (cs_h_out st5)) (DevP (cs_buffers st5 ! nk)) (cs_bytes st5) MK_DeviceToHost) (cw_rt w5) = (Some d, r6)"
    and exec: "cudaGraphInstantiate api g r6 = (Some e, r7)" and w': "w' = w5\<lparr>cw_rt := r7\<rparr>"
    and st': "st' = st5\<lparr>cs_d2h := d, cs_exec := e\<rparr>"
    by (auto simp: cuda_build_def simp del: malloc_buffers.simps dest!: cu_bind_InrD cu_call_InrD)
  let ?v = "view (cw_rt w)"
  note s = stream_create [OF stream]
  from malloc_buffers_view [OF bufs] s assms(3) obtain ps m where ps: "st2 = st\<lparr>cs_stream := s, cs_buffers := ps\<rparr>"
    "length ps = nk + 1" "distinct ps" "0 \<notin> set ps" "set ps \<inter> dom (vw_mem ?v) = {}"
    "view (cw_rt w2) = ?v\<lparr>vw_streams := insert s (vw_streams ?v), vw_mem := m\<rparr>" "dom m = set ps \<union> dom (vw_mem ?v)"
    "\<forall>p \<in> set ps. \<exists>c. m p = Some c \<and> length c = unat (cs_bytes st)" by auto
  have none: "cs_kernels st2 = []" using assms(4) ps(1) by simp
  note built = graph_built [OF graph h2d kernels d2h exec st' none]
  from built(1) obtain ks where ks: "st' = st2\<lparr>cs_graph := g, cs_h2d := h, cs_kernels := ks, cs_d2h := d, cs_exec := e\<rparr>"
    "length ks = nk" by blast
  show "cs_ops st' = cs_ops st \<and> cs_as st' = cs_as st \<and> cs_bs st' = cs_bs st \<and> cs_bytes st' = cs_bytes st
      \<and> length (cs_kernels st') = nk" using ks ps(1) by simp
  have "cuda_layout st'" using ks ps(1,2,3) nk built(2) assms(5) by (auto simp: cuda_layout_def)
  then show "cuda_ready st' (view (cw_rt w'))"
    using ks ps built(7) by (auto simp: cuda_ready_def w' buffers_ok_def)
  show "cuda_owns st' (resources ?v) (view (cw_rt w'))"
    using ks ps s built(3-7) by (auto simp: resources_def w')
qed

lemma bind_view:
  assumes "cuda_layout st" and "vw_execs (view (cw_rt w)) (cs_exec st) = Some (chain_nodes st src dst)"
  shows "bind_h2d api st p w = (ok, w') \<Longrightarrow> cw_host w' = cw_host w \<and> view (cw_rt w') = (view (cw_rt w))\<lparr>vw_execs :=
      (vw_execs (view (cw_rt w)))(cs_exec st \<mapsto> chain_nodes st (if ok then p else src) dst)\<rparr>"
    and "bind_d2h api st q w = (ok, w') \<Longrightarrow> cw_host w' = cw_host w \<and> view (cw_rt w') = (view (cw_rt w))\<lparr>vw_execs :=
      (vw_execs (view (cw_rt w)))(cs_exec st \<mapsto> chain_nodes st src (if ok then q else dst))\<rparr>"
  using assms set_params_1d [OF _ assms(2)] set_params_chain
  by (auto simp: bind_h2d_def bind_d2h_def cuda_layout_def fun_upd_idem split: prod.splits)

lemma capture_holds:
  assumes "cuda_capture api fl desc w = (Inr (Some st), w')"
  shows "cuda_holds st (resources (view (cw_rt w))) (view (cw_rt w'))" and "cs_bytes st = cuda_bytes desc"
    and "length (cs_kernels st) = length (cuda_kernels desc)"
    and "chain_lane gpu st (length (cs_kernels st)) = descriptor_lane gpu fl desc"
proof -
  let ?n = "cuda_bytes desc div 4"
  let ?w = "snd (host_vector (replicate (unat ?n) 0) (snd (host_vector (fill_pattern fl (unat ?n) 0xC0FFEE) w)))"
  obtain a b where build: "cuda_build api (length (cuda_kernels desc)) (cuda_state fl desc a b) ?w = (Inr st, w')"
    and nk: "cuda_kernels desc \<noteq> []"
    using assms by (auto simp: cuda_capture_def Let_def host_vector_def split: if_splits prod.splits sum.splits)
  have "cw_rt ?w = cw_rt w" by (simp add: host_vector_def)
  moreover note c = cuda_build_ready [OF build]
  ultimately show "cuda_holds st (resources (view (cw_rt w))) (view (cw_rt w'))"
    using nk by (simp add: cuda_holds_def cuda_state_def)
  from c(3) nk show "cs_bytes st = cuda_bytes desc" "length (cs_kernels st) = length (cuda_kernels desc)"
    by (simp_all add: cuda_state_def)
  show "chain_lane gpu st (length (cs_kernels st)) = descriptor_lane gpu fl desc"
    by (rule descriptor_lane_state [of _ _ _ a b]) (use c(3) nk in \<open>simp_all add: cuda_state_def\<close>)
qed

lemma bind_holds:
  assumes "cuda_holds st R (view (cw_rt w))"
  shows "bind_h2d api st p w = (ok, w') \<Longrightarrow> cuda_holds st R (view (cw_rt w'))"
    and "bind_d2h api st p w = (ok, w') \<Longrightarrow> cuda_holds st R (view (cw_rt w'))"
proof -
  obtain src dst where "cuda_layout st" and "vw_execs (view (cw_rt w)) (cs_exec st) = Some (chain_nodes st src dst)"
    using assms by (auto simp: cuda_holds_def cuda_ready_def)
  note b = bind_view [OF this]
  show "bind_h2d api st p w = (ok, w') \<Longrightarrow> cuda_holds st R (view (cw_rt w'))"
    and "bind_d2h api st p w = (ok, w') \<Longrightarrow> cuda_holds st R (view (cw_rt w'))"
    using b holds_rebound [OF assms] by auto
qed

lemma launch_and_wait_keeps: "launch_and_wait api st w = (x, w') \<Longrightarrow> keeps (view (cw_rt w)) (view (cw_rt w'))"
  using launch_keeps [of w "cs_exec st" "cs_stream st"] sync_keeps [of _ "cs_stream st"] keeps_trans
  by (fastforce simp: launch_and_wait_def split: prod.splits bool.splits)

lemma replay_steps:
  "cuda_replay api (Some st) bufs rd latency w = Some (x, w') \<Longrightarrow> w' = w \<or> (\<exists>ok p w1. bind_h2d api st p w = (ok, w1)
     \<and> (w' = w1 \<or> (\<exists>ok q w2. bind_d2h api st q w1 = (ok, w2) \<and> (w' = w2 \<or> (\<exists>y. launch_and_wait api st w2 = (y, w'))))))"
  by (auto simp: cuda_replay_def Let_def split: if_splits prod.splits bool.splits sum.splits Option.bind_splits) blast+

lemma replay_holds:
  assumes "cuda_holds st R (view (cw_rt w))" and "cuda_replay api (Some st) bufs rd latency w = Some (x, w')"
  shows "cuda_holds st R (view (cw_rt w'))"
  using replay_steps [OF assms(2)] assms(1) by (blast dest: bind_holds launch_and_wait_keeps intro: keeps_holds)

lemma rebind_holds: "cuda_holds st R (view (cw_rt w)) \<Longrightarrow> cuda_holds st R (view (cw_rt (rebind_updates api st us w)))"
proof (induction us arbitrary: w)
  case (Cons u us)
  note b = bind_holds [OF Cons.prems]
  have "cuda_holds st R (view (cw_rt (snd (bind_h2d api st p w))))" "cuda_holds st R (view (cw_rt (snd (bind_d2h api st p w))))" for p
    using b by (metis prod.collapse)+
  with Cons show ?case by (auto split: RebindRole.splits)
qed simp

lemma uses_hold:
  "cuda_holds st R (view (cw_rt w)) \<Longrightarrow> cuda_uses api desc st us w = Some w' \<Longrightarrow> cuda_holds st R (view (cw_rt w'))"
proof (induction us arbitrary: w)
  case (Cons u us)
  then obtain w1 where w1: "cuda_use_step api desc st u w = Some w1" "cuda_uses api desc st us w1 = Some w'"
    by (auto split: Option.bind_splits)
  have "cuda_holds st R (view (cw_rt w1))"
    using w1(1) Cons.prems(1)
    by (cases u) (auto simp: cuda_validate_def cuda_rebind_def rebind_holds dest: replay_holds
        intro: keeps_holds [OF launch_and_wait_keeps [OF surjective_pairing]])
  with Cons.IH w1(2) show ?case by blast
qed simp

lemma launch_computes:
  assumes "launch_and_wait api st w = (Inr (), w')" and "cuda_ready st (view (cw_rt w))"
    and "vw_execs (view (cw_rt w)) (cs_exec st) = Some (chain_nodes st (HostP p) (HostP q))" and "elements st < 2 ^ 31"
    and "cw_host w p = Some s" and "unat (cs_bytes st) \<le> length s" and "cw_host w q = Some t" and "unat (cs_bytes st) \<le> length t"
  shows "\<exists>tail. length tail = unat (cs_bytes st) mod 4 \<and> cw_host w' = (cw_host w)(q \<mapsto>
     lanes (chain_lane gpu st (length (cs_kernels st))) s (elements st) @ tail @ drop (unat (cs_bytes st)) t)"
proof -
  obtain w1 where l: "cudaGraphLaunch api (cs_exec st) (cs_stream st) w = (True, w1)"
    and y: "cudaStreamSynchronize api (cs_stream st) w1 = (True, w')"
    using assms(1) by (auto simp: launch_and_wait_def split: prod.splits bool.splits)
  from launch_runs [OF l y assms(3)] obtain order ts where sched: "launch_order (chain_nodes st (HostP p) (HostP q)) order"
    and ts: "\<And>k xs. mset (ts k xs) = mset xs"
    and eff: "\<And>h d. run_graph gpu ts order (cw_host w, vw_mem (view (cw_rt w))) = Some (h, d) \<Longrightarrow> cw_host w' = h" by blast
  have lay: "cuda_layout st" and ok: "buffers_ok st (vw_mem (view (cw_rt w)))" using assms(2) by (auto simp: cuda_ready_def)
  then have "order = chain_nodes st (HostP p) (HostP q)" using chain_schedule [OF _ _ sched] by (simp add: cuda_layout_def)
  with chain_runs [where ts = ts and gpu = gpu, OF lay assms(4) ts ok assms(5-8)] eff show ?thesis by blast
qed

lemma replay_computes:
  assumes "cuda_replay api (Some st) bufs rd latency w = Some (Inr r, w')" and "cuda_ready st (view (cw_rt w))"
    and "elements st < 2 ^ 31" and "rb_inputs bufs = p # ps" and "rb_outputs bufs = q # qs"
    and "cw_host w p = Some s" and "unat (cs_bytes st) \<le> length s" and "cw_host w q = Some t" and "unat (cs_bytes st) \<le> length t"
  shows "\<exists>tail. length tail = unat (cs_bytes st) mod 4 \<and> cw_host w' = (cw_host w)(q \<mapsto>
       lanes (chain_lane gpu st (length (cs_kernels st))) s (elements st) @ tail @ drop (unat (cs_bytes st)) t)
     \<and> gr_digest r = sha256_spec (lanes (chain_lane gpu st (length (cs_kernels st))) s (elements st) @ tail)
     \<and> gr_replayed_nodes r = word_of_nat (length (cs_kernels st) + 2)"
proof -
  obtain w1 w2 out where b1: "bind_h2d api st (HostP p) w = (True, w1)" and b2: "bind_d2h api st (HostP q) w1 = (True, w2)"
    and l: "launch_and_wait api st w2 = (Inr (), w')" and out: "read_mem q (unat (cs_bytes st)) (cw_host w') = Some out"
    and r: "gr_digest r = sha_compute out" "gr_replayed_nodes r = word_of_nat (length (cs_kernels st) + 2)"
    using assms(1,4,5)
    by (auto simp: cuda_replay_def Let_def split: if_splits prod.splits bool.splits sum.splits Option.bind_splits)
  obtain src dst where lay: "cuda_layout st" and e: "vw_execs (view (cw_rt w)) (cs_exec st) = Some (chain_nodes st src dst)"
    using assms(2) by (auto simp: cuda_ready_def)
  note v1 = bind_view(1) [OF lay e b1]
  then have e1: "vw_execs (view (cw_rt w1)) (cs_exec st) = Some (chain_nodes st (HostP p) dst)" by simp
  note v2 = bind_view(2) [OF lay e1 b2]
  then have e2: "vw_execs (view (cw_rt w2)) (cs_exec st) = Some (chain_nodes st (HostP p) (HostP q))" by simp
  have h: "cw_host w2 = cw_host w" using v1 v2 by simp
  have "cuda_ready st (view (cw_rt w2))" using assms(2) v1 v2 by (auto simp: cuda_ready_def)
  from launch_computes [OF l this e2 assms(3)] assms(6-9) h obtain tail where t: "length tail = unat (cs_bytes st) mod 4"
    "cw_host w' = (cw_host w)(q \<mapsto> lanes (chain_lane gpu st (length (cs_kernels st))) s (elements st) @ tail @ drop (unat (cs_bytes st)) t)"
    by auto
  have "4 * elements st + length tail = unat (cs_bytes st)" using t(1) by (simp add: elements_def)
  with out t(2) have "out = lanes (chain_lane gpu st (length (cs_kernels st))) s (elements st) @ tail"
    by (auto simp: read_mem_def split: if_splits)
  with r t show ?thesis by (auto simp: sha_compute_spec)
qed

lemma free_buffers_view:
  "set ps \<subseteq> dom (vw_mem (view r)) \<Longrightarrow> distinct ps \<Longrightarrow> 0 \<notin> set ps \<Longrightarrow>
   \<exists>m. view (fold (\<lambda>p r. if p \<noteq> 0 then cudaFree api p r else r) ps r) = (view r)\<lparr>vw_mem := m\<rparr>
     \<and> dom m = dom (vw_mem (view r)) - set ps"
proof (induction ps arbitrary: r)
  case Nil
  then show ?case by (intro exI [of _ "vw_mem (view r)"]) simp
next
  case (Cons p ps)
  then have f: "view (cudaFree api p r) = (view r)\<lparr>vw_mem := (vw_mem (view r))(p := None)\<rparr>" and p: "p \<noteq> 0"
    using free_buffer by auto
  have "set ps \<subseteq> dom (vw_mem (view (cudaFree api p r)))" using Cons.prems by (auto simp: f)
  from Cons.IH [OF this] Cons.prems obtain m where
    "view (fold (\<lambda>p r. if p \<noteq> 0 then cudaFree api p r else r) ps (cudaFree api p r)) = (view (cudaFree api p r))\<lparr>vw_mem := m\<rparr>"
    "dom m = dom (vw_mem (view (cudaFree api p r))) - set ps" by auto
  with p show ?case by (intro exI [of _ m]) (auto simp: f split: if_splits)
qed

lemma free_releases:
  assumes "cuda_holds st R (view r)"
  shows "resources (view (free_resources api st r)) = R"
proof -
  obtain S G E M where R: "R = (S, G, E, M)" by (cases R)
  have own: "vw_streams (view r) = insert (cs_stream st) S" "dom (vw_graphs (view r)) = insert (cs_graph st) G"
    "dom (vw_execs (view r)) = insert (cs_exec st) E" "dom (vw_mem (view r)) = set (cs_buffers st) \<union> M"
    and new: "cs_stream st \<notin> S" "cs_graph st \<notin> G" "cs_exec st \<notin> E" "set (cs_buffers st) \<inter> M = {}"
    and nz: "cs_stream st \<noteq> 0" "cs_graph st \<noteq> 0" "cs_exec st \<noteq> 0" "0 \<notin> set (cs_buffers st)"
    using assms by (auto simp: cuda_holds_def R resources_def)
  let ?r1 = "cudaGraphExecDestroy api (cs_exec st) r"
  let ?r2 = "cudaGraphDestroy api (cs_graph st) ?r1"
  let ?r3 = "cudaStreamDestroy api (cs_stream st) ?r2"
  have r1: "view ?r1 = (view r)\<lparr>vw_execs := (vw_execs (view r))(cs_exec st := None)\<rparr>"
    by (rule exec_destroy) (simp add: own)
  have r2: "view ?r2 = (view ?r1)\<lparr>vw_graphs := (vw_graphs (view ?r1))(cs_graph st := None)\<rparr>"
    by (rule graph_destroy) (simp add: r1 own)
  have r3: "view ?r3 = (view ?r2)\<lparr>vw_streams := vw_streams (view ?r2) - {cs_stream st}\<rparr>"
    by (rule stream_destroy) (simp add: r1 r2 own)
  have "set (cs_buffers st) \<subseteq> dom (vw_mem (view ?r3))" using r1 r2 r3 own by auto
  moreover have "distinct (cs_buffers st)" using assms by (auto simp: cuda_holds_def cuda_ready_def cuda_layout_def)
  ultimately obtain m where "view (free_resources api st r) = (view ?r3)\<lparr>vw_mem := m\<rparr>"
    "dom m = dom (vw_mem (view ?r3)) - set (cs_buffers st)"
    using free_buffers_view [of "cs_buffers st" ?r3] nz by (auto simp: free_resources_def)
  with r1 r2 r3 own new show ?thesis by (auto simp: resources_def R)
qed

end

end
