(* ===== verification/GC_CudaSystem.thy ===== *)
theory GC_CudaSystem
  imports GC_CudaReplay
begin

text \<open>
  The properties of the CUDA backend, and a reference runtime: an executable CUDA runtime with one
  device, whose calls can fail from a given moment on. It satisfies everything \<open>cuda_runtime\<close> asks for, so
  that the properties are about something, and it runs the graphs the witnesses capture.
\<close>

section \<open>The reference runtime\<close>

record ref_state = cuda_view +
  rr_next :: nat
  rr_budget :: nat

definition ref_create :: "nat set \<Rightarrow> (nat \<Rightarrow> ref_state \<Rightarrow> ref_state) \<Rightarrow> ref_state \<Rightarrow> nat option \<times> ref_state" where
  "ref_create live upd r =
     (if rr_budget r = 0 \<or> rr_next r = 0 \<or> rr_next r \<in> live then (None, r)
      else (Some (rr_next r), upd (rr_next r) (r\<lparr>rr_next := Suc (rr_next r), rr_budget := rr_budget r - 1\<rparr>)))"

definition ref_add_node :: "node_params \<Rightarrow> nat \<Rightarrow> nat list \<Rightarrow> ref_state \<Rightarrow> nat option \<times> ref_state" where
  "ref_add_node params g deps r = (case vw_graphs r g of
       None \<Rightarrow> (None, r)
     | Some ns \<Rightarrow> ref_create (gn_id ` set ns)
         (\<lambda>n r. r\<lparr>vw_graphs := (vw_graphs r)(g \<mapsto> ns @ [\<lparr>gn_id = n, gn_deps = deps, gn_params = params\<rparr>])\<rparr>) r)"

definition ref_set_params :: "nat \<Rightarrow> nat \<Rightarrow> memcpy_parms \<Rightarrow> ref_state \<Rightarrow> bool \<times> ref_state" where
  "ref_set_params e n mp r = (case vw_execs r e of
       None \<Rightarrow> (False, r)
     | Some ns \<Rightarrow>
         if n \<in> gn_id ` set ns \<and> mp_src mp \<noteq> NullP \<and> mp_dst mp \<noteq> NullP
         then (True, r\<lparr>vw_execs := (vw_execs r)(e \<mapsto> set_params n mp ns)\<rparr>) else (False, r))"

definition ref_launch :: "gpu_ops \<Rightarrow> nat \<Rightarrow> ref_state cuda_world \<Rightarrow> bool \<times> ref_state cuda_world" where
  "ref_launch gpu e w = (case vw_execs (cw_rt w) e of
       None \<Rightarrow> (False, w)
     | Some ns \<Rightarrow> if \<not> launch_order ns ns then (False, w)
         else case run_graph gpu (\<lambda>k xs. xs) ns (cw_host w, vw_mem (cw_rt w)) of
             None \<Rightarrow> (False, w)
           | Some (h, d) \<Rightarrow> (True, w\<lparr>cw_host := h, cw_rt := (cw_rt w)\<lparr>vw_mem := d\<rparr>\<rparr>))"

definition ref_api :: "gpu_ops \<Rightarrow> ref_state cuda_api" where
  "ref_api gpu = \<lparr>
     cudaStreamCreate = (\<lambda>r. ref_create (vw_streams r) (\<lambda>s r. r\<lparr>vw_streams := insert s (vw_streams r)\<rparr>) r),
     cudaMalloc = (\<lambda>n r. ref_create (dom (vw_mem r)) (\<lambda>p r. r\<lparr>vw_mem := (vw_mem r)(p \<mapsto> replicate (unat n) 0)\<rparr>) r),
     cudaGraphCreate = (\<lambda>r. ref_create (dom (vw_graphs r)) (\<lambda>g r. r\<lparr>vw_graphs := (vw_graphs r)(g \<mapsto> [])\<rparr>) r),
     cudaGraphAddMemcpyNode = (\<lambda>g deps mp. ref_add_node (NP_Memcpy mp) g deps),
     cudaGraphAddKernelNode = (\<lambda>g deps kp. ref_add_node (NP_Kernel kp) g deps),
     cudaGraphInstantiate = (\<lambda>g r. case vw_graphs r g of None \<Rightarrow> (None, r)
       | Some ns \<Rightarrow> ref_create (dom (vw_execs r)) (\<lambda>e r. r\<lparr>vw_execs := (vw_execs r)(e \<mapsto> ns)\<rparr>) r),
     cudaGraphExecMemcpyNodeSetParams1D = ref_set_params,
     cudaGraphLaunch = (\<lambda>e s. ref_launch gpu e),
     cudaStreamSynchronize = (\<lambda>s w. (True, w)),
     cudaGraphExecDestroy = (\<lambda>e r. r\<lparr>vw_execs := (vw_execs r)(e := None)\<rparr>),
     cudaGraphDestroy = (\<lambda>g r. r\<lparr>vw_graphs := (vw_graphs r)(g := None)\<rparr>),
     cudaStreamDestroy = (\<lambda>s r. r\<lparr>vw_streams := vw_streams r - {s}\<rparr>),
     cudaFree = (\<lambda>p r. r\<lparr>vw_mem := (vw_mem r)(p := None)\<rparr>),
     cudaGetDeviceCount = (\<lambda>r. Some 1),
     cudaGetDeviceProperties = (\<lambda>r. Some \<lparr>prop_name = ''reference'', prop_major = 9, prop_minor = 0\<rparr>)\<rparr>"

lemma same_sizes_refl [simp]: "same_sizes a a"
  by (simp add: same_sizes_def)

lemma same_sizes_trans: "same_sizes a b \<Longrightarrow> same_sizes b c \<Longrightarrow> same_sizes a c"
  by (simp add: same_sizes_def)

lemma store_lane_sizes: "store_lane mem p i v = Some mem' \<Longrightarrow> same_sizes mem mem'"
  by (auto simp: store_lane_def same_sizes_def split: option.splits if_splits)

lemma run_threads_sizes: "run_threads gpu kp ts mem = Some mem' \<Longrightarrow> same_sizes mem mem'"
proof (induction ts arbitrary: mem)
  case (Cons t ts)
  then obtain mem1 where "gc_generic_kernel gpu kp t mem = Some mem1" "run_threads gpu kp ts mem1 = Some mem'"
    by (auto split: Option.bind_splits)
  moreover from this(1) have "same_sizes mem mem1"
    by (auto simp: gc_generic_kernel_def Let_def dest: store_lane_sizes split: prod.splits if_splits Option.bind_splits)
  ultimately show ?case using Cons.IH same_sizes_trans by blast
qed (simp add: same_sizes_def)

lemma run_graph_sizes: "run_graph gpu ts ns m = Some m' \<Longrightarrow> same_sizes (snd m) (snd m')"
proof (induction ns arbitrary: m)
  case (Cons n ns)
  then obtain m1 where "run_node gpu ts n m = Some m1" "run_graph gpu ts ns m1 = Some m'" by (auto split: Option.bind_splits)
  moreover from this(1) have "same_sizes (snd m) (snd m1)"
    by (auto simp: run_node_def run_memcpy_def copy_bytes_def same_sizes_def [of "snd m" "(snd m)(_ \<mapsto> _)"] dest: run_threads_sizes
        split: node_params.splits cudaMemcpyKind.splits cptr.splits option.splits if_splits)
  ultimately show ?case using Cons.IH same_sizes_trans by blast
qed (simp add: same_sizes_def)

lemma ref_launch_keeps: "keeps (cuda_view.truncate (cw_rt w)) (cuda_view.truncate (cw_rt (snd (ref_launch gpu e w))))"
  by (auto simp: ref_launch_def keeps_def cuda_view.defs dest!: run_graph_sizes split: option.splits)

lemma ref_create_Some:
  "ref_create live upd r = (Some h, r') \<Longrightarrow> h \<noteq> 0 \<and> h \<notin> live
     \<and> r' = upd h (r\<lparr>rr_next := Suc h, rr_budget := rr_budget r - 1\<rparr>)"
  by (auto simp: ref_create_def split: if_splits)

interpretation ref: cuda_runtime "ref_api gpu" cuda_view.truncate gpu for gpu
proof (unfold_locales, goal_cases)
  case (1 r s r')
  then show ?case by (auto simp: ref_api_def cuda_view.defs dest!: ref_create_Some)
next
  case (2 bytes r p r')
  then show ?case
    by (auto simp: ref_api_def cuda_view.defs dest!: ref_create_Some) (metis length_replicate)
next
  case (3 r g r')
  then show ?case by (auto simp: ref_api_def cuda_view.defs dest!: ref_create_Some)
next
  case (4 g deps mp r n r' ns)
  then show ?case by (auto simp: ref_api_def ref_add_node_def cuda_view.defs dest!: ref_create_Some)
next
  case (5 g deps kp r n r' ns)
  then show ?case by (auto simp: ref_api_def ref_add_node_def cuda_view.defs dest!: ref_create_Some)
next
  case (6 g r e r' ns)
  then show ?case by (auto simp: ref_api_def cuda_view.defs dest!: ref_create_Some)
next
  case (7 e n mp r ok r' ns)
  then show ?case by (auto simp: ref_api_def ref_set_params_def cuda_view.defs split: if_splits)
next
  case (8 w e s)
  then show ?case using ref_launch_keeps by (simp add: ref_api_def)
next
  case (9 w s)
  then show ?case by (simp add: ref_api_def keeps_refl)
next
  case (10 e s w w1 w2 ns)
  then show ?case
    by (intro exI [of _ ns] exI [of _ "\<lambda>k xs. xs"])
      (auto simp: ref_api_def ref_launch_def cuda_view.defs split: if_splits option.splits)
qed (auto simp: ref_api_def cuda_view.defs)

lemma chain_launch_order:
  assumes "cs_kernels st \<noteq> []"
  shows "launch_order (chain_nodes st src dst) (chain_nodes st src dst)"
  unfolding launch_order_def
proof (intro conjI allI impI)
  let ?ns = "chain_nodes st src dst"
  fix i assume i: "i < length ?ns"
  show "set (gn_deps (?ns ! i)) \<subseteq> gn_id ` set (take i ?ns)"
  proof (cases i)
    case (Suc j)
    then have "?ns ! j \<in> set (take i ?ns)" using i by (auto simp: in_set_conv_nth intro!: exI [of _ j])
    moreover have "node_ids st ! j = gn_id (?ns ! j)" using i Suc chain_ids [of st src dst] by (metis Suc_lessD nth_map)
    ultimately show ?thesis using chain_deps [of i st src dst] i Suc assms by auto
  qed (use chain_deps [of 0 st src dst] assms in simp)
qed simp

lemma ref_bind:
  assumes "vw_execs (cw_rt w) (cs_exec st) = Some (chain_nodes st src dst)" and "distinct (node_ids st)" and "x \<noteq> NullP"
  shows "bind_h2d (ref_api gpu) st x w = (True, w\<lparr>cw_rt := (cw_rt w)\<lparr>vw_execs :=
      (vw_execs (cw_rt w))(cs_exec st \<mapsto> chain_nodes st x dst)\<rparr>\<rparr>)"
    and "bind_d2h (ref_api gpu) st x w = (True, w\<lparr>cw_rt := (cw_rt w)\<lparr>vw_execs :=
      (vw_execs (cw_rt w))(cs_exec st \<mapsto> chain_nodes st src x)\<rparr>\<rparr>)"
proof -
  have "gn_id ` set (chain_nodes st src dst) = set (node_ids st)" using chain_ids [of st src dst] by (metis list.set_map)
  then have "cs_h2d st \<in> gn_id ` set (chain_nodes st src dst)" "cs_d2h st \<in> gn_id ` set (chain_nodes st src dst)"
    by (simp_all add: node_ids_def)
  then show "bind_h2d (ref_api gpu) st x w = (True, w\<lparr>cw_rt := (cw_rt w)\<lparr>vw_execs :=
      (vw_execs (cw_rt w))(cs_exec st \<mapsto> chain_nodes st x dst)\<rparr>\<rparr>)"
    and "bind_d2h (ref_api gpu) st x w = (True, w\<lparr>cw_rt := (cw_rt w)\<lparr>vw_execs :=
      (vw_execs (cw_rt w))(cs_exec st \<mapsto> chain_nodes st src x)\<rparr>\<rparr>)"
    using assms set_params_chain [OF assms(2)]
    by (simp_all add: bind_h2d_def bind_d2h_def ref_api_def ref_set_params_def make_1d_def)
qed

text \<open>On the reference runtime a captured graph replays.\<close>

lemma ref_replays:
  assumes "cuda_ready st (cuda_view.truncate (cw_rt w))" and "elements st < 2 ^ 31"
    and "rb_inputs bufs = p # ps" and "rb_outputs bufs = q # qs" and "cw_host w p = Some s"
    and "unat (cs_bytes st) \<le> length s" and "cw_host w q = Some t" and "unat (cs_bytes st) \<le> length t"
  shows "\<exists>r w'. cuda_replay (ref_api gpu) (Some st) bufs rd latency w = Some (success r, w')"
proof -
  obtain src dst where lay: "cuda_layout st" and ok: "buffers_ok st (vw_mem (cw_rt w))"
    and e: "vw_execs (cw_rt w) (cs_exec st) = Some (chain_nodes st src dst)"
    using assms(1) by (auto simp: cuda_ready_def cuda_view.defs)
  then have ids: "distinct (node_ids st)" and k: "cs_kernels st \<noteq> []" by (auto simp: cuda_layout_def)
  let ?ns = "chain_nodes st (HostP p) (HostP q)" and ?b = "unat (cs_bytes st)"
  let ?w1 = "w\<lparr>cw_rt := (cw_rt w)\<lparr>vw_execs := (vw_execs (cw_rt w))(cs_exec st \<mapsto> chain_nodes st (HostP p) dst)\<rparr>\<rparr>"
  let ?w2 = "w\<lparr>cw_rt := (cw_rt w)\<lparr>vw_execs := (vw_execs (cw_rt w))(cs_exec st \<mapsto> ?ns)\<rparr>\<rparr>"
  have b1: "bind_h2d (ref_api gpu) st (HostP p) w = (True, ?w1)" by (rule ref_bind [OF e ids]) simp
  have b2: "bind_d2h (ref_api gpu) st (HostP q) ?w1 = (True, ?w2)" using ref_bind(2) [of ?w1 st "HostP p" dst "HostP q"] ids by simp
  from chain_runs [where ts = "\<lambda>k xs. xs", OF lay assms(2) _ ok assms(5-8), of gpu]
  obtain d tail where run: "run_graph gpu (\<lambda>k xs. xs) ?ns (cw_host w, vw_mem (cw_rt w)) = Some ((cw_host w)(q \<mapsto>
      lanes (chain_lane gpu st (length (cs_kernels st))) s (elements st) @ tail @ drop ?b t), d)" and tail: "length tail = ?b mod 4"
    by auto
  then have l: "launch_and_wait (ref_api gpu) st ?w2 = (success (), ?w2\<lparr>cw_host := (cw_host w)(q \<mapsto>
      lanes (chain_lane gpu st (length (cs_kernels st))) s (elements st) @ tail @ drop ?b t), cw_rt := (cw_rt ?w2)\<lparr>vw_mem := d\<rparr>\<rparr>)"
    using chain_launch_order [OF k] by (simp add: launch_and_wait_def ref_api_def ref_launch_def)
  have "4 * elements st + length tail = ?b" using tail by (simp add: elements_def)
  then show ?thesis using assms(3,4) by (simp add: cuda_replay_def b1 b2 l read_mem_def Let_def)
qed

section \<open>Example states\<close>

text \<open>Integers stand for floats; the kernel adds three to one lane.\<close>

definition cuda_example_floats :: float_ops where
  "cuda_example_floats = \<lparr>fl_mul = (*), fl_add = (+), fl_of_f64 = ucast, fl_of_i64 = ucast\<rparr>"

definition cuda_example_gpu :: gpu_ops where
  "cuda_example_gpu = \<lparr>gpu_mul = (*), gpu_add = (+), gpu_muladd = \<lambda>x b a. x * b + a\<rparr>"

definition cuda_example_node :: "u64 \<Rightarrow> u64 \<Rightarrow> GraphNodeDescriptor" where
  "cuda_example_node i bytes = (example_node i)\<lparr>n_kernel := KernelIdentityRef_default\<lparr>k_name := ''addscalar''\<rparr>,
     n_scalar := ScalarSpecialization_default\<lparr>sc_float := 3\<rparr>, n_memory_bytes := bytes\<rparr>"

definition cuda_example_graph :: "u64 \<Rightarrow> GraphDescriptor" where
  "cuda_example_graph bytes = GraphDescriptor_default\<lparr>g_nodes := [cuda_example_node 1 bytes]\<rparr>"

definition cuda_example_world :: "nat \<Rightarrow> ref_state cuda_world" where
  "cuda_example_world budget = \<lparr>cw_host = [0 \<mapsto> [1, 0, 0, 0], 1 \<mapsto> [0, 0, 0, 0]], cw_brk = 10,
     cw_rt = \<lparr>vw_streams = {}, vw_graphs = Map.empty, vw_execs = Map.empty, vw_mem = Map.empty, rr_next = 1, rr_budget = budget\<rparr>\<rparr>"

definition cuda_example_buffers :: ReplayBuffers where
  "cuda_example_buffers = \<lparr>rb_inputs = [0], rb_outputs = [1], rb_input_bytes = [4], rb_output_bytes = [4]\<rparr>"

lemma cuda_example_kernels: "cuda_kernels (cuda_example_graph b) = [cuda_example_node 1 b]"
  by (simp add: cuda_kernels_def cuda_example_graph_def cuda_example_node_def example_node_def GraphNodeDescriptor_default_def)

lemma cuda_example_bytes: "cuda_bytes (cuda_example_graph b) = (if b = 0 then 64 else b)"
  by (simp add: cuda_bytes_def cuda_example_kernels cuda_example_node_def word_gt_0 Let_def)

lemma malloc_two: "malloc_buffers api 2 = malloc_buffers api (Suc (Suc 0))" "malloc_buffers api (Suc 0 + 1) = malloc_buffers api (Suc (Suc 0))"
  by (simp_all only: numeral_2_eq_2 One_nat_def add_Suc_right add_0_right)

lemmas cuda_eval = malloc_two cuda_capture_def cuda_build_def cu_bind_def cu_call_def ref_api_def ref_create_def ref_add_node_def
  host_vector_def cuda_state_def cuda_example_kernels cuda_example_bytes cuda_example_world_def release_vectors_def

lemma cuda_example_captured:
  "\<exists>st w. cuda_capture (ref_api cuda_example_gpu) cuda_example_floats (cuda_example_graph 4) (cuda_example_world 20) = (success (Some st), w)
     \<and> cw_host w 0 = Some [1, 0, 0, 0] \<and> cw_host w 1 = Some [0, 0, 0, 0]"
  by (simp add: cuda_eval Let_def)

definition cuda_example_rebind :: RebindSpec where
  "cuda_example_rebind = \<lparr>rs_updates = [\<lparr>ru_role = RR_InputBuffer, ru_address = None\<rparr>], rs_geometry = None\<rparr>"

definition cuda_example_replay :: ReplayDescriptor where
  "cuda_example_replay = \<lparr>rd_attempt = ReplayAttemptId 1, rd_timestamp_ms = 0, rd_expected_replays = 1, rd_reason = []\<rparr>"

lemma cuda_example_replays:
  "\<exists>st w1 w r w'. cuda_capture (ref_api cuda_example_gpu) cuda_example_floats (cuda_example_graph 4) (cuda_example_world 20)
       = (success (Some st), w1)
     \<and> cuda_uses (ref_api cuda_example_gpu) (cuda_example_graph 4) st [CU_rebind cuda_example_rebind] w1 = Some w
     \<and> cw_host w 0 = Some [1, 0, 0, 0] \<and> cw_host w 1 = Some [0, 0, 0, 0]
     \<and> cuda_replay (ref_api cuda_example_gpu) (Some st) cuda_example_buffers cuda_example_replay 0 w = Some (success r, w')"
proof -
  obtain st w1 where c: "cuda_capture (ref_api cuda_example_gpu) cuda_example_floats (cuda_example_graph 4) (cuda_example_world 20)
       = (success (Some st), w1)" and h1: "cw_host w1 0 = Some [1, 0, 0, 0]" "cw_host w1 1 = Some [0, 0, 0, 0]"
    using cuda_example_captured by blast
  obtain w where u: "cuda_uses (ref_api cuda_example_gpu) (cuda_example_graph 4) st [CU_rebind cuda_example_rebind] w1 = Some w"
    and h: "cw_host w = cw_host w1"
    by (auto simp: cuda_rebind_def cuda_example_rebind_def bind_h2d_def split: prod.splits)
  note hold = ref.capture_holds [OF c]
  from ref.uses_hold [OF hold(1) u] have "cuda_ready st (cuda_view.truncate (cw_rt w))" by (simp add: cuda_holds_def)
  from ref_replays [OF this, of cuda_example_buffers 0 "[]" 1 "[]"] h h1 hold(2) c u show ?thesis
    by (simp add: elements_def cuda_example_bytes cuda_example_buffers_def)
qed

section \<open>Properties\<close>

text \<open>
  C27: A replay on the CUDA backend computes the graph's kernels. On any runtime that behaves as documented,
  whatever happened to a captured graph since its capture (validations, replays, rebinds to any address,
  failed or not, and writes of the caller to host memory), a replay that reports success has written to the
  first output buffer, for every float of the first input buffer, the result of all kernels of the
  descriptor applied one after the other in the order of the nodes, whatever order the threads ran in, for
  graphs of less than \<open>2 ^ 33\<close> bytes (the backend keeps the number of floats in an
  \<open>int\<close>); the bytes past the graph's bytes and all other host buffers are unchanged, and the
  digest is the SHA-256 of what was written. When the graph's bytes are no multiple of four, the last bytes
  are those the device buffer happened to hold.
\<close>

theorem cuda_replay_correct:
  assumes "cuda_runtime api view gpu" and "cuda_capture api fl desc w0 = (success (Some st), w1)"
    and "cuda_uses api desc st us w1 = Some w" and "rb_inputs bufs = p # ps" and "rb_outputs bufs = q # qs"
    and "cw_host w p = Some s" and "unat (cuda_bytes desc) \<le> length s"
    and "cw_host w q = Some t" and "unat (cuda_bytes desc) \<le> length t" and "unat (cuda_bytes desc) < 2 ^ 33"
    and "cuda_replay api (Some st) bufs rd latency w = Some (success r, w')"
  shows "\<exists>tail. length tail = unat (cuda_bytes desc) mod 4
     \<and> cw_host w' = (cw_host w)(q \<mapsto> lanes (descriptor_lane gpu fl desc) s (unat (cuda_bytes desc) div 4) @ tail
          @ drop (unat (cuda_bytes desc)) t)
     \<and> gr_digest r = sha256_spec (lanes (descriptor_lane gpu fl desc) s (unat (cuda_bytes desc) div 4) @ tail)
     \<and> gr_replayed_nodes r = word_of_nat (length (cuda_kernels desc) + 2)"
proof -
  note c = cuda_runtime.capture_holds [OF assms(1,2)]
  have "cuda_ready st (view (cw_rt w))"
    using cuda_runtime.uses_hold [OF assms(1) c(1) assms(3)] by (simp add: cuda_holds_def)
  from cuda_runtime.replay_computes [OF assms(1,11) this _ assms(4-6) _ assms(8)] assms(7,9,10) c(2,3,4)
  show ?thesis by (simp add: elements_def)
qed

theorem cuda_replay_correct_witness:
  "\<exists>st w1 w r w'. cuda_capture (ref_api cuda_example_gpu) cuda_example_floats (cuda_example_graph 4) (cuda_example_world 20)
       = (success (Some st), w1)
     \<and> cuda_uses (ref_api cuda_example_gpu) (cuda_example_graph 4) st [CU_rebind cuda_example_rebind] w1 = Some w
     \<and> cuda_replay (ref_api cuda_example_gpu) (Some st) cuda_example_buffers cuda_example_replay 0 w = Some (success r, w')
     \<and> cw_host w' 1 = Some [4, 0, 0, 0] \<and> gr_digest r = sha256_spec [4, 0, 0, 0] \<and> gr_replayed_nodes r = 3"
proof -
  obtain st w1 w r w' where ex: "cuda_capture (ref_api cuda_example_gpu) cuda_example_floats (cuda_example_graph 4) (cuda_example_world 20)
       = (success (Some st), w1)"
    "cuda_uses (ref_api cuda_example_gpu) (cuda_example_graph 4) st [CU_rebind cuda_example_rebind] w1 = Some w"
    "cw_host w 0 = Some [1, 0, 0, 0]" "cw_host w 1 = Some [0, 0, 0, 0]"
    "cuda_replay (ref_api cuda_example_gpu) (Some st) cuda_example_buffers cuda_example_replay 0 w = Some (success r, w')"
    using cuda_example_replays by blast
  have "descriptor_lane cuda_example_gpu cuda_example_floats (cuda_example_graph 4) = (\<lambda>x. x + 3)"
    by (rule ext) (simp add: descriptor_lane_def cuda_example_kernels cuda_example_node_def op_code_def gpu_lane_def
        cuda_example_gpu_def cuda_example_floats_def)
  then have "lanes (descriptor_lane cuda_example_gpu cuda_example_floats (cuda_example_graph 4)) [1, 0, 0, 0] 1 = [4, 0, 0, 0]"
    by (simp add: lanes_def le_loop_def le_bytes_def upt_rec)
  with cuda_replay_correct [OF ref.cuda_runtime_axioms ex(1,2) _ _ ex(3) _ ex(4) _ _ ex(5)] ex show ?thesis
    by (auto simp: cuda_example_buffers_def cuda_example_bytes cuda_example_kernels)
qed

text \<open>
  C28: The CUDA backend gives back what it takes. On any runtime that behaves as documented, when a graph was
  captured and used in any way and is then unloaded, the live streams, graphs, instantiated graphs and
  device buffers are exactly those from before the capture, and the handle is null.
\<close>

theorem cuda_unload_releases:
  assumes "cuda_runtime api view gpu" and "cuda_capture api fl desc w0 = (success (Some st), w1)"
    and "cuda_uses api desc st us w1 = Some w" and "cuda_unload api desc (Some st) w = (x, exec, w')"
  shows "exec = None \<and> resources (view (cw_rt w')) = resources (view (cw_rt w0))"
proof -
  note h = cuda_runtime.uses_hold [OF assms(1) cuda_runtime.capture_holds(1) [OF assms(1,2)] assms(3)]
  show ?thesis using assms(4) cuda_runtime.free_releases [OF assms(1) h]
    by (auto simp: cuda_unload_def release_vectors_def)
qed

theorem cuda_unload_releases_witness:
  "\<exists>st w1 w w' x. cuda_capture (ref_api cuda_example_gpu) cuda_example_floats (cuda_example_graph 4) (cuda_example_world 20)
       = (success (Some st), w1)
     \<and> cuda_uses (ref_api cuda_example_gpu) (cuda_example_graph 4) st [CU_rebind cuda_example_rebind] w1 = Some w
     \<and> cuda_unload (ref_api cuda_example_gpu) (cuda_example_graph 4) (Some st) w = (x, None, w')
     \<and> resources (cuda_view.truncate (cw_rt w')) = ({}, {}, {}, {})"
proof -
  obtain st w1 w r w2 where ex: "cuda_capture (ref_api cuda_example_gpu) cuda_example_floats (cuda_example_graph 4) (cuda_example_world 20)
       = (success (Some st), w1)"
    "cuda_uses (ref_api cuda_example_gpu) (cuda_example_graph 4) st [CU_rebind cuda_example_rebind] w1 = Some w"
    using cuda_example_replays by blast
  obtain x exec w' where u: "cuda_unload (ref_api cuda_example_gpu) (cuda_example_graph 4) (Some st) w = (x, exec, w')"
    by (metis prod_cases3)
  from cuda_unload_releases [OF ref.cuda_runtime_axioms ex u] ex u show ?thesis
    by (auto simp: resources_def cuda_example_world_def cuda_view.defs)
qed

section \<open>Agreement with the CPU backend\<close>

definition same_arithmetic :: "gpu_ops \<Rightarrow> float_ops \<Rightarrow> bool" where
  "same_arithmetic gpu fl \<longleftrightarrow> gpu_mul gpu = fl_mul fl \<and> gpu_add gpu = fl_add fl
     \<and> gpu_muladd gpu = (\<lambda>x b a. fl_add fl (fl_mul fl x b) a)"

lemma gpu_lane_cpu: "same_arithmetic gpu fl \<Longrightarrow> gpu_lane gpu (op_code (k_name (n_kernel n))) a b x = kernel_lane fl (classify_kernel n) a b x"
  by (simp add: same_arithmetic_def gpu_lane_def op_code_def kernel_lane_def classify_kernel_def Let_def)

definition node_lane :: "float_ops \<Rightarrow> GraphNodeDescriptor \<Rightarrow> f32 \<Rightarrow> f32" where
  "node_lane fl n = kernel_lane fl (classify_kernel n) (fl_of_f64 fl (sc_float (n_scalar n))) (fl_of_i64 fl (sc_int (n_scalar n)))"

lemma descriptor_lane_cpu: "same_arithmetic gpu fl \<Longrightarrow> descriptor_lane gpu fl desc = fold (node_lane fl) (cuda_kernels desc)"
  unfolding descriptor_lane_def by (rule ext, rule fold_cong) (auto simp: gpu_lane_cpu node_lane_def)

text \<open>A kernel node on the first buffers, of a whole number of floats.\<close>

definition first_buffers_kernel :: "u64 \<Rightarrow> GraphNodeDescriptor \<Rightarrow> bool" where
  "first_buffers_kernel b n \<longleftrightarrow> n_category n = NC_Kernel \<and> n_memory_bytes n = b \<and> b \<noteq> 0 \<and> unat b mod 4 = 0 \<and> unat b < 2 ^ 33
     \<and> (n_inputs n = [] \<or> hd (n_inputs n) = 0) \<and> (n_outputs n = [] \<or> hd (n_outputs n) = 0)"

lemma kernel_effect:
  assumes "first_buffers_kernel b n" and "rb_inputs bufs = p # ps" and "rb_outputs bufs = q # qs"
    and "mem p = Some s" and "unat b \<le> length s" and "mem q = Some t" and "unat b \<le> length t"
  shows "node_fits bufs mem (cpu_node n)"
    and "node_effect fl bufs (cpu_node n) mem = (mem(q \<mapsto> lanes (node_lane fl n) s (unat b div 4) @ drop (unat b) t),
       lanes (node_lane fl n) s (unat b div 4))"
proof -
  have "4 * (unat b div 4) = unat b" using assms(1) by (auto simp: first_buffers_kernel_def)
  then show "node_fits bufs mem (cpu_node n)"
    and "node_effect fl bufs (cpu_node n) mem = (mem(q \<mapsto> lanes (node_lane fl n) s (unat b div 4) @ drop (unat b) t),
       lanes (node_lane fl n) s (unat b div 4))"
    using assms
    by (auto simp: node_fits_def holds_def cpu_node_def first_buffers_kernel_def node_effect_def Let_def node_lane_def)
qed

lemma cuda_bytes_all:
  assumes "\<forall>n \<in> set (g_nodes desc). first_buffers_kernel b n" and "g_nodes desc \<noteq> []"
  shows "cuda_bytes desc = b" and "cuda_kernels desc = g_nodes desc"
proof -
  show k: "cuda_kernels desc = g_nodes desc" using assms(1) by (simp add: cuda_kernels_def first_buffers_kernel_def)
  have "foldl (\<lambda>b n. if n_memory_bytes n > b then n_memory_bytes n else b) a ns = (if ns = [] then a else b)"
    if "\<forall>n \<in> set ns. n_memory_bytes n = b" "a = 0 \<or> a = b" for a ns
    using that by (induction ns arbitrary: a) (auto simp: word_gt_0)
  from this [of "g_nodes desc" 0] assms show "cuda_bytes desc = b"
    by (auto simp: cuda_bytes_def k first_buffers_kernel_def Let_def neq_Nil_conv)
qed

text \<open>
  C29: The CUDA backend agrees with the CPU backend on a graph of one kernel. When the device's arithmetic
  is the host's (no contraction of \<open>x * b + a\<close>) and the kernel reads the first input, writes
  the first output and has a whole number of floats of less than \<open>2 ^ 33\<close> bytes, a successful
  CUDA replay leaves host memory and digest exactly as the CPU backend's replay of the same descriptor does,
  which succeeds too.
\<close>

theorem cuda_agrees_with_cpu:
  assumes "cuda_runtime api view gpu" and "same_arithmetic gpu fl"
    and "cuda_capture api fl desc w0 = (success (Some st), w1)" and "cuda_uses api desc st us w1 = Some w"
    and "g_nodes desc = [n]" and "first_buffers_kernel b n" and "rb_inputs bufs = p # ps" and "rb_outputs bufs = q # qs"
    and "cw_host w p = Some s" and "unat b \<le> length s" and "cw_host w q = Some t" and "unat b \<le> length t"
    and "cuda_replay api (Some st) bufs rd latency w = Some (success r, w')"
    and "\<And>xs. mset (ord xs) = mset xs" and "cpu_capture ord desc = success (Some g)"
  shows "\<exists>r'. cpu_replay fl (Some g) bufs rd (cw_host w) = Some (success r', cw_host w') \<and> gr_digest r' = gr_digest r"
proof -
  have "\<forall>n \<in> set (g_nodes desc). first_buffers_kernel b n" "g_nodes desc \<noteq> []" using assms(5,6) by auto
  note bytes = cuda_bytes_all [OF this]
  note c = cuda_runtime.capture_holds [OF assms(1,3)]
  have "cuda_ready st (view (cw_rt w))"
    using cuda_runtime.uses_hold [OF assms(1) c(1) assms(4)] by (simp add: cuda_holds_def)
  from cuda_runtime.replay_computes [OF assms(1,13) this _ assms(7,8,9) _ assms(11)] assms(6,10,12) c(2,4) bytes
  have cuda: "cw_host w' = (cw_host w)(q \<mapsto> lanes (node_lane fl n) s (unat b div 4) @ drop (unat b) t)"
    "gr_digest r = sha256_spec (lanes (node_lane fl n) s (unat b div 4))"
    by (auto simp: elements_def first_buffers_kernel_def descriptor_lane_cpu [OF assms(2)] assms(5))
  note e = kernel_effect(1) [OF assms(6-12)] kernel_effect(2) [where fl = fl, OF assms(6-12)]
  from cpu_replay_run [OF assms(14,15), of bufs "cw_host w" fl rd] e(1) assms(5) obtain ns where
    "mset ns = {#cpu_node n#}" "cpu_replay fl (Some g) bufs rd (cw_host w) = Some (success \<lparr>gr_ok = True, gr_attempt = ra_value (rd_attempt rd),
          gr_replayed_nodes = word_of_nat (length (filter active ns)),
          gr_digest = sha256_spec (snd (run_nodes fl bufs ns (cw_host w))),
          gr_digest_hex = sha_hex (sha256_spec (snd (run_nodes fl bufs ns (cw_host w)))), gr_latency_us = 0\<rparr>,
          fst (run_nodes fl bufs ns (cw_host w)))" by auto
  with e(2) cuda show ?thesis by (auto simp: mset_single_iff)
qed

lemma cuda_example_cpu: "\<exists>g. cpu_capture id (cuda_example_graph 4) = success (Some g)"
proof -
  let ?d = "cuda_example_graph 4"
  have "topology_ok (g_nodes ?d) (g_edges ?d)"
    by (simp add: topology_ok_def topology_shape_def edge_pairs_def cuda_example_graph_def GraphDescriptor_default_def
        cuda_example_node_def example_simps wf_acyclic)
  then have "validate_graph id ?d = success ()" using validate_graph_iff [of id ?d] by simp
  then show ?thesis by (simp add: cpu_capture_def Let_def)
qed

theorem cuda_agrees_with_cpu_witness:
  "\<exists>st w1 w r w' g r'. cuda_capture (ref_api cuda_example_gpu) cuda_example_floats (cuda_example_graph 4) (cuda_example_world 20)
       = (success (Some st), w1)
     \<and> cuda_uses (ref_api cuda_example_gpu) (cuda_example_graph 4) st [CU_rebind cuda_example_rebind] w1 = Some w
     \<and> cuda_replay (ref_api cuda_example_gpu) (Some st) cuda_example_buffers cuda_example_replay 0 w = Some (success r, w')
     \<and> cpu_capture id (cuda_example_graph 4) = success (Some g)
     \<and> cpu_replay cuda_example_floats (Some g) cuda_example_buffers cuda_example_replay (cw_host w) = Some (success r', cw_host w')
     \<and> gr_digest r' = gr_digest r"
proof -
  obtain st w1 w r w' where ex: "cuda_capture (ref_api cuda_example_gpu) cuda_example_floats (cuda_example_graph 4) (cuda_example_world 20)
       = (success (Some st), w1)"
    "cuda_uses (ref_api cuda_example_gpu) (cuda_example_graph 4) st [CU_rebind cuda_example_rebind] w1 = Some w"
    "cw_host w 0 = Some [1, 0, 0, 0]" "cw_host w 1 = Some [0, 0, 0, 0]"
    "cuda_replay (ref_api cuda_example_gpu) (Some st) cuda_example_buffers cuda_example_replay 0 w = Some (success r, w')"
    using cuda_example_replays by blast
  obtain g where g: "cpu_capture id (cuda_example_graph 4) = success (Some g)" using cuda_example_cpu by blast
  have arith: "same_arithmetic cuda_example_gpu cuda_example_floats"
    by (simp add: same_arithmetic_def cuda_example_gpu_def cuda_example_floats_def)
  have n: "g_nodes (cuda_example_graph 4) = [cuda_example_node 1 4]" by (simp add: cuda_example_graph_def)
  have k: "first_buffers_kernel 4 (cuda_example_node 1 4)"
    by (simp add: first_buffers_kernel_def cuda_example_node_def example_simps)
  from cuda_agrees_with_cpu [OF ref.cuda_runtime_axioms arith ex(1,2) n k _ _ ex(3) _ ex(4) _ ex(5) _ g] ex g show ?thesis
    by (auto simp: cuda_example_buffers_def)
qed

section \<open>Where the backend falls short\<close>

lemma fold_same: "(\<And>x. x \<in> set xs \<Longrightarrow> g x = f) \<Longrightarrow> fold g xs = f ^^ length xs"
  by (induction xs) (simp_all add: funpow_Suc_right del: funpow.simps(2))

text \<open>A kernel that does not write what it reads can be repeated without effect.\<close>

lemma run_same_kernels:
  assumes "\<And>c. c \<in> set cs \<Longrightarrow> \<exists>n. c = cpu_node n \<and> first_buffers_kernel b n \<and> node_lane fl n = f"
    and "rb_inputs bufs = p # ps" and "rb_outputs bufs = q # qs" and "p \<noteq> q"
    and "mem p = Some s" and "unat b \<le> length s" and "mem q = Some t" and "unat b \<le> length t" and "cs \<noteq> []"
  shows "fst (run_nodes fl bufs cs mem) q = Some (lanes f s (unat b div 4) @ drop (unat b) t)"
  using assms(1,5,7,8,9)
proof (induction cs arbitrary: mem t)
  case (Cons c cs)
  obtain n where n: "c = cpu_node n" "first_buffers_kernel b n" "node_lane fl n = f" using Cons.prems(1) [of c] by auto
  let ?out = "lanes f s (unat b div 4) @ drop (unat b) t" and ?m = "mem(q \<mapsto> lanes f s (unat b div 4) @ drop (unat b) t)"
  have b: "4 * (unat b div 4) = unat b" using n(2) by (auto simp: first_buffers_kernel_def)
  have e: "node_effect fl bufs c mem = (?m, lanes f s (unat b div 4))"
    using kernel_effect(2) [OF n(2) assms(2,3) Cons.prems(2) assms(6) Cons.prems(3,4)] n by simp
  show ?case
  proof (cases "cs = []")
    case False
    have m: "?m p = Some s" "?m q = Some ?out" "unat b \<le> length ?out" using assms(4) Cons.prems(2) b by auto
    have "fst (run_nodes fl bufs cs ?m) q = Some (lanes f s (unat b div 4) @ drop (unat b) ?out)"
      by (rule Cons.IH [OF _ m False]) (use Cons.prems(1) in auto)
    then show ?thesis using b by (cases "run_nodes fl bufs cs ?m") (simp add: e)
  qed (simp add: e)
qed simp

text \<open>
  On several kernels the two backends compute different things from one descriptor. When one kernel occurs
  several times, each time from the first input to the first output, the CUDA backend feeds each result into the
  next (whatever buffers and edges the descriptor names), while on the CPU backend all of them read the
  input: the CPU leaves the kernel applied once, CUDA the kernel applied as often as it occurs.
\<close>

theorem cuda_chains_kernels:
  assumes "cuda_runtime api view gpu" and "same_arithmetic gpu fl"
    and "cuda_capture api fl desc w0 = (success (Some st), w1)"
    and "\<forall>n \<in> set (g_nodes desc). first_buffers_kernel b n \<and> node_lane fl n = f" and "g_nodes desc \<noteq> []"
    and "rb_inputs bufs = p # ps" and "rb_outputs bufs = q # qs" and "p \<noteq> q"
    and "cw_host w1 p = Some s" and "unat b \<le> length s" and "cw_host w1 q = Some t" and "unat b \<le> length t"
    and "cuda_replay api (Some st) bufs rd latency w1 = Some (success r, w')"
    and "\<And>xs. mset (ord xs) = mset xs" and "cpu_capture ord desc = success (Some g)"
  shows "cw_host w' q = Some (lanes (f ^^ length (g_nodes desc)) s (unat b div 4) @ drop (unat b) t)
     \<and> (\<exists>r' mem. cpu_replay fl (Some g) bufs rd (cw_host w1) = Some (success r', mem)
          \<and> mem q = Some (lanes f s (unat b div 4) @ drop (unat b) t))"
proof -
  have k: "\<forall>n \<in> set (g_nodes desc). first_buffers_kernel b n" using assms(4) by auto
  then have b: "unat b mod 4 = 0" "unat b < 2 ^ 33" using assms(5) by (auto simp: first_buffers_kernel_def neq_Nil_conv)
  note bytes = cuda_bytes_all [OF k assms(5)]
  note c = cuda_runtime.capture_holds [OF assms(1,3)]
  then have "cuda_ready st (view (cw_rt w1))" by (simp add: cuda_holds_def)
  moreover have "descriptor_lane gpu fl desc = f ^^ length (g_nodes desc)"
    using assms(4) by (simp add: descriptor_lane_cpu [OF assms(2)] bytes fold_same)
  ultimately have cuda: "cw_host w' q = Some (lanes (f ^^ length (g_nodes desc)) s (unat b div 4) @ drop (unat b) t)"
    using cuda_runtime.replay_computes [OF assms(1,13) _ _ assms(6,7,9) _ assms(11)] assms(10,12) c(2,4) bytes b
    by (auto simp: elements_def)
  have "list_all (\<lambda>n. node_fits bufs (cw_host w1) (cpu_node n)) (g_nodes desc)"
    using kernel_effect(1) [OF _ assms(6,7,9-12)] k by (simp add: list_all_iff)
  from cpu_replay_run [OF assms(14,15) this, of fl rd] obtain cs r' where
    cs: "mset cs = mset (map cpu_node (g_nodes desc))"
    and run: "cpu_replay fl (Some g) bufs rd (cw_host w1) = Some (success r', fst (run_nodes fl bufs cs (cw_host w1)))" by auto
  have "set cs = cpu_node ` set (g_nodes desc)" "cs \<noteq> []" using mset_eq_setD [OF cs] assms(5) cs by auto
  with run_same_kernels [of cs b fl f bufs p ps q qs "cw_host w1" s t] assms(4,6-12) run cuda show ?thesis by auto
qed

definition cuda_example_pair :: GraphDescriptor where
  "cuda_example_pair = GraphDescriptor_default\<lparr>g_nodes := [cuda_example_node 1 4, cuda_example_node 2 4]\<rparr>"

lemma cuda_pair_kernels: "cuda_kernels cuda_example_pair = [cuda_example_node 1 4, cuda_example_node 2 4]"
  by (simp add: cuda_kernels_def cuda_example_pair_def cuda_example_node_def example_node_def GraphNodeDescriptor_default_def)

lemma cuda_pair_bytes: "cuda_bytes cuda_example_pair = 4"
  by (simp add: cuda_bytes_def cuda_pair_kernels cuda_example_node_def Let_def)

lemma pair_loops: "malloc_buffers api 3 = malloc_buffers api (Suc (Suc (Suc 0)))" "add_kernels api i 2 = add_kernels api i (Suc (Suc 0))"
  by (simp_all only: numeral_2_eq_2 numeral_3_eq_3)

lemma cuda_pair_captured:
  "\<exists>st w. cuda_capture (ref_api cuda_example_gpu) cuda_example_floats cuda_example_pair (cuda_example_world 20) = (success (Some st), w)
     \<and> cw_host w 0 = Some [1, 0, 0, 0] \<and> cw_host w 1 = Some [0, 0, 0, 0]"
  by (simp add: cuda_eval cuda_pair_kernels cuda_pair_bytes pair_loops Let_def)

theorem cuda_chains_kernels_witness:
  "\<exists>st w1 r w' g r' mem. cuda_capture (ref_api cuda_example_gpu) cuda_example_floats cuda_example_pair (cuda_example_world 20)
       = (success (Some st), w1)
     \<and> cuda_replay (ref_api cuda_example_gpu) (Some st) cuda_example_buffers cuda_example_replay 0 w1 = Some (success r, w')
     \<and> cpu_capture id cuda_example_pair = success (Some g)
     \<and> cpu_replay cuda_example_floats (Some g) cuda_example_buffers cuda_example_replay (cw_host w1) = Some (success r', mem)
     \<and> cw_host w' 1 = Some [7, 0, 0, 0] \<and> mem 1 = Some [4, 0, 0, 0]"
proof -
  obtain st w1 where c: "cuda_capture (ref_api cuda_example_gpu) cuda_example_floats cuda_example_pair (cuda_example_world 20)
       = (success (Some st), w1)" and h: "cw_host w1 0 = Some [1, 0, 0, 0]" "cw_host w1 1 = Some [0, 0, 0, 0]"
    using cuda_pair_captured by blast
  note hold = ref.capture_holds [OF c]
  then have "cuda_ready st (cuda_view.truncate (cw_rt w1))" by (simp add: cuda_holds_def)
  from ref_replays [OF this, of cuda_example_buffers 0 "[]" 1 "[]" "[1, 0, 0, 0]" "[0, 0, 0, 0]" cuda_example_gpu cuda_example_replay 0] h hold(2) obtain r w' where
    r: "cuda_replay (ref_api cuda_example_gpu) (Some st) cuda_example_buffers cuda_example_replay 0 w1 = Some (success r, w')"
    by (auto simp: elements_def cuda_pair_bytes cuda_example_buffers_def)
  have "topology_ok (g_nodes cuda_example_pair) (g_edges cuda_example_pair)"
    by (simp add: topology_ok_def topology_shape_def edge_pairs_def cuda_example_pair_def GraphDescriptor_default_def
        cuda_example_node_def example_simps wf_acyclic)
  then have "validate_graph id cuda_example_pair = success ()" using validate_graph_iff [of id cuda_example_pair] by simp
  then obtain g where g: "cpu_capture id cuda_example_pair = success (Some g)" by (simp add: cpu_capture_def Let_def)
  have arith: "same_arithmetic cuda_example_gpu cuda_example_floats"
    by (simp add: same_arithmetic_def cuda_example_gpu_def cuda_example_floats_def)
  have k: "\<forall>n \<in> set (g_nodes cuda_example_pair). first_buffers_kernel 4 n \<and> node_lane cuda_example_floats n = (\<lambda>x. x + 3)"
    by (auto simp: cuda_example_pair_def first_buffers_kernel_def cuda_example_node_def example_simps node_lane_def
        kernel_lane_def classify_kernel_def cuda_example_floats_def)
  have "(\<lambda>x :: f32. x + 3) ^^ length (g_nodes cuda_example_pair) = (\<lambda>x. x + 6)"
    by (rule ext) (simp add: cuda_example_pair_def)
  moreover have "lanes (\<lambda>x. x + 3) [1, 0, 0, 0] 1 = [4, 0, 0, 0]" "lanes (\<lambda>x. x + 6) [1, 0, 0, 0] 1 = [7, 0, 0, 0]"
    by (simp_all add: lanes_def le_loop_def le_bytes_def upt_rec)
  moreover have "g_nodes cuda_example_pair \<noteq> []" by (simp add: cuda_example_pair_def)
  moreover have "rb_inputs cuda_example_buffers = [0]" "rb_outputs cuda_example_buffers = [1]"
    by (simp_all add: cuda_example_buffers_def)
  ultimately show ?thesis
    using cuda_chains_kernels [OF ref.cuda_runtime_axioms arith c k _ _ _ _ h(1) _ h(2) _ r _ g] c r g by simp
qed

text \<open>
  A capture that fails leaves device resources behind. When the second device buffer cannot be allocated, the
  capture reports it, and the stream and the first buffer it had created stay live with no handle left
  to free them.
\<close>

theorem cuda_failed_capture_leaks:
  "case cuda_capture (ref_api gpu) fl (cuda_example_graph 4) (cuda_example_world 2) of (x, w) \<Rightarrow>
     x = failure EC_OutOfMemory ''cudaMalloc failed''
     \<and> resources (cuda_view.truncate (cw_rt (cuda_example_world 2))) = ({}, {}, {}, {})
     \<and> resources (cuda_view.truncate (cw_rt w)) = ({1}, {}, {}, {2})"
  by (simp add: cuda_eval Let_def resources_def cuda_view.defs)

text \<open>
  A graph whose bytes are no multiple of four reads past its own input. The staging vector the capture makes
  holds only whole floats, the copy to the device takes all bytes: with five bytes the capture succeeds, and validating it
  runs a copy of five bytes out of a vector of four, which the reference runtime refuses.
\<close>

theorem cuda_unaligned_overread:
  "case cuda_capture (ref_api gpu) fl (cuda_example_graph 5) (cuda_example_world 20) of (x, w) \<Rightarrow>
     (\<exists>st v. x = success (Some st) \<and> cs_bytes st = 5 \<and> cw_host w (cs_h_in st) = Some v \<and> length v = 4
        \<and> fst (cuda_validate (ref_api gpu) (cuda_example_graph 5) (Some st) w) = failure EC_Internal ''cudaGraphLaunch failed'')"
  by (simp add: cuda_eval Let_def fill_pattern_def cuda_validate_def launch_and_wait_def ref_launch_def run_node_def run_memcpy_def
      copy_bytes_def make_1d_def)

end
