(* ===== verification/GC_Sockets.thy ===== *)
theory GC_Sockets
  imports GC_Protocol
begin

text \<open>
  Opening and closing connections: the TCP helpers of \<open>src/protocol.cpp\<close> over the socket calls of the
  operating system.

  The socket layer is the parameter \<open>api\<close> over a state \<open>'s\<close>: a call answers whether it succeeded, a handle
  of which \<open>INVALID_SOCKET\<close> (all bits set) reports failure, or the address list \<open>getaddrinfo\<close> found. The
  flag \<open>done\<close> of \<open>winsock_init\<close> is part of the state. What the helpers rely on is the locale
  \<open>socket_layer\<close>: which sockets are open and which address lists are allocated after each call.
\<close>

record 's socket_api =
  WSAStartup :: "'s \<Rightarrow> 's"
  sk_socket :: "'s \<Rightarrow> u64 \<times> 's"
  sk_setsockopt :: "u64 \<Rightarrow> 's \<Rightarrow> 's"
  sk_bind :: "u64 \<Rightarrow> u16 \<Rightarrow> 's \<Rightarrow> bool \<times> 's"
  sk_listen :: "u64 \<Rightarrow> 's \<Rightarrow> bool \<times> 's"
  sk_accept :: "u64 \<Rightarrow> 's \<Rightarrow> u64 \<times> 's"
  sk_getaddrinfo :: "string \<Rightarrow> string \<Rightarrow> 's \<Rightarrow> nat option \<times> 's"
  sk_connect :: "u64 \<Rightarrow> nat \<Rightarrow> 's \<Rightarrow> bool \<times> 's"
  sk_freeaddrinfo :: "nat \<Rightarrow> 's \<Rightarrow> 's"
  sk_closesocket :: "u64 \<Rightarrow> 's \<Rightarrow> 's"

record 's net_state =
  net_started :: bool
  net_os :: 's

record TcpSocket =
  tcp_handle :: i64

definition TcpSocket_valid :: "TcpSocket \<Rightarrow> bool" where
  "TcpSocket_valid t \<longleftrightarrow> tcp_handle t \<noteq> -1"

definition htons :: "u16 \<Rightarrow> u16" where
  "htons p = push_bit 8 p OR drop_bit 8 p"

definition winsock_init :: "'s socket_api \<Rightarrow> 's net_state \<Rightarrow> 's net_state" where
  "winsock_init api n =
     (if \<not> net_started n then n\<lparr>net_os := WSAStartup api (net_os n), net_started := True\<rparr> else n)"

definition tcp_listen :: "'s socket_api \<Rightarrow> u16 \<Rightarrow> 's net_state \<Rightarrow> TcpSocket Result \<times> 's net_state" where
  "tcp_listen api port n =
     (let n = winsock_init api n; (s, os) = sk_socket api (net_os n) in
      if s = -1 then (failure EC_ProtocolIoError ''socket failed'', n\<lparr>net_os := os\<rparr>)
      else let os = sk_setsockopt api s os in
      case sk_bind api s (htons port) os of
        (False, os) \<Rightarrow> (failure EC_ProtocolIoError ''bind failed'', n\<lparr>net_os := sk_closesocket api s os\<rparr>)
      | (True, os) \<Rightarrow> (case sk_listen api s os of
          (False, os) \<Rightarrow> (failure EC_ProtocolIoError ''listen failed'', n\<lparr>net_os := sk_closesocket api s os\<rparr>)
        | (True, os) \<Rightarrow> (success \<lparr>tcp_handle = s\<rparr>, n\<lparr>net_os := os\<rparr>)))"

definition tcp_accept :: "'s socket_api \<Rightarrow> TcpSocket \<Rightarrow> 's net_state \<Rightarrow> TcpSocket Result \<times> 's net_state" where
  "tcp_accept api listener n =
     (let (s, os) = sk_accept api (tcp_handle listener) (net_os n) in
      if s = -1 then (failure EC_ProtocolIoError ''accept failed'', n\<lparr>net_os := os\<rparr>)
      else (success \<lparr>tcp_handle = s\<rparr>, n\<lparr>net_os := os\<rparr>))"

definition tcp_connect :: "'s socket_api \<Rightarrow> string \<Rightarrow> u16 \<Rightarrow> 's net_state \<Rightarrow> TcpSocket Result \<times> 's net_state" where
  "tcp_connect api host port n =
     (let n = winsock_init api n; (s, os) = sk_socket api (net_os n) in
      if s = -1 then (failure EC_ProtocolIoError ''socket failed'', n\<lparr>net_os := os\<rparr>)
      else case sk_getaddrinfo api host (dec_string (unat port)) os of
        (None, os) \<Rightarrow> (failure EC_ProtocolIoError ''getaddrinfo failed'', n\<lparr>net_os := sk_closesocket api s os\<rparr>)
      | (Some res, os) \<Rightarrow>
          let (rc, os) = sk_connect api s res os; os = sk_freeaddrinfo api res os in
          if \<not> rc then (failure EC_ProtocolIoError ''connect failed'', n\<lparr>net_os := sk_closesocket api s os\<rparr>)
          else (success \<lparr>tcp_handle = s\<rparr>, n\<lparr>net_os := os\<rparr>))"

definition tcp_close :: "'s socket_api \<Rightarrow> TcpSocket \<Rightarrow> 's net_state \<Rightarrow> unit Result \<times> 's net_state" where
  "tcp_close api t n =
     (success (), if tcp_handle t \<noteq> -1 then n\<lparr>net_os := sk_closesocket api (tcp_handle t) (net_os n)\<rparr> else n)"

section \<open>No socket is lost\<close>

text \<open>The view of the layer: the open sockets and the allocated address lists.\<close>

locale socket_layer =
  fixes api :: "'s socket_api" and view :: "'s \<Rightarrow> u64 set \<times> nat set"
  assumes startup: "view (WSAStartup api os) = view os"
    and new_socket: "sk_socket api os = (h, os') \<Longrightarrow> h = -1 \<and> view os' = view os
      \<or> h \<noteq> -1 \<and> h \<notin> fst (view os) \<and> view os' = (insert h (fst (view os)), snd (view os))"
    and setsockopt: "view (sk_setsockopt api h os) = view os"
    and bind: "view (snd (sk_bind api h p os)) = view os"
    and listen: "view (snd (sk_listen api h os)) = view os"
    and accept: "sk_accept api l os = (h, os') \<Longrightarrow> h = -1 \<and> view os' = view os
      \<or> h \<noteq> -1 \<and> h \<notin> fst (view os) \<and> view os' = (insert h (fst (view os)), snd (view os))"
    and getaddrinfo: "sk_getaddrinfo api host srv os = (res, os') \<Longrightarrow> (case res of None \<Rightarrow> view os' = view os
      | Some a \<Rightarrow> a \<notin> snd (view os) \<and> view os' = (fst (view os), insert a (snd (view os))))"
    and connect: "view (snd (sk_connect api h a os)) = view os"
    and freeaddrinfo: "view (sk_freeaddrinfo api a os) = (fst (view os), snd (view os) - {a})"
    and closesocket: "view (sk_closesocket api h os) = (fst (view os) - {h}, snd (view os))"

text \<open>An attempt to get a socket from a state.\<close>

definition tcp_opens :: "('s \<Rightarrow> u64 set \<times> nat set) \<Rightarrow> 's net_state \<Rightarrow> TcpSocket Result \<times> 's net_state \<Rightarrow> bool" where
  "tcp_opens view n res \<longleftrightarrow> (let v = view (net_os n); v' = view (net_os (snd res)) in
     case fst res of
       Inl _ \<Rightarrow> v' = v
     | Inr t \<Rightarrow> TcpSocket_valid t \<and> tcp_handle t \<notin> fst v \<and> v' = (insert (tcp_handle t) (fst v), snd v))"

context socket_layer
begin

lemma init_view: "view (net_os (winsock_init api n)) = view (net_os n)"
  by (simp add: winsock_init_def startup)

lemma listen_opens: "tcp_opens view n (tcp_listen api port n)"
proof -
  let ?n = "winsock_init api n"
  obtain s os where s: "sk_socket api (net_os ?n) = (s, os)" by fastforce
  let ?os = "sk_setsockopt api s os"
  obtain b os1 where b: "sk_bind api s (htons port) ?os = (b, os1)" by fastforce
  obtain l os2 where l: "sk_listen api s os1 = (l, os2)" by fastforce
  show ?thesis
    using new_socket [OF s] setsockopt [of s os] bind [of s "htons port" ?os] listen [of s os1] init_view [of n]
    by (auto simp: tcp_listen_def s b l Let_def tcp_opens_def TcpSocket_valid_def closesocket split: bool.splits)
qed

lemma accept_opens: "tcp_opens view n (tcp_accept api t n)"
  using accept by (auto simp: tcp_accept_def tcp_opens_def TcpSocket_valid_def Let_def split: prod.splits)

lemma connect_opens: "tcp_opens view n (tcp_connect api host port n)"
proof -
  let ?n = "winsock_init api n"
  obtain s os where s: "sk_socket api (net_os ?n) = (s, os)" by fastforce
  obtain res os1 where a: "sk_getaddrinfo api host (dec_string (unat port)) os = (res, os1)" by fastforce
  obtain c os2 where c: "sk_connect api s (the res) os1 = (c, os2)" by fastforce
  have eq: "tcp_connect api host port n = (if s = -1 then (failure EC_ProtocolIoError ''socket failed'', ?n\<lparr>net_os := os\<rparr>)
      else case res of None \<Rightarrow> (failure EC_ProtocolIoError ''getaddrinfo failed'', ?n\<lparr>net_os := sk_closesocket api s os1\<rparr>)
        | Some i \<Rightarrow> let os = sk_freeaddrinfo api i os2 in
            if \<not> c then (failure EC_ProtocolIoError ''connect failed'', ?n\<lparr>net_os := sk_closesocket api s os\<rparr>)
            else (success \<lparr>tcp_handle = s\<rparr>, ?n\<lparr>net_os := os\<rparr>))"
    unfolding tcp_connect_def Let_def s prod.case a using c by (cases res) (simp_all add: Let_def)
  show ?thesis
    using new_socket [OF s] getaddrinfo [OF a] connect [of s "the res" os1] c init_view [of n]
    by (cases res) (auto simp: eq Let_def tcp_opens_def TcpSocket_valid_def closesocket freeaddrinfo)
qed

end

text \<open>
  C32: The TCP helpers lose no socket. On any socket layer that behaves as documented, listening, accepting and
  connecting either report an error and leave the open sockets and the address lists as they were,
  whichever of the calls failed, or return a valid socket that was not open before and is the only
  one that is open in addition; closing a valid socket closes exactly that one.
\<close>

theorem tcp_sockets_balanced:
  assumes "socket_layer api view"
  shows "tcp_opens view n (tcp_listen api port n) \<and> tcp_opens view n (tcp_accept api t n)
     \<and> tcp_opens view n (tcp_connect api host port n)
     \<and> view (net_os (snd (tcp_close api t n))) = (if TcpSocket_valid t
         then (fst (view (net_os n)) - {tcp_handle t}, snd (view (net_os n))) else view (net_os n))"
  using socket_layer.listen_opens [OF assms] socket_layer.accept_opens [OF assms] socket_layer.connect_opens [OF assms]
    socket_layer.closesocket [OF assms] by (simp add: tcp_close_def TcpSocket_valid_def)

text \<open>A layer that hands out consecutive handles; \<open>rn_up\<close> says whether a connection is accepted.\<close>

record ref_net =
  rn_open :: "u64 set"
  rn_lists :: "nat set"
  rn_next :: u64
  rn_up :: bool

definition ref_socket :: "ref_net \<Rightarrow> u64 \<times> ref_net" where
  "ref_socket os = (if rn_next os = -1 \<or> rn_next os \<in> rn_open os then (-1, os)
     else (rn_next os, os\<lparr>rn_open := insert (rn_next os) (rn_open os), rn_next := rn_next os + 1\<rparr>))"

definition ref_sockets :: "ref_net socket_api" where
  "ref_sockets = \<lparr>WSAStartup = \<lambda>os. os, sk_socket = ref_socket, sk_setsockopt = \<lambda>h os. os, sk_bind = \<lambda>h p os. (True, os),
     sk_listen = \<lambda>h os. (True, os), sk_accept = \<lambda>l. ref_socket,
     sk_getaddrinfo = \<lambda>host srv os. if 0 \<in> rn_lists os then (None, os) else (Some 0, os\<lparr>rn_lists := insert 0 (rn_lists os)\<rparr>),
     sk_connect = \<lambda>h a os. (rn_up os, os), sk_freeaddrinfo = \<lambda>a os. os\<lparr>rn_lists := rn_lists os - {a}\<rparr>,
     sk_closesocket = \<lambda>h os. os\<lparr>rn_open := rn_open os - {h}\<rparr>\<rparr>"

definition ref_view :: "ref_net \<Rightarrow> u64 set \<times> nat set" where
  "ref_view os = (rn_open os, rn_lists os)"

interpretation ref_net: socket_layer ref_sockets ref_view
  by unfold_locales (auto simp: ref_sockets_def ref_view_def ref_socket_def split: if_splits)

theorem tcp_sockets_balanced_witness:
  "\<exists>n'. tcp_connect ref_sockets ''127.0.0.1'' 41000 \<lparr>net_started = False,
       net_os = \<lparr>rn_open = {5}, rn_lists = {}, rn_next = 6, rn_up = False\<rparr>\<rparr> = (failure EC_ProtocolIoError ''connect failed'', n')
     \<and> ref_view (net_os n') = ({5}, {})"
proof -
  let ?n = "\<lparr>net_started = False, net_os = \<lparr>rn_open = {5}, rn_lists = {}, rn_next = 6, rn_up = False\<rparr>\<rparr>"
  have r: "fst (tcp_connect ref_sockets ''127.0.0.1'' 41000 ?n) = failure EC_ProtocolIoError ''connect failed''"
    by (simp add: tcp_connect_def winsock_init_def ref_sockets_def ref_socket_def)
  moreover from tcp_sockets_balanced [where n = ?n and host = "''127.0.0.1''" and port = 41000, OF ref_net.socket_layer_axioms] r
  have "ref_view (net_os (snd (tcp_connect ref_sockets ''127.0.0.1'' 41000 ?n))) = ({5}, {})"
    by (simp add: tcp_opens_def Let_def ref_view_def)
  ultimately show ?thesis by (metis prod.collapse)
qed

end
