(* ===== verification/GC_Chain.thy ===== *)
theory GC_Chain
  imports GC_Worker
begin

text \<open>
  Graphs of two nodes joined by an edge, such as the sample programs capture: a copy of the input to the output
  followed by a kernel that scales the input into the output. What the CPU backend makes of them is worked out
  once for all of them.
\<close>

section \<open>Order\<close>

definition chain_graph :: "GraphDescriptor \<Rightarrow> GraphNodeDescriptor \<Rightarrow> GraphNodeDescriptor \<Rightarrow> bool" where
  "chain_graph d c k \<longleftrightarrow> g_nodes d = [c, k] \<and> n_id c = GraphNodeId 1 1 \<and> n_id k = GraphNodeId 2 2
     \<and> edge_pairs (g_edges d) = [(GraphNodeId 1 1, GraphNodeId 2 2)]"

lemma chain_topology: "chain_graph d c k \<Longrightarrow> topology_ok (g_nodes d) (g_edges d)"
  by (auto simp: chain_graph_def topology_ok_def topology_shape_def edge_pairs_def acyclic_insert wf_acyclic)

lemma chain_edge: "chain_graph d c k \<Longrightarrow> \<exists>e. g_edges d = [e] \<and> e_from e = GraphNodeId 1 1 \<and> e_to e = GraphNodeId 2 2"
  by (auto simp: chain_graph_def edge_pairs_def)

lemma chain_finalized: "chain_graph d c k \<Longrightarrow> chain_graph (finalized d) c k"
  using chain_edge [of d c k] by (auto simp: chain_graph_def finalized_fields edge_pairs_def less_eq_GraphNodeId_def)

lemma chain_captures:
  assumes ord: "\<And>xs. mset (ord xs) = mset xs" and ch: "chain_graph d c k"
  shows "finalize ord d = success (finalized d)" and "\<exists>g. cpu_capture ord (finalized d) = success (Some g)"
proof -
  have "validate_graph ord d = success ()" using chain_topology [OF ch] validate_graph_iff [OF ord] by simp
  then show "finalize ord d = success (finalized d)" by (simp add: finalize_eq)
  show "\<exists>g. cpu_capture ord (finalized d) = success (Some g)"
    using chain_topology [OF chain_finalized [OF ch]] validate_graph_iff [OF ord, of "finalized d"]
    by (simp add: cpu_capture_def Let_def)
qed

lemma chain_order:
  assumes ord: "\<And>xs. mset (ord xs) = mset xs" and ch: "chain_graph d c k" and "cpu_capture ord d = success (Some g)"
  shows "cpu_order g = [GraphNodeId 1 1, GraphNodeId 2 2]"
proof -
  let ?V = "{GraphNodeId 1 1, GraphNodeId 2 2}"
  note top = cpu_capture_success(1) [OF ord assms(3)]
  have ids: "n_id ` set (g_nodes d) = ?V" using ch by (simp add: chain_graph_def)
  have vs: "distinct (cpu_order g)" "set (cpu_order g) = ?V" "least_topo ?V (g_edges d) (cpu_order g)"
    using cpu_capture_order [OF ord top] ids cpu_capture_success(2) [OF ord assms(3)] by simp_all
  then have "length (cpu_order g) = card ?V" by (metis distinct_card)
  then have "length (cpu_order g) = 2" by simp
  moreover have "least_topo ?V (g_edges d) [GraphNodeId 1 1, GraphNodeId 2 2]"
    using chain_edge [OF ch] by (auto simp: least_topo_def ready_after_def less_Suc_eq)
  ultimately show ?thesis using least_topo_unique [OF vs(3)] by simp
qed

lemma chain_sequence:
  assumes "chain_graph d c k" and "mset ns = mset (map cpu_node (g_nodes d))" and "map cn_id ns = [GraphNodeId 1 1, GraphNodeId 2 2]"
  shows "ns = [cpu_node c, cpu_node k]"
proof -
  obtain a b where ns: "ns = [a, b]" "cn_id a = GraphNodeId 1 1" "cn_id b = GraphNodeId 2 2" using assms(3) by auto
  have "set ns = {cpu_node c, cpu_node k}" using mset_eq_setD [OF assms(2)] assms(1) by (simp add: chain_graph_def)
  moreover have "cn_id (cpu_node c) = GraphNodeId 1 1" "cn_id (cpu_node k) = GraphNodeId 2 2"
    using assms(1) by (simp_all add: chain_graph_def cpu_node_def)
  ultimately show ?thesis using ns by (auto simp: doubleton_eq_iff)
qed

section \<open>Copy, then scale\<close>

lemma lanes_float_bytes: "lanes f (float_bytes xs) (length xs) = float_bytes (map f xs)"
proof -
  have "le_loop 4 (float_bytes xs) (4 * i) = xs ! i" if "i < length xs" for i
  proof -
    have "floats_of (float_bytes xs) ! i = le_loop 4 (float_bytes xs) (4 * i)" using that by (simp add: floats_of_def)
    then show ?thesis by (simp add: floats_of_float_bytes)
  qed
  then have "map (\<lambda>i. le_bytes 4 (f (le_loop 4 (float_bytes xs) (4 * i)))) [0..<length xs] = map (\<lambda>i. le_bytes 4 (f (xs ! i))) [0..<length xs]"
    by simp
  also have "\<dots> = map (\<lambda>x. le_bytes 4 (f x)) xs" by (rule nth_equalityI) simp_all
  finally show ?thesis by (simp add: lanes_def float_bytes_def comp_def)
qed

text \<open>A copy of at most \<open>n\<close> floats from the first input to the first output, and a scaling of all of them.\<close>

definition copy_scale :: "nat \<Rightarrow> GraphNodeDescriptor \<Rightarrow> GraphNodeDescriptor \<Rightarrow> bool" where
  "copy_scale n c k \<longleftrightarrow> n_category c = NC_MemoryCopy \<and> n_inputs c = [0] \<and> n_outputs c = [0] \<and> unat (n_memory_bytes c) \<le> 4 * n
     \<and> n_category k = NC_Kernel \<and> n_inputs k = [0] \<and> n_outputs k = [0] \<and> unat (n_memory_bytes k) = 4 * n
     \<and> k_name (n_kernel k) = ''scale''"

lemma copy_scale_nodes:
  assumes "copy_scale n c k"
  shows "cn_category (cpu_node c) = NC_MemoryCopy" "cn_src (cpu_node c) = 0" "cn_dst (cpu_node c) = 0"
    "unat (cn_bytes (cpu_node c)) \<le> 4 * n" "cn_category (cpu_node k) = NC_Kernel" "cn_src (cpu_node k) = 0"
    "cn_dst (cpu_node k) = 0" "unat (cn_bytes (cpu_node k)) = 4 * n" "cn_kernel (cpu_node k) = CK_Scale"
    "cn_scalar (cpu_node k) = n_scalar k"
  using assms by (simp_all add: copy_scale_def cpu_node_def classify_kernel_def)

lemma copy_scale_fits:
  assumes "copy_scale (length xs) c k"
  shows "node_fits (replay_buffers xs) (replay_memory xs) (cpu_node c)" "node_fits (replay_buffers xs) (replay_memory xs) (cpu_node k)"
  by (simp_all add: node_fits_def copy_scale_nodes [OF assms] holds_def replay_buffers_def replay_memory_def)

lemma copy_scale_run:
  assumes "copy_scale (length xs) c k"
  shows "fst (run_nodes fl (replay_buffers xs) [cpu_node c, cpu_node k] (replay_memory xs)) 1
     = Some (float_bytes (map (\<lambda>x. fl_mul fl x (fl_of_f64 fl (sc_float (n_scalar k)))) xs))"
proof -
  let ?a = "fl_of_f64 fl (sc_float (n_scalar k))"
  have "kernel_lane fl CK_Scale ?a b = (\<lambda>x. fl_mul fl x ?a)" for b by (rule ext) (simp add: kernel_lane_def)
  moreover have "drop (4 * length xs) (take m (float_bytes xs) @ drop m (float_bytes (replicate (length xs) 0))) = []"
    if "m \<le> 4 * length xs" for m using that by simp
  ultimately show ?thesis
    using lanes_float_bytes [of "\<lambda>x. fl_mul fl x ?a" xs] copy_scale_nodes(4) [OF assms]
    by (simp add: node_effect_def copy_scale_nodes [OF assms] replay_buffers_def replay_memory_def Let_def)
qed

text \<open>The whole replay: the output buffer holds the scaled input.\<close>

lemma chain_replay:
  assumes ord: "\<And>xs. mset (ord xs) = mset xs" and ch: "chain_graph d c k" and cap: "cpu_capture ord d = success (Some g)"
    and cs: "copy_scale (length xs) c k"
  shows "\<exists>r mem. cpu_replay fl (Some g) (replay_buffers xs) rd (replay_memory xs) = Some (success r, mem)
     \<and> mem 1 = Some (float_bytes (map (\<lambda>x. fl_mul fl x (fl_of_f64 fl (sc_float (n_scalar k)))) xs))"
proof -
  have "list_all (\<lambda>n. node_fits (replay_buffers xs) (replay_memory xs) (cpu_node n)) (g_nodes d)"
    using ch copy_scale_fits [OF cs] by (simp add: chain_graph_def)
  from cpu_replay_run [OF ord cap this, of fl rd] obtain ns where ns: "mset ns = mset (map cpu_node (g_nodes d))"
    "map cn_id ns = cpu_order g"
    and r: "\<exists>r. cpu_replay fl (Some g) (replay_buffers xs) rd (replay_memory xs)
        = Some (success r, fst (run_nodes fl (replay_buffers xs) ns (replay_memory xs)))" by auto
  have "ns = [cpu_node c, cpu_node k]"
    by (rule chain_sequence [OF ch ns(1)]) (simp add: ns(2) chain_order [OF ord ch cap])
  with r copy_scale_run [OF cs, of fl] show ?thesis by auto
qed

end
