(* ===== verification/GC_SampleClient.thy ===== *)
theory GC_SampleClient
  imports GC_Distributed GC_Chain
begin

text \<open>
  The program of \<open>examples/distributed_client.cpp\<close>: it greets the coordinator, looks a graph up and replays it,
  and exits with 0 when the answer is what the graph computes. The client's side of the connection is the
  parameter \<open>ask\<close>: the answer to a message, or none when sending or receiving fails. Whether the processes
  could be started and the connection made are parameters too; \<open>far x\<close> is \<open>fabs(x - 2.0f) > 1e-4f\<close>. Composed
  with the coordinator and a worker it succeeds.
\<close>

definition client_workload :: WorkloadIdentity where
  "client_workload = WorkloadIdentity_default\<lparr>wl_name := ''distributed'', wl_version := 1\<rparr>"

definition client_input :: "f32 list" where
  "client_input = replicate 16 0x3f800000"

definition client_session :: "float_ops \<Rightarrow> (f32 \<Rightarrow> f64) \<Rightarrow> (f32 \<Rightarrow> bool) \<Rightarrow> ('s \<Rightarrow> ProtocolMessage \<Rightarrow> ProtocolMessage option \<times> 's)
    \<Rightarrow> 's \<Rightarrow> nat \<times> 's" where
  "client_session fl to_f64 far ask w =
     (case ask w client_hello of
        (None, w) \<Rightarrow> (1, w)
      | (Some wel, w) \<Rightarrow>
        if pm_status wel \<noteq> PS_Ok then (1, w) else
        case ask w (client_lookup (make_desc 64) client_workload) of
          (None, w) \<Rightarrow> (1, w)
        | (Some res, w) \<Rightarrow>
          if pm_type res \<noteq> PT_LookupResult \<or> pm_status res \<noteq> PS_Ok then (1, w) else
          case decode_artifact res of
            None \<Rightarrow> (1, w)
          | Some hex \<Rightarrow>
            (case ask w (client_replay to_f64 (pm_graph_gen res) hex client_input) of
               (None, w) \<Rightarrow> (1, w)
             | (Some repres, w) \<Rightarrow>
               if pm_type repres \<noteq> PT_ReplayResult \<or> pm_status repres \<noteq> PS_Ok then (1, w) else
               case decode_output fl repres of
                 None \<Rightarrow> (1, w)
               | Some out \<Rightarrow> (if length out = length client_input \<and> \<not> list_ex far out then 0 else 1, w)))"

definition client_main :: "float_ops \<Rightarrow> (f32 \<Rightarrow> f64) \<Rightarrow> (f32 \<Rightarrow> bool) \<Rightarrow> ('s \<Rightarrow> ProtocolMessage \<Rightarrow> ProtocolMessage option \<times> 's)
    \<Rightarrow> bool \<Rightarrow> bool \<Rightarrow> bool \<Rightarrow> bool \<Rightarrow> 's \<Rightarrow> nat \<times> 's" where
  "client_main fl to_f64 far ask coord w1 w2 conn w =
     (if \<not> coord then (2, w)
      else if \<not> w1 \<or> \<not> w2 then (2, w)
      else if \<not> conn then (2, w)
      else client_session fl to_f64 far ask w)"

text \<open>
  The other end: the coordinator handles the client's message, the worker on socket \<open>t\<close> what is sent to it, and
  the coordinator the worker's report; the answer is the message sent to the client's socket \<open>s\<close>.
\<close>

definition system_ask :: "'x graph_backend_ops \<Rightarrow> (GraphNodeId list \<Rightarrow> GraphNodeId list) \<Rightarrow> float_ops \<Rightarrow> (f32 \<Rightarrow> f64) \<Rightarrow> i64 \<Rightarrow> i64
    \<Rightarrow> State \<times> 'x WorkerState \<Rightarrow> ProtocolMessage \<Rightarrow> ProtocolMessage option \<times> State \<times> 'x WorkerState" where
  "system_ask B ord fl to_f64 s t w m = (case w of (st, ws) \<Rightarrow>
     case co_apply st (CI_Message s m) of
       ([(d, out)], st) \<Rightarrow>
         if d = s then (Some out, st, ws)
         else if d \<noteq> t then (None, st, ws)
         else (case worker_handle B ord fl to_f64 out ws of
             Some ([r], ws) \<Rightarrow> (case co_apply st (CI_Message t r) of
                 ([(d, answer)], st) \<Rightarrow> (if d = s then Some answer else None, st, ws)
               | (_, st) \<Rightarrow> (None, st, ws))
           | _ \<Rightarrow> (None, st, ws))
     | (_, st) \<Rightarrow> (None, st, ws))"

section \<open>The sample graph\<close>

lemma make_desc_nodes:
  "map n_id (g_nodes (make_desc b)) = [GraphNodeId 1 1, GraphNodeId 2 2]"
  "edge_pairs (g_edges (make_desc b)) = [(GraphNodeId 1 1, GraphNodeId 2 2)]"
  by (simp_all add: make_desc_def Let_def edge_pairs_def)

definition sample_copy :: "u64 \<Rightarrow> GraphNodeDescriptor" where
  "sample_copy b = hd (g_nodes (make_desc b))"

definition sample_scale :: "u64 \<Rightarrow> GraphNodeDescriptor" where
  "sample_scale b = g_nodes (make_desc b) ! 1"

lemma sample_nodes: "g_nodes (make_desc b) = [sample_copy b, sample_scale b]"
  by (simp add: sample_copy_def sample_scale_def make_desc_def Let_def)

lemmas sample_simps = make_desc_def GraphDescriptor_default_def GraphNodeDescriptor_default_def GraphEdgeDescriptor_default_def
  BackendIdentity_default_def DeviceDescriptor_default_def RuntimeDescriptor_default_def SynchronizationDescriptor_default_def
  ProvenanceDescriptor_default_def KernelIdentityRef_default_def LaunchGeometry_default_def ShapeDescriptor_default_def
  ScalarSpecialization_default_def QuantizationConfig_default_def BindingDescriptor_default_def

lemma sample_nodes_ok: "ser_node_ok (sample_copy 64)" "ser_node_ok (sample_scale 64)"
  by (simp_all add: sample_copy_def sample_scale_def sample_simps Let_def ser_node_ok_def node_encodable_def fits32_def)

lemma sample_nodes_length: "length (ser_encode_node (sample_copy 64)) < 2 ^ 16" "length (ser_encode_node (sample_scale 64)) < 2 ^ 16"
  by (simp_all add: sample_copy_def sample_scale_def sample_simps Let_def ser_encode_node_def put_is_field)

lemma make_desc_ok: "descriptor_ok (make_desc 64)"
proof -
  have "list_all (\<lambda>e. edge_encodable e \<and> fits32 (ser_encode_edge e)) (g_edges (make_desc 64))"
    by (simp add: sample_simps Let_def edge_encodable_def fits32_def ser_encode_edge_def put_is_field)
  moreover have "list_all (\<lambda>d. dep_ok d \<and> fits32 (ser_encode_dep d)) (g_dependencies (make_desc 64))"
    by (simp add: sample_simps Let_def dep_ok_def fits32_def ser_encode_dep_def put_is_field)
  moreover have "backend_ok (g_backend (make_desc 64))" "device_ok (g_device (make_desc 64))"
    "CaptureMode_named (sy_capture_mode (g_sync (make_desc 64)))" "StreamSemantics_named (sy_stream_semantics (g_sync (make_desc 64)))"
    "provenance_ok (g_provenance (make_desc 64))"
    by (simp_all add: sample_simps Let_def backend_ok_def device_ok_def provenance_ok_def fits32_def)
  moreover have "length (g_edges (make_desc 64)) = 1" "length (g_dependencies (make_desc 64)) = 1"
    by (simp_all add: make_desc_def Let_def)
  ultimately show ?thesis
    using sample_nodes_ok sample_nodes_length by (simp add: descriptor_ok_def sample_nodes fits32_def)
qed

lemma make_desc_fits: "fits32 (serialize_descriptor (make_desc 64))"
proof -
  have "length (concat (map (\<lambda>n. put_bytes GK_NODE (ser_encode_node n)) (g_nodes (make_desc 64)))) < 2 ^ 18"
    using sample_nodes_length by (simp add: sample_nodes put_is_field)
  moreover have "length (concat (map (\<lambda>e. put_bytes GK_EDGE (ser_encode_edge e)) (g_edges (make_desc 64)))) < 2 ^ 16"
    "length (concat (map (\<lambda>d. put_bytes GK_DEP (ser_encode_dep d)) (g_dependencies (make_desc 64)))) < 2 ^ 16"
    by (simp_all add: sample_simps Let_def ser_encode_edge_def ser_encode_dep_def put_is_field)
  moreover have "length (bk_name (g_backend (make_desc 64))) < 10" "length (bk_impl (g_backend (make_desc 64))) < 10"
    "length (dev_arch (g_device (make_desc 64))) < 10" "length (dev_name (g_device (make_desc 64))) < 10"
    "length (pv_source (g_provenance (make_desc 64))) < 10" "length (pv_toolchain (g_provenance (make_desc 64))) < 10"
    "length (pv_graph_name (g_provenance (make_desc 64))) < 10"
    by (simp_all add: sample_simps Let_def)
  ultimately show ?thesis by (simp add: fits32_def serialize_descriptor_def put_is_field)
qed

lemma sample_wire_ok: "wire_ok (make_desc 64) client_workload"
  using make_desc_ok make_desc_fits
  by (simp add: wire_ok_def client_workload_def WorkloadIdentity_default_def fits32_def)

definition sample_final :: GraphDescriptor where
  "sample_final = finalized (descriptor_view (make_desc 64))"

lemma sample_final_nodes:
  "g_nodes sample_final = [node_view (sample_copy 64), node_view (sample_scale 64)]"
  "g_edges sample_final = g_edges (make_desc 64)"
proof -
  have "n_id (sample_copy 64) = GraphNodeId 1 1" "n_id (sample_scale 64) = GraphNodeId 2 2"
    using make_desc_nodes(1) [of 64] by (simp_all add: sample_nodes)
  then show "g_nodes sample_final = [node_view (sample_copy 64), node_view (sample_scale 64)]"
    by (simp add: sample_final_def finalized_fields descriptor_view_def sample_nodes node_view_def less_eq_GraphNodeId_def)
  show "g_edges sample_final = g_edges (make_desc 64)"
    by (simp add: sample_final_def finalized_fields descriptor_view_def make_desc_def Let_def)
qed

lemma sample_chain: "chain_graph (descriptor_view (make_desc 64)) (node_view (sample_copy 64)) (node_view (sample_scale 64))"
  using make_desc_nodes [of 64] by (simp add: chain_graph_def descriptor_view_def sample_nodes node_view_def)

lemma sample_finalizes:
  assumes "\<And>xs. mset (ord xs) = mset xs"
  shows "finalize ord (descriptor_view (make_desc 64)) = success sample_final"
    and "\<exists>g. cpu_capture ord sample_final = success (Some g)"
  using chain_captures [OF assms sample_chain] by (simp_all add: sample_final_def)

section \<open>What it computes\<close>

definition sample_factor :: "float_ops \<Rightarrow> f32 \<Rightarrow> f32" where
  "sample_factor fl x = fl_mul fl x (fl_of_f64 fl 0x4000000000000000)"

lemma sample_copy_scale: "copy_scale 16 (node_view (sample_copy 64)) (node_view (sample_scale 64))"
  "sc_float (n_scalar (node_view (sample_scale 64))) = 0x4000000000000000"
  by (simp_all add: copy_scale_def sample_copy_def sample_scale_def make_desc_def Let_def node_view_def GraphNodeDescriptor_default_def)

lemma sample_fits:
  assumes "length ys = 16"
  shows "list_all (\<lambda>n. node_fits (replay_buffers ys) (replay_memory ys) (cpu_node n)) (g_nodes sample_final)"
  using copy_scale_fits [of ys] sample_copy_scale(1) assms by (simp add: sample_final_nodes)

section \<open>The whole run\<close>

lemma hello_welcomed:
  "\<exists>wel. co_apply st (CI_Message s client_hello) = ([(s, wel)], st) \<and> pm_status wel = PS_Ok"
  by (simp add: co_apply_def handle_message_def handle_hello_def client_hello_def is_stale_epoch_def ProtocolMessage_default_def
      CoordinatorEpoch_valid_def send_status_def Let_def)

lemma client_messages_authorised:
  assumes "co_epoch st = CoordinatorEpoch 1" and "co_cache_gen st = CacheGeneration 1"
  shows "authorised st (client_lookup desc wl)" and "authorised st (client_replay to_f64 gen hex inp)"
  using assms by (simp_all add: authorised_def is_stale_epoch_def is_stale_cache_gen_def is_stale_boot_def client_lookup_def
      client_replay_def ProtocolMessage_default_def WorkerId_valid_def)

lemma ask_direct: "co_apply st (CI_Message s m) = ([(s, a)], st') \<Longrightarrow> system_ask B ord fl to_f64 s t (st, ws) m = (Some a, st', ws)"
  by (simp add: system_ask_def)

lemma ask_worker:
  "co_apply st (CI_Message s m) = ([(t, i)], st1) \<Longrightarrow> worker_handle B ord fl to_f64 i ws = Some ([r], ws1)
   \<Longrightarrow> co_apply st1 (CI_Message t r) = ([(s, a)], st2) \<Longrightarrow> s \<noteq> t
   \<Longrightarrow> system_ask B ord fl to_f64 s t (st, ws) m = (Some a, st2, ws1)"
  by (simp add: system_ask_def)

lemma sample_replay:
  fixes fl to_f64
  defines "conv \<equiv> \<lambda>v. fl_of_f64 fl (to_f64 v)"
  assumes ord: "\<And>xs. mset (ord xs) = mset xs" and g: "cpu_capture ord sample_final = success (Some g)"
    and "offers st ws sample_final (Some g) gen" and "on_duty st ws t" and "s \<noteq> t"
    and "co_epoch st = CoordinatorEpoch 1" and "co_cache_gen st = CacheGeneration 1"
  shows "\<exists>rep st'. system_ask (cpu_backend fl ord) ord fl to_f64 s t (st, ws)
       (client_replay to_f64 gen (GraphArtifactId_to_string (g_artifact sample_final)) client_input) = (Some rep, st', ws)
     \<and> pm_type rep = PT_ReplayResult \<and> pm_status rep = PS_Ok
     \<and> decode_output fl rep = Some (replicate 16 (conv (sample_factor fl (conv 0x3f800000))))"
proof -
  let ?m = "client_replay to_f64 gen (GraphArtifactId_to_string (g_artifact sample_final)) client_input"
  let ?ys = "map (\<lambda>v. fl_of_f64 fl (to_f64 v)) client_input"
  have m: "pm_type ?m = PT_ReplayInstruct" "pm_graph_gen ?m = gen"
    "pm_payload ?m = encode_replay to_f64 (GraphArtifactId_to_string (g_artifact sample_final)) client_input"
    by (simp_all add: client_replay_def)
  have len: "length client_input \<le> 2 ^ 20" "length ?ys = 16" by (simp_all add: client_input_def)
  from replay_end_to_end [OF ord g assms(4,5) m(1) client_messages_authorised(2) [OF assms(7,8)] _ m(3) len(1) sample_fits [OF len(2)], of s] m(2)
  obtain ri r rep st1 st2 ns out where steps: "co_apply st (CI_Message s ?m) = ([(t, ri)], st1)"
      "worker_handle (cpu_backend fl ord) ord fl to_f64 ri ws = Some ([r], ws)" "co_apply st1 (CI_Message t r) = ([(s, rep)], st2)"
    and rep: "pm_type rep = PT_ReplayResult" "pm_status rep = PS_Ok"
    and ns: "mset ns = mset (map cpu_node (g_nodes sample_final))" "map cn_id ns = cpu_order g"
    and out: "fst (run_nodes fl (replay_buffers ?ys) ns (replay_memory ?ys)) 1 = Some out"
    and dec: "decode_output fl rep = Some (map (\<lambda>v. fl_of_f64 fl (to_f64 v)) (floats_of out))" by auto
  note ch = chain_finalized [OF sample_chain, folded sample_final_def]
  have seq: "ns = [cpu_node (node_view (sample_copy 64)), cpu_node (node_view (sample_scale 64))]"
    by (rule chain_sequence [OF ch ns(1)]) (simp add: ns(2) chain_order [OF ord ch g])
  have cs: "copy_scale (length ?ys) (node_view (sample_copy 64)) (node_view (sample_scale 64))"
    using sample_copy_scale(1) len(2) by simp
  have "(\<lambda>x. fl_mul fl x (fl_of_f64 fl 0x4000000000000000)) = sample_factor fl" by (rule ext) (simp add: sample_factor_def)
  with copy_scale_run [OF cs, of fl] out have "out = float_bytes (map (sample_factor fl) ?ys)"
    unfolding seq sample_copy_scale(2) by (simp only: option.inject)
  then have "floats_of out = map (sample_factor fl) ?ys" by (simp add: floats_of_float_bytes)
  with dec have "decode_output fl rep = Some (replicate 16 (conv (sample_factor fl (conv 0x3f800000))))"
    by (simp add: client_input_def conv_def)
  with ask_worker [OF steps assms(6)] rep show ?thesis by blast
qed

text \<open>
  C6: The sample program succeeds. Run against a coordinator in its first epoch and cache generation, with a CPU
  worker on duty that the coordinator picks and no valid graph under the sample's key, the client is welcomed, its lookup makes the
  worker capture the sample graph, its replay is computed by the worker on the client's floats, and the
  program exits with 0, provided that the device's product of 1 and 2 passes the client's comparison with 2.
\<close>

theorem sample_client_succeeds:
  fixes fl to_f64
  defines "conv \<equiv> \<lambda>v. fl_of_f64 fl (to_f64 v)"
  assumes "\<And>xs. mset (ord xs) = mset xs" and "on_duty st ws t" and "ws_worker_id ws = Min (co_worker_connected st)" and "s \<noteq> t"
    and "co_epoch st = CoordinatorEpoch 1" and "co_cache_gen st = CacheGeneration 1"
    and "k = lookup_key (descriptor_view (make_desc 64)) (wire_workload client_workload)" and "k \<in> co_invalidated st \<or> co_graphs st k = None"
    and "\<not> far (conv (sample_factor fl (conv 0x3f800000)))"
  shows "fst (client_main fl to_f64 far (system_ask (cpu_backend fl ord) ord fl to_f64 s t) True True True True (st, ws)) = 0"
proof -
  let ?m = "client_lookup (make_desc 64) client_workload" and ?ask = "system_ask (cpu_backend fl ord) ord fl to_f64 s t"
  obtain wel where hello: "?ask (st, ws) client_hello = (Some wel, st, ws)" "pm_status wel = PS_Ok"
    using hello_welcomed [of st s] ask_direct by blast
  obtain g where g: "cpu_capture ord sample_final = success (Some g)" using sample_finalizes(2) [OF assms(2)] by blast
  then have cap: "be_capture (cpu_backend fl ord) sample_final (CaptureAttemptId (co_capture_counter st + 1)) = success (Some g)"
    by (simp add: cpu_backend_def)
  have m: "pm_type ?m = PT_Lookup" "pm_payload ?m = encode_lookup (make_desc 64) client_workload" by (simp_all add: client_lookup_def)
  from capture_end_to_end [OF cpu.graph_backend_axioms sample_wire_ok assms(3,4) m(1) client_messages_authorised(1) [OF assms(6,7)]
      m(2) assms(8,9) sample_finalizes(1) [OF assms(2)] cap, of s fl to_f64]
  obtain inst r res st1 ws1 st2 where steps: "co_apply st (CI_Message s ?m) = ([(t, inst)], st1)"
      "worker_handle (cpu_backend fl ord) ord fl to_f64 inst ws = Some ([r], ws1)" "co_apply st1 (CI_Message t r) = ([(s, res)], st2)"
    and res: "pm_type res = PT_LookupResult" "pm_status res = PS_Ok"
      "decode_artifact res = Some (GraphArtifactId_to_string (g_artifact sample_final))"
    and after: "offers st2 ws1 sample_final (Some g) (pm_graph_gen res)" "on_duty st2 ws1 t"
      "co_epoch st2 = CoordinatorEpoch 1" "co_cache_gen st2 = CacheGeneration 1"
    using assms(6,7) by auto
  from sample_replay [OF assms(2) g after(1,2) assms(5) after(3,4), of fl to_f64] obtain rep st3 where
    rep: "?ask (st2, ws1) (client_replay to_f64 (pm_graph_gen res) (GraphArtifactId_to_string (g_artifact sample_final)) client_input) = (Some rep, st3, ws1)"
      "pm_type rep = PT_ReplayResult" "pm_status rep = PS_Ok"
      "decode_output fl rep = Some (replicate 16 (conv (sample_factor fl (conv 0x3f800000))))"
    by (auto simp: conv_def)
  show ?thesis using hello ask_worker [OF steps assms(5)] res rep assms(10)
    by (simp add: client_main_def client_session_def client_input_def list_ex_iff)
qed

definition sample_floats :: float_ops where
  "sample_floats = \<lparr>fl_mul = \<lambda>x y. 0x40000000, fl_add = \<lambda>x y. 0, fl_of_f64 = ucast, fl_of_i64 = ucast\<rparr>"

theorem sample_client_succeeds_witness:
  "fst (client_main sample_floats ucast (\<lambda>x. x \<noteq> 0x40000000) (system_ask (cpu_backend sample_floats id) id sample_floats ucast 11 10)
     True True True True (example_duty, example_worker)) = 0"
proof -
  have d: "ws_worker_id example_worker = Min (co_worker_connected example_duty)" "co_epoch example_duty = CoordinatorEpoch 1"
    "co_cache_gen example_duty = CacheGeneration 1" "co_graphs example_duty = Map.empty"
    by (simp_all add: example_worker_def example_duty_def State_default_def)
  show ?thesis
    by (rule sample_client_succeeds [OF _ example_on_duty d(1) _ d(2,3) refl])
      (simp_all add: d(4) sample_factor_def sample_floats_def)
qed

end
