(* ===== verification/GC_Concurrent.thy ===== *)
theory GC_Concurrent
  imports GC_CacheLookup GC_SingleFlight
begin

text \<open>
  Lookups of several threads on one cache: \<open>GraphCache::lookup\<close> of \<open>src/cache.cpp\<close> cut at the points where another
  thread may run, composed with the single-flight wrapper of \<open>GC_SingleFlight\<close>. A search, the beginning of a capture
  (finalize, capture, validate), the staleness check, the insertion of the captured entry and each critical section
  of the wrapper are steps of their own. That a search is one step is an abstraction: the code scans the candidates
  under the registry lock and then loads the executable, checks the entry again and makes the lease outside that
  lock.
\<close>

section \<open>Threads\<close>

text \<open>
  Where a thread's lookup stands: not started; in the single-flight wrapper (where in it, the wrapper's own state
  says) with the missed candidate, the attempt and the time it started; there with a captured entry not yet checked;
  with one that passed the check; returned; or past the end of the scope that held the result.
\<close>

datatype 'x lookup_pc = LK_Start
  | LK_Flight "'x GraphLookupResult" CaptureAttemptId u64
  | LK_Begun "'x GraphLookupResult" CaptureAttemptId u64 "'x CacheEntry" u64
  | LK_Checked "'x GraphLookupResult" CaptureAttemptId u64 "'x CacheEntry"
  | LK_Done "'x GraphLookupResult"
  | LK_Left "'x GraphLookupResult"

record 'x lookup_sys =
  ls_cache :: "'x GraphCache"
  ls_flight :: "GraphArtifactId Result single_flight"
  ls_pc :: "nat \<Rightarrow> 'x lookup_pc"

definition request_key :: "GraphLookupRequest \<Rightarrow> string" where
  "request_key req = (case key_build (make_facts req) of Inl _ \<Rightarrow> [] | Inr k \<Rightarrow> key_hex k)"

definition lookup_sys_init :: "(nat \<Rightarrow> GraphLookupRequest) \<Rightarrow> 'x GraphCache \<Rightarrow> 'x lookup_sys" where
  "lookup_sys_init reqs st = \<lparr>ls_cache = st, ls_flight = sf_init (\<lambda>t. request_key (reqs t)), ls_pc = (\<lambda>_. LK_Start)\<rparr>"

definition at :: "nat \<Rightarrow> 'x lookup_pc \<Rightarrow> 'x GraphCache \<Rightarrow> GraphArtifactId Result single_flight \<Rightarrow> 'x lookup_sys \<Rightarrow> 'x lookup_sys" where
  "at t p st f s = \<lparr>ls_cache = st, ls_flight = f, ls_pc = (ls_pc s)(t := p)\<rparr>"

definition may_capture :: "GraphLookupRequest \<Rightarrow> 'x GraphCache \<Rightarrow> 'x GraphLookupResult \<Rightarrow> bool" where
  "may_capture req st cand \<longleftrightarrow> rq_allow_capture req \<and> cfg_allow_capture (gc_config st) \<and> lr_outcome cand = LO_MissCaptureRequired"

text \<open>The first search, with the bookkeeping before it; and what a miss records.\<close>

definition first_search :: "'x cache_env \<Rightarrow> GraphLookupRequest \<Rightarrow> 'x GraphCache \<Rightarrow> 'x GraphLookupResult \<times> 'x GraphCache" where
  "first_search env req st = search_candidates env (make_facts req) (rq_policy req) (lookup_start env req st)"

definition count_miss :: "GraphLookupRequest \<Rightarrow> 'x GraphCache \<Rightarrow> 'x GraphCache" where
  "count_miss req = bump_scopes (make_facts req) (\<lambda>m. m\<lparr>psm_misses := psm_misses m + 1\<rparr>)"

definition captured_result :: "bool \<Rightarrow> 'x GraphLookupResult \<Rightarrow> 'x GraphLookupResult" where
  "captured_result owned again = again\<lparr>lr_capture_started := True, lr_waited_on_capture := \<not> owned,
     lr_reason_text := ''captured and replayed-compatible; hit''\<rparr>"

text \<open>The end of a result's scope: the destructor of its lease, if it has one, releases it.\<close>

definition drop_result :: "'x GraphLookupResult \<Rightarrow> 'x GraphCache \<Rightarrow> 'x GraphCache" where
  "drop_result res st = (case lr_lease res of None \<Rightarrow> st | Some l \<Rightarrow> snd (lease_release l st))"

section \<open>Steps\<close>

inductive lookup_step :: "'x cache_env \<Rightarrow> (nat \<Rightarrow> GraphLookupRequest) \<Rightarrow> nat \<Rightarrow> 'x lookup_sys \<Rightarrow> 'x lookup_sys \<Rightarrow> bool" for env reqs t where
  look_hit: "ls_pc s t = LK_Start \<Longrightarrow> first_search env (reqs t) (ls_cache s) = (cand, st) \<Longrightarrow> lr_hit cand \<Longrightarrow>
    lookup_step env reqs t s (at t (LK_Done cand) (finish_hit env cand (reqs t) (fst (now_us env (ls_cache s))) st) (ls_flight s) s)"
| look_miss: "ls_pc s t = LK_Start \<Longrightarrow> first_search env (reqs t) (ls_cache s) = (cand, st) \<Longrightarrow> \<not> lr_hit cand \<Longrightarrow>
    may_capture (reqs t) st cand \<Longrightarrow> st' = count_miss (reqs t) st \<Longrightarrow>
    lookup_step env reqs t s (at t (LK_Flight cand (CaptureAttemptId (gc_capture_counter st' + 1)) (fst (now_us env (ls_cache s))))
      (st'\<lparr>gc_capture_counter := gc_capture_counter st' + 1\<rparr>) (ls_flight s) s)"
| look_refused: "ls_pc s t = LK_Start \<Longrightarrow> first_search env (reqs t) (ls_cache s) = (cand, st) \<Longrightarrow> \<not> lr_hit cand \<Longrightarrow>
    \<not> may_capture (reqs t) st cand \<Longrightarrow>
    finish_miss env (cand\<lparr>lr_reason_text := miss_reason (lr_outcome cand)\<rparr>) (fst (now_us env (ls_cache s))) (count_miss (reqs t) st) = (res, st') \<Longrightarrow>
    lookup_step env reqs t s (at t (LK_Done res) st' (ls_flight s) s)"
| fly_own: "ls_pc s t = LK_Flight cand att start \<Longrightarrow> sf_pc (ls_flight s) t = SF_Enter k \<Longrightarrow> sf_inflight (ls_flight s) k = None \<Longrightarrow>
    sf_step t (ls_flight s) f \<Longrightarrow>
    lookup_step env reqs t s (at t (LK_Flight cand att start)
      ((ls_cache s)\<lparr>gc_active_captures := gc_active_captures (ls_cache s) + 1\<rparr>) f s)"
| fly_join: "ls_pc s t = LK_Flight cand att start \<Longrightarrow> sf_pc (ls_flight s) t = SF_Enter k \<Longrightarrow> sf_inflight (ls_flight s) k = Some n \<Longrightarrow>
    sf_step t (ls_flight s) f \<Longrightarrow> lookup_step env reqs t s (at t (LK_Flight cand att start) (ls_cache s) f s)"
| fly_begin: "ls_pc s t = LK_Flight cand att start \<Longrightarrow> sf_pc (ls_flight s) t = SF_Capturing k n \<Longrightarrow>
    capture_begin env (reqs t) att (ls_cache s) = (Inr (e, g), st) \<Longrightarrow>
    lookup_step env reqs t s (at t (LK_Begun cand att start e g) st (ls_flight s) s)"
| fly_begin_fails: "ls_pc s t = LK_Flight cand att start \<Longrightarrow> sf_pc (ls_flight s) t = SF_Capturing k n \<Longrightarrow>
    capture_begin env (reqs t) att (ls_cache s) = (Inl err, st) \<Longrightarrow> sf_step t (ls_flight s) f \<Longrightarrow> sf_pc f t = SF_Captured k n (Inl err) \<Longrightarrow>
    lookup_step env reqs t s (at t (LK_Flight cand att start) st f s)"
| fly_check: "ls_pc s t = LK_Begun cand att start e g \<Longrightarrow> capture_check g (ls_cache s) = Inr () \<Longrightarrow>
    lookup_step env reqs t s (at t (LK_Checked cand att start e) (ls_cache s) (ls_flight s) s)"
| fly_stale: "ls_pc s t = LK_Begun cand att start e g \<Longrightarrow> capture_check g (ls_cache s) = Inl err \<Longrightarrow>
    sf_step t (ls_flight s) f \<Longrightarrow> sf_pc f t = SF_Captured k n (Inl err) \<Longrightarrow>
    lookup_step env reqs t s (at t (LK_Flight cand att start) (ls_cache s) f s)"
| fly_insert: "ls_pc s t = LK_Checked cand att start e \<Longrightarrow> capture_insert env e (ls_cache s) = (r, st) \<Longrightarrow>
    sf_step t (ls_flight s) f \<Longrightarrow> sf_pc f t = SF_Captured k n r \<Longrightarrow>
    lookup_step env reqs t s (at t (LK_Flight cand att start) st f s)"
| fly_signal: "ls_pc s t = LK_Flight cand att start \<Longrightarrow> sf_pc (ls_flight s) t = SF_Captured k n r \<Longrightarrow> sf_step t (ls_flight s) f \<Longrightarrow>
    lookup_step env reqs t s (at t (LK_Flight cand att start) (ls_cache s) f s)"
| fly_erase: "ls_pc s t = LK_Flight cand att start \<Longrightarrow> sf_pc (ls_flight s) t = SF_Signalled k n r \<Longrightarrow> sf_step t (ls_flight s) f \<Longrightarrow>
    lookup_step env reqs t s (at t (LK_Flight cand att start)
      ((ls_cache s)\<lparr>gc_active_captures := gc_active_captures (ls_cache s) - 1\<rparr>) f s)"
| fly_wake: "ls_pc s t = LK_Flight cand att start \<Longrightarrow> sf_pc (ls_flight s) t = SF_Waiting k n \<Longrightarrow> sf_step t (ls_flight s) f \<Longrightarrow>
    lookup_step env reqs t s (at t (LK_Flight cand att start) (ls_cache s) f s)"
| again_hit: "ls_pc s t = LK_Flight cand att start \<Longrightarrow> sf_pc (ls_flight s) t = SF_Returned n (Inr i) owned \<Longrightarrow>
    search_candidates env (make_facts (reqs t)) (rq_policy (reqs t)) (ls_cache s) = (again, st) \<Longrightarrow> lr_hit again \<Longrightarrow>
    lookup_step env reqs t s (at t (LK_Done (captured_result owned again)) (finish_hit env again (reqs t) start st) (ls_flight s) s)"
| again_miss: "ls_pc s t = LK_Flight cand att start \<Longrightarrow> sf_pc (ls_flight s) t = SF_Returned n (Inr i) owned \<Longrightarrow>
    search_candidates env (make_facts (reqs t)) (rq_policy (reqs t)) (ls_cache s) = (again, st) \<Longrightarrow> \<not> lr_hit again \<Longrightarrow>
    finish_miss env (cand\<lparr>lr_capture_started := True, lr_waited_on_capture := \<not> owned, lr_outcome := LO_MissIncompatible,
      lr_reason_text := ''capture completed but no compatible candidate is replay-eligible''\<rparr>) start st = (res, st') \<Longrightarrow>
    lookup_step env reqs t s (at t (LK_Done res) st' (ls_flight s) s)"
| flight_failed: "ls_pc s t = LK_Flight cand att start \<Longrightarrow> sf_pc (ls_flight s) t = SF_Returned n (Inl err) owned \<Longrightarrow>
    finish_miss env (cand\<lparr>lr_capture_started := True, lr_waited_on_capture := \<not> owned, lr_outcome := LO_MissCaptureRequired,
      lr_reason_text := ''capture failed: '' @ err_message err\<rparr>) start
      (touch_metric (\<lambda>m. m\<lparr>m_capture_failures := m_capture_failures m + 1\<rparr>) (ls_cache s)) = (res, st') \<Longrightarrow>
    lookup_step env reqs t s (at t (LK_Done res) st' (ls_flight s) s)"
| leave: "ls_pc s t = LK_Done res \<Longrightarrow> lookup_step env reqs t s (at t (LK_Left res) (drop_result res (ls_cache s)) (ls_flight s) s)"

text \<open>Runs in which only threads of \<open>T\<close> move.\<close>

inductive lookup_run :: "'x cache_env \<Rightarrow> (nat \<Rightarrow> GraphLookupRequest) \<Rightarrow> nat set \<Rightarrow> 'x lookup_sys \<Rightarrow> 'x lookup_sys \<Rightarrow> bool" for env reqs T s where
  run_start: "lookup_run env reqs T s s"
| run_move: "lookup_run env reqs T s s' \<Longrightarrow> t \<in> T \<Longrightarrow> lookup_step env reqs t s' s'' \<Longrightarrow> lookup_run env reqs T s s''"

section \<open>What the cache looks like in between\<close>

text \<open>Steps that only count and tell the time.\<close>

definition quiet :: "'x GraphCache \<Rightarrow> 'x GraphCache \<Rightarrow> bool" where
  "quiet st st' \<longleftrightarrow> same_core st st' \<and> gc_key_gen st' = gc_key_gen st \<and> gc_cache_gen st' = gc_cache_gen st
     \<and> gc_config st' = gc_config st \<and> m_captures (gc_metrics st') = m_captures (gc_metrics st)"

lemma quiet_trans: "quiet a b \<Longrightarrow> quiet b c \<Longrightarrow> quiet a c"
  by (simp add: quiet_def same_core_def)

lemma quiet_revoked: "quiet st st' \<Longrightarrow> all_revoked st' wl = all_revoked st wl"
  by (simp add: quiet_def same_core_def all_revoked_def split: option.split)

lemma captures_count [simp]:
  "m_captures (gc_metrics (record_event env ty msg d st)) = m_captures (gc_metrics st)"
  "m_captures (gc_metrics (snd (now_us env st))) = m_captures (gc_metrics st)"
  "m_captures (gc_metrics (snd (now_ms env st))) = m_captures (gc_metrics st)"
  "m_captures (gc_metrics (bump_scope_raw a b c f st)) = m_captures (gc_metrics st)"
  "m_captures (gc_metrics (bump_scopes facts f st)) = m_captures (gc_metrics st)"
  "m_captures (gc_metrics (entry_scopes e f st)) = m_captures (gc_metrics st)"
  "m_captures (gc_metrics (upd_entry x h st)) = m_captures (gc_metrics st)"
  by (simp_all add: record_event_def now_us_def now_ms_def bump_scope_raw_def bump_scopes_def entry_scopes_def upd_entry_def
      touch_metric_def Let_def)

lemma captures_touch: "m_captures (gc_metrics (touch_metric f st)) = m_captures (f (gc_metrics st))"
  by (simp add: touch_metric_def)

lemma quiet_ops:
  "quiet st (finish_hit env res req start st)" "quiet st (lookup_start env req st)" "quiet st (count_miss req st)"
  "quiet st (st\<lparr>gc_active_captures := n\<rparr>)" "quiet st (st\<lparr>gc_capture_counter := c\<rparr>)"
  by (auto simp: quiet_def same_core_def finish_hit_def lookup_start_def count_miss_def captures_touch Let_def case_prod_unfold
      split: LookupOutcome.splits)

lemma quiet_begin:
  assumes "capture_begin env req att st = (Inr (e, g), st')"
  shows "quiet st st'"
  using assms capture_begin_frame [OF assms]
  by (auto simp: quiet_def capture_begin_def captures_touch Let_def case_prod_unfold split: sum.splits)

lemma chosen_quiet:
  "gc_cache_gen (snd (chosen_state env a st)) = gc_cache_gen st" "gc_config (snd (chosen_state env a st)) = gc_config st"
  "m_captures (gc_metrics (snd (chosen_state env a st))) = m_captures (gc_metrics st)"
  by (simp_all add: chosen_state_def materialize_exec_def captures_touch Let_def case_prod_unfold split: sum.split)

lemma make_lease_quiet:
  "gc_cache_gen (snd (make_lease a b st)) = gc_cache_gen st" "gc_config (snd (make_lease a b st)) = gc_config st"
  "gc_metrics (snd (make_lease a b st)) = gc_metrics st"
  by (simp_all add: make_lease_def Let_def upd_entry_def)

lemma search_counters:
  "gc_cache_gen (snd (search_candidates env f p st)) = gc_cache_gen st \<and> gc_config (snd (search_candidates env f p st)) = gc_config st
   \<and> m_captures (gc_metrics (snd (search_candidates env f p st))) = m_captures (gc_metrics st)"
proof (cases "\<exists>as a. gc_by_workload st (workload_key (f_workload f)) = Some as \<and> sn_chosen (scan_all st f p as) = Some a")
  case True
  then obtain as a where b: "gc_by_workload st (workload_key (f_workload f)) = Some as" "sn_chosen (scan_all st f p as) = Some a" by blast
  show ?thesis unfolding search_eq [OF b] by (simp add: chosen_quiet make_lease_quiet split: sum.split)
next
  case False
  then show ?thesis using search_miss(2) [of st f p env] by auto
qed

lemma search_tokens:
  fixes env :: "'x cache_env"
  assumes "search_candidates env f p st = (res, st')"
  shows "gc_next_token st \<le> gc_next_token st'" and "lr_lease res = Some l \<Longrightarrow> gl_token l = Some k \<Longrightarrow> k < gc_next_token st'"
proof -
  have "gc_next_token st \<le> gc_next_token st' \<and> (\<forall>l k. lr_lease res = Some l \<longrightarrow> gl_token l = Some k \<longrightarrow> k < gc_next_token st')"
  proof (cases "\<exists>as a. gc_by_workload st (workload_key (f_workload f)) = Some as \<and> sn_chosen (scan_all st f p as) = Some a")
    case True
    then obtain as a where b: "gc_by_workload st (workload_key (f_workload f)) = Some as" "sn_chosen (scan_all st f p as) = Some a" by blast
    have "gc_next_token (snd (chosen_state env a st)) = gc_next_token st"
      by (simp add: chosen_state_def materialize_exec_def Let_def case_prod_unfold split: sum.split)
    then show ?thesis
      using assms [unfolded search_eq [OF b]] by (auto simp: make_lease_effect fst_make_lease lookup_result_default_def split: sum.splits)
  next
    case False
    then show ?thesis using search_miss [of st f p env] assms by (auto simp: lr_hit_def)
  qed
  then show "gc_next_token st \<le> gc_next_token st'" "lr_lease res = Some l \<Longrightarrow> gl_token l = Some k \<Longrightarrow> k < gc_next_token st'" by blast+
qed

text \<open>Dropping a result only lowers the use counts of the entry it held.\<close>

lemma drop_frame:
  "gc_by_workload (drop_result res st) = gc_by_workload st" "gc_key_gen (drop_result res st) = gc_key_gen st"
  "gc_cache_gen (drop_result res st) = gc_cache_gen st" "gc_config (drop_result res st) = gc_config st"
  "gc_next_token (drop_result res st) = gc_next_token st" "gc_metrics (drop_result res st) = gc_metrics st"
  "\<exists>n. gc_heap (drop_result res st) a = (gc_heap st a)\<lparr>en_lease_count := n\<rparr>"
  by (auto simp: drop_result_def lease_release_def release_fn_def upd_entry_def Let_def intro: exI [of _ "en_lease_count (gc_heap st a)"] split: option.split)

lemma drop_served: "served (drop_result res st) facts policy a = served st facts policy a"
  "en_artifact (gc_heap (drop_result res st) a) = en_artifact (gc_heap st a)"
proof -
  obtain n where "gc_heap (drop_result res st) a = (gc_heap st a)\<lparr>en_lease_count := n\<rparr>" using drop_frame(7) by blast
  then show "served (drop_result res st) facts policy a = served st facts policy a"
    "en_artifact (gc_heap (drop_result res st) a) = en_artifact (gc_heap st a)"
    by (simp_all add: served_def exact_def selectable_def is_dependency_fresh_def drop_frame Let_def)
qed

lemma drop_revoked: "all_revoked (drop_result res st) wl = all_revoked st wl"
proof -
  have "en_invalidated (gc_heap (drop_result res st) a) = en_invalidated (gc_heap st a)" for a
    using drop_frame(7) [where res = res and st = st and a = a] by auto
  then show ?thesis by (simp add: all_revoked_def drop_frame split: option.split)
qed

text \<open>The result a thread of the wrapper carries, and that all results in the wrapper satisfy a predicate.\<close>

fun sf_result :: "'r sf_pc \<Rightarrow> 'r option" where
  "sf_result (SF_Captured k n r) = Some r"
| "sf_result (SF_Signalled k n r) = Some r"
| "sf_result (SF_Returned n r b) = Some r"
| "sf_result _ = None"

definition flight_ok :: "'r single_flight \<Rightarrow> ('r \<Rightarrow> bool) \<Rightarrow> bool" where
  "flight_ok f P \<longleftrightarrow> (\<forall>t r. sf_result (sf_pc f t) = Some r \<longrightarrow> P r) \<and> (\<forall>n r. ca_res (sf_attempts f n) = Some r \<longrightarrow> P r)"

lemma flight_ok_init: "flight_ok (sf_init keys) P"
  by (simp add: flight_ok_def sf_init_def CaptureAttempt_default_def)

lemma flight_ok_mono: "flight_ok f P \<Longrightarrow> (\<And>r. P r \<Longrightarrow> Q r) \<Longrightarrow> flight_ok f Q"
  by (auto simp: flight_ok_def)

lemma flight_ok_step:
  assumes "sf_step t f f'" and "flight_ok f P" and "\<And>k n r. sf_pc f t = SF_Capturing k n \<Longrightarrow> sf_pc f' t = SF_Captured k n r \<Longrightarrow> P r"
  shows "flight_ok f' P"
  using assms
proof (induction rule: sf_step.induct)
  case (wake s k n r)
  then show ?case by (auto simp: flight_ok_def split: if_splits)
qed (auto simp: flight_ok_def CaptureAttempt_default_def split: if_splits; metis sf_result.simps)+

locale shared_request = cache_engine env for env :: "'x cache_env" +
  fixes req :: GraphLookupRequest and desc :: GraphDescriptor
  assumes matching: "self_matching req" and allowed: "rq_allow_capture req"
    and finalizes: "finalize (env_node_ord env) (rq_descriptor req) = success desc"
    and node_perm: "mset (env_node_ord env xs) = mset xs"
    and captures: "\<exists>h. be_capture (env_backend env) desc att = success h"
begin

definition available :: "'x GraphCache \<Rightarrow> bool" where
  "available st \<longleftrightarrow> (\<exists>a. served st (make_facts req) (rq_policy req) a \<and> en_artifact (gc_heap st a) = g_artifact desc)"

definition cache_ok :: "u64 \<Rightarrow> 'x GraphCache \<Rightarrow> bool" where
  "cache_ok g st \<longleftrightarrow> cache_inv st \<and> gc_cache_gen st = g \<and> cfg_allow_capture (gc_config st)
     \<and> (all_revoked st (rq_workload req) \<or> available st)"

text \<open>An entry captured for the request.\<close>

definition entry_good :: "'x CacheEntry \<Rightarrow> bool" where
  "entry_good e \<longleftrightarrow> en_facts e = make_facts req \<and> en_workload e = rq_workload req \<and> \<not> en_invalidated e \<and> en_lifecycle e = LC_Valid
     \<and> en_exec e \<noteq> None \<and> en_artifact e = g_artifact desc \<and> fresh_entry e"

lemma quiet_ok:
  assumes "quiet st st'"
  shows "cache_ok g st \<Longrightarrow> cache_ok g st'" and "available st' = available st"
proof -
  have c: "same_core st st'" "gc_key_gen st' = gc_key_gen st" using assms by (simp_all add: quiet_def)
  show av: "available st' = available st" using served_frame [OF c] c(1) by (simp add: available_def same_core_def)
  show "cache_ok g st \<Longrightarrow> cache_ok g st'"
    using cache_inv_same_core [OF c(1)] av quiet_revoked [OF assms] assms by (auto simp: cache_ok_def quiet_def)
qed

lemma search_available:
  assumes "cache_ok g st" and "available st" and "search_candidates env (make_facts req) (rq_policy req) st = (res, st')"
  shows "lr_hit res" "lr_artifact res = g_artifact desc" "cache_ok g st'" "available st'" "m_captures (gc_metrics st') = m_captures (gc_metrics st)"
proof -
  obtain a where a: "served st (make_facts req) (rq_policy req) a" "en_artifact (gc_heap st a) = g_artifact desc"
    using assms(2) by (auto simp: available_def)
  have inv: "cache_inv st" using assms(1) by (simp add: cache_ok_def)
  note s = search_served [OF inv a(1), of env, unfolded assms(3) fst_conv snd_conv]
  show "lr_hit res" "lr_artifact res = g_artifact desc" using s a(2) by simp_all
  show av: "available st'" using s(5,6) a(2) by (auto simp: available_def)
  have "cache_inv st'" using engine_steps_inv [OF steps_search [OF inv engine_steps.stay] inv] assms(3) by (metis snd_conv)
  then show "cache_ok g st'" using assms(1) av search_counters [of env "make_facts req" "rq_policy req" st] assms(3) by (simp add: cache_ok_def)
  show "m_captures (gc_metrics st') = m_captures (gc_metrics st)"
    using search_counters [of env "make_facts req" "rq_policy req" st] assms(3) by simp
qed

lemma search_unavailable:
  assumes "all_revoked st (rq_workload req)"
  shows "search_candidates env (make_facts req) (rq_policy req) st = (lookup_result_default, st)"
  by (rule search_all_revoked) (use assms in \<open>auto simp: all_revoked_def list_all_iff\<close>)

lemma begin_good:
  assumes "cache_ok g st" and "capture_begin env req att st = (r, st')"
  shows "\<exists>e. r = Inr (e, g) \<and> entry_good e" "quiet st st'"
proof -
  obtain h where "be_capture (env_backend env) desc att = success h" using captures by blast
  from capture_runs [OF finalizes node_perm this, of st] obtain e g' st1
    where b: "capture_begin env req att st = (success (e, g'), st1)" "en_artifact e = g_artifact desc" "en_exec e \<noteq> None" by blast
  note fr = capture_begin_frame [OF b(1)]
  have "fresh_entry e" using capture_begin_fresh [of req att st e g'] b(1) by simp
  then show "\<exists>e. r = Inr (e, g) \<and> entry_good e" using b fr assms by (auto simp: entry_good_def cache_ok_def)
  show "quiet st st'" using quiet_begin [OF b(1)] b(1) assms(2) by simp
qed

lemma insert_available:
  assumes "cache_ok g st" and "entry_good e" and "capture_insert env e st = (r, st')"
  shows "r = Inr (g_artifact desc)" "available st'" "cache_ok g st'" "m_captures (gc_metrics st') = m_captures (gc_metrics st) + 1"
proof -
  have e: "en_facts e = make_facts req" "en_workload e = rq_workload req" "\<not> en_invalidated e" "en_lifecycle e = LC_Valid"
    "en_exec e \<noteq> None" "en_artifact e = g_artifact desc" "fresh_entry e" using assms(2) by (simp_all add: entry_good_def)
  note s = inserted_served [OF e(1-4) matching e(5), where env = env and st = st, unfolded assms(3) snd_conv]
  show "r = Inr (g_artifact desc)" using capture_insert_effect(1) [of env e st] assms(3) e(6) by simp
  show av: "available st'" using s e(6) by (auto simp: available_def)
  have inv: "cache_inv st" using assms(1) by (simp add: cache_ok_def)
  have "cache_inv st'" using engine_steps_inv [OF steps_insert_capture [OF engine_steps.stay e(7)] inv] assms(3) by (metis snd_conv)
  moreover have "gc_cache_gen st' = gc_cache_gen st" "gc_config st' = gc_config st"
    using assms(3) by (auto simp: capture_insert_def Let_def case_prod_unfold insert_entry_def)
  ultimately show "cache_ok g st'" using assms(1) av by (simp add: cache_ok_def)
  show "m_captures (gc_metrics st') = m_captures (gc_metrics st) + 1"
    using assms(3) by (auto simp: capture_insert_def persist_entry_def captures_touch insert_entry_def Let_def case_prod_unfold split: option.splits)
qed

lemma drop_ok:
  assumes "cache_ok g st" and "\<And>l k. lr_lease res = Some l \<Longrightarrow> gl_token l = Some k \<Longrightarrow> k < gc_next_token st"
  shows "cache_ok g (drop_result res st)" "available (drop_result res st) = available st"
proof -
  show av: "available (drop_result res st) = available st" by (simp add: available_def drop_served)
  have "cache_inv (drop_result res st)"
    using assms engine_steps_inv [OF steps_release [OF engine_steps.stay]] by (auto simp: drop_result_def cache_ok_def split: option.split)
  then show "cache_ok g (drop_result res st)" using assms(1) av by (simp add: cache_ok_def drop_frame drop_revoked)
qed

text \<open>What holds of a thread, with the number of leases given out.\<close>

fun pc_ok :: "u64 \<Rightarrow> nat \<Rightarrow> 'x lookup_pc \<Rightarrow> bool" where
  "pc_ok g m (LK_Begun c a s e g') \<longleftrightarrow> g' = g \<and> entry_good e"
| "pc_ok g m (LK_Checked c a s e) \<longleftrightarrow> entry_good e"
| "pc_ok g m (LK_Done res) \<longleftrightarrow> lr_hit res \<and> lr_artifact res = g_artifact desc \<and> (\<forall>l k. lr_lease res = Some l \<longrightarrow> gl_token l = Some k \<longrightarrow> k < m)"
| "pc_ok g m (LK_Left res) \<longleftrightarrow> lr_hit res \<and> lr_artifact res = g_artifact desc"
| "pc_ok g m _ \<longleftrightarrow> True"

lemma pc_ok_mono: "pc_ok g m p \<Longrightarrow> m \<le> m' \<Longrightarrow> pc_ok g m' p"
  by (cases p) (auto intro: less_le_trans)

definition sys_ok :: "u64 \<Rightarrow> 'x lookup_sys \<Rightarrow> bool" where
  "sys_ok g s \<longleftrightarrow> cache_ok g (ls_cache s) \<and> (\<forall>t. pc_ok g (gc_next_token (ls_cache s)) (ls_pc s t))
     \<and> flight_ok (ls_flight s) (\<lambda>r. (\<exists>i. r = Inr i) \<and> available (ls_cache s))"

lemma sys_ok_at:
  assumes "sys_ok g s" and "cache_ok g st" and "gc_next_token (ls_cache s) \<le> gc_next_token st" and "pc_ok g (gc_next_token st) p"
    and "flight_ok f (\<lambda>r. (\<exists>i. r = Inr i) \<and> available st)"
  shows "sys_ok g (at t p st f s)"
  using assms by (auto simp: sys_ok_def at_def intro: pc_ok_mono)

lemma quiet_at:
  assumes "sys_ok g s" and "quiet (ls_cache s) st" and "\<And>m. pc_ok g m p" and "sf_step t (ls_flight s) f"
    and "\<And>k n r. sf_pc (ls_flight s) t = SF_Capturing k n \<Longrightarrow> sf_pc f t \<noteq> SF_Captured k n r"
  shows "sys_ok g (at t p st f s)"
proof -
  have "flight_ok (ls_flight s) (\<lambda>r. (\<exists>i. r = Inr i) \<and> available st)" and "cache_ok g st" "gc_next_token (ls_cache s) \<le> gc_next_token st"
    using assms(1,2) quiet_ok [OF assms(2)] by (simp_all add: sys_ok_def quiet_def same_core_def)
  then show ?thesis using flight_ok_step [OF assms(4)] assms(5) by (intro sys_ok_at [OF assms(1) _ _ assms(3)]) blast+
qed

lemma still_at:
  assumes "sys_ok g s" and "cache_ok g st" and "gc_next_token (ls_cache s) \<le> gc_next_token st"
    and "available (ls_cache s) \<Longrightarrow> available st" and "pc_ok g (gc_next_token st) p"
  shows "sys_ok g (at t p st (ls_flight s) s)"
  using assms flight_ok_mono [of "ls_flight s" "\<lambda>r. (\<exists>i. r = Inr i) \<and> available (ls_cache s)"]
  by (intro sys_ok_at [OF assms(1,2,3,5)]) (auto simp: sys_ok_def)

lemma first_search_ok:
  assumes "sys_ok g s" and "first_search env req (ls_cache s) = (cand, st)"
  shows "lr_hit cand \<Longrightarrow> cache_ok g st \<and> available st \<and> lr_artifact cand = g_artifact desc
      \<and> gc_next_token (ls_cache s) \<le> gc_next_token st"
    and "\<not> lr_hit cand \<Longrightarrow> quiet (ls_cache s) st \<and> may_capture req st cand"
proof -
  let ?st = "lookup_start env req (ls_cache s)"
  have ok: "cache_ok g ?st" and q: "quiet (ls_cache s) ?st"
    using assms(1) quiet_ok(1) [OF quiet_ops(2)] by (simp_all add: sys_ok_def quiet_ops)
  have sc: "search_candidates env (make_facts req) (rq_policy req) ?st = (cand, st)" using assms(2) by (simp add: first_search_def)
  consider "available ?st" | "all_revoked ?st (rq_workload req)" using ok by (auto simp: cache_ok_def)
  then have "(lr_hit cand \<longrightarrow> cache_ok g st \<and> available st \<and> lr_artifact cand = g_artifact desc \<and> gc_next_token (ls_cache s) \<le> gc_next_token st)
    \<and> (\<not> lr_hit cand \<longrightarrow> quiet (ls_cache s) st \<and> may_capture req st cand)"
  proof cases
    case 1
    have "gc_next_token ?st = gc_next_token (ls_cache s)" using q by (simp add: quiet_def same_core_def)
    then show ?thesis using search_available [OF ok 1 sc] search_tokens(1) [OF sc] by simp
  next
    case 2
    then have "cand = lookup_result_default" "st = ?st" using search_unavailable sc by simp_all
    then show ?thesis using q ok allowed by (simp add: lookup_result_default_def lr_hit_def may_capture_def cache_ok_def)
  qed
  then show "lr_hit cand \<Longrightarrow> cache_ok g st \<and> available st \<and> lr_artifact cand = g_artifact desc \<and> gc_next_token (ls_cache s) \<le> gc_next_token st"
    "\<not> lr_hit cand \<Longrightarrow> quiet (ls_cache s) st \<and> may_capture req st cand" by blast+
qed

lemma captured_at:
  assumes "sys_ok g s" and "cache_ok g st" and "available st" and "gc_next_token (ls_cache s) \<le> gc_next_token st" and "\<And>m. pc_ok g m p"
    and "sf_step t (ls_flight s) f" and "sf_pc f t = SF_Captured k n (Inr i)"
  shows "sys_ok g (at t p st f s)"
proof (rule sys_ok_at [OF assms(1,2,4,5)])
  have "flight_ok (ls_flight s) (\<lambda>r. (\<exists>i. r = Inr i) \<and> available st)"
    using assms(1,3) flight_ok_mono [of "ls_flight s" "\<lambda>r. (\<exists>i. r = Inr i) \<and> available (ls_cache s)"] by (auto simp: sys_ok_def)
  then show "flight_ok f (\<lambda>r. (\<exists>i. r = Inr i) \<and> available st)"
    by (rule flight_ok_step [OF assms(6)]) (use assms(3,7) in auto)
qed

lemma flight_result:
  assumes "sys_ok g s" and "sf_result (sf_pc (ls_flight s) t) = Some r"
  shows "(\<exists>i. r = Inr i) \<and> available (ls_cache s)"
  using assms by (auto simp: sys_ok_def flight_ok_def)

lemma lookup_step_ok:
  assumes "lookup_step env (\<lambda>_. req) t s s'" and ok: "sys_ok g s"
  shows "sys_ok g s'"
  using assms(1)
proof (cases rule: lookup_step.cases)
  case (look_hit cand st)
  note f = first_search_ok(1) [OF ok look_hit(3,4)]
  have q: "quiet st (finish_hit env cand req (fst (now_us env (ls_cache s))) st)" by (rule quiet_ops)
  then have "gc_next_token (finish_hit env cand req (fst (now_us env (ls_cache s))) st) = gc_next_token st" by (simp add: quiet_def same_core_def)
  then show ?thesis
    using look_hit(1,4) f quiet_ok [OF q] search_tokens(2) [OF look_hit(3) [unfolded first_search_def]] by (auto intro!: still_at [OF ok])
next
  case (look_miss cand st st')
  note f = first_search_ok(2) [OF ok look_miss(3,4)]
  have "quiet (ls_cache s) (st'\<lparr>gc_capture_counter := gc_capture_counter st' + 1\<rparr>)"
    using f quiet_trans quiet_ops(3,5) look_miss(6) by blast
  note q = quiet_ok [OF this] and core = this [unfolded quiet_def same_core_def]
  have "cache_ok g (ls_cache s)" using ok by (simp add: sys_ok_def)
  then show ?thesis unfolding look_miss(1) by (intro still_at [OF ok]) (use core in \<open>simp_all add: q\<close>)
next
  case (look_refused cand st res st')
  then show ?thesis using first_search_ok(2) [OF ok look_refused(3,4)] by simp
next
  case (fly_own cand att start k f)
  then show ?thesis using quiet_at [OF ok quiet_ops(4) _ fly_own(5)] by simp
next
  case (fly_join cand att start k n f)
  then show ?thesis using quiet_at [OF ok _ _ fly_join(5), of "ls_cache s"] by (simp add: quiet_def same_core_def)
next
  case (fly_begin cand att start k n e g' st)
  have ck: "cache_ok g (ls_cache s)" using ok by (simp add: sys_ok_def)
  from begin_good [OF ck fly_begin(4)] have "g' = g" "entry_good e" "quiet (ls_cache s) st" by auto
  then show ?thesis
    using fly_begin(1) quiet_ok [of "ls_cache s" st] ck by (auto intro!: still_at [OF ok] simp: quiet_def same_core_def)
next
  case (fly_begin_fails cand att start k n err st f)
  then show ?thesis using begin_good(1) [OF _ fly_begin_fails(4), of g] ok by (auto simp: sys_ok_def)
next
  case (fly_check cand att start e g')
  then have "pc_ok g (gc_next_token (ls_cache s)) (LK_Begun cand att start e g')" using ok by (metis sys_ok_def)
  moreover have "cache_ok g (ls_cache s)" using ok by (simp add: sys_ok_def)
  ultimately show ?thesis unfolding fly_check(1) by (intro still_at [OF ok]) simp_all
next
  case (fly_stale cand att start e g' err f k n)
  then have "pc_ok g (gc_next_token (ls_cache s)) (LK_Begun cand att start e g')" using ok by (metis sys_ok_def)
  then show ?thesis using fly_stale(3) ok by (auto simp: sys_ok_def cache_ok_def capture_check_def)
next
  case (fly_insert cand att start e r st f k n)
  then have "pc_ok g (gc_next_token (ls_cache s)) (LK_Checked cand att start e)" using ok by (metis sys_ok_def)
  then have e: "entry_good e" by simp
  have "cache_ok g (ls_cache s)" using ok by (simp add: sys_ok_def)
  note ins = insert_available [OF this e fly_insert(3)]
  have "gc_next_token st = gc_next_token (ls_cache s)" using fly_insert(3) by (auto simp: capture_insert_def Let_def case_prod_unfold insert_entry_def)
  then show ?thesis using captured_at [OF ok ins(3,2) _ _ fly_insert(4) fly_insert(5) [unfolded ins(1)]] fly_insert(1) by simp
next
  case (fly_signal cand att start k n r f)
  then show ?thesis using quiet_at [OF ok _ _ fly_signal(4), of "ls_cache s"] by (simp add: quiet_def same_core_def)
next
  case (fly_erase cand att start k n r f)
  then show ?thesis using quiet_at [OF ok quiet_ops(4) _ fly_erase(4)] by simp
next
  case (fly_wake cand att start k n f)
  then show ?thesis using quiet_at [OF ok _ _ fly_wake(4), of "ls_cache s"] by (simp add: quiet_def same_core_def)
next
  case (again_hit cand att start n i owned again st)
  have "available (ls_cache s)" "cache_ok g (ls_cache s)" using flight_result [OF ok, of t] again_hit(3) ok by (simp_all add: sys_ok_def)
  note f = search_available [OF this(2,1) again_hit(4)]
  have q: "quiet st (finish_hit env again req start st)" by (rule quiet_ops)
  then have "gc_next_token (finish_hit env again req start st) = gc_next_token st" by (simp add: quiet_def same_core_def)
  then show ?thesis
    using again_hit(1) f quiet_ok [OF q] search_tokens [OF again_hit(4)]
    by (auto intro!: still_at [OF ok] simp: captured_result_def lr_hit_def)
next
  case (again_miss cand att start n i owned again st res st')
  have "available (ls_cache s)" "cache_ok g (ls_cache s)" using flight_result [OF ok, of t] again_miss(3) ok by (simp_all add: sys_ok_def)
  from search_available(1) [OF this(2,1) again_miss(4)] show ?thesis using again_miss(5) by simp
next
  case (flight_failed cand att start n err owned res st')
  then show ?thesis using flight_result [OF ok, of t] by simp
next
  case (leave res)
  have "pc_ok g (gc_next_token (ls_cache s)) (ls_pc s t)" "cache_ok g (ls_cache s)" using ok by (simp_all add: sys_ok_def)
  then have "pc_ok g (gc_next_token (ls_cache s)) (LK_Done res)" "cache_ok g (ls_cache s)" using leave(2) by simp_all
  then show ?thesis using leave(1) drop_ok [of g "ls_cache s" res] by (auto intro!: still_at [OF ok] simp: drop_frame)
qed

lemma lookup_run_ok: "lookup_run env (\<lambda>_. req) T s s' \<Longrightarrow> sys_ok g s \<Longrightarrow> sys_ok g s'"
  by (induction rule: lookup_run.induct) (auto intro: lookup_step_ok)

lemma init_ok:
  assumes "cache_inv st" and "all_revoked st (rq_workload req)" and "cfg_allow_capture (gc_config st)"
  shows "sys_ok (gc_cache_gen st) (lookup_sys_init (\<lambda>_. req) st)"
  using assms by (simp add: sys_ok_def lookup_sys_init_def cache_ok_def flight_ok_init)

section \<open>Schedules\<close>

definition only_moves :: "nat set \<Rightarrow> 'x lookup_sys \<Rightarrow> 'x lookup_sys \<Rightarrow> bool" where
  "only_moves T s s' \<longleftrightarrow> (\<forall>u. u \<notin> T \<longrightarrow> ls_pc s' u = ls_pc s u \<and> sf_pc (ls_flight s') u = sf_pc (ls_flight s) u)"

abbreviation captures_of :: "'x lookup_sys \<Rightarrow> u64" where
  "captures_of s \<equiv> m_captures (gc_metrics (ls_cache s))"

lemma run_one: "t \<in> T \<Longrightarrow> lookup_step env reqs t s s' \<Longrightarrow> lookup_run env reqs T s s'"
  by (rule lookup_run.run_move [OF lookup_run.run_start])

lemma run_trans: "lookup_run env reqs T b c \<Longrightarrow> lookup_run env reqs T a b \<Longrightarrow> lookup_run env reqs T a c"
  by (induction rule: lookup_run.induct) (auto intro: lookup_run.run_move)

text \<open>A thread that misses, with nothing of the workload in the cache.\<close>

lemma schedule_miss:
  assumes T: "t \<in> T" and ok: "sys_ok g s" and pc: "ls_pc s t = LK_Start" and none: "all_revoked (ls_cache s) (rq_workload req)"
  obtains s' c a b where "lookup_run env (\<lambda>_. req) T s s'" "ls_pc s' t = LK_Flight c a b" "ls_flight s' = ls_flight s" "only_moves {t} s s'"
    "all_revoked (ls_cache s') (rq_workload req)" "captures_of s' = captures_of s"
proof -
  let ?st = "lookup_start env req (ls_cache s)"
  have q: "quiet (ls_cache s) ?st" by (rule quiet_ops)
  then have "all_revoked ?st (rq_workload req)" using none quiet_revoked by blast
  then have f: "first_search env req (ls_cache s) = (lookup_result_default, ?st)" by (simp add: first_search_def search_unavailable)
  have "\<not> lr_hit (lookup_result_default :: 'x GraphLookupResult)" by (simp add: lookup_result_default_def lr_hit_def)
  note m = first_search_ok(2) [OF ok f this]
  let ?st' = "count_miss req ?st"
  let ?st2 = "?st'\<lparr>gc_capture_counter := gc_capture_counter ?st' + 1\<rparr>"
  let ?s = "at t (LK_Flight lookup_result_default (CaptureAttemptId (gc_capture_counter ?st' + 1)) (fst (now_us env (ls_cache s)))) ?st2 (ls_flight s) s"
  have "lookup_step env (\<lambda>_. req) t s ?s"
    by (rule lookup_step.look_miss [OF pc f _ _ refl]) (use m in \<open>simp_all add: lookup_result_default_def lr_hit_def\<close>)
  moreover have q2: "quiet (ls_cache s) ?st2" using q quiet_trans quiet_ops(3,5) by blast
  moreover have "captures_of ?s = captures_of s" using q2 by (simp add: at_def quiet_def)
  ultimately show thesis
    using that [OF run_one [OF T]] none quiet_revoked [OF q2] by (simp add: at_def only_moves_def)
qed

text \<open>A thread that finds nothing in flight captures the graph to the end.\<close>

lemma schedule_capture:
  assumes T: "t \<in> T" and ok: "sys_ok g s" and pc: "ls_pc s t = LK_Flight c a b" and enter: "sf_pc (ls_flight s) t = SF_Enter k"
    and free: "sf_inflight (ls_flight s) k = None"
  obtains s' n i where "lookup_run env (\<lambda>_. req) T s s'" "ls_pc s' t = LK_Flight c a b" "sf_pc (ls_flight s') t = SF_Returned n (Inr i) True"
    "sf_inflight (ls_flight s') k = None" "only_moves {t} s s'" "captures_of s' = captures_of s + 1"
proof -
  let ?f = "ls_flight s" and ?n = "sf_next (ls_flight s)"
  let ?st1 = "(ls_cache s)\<lparr>gc_active_captures := gc_active_captures (ls_cache s) + 1\<rparr>"
  have ck: "cache_ok g (ls_cache s)" using ok by (simp add: sys_ok_def)
  then have ck1: "cache_ok g ?st1" by (rule quiet_ok(1) [OF quiet_ops(4)])
  obtain r st2 where b: "capture_begin env req a ?st1 = (r, st2)" by fastforce
  from begin_good [OF ck1 b] obtain e where r: "r = Inr (e, g)" "entry_good e" "quiet ?st1 st2" by blast
  have ck2: "cache_ok g st2" using quiet_ok(1) [OF r(3) ck1] .
  obtain x st3 where i: "capture_insert env e st2 = (x, st3)" by fastforce
  note ins = insert_available [OF ck2 r(2) i]
  obtain f1 where f1: "sf_step t ?f f1" "sf_pc f1 = (sf_pc ?f)(t := SF_Capturing k ?n)" "sf_inflight f1 = (sf_inflight ?f)(k \<mapsto> ?n)"
    using sf_step.own [OF enter free] by force
  have "sf_pc f1 t = SF_Capturing k ?n" using f1(2) by simp
  from sf_step.capture [OF this, of x] obtain f2 where f2: "sf_step t f1 f2" "sf_pc f2 = (sf_pc ?f)(t := SF_Captured k ?n x)"
    "sf_inflight f2 = (sf_inflight ?f)(k \<mapsto> ?n)" using f1 by (auto simp: fun_upd_upd)
  have "sf_pc f2 t = SF_Captured k ?n x" using f2(2) by simp
  from sf_step.signal [OF this] obtain f3 where f3: "sf_step t f2 f3" "sf_pc f3 = (sf_pc ?f)(t := SF_Signalled k ?n x)"
    "sf_inflight f3 = (sf_inflight ?f)(k \<mapsto> ?n)" using f2 by (auto simp: fun_upd_upd)
  have "sf_pc f3 t = SF_Signalled k ?n x" using f3(2) by simp
  from sf_step.erase [OF this] obtain f4 where f4: "sf_step t f3 f4" "sf_pc f4 = (sf_pc ?f)(t := SF_Returned ?n x True)"
    "sf_inflight f4 k = None" using f3 by (auto simp: fun_upd_upd)
  let ?s1 = "at t (LK_Flight c a b) ?st1 f1 s" and ?s2 = "at t (LK_Begun c a b e g) st2 f1 s"
  let ?s3 = "at t (LK_Checked c a b e) st2 f1 s" and ?s4 = "at t (LK_Flight c a b) st3 f2 s"
  let ?s5 = "at t (LK_Flight c a b) st3 f3 s" and ?s6 = "at t (LK_Flight c a b) (st3\<lparr>gc_active_captures := gc_active_captures st3 - 1\<rparr>) f4 s"
  have at_at: "at t p st f (at t p' st' f' s) = at t p st f s" for p st f p' st' f' by (simp add: at_def)
  have "lookup_step env (\<lambda>_. req) t s ?s1" by (rule lookup_step.fly_own [OF pc enter free f1(1)])
  moreover have "lookup_step env (\<lambda>_. req) t ?s1 ?s2"
    using lookup_step.fly_begin [of ?s1 t c a b k ?n env "\<lambda>_. req" e g st2] f1(2) b r(1) by (simp add: at_at) (simp add: at_def)
  moreover have "lookup_step env (\<lambda>_. req) t ?s2 ?s3"
    using lookup_step.fly_check [of ?s2 t c a b e g env "\<lambda>_. req"] ck2 by (simp add: at_def capture_check_def cache_ok_def)
  moreover have "lookup_step env (\<lambda>_. req) t ?s3 ?s4"
    using lookup_step.fly_insert [of ?s3 t c a b e env x st3 f2 k ?n "\<lambda>_. req"] i f2(1,2) by (simp add: at_def)
  moreover have "lookup_step env (\<lambda>_. req) t ?s4 ?s5"
    using lookup_step.fly_signal [of ?s4 t c a b k ?n x f3 env "\<lambda>_. req"] f2(2) f3(1) by (simp add: at_def)
  moreover have "lookup_step env (\<lambda>_. req) t ?s5 ?s6"
    using lookup_step.fly_erase [of ?s5 t c a b k ?n x f4 env "\<lambda>_. req"] f3(2) f4(1) by (simp add: at_def)
  ultimately have "lookup_run env (\<lambda>_. req) T s ?s6" by (meson T lookup_run.run_move lookup_run.run_start)
  moreover have "captures_of ?s6 = captures_of s + 1" using ins(4) r(3) by (simp add: at_def quiet_def)
  ultimately show thesis using that f4 ins(1) by (simp add: at_def only_moves_def)
qed

lemma schedule_finish:
  assumes T: "t \<in> T" and ok: "sys_ok g s" and pc: "ls_pc s t = LK_Flight c a b" and ret: "sf_pc (ls_flight s) t = SF_Returned n (Inr i) owned"
  obtains s' res where "lookup_run env (\<lambda>_. req) T s s'" "ls_pc s' t = LK_Done res" "ls_flight s' = ls_flight s" "only_moves {t} s s'"
    "captures_of s' = captures_of s"
proof -
  have av: "available (ls_cache s)" "cache_ok g (ls_cache s)" using flight_result [OF ok, of t] ret ok by (simp_all add: sys_ok_def)
  obtain again st where ag: "search_candidates env (make_facts req) (rq_policy req) (ls_cache s) = (again, st)" by fastforce
  note f = search_available [OF av(2,1) ag]
  have q: "quiet st (finish_hit env again req b st)" by (rule quiet_ops)
  show thesis
    using that [OF run_one [OF T lookup_step.again_hit [OF pc ret ag f(1)]]] f(5) q by (simp add: at_def only_moves_def quiet_def)
qed

lemma schedule_hit:
  assumes T: "t \<in> T" and ok: "sys_ok g s" and pc: "ls_pc s t = LK_Start" and av: "available (ls_cache s)"
  obtains s' res where "lookup_run env (\<lambda>_. req) T s s'" "ls_pc s' t = LK_Done res" "only_moves {t} s s'"
    "captures_of s' = captures_of s" "available (ls_cache s')"
proof -
  let ?st = "lookup_start env req (ls_cache s)"
  have q0: "quiet (ls_cache s) ?st" by (rule quiet_ops)
  have ck: "cache_ok g ?st" "available ?st" using quiet_ok [OF q0] ok av by (simp_all add: sys_ok_def)
  obtain cand st where ag: "search_candidates env (make_facts req) (rq_policy req) ?st = (cand, st)" by fastforce
  note f = search_available [OF ck ag]
  have q: "quiet st (finish_hit env cand req (fst (now_us env (ls_cache s))) st)" by (rule quiet_ops)
  have fs: "first_search env req (ls_cache s) = (cand, st)" using ag by (simp add: first_search_def)
  show thesis
    using that [OF run_one [OF T lookup_step.look_hit [OF pc fs f(1)]]] f(4,5) q q0 quiet_ok(2) [OF q]
    by (simp add: at_def only_moves_def quiet_def)
qed

lemma schedule_hits:
  assumes "sys_ok g s" and "\<forall>t \<in> set ts. ls_pc s t = LK_Start" and "available (ls_cache s)" and "distinct ts" and "set ts \<subseteq> T"
  shows "\<exists>s'. lookup_run env (\<lambda>_. req) T s s' \<and> (\<forall>t \<in> set ts. \<exists>res. ls_pc s' t = LK_Done res) \<and> only_moves (set ts) s s'
     \<and> captures_of s' = captures_of s"
  using assms
proof (induction ts arbitrary: s)
  case Nil
  then show ?case using lookup_run.run_start [of env "\<lambda>_. req" T s] by (auto simp: only_moves_def)
next
  case (Cons t ts)
  then have t: "ls_pc s t = LK_Start" and T: "t \<in> T" by simp_all
  obtain s1 res where s1: "lookup_run env (\<lambda>_. req) T s s1" "ls_pc s1 t = LK_Done res" "only_moves {t} s s1"
    "captures_of s1 = captures_of s" "available (ls_cache s1)"
    by (rule schedule_hit [OF T Cons.prems(1) t Cons.prems(3)])
  have "\<forall>u \<in> set ts. ls_pc s1 u = LK_Start" using s1(3) Cons.prems(2,4) by (auto simp: only_moves_def)
  from Cons.IH [OF lookup_run_ok [OF s1(1) Cons.prems(1)] this s1(5)] Cons.prems(4,5)
  obtain s' where s': "lookup_run env (\<lambda>_. req) T s1 s'" "\<forall>t \<in> set ts. \<exists>res. ls_pc s' t = LK_Done res" "only_moves (set ts) s1 s'"
    "captures_of s' = captures_of s1" by auto
  have "ls_pc s' t = LK_Done res" using s'(3) s1(2) Cons.prems(4) by (simp add: only_moves_def)
  then show ?case using run_trans [OF s'(1) s1(1)] s'(2-4) s1(3,4) by (intro exI [of _ s']) (auto simp: only_moves_def)
qed

text \<open>Threads that have their results go out of scope one after the other.\<close>

lemma schedule_leaves:
  assumes "\<forall>t \<in> set ts. \<exists>res. ls_pc s t = LK_Done res" and "distinct ts" and "set ts \<subseteq> T"
  shows "\<exists>s'. lookup_run env (\<lambda>_. req) T s s' \<and> (\<forall>t \<in> set ts. \<exists>res. ls_pc s' t = LK_Left res)
    \<and> (\<forall>t. t \<notin> set ts \<longrightarrow> ls_pc s' t = ls_pc s t) \<and> captures_of s' = captures_of s"
  using assms
proof (induction ts arbitrary: s)
  case Nil
  then show ?case using lookup_run.run_start [of env "\<lambda>_. req" T s] by auto
next
  case (Cons t ts)
  then obtain res where t: "ls_pc s t = LK_Done res" "t \<in> T" by auto
  let ?s = "at t (LK_Left res) (drop_result res (ls_cache s)) (ls_flight s) s"
  have "\<forall>u \<in> set ts. \<exists>res. ls_pc ?s u = LK_Done res" using Cons.prems(1,2) by (auto simp: at_def)
  with Cons.IH [OF this] Cons.prems(2,3) obtain s' where s': "lookup_run env (\<lambda>_. req) T ?s s'" "\<forall>t \<in> set ts. \<exists>res. ls_pc s' t = LK_Left res"
    "\<forall>t. t \<notin> set ts \<longrightarrow> ls_pc s' t = ls_pc ?s t" "captures_of s' = captures_of ?s" by auto
  have "lookup_run env (\<lambda>_. req) T s s'" using run_trans [OF s'(1) run_one [OF t(2) lookup_step.leave [OF t(1)]]] .
  then show ?case using s'(2-4) Cons.prems(2) by (intro exI [of _ s']) (auto simp: at_def drop_frame)
qed

end

end
