(* ===== verification/GC_LookupEnds.thy ===== *)
theory GC_LookupEnds
  imports GC_Concurrent
begin

text \<open>
  Concurrent lookups end: a step of a thread brings that thread closer to its return, and as long as a thread has not
  returned some thread can move. Nothing is assumed of the backend or of the requests here.
\<close>

section \<open>Threads and the wrapper agree\<close>

fun coupled :: "'x lookup_pc \<Rightarrow> 'r sf_pc \<Rightarrow> bool" where
  "coupled LK_Start p \<longleftrightarrow> (\<exists>k. p = SF_Enter k)"
| "coupled (LK_Begun c a b e g) p \<longleftrightarrow> (\<exists>k n. p = SF_Capturing k n)"
| "coupled (LK_Checked c a b e) p \<longleftrightarrow> (\<exists>k n. p = SF_Capturing k n)"
| "coupled (LK_Done res) p \<longleftrightarrow> (\<exists>k. p = SF_Enter k) \<or> (\<exists>n r w. p = SF_Returned n r w)"
| "coupled (LK_Left res) p \<longleftrightarrow> (\<exists>k. p = SF_Enter k) \<or> (\<exists>n r w. p = SF_Returned n r w)"
| "coupled (LK_Flight c a b) p \<longleftrightarrow> True"

definition agree :: "'x lookup_sys \<Rightarrow> bool" where
  "agree s \<longleftrightarrow> sf_inv (ls_flight s) \<and> (\<forall>t. coupled (ls_pc s t) (sf_pc (ls_flight s) t))"

lemma sf_step_others: "sf_step t f f' \<Longrightarrow> u \<noteq> t \<Longrightarrow> sf_pc f' u = sf_pc f u"
  by (induction rule: sf_step.induct) simp_all

lemma agree_init: "agree (lookup_sys_init reqs st)"
  by (simp add: agree_def lookup_sys_init_def sf_init_inv) (simp add: sf_init_def)

lemma agree_at:
  assumes "agree s" and "f = ls_flight s \<or> sf_step t (ls_flight s) f" and "coupled p (sf_pc f t)"
  shows "agree (at t p st f s)"
proof -
  have "sf_inv f" using assms(1,2) sf_step_inv by (auto simp: agree_def)
  moreover have "sf_pc f u = sf_pc (ls_flight s) u" if "u \<noteq> t" for u using assms(2) sf_step_others that by blast
  ultimately show ?thesis using assms(1,3) by (auto simp: agree_def at_def)
qed

lemma agree_step:
  assumes "lookup_step env reqs t s s'" and ag: "agree s"
  shows "agree s'"
proof -
  have c: "coupled (ls_pc s t) (sf_pc (ls_flight s) t)" using ag by (simp add: agree_def)
  from assms(1) show ?thesis
    by (cases rule: lookup_step.cases) (use c in \<open>auto intro!: agree_at [OF ag]\<close>)
qed

section \<open>Every step counts\<close>

fun sf_rank :: "'r sf_pc \<Rightarrow> nat" where
  "sf_rank (SF_Enter k) = 8"
| "sf_rank (SF_Capturing k n) = 7"
| "sf_rank (SF_Captured k n r) = 4"
| "sf_rank (SF_Signalled k n r) = 3"
| "sf_rank (SF_Waiting k n) = 3"
| "sf_rank (SF_Returned n r w) = 2"

fun pc_rank :: "'x lookup_pc \<Rightarrow> 'r sf_pc \<Rightarrow> nat" where
  "pc_rank LK_Start p = 9"
| "pc_rank (LK_Flight c a b) p = sf_rank p"
| "pc_rank (LK_Begun c a b e g) p = 6"
| "pc_rank (LK_Checked c a b e) p = 5"
| "pc_rank (LK_Done res) p = 1"
| "pc_rank (LK_Left res) p = 0"

definition rank :: "'x lookup_sys \<Rightarrow> nat \<Rightarrow> nat" where
  "rank s t = pc_rank (ls_pc s t) (sf_pc (ls_flight s) t)"

lemma sf_rank_step: "sf_step t f f' \<Longrightarrow> sf_rank (sf_pc f' t) < sf_rank (sf_pc f t)"
  by (induction rule: sf_step.induct) simp_all

lemma sf_rank_pos: "1 < sf_rank p"
  by (cases p) simp_all

lemma rank_others: "lookup_step env reqs t s s' \<Longrightarrow> u \<noteq> t \<Longrightarrow> rank s' u = rank s u"
  by (induction rule: lookup_step.induct) (auto simp: rank_def at_def sf_step_others)

lemma rank_step:
  assumes "lookup_step env reqs t s s'" and ag: "agree s"
  shows "rank s' t < rank s t"
proof -
  have "coupled (ls_pc s t) (sf_pc (ls_flight s) t)" using ag by (simp add: agree_def)
  with assms(1) show ?thesis
    by (induction rule: lookup_step.induct) (auto simp: rank_def at_def dest: sf_rank_step intro: sf_rank_pos [unfolded One_nat_def])
qed

section \<open>Somebody can move\<close>

lemma owner_moves:
  assumes ag: "agree s" and own: "owner_of (sf_pc (ls_flight s) t) = Some (k, n)"
  shows "\<exists>s'. lookup_step env reqs t s s'"
proof (cases "ls_pc s t")
  case (LK_Flight c a b)
  then show ?thesis
  proof (cases "sf_pc (ls_flight s) t")
    case (SF_Capturing k n)
    obtain r st where b: "capture_begin env (reqs t) a (ls_cache s) = (r, st)" by fastforce
    show ?thesis
    proof (cases r)
      case (Inl err)
      show ?thesis
        by (rule exI, rule lookup_step.fly_begin_fails [where env = env and reqs = reqs and t = t, OF LK_Flight SF_Capturing b [unfolded Inl] sf_step.capture [OF SF_Capturing, of "Inl err"]]) simp
    next
      case (Inr x)
      obtain e g where "x = (e, g)" by fastforce
      then show ?thesis using lookup_step.fly_begin [where env = env and reqs = reqs and t = t, OF LK_Flight SF_Capturing] b Inr by blast
    qed
  next
    case (SF_Captured k n r)
    then show ?thesis using lookup_step.fly_signal [OF LK_Flight SF_Captured sf_step.signal [OF SF_Captured]] by blast
  next
    case (SF_Signalled k n r)
    then show ?thesis using lookup_step.fly_erase [OF LK_Flight SF_Signalled sf_step.erase [OF SF_Signalled]] by blast
  qed (use own in auto)
next
  case (LK_Begun c a b e g)
  then obtain k n where sc: "sf_pc (ls_flight s) t = SF_Capturing k n" using ag by (metis agree_def coupled.simps(2))
  show ?thesis
  proof (cases "capture_check g (ls_cache s)")
    case (Inl err)
    show ?thesis
      by (rule exI, rule lookup_step.fly_stale [OF LK_Begun Inl sf_step.capture [OF sc, of "Inl err"]]) simp
  next
    case (Inr u)
    then show ?thesis using lookup_step.fly_check [OF LK_Begun] by auto
  qed
next
  case (LK_Checked c a b e)
  then obtain k n where sc: "sf_pc (ls_flight s) t = SF_Capturing k n" using ag by (metis agree_def coupled.simps(3))
  obtain r st where i: "capture_insert env e (ls_cache s) = (r, st)" by fastforce
  show ?thesis
    by (rule exI, rule lookup_step.fly_insert [OF LK_Checked i sf_step.capture [OF sc, of r]]) simp
qed (use ag own in \<open>auto simp: agree_def dest!: spec [of _ t]\<close>)

lemma somebody_moves:
  assumes ag: "agree s" and "\<And>res. ls_pc s t \<noteq> LK_Left res"
  shows "(\<exists>s'. lookup_step env reqs t s s') \<or> (\<exists>u k n s'. owner_of (sf_pc (ls_flight s) u) = Some (k, n) \<and> lookup_step env reqs u s s')"
proof (cases "owner_of (sf_pc (ls_flight s) t) = None")
  case False
  then show ?thesis using owner_moves [OF ag] by auto
next
  case True
  have c: "coupled (ls_pc s t) (sf_pc (ls_flight s) t)" using ag by (simp add: agree_def)
  show ?thesis
  proof (cases "ls_pc s t")
    case LK_Start
    obtain cand st where f: "first_search env (reqs t) (ls_cache s) = (cand, st)" by fastforce
    obtain res st' where m: "finish_miss env (cand\<lparr>lr_reason_text := miss_reason (lr_outcome cand)\<rparr>) (fst (now_us env (ls_cache s))) (count_miss (reqs t) st) = (res, st')"
      by fastforce
    show ?thesis
      using lookup_step.look_hit [where env = env and reqs = reqs and t = t, OF LK_Start f] lookup_step.look_miss [where env = env and reqs = reqs and t = t, OF LK_Start f _ _ refl] lookup_step.look_refused [where env = env and reqs = reqs and t = t, OF LK_Start f _ _ m] by blast
  next
    case (LK_Flight ca a b)
    show ?thesis
    proof (cases "sf_pc (ls_flight s) t")
      case (SF_Enter k)
      show ?thesis
        using lookup_step.fly_own [OF LK_Flight SF_Enter _ sf_step.own [OF SF_Enter]] lookup_step.fly_join [OF LK_Flight SF_Enter _ sf_step.join [OF SF_Enter]]
        by (cases "sf_inflight (ls_flight s) k") blast+
    next
      case (SF_Waiting k n)
      have inv: "sf_inv (ls_flight s)" using ag by (simp add: agree_def)
      show ?thesis
      proof (cases "ca_done (sf_attempts (ls_flight s) n)")
        case True
        then obtain r where "ca_res (sf_attempts (ls_flight s) n) = Some r"
          using sf_invD(1) [OF inv, of t] sf_invD(3) [OF inv, of n] SF_Waiting by auto
        then show ?thesis using lookup_step.fly_wake [OF LK_Flight SF_Waiting sf_step.wake [OF SF_Waiting True]] by blast
      next
        case False
        then have "sf_inflight (ls_flight s) k = Some n" using sf_invD(1) [OF inv, of t] SF_Waiting by simp
        then obtain u where "owner_of (sf_pc (ls_flight s) u) = Some (k, n)" using sf_invD(2) [OF inv] by blast
        then show ?thesis using owner_moves [OF ag] by blast
      qed
    next
      case (SF_Returned n r w)
      show ?thesis
      proof (cases r)
        case (Inl err)
        then show ?thesis using lookup_step.flight_failed [OF LK_Flight SF_Returned [unfolded Inl] surjective_pairing] by blast
      next
        case (Inr i)
        obtain again st where s2: "search_candidates env (make_facts (reqs t)) (rq_policy (reqs t)) (ls_cache s) = (again, st)" by fastforce
        show ?thesis
          using lookup_step.again_hit [where env = env and reqs = reqs and t = t, OF LK_Flight SF_Returned [unfolded Inr] s2] lookup_step.again_miss [where env = env and reqs = reqs and t = t, OF LK_Flight SF_Returned [unfolded Inr] s2 _ surjective_pairing] by blast
      qed
    qed (use True in simp_all)
  qed (use c True assms(2) lookup_step.leave [of s t] in auto)
qed

section \<open>Runs of finitely many threads\<close>

text \<open>A run with the number of its steps.\<close>

inductive counted_run :: "'x cache_env \<Rightarrow> (nat \<Rightarrow> GraphLookupRequest) \<Rightarrow> nat set \<Rightarrow> 'x lookup_sys \<Rightarrow> nat \<Rightarrow> 'x lookup_sys \<Rightarrow> bool"
  for env reqs T s where
  no_steps: "counted_run env reqs T s 0 s"
| one_more: "counted_run env reqs T s n s' \<Longrightarrow> t \<in> T \<Longrightarrow> lookup_step env reqs t s' s'' \<Longrightarrow> counted_run env reqs T s (Suc n) s''"

lemma lookup_run_counted: "lookup_run env reqs T s s' \<longleftrightarrow> (\<exists>n. counted_run env reqs T s n s')"
proof
  show "lookup_run env reqs T s s' \<Longrightarrow> \<exists>n. counted_run env reqs T s n s'"
    by (induction rule: lookup_run.induct) (auto intro: counted_run.intros)
  assume "\<exists>n. counted_run env reqs T s n s'"
  then obtain n where "counted_run env reqs T s n s'" by blast
  then show "lookup_run env reqs T s s'" by (induction rule: counted_run.induct) (auto intro: lookup_run.intros)
qed

lemma agree_counted: "counted_run env reqs T s n s' \<Longrightarrow> agree s \<Longrightarrow> agree s'"
  by (induction rule: counted_run.induct) (auto intro: agree_step)

lemma rank_counted:
  assumes "counted_run env reqs T s n s'" and "agree s" and "finite T"
  shows "sum (rank s') T + n \<le> sum (rank s) T"
  using assms(1)
proof (induction rule: counted_run.induct)
  case (one_more n s' t s'')
  have "sum (rank s'') T < sum (rank s') T"
  proof (rule sum_strict_mono_ex1 [OF assms(3)])
    have "rank s'' t < rank s' t" using rank_step [OF one_more(3) agree_counted [OF one_more(1) assms(2)]] .
    then show "\<exists>u \<in> T. rank s'' u < rank s' u" using one_more(2) by blast
    then show "\<forall>u \<in> T. rank s'' u \<le> rank s' u"
      using rank_others [OF one_more(3)] \<open>rank s'' t < rank s' t\<close> by (metis le_less)
  qed
  then show ?case using one_more.IH by simp
qed simp

lemma bystanders: "counted_run env reqs T s n s' \<Longrightarrow> u \<notin> T \<Longrightarrow> sf_pc (ls_flight s') u = sf_pc (ls_flight s) u"
proof (induction rule: counted_run.induct)
  case (one_more n s' t s'')
  then have "u \<noteq> t" by blast
  with one_more(3) have "sf_pc (ls_flight s'') u = sf_pc (ls_flight s') u"
    by (cases rule: lookup_step.cases) (auto simp: at_def sf_step_others)
  then show ?case using one_more.IH one_more.prems by simp
qed simp

text \<open>A run that cannot go on has brought every thread to its end.\<close>

lemma stuck_done:
  assumes run: "counted_run env reqs T (lookup_sys_init reqs st) n s"
    and stuck: "\<And>t s'. t \<in> T \<Longrightarrow> \<not> lookup_step env reqs t s s'" and t: "t \<in> T"
  shows "\<exists>res. ls_pc s t = LK_Left res"
proof (rule ccontr)
  assume "\<nexists>res. ls_pc s t = LK_Left res"
  then obtain u k n' s' where u: "owner_of (sf_pc (ls_flight s) u) = Some (k, n')" "lookup_step env reqs u s s'"
    using somebody_moves [OF agree_counted [OF run agree_init], of t env reqs] stuck t by blast
  have "u \<in> T"
  proof (rule ccontr)
    assume "u \<notin> T"
    from bystanders [OF run this] u(1) show False by (simp add: lookup_sys_init_def sf_init_def)
  qed
  then show False using stuck u(2) by blast
qed

text \<open>A run that stops early can be taken further, until no thread can move.\<close>

lemma counted_trans: "counted_run env reqs T b m c \<Longrightarrow> counted_run env reqs T a n b \<Longrightarrow> counted_run env reqs T a (n + m) c"
  by (induction rule: counted_run.induct) (auto intro: counted_run.intros)

lemma run_completes:
  assumes "finite T" and "agree s"
  shows "\<exists>n s'. counted_run env reqs T s n s' \<and> (\<forall>t \<in> T. \<forall>s''. \<not> lookup_step env reqs t s' s'')"
  using assms(2)
proof (induction "sum (rank s) T" arbitrary: s rule: less_induct)
  case less
  show ?case
  proof (cases "\<exists>t \<in> T. \<exists>s'. lookup_step env reqs t s s'")
    case True
    then obtain t s' where t: "t \<in> T" "lookup_step env reqs t s s'" by blast
    have one: "counted_run env reqs T s (Suc 0) s'" by (rule counted_run.one_more [OF counted_run.no_steps t])
    then have "sum (rank s') T < sum (rank s) T" using rank_counted [OF one less.prems assms(1)] by simp
    from less.hyps [OF this agree_step [OF t(2) less.prems]] show ?thesis using counted_trans [OF _ one] by blast
  qed (use counted_run.no_steps in blast)
qed

section \<open>One thread alone\<close>

text \<open>
  What remains of a lookup: its result and the cache it leaves when no other thread moves, from each point it may stand at.
\<close>

definition after_flight :: "'x cache_env \<Rightarrow> GraphLookupRequest \<Rightarrow> 'x GraphLookupResult \<Rightarrow> u64 \<Rightarrow> GraphArtifactId Result \<Rightarrow> bool
    \<Rightarrow> 'x GraphCache \<Rightarrow> 'x GraphLookupResult \<times> 'x GraphCache" where
  "after_flight env req cand start r owned st = (case r of
       Inl err \<Rightarrow> finish_miss env (cand\<lparr>lr_capture_started := True, lr_waited_on_capture := \<not> owned, lr_outcome := LO_MissCaptureRequired,
         lr_reason_text := ''capture failed: '' @ err_message err\<rparr>) start
         (touch_metric (\<lambda>m. m\<lparr>m_capture_failures := m_capture_failures m + 1\<rparr>) st)
     | Inr _ \<Rightarrow> (case search_candidates env (make_facts req) (rq_policy req) st of (again, st) \<Rightarrow>
         if lr_hit again then (captured_result owned again, finish_hit env again req start st)
         else finish_miss env (cand\<lparr>lr_capture_started := True, lr_waited_on_capture := \<not> owned, lr_outcome := LO_MissIncompatible,
           lr_reason_text := ''capture completed but no compatible candidate is replay-eligible''\<rparr>) start st))"

definition own_flight :: "'x cache_env \<Rightarrow> GraphLookupRequest \<Rightarrow> 'x GraphLookupResult \<Rightarrow> u64 \<Rightarrow> GraphArtifactId Result \<times> 'x GraphCache
    \<Rightarrow> 'x GraphLookupResult \<times> 'x GraphCache" where
  "own_flight env req cand start x = (case x of (r, st) \<Rightarrow>
     after_flight env req cand start r True (st\<lparr>gc_active_captures := gc_active_captures st - 1\<rparr>))"

fun flight_ahead :: "'x cache_env \<Rightarrow> GraphLookupRequest \<Rightarrow> 'x GraphLookupResult \<Rightarrow> CaptureAttemptId \<Rightarrow> u64 \<Rightarrow> GraphArtifactId Result sf_pc
    \<Rightarrow> 'x GraphCache \<Rightarrow> 'x GraphLookupResult \<times> 'x GraphCache" where
  "flight_ahead env req c a b (SF_Enter k) st =
     own_flight env req c b (capture_graph env req a (st\<lparr>gc_active_captures := gc_active_captures st + 1\<rparr>))"
| "flight_ahead env req c a b (SF_Capturing k n) st = own_flight env req c b (capture_graph env req a st)"
| "flight_ahead env req c a b (SF_Captured k n r) st = own_flight env req c b (r, st)"
| "flight_ahead env req c a b (SF_Signalled k n r) st = own_flight env req c b (r, st)"
| "flight_ahead env req c a b (SF_Returned n r w) st = after_flight env req c b r w st"
| "flight_ahead env req c a b (SF_Waiting k n) st = (c, st)"

fun ahead :: "'x cache_env \<Rightarrow> GraphLookupRequest \<Rightarrow> 'x lookup_pc \<Rightarrow> GraphArtifactId Result sf_pc \<Rightarrow> 'x GraphCache
    \<Rightarrow> 'x GraphLookupResult \<times> 'x GraphCache" where
  "ahead env req LK_Start p st = lookup env req st"
| "ahead env req (LK_Flight c a b) p st = flight_ahead env req c a b p st"
| "ahead env req (LK_Begun c a b e g) p st = own_flight env req c b (capture_publish env e g st)"
| "ahead env req (LK_Checked c a b e) p st = own_flight env req c b (capture_insert env e st)"
| "ahead env req (LK_Done res) p st = (res, st)"
| "ahead env req (LK_Left res) p st = (res, st)"

definition ahead_of :: "'x cache_env \<Rightarrow> GraphLookupRequest \<Rightarrow> nat \<Rightarrow> 'x lookup_sys \<Rightarrow> 'x GraphLookupResult \<times> 'x GraphCache" where
  "ahead_of env req t s = ahead env req (ls_pc s t) (sf_pc (ls_flight s) t) (ls_cache s)"

text \<open>A lookup from its first search on.\<close>

lemma lookup_ahead:
  assumes "first_search env req st = (cand, st2)"
  shows "lr_hit cand \<Longrightarrow> lookup env req st = (cand, finish_hit env cand req (fst (now_us env st)) st2)"
    and "\<not> lr_hit cand \<Longrightarrow> \<not> may_capture req st2 cand \<Longrightarrow> lookup env req st
      = finish_miss env (cand\<lparr>lr_reason_text := miss_reason (lr_outcome cand)\<rparr>) (fst (now_us env st)) (count_miss req st2)"
    and "\<not> lr_hit cand \<Longrightarrow> may_capture req st2 cand \<Longrightarrow> st3 = count_miss req st2 \<Longrightarrow> lookup env req st
      = flight_ahead env req cand (CaptureAttemptId (gc_capture_counter st3 + 1)) (fst (now_us env st)) (SF_Enter k)
          (st3\<lparr>gc_capture_counter := gc_capture_counter st3 + 1\<rparr>)"
proof -
  obtain sp owned st3' where c: "lookup_capture env req st2 = ((sp, owned), st3')" by (metis surj_pair)
  obtain again st4 where s: "search_candidates env (make_facts req) (rq_policy req) st3' = (again, st4)" by fastforce
  note eq = lookup_eq [OF assms [unfolded first_search_def] c s]
  show "lr_hit cand \<Longrightarrow> lookup env req st = (cand, finish_hit env cand req (fst (now_us env st)) st2)" using eq by simp
  show "\<not> lr_hit cand \<Longrightarrow> \<not> may_capture req st2 cand \<Longrightarrow> lookup env req st
      = finish_miss env (cand\<lparr>lr_reason_text := miss_reason (lr_outcome cand)\<rparr>) (fst (now_us env st)) (count_miss req st2)"
    using eq by (auto simp: may_capture_def count_miss_def Let_def)
  assume "\<not> lr_hit cand" "may_capture req st2 cand" "st3 = count_miss req st2"
  then show "lookup env req st
      = flight_ahead env req cand (CaptureAttemptId (gc_capture_counter st3 + 1)) (fst (now_us env st)) (SF_Enter k)
          (st3\<lparr>gc_capture_counter := gc_capture_counter st3 + 1\<rparr>)"
    using eq c s
    by (auto simp: may_capture_def count_miss_def lookup_capture_def run_single_flight_def own_flight_def after_flight_def captured_result_def
        Let_def case_prod_unfold split: sum.splits)
qed

text \<open>With nobody else in flight, a step does not change what the lookup comes to.\<close>

definition solo :: "nat \<Rightarrow> 'x lookup_sys \<Rightarrow> bool" where
  "solo t s \<longleftrightarrow> (\<forall>u. u \<noteq> t \<longrightarrow> owner_of (sf_pc (ls_flight s) u) = None) \<and> (\<forall>k n. sf_pc (ls_flight s) t \<noteq> SF_Waiting k n)"

lemma solo_free:
  assumes "agree s" and "solo t s" and "sf_pc (ls_flight s) t = SF_Enter k"
  shows "sf_inflight (ls_flight s) k' = None"
proof (rule ccontr)
  assume "sf_inflight (ls_flight s) k' \<noteq> None"
  then obtain u n where "owner_of (sf_pc (ls_flight s) u) = Some (k', n)" using sf_invD(2) assms(1) by (fastforce simp: agree_def)
  then show False using assms(2,3) by (cases "u = t") (auto simp: solo_def)
qed

lemma solo_step:
  assumes "lookup_step env reqs t s s'" and ag: "agree s" and so: "solo t s"
  shows "solo t s'"
proof -
  have other: "owner_of (sf_pc (ls_flight s') u) = None" if "u \<noteq> t" for u
    using assms(1) so that by (cases rule: lookup_step.cases) (auto simp: at_def solo_def sf_step_others)
  have "\<forall>k n. sf_pc (ls_flight s') t \<noteq> SF_Waiting k n"
    using assms(1) so solo_free [OF ag so]
    by (cases rule: lookup_step.cases) (auto simp: at_def solo_def elim: sf_step.cases)
  then show ?thesis using other by (simp add: solo_def)
qed

lemma flight_moves:
  "sf_step t f f' \<Longrightarrow> sf_pc f t = SF_Enter k \<Longrightarrow> sf_inflight f k = None \<Longrightarrow> sf_pc f' t = SF_Capturing k (sf_next f)"
  "sf_step t f f' \<Longrightarrow> sf_pc f t = SF_Captured k n r \<Longrightarrow> sf_pc f' t = SF_Signalled k n r"
  "sf_step t f f' \<Longrightarrow> sf_pc f t = SF_Signalled k n r \<Longrightarrow> sf_pc f' t = SF_Returned n r True"
  by (erule sf_step.cases; simp)+

lemma ahead_step:
  assumes "lookup_step env reqs t s s'" and ag: "agree s" and so: "solo t s" and nl: "\<And>res. ls_pc s' t \<noteq> LK_Left res"
  shows "ahead_of env (reqs t) t s' = ahead_of env (reqs t) t s"
  using assms(1)
proof (cases rule: lookup_step.cases)
  case (fly_join cand att start k n f)
  then show ?thesis using solo_free [OF ag so fly_join(3)] by simp
next
  case (fly_wake cand att start k n f)
  then show ?thesis using so by (simp add: solo_def)
next
  case (leave res)
  then show ?thesis using nl [of res] by (simp add: at_def)
next
  case (look_miss cand st st')
  obtain k where "sf_pc (ls_flight s) t = SF_Enter k" using ag look_miss(2) by (metis agree_def coupled.simps(1))
  then show ?thesis using look_miss lookup_ahead(3) [OF look_miss(3-6), of k] by (simp add: ahead_of_def at_def)
qed (auto simp: ahead_of_def at_def lookup_ahead flight_moves own_flight_def after_flight_def capture_graph_def capture_publish_def)

lemma left_stays: "lookup_step env reqs t s s' \<Longrightarrow> ls_pc s t \<noteq> LK_Left res"
  by (auto elim: lookup_step.cases)

lemma ahead_run:
  assumes "counted_run env reqs {t} s n s'" and "agree s" and "solo t s"
  shows "solo t s'" and "(\<And>res. ls_pc s' t \<noteq> LK_Left res) \<Longrightarrow> ahead_of env (reqs t) t s' = ahead_of env (reqs t) t s"
proof -
  have "solo t s' \<and> ((\<forall>res. ls_pc s' t \<noteq> LK_Left res) \<longrightarrow> ahead_of env (reqs t) t s' = ahead_of env (reqs t) t s)"
    using assms(1)
  proof (induction rule: counted_run.induct)
    case (one_more n s' u s'')
    have st: "lookup_step env reqs t s' s''" and ag: "agree s'" using one_more agree_counted [OF _ assms(2)] by auto
    show ?case
      using solo_step [OF st ag] ahead_step [OF st ag] left_stays [OF st] one_more.IH by auto
  qed (use assms in simp)
  then show "solo t s'" "(\<And>res. ls_pc s' t \<noteq> LK_Left res) \<Longrightarrow> ahead_of env (reqs t) t s' = ahead_of env (reqs t) t s" by auto
qed

lemma solo_init: "solo t (lookup_sys_init reqs st)"
  by (simp add: solo_def lookup_sys_init_def sf_init_def)

lemma ahead_init: "ahead_of env (reqs t) t (lookup_sys_init reqs st) = lookup env (reqs t) st"
  by (simp add: ahead_of_def lookup_sys_init_def)

end
