(* ===== verification/GC_Examples.thy ===== *)
theory GC_Examples
  imports GC_Chain GC_Observe
begin

text \<open>
  The sample programs of \<open>examples/\<close> that run in one process: each builds requests with the helpers of
  \<open>examples/common.hpp\<close>, calls the cache engine and exits with 0 when the cache did what the program shows.

  A program is a function from the machine (the engine's environment) to its exit code; \<open>None\<close> is a run that ends
  in an exception or in undefined behaviour. What the programs print is left out. A directory of the persistence
  samples is new, so the store starts empty. As in the CPU backend, arithmetic on floats is the parameter
  \<open>float_ops\<close>, with \<open>to_f64\<close> for the widening of a \<open>float\<close>; \<open>far x y\<close> is \<open>fabs(x - y) > 1e-4\<close>.
\<close>

section \<open>Shared helpers\<close>

definition GraphLookupRequest_default :: GraphLookupRequest where
  "GraphLookupRequest_default = \<lparr>rq_workload = WorkloadIdentity_default, rq_backend = BackendIdentity_default,
     rq_runtime = RuntimeDescriptor_default, rq_device = DeviceDescriptor_default, rq_descriptor = GraphDescriptor_default,
     rq_policy = policy_default, rq_allow_capture = True, rq_graph_name = []\<rparr>"

definition request_kernel :: "u64 \<Rightarrow> KernelIdentityRef" where
  "request_kernel depgen = KernelIdentityRef_default\<lparr>k_name := ''scale'', k_hi := 0x5000, k_lo := 1,
     k_generation := GraphGeneration depgen, k_abi := 1, k_digest := ''k-scale'', k_contributes := True\<rparr>"

definition request_copy :: "u64 \<Rightarrow> bool \<Rightarrow> GraphNodeDescriptor" where
  "request_copy bytes rebindable = GraphNodeDescriptor_default\<lparr>n_id := GraphNodeId 1 1, n_category := NC_MemoryCopy,
     n_name := ''copy'', n_memory_bytes := bytes, n_inputs := [0], n_outputs := [0],
     n_binding := BindingDescriptor_default\<lparr>bd_class := BC_ReplayMutable, bd_rebinding_eligible := rebindable\<rparr>\<rparr>"

definition request_scale :: "f64 \<Rightarrow> u64 \<Rightarrow> u64 \<Rightarrow> bool \<Rightarrow> GraphNodeDescriptor" where
  "request_scale scalar bytes depgen rebindable = GraphNodeDescriptor_default\<lparr>n_id := GraphNodeId 2 2, n_category := NC_Kernel,
     n_name := ''scale'', n_kernel := request_kernel depgen, n_memory_bytes := bytes,
     n_shape := ShapeDescriptor_default\<lparr>sh_dims := [bytes div 4]\<rparr>, n_datatype := DT_F32, n_layout := TL_Contiguous,
     n_scalar := ScalarSpecialization_default\<lparr>sc_specialized := True, sc_float := scalar\<rparr>,
     n_binding := BindingDescriptor_default\<lparr>bd_class := BC_ReplayMutable, bd_rebinding_eligible := rebindable\<rparr>,
     n_inputs := [0], n_outputs := [0]\<rparr>"

definition request_edge :: GraphEdgeDescriptor where
  "request_edge = GraphEdgeDescriptor_default\<lparr>e_id := GraphEdgeId 1 1, e_from := GraphNodeId 1 1, e_to := GraphNodeId 2 2,
     e_kind := DK_Execution\<rparr>"

definition cpu_request :: "float_ops \<Rightarrow> (f32 \<Rightarrow> f64) \<Rightarrow> string \<Rightarrow> f64 \<Rightarrow> u64 \<Rightarrow> u64 \<Rightarrow> bool \<Rightarrow> GraphLookupRequest" where
  "cpu_request fl to_f64 name alpha bytes depgen rebindable =
     (let bk = BackendIdentity_default\<lparr>bk_kind := BK_Cpu, bk_name := ''cpu'', bk_version := 1\<rparr>;
          rt = RuntimeDescriptor_default\<lparr>rt_version := 1, rt_graph_abi := 1, rt_kernel_abi := 1\<rparr>;
          dev = DeviceDescriptor_default\<lparr>dev_vendor := AV_Cpu, dev_arch := ''cpu''\<rparr>;
          c = request_copy bytes rebindable;
          k = request_scale (to_f64 (fl_of_f64 fl alpha)) bytes depgen rebindable
      in GraphLookupRequest_default\<lparr>rq_workload := WorkloadIdentity_default\<lparr>wl_name := name, wl_version := 1\<rparr>,
           rq_backend := bk, rq_runtime := rt, rq_device := dev,
           rq_descriptor := GraphDescriptor_default\<lparr>g_backend := bk, g_runtime := rt, g_device := dev,
             g_nodes := [c, k], g_edges := [request_edge], g_dependencies := [n_kernel k]\<rparr>\<rparr>)"

text \<open>The call with its default arguments: \<open>alpha = 2.0\<close>, 64 bytes, generation 1, rebindable.\<close>

definition default_request :: "float_ops \<Rightarrow> (f32 \<Rightarrow> f64) \<Rightarrow> string \<Rightarrow> GraphLookupRequest" where
  "default_request fl to_f64 name = cpu_request fl to_f64 name 0x4000000000000000 64 1 True"

definition reference :: "float_ops \<Rightarrow> f32 list \<Rightarrow> f64 \<Rightarrow> f32 list" where
  "reference fl inp alpha = map (\<lambda>x. fl_mul fl (fl_of_f64 fl alpha) x) inp"

fun verify_output :: "(f32 \<Rightarrow> f32 \<Rightarrow> bool) \<Rightarrow> f32 list \<Rightarrow> f32 list \<Rightarrow> nat" where
  "verify_output far (x # out) (y # expected) = (if far x y then 1 else verify_output far out expected)"
| "verify_output far out expected = 0"

definition replay_request :: "'x GraphLookupResult \<Rightarrow> f32 list \<Rightarrow> 'x GraphReplayRequest" where
  "replay_request r inp = \<lparr>rr_expected = lr_generation r, rr_lease = lr_lease r, rr_buffers = replay_buffers inp,
     rr_descriptor = \<lparr>rd_attempt = ReplayAttemptId 1, rd_timestamp_ms = 0, rd_expected_replays = 1, rd_reason = []\<rparr>\<rparr>"

definition replay_and_check :: "float_ops \<Rightarrow> (f32 \<Rightarrow> f32 \<Rightarrow> bool) \<Rightarrow> 'x cache_env \<Rightarrow> 'x GraphLookupResult \<Rightarrow> f32 list \<Rightarrow> f64
    \<Rightarrow> 'x GraphCache \<Rightarrow> (nat \<times> 'x GraphCache) option" where
  "replay_and_check fl far env r inp alpha st =
     (case replay env (replay_request r inp) (st, replay_memory inp) of
        None \<Rightarrow> None
      | Some (Inl _, st, mem) \<Rightarrow> Some (1, st)
      | Some (Inr _, st, mem) \<Rightarrow> (case mem 1 of
            None \<Rightarrow> None
          | Some out \<Rightarrow> Some (verify_output far (floats_of out) (reference fl inp alpha), st)))"

definition open_cache :: "GraphCacheConfig \<Rightarrow> files \<Rightarrow> 'x GraphCache option" where
  "open_cache cfg fs = cache_new cfg (create_backend () Map.empty (cfg_backend_kind cfg)) fs"

section \<open>Programs over one cache\<close>

definition basic_request :: GraphLookupRequest where
  "basic_request =
     (let bk = BackendIdentity_default\<lparr>bk_kind := BK_Cpu, bk_name := ''cpu''\<rparr>;
          rt = RuntimeDescriptor_default\<lparr>rt_version := 1, rt_graph_abi := 1, rt_kernel_abi := 1\<rparr>;
          dev = DeviceDescriptor_default\<lparr>dev_vendor := AV_Cpu, dev_arch := ''cpu''\<rparr>;
          c = GraphNodeDescriptor_default\<lparr>n_id := GraphNodeId 1 1, n_category := NC_MemoryCopy, n_name := ''copy'',
                n_memory_bytes := 64, n_inputs := [0], n_outputs := [0],
                n_binding := BindingDescriptor_default\<lparr>bd_rebinding_eligible := True\<rparr>\<rparr>;
          k = GraphNodeDescriptor_default\<lparr>n_id := GraphNodeId 2 2, n_category := NC_Kernel, n_name := ''scale'',
                n_kernel := KernelIdentityRef_default\<lparr>k_name := ''scale'', k_contributes := True\<rparr>, n_memory_bytes := 64,
                n_shape := ShapeDescriptor_default\<lparr>sh_dims := [16]\<rparr>, n_datatype := DT_F32,
                n_scalar := ScalarSpecialization_default\<lparr>sc_specialized := True, sc_float := 0x4000000000000000\<rparr>,
                n_inputs := [0], n_outputs := [0],
                n_binding := BindingDescriptor_default\<lparr>bd_rebinding_eligible := True\<rparr>\<rparr>
      in GraphLookupRequest_default\<lparr>rq_workload := WorkloadIdentity_default\<lparr>wl_name := ''example'', wl_version := 1\<rparr>,
           rq_backend := bk, rq_runtime := rt, rq_device := dev,
           rq_descriptor := GraphDescriptor_default\<lparr>g_backend := bk, g_runtime := rt, g_device := dev,
             g_nodes := [c, k], g_edges := [request_edge]\<rparr>\<rparr>)"

definition basic_cpu_main :: "'x cache_env \<Rightarrow> nat option" where
  "basic_cpu_main env = do {
     st \<leftarrow> open_cache GraphCacheConfig_default Map.empty;
     let (r, st) = lookup env basic_request st;
     if \<not> lr_hit r then Some 1
     else do {
       (rep, st, mem) \<leftarrow> replay env (replay_request r (replicate 16 0x3f800000)) (st, replay_memory (replicate 16 0x3f800000));
       let (r2, st) = lookup env basic_request st;
       Some (if result_ok rep \<and> lr_hit r2 then 0 else 1) } }"

definition exact_hit_main :: "float_ops \<Rightarrow> (f32 \<Rightarrow> f64) \<Rightarrow> 'x cache_env \<Rightarrow> nat option" where
  "exact_hit_main fl to_f64 env = do {
     st \<leftarrow> open_cache GraphCacheConfig_default Map.empty;
     let req = default_request fl to_f64 ''exact_hit'';
     let (r1, st) = lookup env req st;
     if \<not> lr_hit r1 then Some 1
     else let (r2, st) = lookup env req st
       in Some (if lr_hit r2 \<and> lr_artifact r1 = lr_artifact r2 then 0 else 1) }"

text \<open>Assigning to a member of the request's second node.\<close>

definition set_node1 :: "(GraphNodeDescriptor \<Rightarrow> GraphNodeDescriptor) \<Rightarrow> GraphLookupRequest \<Rightarrow> GraphLookupRequest" where
  "set_node1 f req = req\<lparr>rq_descriptor := (rq_descriptor req)\<lparr>g_nodes :=
     (g_nodes (rq_descriptor req))[1 := f (g_nodes (rq_descriptor req) ! 1)]\<rparr>\<rparr>"

definition compatibility_rejection_main :: "float_ops \<Rightarrow> (f32 \<Rightarrow> f64) \<Rightarrow> 'x cache_env \<Rightarrow> nat option" where
  "compatibility_rejection_main fl to_f64 env = do {
     st \<leftarrow> open_cache GraphCacheConfig_default Map.empty;
     let req = default_request fl to_f64 ''compat_reject'';
     let (r1, st) = lookup env req st;
     if \<not> lr_hit r1 then Some 1
     else let req2 = (set_node1 (\<lambda>n. n\<lparr>n_datatype := DT_F16\<rparr>) req)\<lparr>rq_allow_capture := False\<rparr>;
              (r2, st) = lookup env req2 st
       in Some (if \<not> lr_hit r2 then 0 else 1) }"

definition dependency_invalidation_main :: "float_ops \<Rightarrow> (f32 \<Rightarrow> f64) \<Rightarrow> 'x cache_env \<Rightarrow> nat option" where
  "dependency_invalidation_main fl to_f64 env = do {
     st \<leftarrow> open_cache GraphCacheConfig_default Map.empty;
     let req = default_request fl to_f64 ''dep_inval'';
     let (r1, st) = lookup env req st;
     if \<not> lr_hit r1 then Some 1
     else let deps = g_dependencies (rq_descriptor req);
              req2 = req\<lparr>rq_descriptor := (rq_descriptor req)\<lparr>g_dependencies :=
                  deps[0 := (deps ! 0)\<lparr>k_generation := GraphGeneration 9\<rparr>]\<rparr>, rq_allow_capture := False\<rparr>;
              (r2, st) = lookup env req2 st
       in Some (if \<not> lr_hit r2 then 0 else 1) }"

definition lease_invalidation_main :: "float_ops \<Rightarrow> (f32 \<Rightarrow> f64) \<Rightarrow> 'x cache_env \<Rightarrow> nat option" where
  "lease_invalidation_main fl to_f64 env = do {
     st \<leftarrow> open_cache GraphCacheConfig_default Map.empty;
     let req = default_request fl to_f64 ''lease_inval'';
     let (r1, st) = lookup env req st;
     if \<not> lr_hit r1 then Some 1
     else let (iv, st) = invalidate env (InvalidationRequest_default\<lparr>ir_scope := IS_ByWorkload,
                ir_workload := WorkloadIdentity_default\<lparr>wl_name := ''lease_inval''\<rparr>\<rparr>) st;
              (r2, st) = lookup env (req\<lparr>rq_allow_capture := False\<rparr>) st
       in Some (if \<not> lr_hit r2 then 0 else 1) }"

definition eviction_reload_main :: "float_ops \<Rightarrow> (f32 \<Rightarrow> f64) \<Rightarrow> 'x cache_env \<Rightarrow> nat option" where
  "eviction_reload_main fl to_f64 env = do {
     st \<leftarrow> open_cache GraphCacheConfig_default Map.empty;
     let req = default_request fl to_f64 ''evict_reload'';
     let (r1, st) = lookup env req st;
     case lr_lease r1 of
       None \<Rightarrow> Some 1
     | Some lease \<Rightarrow>
         let (lease, st) = lease_release lease st;
             (ev, st) = evict env (lr_artifact r1) st
         in if \<not> result_ok ev then Some 1
            else let (r2, st) = lookup env req st in Some (if lr_hit r2 then 0 else 1) }"

definition cost_aware_eviction_main :: "float_ops \<Rightarrow> (f32 \<Rightarrow> f64) \<Rightarrow> 'x cache_env \<Rightarrow> nat option" where
  "cost_aware_eviction_main fl to_f64 env = do {
     st \<leftarrow> open_cache (GraphCacheConfig_default\<lparr>cfg_eviction := (cfg_eviction GraphCacheConfig_default)
            \<lparr>epo_cost_aware := True, epo_recapture_cost_aware := True\<rparr>\<rparr>) Map.empty;
     let req = default_request fl to_f64 ''cost_aware'';
     let (r1, st) = lookup env req st;
     case lr_lease r1 of
       None \<Rightarrow> Some 1
     | Some lease \<Rightarrow>
         let (lease, st) = lease_release lease st;
             (p, st) = pin (lr_artifact r1) st
         in if \<not> result_ok p then Some 1
            else let (ev, st) = evict env (lr_artifact r1) st;
                     (up, st) = unpin (lr_artifact r1) st;
                     (r2, st) = lookup env req st
              in Some (if \<not> result_ok ev \<and> lr_hit r2 then 0 else 1) }"

definition shape_specialized_main :: "float_ops \<Rightarrow> (f32 \<Rightarrow> f64) \<Rightarrow> (f32 \<Rightarrow> f32 \<Rightarrow> bool) \<Rightarrow> 'x cache_env \<Rightarrow> nat option" where
  "shape_specialized_main fl to_f64 far env = do {
     st \<leftarrow> open_cache GraphCacheConfig_default Map.empty;
     let req = set_node1 (\<lambda>n. n\<lparr>n_shape := (n_shape n)\<lparr>sh_dims := [64]\<rparr>, n_memory_bytes := 256\<rparr>) (default_request fl to_f64 ''shape_spec'');
     let (r, st) = lookup env req st;
     if \<not> lr_hit r then Some 1
     else map_option fst (replay_and_check fl far env r (replicate 64 0x3f800000) 0x4000000000000000 st) }"

definition datatype_specialized_main :: "float_ops \<Rightarrow> (f32 \<Rightarrow> f64) \<Rightarrow> (f32 \<Rightarrow> f32 \<Rightarrow> bool) \<Rightarrow> 'x cache_env \<Rightarrow> nat option" where
  "datatype_specialized_main fl to_f64 far env = do {
     st \<leftarrow> open_cache GraphCacheConfig_default Map.empty;
     let req = set_node1 (\<lambda>n. n\<lparr>n_datatype := DT_F64, n_shape := (n_shape n)\<lparr>sh_dims := [8]\<rparr>, n_memory_bytes := 64\<rparr>)
       (default_request fl to_f64 ''dtype_spec'');
     let (r, st) = lookup env req st;
     if \<not> lr_hit r then Some 1
     else map_option fst (replay_and_check fl far env r (replicate 16 0x3f800000) 0x4000000000000000 st) }"

section \<open>Programs that restart\<close>

definition persistent_config :: GraphCacheConfig where
  "persistent_config = GraphCacheConfig_default\<lparr>cfg_enable_persistence := True, cfg_persistence_dir := ''gc-ex''\<rparr>"

text \<open>The first block of both programs: what is left is the directory, and the artifact that was captured.\<close>

definition persist_block :: "float_ops \<Rightarrow> (f32 \<Rightarrow> f64) \<Rightarrow> string \<Rightarrow> 'x cache_env \<Rightarrow> (GraphArtifactId \<times> files) option option" where
  "persist_block fl to_f64 name env = do {
     st \<leftarrow> open_cache persistent_config Map.empty;
     let (r, st) = lookup env (default_request fl to_f64 name) st;
     if \<not> lr_hit r then Some None
     else let (p, st) = persist_all env st
       in Some (case gc_store st of None \<Rightarrow> None | Some (s, fs) \<Rightarrow> Some (lr_artifact r, fs)) }"

definition persistence_recovery_main :: "float_ops \<Rightarrow> (f32 \<Rightarrow> f64) \<Rightarrow> (f32 \<Rightarrow> f32 \<Rightarrow> bool) \<Rightarrow> 'x cache_env \<Rightarrow> nat option" where
  "persistence_recovery_main fl to_f64 far env = do {
     block \<leftarrow> persist_block fl to_f64 ''persist_ex'' env;
     case block of
       None \<Rightarrow> Some 1
     | Some (i, fs) \<Rightarrow> do {
         st \<leftarrow> open_cache persistent_config fs;
         (rc, st) \<leftarrow> recover env st;
         let (r, st) = lookup env (default_request fl to_f64 ''persist_ex'') st;
         if lr_hit r then map_option fst (replay_and_check fl far env r (replicate 16 0x3f800000) 0x4000000000000000 st)
         else Some 1 } }"

definition corrupt_graph_rejection_main :: "float_ops \<Rightarrow> (f32 \<Rightarrow> f64) \<Rightarrow> 'x cache_env \<Rightarrow> nat option" where
  "corrupt_graph_rejection_main fl to_f64 env = do {
     block \<leftarrow> persist_block fl to_f64 ''corrupt_ex'' env;
     case block of
       None \<Rightarrow> Some 1
     | Some (i, fs) \<Rightarrow> do {
         let junk = [0xDE, 0xAD, 0xBE, 0xEF] @ replicate 60 0;
         st \<leftarrow> open_cache persistent_config (fs(file_for i \<mapsto> junk));
         (rc, st) \<leftarrow> recover env st;
         Some (if m_corruption_count (metrics env st) \<ge> 1 then 0 else 1) } }"

end
