(* ===== verification/GC_ExampleRuns.thy ===== *)
theory GC_ExampleRuns
  imports GC_Examples
begin

text \<open>
  The sample programs exit with 0. The first lookup of a new cache is followed to the state it leaves; what the
  programs do next is read off that state.
\<close>

section \<open>The machine\<close>

text \<open>An engine over the CPU backend whose hash maps enumerate their elements in some order.\<close>

locale cpu_machine =
  fixes env :: "CpuGraph cache_env" and fl :: float_ops
  assumes backend: "env_backend env = cpu_backend fl (env_node_ord env)"
    and node_perm: "mset (env_node_ord env xs) = mset xs"
    and map_perm: "mset (env_map_ord env m) = mset m"

sublocale cpu_machine \<subseteq> cache_engine env
  by unfold_locales (simp_all add: backend map_perm cpu.capture_handle cpu.capture_validates)

interpretation sample_machine: cpu_machine "example_env\<lparr>env_backend := cpu_backend fl rev, env_dir := dir\<rparr>" fl for fl dir
  by unfold_locales (simp_all add: example_env_def)

section \<open>A cache with one graph\<close>

definition lone_entry :: "GraphLookupRequest \<Rightarrow> GraphDescriptor \<Rightarrow> 'x option \<Rightarrow> 'x GraphCache \<Rightarrow> bool" where
  "lone_entry req desc h st \<longleftrightarrow> cache_inv st \<and> gc_by_artifact st = [(g_artifact desc, 0)]
     \<and> gc_by_workload st (workload_key (rq_workload req)) = Some [0]
     \<and> (let e = gc_heap st 0 in en_artifact e = g_artifact desc \<and> en_facts e = make_facts req \<and> en_workload e = rq_workload req
         \<and> en_descriptor e = desc \<and> en_exec e = h \<and> \<not> en_invalidated e \<and> en_lifecycle e = LC_Valid
         \<and> gc_key_gen st (key_hex (en_key e)) = Some (en_generation e))"

text \<open>With its executable; after a restart the entry has none.\<close>

abbreviation sole_entry :: "GraphLookupRequest \<Rightarrow> GraphDescriptor \<Rightarrow> 'x \<Rightarrow> 'x GraphCache \<Rightarrow> bool" where
  "sole_entry req desc g \<equiv> lone_entry req desc (Some g)"

lemma lone_entry_exact:
  assumes "lone_entry req desc h st" and "self_matching req"
  shows "exact st (make_facts req) (rq_policy req) 0"
proof -
  have "en_facts (gc_heap st 0) = make_facts req" using assms(1) by (simp add: lone_entry_def Let_def)
  note x = self_matching_exact [OF assms(2) this]
  have "lifecycle_is_replay_eligible LC_Valid" by (simp add: lifecycle_is_replay_eligible_def)
  then show ?thesis
    using assms(1) x by (simp add: exact_def selectable_def lone_entry_def Let_def compatible_def)
qed

lemma sole_entry_served:
  assumes "sole_entry req desc g st" and "self_matching req"
  shows "served st (make_facts req) (rq_policy req) 0"
  using lone_entry_exact [OF assms] assms(1) by (simp add: served_def lone_entry_def Let_def)

lemma lone_entry_frame:
  assumes "lone_entry req desc h st" and "cache_inv st'" and "gc_by_artifact st' = gc_by_artifact st"
    and "gc_by_workload st' = gc_by_workload st" and "gc_key_gen st' = gc_key_gen st"
    and "same_entry (gc_heap st 0) (gc_heap st' 0)" and "en_exec (gc_heap st' 0) = h'"
  shows "lone_entry req desc h' st'"
  using assms by (simp add: lone_entry_def same_entry_def Let_def)

lemma sole_entry_frame:
  assumes "lone_entry req desc h st" and "cache_inv st'" and "gc_by_artifact st' = gc_by_artifact st"
    and "gc_by_workload st' = gc_by_workload st" and "gc_key_gen st' = gc_key_gen st"
    and "same_entry (gc_heap st 0) (gc_heap st' 0)" and "en_exec (gc_heap st' 0) = en_exec (gc_heap st 0)"
  shows "lone_entry req desc h st'"
  by (rule lone_entry_frame [OF assms(1-6)]) (use assms(1,7) in \<open>simp add: lone_entry_def Let_def\<close>)

text \<open>A lease on that graph, and who else uses it.\<close>

definition sole_lease :: "'x \<Rightarrow> 'x GraphLookupResult \<Rightarrow> 'x GraphLease \<Rightarrow> 'x GraphCache \<Rightarrow> bool" where
  "sole_lease g res l st \<longleftrightarrow> lr_lease res = Some l \<and> lr_generation res = gl_generation l \<and> gl_token l = Some 0 \<and> gl_exec l = Some g
     \<and> gc_next_token st = 1 \<and> gc_tokens st 0 = \<lparr>le_keep_alive = Some 0, le_released = False\<rparr>
     \<and> en_lease_count (gc_heap st 0) = 1 \<and> en_pin_count (gc_heap st 0) = 0"

section \<open>The first lookup\<close>

lemma capture_insert_more:
  "gc_by_artifact (snd (capture_insert env e st)) = AList.update (en_artifact e) (gc_next st) (gc_by_artifact st)"
  "gc_next (snd (capture_insert env e st)) = gc_next st + 1" "gc_next_token (snd (capture_insert env e st)) = gc_next_token st"
  "gc_tokens (snd (capture_insert env e st)) = gc_tokens st" "gc_config (snd (capture_insert env e st)) = gc_config st"
  "gc_cache_gen (snd (capture_insert env e st)) = gc_cache_gen st"
  "en_lease_count (gc_heap (snd (capture_insert env e st)) (gc_next st)) = en_lease_count e"
  "en_pin_count (gc_heap (snd (capture_insert env e st)) (gc_next st)) = en_pin_count e"
  by (simp_all add: capture_insert_def Let_def case_prod_unfold insert_entry_def)

text \<open>The store only gains the file of one artifact.\<close>

definition files_within :: "GraphArtifactId \<Rightarrow> 'x GraphCache \<Rightarrow> 'x GraphCache \<Rightarrow> bool" where
  "files_within i st st' \<longleftrightarrow> (case gc_store st of None \<Rightarrow> gc_store st' = None
     | Some (s, fs) \<Rightarrow> (\<exists>fs'. gc_store st' = Some (s, fs') \<and> dom fs' \<subseteq> insert (file_for i) (dom fs)))"

lemma files_within_cong:
  "gc_store s = gc_store st \<Longrightarrow> gc_store s' = gc_store st' \<Longrightarrow> files_within i s s' = files_within i st st'"
  by (simp only: files_within_def)

lemma capture_insert_files:
  assumes "\<And>n. env_put env n = PutOk"
  shows "files_within (en_artifact e) st (snd (capture_insert env e st))"
proof (cases "gc_store st")
  case None
  then show ?thesis by (simp add: files_within_def capture_insert_def Let_def case_prod_unfold)
next
  case (Some x)
  then obtain s fs where gs: "gc_store st = Some (s, fs)" by (cases x) auto
  let ?st = "(snd (insert_entry e st))\<lparr>gc_key_gen := (gc_key_gen st)(key_hex (en_key e) \<mapsto> en_generation e),
     gc_invalidated_keys := gc_invalidated_keys (snd (insert_entry e st)) - {key_hex (en_key e)}\<rparr>"
  have "gc_store ?st = Some (s, fs)" "en_artifact (gc_heap ?st (gc_next st)) = en_artifact e"
    using gs by (simp_all add: insert_entry_def)
  with persist_entry_effect [OF this(1) assms, of "gc_next st"]
  have p: "result_ok (fst (persist_entry env (gc_next st) ?st))"
    "\<exists>fs'. gc_store (snd (persist_entry env (gc_next st) ?st)) = Some (s, fs') \<and> dom fs' \<subseteq> insert (file_for (en_artifact e)) (dom fs)"
    by (auto simp: result_ok_def store_put_def Let_def split: if_splits)
  then show ?thesis
    using gs by (auto simp: files_within_def capture_insert_def Let_def case_prod_unfold)
qed

lemma open_cache_fresh:
  assumes "open_cache cfg fs = Some st"
  shows "cache_inv st" "gc_config st = cfg" "gc_next st = 0" "gc_next_token st = 0" "gc_by_artifact st = []"
    "gc_by_workload st = Map.empty" "gc_key_gen st = Map.empty"
proof -
  show "cache_inv st" by (rule cache_new_inv [OF assms [unfolded open_cache_def]])
qed (use assms in \<open>auto simp: open_cache_def cache_new_def split: option.splits\<close>)

context cpu_machine
begin

text \<open>The capture a new cache runs: afterwards the graph is its only entry, not yet leased.\<close>

lemma first_capture:
  assumes inv: "cache_inv st" and new: "gc_next st = 0" "gc_by_artifact st = []" "gc_by_workload st = Map.empty"
    and fin: "finalize (env_node_ord env) (rq_descriptor req) = success desc"
    and cap: "cpu_capture (env_node_ord env) desc = success (Some g)"
  shows "\<exists>i st3. lookup_capture env req st = ((Inr i, True), st3) \<and> sole_entry req desc g st3 \<and> gc_next_token st3 = gc_next_token st
    \<and> en_lease_count (gc_heap st3 0) = 0 \<and> en_pin_count (gc_heap st3 0) = 0
    \<and> ((\<forall>n. env_put env n = PutOk) \<longrightarrow> files_within (g_artifact desc) st st3)"
proof -
  define stc where "stc = (let st = bump_scopes (make_facts req) (\<lambda>m. m\<lparr>psm_misses := psm_misses m + 1\<rparr>) st in
     st\<lparr>gc_capture_counter := gc_capture_counter st + 1, gc_active_captures := gc_active_captures st + 1\<rparr>)"
  let ?att = "CaptureAttemptId (gc_capture_counter st + 1)"
  have "be_capture (env_backend env) desc ?att = success (Some g)" using cap by (simp add: backend cpu_backend_def)
  then obtain e gn stb where b: "capture_begin env req ?att stc = (success (e, gn), stb)"
    and e: "en_artifact e = g_artifact desc" "en_descriptor e = desc" "en_exec e = Some g" "en_lease_count e = 0" "en_pin_count e = 0"
    and gs: "gc_store stb = gc_store st"
    using fin finalized_valid [OF node_perm fin] capture_validates
    by (auto simp: capture_begin_def stc_def Let_def case_prod_unfold)
  note fr = capture_begin_frame [OF b]
  have core: "gc_next stb = 0" "gc_by_artifact stb = []" "gc_by_workload stb = Map.empty" "gc_next_token stb = gc_next_token st"
    using fr(1) new by (simp_all add: same_core_def stc_def Let_def)
  let ?stp = "snd (capture_insert env e stb)"
  define st3 where "st3 = ?stp\<lparr>gc_active_captures := gc_active_captures ?stp - 1\<rparr>"
  have c: "lookup_capture env req st = ((success (en_artifact e), True), st3)"
    using b capture_publish_current [OF fr(3), of env e]
    by (simp add: lookup_capture_def run_single_flight_def capture_graph_def stc_def st3_def Let_def case_prod_unfold capture_insert_effect)
  then have "cache_inv st3" using lookup_capture_inv [OF inv, of req] by simp
  moreover note ins = capture_insert_effect [where env = env and e = e and st = stb] capture_insert_more [where env = env and e = e and st = stb]
  ultimately have "sole_entry req desc g st3"
    using e fr(5-8) core by (simp add: st3_def lone_entry_def same_entry_def Let_def push_index_def)
  moreover have "files_within (g_artifact desc) st st3" if "\<forall>n. env_put env n = PutOk"
    using capture_insert_files [of env e stb] that e(1) files_within_cong [OF gs, of ?stp st3] by (simp add: st3_def)
  ultimately show ?thesis using c ins e core by (simp add: st3_def)
qed

lemma make_lease_store: "gc_store (snd (make_lease a b st)) = gc_store st"
  by (simp add: make_lease_def Let_def)

text \<open>Leasing the only entry, which gets its executable now if it has none.\<close>

lemma chosen_lone:
  assumes "lone_entry req desc h st" and "h = None \<or> h = Some g" and "cpu_capture (env_node_ord env) desc = success (Some g)"
  shows "fst (chosen_state env 0 st) = success ()" "en_exec (gc_heap (snd (chosen_state env 0 st)) 0) = Some g"
    "gc_by_artifact (snd (chosen_state env 0 st)) = gc_by_artifact st" "gc_by_workload (snd (chosen_state env 0 st)) = gc_by_workload st"
    "gc_tokens (snd (chosen_state env 0 st)) = gc_tokens st"
    "en_lease_count (gc_heap (snd (chosen_state env 0 st)) 0) = en_lease_count (gc_heap st 0)"
    "en_pin_count (gc_heap (snd (chosen_state env 0 st)) 0) = en_pin_count (gc_heap st 0)"
    "gc_store (snd (chosen_state env 0 st)) = gc_store st"
proof -
  have c: "be_capture (env_backend env) desc att = success (Some g)" for att using assms(3) by (simp add: backend cpu_backend_def)
  have e: "en_exec (gc_heap st 0) = h" "en_descriptor (gc_heap st 0) = desc" using assms(1) by (simp_all add: lone_entry_def Let_def)
  note defs = chosen_state_def materialize_exec_def Let_def case_prod_unfold e c capture_validates [OF c]
  show "fst (chosen_state env 0 st) = success ()" "en_exec (gc_heap (snd (chosen_state env 0 st)) 0) = Some g"
    "gc_by_artifact (snd (chosen_state env 0 st)) = gc_by_artifact st" "gc_by_workload (snd (chosen_state env 0 st)) = gc_by_workload st"
    "gc_tokens (snd (chosen_state env 0 st)) = gc_tokens st"
    "en_lease_count (gc_heap (snd (chosen_state env 0 st)) 0) = en_lease_count (gc_heap st 0)"
    "en_pin_count (gc_heap (snd (chosen_state env 0 st)) 0) = en_pin_count (gc_heap st 0)"
    "gc_store (snd (chosen_state env 0 st)) = gc_store st"
    using assms(2) by (auto simp: defs)
qed

lemma lone_entry_search:
  assumes lone: "lone_entry req desc h st" and h: "h = None \<or> h = Some g"
    and cap: "cpu_capture (env_node_ord env) desc = success (Some g)" and m: "self_matching req"
  obtains res st' l where "search_candidates env (make_facts req) (rq_policy req) st = (res, st')" "sole_entry req desc g st'"
    "lr_lease res = Some l" "lr_artifact res = g_artifact desc" "lr_generation res = gl_generation l" "gl_exec l = Some g"
    "gl_token l = Some (gc_next_token st)" "gc_next_token st' = gc_next_token st + 1"
    "gc_tokens st' = (gc_tokens st)(gc_next_token st := \<lparr>le_keep_alive = Some 0, le_released = False\<rparr>)"
    "en_lease_count (gc_heap st' 0) = en_lease_count (gc_heap st 0) + 1" "en_pin_count (gc_heap st' 0) = en_pin_count (gc_heap st 0)"
    "gc_store st' = gc_store st"
proof -
  let ?f = "make_facts req" and ?p = "rq_policy req"
  have b: "gc_by_workload st (workload_key (f_workload ?f)) = Some ([] @ [0])"
    and a: "en_artifact (gc_heap st 0) = g_artifact desc" and inv: "cache_inv st"
    using lone by (simp_all add: lone_entry_def Let_def)
  let ?st1 = "snd (chosen_state env 0 st)" and ?dec = "decide_compatibility ?f (en_facts (gc_heap st 0)) ?p"
  let ?st2 = "snd (make_lease 0 (needs_rebinding ?dec) ?st1)"
  note ch = chosen_lone [OF lone h cap]
  note eq = search_eq [OF b scan_last_exact [OF lone_entry_exact [OF lone m]], of env, unfolded ch(1) sum.case]
  note fr = chosen_state_frame [where st = st and a = 0 and env = env]
  have "cache_inv ?st2"
    using engine_steps_inv [OF steps_search [OF inv engine_steps.stay] inv, of ?f ?p] eq by simp
  then have "sole_entry req desc g ?st2"
    by (rule lone_entry_frame [OF lone]) (use fr ch in \<open>simp_all add: make_lease_effect same_entry_def\<close>)
  then show thesis
    by (rule that [OF eq, of "fst (make_lease 0 (needs_rebinding ?dec) ?st1)"])
      (use fr ch a in \<open>simp_all add: make_lease_effect make_lease_store fst_make_lease same_entry_def\<close>)
qed

lemma first_lookup:
  assumes st: "open_cache cfg fs = Some st" and allow: "cfg_allow_capture cfg" "rq_allow_capture req" and m: "self_matching req"
    and ch: "chain_graph (rq_descriptor req) c k"
  defines "desc \<equiv> finalized (rq_descriptor req)"
  obtains res st' g l where "lookup env req st = (res, st')" "cpu_capture (env_node_ord env) desc = success (Some g)"
    "sole_entry req desc g st'" "sole_lease g res l st'" "lr_artifact res = g_artifact desc" "lr_capture_started res"
    "(\<forall>n. env_put env n = PutOk) \<longrightarrow> files_within (g_artifact desc) st st'"
    "lr_reason_text res = ''captured and replayed-compatible; hit''"
proof -
  let ?st1 = "lookup_start env req st" and ?f = "make_facts req" and ?p = "rq_policy req"
  note new = open_cache_fresh [OF st]
  obtain g where g: "cpu_capture (env_node_ord env) desc = success (Some g)"
    using chain_captures(2) [OF node_perm ch] unfolding desc_def by blast
  have core: "same_core st ?st1" by simp
  then have s1: "search_candidates env ?f ?p ?st1 = (lookup_result_default, ?st1)"
    by (intro search_all_revoked) (simp add: same_core_def new)
  from first_capture [OF cache_inv_same_core [OF core new(1)] _ _ _ chain_captures(1) [OF node_perm ch, folded desc_def] g]
  obtain i st3 where cap: "lookup_capture env req ?st1 = ((Inr i, True), st3)" and sole: "sole_entry req desc g st3"
    and z: "gc_next_token st3 = 0" "en_lease_count (gc_heap st3 0) = 0" "en_pin_count (gc_heap st3 0) = 0"
      "(\<forall>n. env_put env n = PutOk) \<longrightarrow> files_within (g_artifact desc) ?st1 st3"
    using core new by (auto simp: same_core_def)
  obtain again st4 l where ag: "search_candidates env ?f ?p st3 = (again, st4)" "sole_entry req desc g st4"
    and l: "lr_lease again = Some l" "lr_artifact again = g_artifact desc" "lr_generation again = gl_generation l" "gl_exec l = Some g"
      "gl_token l = Some (gc_next_token st3)" "gc_next_token st4 = gc_next_token st3 + 1"
      "gc_tokens st4 = (gc_tokens st3)(gc_next_token st3 := \<lparr>le_keep_alive = Some 0, le_released = False\<rparr>)"
      "en_lease_count (gc_heap st4 0) = en_lease_count (gc_heap st3 0) + 1" "en_pin_count (gc_heap st4 0) = en_pin_count (gc_heap st3 0)"
      "gc_store st4 = gc_store st3"
    by (rule lone_entry_search [OF sole _ g m]) simp_all
  let ?res = "again\<lparr>lr_capture_started := True, lr_waited_on_capture := False, lr_reason_text := ''captured and replayed-compatible; hit''\<rparr>"
  let ?st' = "finish_hit env again req (fst (now_us env st)) st4"
  have "lookup env req st = (?res, ?st')"
    using lookup_eq [OF s1 cap ag(1)] l(1) allow new(2) by (simp add: lr_hit_def lookup_result_default_def)
  moreover have "cache_inv ?st'"
    by (rule cache_inv_same_core [of st4]) (use ag(2) in \<open>simp_all add: same_core_def lone_entry_def\<close>)
  then have "sole_entry req desc g ?st'" by (rule sole_entry_frame [OF ag(2)]) (simp_all add: same_entry_def)
  moreover have "sole_lease g ?res l ?st'" using l z by (simp add: sole_lease_def)
  moreover have "gc_store ?st1 = gc_store st" by (simp add: lookup_start_def)
  then have "(\<forall>n. env_put env n = PutOk) \<longrightarrow> files_within (g_artifact desc) st ?st'"
    using z(4) files_within_cong [of ?st1 st st3 ?st'] l(10) by simp
  ultimately show thesis using that g l(2) by simp
qed

lemma sole_entry_lookup:
  assumes "sole_entry req desc g st" and "self_matching req" and "lookup env req st = (res, st')"
  shows "lr_hit res" "lr_artifact res = g_artifact desc" "\<not> lr_capture_started res"
proof -
  have "cache_inv st" "en_artifact (gc_heap st 0) = g_artifact desc" using assms(1) by (simp_all add: lone_entry_def Let_def)
  then show "lr_hit res" "lr_artifact res = g_artifact desc" "\<not> lr_capture_started res"
    using lookup_served [OF _ sole_entry_served [OF assms(1,2)] assms(3)] by simp_all
qed

text \<open>A lookup that may not capture misses when the entry does not pass the checks.\<close>

lemma sole_entry_refused:
  assumes "gc_by_workload st (workload_key (rq_workload req)) = Some [0]" and "\<not> selectable st (make_facts req) (rq_policy req) 0"
    and "\<not> rq_allow_capture req" and "lookup env req st = (res, st')"
  shows "\<not> lr_hit res"
proof -
  let ?st1 = "lookup_start env req st"
  have same: "same_core st ?st1" "gc_key_gen ?st1 = gc_key_gen st" by simp_all
  then have "\<not> selectable ?st1 (make_facts req) (rq_policy req) 0"
    using assms(2) by (simp add: same_core_def selectable_def Let_def)
  then have none: "lr_lease (fst (search_candidates env (make_facts req) (rq_policy req) ?st1)) = None"
    by (intro search_miss(1)) (use same(1) assms(1) in \<open>auto simp: same_core_def scan_none_iff simp del: foldl_Cons\<close>)
  from assms(4) show ?thesis
    by (cases rule: lookup_cases) (use none assms(3) in \<open>auto simp: lr_hit_def\<close>)
qed

text \<open>Replaying the leased graph on floats.\<close>

lemma sole_lease_replay:
  assumes sole: "sole_entry req desc g st" and lease: "sole_lease g res l st" and ch: "chain_graph desc c k"
    and cap: "cpu_capture (env_node_ord env) desc = success (Some g)" and cs: "copy_scale (length xs) c k"
  obtains rep st' mem where "replay env (replay_request res xs) (st, replay_memory xs) = Some (success rep, st', mem)"
    "mem 1 = Some (float_bytes (map (\<lambda>x. fl_mul fl x (fl_of_f64 fl (sc_float (n_scalar k)))) xs))" "sole_entry req desc g st'"
proof -
  obtain rep mem where r: "cpu_replay fl (Some g) (replay_buffers xs) (rr_descriptor (replay_request res xs)) (replay_memory xs) = Some (success rep, mem)"
    and m: "mem 1 = Some (float_bytes (map (\<lambda>x. fl_mul fl x (fl_of_f64 fl (sc_float (n_scalar k)))) xs))"
    using chain_replay [OF node_perm ch cap cs, where fl = fl] by blast
  have l: "lr_lease res = Some l" "lr_generation res = gl_generation l" "gl_token l = Some 0" "gl_exec l = Some g"
    "gc_next_token st = 1" "gc_tokens st 0 = \<lparr>le_keep_alive = Some 0, le_released = False\<rparr>"
    using lease by (simp_all add: sole_lease_def)
  obtain st' where s: "replay env (replay_request res xs) (st, replay_memory xs) = Some (success rep, st', mem)"
    and fr: "gc_by_artifact st' = gc_by_artifact st" "gc_by_workload st' = gc_by_workload st" "gc_key_gen st' = gc_key_gen st"
      "same_entry (gc_heap st 0) (gc_heap st' 0)" "en_exec (gc_heap st' 0) = en_exec (gc_heap st 0)"
    using r l by (simp add: replay_def replay_request_def backend cpu_backend_def same_entry_def Let_def case_prod_unfold)
  have inv: "cache_inv st" using sole by (simp add: lone_entry_def)
  have "cache_inv st'"
    by (rule engine_steps_inv [OF steps_replay [OF inv engine_steps.stay s] inv]) (use l in \<open>simp add: replay_request_def\<close>)
  then have "sole_entry req desc g st'" by (rule sole_entry_frame [OF sole _ fr])
  with that [OF s m] show thesis by blast
qed

end

section \<open>The requests\<close>

definition default_scalar :: "float_ops \<Rightarrow> (f32 \<Rightarrow> f64) \<Rightarrow> f64" where
  "default_scalar fl to_f64 = to_f64 (fl_of_f64 fl 0x4000000000000000)"

text \<open>
  What the programs rely on in the machine's floats: the factor 2.0 is a number, and scaling 1.0 by it on the
  device and in the program's reference gives results that the comparison accepts.
\<close>

definition floats_agree :: "float_ops \<Rightarrow> (f32 \<Rightarrow> f64) \<Rightarrow> (f32 \<Rightarrow> f32 \<Rightarrow> bool) \<Rightarrow> bool" where
  "floats_agree fl to_f64 far \<longleftrightarrow> \<not> f64_is_nan (default_scalar fl to_f64)
     \<and> \<not> far (fl_mul fl 0x3f800000 (fl_of_f64 fl (default_scalar fl to_f64))) (fl_mul fl (fl_of_f64 fl 0x4000000000000000) 0x3f800000)"

lemmas request_simps = default_request_def cpu_request_def request_copy_def request_scale_def request_kernel_def request_edge_def
  GraphLookupRequest_default_def default_scalar_def set_node1_def Let_def

lemmas default_simps = GraphDescriptor_default_def GraphNodeDescriptor_default_def GraphEdgeDescriptor_default_def
  KernelIdentityRef_default_def ShapeDescriptor_default_def ScalarSpecialization_default_def QuantizationConfig_default_def
  BindingDescriptor_default_def WorkloadIdentity_default_def policy_default_def CompatibilityFacts_default_def

lemma facts_of_fields:
  assumes "\<And>n. n \<in> set (g_nodes desc) \<Longrightarrow> sc_specialized (n_scalar n) \<Longrightarrow> sc_float (n_scalar n) = s"
  shows "f_dependencies (facts_of wl bk rt dev desc) = g_dependencies desc"
    and "sc_specialized (f_scalar (facts_of wl bk rt dev desc)) \<Longrightarrow> sc_float (f_scalar (facts_of wl bk rt dev desc)) = s"
proof -
  show "f_dependencies (facts_of wl bk rt dev desc) = g_dependencies desc" by (simp add: facts_of_def Let_def case_prod_unfold)
  have "sc_specialized (f_scalar (fst (foldl facts_step acc ns))) \<longrightarrow> sc_float (f_scalar (fst (foldl facts_step acc ns))) = s"
    if "sc_specialized (f_scalar (fst acc)) \<longrightarrow> sc_float (f_scalar (fst acc)) = s"
      "\<forall>n \<in> set ns. sc_specialized (n_scalar n) \<longrightarrow> sc_float (n_scalar n) = s" for acc ns
    using that
    by (induction ns arbitrary: acc) (simp_all add: facts_step_def Let_def case_prod_unfold)
  from this [of _ "g_nodes desc"] assms
  show "sc_specialized (f_scalar (facts_of wl bk rt dev desc)) \<Longrightarrow> sc_float (f_scalar (facts_of wl bk rt dev desc)) = s"
    by (simp add: facts_of_def Let_def case_prod_unfold CompatibilityFacts_default_def ScalarSpecialization_default_def)
qed

text \<open>A request of the samples: a two-node graph whose only scalar is a number, with one dependency at most.\<close>

lemma sample_self_matching:
  assumes "rq_policy req = policy_default" and "length (g_dependencies (rq_descriptor req)) \<le> 1"
    and "\<And>n. n \<in> set (g_nodes (rq_descriptor req)) \<Longrightarrow> sc_specialized (n_scalar n) \<Longrightarrow> sc_float (n_scalar n) = s" and "\<not> f64_is_nan s"
  shows "self_matching req"
proof -
  have "deps_agree (g_dependencies (rq_descriptor req))"
    using assms(2) by (cases "g_dependencies (rq_descriptor req)") (auto simp: deps_agree_def)
  moreover note facts_of_fields [OF assms(3), folded make_facts_def]
  ultimately show ?thesis
    using assms(1,4) by (auto simp: self_matching_def make_facts_def facts_of_fields(1) [OF assms(3)] Let_def policy_default_def)
qed

lemma default_request_ok:
  assumes "\<not> f64_is_nan (default_scalar fl to_f64)"
  shows "self_matching (default_request fl to_f64 name)" "rq_allow_capture (default_request fl to_f64 name)"
    "chain_graph (rq_descriptor (default_request fl to_f64 name)) (request_copy 64 True) (request_scale (default_scalar fl to_f64) 64 1 True)"
    "copy_scale 16 (request_copy 64 True) (request_scale (default_scalar fl to_f64) 64 1 True)"
proof -
  show "self_matching (default_request fl to_f64 name)"
    by (rule sample_self_matching [OF _ _ _ assms]) (auto simp: request_simps default_simps)
qed (simp_all add: request_simps default_simps chain_graph_def copy_scale_def edge_pairs_def)

lemma basic_request_ok:
  "self_matching basic_request" "rq_allow_capture basic_request"
  "\<exists>c k. chain_graph (rq_descriptor basic_request) c k \<and> copy_scale 16 c k"
proof -
  show "self_matching basic_request"
    by (rule sample_self_matching [of _ "0x4000000000000000"])
      (auto simp: basic_request_def GraphLookupRequest_default_def Let_def default_simps f64_is_nan_def)
  show "\<exists>c k. chain_graph (rq_descriptor basic_request) c k \<and> copy_scale 16 c k"
    by (simp add: chain_graph_def copy_scale_def basic_request_def GraphLookupRequest_default_def Let_def default_simps
        edge_pairs_def request_edge_def)
qed (simp add: basic_request_def GraphLookupRequest_default_def Let_def)

lemma shaped_request_ok:
  fixes fl to_f64 name
  defines "req \<equiv> set_node1 (\<lambda>n. n\<lparr>n_shape := (n_shape n)\<lparr>sh_dims := [64]\<rparr>, n_memory_bytes := 256\<rparr>) (default_request fl to_f64 name)"
  assumes "\<not> f64_is_nan (default_scalar fl to_f64)"
  shows "self_matching req" "rq_allow_capture req"
    "\<exists>c k. chain_graph (rq_descriptor req) c k \<and> copy_scale 64 c k \<and> sc_float (n_scalar k) = default_scalar fl to_f64"
proof -
  show "self_matching req"
    by (rule sample_self_matching [OF _ _ _ assms(2)]) (auto simp: req_def request_simps default_simps)
qed (simp_all add: req_def request_simps default_simps chain_graph_def copy_scale_def edge_pairs_def)

lemma typed_request_ok:
  fixes fl to_f64 name
  defines "req \<equiv> set_node1 (\<lambda>n. n\<lparr>n_datatype := DT_F64, n_shape := (n_shape n)\<lparr>sh_dims := [8]\<rparr>, n_memory_bytes := 64\<rparr>) (default_request fl to_f64 name)"
  assumes "\<not> f64_is_nan (default_scalar fl to_f64)"
  shows "self_matching req" "rq_allow_capture req"
    "\<exists>c k. chain_graph (rq_descriptor req) c k \<and> copy_scale 16 c k \<and> sc_float (n_scalar k) = default_scalar fl to_f64"
proof -
  show "self_matching req"
    by (rule sample_self_matching [OF _ _ _ assms(2)]) (auto simp: req_def request_simps default_simps)
qed (simp_all add: req_def request_simps default_simps chain_graph_def copy_scale_def edge_pairs_def)

lemma open_default: "\<exists>st. open_cache GraphCacheConfig_default Map.empty = Some st"
  by (simp add: open_cache_def cache_new_def create_backend_def GraphCacheConfig_default_def)

lemma verify_output_replicate: "\<not> far x y \<Longrightarrow> verify_output far (replicate n x) (replicate m y) = 0"
proof (induction n arbitrary: m)
  case (Suc n)
  then show ?case by (cases m) simp_all
qed simp

section \<open>The programs\<close>

lemma default_config: "cfg_allow_capture GraphCacheConfig_default" "cfg_backend_kind GraphCacheConfig_default = BK_Cpu"
  by (simp_all add: GraphCacheConfig_default_def)

context cpu_machine
begin

lemma basic_cpu_runs: "basic_cpu_main env = Some 0"
proof -
  obtain st :: "CpuGraph GraphCache" where st: "open_cache GraphCacheConfig_default Map.empty = Some st" using open_default by blast
  obtain c k where ck: "chain_graph (rq_descriptor basic_request) c k" "copy_scale 16 c k" using basic_request_ok(3) by blast
  obtain res st1 g l where l1: "lookup env basic_request st = (res, st1)"
    and cap: "cpu_capture (env_node_ord env) (finalized (rq_descriptor basic_request)) = success (Some g)"
    and sole: "sole_entry basic_request (finalized (rq_descriptor basic_request)) g st1" and lease: "sole_lease g res l st1"
    by (rule first_lookup [OF st default_config(1) basic_request_ok(2,1) ck(1)])
  have hit: "lr_hit res" using lease by (simp add: sole_lease_def lr_hit_def)
  have cs: "copy_scale (length (replicate 16 (0x3f800000 :: f32))) c k" using ck(2) by simp
  obtain rep st2 mem where rep: "replay env (replay_request res (replicate 16 0x3f800000)) (st1, replay_memory (replicate 16 0x3f800000))
      = Some (success rep, st2, mem)" and sole2: "sole_entry basic_request (finalized (rq_descriptor basic_request)) g st2"
    by (rule sole_lease_replay [OF sole lease chain_finalized [OF ck(1)] cap cs])
  obtain r2 st3 where l2: "lookup env basic_request st2 = (r2, st3)" by fastforce
  show ?thesis
    using st l1 hit rep l2 sole_entry_lookup(1) [OF sole2 basic_request_ok(1) l2] by (simp add: basic_cpu_main_def)
qed

text \<open>The prologue the other programs share.\<close>

lemma program_start:
  assumes "\<not> f64_is_nan (default_scalar fl to_f64)"
    and "open_cache cfg fs = Some st" and "cfg_allow_capture cfg"
  obtains res st1 g l where "lookup env (default_request fl to_f64 name) st = (res, st1)"
    "cpu_capture (env_node_ord env) (finalized (rq_descriptor (default_request fl to_f64 name))) = success (Some g)"
    "sole_entry (default_request fl to_f64 name) (finalized (rq_descriptor (default_request fl to_f64 name))) g st1"
    "sole_lease g res l st1" "lr_hit res" "lr_lease res = Some l"
    "lr_artifact res = g_artifact (finalized (rq_descriptor (default_request fl to_f64 name)))"
proof -
  note ok = default_request_ok [OF assms(1)]
  obtain res st1 g l where a: "lookup env (default_request fl to_f64 name) st = (res, st1)"
    "cpu_capture (env_node_ord env) (finalized (rq_descriptor (default_request fl to_f64 name))) = success (Some g)"
    "sole_entry (default_request fl to_f64 name) (finalized (rq_descriptor (default_request fl to_f64 name))) g st1"
    "sole_lease g res l st1" "lr_artifact res = g_artifact (finalized (rq_descriptor (default_request fl to_f64 name)))"
    by (rule first_lookup [OF assms(2,3) ok(2,1,3), of name])
  then show thesis using that [OF a(1-4)] by (simp add: sole_lease_def lr_hit_def)
qed

lemma exact_hit_runs:
  assumes "\<not> f64_is_nan (default_scalar fl to_f64)"
  shows "exact_hit_main fl to_f64 env = Some 0"
proof -
  let ?req = "default_request fl to_f64 ''exact_hit''"
  obtain st :: "CpuGraph GraphCache" where st: "open_cache GraphCacheConfig_default Map.empty = Some st" using open_default by blast
  obtain r1 st1 g l where l1: "lookup env ?req st = (r1, st1)" "sole_entry ?req (finalized (rq_descriptor ?req)) g st1" "lr_hit r1"
    "lr_artifact r1 = g_artifact (finalized (rq_descriptor ?req))"
    by (rule program_start [OF assms st default_config(1)])
  obtain r2 st2 where l2: "lookup env ?req st1 = (r2, st2)" by fastforce
  show ?thesis
    using st l1 l2 sole_entry_lookup [OF l1(2) default_request_ok(1) [OF assms] l2] by (simp add: exact_hit_main_def Let_def)
qed

lemma compatibility_rejection_runs:
  assumes "\<not> f64_is_nan (default_scalar fl to_f64)"
  shows "compatibility_rejection_main fl to_f64 env = Some 0"
proof -
  let ?req = "default_request fl to_f64 ''compat_reject''"
  let ?req2 = "(set_node1 (\<lambda>n. n\<lparr>n_datatype := DT_F16\<rparr>) ?req)\<lparr>rq_allow_capture := False\<rparr>"
  obtain st :: "CpuGraph GraphCache" where st: "open_cache GraphCacheConfig_default Map.empty = Some st" using open_default by blast
  obtain r1 st1 g l where l1: "lookup env ?req st = (r1, st1)" "sole_entry ?req (finalized (rq_descriptor ?req)) g st1" "lr_hit r1"
    by (rule program_start [OF assms st default_config(1)])
  have "f_datatypes (make_facts ?req2) = [DT_F16]" "f_datatypes (make_facts ?req) = [DT_F32]"
    by (simp_all add: make_facts_def facts_of_def facts_step_def request_simps default_simps)
  then have "\<not> compatible (decide_compatibility (make_facts ?req2) (make_facts ?req) (rq_policy ?req2))"
    by (simp add: decide_compatible_iff decision_passes_def hard_domains_match_def)
  then have "\<not> selectable st1 (make_facts ?req2) (rq_policy ?req2) 0"
    using l1(2) by (simp add: lone_entry_def selectable_def Let_def)
  moreover obtain r2 st2 where l2: "lookup env ?req2 st1 = (r2, st2)" by fastforce
  moreover have "gc_by_workload st1 (workload_key (rq_workload ?req2)) = Some [0]"
    using l1(2) by (simp add: lone_entry_def set_node1_def)
  ultimately have "\<not> lr_hit r2" using sole_entry_refused [OF _ _ _ l2] by simp
  then show ?thesis using st l1 l2 by (simp add: compatibility_rejection_main_def Let_def)
qed

lemma dependency_invalidation_runs:
  assumes "\<not> f64_is_nan (default_scalar fl to_f64)"
  shows "dependency_invalidation_main fl to_f64 env = Some 0"
proof -
  let ?req = "default_request fl to_f64 ''dep_inval''"
  let ?deps = "g_dependencies (rq_descriptor ?req)"
  let ?req2 = "?req\<lparr>rq_descriptor := (rq_descriptor ?req)\<lparr>g_dependencies := ?deps[0 := (?deps ! 0)\<lparr>k_generation := GraphGeneration 9\<rparr>]\<rparr>,
     rq_allow_capture := False\<rparr>"
  obtain st :: "CpuGraph GraphCache" where st: "open_cache GraphCacheConfig_default Map.empty = Some st" using open_default by blast
  obtain r1 st1 g l where l1: "lookup env ?req st = (r1, st1)" "sole_entry ?req (finalized (rq_descriptor ?req)) g st1" "lr_hit r1"
    by (rule program_start [OF assms st default_config(1)])
  have "f_dependencies (make_facts ?req) = [request_kernel 1]"
    "f_dependencies (make_facts ?req2) = [(request_kernel 1)\<lparr>k_generation := GraphGeneration 9\<rparr>]"
    by (simp_all add: make_facts_def facts_of_def case_prod_unfold request_simps default_simps)
  then have "\<not> is_dependency_fresh (gc_heap st1 0) (make_facts ?req2)"
    using l1(2) by (simp add: lone_entry_def is_dependency_fresh_def Let_def request_kernel_def)
  then have "\<not> selectable st1 (make_facts ?req2) (rq_policy ?req2) 0" by (simp add: selectable_def Let_def)
  moreover obtain r2 st2 where l2: "lookup env ?req2 st1 = (r2, st2)" by fastforce
  moreover have "gc_by_workload st1 (workload_key (rq_workload ?req2)) = Some [0]" using l1(2) by (simp add: lone_entry_def)
  ultimately have "\<not> lr_hit r2" using sole_entry_refused [OF _ _ _ l2] by simp
  then show ?thesis using st l1 l2 by (simp add: dependency_invalidation_main_def Let_def)
qed

lemma lease_invalidation_runs:
  assumes "\<not> f64_is_nan (default_scalar fl to_f64)"
  shows "lease_invalidation_main fl to_f64 env = Some 0"
proof -
  let ?req = "default_request fl to_f64 ''lease_inval''"
  let ?ir = "InvalidationRequest_default\<lparr>ir_scope := IS_ByWorkload, ir_workload := WorkloadIdentity_default\<lparr>wl_name := ''lease_inval''\<rparr>\<rparr>"
  obtain st :: "CpuGraph GraphCache" where st: "open_cache GraphCacheConfig_default Map.empty = Some st" using open_default by blast
  obtain r1 st1 g l where l1: "lookup env ?req st = (r1, st1)" "sole_entry ?req (finalized (rq_descriptor ?req)) g st1" "lr_hit r1"
    by (rule program_start [OF assms st default_config(1)])
  obtain iv st2 where iv: "invalidate env ?ir st1 = (iv, st2)" by fastforce
  have "wl_name (en_workload (gc_heap st1 0)) = ''lease_inval''"
    using l1(2) by (simp add: lone_entry_def Let_def request_simps default_simps)
  then have "targeted ?ir (g_artifact (finalized (rq_descriptor ?req))) (gc_heap st1 0)"
    by (simp add: targeted_def in_scope_def InvalidationRequest_default_def)
  moreover have "cache_inv st1" "map_of (gc_by_artifact st1) (g_artifact (finalized (rq_descriptor ?req))) = Some 0"
    using l1(2) by (simp_all add: lone_entry_def)
  ultimately have "en_invalidated (gc_heap st2 0)"
    using targets_iff [of st1] invalidate_marks [of env ?ir st1 0] iv by simp
  then have "\<not> selectable st2 (make_facts (?req\<lparr>rq_allow_capture := False\<rparr>)) (rq_policy ?req) 0" by (simp add: selectable_def Let_def)
  moreover obtain r2 st3 where l2: "lookup env (?req\<lparr>rq_allow_capture := False\<rparr>) st2 = (r2, st3)" by fastforce
  moreover have "gc_by_workload st2 (workload_key (rq_workload ?req)) = Some [0]"
    using l1(2) invalidate_frame [of st1 env ?ir] iv by (simp add: lone_entry_def same_frame_def)
  ultimately have "\<not> lr_hit r2" using sole_entry_refused [OF _ _ _ l2] by simp
  then show ?thesis using st l1 l2 iv by (simp add: lease_invalidation_main_def Let_def)
qed

text \<open>Releasing the lease leaves the graph in the cache, unused.\<close>

lemma sole_lease_release:
  fixes st :: "CpuGraph GraphCache"
  assumes sole: "sole_entry req desc g st" and lease: "sole_lease g res l st"
  obtains l' st' where "lease_release l st = (l', st')" "sole_entry req desc g st'"
    "en_lease_count (gc_heap st' 0) = 0" "en_pin_count (gc_heap st' 0) = 0"
proof -
  have l: "gl_token l = Some 0" "gc_next_token st = 1" "gc_tokens st 0 = \<lparr>le_keep_alive = Some 0, le_released = False\<rparr>"
    "en_lease_count (gc_heap st 0) = 1" "en_pin_count (gc_heap st 0) = 0"
    using lease by (simp_all add: sole_lease_def)
  obtain l' st' where r: "lease_release l st = (l', st')" by fastforce
  then have st': "st' = release_fn (Some 0) (st\<lparr>gc_tokens := (gc_tokens st)(0 := \<lparr>le_keep_alive = Some 0, le_released = True\<rparr>)\<rparr>)"
    using l by (simp add: lease_release_def Let_def split: prod.splits)
  have inv: "cache_inv st" using sole by (simp add: lone_entry_def)
  have "cache_inv st'"
    using engine_steps_inv [OF steps_release [OF engine_steps.stay, of l st] inv] l r by simp
  then have "sole_entry req desc g st'"
    by (rule sole_entry_frame [OF sole]) (use l in \<open>simp_all add: st' release_fn_def Let_def same_entry_def\<close>)
  moreover have "en_lease_count (gc_heap st' 0) = 0" "en_pin_count (gc_heap st' 0) = 0"
    using l by (simp_all add: st' release_fn_def Let_def)
  ultimately show thesis using that r by blast
qed

lemma sole_entry_residency: "sole_entry req desc g st \<Longrightarrow> en_residency (gc_heap st 0) \<noteq> RT_BackendResident"
  using inv_residency [of st 0] inv_by_artifact [of st "g_artifact desc" 0] by (simp add: lone_entry_def)

lemma sole_entry_evict:
  fixes st :: "CpuGraph GraphCache"
  assumes sole: "sole_entry req desc g st"
  obtains ev st' where "evict env (g_artifact desc) st = (ev, st')" "sole_entry req desc g st'"
    "result_ok ev \<longleftrightarrow> en_pin_count (gc_heap st 0) = 0 \<and> en_lease_count (gc_heap st 0) = 0"
    "en_pin_count (gc_heap st' 0) = en_pin_count (gc_heap st 0)"
proof -
  obtain ev st' where e: "evict env (g_artifact desc) st = (ev, st')" by fastforce
  have inv: "cache_inv st" and m: "map_of (gc_by_artifact st) (g_artifact desc) = Some 0" using sole by (simp_all add: lone_entry_def)
  have "cache_inv st'" using engine_steps_inv [OF steps_pin(3) [OF inv engine_steps.stay] inv, of "g_artifact desc"] e by simp
  moreover have f: "gc_by_artifact st' = gc_by_artifact st" "gc_by_workload st' = gc_by_workload st" "gc_key_gen st' = gc_key_gen st"
    "gc_heap st' = gc_heap st" "result_ok ev \<longleftrightarrow> en_pin_count (gc_heap st 0) = 0 \<and> en_lease_count (gc_heap st 0) = 0"
    using e m sole_entry_residency [OF sole]
    by (auto simp: evict_def Let_def result_ok_def word_greater_zero_iff split: if_splits)
  ultimately have "sole_entry req desc g st'" by (intro sole_entry_frame [OF sole]) (simp_all add: same_entry_def)
  then show thesis using that e f by simp
qed

lemma sole_entry_pin:
  fixes st :: "CpuGraph GraphCache"
  assumes sole: "sole_entry req desc g st"
  shows "\<exists>st'. pin (g_artifact desc) st = (success (), st') \<and> sole_entry req desc g st' \<and> en_pin_count (gc_heap st' 0) = en_pin_count (gc_heap st 0) + 1"
    and "sole_entry req desc g (snd (unpin (g_artifact desc) st))"
proof -
  have inv: "cache_inv st" and m: "map_of (gc_by_artifact st) (g_artifact desc) = Some 0" using sole by (simp_all add: lone_entry_def)
  have "sole_entry req desc g (snd (pin (g_artifact desc) st))"
    by (rule sole_entry_frame [OF sole engine_steps_inv [OF steps_pin(1) [OF inv engine_steps.stay] inv]])
      (simp_all add: pin_def m same_entry_def)
  then show "\<exists>st'. pin (g_artifact desc) st = (success (), st') \<and> sole_entry req desc g st' \<and> en_pin_count (gc_heap st' 0) = en_pin_count (gc_heap st 0) + 1"
    using m by (simp add: pin_def)
  show "sole_entry req desc g (snd (unpin (g_artifact desc) st))"
    by (rule sole_entry_frame [OF sole engine_steps_inv [OF steps_pin(2) [OF inv engine_steps.stay] inv]])
      (simp_all add: unpin_def m same_entry_def)
qed

lemma eviction_reload_runs:
  assumes "\<not> f64_is_nan (default_scalar fl to_f64)"
  shows "eviction_reload_main fl to_f64 env = Some 0"
proof -
  let ?req = "default_request fl to_f64 ''evict_reload''" and ?d = "finalized (rq_descriptor (default_request fl to_f64 ''evict_reload''))"
  obtain st :: "CpuGraph GraphCache" where st: "open_cache GraphCacheConfig_default Map.empty = Some st" using open_default by blast
  obtain r1 st1 g l where l1: "lookup env ?req st = (r1, st1)" "sole_entry ?req ?d g st1" "sole_lease g r1 l st1" "lr_lease r1 = Some l"
    "lr_artifact r1 = g_artifact ?d"
    by (rule program_start [OF assms st default_config(1)])
  obtain l' st2 where rel: "lease_release l st1 = (l', st2)" "sole_entry ?req ?d g st2" "en_lease_count (gc_heap st2 0) = 0"
    "en_pin_count (gc_heap st2 0) = 0" by (rule sole_lease_release [OF l1(2,3)])
  obtain ev st3 where ev: "evict env (g_artifact ?d) st2 = (ev, st3)" "sole_entry ?req ?d g st3" "result_ok ev"
    by (rule sole_entry_evict [OF rel(2)]) (use rel in simp)
  obtain r2 st4 where l2: "lookup env ?req st3 = (r2, st4)" by fastforce
  then have "lr_hit r2" by (rule sole_entry_lookup(1) [OF ev(2) default_request_ok(1) [OF assms]])
  then show ?thesis using st l1 rel ev l2 by (simp add: eviction_reload_main_def Let_def)
qed

lemma cost_aware_eviction_runs:
  assumes "\<not> f64_is_nan (default_scalar fl to_f64)"
  shows "cost_aware_eviction_main fl to_f64 env = Some 0"
proof -
  let ?req = "default_request fl to_f64 ''cost_aware''" and ?d = "finalized (rq_descriptor (default_request fl to_f64 ''cost_aware''))"
  let ?cfg = "GraphCacheConfig_default\<lparr>cfg_eviction := (cfg_eviction GraphCacheConfig_default)\<lparr>epo_cost_aware := True, epo_recapture_cost_aware := True\<rparr>\<rparr>"
  obtain st :: "CpuGraph GraphCache" where st: "open_cache ?cfg Map.empty = Some st"
    by (auto simp: open_cache_def cache_new_def create_backend_def GraphCacheConfig_default_def)
  have "cfg_allow_capture ?cfg" using default_config by simp
  then obtain r1 st1 g l where l1: "lookup env ?req st = (r1, st1)" "sole_entry ?req ?d g st1" "sole_lease g r1 l st1" "lr_lease r1 = Some l"
    "lr_artifact r1 = g_artifact ?d"
    using program_start [OF assms st] by metis
  obtain l' st2 where rel: "lease_release l st1 = (l', st2)" "sole_entry ?req ?d g st2" "en_pin_count (gc_heap st2 0) = 0"
    by (rule sole_lease_release [OF l1(2,3)])
  obtain st3 where p: "pin (g_artifact ?d) st2 = (success (), st3)" "sole_entry ?req ?d g st3" "en_pin_count (gc_heap st3 0) = 1"
    using sole_entry_pin(1) [OF rel(2)] rel(3) by auto
  obtain ev st4 where ev: "evict env (g_artifact ?d) st3 = (ev, st4)" "sole_entry ?req ?d g st4" "\<not> result_ok ev"
    by (rule sole_entry_evict [OF p(2)]) (use p in simp)
  obtain up st5 where up: "unpin (g_artifact ?d) st4 = (up, st5)" by fastforce
  then have "sole_entry ?req ?d g st5" using sole_entry_pin(2) [OF ev(2)] by simp
  moreover obtain r2 st6 where l2: "lookup env ?req st5 = (r2, st6)" by fastforce
  ultimately have "lr_hit r2" by (intro sole_entry_lookup(1) [OF _ default_request_ok(1) [OF assms]])
  then show ?thesis using st l1 rel p ev up l2 by (simp add: cost_aware_eviction_main_def Let_def)
qed

text \<open>Looking up and replaying a sample graph: the program's own computation agrees with the device.\<close>

lemma replay_and_check_ok:
  assumes fa: "floats_agree fl to_f64 far" and sole: "sole_entry req desc g st" and lease: "sole_lease g res l st"
    and ch: "chain_graph desc c k" and cap: "cpu_capture (env_node_ord env) desc = success (Some g)"
    and cs: "copy_scale n c k" and s: "sc_float (n_scalar k) = default_scalar fl to_f64"
  shows "map_option fst (replay_and_check fl far env res (replicate n 0x3f800000) 0x4000000000000000 st) = Some 0"
proof -
  have cs': "copy_scale (length (replicate n (0x3f800000 :: f32))) c k" using cs by simp
  obtain rep st2 mem where rep: "replay env (replay_request res (replicate n 0x3f800000)) (st, replay_memory (replicate n 0x3f800000))
      = Some (success rep, st2, mem)"
    "mem 1 = Some (float_bytes (map (\<lambda>x. fl_mul fl x (fl_of_f64 fl (sc_float (n_scalar k)))) (replicate n 0x3f800000)))"
    by (rule sole_lease_replay [OF sole lease ch cap cs'])
  then show ?thesis
    using fa s by (simp add: replay_and_check_def floats_of_float_bytes reference_def floats_agree_def verify_output_replicate)
qed

lemma specialized_runs:
  assumes fa: "floats_agree fl to_f64 far" and "self_matching req" "rq_allow_capture req"
    and ck: "\<exists>c k. chain_graph (rq_descriptor req) c k \<and> copy_scale n c k \<and> sc_float (n_scalar k) = default_scalar fl to_f64"
    and st: "open_cache GraphCacheConfig_default Map.empty = Some st" and l: "lookup env req st = (res, st1)"
  shows "lr_hit res" and "map_option fst (replay_and_check fl far env res (replicate n 0x3f800000) 0x4000000000000000 st1) = Some 0"
proof -
  obtain c k where c: "chain_graph (rq_descriptor req) c k" "copy_scale n c k" "sc_float (n_scalar k) = default_scalar fl to_f64"
    using ck by blast
  obtain r s g le where f: "lookup env req st = (r, s)" "cpu_capture (env_node_ord env) (finalized (rq_descriptor req)) = success (Some g)"
    "sole_entry req (finalized (rq_descriptor req)) g s" "sole_lease g r le s"
    by (rule first_lookup [OF st default_config(1) assms(3,2) c(1)])
  then have "r = res" "s = st1" using l by simp_all
  then show "lr_hit res" "map_option fst (replay_and_check fl far env res (replicate n 0x3f800000) 0x4000000000000000 st1) = Some 0"
    using replay_and_check_ok [OF fa f(3,4) chain_finalized [OF c(1)] f(2) c(2,3)] f(4) by (simp_all add: sole_lease_def lr_hit_def)
qed

lemma shape_specialized_runs:
  assumes "floats_agree fl to_f64 far"
  shows "shape_specialized_main fl to_f64 far env = Some 0"
proof -
  have nan: "\<not> f64_is_nan (default_scalar fl to_f64)" using assms by (simp add: floats_agree_def)
  obtain st :: "CpuGraph GraphCache" where st: "open_cache GraphCacheConfig_default Map.empty = Some st" using open_default by blast
  show ?thesis
    unfolding shape_specialized_main_def st Let_def
    using specialized_runs [OF assms shaped_request_ok [OF nan, of "''shape_spec''"] st surjective_pairing]
    by (simp add: case_prod_unfold)
qed

lemma datatype_specialized_runs:
  assumes "floats_agree fl to_f64 far"
  shows "datatype_specialized_main fl to_f64 far env = Some 0"
proof -
  have nan: "\<not> f64_is_nan (default_scalar fl to_f64)" using assms by (simp add: floats_agree_def)
  obtain st :: "CpuGraph GraphCache" where st: "open_cache GraphCacheConfig_default Map.empty = Some st" using open_default by blast
  show ?thesis
    unfolding datatype_specialized_main_def st Let_def
    using specialized_runs [OF assms typed_request_ok [OF nan, of "''dtype_spec''"] st surjective_pairing]
    by (simp add: case_prod_unfold)
qed

end

end
