(* ===== verification/GC_RestartRuns.thy ===== *)
theory GC_RestartRuns
  imports GC_ExampleRuns
begin

text \<open>
  The two sample programs that restart: one recovers the graph it persisted and replays it, the other overwrites
  the file with junk and finds the corruption counted.
\<close>

section \<open>A machine with a disk\<close>

text \<open>File operations succeed, and a directory listing names every file once.\<close>

locale disk_machine = cpu_machine +
  assumes put_ok: "env_put env n = PutOk" and open_ok: "env_open env n"
    and dir_ok: "finite (dom fs) \<Longrightarrow> set (env_dir env fs) = dom fs \<and> distinct (env_dir env fs)"

definition disk_env :: "float_ops \<Rightarrow> CpuGraph cache_env" where
  "disk_env fl = example_env\<lparr>env_backend := cpu_backend fl rev, env_dir := (\<lambda>fs. sorted_list_of_set (dom fs))\<rparr>"

interpretation disk: disk_machine "disk_env fl" fl for fl
  by unfold_locales (simp_all add: disk_env_def example_env_def)

section \<open>What is on disk\<close>

lemma request_view:
  "node_view (request_copy b r) = request_copy b r" "node_view (request_scale s b g r) = request_scale s b g r"
  "dep_view (request_kernel g) = request_kernel g"
  by (simp_all add: node_view_def dep_view_def request_simps default_simps LaunchGeometry_default_def)

lemma default_request_fields:
  "rq_backend (default_request fl to_f64 name) = g_backend (rq_descriptor (default_request fl to_f64 name))"
  "rq_runtime (default_request fl to_f64 name) = g_runtime (rq_descriptor (default_request fl to_f64 name))"
  "rq_device (default_request fl to_f64 name) = g_device (rq_descriptor (default_request fl to_f64 name))"
  "runtime_view (g_runtime (rq_descriptor (default_request fl to_f64 name))) = g_runtime (rq_descriptor (default_request fl to_f64 name))"
  "g_nodes (rq_descriptor (default_request fl to_f64 name)) = [request_copy 64 True, request_scale (default_scalar fl to_f64) 64 1 True]"
  "g_edges (rq_descriptor (default_request fl to_f64 name)) = [request_edge]"
  "g_dependencies (rq_descriptor (default_request fl to_f64 name)) = [request_kernel 1]"
  by (simp_all add: request_simps default_simps runtime_view_def RuntimeDescriptor_default_def)

lemma finalized_more:
  "g_backend (finalized g) = g_backend g" "g_runtime (finalized g) = g_runtime g" "g_device (finalized g) = g_device g"
  "g_sync (finalized g) = g_sync g" "g_dependencies (finalized g) = g_dependencies g" "g_provenance (finalized g) = g_provenance g"
  by (simp_all add: finalized_def canonicalize_topology_def)

text \<open>The graph a program captures, and what the store gives back of it.\<close>

definition stored_graph :: "float_ops \<Rightarrow> (f32 \<Rightarrow> f64) \<Rightarrow> string \<Rightarrow> GraphDescriptor" where
  "stored_graph fl to_f64 name = finalized (rq_descriptor (default_request fl to_f64 name))"

lemma stored_graph_fields:
  "g_nodes (stored_graph fl to_f64 name) = [request_copy 64 True, request_scale (default_scalar fl to_f64) 64 1 True]"
  "g_edges (stored_graph fl to_f64 name) = [request_edge]"
  "g_dependencies (stored_graph fl to_f64 name) = [request_kernel 1]"
proof -
  have "chain_graph (rq_descriptor (default_request fl to_f64 name)) (request_copy 64 True) (request_scale (default_scalar fl to_f64) 64 1 True)"
    by (simp add: request_simps default_simps chain_graph_def edge_pairs_def)
  from chain_finalized [OF this] show "g_nodes (stored_graph fl to_f64 name) = [request_copy 64 True, request_scale (default_scalar fl to_f64) 64 1 True]"
    by (simp add: stored_graph_def chain_graph_def)
qed (simp_all add: stored_graph_def finalized_more finalized_fields default_request_fields)

lemma stored_graph_facts:
  "facts_from_descriptor_and_workload (descriptor_view (stored_graph fl to_f64 name)) (rq_workload (default_request fl to_f64 name))
     = make_facts (default_request fl to_f64 name)"
proof -
  let ?v = "descriptor_view (stored_graph fl to_f64 name)" and ?d = "rq_descriptor (default_request fl to_f64 name)"
  have "g_nodes ?v = g_nodes ?d" "g_edges ?v = g_edges ?d" "g_dependencies ?v = g_dependencies ?d" "g_sync ?v = g_sync ?d"
    "g_backend ?v = g_backend ?d" "g_runtime ?v = g_runtime ?d" "g_device ?v = g_device ?d"
    by (simp_all add: descriptor_view_def stored_graph_fields request_view default_request_fields)
      (simp_all add: stored_graph_def finalized_more default_request_fields)
  then show ?thesis
    by (simp add: facts_from_descriptor_and_workload_def make_facts_def facts_of_def default_request_fields(1-3))
qed

lemma stored_graph_ok: "descriptor_ok (stored_graph fl to_f64 name)"
  and stored_graph_small: "length (serialize_descriptor (stored_graph fl to_f64 name)) < 2 ^ 20"
proof -
  let ?g = "stored_graph fl to_f64 name"
  have n: "ser_node_ok (request_copy 64 True)" "ser_node_ok (request_scale s 64 1 True)" for s
    by (simp_all add: request_simps default_simps LaunchGeometry_default_def ser_node_ok_def node_encodable_def fits32_def)
  have nl: "length (ser_encode_node (request_copy 64 True)) < 2 ^ 16" "length (ser_encode_node (request_scale s 64 1 True)) < 2 ^ 16" for s
    by (simp_all add: request_simps default_simps LaunchGeometry_default_def ser_encode_node_def put_is_field)
  have e: "edge_encodable request_edge" "length (ser_encode_edge request_edge) < 2 ^ 16"
    by (simp_all add: request_simps default_simps edge_encodable_def ser_encode_edge_def put_is_field fits32_def)
  have d: "dep_ok (request_kernel 1)" "length (ser_encode_dep (request_kernel 1)) < 2 ^ 16"
    by (simp_all add: request_simps default_simps dep_ok_def ser_encode_dep_def put_is_field fits32_def)
  have r: "backend_ok (g_backend ?g)" "device_ok (g_device ?g)" "CaptureMode_named (sy_capture_mode (g_sync ?g))"
    "StreamSemantics_named (sy_stream_semantics (g_sync ?g))" "provenance_ok (g_provenance ?g)"
    by (simp_all add: stored_graph_def finalized_more request_simps default_simps BackendIdentity_default_def DeviceDescriptor_default_def
        SynchronizationDescriptor_default_def ProvenanceDescriptor_default_def backend_ok_def device_ok_def provenance_ok_def fits32_def)
  show "descriptor_ok ?g" using n nl(1) nl(2) [of "default_scalar fl to_f64"] e d r by (simp add: descriptor_ok_def stored_graph_fields fits32_def)
  have s: "length (bk_name (g_backend ?g)) < 20" "length (bk_impl (g_backend ?g)) < 20" "length (dev_arch (g_device ?g)) < 20"
    "length (dev_name (g_device ?g)) < 20" "length (pv_source (g_provenance ?g)) < 20" "length (pv_toolchain (g_provenance ?g)) < 20"
    "length (pv_graph_name (g_provenance ?g)) < 20"
    by (simp_all add: stored_graph_def finalized_more request_simps default_simps BackendIdentity_default_def DeviceDescriptor_default_def
        ProvenanceDescriptor_default_def)
  show "length (serialize_descriptor ?g) < 2 ^ 20"
    using nl(1) nl(2) [of "default_scalar fl to_f64"] e(2) d(2) s
    by (simp add: serialize_descriptor_def stored_graph_fields put_is_field)
qed

lemma stored_entry_ok:
  assumes "en_descriptor e = stored_graph fl to_f64 name" and "en_workload e = rq_workload (default_request fl to_f64 name)"
    and "length name < 2 ^ 16"
  shows "entry_storable e"
proof -
  have w: "rq_workload (default_request fl to_f64 name) = \<lparr>wl_name = name, wl_version = 1, wl_namespace = [],
      wl_revision_mode = WRM_Unspecified, wl_model_revision = [], wl_policy_generation = []\<rparr>"
    by (simp add: request_simps default_simps)
  have "length (serialize_metadata (md_of e)) < 2 ^ 17"
    using assms(2,3) by (simp add: md_of_def serialize_metadata_def w put_is_field)
  then have "length (encode_entry_payload e) + 16 < 2 ^ 32"
    using stored_graph_small [of fl to_f64 name] assms(1) by (simp add: encode_payload_md put_is_field)
  moreover have "workload_ok (en_workload e)" using assms(2,3) by (simp add: w workload_ok_def fits32_def)
  ultimately show ?thesis using stored_graph_ok assms(1) by (simp add: entry_storable_def)
qed

section \<open>The restart\<close>

lemma distinct_singleton: "distinct xs \<Longrightarrow> set xs = {x} \<Longrightarrow> xs = [x]"
proof (cases xs)
  case (Cons a as)
  then show "distinct xs \<Longrightarrow> set xs = {x} \<Longrightarrow> xs = [x]" by (cases as) auto
qed simp

lemma listed_single: "store_list [file_for i] = [i]"
  by (simp add: store_list_def map_filter_simps)

lemma remove_orphans_single: "remove_orphans [file_for i] fs = fs"
  using listed_not_tmp [OF listed_file [of i]] by (simp add: remove_orphans_def)

lemma open_persistent: "\<exists>st. open_cache persistent_config fs = Some st"
  by (simp add: open_cache_def cache_new_def create_backend_def persistent_config_def GraphCacheConfig_default_def)

lemma persistent_store:
  "open_cache persistent_config fs = Some st \<Longrightarrow> gc_store st = Some (\<lparr>ps_dir = ''gc-ex'', ps_version = kFormatVersion\<rparr>, fs)
     \<and> gc_metrics st = Metrics_default"
  by (auto simp: open_cache_def cache_new_def create_backend_def persistent_config_def GraphCacheConfig_default_def)

lemma persistent_allows: "cfg_allow_capture persistent_config"
  by (simp add: persistent_config_def GraphCacheConfig_default_def)

context disk_machine
begin

lemma dir_single: "env_dir env [file_for i \<mapsto> d] = [file_for i]"
proof -
  have "set (env_dir env [file_for i \<mapsto> d]) = {file_for i}" "distinct (env_dir env [file_for i \<mapsto> d])"
    using dir_ok [of "[file_for i \<mapsto> d]"] by simp_all
  then show ?thesis by (rule distinct_singleton [rotated])
qed

lemma map_ord_single: "env_map_ord env [x] = [x]"
  using map_perm [of "[x]"] by simp

text \<open>Persisting the only entry leaves one file.\<close>

lemma persist_block_runs:
  assumes nan: "\<not> f64_is_nan (default_scalar fl to_f64)"
  obtains e where "persist_block fl to_f64 name env = Some (Some (g_artifact (stored_graph fl to_f64 name),
      [file_for (g_artifact (stored_graph fl to_f64 name)) \<mapsto> build_envelope kFormatVersion (encode_entry_payload (e :: CpuGraph CacheEntry))]))"
    "en_artifact e = g_artifact (stored_graph fl to_f64 name)" "en_descriptor e = stored_graph fl to_f64 name"
    "en_workload e = rq_workload (default_request fl to_f64 name)" "\<not> en_invalidated e"
proof -
  let ?req = "default_request fl to_f64 name" and ?d = "stored_graph fl to_f64 name"
  let ?s = "\<lparr>ps_dir = ''gc-ex'', ps_version = kFormatVersion\<rparr>" and ?i = "g_artifact (stored_graph fl to_f64 name)"
  obtain st :: "CpuGraph GraphCache" where st: "open_cache persistent_config Map.empty = Some st" using open_persistent by blast
  note gs = conjunct1 [OF persistent_store [OF st]]
  note ok = default_request_ok [OF nan]
  obtain r st1 g l where l: "lookup env ?req st = (r, st1)" and sole: "sole_entry ?req ?d g st1" and le: "sole_lease g r l st1"
    and art: "lr_artifact r = ?i" and fw: "(\<forall>n. env_put env n = PutOk) \<longrightarrow> files_within ?i st st1"
    unfolding stored_graph_def by (rule first_lookup [OF st persistent_allows ok(2,1,3), of name])
  obtain fs1 where fs1: "gc_store st1 = Some (?s, fs1)" "dom fs1 \<subseteq> {file_for ?i}"
    using fw put_ok gs by (auto simp: files_within_def)
  let ?e = "gc_heap st1 0"
  have e: "en_artifact ?e = ?i" "en_descriptor ?e = ?d" "en_workload ?e = rq_workload ?req" "\<not> en_invalidated ?e"
    and idx: "gc_by_artifact st1 = [(?i, 0)]" using sole by (simp_all add: lone_entry_def Let_def)
  have "\<exists>st2. persist_all env st1 = (success (), st2) \<and> gc_store st2 = Some (?s, snd (store_put ?s fs1 ?i (encode_entry_payload ?e) PutOk))"
    using fs1(1) persist_entry_effect [OF fs1(1) put_ok, of 0] e(1)
    by (simp add: persist_all_def idx map_ord_single Let_def case_prod_unfold)
  moreover have "snd (store_put ?s fs1 ?i (encode_entry_payload ?e) PutOk) = [file_for ?i \<mapsto> build_envelope kFormatVersion (encode_entry_payload ?e)]"
  proof
    fix n show "snd (store_put ?s fs1 ?i (encode_entry_payload ?e) PutOk) n = [file_for ?i \<mapsto> build_envelope kFormatVersion (encode_entry_payload ?e)] n"
      using fs1(2) by (cases "fs1 n") (auto simp: store_put_def Let_def)
  qed
  ultimately have "persist_block fl to_f64 name env = Some (Some (?i, [file_for ?i \<mapsto> build_envelope kFormatVersion (encode_entry_payload ?e)]))"
    using st l le art by (auto simp: persist_block_def sole_lease_def lr_hit_def case_prod_unfold)
  with that e show thesis by blast
qed

text \<open>Recovering a directory with one file.\<close>

lemma recover_one:
  assumes gs: "gc_store st = Some (s, [file_for i \<mapsto> d])" and l: "load_entry env i (snd (now_us env st)) = Some (x, st1)"
  obtains st' where "recover env st = Some (success (), st')"
    "case x of Inl err \<Rightarrow> m_corruption_count (gc_metrics st') = m_corruption_count (gc_metrics st1) + 1
       | Inr e \<Rightarrow> same_core (recover_entry e st1) st' \<and> gc_key_gen st' = gc_key_gen (recover_entry e st1)"
proof -
  have st: "(snd (now_us env st))\<lparr>gc_store := Some (s, [file_for i \<mapsto> d])\<rparr> = snd (now_us env st)" using gs by (simp add: now_us_def)
  have m: "gc_metrics (record_event env t msg det sx) = gc_metrics sx" "gc_metrics (snd (now_us env sx)) = gc_metrics sx"
    "gc_metrics (bump_generations env sx) = gc_metrics sx" "gc_key_gen (bump_generations env sx) = gc_key_gen sx" for t msg det and sx :: "CpuGraph GraphCache"
    by (simp_all add: record_event_def now_ms_def now_us_def bump_generations_def Let_def)
  have core: "same_core sx (record_event env t msg det (touch_metric f (snd (now_us env (bump_generations env sx)))))" for t msg det f and sx :: "CpuGraph GraphCache"
    using bump_generations_frame(2) [of sx env] by (simp add: same_core_def)
  show thesis
    using that gs l st m core
    by (cases x) (simp_all add: recover_def dir_single remove_orphans_single listed_single Let_def case_prod_unfold, simp_all add: touch_metric_def)
qed

lemma load_stored:
  fixes e :: "CpuGraph CacheEntry"
  assumes "gc_store st = Some (s, [file_for i \<mapsto> build_envelope kFormatVersion (encode_entry_payload e)])"
    and "ps_version s = kFormatVersion" and "entry_storable e"
  shows "load_entry env i st = Some (success (restored_entry (descriptor_view (en_descriptor e)) (md_of e)), st\<lparr>gc_ios := gc_ios st + 1\<rparr>)"
proof -
  have "store_get s [file_for i \<mapsto> build_envelope kFormatVersion (encode_entry_payload e)] i True = Some (success (encode_entry_payload e))"
    using get_put_same [of "encode_entry_payload e" s Map.empty i] assms(2,3) by (simp add: store_put_def entry_storable_def store_get_def Let_def)
  moreover have "decode_entry_payload (encode_entry_payload e) = Some (restored_entry (descriptor_view (en_descriptor e)) (md_of e) :: CpuGraph CacheEntry)"
    by (rule decode_encode_payload [OF assms(3)])
  ultimately show ?thesis using assms(1) open_ok by (simp add: load_entry_def Let_def)
qed

lemma recovered_entry:
  assumes st: "open_cache persistent_config [file_for i \<mapsto> build_envelope kFormatVersion (encode_entry_payload e)] = Some st"
    and e: "en_artifact e = i" "i = g_artifact (stored_graph fl to_f64 name)" "en_descriptor e = stored_graph fl to_f64 name"
      "en_workload e = rq_workload (default_request fl to_f64 name)" "\<not> en_invalidated (e :: CpuGraph CacheEntry)"
    and "length name < 2 ^ 16"
  obtains rc st' where "recover env st = Some (rc, st')"
    "lone_entry (default_request fl to_f64 name) (descriptor_view (stored_graph fl to_f64 name)) None st'"
    "gc_next_token st' = 0" "en_lease_count (gc_heap st' 0) = 0" "en_pin_count (gc_heap st' 0) = 0"
proof -
  let ?fs = "[file_for i \<mapsto> build_envelope kFormatVersion (encode_entry_payload e)]"
  let ?s = "\<lparr>ps_dir = ''gc-ex'', ps_version = kFormatVersion\<rparr>" and ?r = "default_request fl to_f64 name"
  let ?e = "restored_entry (descriptor_view (stored_graph fl to_f64 name)) (md_of e) :: CpuGraph CacheEntry"
  note gs = conjunct1 [OF persistent_store [OF st]]
  have "gc_store (snd (now_us env st)) = Some (?s, ?fs)" using gs by simp
  note l = load_stored [OF this _ stored_entry_ok [OF e(3,4) assms(7)], unfolded e(3)]
  obtain st' where r: "recover env st = Some (success (), st')"
    and c: "same_core (recover_entry ?e ((snd (now_us env st))\<lparr>gc_ios := gc_ios (snd (now_us env st)) + 1\<rparr>)) st'"
      "gc_key_gen st' = gc_key_gen (recover_entry ?e ((snd (now_us env st))\<lparr>gc_ios := gc_ios (snd (now_us env st)) + 1\<rparr>))"
    by (rule recover_one [OF gs l]) simp_all
  note new = open_cache_fresh [OF st]
  have inv: "cache_inv st'" by (rule engine_steps_inv [OF steps_recover [OF r engine_steps.stay] new(1)])
  have "en_facts ?e = make_facts ?r" "en_workload ?e = rq_workload ?r" "\<not> en_invalidated ?e" "en_lifecycle ?e = LC_Valid"
    "en_artifact ?e = g_artifact (stored_graph fl to_f64 name)" "en_exec ?e = None" "en_residency ?e = RT_MetadataOnly"
    "en_lease_count ?e = 0" "en_pin_count ?e = 0"
    using e stored_graph_facts [of fl to_f64 name]
    by (simp_all add: restored_entry_def md_of_def Let_def CacheEntry_default_def)
  note re = this
  have "lone_entry ?r (descriptor_view (stored_graph fl to_f64 name)) None st'"
    using inv c re new by (simp add: lone_entry_def same_core_def recover_entry_def insert_entry_def push_index_def Let_def descriptor_view_def)
  moreover have "gc_next_token st' = 0" "en_lease_count (gc_heap st' 0) = 0" "en_pin_count (gc_heap st' 0) = 0"
    using c(1) re new by (simp_all add: same_core_def recover_entry_def insert_entry_def Let_def)
  ultimately show thesis using that r by blast
qed

lemma persistence_recovery_runs:
  assumes fa: "floats_agree fl to_f64 far"
  shows "persistence_recovery_main fl to_f64 far env = Some 0"
proof -
  let ?req = "default_request fl to_f64 ''persist_ex''" and ?g = "stored_graph fl to_f64 ''persist_ex''"
  let ?c = "request_copy 64 True" and ?k = "request_scale (default_scalar fl to_f64) 64 1 True"
  have nan: "\<not> f64_is_nan (default_scalar fl to_f64)" using fa by (simp add: floats_agree_def)
  note ok = default_request_ok [OF nan]
  obtain e where b: "persist_block fl to_f64 ''persist_ex'' env = Some (Some (g_artifact ?g, [file_for (g_artifact ?g) \<mapsto>
        build_envelope kFormatVersion (encode_entry_payload (e :: CpuGraph CacheEntry))]))"
    and e: "en_artifact e = g_artifact ?g" "en_descriptor e = ?g" "en_workload e = rq_workload ?req" "\<not> en_invalidated e"
    by (rule persist_block_runs [OF nan])
  obtain st :: "CpuGraph GraphCache" where st: "open_cache persistent_config [file_for (g_artifact ?g) \<mapsto>
        build_envelope kFormatVersion (encode_entry_payload e)] = Some st" using open_persistent by blast
  obtain rc st1 where r: "recover env st = Some (rc, st1)" "lone_entry ?req (descriptor_view ?g) None st1"
    and z: "gc_next_token st1 = 0" "en_lease_count (gc_heap st1 0) = 0" "en_pin_count (gc_heap st1 0) = 0"
    by (rule recovered_entry [OF st e(1) refl e(2-4)]) simp_all
  have ch: "chain_graph (descriptor_view ?g) ?c ?k"
    using ok(3) by (simp add: chain_graph_def descriptor_view_def stored_graph_fields request_view default_request_fields)
  then obtain h where cap: "cpu_capture (env_node_ord env) (descriptor_view ?g) = success (Some h)"
    using chain_topology [OF ch] validate_graph_iff [OF node_perm, of "descriptor_view ?g"] by (auto simp: cpu_capture_def Let_def)
  have core: "same_core st1 (lookup_start env ?req st1)" by simp
  then have "cache_inv (lookup_start env ?req st1)" using cache_inv_same_core [OF core] r(2) by (simp add: lone_entry_def)
  then have start: "lone_entry ?req (descriptor_view ?g) None (lookup_start env ?req st1)"
    by (rule sole_entry_frame [OF r(2)]) (use core in \<open>simp_all add: same_core_def same_entry_def\<close>)
  obtain res st2 l where s: "search_candidates env (make_facts ?req) (rq_policy ?req) (lookup_start env ?req st1) = (res, st2)"
    "sole_entry ?req (descriptor_view ?g) h st2" "lr_lease res = Some l" "lr_generation res = gl_generation l" "gl_exec l = Some h"
    "gl_token l = Some (gc_next_token (lookup_start env ?req st1))" "gc_next_token st2 = gc_next_token (lookup_start env ?req st1) + 1"
    "gc_tokens st2 = (gc_tokens (lookup_start env ?req st1))(gc_next_token (lookup_start env ?req st1) := \<lparr>le_keep_alive = Some 0, le_released = False\<rparr>)"
    "en_lease_count (gc_heap st2 0) = en_lease_count (gc_heap (lookup_start env ?req st1) 0) + 1"
    "en_pin_count (gc_heap st2 0) = en_pin_count (gc_heap (lookup_start env ?req st1) 0)"
    by (rule lone_entry_search [OF start _ cap ok(1)]) simp_all
  let ?st' = "finish_hit env res ?req (fst (now_us env st1)) st2"
  obtain sp ow st3 ag st4 where x: "lookup_capture env ?req st2 = ((sp, ow), st3)" "search_candidates env (make_facts ?req) (rq_policy ?req) st3 = (ag, st4)"
    by (metis surj_pair)
  have l2: "lookup env ?req st1 = (res, ?st')" using lookup_eq [OF s(1) x] s(3) by (simp add: lr_hit_def)
  have "cache_inv ?st'" by (rule cache_inv_same_core [of st2]) (use s(2) in \<open>simp_all add: same_core_def lone_entry_def\<close>)
  then have sole: "sole_entry ?req (descriptor_view ?g) h ?st'" by (rule sole_entry_frame [OF s(2)]) (simp_all add: same_entry_def)
  have "sole_lease h res l ?st'" using s z core by (simp add: sole_lease_def same_core_def)
  from replay_and_check_ok [OF fa sole this ch cap ok(4)]
  have "map_option fst (replay_and_check fl far env res (replicate 16 0x3f800000) 0x4000000000000000 ?st') = Some 0"
    by (simp add: request_scale_def)
  then show ?thesis using b st r(1) l2 s(3) by (simp add: persistence_recovery_main_def lr_hit_def Let_def)
qed

lemma corrupt_graph_rejection_runs:
  assumes nan: "\<not> f64_is_nan (default_scalar fl to_f64)"
  shows "corrupt_graph_rejection_main fl to_f64 env = Some 0"
proof -
  let ?g = "stored_graph fl to_f64 ''corrupt_ex''" and ?junk = "[0xDE, 0xAD, 0xBE, 0xEF] @ replicate 60 0 :: bytes"
  let ?s = "\<lparr>ps_dir = ''gc-ex'', ps_version = kFormatVersion\<rparr>"
  obtain e where b: "persist_block fl to_f64 ''corrupt_ex'' env = Some (Some (g_artifact ?g, [file_for (g_artifact ?g) \<mapsto>
        build_envelope kFormatVersion (encode_entry_payload (e :: CpuGraph CacheEntry))]))"
    by (rule persist_block_runs [OF nan])
  obtain st :: "CpuGraph GraphCache" where st: "open_cache persistent_config [file_for (g_artifact ?g) \<mapsto> ?junk] = Some st"
    using open_persistent by blast
  note gs = conjunct1 [OF persistent_store [OF st]] and mt = conjunct2 [OF persistent_store [OF st]]
  have "parse_envelope kFormatVersion ?junk = Some (Inl EC_PersistenceCorrupt)"
    by (simp add: parse_envelope_def rd_u32_def rd_be_u32_def kMagic_def)
  then have "store_get ?s [file_for (g_artifact ?g) \<mapsto> ?junk] (g_artifact ?g) True = Some (failure EC_PersistenceCorrupt ''persisted envelope rejected'')"
    by (simp add: store_get_def)
  then have "load_entry env (g_artifact ?g) (snd (now_us env st)) = Some (failure EC_PersistenceCorrupt ''persisted envelope rejected'',
      (snd (now_us env st))\<lparr>gc_ios := gc_ios (snd (now_us env st)) + 1\<rparr>)"
    using gs open_ok by (simp add: load_entry_def Let_def)
  note l = this
  have "gc_metrics (snd (now_us env st)) = Metrics_default" using mt by (simp add: now_us_def)
  then obtain st' where "recover env st = Some (success (), st')" "m_corruption_count (gc_metrics st') = 1"
    by (rule_tac recover_one [OF gs l]) (simp add: Metrics_default_def)
  then show ?thesis using b st by (simp add: corrupt_graph_rejection_main_def metrics_def Let_def)
qed

end

section \<open>Properties\<close>

text \<open>
  C10: The sample programs do what they show. On every machine whose hash maps enumerate their elements in some
  order, whose file operations succeed, whose directory listings name every file once and whose floats scale 1.0 by
  2.0 as the programs expect, each of the eleven programs that run in one thread exits with 0: a graph is captured
  once and then hit, a request of another datatype and one with a newer dependency are not served the old graph, an
  invalidated graph is not served although its lease is held, an evicted graph is served again, a pinned one is not
  evicted, the graphs specialised by shape and by datatype replay to the program's own result, a persisted graph is
  recovered after a restart, hit and replayed to that result, and a file overwritten with junk is counted as corrupt.
\<close>

theorem sample_programs_succeed:
  assumes disk: "disk_machine env fl" and fl: "floats_agree fl to_f64 far"
  shows "basic_cpu_main env = Some 0 \<and> exact_hit_main fl to_f64 env = Some 0
    \<and> compatibility_rejection_main fl to_f64 env = Some 0 \<and> dependency_invalidation_main fl to_f64 env = Some 0
    \<and> lease_invalidation_main fl to_f64 env = Some 0 \<and> eviction_reload_main fl to_f64 env = Some 0
    \<and> cost_aware_eviction_main fl to_f64 env = Some 0 \<and> shape_specialized_main fl to_f64 far env = Some 0
    \<and> datatype_specialized_main fl to_f64 far env = Some 0
    \<and> persistence_recovery_main fl to_f64 far env = Some 0 \<and> corrupt_graph_rejection_main fl to_f64 env = Some 0"
proof -
  have nan: "\<not> f64_is_nan (default_scalar fl to_f64)" using fl by (simp add: floats_agree_def)
  have m: "cpu_machine env fl" using disk by (simp add: disk_machine_def)
  show ?thesis
    using nan cpu_machine.basic_cpu_runs [OF m] cpu_machine.exact_hit_runs [OF m] cpu_machine.compatibility_rejection_runs [OF m]
      cpu_machine.dependency_invalidation_runs [OF m] cpu_machine.lease_invalidation_runs [OF m]
      cpu_machine.eviction_reload_runs [OF m] cpu_machine.cost_aware_eviction_runs [OF m]
      cpu_machine.shape_specialized_runs [OF m fl] cpu_machine.datatype_specialized_runs [OF m fl]
      disk_machine.persistence_recovery_runs [OF disk fl] disk_machine.corrupt_graph_rejection_runs [OF disk]
    by blast
qed

text \<open>Floats that only know how to double.\<close>

definition doubling_floats :: float_ops where
  "doubling_floats = \<lparr>fl_mul = \<lambda>x y. 0x40000000, fl_add = \<lambda>x y. 0, fl_of_f64 = ucast, fl_of_i64 = ucast\<rparr>"

lemma doubling_agrees: "floats_agree doubling_floats ucast (\<lambda>x y. x \<noteq> y)"
  by (simp add: floats_agree_def default_scalar_def doubling_floats_def f64_is_nan_def)

theorem sample_programs_succeed_witness:
  "shape_specialized_main doubling_floats ucast (\<lambda>x y. x \<noteq> y) (disk_env doubling_floats) = Some 0
   \<and> persistence_recovery_main doubling_floats ucast (\<lambda>x y. x \<noteq> y) (disk_env doubling_floats) = Some 0"
  using sample_programs_succeed [OF disk.disk_machine_axioms doubling_agrees] by blast

end
