(* ===== verification/GC_Dedup.thy ===== *)
theory GC_Dedup
  imports GC_LookupEnds GC_RestartRuns
begin

text \<open>
  The sample program \<open>examples/concurrent_dedup.cpp\<close>: eight threads look the same graph up in a new cache. The program
  exits with 0 if all eight hit and one capture was counted. Every thread hits on every schedule, but how many captures
  were made depends on the schedule. Then the properties of concurrent lookups.
\<close>

section \<open>The program\<close>

definition hit_at :: "'x lookup_sys \<Rightarrow> nat \<Rightarrow> bool" where
  "hit_at s t \<longleftrightarrow> (case ls_pc s t of LK_Left res \<Rightarrow> lr_hit res | _ \<Rightarrow> False)"

definition dedup_exit :: "'x cache_env \<Rightarrow> 'x lookup_sys \<Rightarrow> nat" where
  "dedup_exit env s = (let hits = length (filter (hit_at s) [0..<8]);
       misses = length (filter (\<lambda>t. \<not> hit_at s t) [0..<8]);
       m = metrics env (ls_cache s)
     in if hits = 8 \<and> misses = 0 \<and> m_captures m = 1 then 0 else 1)"

text \<open>The exit codes the program may have: the threads run in any order until all have ended, then they are joined.\<close>

inductive concurrent_dedup_main :: "float_ops \<Rightarrow> (f32 \<Rightarrow> f64) \<Rightarrow> 'x cache_env \<Rightarrow> nat \<Rightarrow> bool" for fl to_f64 env where
  joined: "open_cache GraphCacheConfig_default Map.empty = Some st \<Longrightarrow>
    lookup_run env (\<lambda>_. default_request fl to_f64 ''dedup'') {..<8} (lookup_sys_init (\<lambda>_. default_request fl to_f64 ''dedup'') st) s \<Longrightarrow>
    list_all (\<lambda>t. \<exists>res. ls_pc s t = LK_Left res) [0..<8] \<Longrightarrow>
    concurrent_dedup_main fl to_f64 env (dedup_exit env s)"

section \<open>The request the threads share\<close>

context cpu_machine
begin

lemma shared_default:
  assumes nan: "\<not> f64_is_nan (default_scalar fl to_f64)"
  shows "shared_request env (default_request fl to_f64 name) (finalized (rq_descriptor (default_request fl to_f64 name)))"
proof (intro shared_request.intro cache_engine_axioms shared_request_axioms.intro)
  note ok = default_request_ok [OF nan]
  show "self_matching (default_request fl to_f64 name)" "rq_allow_capture (default_request fl to_f64 name)" by (rule ok)+
  show "finalize (env_node_ord env) (rq_descriptor (default_request fl to_f64 name))
      = success (finalized (rq_descriptor (default_request fl to_f64 name)))"
    by (rule chain_captures(1) [OF node_perm ok(3)])
  show "mset (env_node_ord env xs) = mset xs" for xs by (rule node_perm)
  show "\<exists>h. be_capture (env_backend env) (finalized (rq_descriptor (default_request fl to_f64 name))) att = success h" for att
    using chain_captures(2) [OF node_perm ok(3), of name] by (auto simp: backend cpu_backend_def)
qed

end

interpretation dedup: shared_request "disk_env doubling_floats" "default_request doubling_floats ucast ''dedup''"
  "finalized (rq_descriptor (default_request doubling_floats ucast ''dedup''))"
  by (rule disk.shared_default) (use doubling_agrees in \<open>simp add: floats_agree_def\<close>)

lemma open_cache_empty:
  assumes "open_cache cfg fs = Some st"
  shows "all_revoked st wl" and "gc_metrics st = Metrics_default"
proof -
  show "all_revoked st wl" using open_cache_fresh(6) [OF assms] by (simp add: all_revoked_def)
  show "gc_metrics st = Metrics_default" using assms by (auto simp: open_cache_def cache_new_def split: option.splits)
qed

section \<open>Schedules of the program\<close>

context shared_request
begin

text \<open>Every thread that has its result has a hit on the graph.\<close>

lemma run_hits:
  assumes "cache_inv st" and "all_revoked st (rq_workload req)" and "cfg_allow_capture (gc_config st)"
    and "lookup_run env (\<lambda>_. req) T (lookup_sys_init (\<lambda>_. req) st) s" and "ls_pc s t = LK_Done res \<or> ls_pc s t = LK_Left res"
  shows "lr_hit res" "lr_artifact res = g_artifact desc"
proof -
  have "sys_ok (gc_cache_gen st) s" by (rule lookup_run_ok [OF assms(4) init_ok [OF assms(1-3)]])
  then have "pc_ok (gc_cache_gen st) (gc_next_token (ls_cache s)) (ls_pc s t)" by (simp add: sys_ok_def)
  then show "lr_hit res" "lr_artifact res = g_artifact desc" using assms(5) by auto
qed

text \<open>Threads that are past the wrapper or not yet in it finish one after the other.\<close>

lemma schedule_all:
  assumes ok: "sys_ok g s" and av: "available (ls_cache s)" and d: "\<And>t. t \<in> set ts \<Longrightarrow> \<exists>res. ls_pc s t = LK_Done res"
    and n: "\<And>t. t \<in> set us \<Longrightarrow> ls_pc s t = LK_Start" and dist: "distinct (ts @ us)" and T: "set (ts @ us) \<subseteq> T"
  obtains s' where "lookup_run env (\<lambda>_. req) T s s'" "\<And>t. t \<in> set (ts @ us) \<Longrightarrow> \<exists>res. ls_pc s' t = LK_Left res" "captures_of s' = captures_of s"
proof -
  obtain s1 where s1: "lookup_run env (\<lambda>_. req) T s s1" "\<forall>t \<in> set us. \<exists>res. ls_pc s1 t = LK_Done res" "only_moves (set us) s s1"
    "captures_of s1 = captures_of s"
    using schedule_hits [OF ok _ av, of us T] n dist T by auto
  have "\<forall>t \<in> set (ts @ us). \<exists>res. ls_pc s1 t = LK_Done res"
  proof
    fix t assume t: "t \<in> set (ts @ us)"
    show "\<exists>res. ls_pc s1 t = LK_Done res"
    proof (cases "t \<in> set us")
      case False
      then show ?thesis using t d s1(3) by (auto simp: only_moves_def)
    qed (use s1(2) in blast)
  qed
  from schedule_leaves [OF this dist T] obtain s2 where "lookup_run env (\<lambda>_. req) T s1 s2"
    "\<forall>t \<in> set (ts @ us). \<exists>res. ls_pc s2 t = LK_Left res" "captures_of s2 = captures_of s1" by blast
  then show thesis using that [OF run_trans [OF _ s1(1)], of s2] s1(4) by simp
qed

text \<open>A thread that missed and finds no capture in flight: it captures, searches again and has a hit.\<close>

lemma schedule_serve:
  assumes T: "t \<in> T" and ok: "sys_ok g s" and pc: "ls_pc s t = LK_Flight c a b" and enter: "sf_pc (ls_flight s) t = SF_Enter k"
    and free: "sf_inflight (ls_flight s) k = None"
  obtains s' res where "lookup_run env (\<lambda>_. req) T s s'" "sys_ok g s'" "available (ls_cache s')" "ls_pc s' t = LK_Done res"
    "sf_inflight (ls_flight s') k = None" "only_moves {t} s s'" "captures_of s' = captures_of s + 1"
proof -
  obtain s1 n i where s1: "lookup_run env (\<lambda>_. req) T s s1" "ls_pc s1 t = LK_Flight c a b" "sf_pc (ls_flight s1) t = SF_Returned n (Inr i) True"
    "sf_inflight (ls_flight s1) k = None" "only_moves {t} s s1" "captures_of s1 = captures_of s + 1"
    by (rule schedule_capture [OF T ok pc enter free])
  note ok1 = lookup_run_ok [OF s1(1) ok]
  obtain s2 res where s2: "lookup_run env (\<lambda>_. req) T s1 s2" "ls_pc s2 t = LK_Done res" "ls_flight s2 = ls_flight s1" "only_moves {t} s1 s2"
    "captures_of s2 = captures_of s1"
    by (rule schedule_finish [OF T ok1 s1(2,3)])
  note ok2 = lookup_run_ok [OF s2(1) ok1]
  have "available (ls_cache s2)" using flight_result [OF ok2, of t] s1(3) s2(3) by simp
  moreover have "only_moves {t} s s2" using s1(5) s2(4) by (simp add: only_moves_def)
  ultimately show thesis using that [OF run_trans [OF s2(1) s1(1)] ok2] s1(4,6) s2(2,3,5) by simp
qed

lemma init_threads:
  "ls_pc (lookup_sys_init (\<lambda>_. req) st) t = LK_Start" "ls_cache (lookup_sys_init (\<lambda>_. req) st) = st"
  "sf_pc (ls_flight (lookup_sys_init (\<lambda>_. req) st)) t = SF_Enter (request_key req)"
  "sf_inflight (ls_flight (lookup_sys_init (\<lambda>_. req) st)) k = None"
  by (simp_all add: lookup_sys_init_def sf_init_def)

text \<open>One thread does all this before any other moves; the rest find the graph.\<close>

lemma one_capture:
  assumes "cache_inv st" and "all_revoked st (rq_workload req)" and "cfg_allow_capture (gc_config st)"
  obtains s where "lookup_run env (\<lambda>_. req) {..<8} (lookup_sys_init (\<lambda>_. req) st) s" "\<forall>t < 8. \<exists>res. ls_pc s t = LK_Left res"
    "captures_of s = m_captures (gc_metrics st) + 1"
proof -
  let ?s = "lookup_sys_init (\<lambda>_. req) st" and ?T = "{..<8} :: nat set" and ?k = "request_key req" and ?g = "gc_cache_gen st"
  have ok: "sys_ok ?g ?s" by (rule init_ok [OF assms])
  have T: "0 \<in> ?T" by simp
  obtain s1 c a b where s1: "lookup_run env (\<lambda>_. req) ?T ?s s1" "ls_pc s1 0 = LK_Flight c a b" "ls_flight s1 = ls_flight ?s" "only_moves {0} ?s s1"
    "captures_of s1 = captures_of ?s"
    by (rule schedule_miss [OF T ok]) (simp_all add: init_threads assms(2))
  obtain s2 res where s2: "lookup_run env (\<lambda>_. req) ?T s1 s2" "sys_ok ?g s2" "available (ls_cache s2)" "ls_pc s2 0 = LK_Done res"
    "only_moves {0} s1 s2" "captures_of s2 = captures_of s1 + 1"
    by (rule schedule_serve [OF T lookup_run_ok [OF s1(1) ok] s1(2), of ?k]) (use s1(3) in \<open>auto simp: init_threads\<close>)
  have "ls_pc s2 t = LK_Start" if "t \<in> set [1..<8]" for t using that s1(4) s2(5) by (auto simp: only_moves_def init_threads)
  moreover have "\<exists>res. ls_pc s2 t = LK_Done res" if "t \<in> set [0]" for t using that s2(4) by simp
  ultimately obtain s3 where s3: "lookup_run env (\<lambda>_. req) ?T s2 s3" "\<And>t. t \<in> set ([0] @ [1..<8]) \<Longrightarrow> \<exists>res. ls_pc s3 t = LK_Left res"
    "captures_of s3 = captures_of s2"
    by (rule_tac schedule_all [OF s2(2,3), of "[0]" "[1..<8]" ?T]) auto
  have "\<exists>res. ls_pc s3 t = LK_Left res" if "t < 8" for t by (rule s3(2)) (use that in auto)
  then have "\<forall>t < 8. \<exists>res. ls_pc s3 t = LK_Left res" by blast
  with run_trans [OF run_trans [OF s3(1) s2(1)] s1(1)] show thesis
    by (rule that) (use s3(3) s2(6) s1(5) in \<open>auto simp: init_threads\<close>)
qed

text \<open>Two threads both miss before either is in the wrapper: the second finds no capture in flight any more.\<close>

lemma two_captures:
  assumes "cache_inv st" and "all_revoked st (rq_workload req)" and "cfg_allow_capture (gc_config st)"
  obtains s where "lookup_run env (\<lambda>_. req) {..<8} (lookup_sys_init (\<lambda>_. req) st) s" "\<forall>t < 8. \<exists>res. ls_pc s t = LK_Left res"
    "captures_of s = m_captures (gc_metrics st) + 2"
proof -
  let ?s = "lookup_sys_init (\<lambda>_. req) st" and ?T = "{..<8} :: nat set" and ?k = "request_key req" and ?g = "gc_cache_gen st"
  have ok: "sys_ok ?g ?s" by (rule init_ok [OF assms])
  have T: "0 \<in> ?T" "1 \<in> ?T" by simp_all
  obtain s1 c a b where s1: "lookup_run env (\<lambda>_. req) ?T ?s s1" "ls_pc s1 0 = LK_Flight c a b" "ls_flight s1 = ls_flight ?s" "only_moves {0} ?s s1"
    "all_revoked (ls_cache s1) (rq_workload req)" "captures_of s1 = captures_of ?s"
    by (rule schedule_miss [OF T(1) ok]) (simp_all add: init_threads assms(2))
  note ok1 = lookup_run_ok [OF s1(1) ok]
  obtain s2 c' a' b' where s2: "lookup_run env (\<lambda>_. req) ?T s1 s2" "ls_pc s2 1 = LK_Flight c' a' b'" "ls_flight s2 = ls_flight s1" "only_moves {1} s1 s2"
    "captures_of s2 = captures_of s1"
    by (rule schedule_miss [OF T(2) ok1 _ s1(5)]) (use s1(4) in \<open>simp add: only_moves_def init_threads\<close>)
  have p2: "ls_pc s2 0 = LK_Flight c a b" using s2(4) s1(2) by (simp add: only_moves_def)
  obtain s3 res where s3: "lookup_run env (\<lambda>_. req) ?T s2 s3" "sys_ok ?g s3" "ls_pc s3 0 = LK_Done res" "sf_inflight (ls_flight s3) ?k = None"
    "only_moves {0} s2 s3" "captures_of s3 = captures_of s2 + 1"
    by (rule schedule_serve [OF T(1) lookup_run_ok [OF s2(1) ok1] p2, of ?k]) (use s1(3) s2(3) in \<open>auto simp: init_threads\<close>)
  have p3: "ls_pc s3 1 = LK_Flight c' a' b'" "sf_pc (ls_flight s3) 1 = SF_Enter ?k"
    using s3(5) s2(2,3) s1(3) by (simp_all add: only_moves_def init_threads)
  obtain s4 res' where s4: "lookup_run env (\<lambda>_. req) ?T s3 s4" "sys_ok ?g s4" "available (ls_cache s4)" "ls_pc s4 1 = LK_Done res'"
    "only_moves {1} s3 s4" "captures_of s4 = captures_of s3 + 1"
    by (rule schedule_serve [OF T(2) s3(2) p3 s3(4)])
  have "ls_pc s4 t = LK_Start" if "t \<in> set [2..<8]" for t
    using that s1(4) s2(4) s3(5) s4(5) by (auto simp: only_moves_def init_threads)
  moreover have "\<exists>res. ls_pc s4 t = LK_Done res" if "t \<in> set [0, 1]" for t using that s3(3) s4(4,5) by (auto simp: only_moves_def)
  ultimately obtain s5 where s5: "lookup_run env (\<lambda>_. req) ?T s4 s5" "\<And>t. t \<in> set ([0, 1] @ [2..<8]) \<Longrightarrow> \<exists>res. ls_pc s5 t = LK_Left res"
    "captures_of s5 = captures_of s4"
    by (rule_tac schedule_all [OF s4(2,3), of "[0, 1]" "[2..<8]" ?T]) auto
  have "\<exists>res. ls_pc s5 t = LK_Left res" if "t < 8" for t by (rule s5(2)) (use that in auto)
  then have "\<forall>t < 8. \<exists>res. ls_pc s5 t = LK_Left res" by blast
  with run_trans [OF run_trans [OF run_trans [OF run_trans [OF s5(1) s4(1)] s3(1)] s2(1)] s1(1)] show thesis
    by (rule that) (use s5(3) s4(6) s3(6) s2(5) s1(6) in \<open>auto simp: init_threads\<close>)
qed

text \<open>A thread alone comes to its result.\<close>

lemma lone_hit:
  assumes "cache_inv st" and "all_revoked st (rq_workload req)" and "cfg_allow_capture (gc_config st)"
  obtains s res where "lookup_run env (\<lambda>_. req) {0} (lookup_sys_init (\<lambda>_. req) st) s" "ls_pc s 0 = LK_Done res"
proof -
  have T: "0 \<in> {0 :: nat}" by simp
  have ok: "sys_ok (gc_cache_gen st) (lookup_sys_init (\<lambda>_. req) st)" by (rule init_ok [OF assms])
  obtain s1 c a b where s1: "lookup_run env (\<lambda>_. req) {0} (lookup_sys_init (\<lambda>_. req) st) s1" "ls_pc s1 0 = LK_Flight c a b"
    "ls_flight s1 = ls_flight (lookup_sys_init (\<lambda>_. req) st)"
    by (rule schedule_miss [OF T ok]) (simp_all add: init_threads assms(2))
  obtain s2 res where "lookup_run env (\<lambda>_. req) {0} s1 s2" "ls_pc s2 0 = LK_Done res"
    by (rule schedule_serve [OF T lookup_run_ok [OF s1(1) ok] s1(2), of "request_key req"]) (use s1(3) in \<open>auto simp: init_threads\<close>)
  then show thesis using that run_trans [OF _ s1(1)] by blast
qed

end

section \<open>Properties\<close>

text \<open>
  C7: Concurrent lookups of one graph all hit. Any number of threads look the same request up, interleaved
  in any way with each other's searches, captures, insertions and releases, in a cache that has no usable
  graph for its workload yet. If the request matches its own graph (no NaN among the specialized scalars,
  agreeing dependencies, a namespace filter that is empty or its own), the graph is valid and the backend
  can capture it, every lookup that returns is a hit on that graph, whether its thread captured it, waited
  for another thread's capture or found it in the cache.
\<close>

theorem concurrent_lookups_hit:
  assumes "shared_request env req desc" and "cache_inv st" and "all_revoked st (rq_workload req)" and "cfg_allow_capture (gc_config st)"
    and "lookup_run env (\<lambda>_. req) T (lookup_sys_init (\<lambda>_. req) st) s" and "ls_pc s t = LK_Done res \<or> ls_pc s t = LK_Left res"
  shows "lr_hit res \<and> lr_artifact res = g_artifact desc"
  using shared_request.run_hits [OF assms] by blast

text \<open>
  C8: Concurrent lookups end. Threads that each make one lookup, of any requests on any cache and with any
  backend, take together at most nine steps per thread (a wait for another thread's capture is one step,
  taken when the capture is done); and as long as one of them has not ended, one of them can move: no
  schedule deadlocks on the captures in flight.
\<close>

theorem concurrent_lookups_terminate:
  assumes "finite T" and "counted_run env reqs T (lookup_sys_init reqs st) n s"
  shows "n \<le> 9 * card T \<and> ((\<exists>t \<in> T. \<exists>s'. lookup_step env reqs t s s') \<or> (\<forall>t \<in> T. \<exists>res. ls_pc s t = LK_Left res))"
proof
  have "rank (lookup_sys_init reqs st) t = 9" for t by (simp add: rank_def lookup_sys_init_def)
  then show "n \<le> 9 * card T" using rank_counted [OF assms(2) agree_init assms(1)] by simp
  show "(\<exists>t \<in> T. \<exists>s'. lookup_step env reqs t s s') \<or> (\<forall>t \<in> T. \<exists>res. ls_pc s t = LK_Left res)" using stuck_done [OF assms(2)] by blast
qed

text \<open>
  Cutting the lookup into steps loses nothing: when one thread runs alone, through the single-flight wrapper and
  its critical sections, the result it returns and the cache it leaves are those of the sequential \<open>lookup\<close>.
\<close>

theorem lone_lookup_is_lookup:
  assumes "lookup_run env reqs {t} (lookup_sys_init reqs st) s" and "ls_pc s t = LK_Done res"
  shows "lookup env (reqs t) st = (res, ls_cache s)"
proof -
  obtain n where "counted_run env reqs {t} (lookup_sys_init reqs st) n s" using assms(1) lookup_run_counted by blast
  from ahead_run(2) [OF this agree_init solo_init] show ?thesis using assms(2) by (simp add: ahead_init) (simp add: ahead_of_def)
qed

text \<open>
  C40: The sample \<open>concurrent_dedup\<close> may exit with 0 and may exit with 1, depending on the schedule: a thread that
  has missed but enters the single-flight wrapper after another's capture is done captures the graph again, and the
  program counts two captures where it wants one.
\<close>

theorem dedup_exit_depends_on_schedule:
  assumes m: "cpu_machine env fl" and nan: "\<not> f64_is_nan (default_scalar fl to_f64)"
  shows "{code. concurrent_dedup_main fl to_f64 env code} = {0, 1}"
proof -
  let ?r = "default_request fl to_f64 ''dedup''"
  note sh = cpu_machine.shared_default [OF m nan, of "''dedup''"]
  obtain st :: "CpuGraph GraphCache" where st: "open_cache GraphCacheConfig_default Map.empty = Some st" using open_default by blast
  note pre = open_cache_fresh(1) [OF st] open_cache_empty(1) [OF st, of "rq_workload ?r"]
  have al: "cfg_allow_capture (gc_config st)" using open_cache_fresh(2) [OF st] default_config by simp
  have exit: "dedup_exit env s = (if m_captures (gc_metrics (ls_cache s)) = 1 then 0 else 1)" and main: "concurrent_dedup_main fl to_f64 env (dedup_exit env s)"
    if run: "lookup_run env (\<lambda>_. ?r) {..<8} (lookup_sys_init (\<lambda>_. ?r) st) s" and left: "\<forall>t < 8. \<exists>res. ls_pc s t = LK_Left res" for s
  proof -
    have "hit_at s t" if "t < 8" for t
      using left that shared_request.run_hits(1) [OF sh pre al run, of t] by (auto simp: hit_at_def)
    then have "filter (hit_at s) [0..<8] = [0..<8]" "filter (\<lambda>t. \<not> hit_at s t) [0..<8] = []" by (auto intro: filter_True filter_False)
    then show "dedup_exit env s = (if m_captures (gc_metrics (ls_cache s)) = 1 then 0 else 1)" by (simp add: dedup_exit_def metrics_def Let_def)
    show "concurrent_dedup_main fl to_f64 env (dedup_exit env s)"
      by (rule concurrent_dedup_main.joined [OF st run]) (use left in \<open>simp add: list_all_iff\<close>)
  qed
  have z: "m_captures (gc_metrics st) = 0" using open_cache_empty(2) [OF st] by (simp add: Metrics_default_def)
  obtain s where "lookup_run env (\<lambda>_. ?r) {..<8} (lookup_sys_init (\<lambda>_. ?r) st) s" "\<forall>t < 8. \<exists>res. ls_pc s t = LK_Left res"
    "m_captures (gc_metrics (ls_cache s)) = m_captures (gc_metrics st) + 1"
    by (rule shared_request.one_capture [OF sh pre al])
  with exit main z have "concurrent_dedup_main fl to_f64 env 0" by fastforce
  moreover obtain s where "lookup_run env (\<lambda>_. ?r) {..<8} (lookup_sys_init (\<lambda>_. ?r) st) s" "\<forall>t < 8. \<exists>res. ls_pc s t = LK_Left res"
    "m_captures (gc_metrics (ls_cache s)) = m_captures (gc_metrics st) + 2"
    by (rule shared_request.two_captures [OF sh pre al])
  with exit main z have "concurrent_dedup_main fl to_f64 env 1" by fastforce
  moreover have "code \<in> {0, 1}" if "concurrent_dedup_main fl to_f64 env code" for code
    using that by (cases rule: concurrent_dedup_main.cases) (simp add: dedup_exit_def Let_def)
  ultimately show ?thesis by auto
qed

section \<open>Witnesses\<close>

abbreviation dedup_req :: GraphLookupRequest where
  "dedup_req \<equiv> default_request doubling_floats ucast ''dedup''"

lemma dedup_cache:
  obtains st :: "CpuGraph GraphCache" where "open_cache GraphCacheConfig_default Map.empty = Some st" "cache_inv st"
    "all_revoked st (rq_workload dedup_req)" "cfg_allow_capture (gc_config st)"
proof -
  obtain st :: "CpuGraph GraphCache" where "open_cache GraphCacheConfig_default Map.empty = Some st" using open_default by blast
  then show thesis using that open_cache_fresh(1,2) open_cache_empty(1) default_config by metis
qed

theorem concurrent_lookups_hit_witness:
  "\<exists>st s res. open_cache GraphCacheConfig_default Map.empty = Some st
     \<and> lookup_run (disk_env doubling_floats) (\<lambda>_. dedup_req) {..<8} (lookup_sys_init (\<lambda>_. dedup_req) st) s
     \<and> ls_pc s 5 = LK_Left res \<and> lr_hit res"
proof -
  obtain st where st: "open_cache GraphCacheConfig_default Map.empty = Some (st :: CpuGraph GraphCache)" "cache_inv st"
    "all_revoked st (rq_workload dedup_req)" "cfg_allow_capture (gc_config st)" by (rule dedup_cache)
  obtain s where s: "lookup_run (disk_env doubling_floats) (\<lambda>_. dedup_req) {..<8} (lookup_sys_init (\<lambda>_. dedup_req) st) s"
    "\<forall>t < 8. \<exists>res. ls_pc s t = LK_Left res"
    by (rule dedup.one_capture [OF st(2-4)])
  then obtain res where "ls_pc s 5 = LK_Left res" by fastforce
  with concurrent_lookups_hit [OF dedup.shared_request_axioms st(2-4) s(1), of 5 res] st(1) s(1) show ?thesis by blast
qed

theorem concurrent_lookups_terminate_witness:
  "\<exists>st n s res. open_cache GraphCacheConfig_default Map.empty = Some st
     \<and> counted_run (disk_env doubling_floats) (\<lambda>_. dedup_req) {..<8} (lookup_sys_init (\<lambda>_. dedup_req) st) n s
     \<and> n \<le> 72 \<and> ls_pc s 5 = LK_Left res"
proof -
  obtain st where st: "open_cache GraphCacheConfig_default Map.empty = Some (st :: CpuGraph GraphCache)" by (rule dedup_cache)
  have fin: "finite {..<8 :: nat}" by simp
  obtain n s where n: "counted_run (disk_env doubling_floats) (\<lambda>_. dedup_req) {..<8} (lookup_sys_init (\<lambda>_. dedup_req) st) n s"
    "\<forall>t \<in> {..<8}. \<forall>s'. \<not> lookup_step (disk_env doubling_floats) (\<lambda>_. dedup_req) t s s'" using run_completes [OF fin agree_init] by blast
  from concurrent_lookups_terminate [OF fin n(1)] n(2) have "n \<le> 9 * card {..<8 :: nat}" "\<exists>res. ls_pc s 5 = LK_Left res" by auto
  then show ?thesis using st n(1) by auto
qed

theorem lone_lookup_is_lookup_witness:
  "\<exists>st s res. open_cache GraphCacheConfig_default Map.empty = Some st
     \<and> lookup_run (disk_env doubling_floats) (\<lambda>_. dedup_req) {0} (lookup_sys_init (\<lambda>_. dedup_req) st) s
     \<and> ls_pc s 0 = LK_Done res \<and> lookup (disk_env doubling_floats) dedup_req st = (res, ls_cache s)"
proof -
  obtain st where st: "open_cache GraphCacheConfig_default Map.empty = Some (st :: CpuGraph GraphCache)" "cache_inv st"
    "all_revoked st (rq_workload dedup_req)" "cfg_allow_capture (gc_config st)" by (rule dedup_cache)
  obtain s res where s: "lookup_run (disk_env doubling_floats) (\<lambda>_. dedup_req) {0} (lookup_sys_init (\<lambda>_. dedup_req) st) s"
    "ls_pc s 0 = LK_Done res" by (rule dedup.lone_hit [OF st(2-4)])
  with lone_lookup_is_lookup [where reqs = "\<lambda>_. dedup_req", OF s] st(1) show ?thesis by blast
qed

theorem dedup_exit_depends_on_schedule_witness:
  "concurrent_dedup_main doubling_floats ucast (disk_env doubling_floats) 0 \<and> concurrent_dedup_main doubling_floats ucast (disk_env doubling_floats) 1"
  using dedup_exit_depends_on_schedule [OF disk.cpu_machine_axioms, of doubling_floats ucast] doubling_agrees by (auto simp: floats_agree_def)

end
