(* ===== verification/GC_Cli.thy ===== *)
theory GC_Cli
  imports GC_ExampleRuns
begin

text \<open>
  The command line tool \<open>cli/main.cpp\<close>. A run takes the arguments after the program's name and the files under
  \<open>gc-cli-persist\<close>, and gives the exit code, what is printed and the files left; \<open>None\<close> is a run that ends in an
  exception. The function \<open>system\<close> stands for \<open>std::system\<close>: the value it returns for a command.
\<close>

section \<open>The tool\<close>

definition newline :: string where
  "newline = [CHR 0x0A]"

text \<open>\<open>%d\<close>.\<close>

definition dec_int :: "int \<Rightarrow> string" where
  "dec_int n = (if n < 0 then CHR 0x2D # dec_string (nat (- n)) else dec_string (nat n))"

definition make_cpu_desc :: "u64 \<Rightarrow> GraphDescriptor" where
  "make_cpu_desc bytes =
     (let c = GraphNodeDescriptor_default\<lparr>n_id := GraphNodeId 1 1, n_category := NC_MemoryCopy, n_name := ''copy'', n_memory_bytes := bytes,
            n_inputs := [0], n_outputs := [0],
            n_binding := BindingDescriptor_default\<lparr>bd_class := BC_ReplayMutable, bd_rebinding_eligible := True\<rparr>\<rparr>;
          k = GraphNodeDescriptor_default\<lparr>n_id := GraphNodeId 2 2, n_category := NC_Kernel, n_name := ''scale'',
            n_kernel := KernelIdentityRef_default\<lparr>k_name := ''scale'', k_hi := 0x5000, k_lo := 1, k_generation := GraphGeneration 1,
              k_abi := 1, k_digest := ''k-scale'', k_contributes := True\<rparr>, n_memory_bytes := bytes,
            n_shape := ShapeDescriptor_default\<lparr>sh_dims := [bytes div 4]\<rparr>, n_datatype := DT_F32, n_layout := TL_Contiguous,
            n_scalar := ScalarSpecialization_default\<lparr>sc_specialized := True, sc_float := 0x4000000000000000\<rparr>,
            n_binding := BindingDescriptor_default\<lparr>bd_class := BC_ReplayMutable, bd_rebinding_eligible := True\<rparr>,
            n_inputs := [0], n_outputs := [0]\<rparr>;
          e = GraphEdgeDescriptor_default\<lparr>e_id := GraphEdgeId 1 1, e_from := n_id c, e_to := n_id k, e_kind := DK_Execution\<rparr>
      in GraphDescriptor_default\<lparr>g_backend := BackendIdentity_default\<lparr>bk_kind := BK_Cpu, bk_name := ''cpu'', bk_version := 1\<rparr>,
           g_runtime := RuntimeDescriptor_default\<lparr>rt_version := 1, rt_graph_abi := 1, rt_kernel_abi := 1\<rparr>,
           g_device := DeviceDescriptor_default\<lparr>dev_vendor := AV_Cpu, dev_arch := ''cpu''\<rparr>,
           g_nodes := [c, k], g_edges := [e], g_dependencies := [n_kernel k]\<rparr>)"

definition cli_request :: "string \<Rightarrow> GraphLookupRequest" where
  "cli_request name = GraphLookupRequest_default\<lparr>rq_workload := WorkloadIdentity_default\<lparr>wl_name := name\<rparr>,
     rq_backend := BackendIdentity_default\<lparr>bk_kind := BK_Cpu, bk_name := ''cpu''\<rparr>,
     rq_runtime := RuntimeDescriptor_default\<lparr>rt_version := 1, rt_graph_abi := 1, rt_kernel_abi := 1\<rparr>,
     rq_device := DeviceDescriptor_default\<lparr>dev_vendor := AV_Cpu, dev_arch := ''cpu''\<rparr>, rq_descriptor := make_cpu_desc 64\<rparr>"

definition cli_config :: GraphCacheConfig where
  "cli_config = GraphCacheConfig_default\<lparr>cfg_backend_kind := BK_Cpu\<rparr>"

text \<open>The optional name after a command.\<close>

definition cli_name :: "string list \<Rightarrow> string" where
  "cli_name rest = (case rest of [] \<Rightarrow> ''cli'' | name # _ \<Rightarrow> name)"

definition cli_usage :: string where
  "cli_usage = ''Graph Cache CLI'' @ newline @ ''  capture [name]'' @ newline @ ''  list'' @ newline @ ''  stats'' @ newline
     @ ''  snapshot'' @ newline @ ''  explain'' @ newline @ ''  invalidate [name]'' @ newline @ ''  recover'' @ newline
     @ ''  serve <port>'' @ newline @ ''  worker <port> <id>'' @ newline"

definition cli_capture :: "'x cache_env \<Rightarrow> string \<Rightarrow> string option" where
  "cli_capture env name = do {
     st \<leftarrow> open_cache cli_config Map.empty;
     let (r, st) = lookup env (cli_request name) st;
     Some (''capture: hit='' @ (if lr_hit r then ''1'' else ''0'') @ '' artifact='' @ GraphArtifactId_to_string (lr_artifact r)
       @ '' gen='' @ dec_string (unat (gg_value (lr_generation r))) @ '' captured='' @ (if lr_capture_started r then ''1'' else ''0'') @ newline) }"

definition cli_list :: "'x cache_env \<Rightarrow> string option" where
  "cli_list env = do {
     st \<leftarrow> open_cache cli_config Map.empty;
     Some (''graphs='' @ dec_string (graph_count (st :: 'x GraphCache)) @ newline) }"

definition cli_stats :: "'x cache_env \<Rightarrow> string option" where
  "cli_stats env = do {
     st \<leftarrow> open_cache cli_config Map.empty;
     let m = metrics env st;
     Some (''lookups='' @ dec_string (unat (m_lookups m)) @ '' captures='' @ dec_string (unat (m_captures m))
       @ '' replays='' @ dec_string (unat (m_replays m)) @ newline) }"

definition cli_snapshot :: "'x cache_env \<Rightarrow> string option" where
  "cli_snapshot env = do {
     st \<leftarrow> open_cache cli_config Map.empty;
     let s = snapshot env st;
     Some (''graphs_total='' @ dec_string (unat (ss_graphs_total s)) @ '' active_leases='' @ dec_string (unat (ss_active_leases s)) @ newline) }"

definition cli_explain :: "'x cache_env \<Rightarrow> string option" where
  "cli_explain env = do {
     st \<leftarrow> open_cache cli_config Map.empty;
     let (r, st) = lookup env (cli_request ''cli'') st;
     Some (''explain: '' @ ex_text (explain r) @ newline) }"

definition cli_invalidate :: "'x cache_env \<Rightarrow> string \<Rightarrow> string option" where
  "cli_invalidate env name = do {
     st \<leftarrow> open_cache cli_config Map.empty;
     let (r, st) = lookup env (cli_request name) st;
     let (res, st) = invalidate env (InvalidationRequest_default\<lparr>ir_scope := IS_ByWorkload, ir_workload := WorkloadIdentity_default\<lparr>wl_name := name\<rparr>\<rparr>) st;
     Some (''invalidated='' @ dec_string (iv_invalidated res) @ newline) }"

definition cli_recover :: "'x cache_env \<Rightarrow> files \<Rightarrow> (string \<times> files) option" where
  "cli_recover env fs = do {
     st \<leftarrow> open_cache (cli_config\<lparr>cfg_enable_persistence := True, cfg_persistence_dir := ''gc-cli-persist''\<rparr>) fs;
     (r, st) \<leftarrow> recover env st;
     Some (''recover ok='' @ (if result_ok r then ''1'' else ''0'') @ newline, (case gc_store st of None \<Rightarrow> fs | Some (s, fs) \<Rightarrow> fs)) }"

definition cli_launch :: "(string \<Rightarrow> int) \<Rightarrow> string \<Rightarrow> string list \<Rightarrow> string" where
  "cli_launch system cmd rest =
     (let exe = (if cmd = ''serve'' then ''gc-coordinator'' else ''gc-worker'');
          a = concat (map (\<lambda>x. '' '' @ x) rest);
          rc = system (''start /B '' @ exe @ a)
      in cmd @ '': launched (rc='' @ dec_int rc @ '')'' @ newline)"

definition cli_main :: "'x cache_env \<Rightarrow> (string \<Rightarrow> int) \<Rightarrow> files \<Rightarrow> string list \<Rightarrow> (nat \<times> string \<times> files) option" where
  "cli_main env system fs args = (case args of
       [] \<Rightarrow> Some (0, cli_usage, fs)
     | cmd # rest \<Rightarrow>
         if cmd = ''capture'' then map_option (\<lambda>txt. (0, txt, fs)) (cli_capture env (cli_name rest))
         else if cmd = ''list'' then map_option (\<lambda>txt. (0, txt, fs)) (cli_list env)
         else if cmd = ''stats'' then map_option (\<lambda>txt. (0, txt, fs)) (cli_stats env)
         else if cmd = ''snapshot'' then map_option (\<lambda>txt. (0, txt, fs)) (cli_snapshot env)
         else if cmd = ''explain'' then map_option (\<lambda>txt. (0, txt, fs)) (cli_explain env)
         else if cmd = ''invalidate'' then map_option (\<lambda>txt. (0, txt, fs)) (cli_invalidate env (cli_name rest))
         else if cmd = ''recover'' then map_option (\<lambda>(txt, fs). (0, txt, fs)) (cli_recover env fs)
         else if cmd = ''serve'' \<or> cmd = ''worker'' then Some (0, cli_launch system cmd rest, fs)
         else Some (1, ''unknown command '' @ [CHR 0x27] @ cmd @ [CHR 0x27] @ newline, fs))"

section \<open>What the commands print\<close>

lemma dec_digits: "dec_string 0 = ''0''" "dec_string (Suc 0) = ''1''"
  by code_simp+

lemma cli_request_ok:
  "self_matching (cli_request name)" "rq_allow_capture (cli_request name)"
  "\<exists>c k. chain_graph (rq_descriptor (cli_request name)) c k" "wl_name (rq_workload (cli_request name)) = name"
proof -
  show "self_matching (cli_request name)"
    by (rule sample_self_matching [of _ "0x4000000000000000"])
      (auto simp: cli_request_def make_cpu_desc_def GraphLookupRequest_default_def Let_def default_simps f64_is_nan_def)
qed (auto simp: chain_graph_def cli_request_def make_cpu_desc_def GraphLookupRequest_default_def Let_def default_simps edge_pairs_def)

lemma cli_config_opens:
  obtains st :: "'x GraphCache" where "open_cache cli_config Map.empty = Some st" "gc_by_artifact st = []" "gc_metrics st = Metrics_default"
    "gc_active_leases st = 0"
  by (auto simp: open_cache_def cache_new_def create_backend_def cli_config_def GraphCacheConfig_default_def)

context cpu_machine
begin

lemma cli_lookup:
  obtains st res st' g l where "open_cache cli_config Map.empty = Some st" "lookup env (cli_request name) st = (res, st')"
    "sole_entry (cli_request name) (finalized (make_cpu_desc 64)) g st'" "lr_hit res"
    "lr_artifact res = g_artifact (finalized (make_cpu_desc 64))" "lr_capture_started res"
    "lr_reason_text res = ''captured and replayed-compatible; hit''"
proof -
  obtain st :: "CpuGraph GraphCache" where st: "open_cache cli_config Map.empty = Some st" by (rule cli_config_opens)
  obtain c k where ck: "chain_graph (rq_descriptor (cli_request name)) c k" using cli_request_ok(3) by blast
  have al: "cfg_allow_capture cli_config" using default_config by (simp add: cli_config_def)
  have d: "rq_descriptor (cli_request name) = make_cpu_desc 64" by (simp add: cli_request_def)
  obtain res st' g l where "lookup env (cli_request name) st = (res, st')"
    "sole_entry (cli_request name) (finalized (rq_descriptor (cli_request name))) g st'" "sole_lease g res l st'"
    "lr_artifact res = g_artifact (finalized (rq_descriptor (cli_request name)))" "lr_capture_started res"
    "lr_reason_text res = ''captured and replayed-compatible; hit''"
    by (rule first_lookup [OF st al cli_request_ok(2,1) ck])
  then show thesis using that [OF st] d by (simp add: sole_lease_def lr_hit_def)
qed

lemma cli_invalidates: "cli_invalidate env name = Some (''invalidated=1'' @ newline)"
proof -
  let ?ir = "InvalidationRequest_default\<lparr>ir_scope := IS_ByWorkload, ir_workload := WorkloadIdentity_default\<lparr>wl_name := name\<rparr>\<rparr>"
  obtain st res st' g where st: "open_cache cli_config Map.empty = Some st" "lookup env (cli_request name) st = (res, st')"
    and sole: "sole_entry (cli_request name) (finalized (make_cpu_desc 64)) g st'" by (rule cli_lookup)
  have "env_map_ord env (gc_by_artifact st') = [(g_artifact (finalized (make_cpu_desc 64)), 0)]"
    using map_perm [of "gc_by_artifact st'"] sole by (simp add: lone_entry_def mset_single_iff)
  moreover have "wl_name (en_workload (gc_heap st' 0)) = name" "\<not> en_invalidated (gc_heap st' 0)"
    using sole cli_request_ok(4) by (simp_all add: lone_entry_def Let_def)
  ultimately have "iv_invalidated (fst (invalidate env ?ir st')) = 1"
    by (simp add: invalidate_def invalidation_targets_def in_scope_def InvalidationRequest_default_def invalidate_one_def Let_def case_prod_unfold)
  then show ?thesis using st by (simp add: cli_invalidate_def dec_digits case_prod_unfold Let_def)
qed

lemma cli_reports:
  "cli_list env = Some (''graphs=0'' @ newline)"
  "cli_stats env = Some (''lookups=0 captures=0 replays=0'' @ newline)"
  "cli_snapshot env = Some (''graphs_total=0 active_leases=0'' @ newline)"
proof -
  obtain st :: "CpuGraph GraphCache" where st: "open_cache cli_config Map.empty = Some st" "gc_by_artifact st = []"
    "gc_metrics st = Metrics_default" "gc_active_leases st = 0" by (rule cli_config_opens)
  have ord: "env_map_ord env [] = []" using map_perm [of "[]"] by simp
  show "cli_list env = Some (''graphs=0'' @ newline)" using st by (simp add: cli_list_def graph_count_def dec_digits)
  show "cli_stats env = Some (''lookups=0 captures=0 replays=0'' @ newline)"
    using st by (simp add: cli_stats_def metrics_def Metrics_default_def dec_digits Let_def)
  show "cli_snapshot env = Some (''graphs_total=0 active_leases=0'' @ newline)"
    using st ord by (simp add: cli_snapshot_def snapshot_def dec_digits Let_def)
qed

end

section \<open>Properties\<close>

text \<open>
  C39: Every command of the tool works on a new cache of its own. So \<open>capture\<close> always captures and hits,
  \<open>explain\<close> always explains such a hit, \<open>invalidate\<close> always finds the one graph it has just captured, and
  \<open>list\<close>, \<open>stats\<close> and \<open>snapshot\<close> always print zeros, whatever was captured or stored before.
\<close>

theorem cli_commands_start_anew:
  assumes "cpu_machine env fl"
  shows "cli_main env system fs (''list'' # rest) = Some (0, ''graphs=0'' @ newline, fs)
    \<and> cli_main env system fs (''stats'' # rest) = Some (0, ''lookups=0 captures=0 replays=0'' @ newline, fs)
    \<and> cli_main env system fs (''snapshot'' # rest) = Some (0, ''graphs_total=0 active_leases=0'' @ newline, fs)
    \<and> cli_main env system fs (''explain'' # rest) = Some (0, ''explain: captured and replayed-compatible; hit'' @ newline, fs)
    \<and> cli_main env system fs (''invalidate'' # rest) = Some (0, ''invalidated=1'' @ newline, fs)
    \<and> (\<exists>gen. cli_main env system fs (''capture'' # rest) = Some (0, ''capture: hit=1 artifact=''
         @ GraphArtifactId_to_string (g_artifact (finalized (make_cpu_desc 64))) @ '' gen='' @ dec_string gen @ '' captured=1'' @ newline, fs))"
proof -
  obtain st res st' g where l: "open_cache cli_config Map.empty = Some st" "lookup env (cli_request (cli_name rest)) st = (res, st')"
    "lr_hit res" "lr_artifact res = g_artifact (finalized (make_cpu_desc 64))" "lr_capture_started res"
    by (rule cpu_machine.cli_lookup [OF assms])
  obtain st2 res2 st2' where "open_cache cli_config Map.empty = Some st2" "lookup env (cli_request ''cli'') st2 = (res2, st2')"
    "lr_reason_text res2 = ''captured and replayed-compatible; hit''"
    by (rule cpu_machine.cli_lookup [OF assms])
  then have e: "cli_explain env = Some (''explain: captured and replayed-compatible; hit'' @ newline)" by (simp add: cli_explain_def explain_def)
  show ?thesis
    using cpu_machine.cli_reports [OF assms] cpu_machine.cli_invalidates [OF assms] e l
    by (simp add: cli_main_def cli_capture_def) blast
qed

text \<open>A machine whose floats only know zero.\<close>

definition zero_floats :: float_ops where
  "zero_floats = \<lparr>fl_mul = \<lambda>x y. 0, fl_add = \<lambda>x y. 0, fl_of_f64 = \<lambda>x. 0, fl_of_i64 = \<lambda>x. 0\<rparr>"

theorem cli_commands_start_anew_witness:
  "cli_main (example_env\<lparr>env_backend := cpu_backend zero_floats rev, env_dir := (\<lambda>_. [])\<rparr>) (\<lambda>_. 0) Map.empty [''invalidate'', ''resnet'']
     = Some (0, ''invalidated=1'' @ newline, Map.empty)"
  using cli_commands_start_anew [OF sample_machine.cpu_machine_axioms] by blast

end
