(* ===== verification/GC_Streams.thy ===== *)
theory GC_Streams
  imports GC_Authority
begin

text \<open>
  The coordinator's main loop (\<open>tools/coordinator_main.cpp\<close>) against the bytes its connections carry. The
  trace of a run lists what the system calls reported, round by round: the sockets \<open>accept\<close> gave and the
  bytes every \<open>recv\<close> gave (none at the end of a connection). The specification works on whole streams: a
  connection has carried some bytes since it was opened, these bytes contain some frames, and a
  \<open>recv\<close> stands for the frames that its bytes complete. The main loop keeps only a buffer of unread bytes
  per connection; the theorem says that it handles exactly these frames.
\<close>

section \<open>The frames of a stream\<close>

text \<open>
  A stream starts with frames (a length of 0 is skipped), which end where less than a frame is left or
  where a frame is announced that is too long; what remains there, and whether it is too long.
\<close>

function frame_cut :: "bytes \<Rightarrow> bytes list \<times> bytes \<times> bool" where
  "frame_cut b =
     (if length b < 4 then ([], b, False)
      else if MaxFrameSize < frame_len b then ([], b, True)
      else if length b < 4 + unat (frame_len b) then ([], b, False)
      else case frame_cut (drop (4 + unat (frame_len b)) b) of (fs, rest) \<Rightarrow>
        (if frame_len b = 0 then fs else take (unat (frame_len b)) (drop 4 b) # fs, rest))"
  by pat_completeness auto
termination
  by (relation "measure length") auto

declare frame_cut.simps [simp del]

definition frames :: "bytes \<Rightarrow> bytes list" where
  "frames b = fst (frame_cut b)"

definition unread :: "bytes \<Rightarrow> bytes" where
  "unread b = fst (snd (frame_cut b))"

definition overlong :: "bytes \<Rightarrow> bool" where
  "overlong b = snd (snd (frame_cut b))"

lemmas cut_defs = frames_def unread_def overlong_def

lemma frames_Nil [simp]: "frames [] = []" "unread [] = []" "\<not> overlong []"
  by (simp_all add: cut_defs frame_cut.simps)

lemma frame_cut_append:
  "frame_cut (a @ b) = (if overlong a then (frames a, unread a @ b, True)
     else (frames a @ frames (unread a @ b), snd (frame_cut (unread a @ b))))"
proof (induction a rule: frame_cut.induct)
  case (1 a)
  let ?n = "unat (frame_len a)"
  consider "length a < 4" | "4 \<le> length a" "MaxFrameSize < frame_len a"
    | "4 \<le> length a" "\<not> MaxFrameSize < frame_len a" "length a < 4 + ?n"
    | "4 \<le> length a" "\<not> MaxFrameSize < frame_len a" "4 + ?n \<le> length a" by linarith
  then show ?case
  proof cases
    case 4
    then have ih: "frame_cut (drop (4 + ?n) a @ b) = (if overlong (drop (4 + ?n) a)
        then (frames (drop (4 + ?n) a), unread (drop (4 + ?n) a) @ b, True)
        else (frames (drop (4 + ?n) a) @ frames (unread (drop (4 + ?n) a) @ b), snd (frame_cut (unread (drop (4 + ?n) a) @ b))))"
      using "1.IH" by simp
    from 4 have "frame_cut (a @ b) = (case frame_cut (drop (4 + ?n) a @ b) of (fs, rest) \<Rightarrow>
        (if frame_len a = 0 then fs else take ?n (drop 4 a) # fs, rest))"
      by (subst frame_cut.simps) (simp add: frame_len_append case_prod_unfold)
    moreover from 4 have "frame_cut a = (case frame_cut (drop (4 + ?n) a) of (fs, rest) \<Rightarrow>
        (if frame_len a = 0 then fs else take ?n (drop 4 a) # fs, rest))"
      by (subst frame_cut.simps) simp
    ultimately show ?thesis using ih by (auto simp: cut_defs case_prod_unfold)
  qed (simp_all add: cut_defs frame_cut.simps [of a], simp_all add: frame_cut.simps [of "a @ b"] frame_len_append)
qed

lemma frames_append: "frames (a @ b) = frames a @ (if overlong a then [] else frames (unread a @ b))"
  by (simp add: frames_def frame_cut_append [of a b])

lemma unread_append:
  "\<not> overlong a \<Longrightarrow> unread (a @ b) = unread (unread a @ b)"
  "\<not> overlong a \<Longrightarrow> overlong (a @ b) = overlong (unread a @ b)"
  by (simp_all add: unread_def overlong_def frame_cut_append [of a b])

lemma frames_loop_cut:
  "frames_loop s b cv = (unread b, overlong b, foldl (\<lambda>cv f. handle_frame s f cv) cv (frames b))"
proof (induction s b cv rule: frames_loop.induct)
  case (1 s b cv)
  consider "length b < 4" | "4 \<le> length b" "frame_len b = 0" | "4 \<le> length b" "frame_len b \<noteq> 0" by linarith
  then show ?case
  proof cases
    case 2
    with "1.IH"(1) show ?thesis
      by (simp add: frames_loop.simps [of s b] cut_defs frame_cut.simps [of b] case_prod_unfold MaxFrameSize_def)
  next
    case 3
    with "1.IH"(2) show ?thesis
      by (simp add: frames_loop.simps [of s b] cut_defs frame_cut.simps [of b] case_prod_unfold Let_def)
  qed (simp add: frames_loop.simps [of s b] cut_defs frame_cut.simps [of b])
qed

text \<open>The frames of a stream of well-formed frames are their bodies.\<close>

lemma frames_frame_of:
  assumes "body \<noteq> []" and "length body \<le> unat MaxFrameSize"
  shows "frames (frame_of body @ b) = body # frames b"
proof -
  have "length body < 2 ^ 32" using assms(2) by (simp add: MaxFrameSize_def)
  then have n: "unat (frame_len (frame_of body @ b)) = length body" by (rule frame_len_frame)
  with assms have "\<not> MaxFrameSize < frame_len (frame_of body @ b)" "frame_len (frame_of body @ b) \<noteq> 0"
    by (auto simp: word_less_nat_alt)
  with n show ?thesis
    by (simp add: frames_def frame_cut.simps [of "frame_of body @ b"] case_prod_unfold) (simp add: frame_of_def size_simps)
qed

lemma frames_frames_of:
  "list_all (\<lambda>body. body \<noteq> [] \<and> length body \<le> unat MaxFrameSize) bodies
     \<Longrightarrow> frames (concat (map frame_of bodies)) = bodies"
  by (induction bodies) (simp_all add: frames_frame_of)

section \<open>The trace of a run\<close>

datatype io = IO_Open i64 | IO_Recv i64 bytes | IO_Round

text \<open>
  What a round reports: a connection is accepted when the listener is ready, and every open connection
  that is ready is read, in the order of the sockets; then the round ends.
\<close>

definition io_round :: "poll_event \<Rightarrow> coordinator \<Rightarrow> io list" where
  "io_round ev cd = (case ev of
       PE_Ready ready acc recv \<Rightarrow>
         let up = filter (\<lambda>s. 0 \<le> sint s \<and> ready s) (sort_key sint (map fst (cd_conns cd)));
             order = filter (\<lambda>s. s \<noteq> cd_listener cd) up
         in (if cd_listener cd \<in> set up then map IO_Open (case acc of None \<Rightarrow> [] | Some h \<Rightarrow> [h]) else [])
            @ map (\<lambda>s. IO_Recv s (recv s)) order @ [IO_Round]
     | _ \<Rightarrow> [])"

fun io_trace :: "poll_event list \<Rightarrow> coordinator \<Rightarrow> io list" where
  "io_trace [] cd = []"
| "io_trace (ev # evs) cd =
     (if sv_running (cd_server cd) then io_round ev cd @ io_trace evs (poll ev cd) else [])"

section \<open>The inputs a trace stands for\<close>

definition frame_input :: "i64 \<Rightarrow> bytes \<Rightarrow> co_input" where
  "frame_input s body = (case decode_message body of Inl _ \<Rightarrow> CI_Malformed s | Inr m \<Rightarrow> CI_Message s m)"

text \<open>
  Along the trace: the coordinator's state, which decides whether a registration is accepted, the bytes
  each socket has carried since it was opened, the worker it has registered as, and the connections that
  ended in this round: \<open>recv\<close> reported the end or the stream announces a frame that is too long.
\<close>

record view =
  vw_state :: State
  vw_stream :: "i64 \<Rightarrow> bytes"
  vw_worker :: "i64 \<rightharpoonup> u64"
  vw_ended :: "i64 list"

definition accepted :: "State \<Rightarrow> co_input \<Rightarrow> (i64 \<times> u64) option" where
  "accepted st i = (case i of
       CI_Message s m \<Rightarrow> (if pm_type m = PT_Register \<and> list_all (\<lambda>(_, r). pm_status r = PS_Ok) (fst (co_apply st i))
         then Some (s, wid_value (pm_worker_id m)) else None)
     | _ \<Rightarrow> None)"

definition view_input :: "view \<Rightarrow> co_input \<Rightarrow> view" where
  "view_input v i = v\<lparr>vw_state := snd (co_apply (vw_state v) i),
     vw_worker := (case accepted (vw_state v) i of None \<Rightarrow> vw_worker v | Some (s, w) \<Rightarrow> (vw_worker v)(s \<mapsto> w))\<rparr>"

definition io_inputs :: "view \<Rightarrow> io \<Rightarrow> co_input list" where
  "io_inputs v x = (case x of
       IO_Open s \<Rightarrow> []
     | IO_Recv s d \<Rightarrow> map (frame_input s) (drop (length (frames (vw_stream v s))) (frames (vw_stream v s @ d)))
     | IO_Round \<Rightarrow> concat (map (\<lambda>s. case vw_worker v s of None \<Rightarrow> [] | Some w \<Rightarrow> [CI_Gone w]) (vw_ended v)))"

definition io_view :: "view \<Rightarrow> io \<Rightarrow> view" where
  "io_view v x = (let v' = foldl view_input v (io_inputs v x) in case x of
       IO_Open s \<Rightarrow> v'\<lparr>vw_stream := (vw_stream v')(s := []), vw_worker := (vw_worker v')(s := None)\<rparr>
     | IO_Recv s d \<Rightarrow> v'\<lparr>vw_stream := (vw_stream v')(s := vw_stream v' s @ d),
         vw_ended := (if d = [] \<or> overlong (vw_stream v' s @ d) then vw_ended v' @ [s] else vw_ended v')\<rparr>
     | IO_Round \<Rightarrow> v'\<lparr>vw_ended := []\<rparr>)"

fun trace_inputs :: "view \<Rightarrow> io list \<Rightarrow> co_input list" where
  "trace_inputs v [] = []"
| "trace_inputs v (x # tr) = io_inputs v x @ trace_inputs (io_view v x) tr"

definition view_start :: view where
  "view_start = \<lparr>vw_state = State_default, vw_stream = (\<lambda>_. []), vw_worker = Map.empty, vw_ended = []\<rparr>"

text \<open>The streams a socket carried, one for each time it was opened, and the inputs that came from it.\<close>

fun sessions :: "i64 \<Rightarrow> bytes \<Rightarrow> io list \<Rightarrow> bytes list" where
  "sessions s b [] = [b]"
| "sessions s b (IO_Open t # tr) = (if t = s then b # sessions s [] tr else sessions s b tr)"
| "sessions s b (IO_Recv t d # tr) = sessions s (if t = s then b @ d else b) tr"
| "sessions s b (IO_Round # tr) = sessions s b tr"

fun came_from :: "i64 \<Rightarrow> co_input \<Rightarrow> bool" where
  "came_from s (CI_Message t m) = (t = s)"
| "came_from s (CI_Malformed t) = (t = s)"
| "came_from s (CI_Gone w) = False"

section \<open>The main loop follows the trace\<close>

lemma trace_inputs_append: "trace_inputs v (tr @ tr') = trace_inputs v tr @ trace_inputs (foldl io_view v tr) tr'"
  by (induction tr arbitrary: v) simp_all

lemma view_input_state: "vw_state (foldl view_input v is) = snd (co_run (vw_state v) is)"
  by (induction "is" arbitrary: v) (simp_all add: view_input_def case_prod_unfold)

lemma view_input_stream [simp]: "vw_stream (foldl view_input v is) = vw_stream v" "vw_ended (foldl view_input v is) = vw_ended v"
  by (induction "is" arbitrary: v) (simp_all add: view_input_def)

lemma io_view_state: "vw_state (io_view v x) = snd (co_run (vw_state v) (io_inputs v x))"
  by (simp add: io_view_def view_input_state Let_def split: io.split)

text \<open>The worker of a connection, as the code keeps it.\<close>

definition conn_worker :: "Conn \<Rightarrow> u64 option" where
  "conn_worker c = (if cc_is_worker c then Some (cc_worker_id c) else None)"

definition handled :: "server \<Rightarrow> co_input list \<Rightarrow> server \<Rightarrow> bool" where
  "handled sv is sv' \<longleftrightarrow> (\<exists>outs. co_run (sv_state sv) is = (outs, sv_state sv') \<and> sv_sent sv' = sv_sent sv @ outs)"

lemma handled_Nil [simp]: "handled sv [] sv' \<longleftrightarrow> sv_state sv' = sv_state sv \<and> sv_sent sv' = sv_sent sv"
  by (auto simp: handled_def)

lemma handled_append [intro]: "handled a is b \<Longrightarrow> handled b js c \<Longrightarrow> handled a (is @ js) c"
  by (auto simp: handled_def co_run_append)

lemma handle_message_worker:
  "handle_message s m c st = (outs, go, c', st') \<Longrightarrow>
     conn_worker c' = (case accepted st (CI_Message s m) of None \<Rightarrow> conn_worker c | Some (_, w) \<Rightarrow> Some w)"
  by (auto simp: accepted_def co_apply_def handle_message_def handle_register_def handle_hello_def send_status_def
      conn_worker_def Let_def case_prod_unfold split: if_splits)

lemma handle_frame_input:
  assumes "vw_state v = sv_state sv" and "vw_worker v s = conn_worker c" and "handle_frame s f (c, sv) = (c', sv')"
    and "v' = view_input v (frame_input s f)"
  shows "handled sv [frame_input s f] sv'" and "vw_state v' = sv_state sv'" and "vw_worker v' s = conn_worker c'"
    and "t \<noteq> s \<Longrightarrow> vw_worker v' t = vw_worker v t"
proof -
  have "handled sv [frame_input s f] sv' \<and> vw_state v' = sv_state sv' \<and> vw_worker v' s = conn_worker c'
      \<and> (t \<noteq> s \<longrightarrow> vw_worker v' t = vw_worker v t)"
  proof (cases "decode_message f")
    case (Inl e)
    with assms show ?thesis
      by (auto simp: handle_frame_def frame_input_def handled_def view_input_def accepted_def co_apply_def)
  next
    case (Inr m)
    obtain outs go c1 st where h: "handle_message s m c (sv_state sv) = (outs, go, c1, st)" using prod_cases4 by blast
    from handle_message_conn [OF h] handle_message_worker [OF h] h Inr assms show ?thesis
      by (auto simp: handle_frame_def frame_input_def handled_def view_input_def accepted_def split: if_splits)
  qed
  then show "handled sv [frame_input s f] sv'" "vw_state v' = sv_state sv'" "vw_worker v' s = conn_worker c'"
    "t \<noteq> s \<Longrightarrow> vw_worker v' t = vw_worker v t" by auto
qed

lemma handle_frames_inputs:
  assumes "vw_state v = sv_state sv" and "vw_worker v s = conn_worker c"
    and "foldl (\<lambda>cv f. handle_frame s f cv) (c, sv) fs = (c', sv')" and "v' = foldl view_input v (map (frame_input s) fs)"
  shows "handled sv (map (frame_input s) fs) sv' \<and> vw_state v' = sv_state sv' \<and> vw_worker v' s = conn_worker c'
    \<and> (\<forall>t. t \<noteq> s \<longrightarrow> vw_worker v' t = vw_worker v t)"
  using assms
proof (induction fs arbitrary: v c sv)
  case (Cons f fs)
  obtain c1 sv1 where h: "handle_frame s f (c, sv) = (c1, sv1)" by force
  note one = handle_frame_input [OF Cons.prems(1,2) h refl]
  have "handled sv1 (map (frame_input s) fs) sv' \<and> vw_state v' = sv_state sv' \<and> vw_worker v' s = conn_worker c'
      \<and> (\<forall>t. t \<noteq> s \<longrightarrow> vw_worker v' t = vw_worker (view_input v (frame_input s f)) t)"
    using Cons.IH [OF one(2,3)] Cons.prems(3,4) h by simp
  then show ?case using one(1,4) handled_append [of sv "[frame_input s f]" sv1] by fastforce
qed simp

text \<open>
  The view agrees with the coordinator: every connection that has not just ended holds the unread part of
  its stream.
\<close>

definition agrees :: "view \<Rightarrow> coordinator \<Rightarrow> bool" where
  "agrees v cd \<longleftrightarrow> vw_state v = sv_state (cd_server cd) \<and> distinct (map fst (cd_conns cd))
     \<and> (\<forall>s c. map_of (cd_conns cd) s = Some c \<longrightarrow> vw_worker v s = conn_worker c
          \<and> (s \<notin> set (vw_ended v) \<longrightarrow> cc_buf c = unread (vw_stream v s) \<and> \<not> overlong (vw_stream v s)))"

lemma agrees_serve:
  assumes "agrees v cd" and "s \<notin> set (vw_ended v)" and "s \<in> fst ` set (cd_conns cd)"
    and "serve_conn recv (cd, vw_ended v) s = (cd', closing)" and "v' = io_view v (IO_Recv s (recv s))"
  shows "agrees v' cd' \<and> handled (cd_server cd) (io_inputs v (IO_Recv s (recv s))) (cd_server cd')
    \<and> map fst (cd_conns cd') = map fst (cd_conns cd) \<and> closing = vw_ended v' \<and> vw_ended v' \<in> {vw_ended v, vw_ended v @ [s]}"
proof -
  let ?b = "vw_stream v s" and ?d = "recv s"
  obtain c where c: "map_of (cd_conns cd) s = Some c" using assms(3) by (metis map_of_eq_None_iff not_Some_eq)
  with assms(1,2) have ag: "vw_worker v s = conn_worker c" "cc_buf c = unread ?b" "\<not> overlong ?b"
    "vw_state v = sv_state (cd_server cd)" by (auto simp: agrees_def)
  let ?fs = "frames (unread ?b @ ?d)"
  obtain c1 sv1 where l: "foldl (\<lambda>cv f. handle_frame s f cv) (c\<lparr>cc_buf := []\<rparr>, cd_server cd) ?fs = (c1, sv1)" by force
  have ins: "io_inputs v (IO_Recv s ?d) = map (frame_input s) ?fs" using ag(3) by (simp add: io_inputs_def frames_append)
  have "vw_worker v s = conn_worker (c\<lparr>cc_buf := []\<rparr>)" using ag(1) by (simp add: conn_worker_def)
  from handle_frames_inputs [OF ag(4) this l refl, folded ins] assms(5)
  have fs: "handled (cd_server cd) (io_inputs v (IO_Recv s ?d)) sv1" "vw_state v' = sv_state sv1"
    "vw_worker v' s = conn_worker c1" "\<And>t. t \<noteq> s \<Longrightarrow> vw_worker v' t = vw_worker v t"
    by (simp_all add: io_view_def Let_def)
  have str: "vw_stream v' = (vw_stream v)(s := ?b @ ?d)"
    "vw_ended v' = (if ?d = [] \<or> overlong (?b @ ?d) then vw_ended v @ [s] else vw_ended v)"
    by (simp_all add: assms(5) io_view_def Let_def)
  show ?thesis
  proof (cases "?d = []")
    case True
    then have "?fs = []" using frames_append [of ?b "[]"] ag(3) by simp
    with True ins have none: "io_inputs v (IO_Recv s ?d) = []" by simp
    then have "v' = v\<lparr>vw_ended := vw_ended v @ [s]\<rparr>" using True assms(5) by (simp add: io_view_def)
    with none True assms(1,4) c show ?thesis by (auto simp: agrees_def serve_conn_def)
  next
    case False
    have "conn_recv s ?d (c, cd_server cd) = (overlong (?b @ ?d), c1\<lparr>cc_buf := unread (?b @ ?d)\<rparr>, sv1)"
      using l ag(2,3) by (simp add: conn_recv_def frames_loop_cut unread_append)
    then have "cd' = cd\<lparr>cd_conns := AList.update s (c1\<lparr>cc_buf := unread (?b @ ?d)\<rparr>) (cd_conns cd), cd_server := sv1\<rparr>"
      "closing = vw_ended v'" using assms(4) c False str(2) by (auto simp: serve_conn_def)
    with assms(1,3) fs str False show ?thesis
      by (auto simp: agrees_def update_conv' AList.update_keys conn_worker_def split: if_splits)
  qed
qed

lemma agrees_serves:
  assumes "agrees v cd" and "set (vw_ended v) \<inter> set ss = {}" and "distinct ss" and "set ss \<subseteq> fst ` set (cd_conns cd)"
    and "foldl (serve_conn recv) (cd, vw_ended v) ss = (cd', closing)" and "v' = foldl io_view v (map (\<lambda>s. IO_Recv s (recv s)) ss)"
  shows "agrees v' cd' \<and> handled (cd_server cd) (trace_inputs v (map (\<lambda>s. IO_Recv s (recv s)) ss)) (cd_server cd')
    \<and> map fst (cd_conns cd') = map fst (cd_conns cd) \<and> closing = vw_ended v' \<and> set (vw_ended v') \<subseteq> set (vw_ended v) \<union> set ss
    \<and> (distinct (vw_ended v) \<longrightarrow> distinct (vw_ended v'))"
  using assms
proof (induction ss arbitrary: cd v)
  case (Cons s ss)
  let ?v = "io_view v (IO_Recv s (recv s))"
  obtain cd1 closing1 where one: "serve_conn recv (cd, vw_ended v) s = (cd1, closing1)" by force
  have "s \<notin> set (vw_ended v)" "s \<in> fst ` set (cd_conns cd)" using Cons.prems(2,4) by auto
  from agrees_serve [OF Cons.prems(1) this one refl]
  have st: "agrees ?v cd1" "handled (cd_server cd) (io_inputs v (IO_Recv s (recv s))) (cd_server cd1)"
    "map fst (cd_conns cd1) = map fst (cd_conns cd)" "closing1 = vw_ended ?v" "vw_ended ?v \<in> {vw_ended v, vw_ended v @ [s]}"
    by simp_all
  from arg_cong [OF st(3), of set] have k: "fst ` set (cd_conns cd1) = fst ` set (cd_conns cd)" by simp
  have "set (vw_ended ?v) \<inter> set ss = {}" using st(5) Cons.prems(2,3) by auto
  from Cons.IH [OF st(1) this] Cons.prems(3-6) one k st(4)
  have ih: "agrees v' cd'" "handled (cd_server cd1) (trace_inputs ?v (map (\<lambda>s. IO_Recv s (recv s)) ss)) (cd_server cd')"
    "map fst (cd_conns cd') = map fst (cd_conns cd1)" "closing = vw_ended v'"
    "set (vw_ended v') \<subseteq> set (vw_ended ?v) \<union> set ss" "distinct (vw_ended ?v) \<longrightarrow> distinct (vw_ended v')" by auto
  from handled_append [OF st(2) ih(2)] ih st(3,5) Cons.prems(2) show ?case by auto
qed simp

lemma close_conns:
  assumes "\<forall>s c. map_of (cd_conns cd) s = Some c \<longrightarrow> w s = conn_worker c" and "distinct (map fst (cd_conns cd))"
    and "distinct ss" and "set ss \<subseteq> fst ` set (cd_conns cd)" and "cd' = foldl close_conn cd ss"
  shows "map_of (cd_conns cd') = map_of (cd_conns cd) |` (- set ss) \<and> distinct (map fst (cd_conns cd'))
    \<and> handled (cd_server cd) (concat (map (\<lambda>s. case w s of None \<Rightarrow> [] | Some w \<Rightarrow> [CI_Gone w]) ss)) (cd_server cd')"
  using assms
proof (induction ss arbitrary: cd)
  case Nil
  then show ?case by (simp add: restrict_map_def)
next
  case (Cons s ss)
  obtain c where c: "map_of (cd_conns cd) s = Some c" using Cons.prems(4) by (metis insert_subset list.simps(15) map_of_eq_None_iff not_Some_eq)
  let ?cd = "close_conn cd s"
  have one: "map_of (cd_conns ?cd) = (map_of (cd_conns cd))(s := None)" "distinct (map fst (cd_conns ?cd))"
    "handled (cd_server cd) (case w s of None \<Rightarrow> [] | Some w \<Rightarrow> [CI_Gone w]) (cd_server ?cd)"
    using c Cons.prems(1,2)
    by (auto simp: close_conn_def delete_conv' distinct_delete conn_worker_def handled_def co_apply_def)
  have "map fst (cd_conns ?cd) = removeAll s (map fst (cd_conns cd))" using c by (simp add: close_conn_def delete_keys)
  from arg_cong [OF this, of set] have "set ss \<subseteq> fst ` set (cd_conns ?cd)" using Cons.prems(3,4) by auto
  moreover have "\<forall>s c. map_of (cd_conns ?cd) s = Some c \<longrightarrow> w s = conn_worker c" using Cons.prems(1) one(1) by simp
  ultimately have "map_of (cd_conns cd') = map_of (cd_conns ?cd) |` (- set ss) \<and> distinct (map fst (cd_conns cd'))
      \<and> handled (cd_server ?cd) (concat (map (\<lambda>s. case w s of None \<Rightarrow> [] | Some w \<Rightarrow> [CI_Gone w]) ss)) (cd_server cd')"
    using Cons.IH [of ?cd] one(2) Cons.prems(3,5) by simp
  then
  have ih: "map_of (cd_conns cd') = map_of (cd_conns ?cd) |` (- set ss)" "distinct (map fst (cd_conns cd'))"
    "handled (cd_server ?cd) (concat (map (\<lambda>s. case w s of None \<Rightarrow> [] | Some w \<Rightarrow> [CI_Gone w]) ss)) (cd_server cd')"
    by blast+
  from handled_append [OF one(3) ih(3)] ih(1,2) one(1) show ?case by (auto simp: restrict_map_def)
qed

lemma gone_worker [simp]: "vw_worker (foldl view_input v (concat (map (\<lambda>s. case w s of None \<Rightarrow> [] | Some w \<Rightarrow> [CI_Gone w]) ss))) = vw_worker v"
  by (induction ss arbitrary: v) (simp_all add: view_input_def accepted_def split: option.split)

lemma agrees_close:
  assumes "agrees v cd" and "distinct (vw_ended v)" and "set (vw_ended v) \<subseteq> fst ` set (cd_conns cd)"
    and "cd' = foldl close_conn cd (vw_ended v)"
  shows "agrees (io_view v IO_Round) cd'" and "handled (cd_server cd) (io_inputs v IO_Round) (cd_server cd')"
proof -
  from close_conns [OF _ _ assms(2-4), of "vw_worker v"] assms(1)
  have cl: "map_of (cd_conns cd') = map_of (cd_conns cd) |` (- set (vw_ended v))" "distinct (map fst (cd_conns cd'))"
    and h: "handled (cd_server cd) (io_inputs v IO_Round) (cd_server cd')" by (auto simp: agrees_def io_inputs_def)
  have "vw_state (io_view v IO_Round) = sv_state (cd_server cd')"
    using h assms(1) by (auto simp: io_view_state handled_def agrees_def)
  with cl assms(1) show "agrees (io_view v IO_Round) cd'"
    by (auto simp: agrees_def io_view_def Let_def io_inputs_def restrict_map_def split: if_splits)
  show "handled (cd_server cd) (io_inputs v IO_Round) (cd_server cd')" by (rule h)
qed

lemma agrees_accept:
  "agrees v cd \<Longrightarrow> vw_ended v = [] \<Longrightarrow> agrees (io_view v (IO_Open h)) (cd\<lparr>cd_conns := AList.update h (Conn_new h) (cd_conns cd)\<rparr>)"
  by (auto simp: agrees_def io_view_def io_inputs_def Conn_new_def conn_worker_def update_conv' distinct_update split: if_splits)

lemma ready_order:
  "\<forall>s. P s \<longrightarrow> s \<in> set (map fst al) \<Longrightarrow>
     filter P (sort_key sint (map fst (AList.update h c al))) = filter P (sort_key sint (map fst al))"
  by (auto simp: filter_sort AList.update_keys)

text \<open>A round after \<open>accept\<close>: the ready connections are read, then some of them are closed.\<close>

lemma agrees_round:
  assumes "agrees v cd" and "vw_ended v = []" and "distinct order" and "set order \<subseteq> fst ` set (cd_conns cd)"
    and "foldl (serve_conn recv) (cd, []) order = (cd1, closing)" and "cd' = foldl close_conn cd1 closing"
    and "tr = map (\<lambda>s. IO_Recv s (recv s)) order @ [IO_Round]"
  shows "agrees (foldl io_view v tr) cd'" and "handled (cd_server cd) (trace_inputs v tr) (cd_server cd')"
    and "vw_ended (foldl io_view v tr) = []"
proof -
  let ?v = "foldl io_view v (map (\<lambda>s. IO_Recv s (recv s)) order)"
  from agrees_serves [OF assms(1) _ assms(3,4), of recv cd1 closing ?v] assms(2,5)
  have sv: "agrees ?v cd1" "handled (cd_server cd) (trace_inputs v (map (\<lambda>s. IO_Recv s (recv s)) order)) (cd_server cd1)"
    "map fst (cd_conns cd1) = map fst (cd_conns cd)" "closing = vw_ended ?v" "set (vw_ended ?v) \<subseteq> set order" "distinct (vw_ended ?v)"
    by auto
  from arg_cong [OF sv(3), of set] have "set (vw_ended ?v) \<subseteq> fst ` set (cd_conns cd1)" using sv(5) assms(4) by auto
  from agrees_close [OF sv(1,6) this] sv(4) assms(6)
  have cl: "agrees (io_view ?v IO_Round) cd'" "handled (cd_server cd1) (io_inputs ?v IO_Round) (cd_server cd')" by auto
  from cl(1) handled_append [OF sv(2) cl(2)] show "agrees (foldl io_view v tr) cd'"
    "handled (cd_server cd) (trace_inputs v tr) (cd_server cd')" by (simp_all add: assms(7) trace_inputs_append)
  show "vw_ended (foldl io_view v tr) = []" by (simp add: assms(7) io_view_def Let_def)
qed

lemma poll_ready:
  fixes ready acc recv cd
  defines "order \<equiv> filter (\<lambda>s. s \<noteq> cd_listener cd) (filter (\<lambda>s. 0 \<le> sint s \<and> ready s) (sort_key sint (map fst (cd_conns cd))))"
    and "news \<equiv> if cd_listener cd \<in> fst ` set (cd_conns cd) \<and> 0 \<le> sint (cd_listener cd) \<and> ready (cd_listener cd) then acc else None"
  defines "cd0 \<equiv> (case news of None \<Rightarrow> cd | Some h \<Rightarrow> cd\<lparr>cd_conns := AList.update h (Conn_new h) (cd_conns cd)\<rparr>)"
  shows "poll (PE_Ready ready acc recv) cd
      = (case foldl (serve_conn recv) (cd0, []) order of (cd1, closing) \<Rightarrow> foldl close_conn cd1 closing)"
    and "io_round (PE_Ready ready acc recv) cd = map IO_Open (case news of None \<Rightarrow> [] | Some h \<Rightarrow> [h])
      @ map (\<lambda>s. IO_Recv s (recv s)) order @ [IO_Round]"
    and "set order \<subseteq> fst ` set (cd_conns cd0)" and "distinct (map fst (cd_conns cd)) \<Longrightarrow> distinct order"
    and "cd_server cd0 = cd_server cd"
proof -
  have "filter (\<lambda>s. s \<noteq> cd_listener cd \<and> s \<in> set (map fst (cd_conns cd)) \<and> 0 \<le> sint s \<and> ready s)
      (sort_key sint (map fst (cd_conns cd0)))
    = filter (\<lambda>s. s \<noteq> cd_listener cd \<and> s \<in> set (map fst (cd_conns cd)) \<and> 0 \<le> sint s \<and> ready s)
      (sort_key sint (map fst (cd_conns cd)))"
    unfolding cd0_def by (auto simp: ready_order split: option.split)
  also have "\<dots> = order" unfolding order_def by (auto intro!: filter_cong)
  finally show "poll (PE_Ready ready acc recv) cd
      = (case foldl (serve_conn recv) (cd0, []) order of (cd1, closing) \<Rightarrow> foldl close_conn cd1 closing)"
    by (auto simp: poll_def Let_def cd0_def news_def split: option.splits if_splits)
  show "io_round (PE_Ready ready acc recv) cd = map IO_Open (case news of None \<Rightarrow> [] | Some h \<Rightarrow> [h])
      @ map (\<lambda>s. IO_Recv s (recv s)) order @ [IO_Round]"
    by (simp add: io_round_def Let_def order_def news_def)
  show "set order \<subseteq> fst ` set (cd_conns cd0)"
    by (auto simp: order_def cd0_def dom_update split: option.split)
  show "distinct order" if "distinct (map fst (cd_conns cd))" using that by (simp add: order_def)
  show "cd_server cd0 = cd_server cd" by (simp add: cd0_def split: option.split)
qed

lemma agrees_poll:
  assumes "agrees v cd" and "vw_ended v = []"
  shows "agrees (foldl io_view v (io_round ev cd)) (poll ev cd) \<and> vw_ended (foldl io_view v (io_round ev cd)) = []
     \<and> handled (cd_server cd) (trace_inputs v (io_round ev cd)) (cd_server (poll ev cd))"
proof (cases ev)
  case (PE_Ready ready acc recv)
  let ?news = "if cd_listener cd \<in> fst ` set (cd_conns cd) \<and> 0 \<le> sint (cd_listener cd) \<and> ready (cd_listener cd) then acc else None"
  let ?opens = "map IO_Open (case ?news of None \<Rightarrow> [] | Some h \<Rightarrow> [h])"
  let ?cd = "case ?news of None \<Rightarrow> cd | Some h \<Rightarrow> cd\<lparr>cd_conns := AList.update h (Conn_new h) (cd_conns cd)\<rparr>"
  have open_ok: "agrees (foldl io_view v ?opens) ?cd" "vw_ended (foldl io_view v ?opens) = []" "trace_inputs v ?opens = []"
    using assms agrees_accept [OF assms] by (auto simp: io_inputs_def io_view_def split: option.split)
  note p = poll_ready(1,2) [where cd = cd and ready = ready and acc = acc and recv = recv]
    and q = poll_ready(3,5) [where cd = cd and ready = ready and acc = acc]
  have d: "distinct (map fst (cd_conns cd))" using assms by (simp add: agrees_def)
  obtain cd1 closing where sv: "foldl (serve_conn recv) (?cd, [])
      (filter (\<lambda>s. s \<noteq> cd_listener cd) (filter (\<lambda>s. 0 \<le> sint s \<and> ready s) (sort_key sint (map fst (cd_conns cd))))) = (cd1, closing)"
    by force
  from agrees_round [OF open_ok(1,2) poll_ready(4) [OF d] q(1) sv p(1) [unfolded sv prod.case] refl] q(2)
  show ?thesis unfolding PE_Ready p(2) trace_inputs_append foldl_append open_ok(3) by simp
qed (use assms in \<open>auto simp: poll_def io_round_def agrees_def\<close>)

lemma agrees_main:
  "agrees v cd \<Longrightarrow> vw_ended v = []
     \<Longrightarrow> handled (cd_server cd) (trace_inputs v (io_trace evs cd)) (cd_server (coordinator_main evs cd))"
proof (induction evs arbitrary: v cd)
  case (Cons ev evs)
  from agrees_poll [OF Cons.prems]
  have st: "agrees (foldl io_view v (io_round ev cd)) (poll ev cd)" "vw_ended (foldl io_view v (io_round ev cd)) = []"
    "handled (cd_server cd) (trace_inputs v (io_round ev cd)) (cd_server (poll ev cd))" by simp_all
  from handled_append [OF st(3) Cons.IH [OF st(1,2)]] show ?case by (simp add: trace_inputs_append)
qed simp

section \<open>Inputs and streams\<close>

lemma inputs_of_socket:
  "map (frame_input s) (frames (vw_stream v s)) @ filter (came_from s) (trace_inputs v tr)
     = concat (map (\<lambda>b. map (frame_input s) (frames b)) (sessions s (vw_stream v s) tr))"
proof (induction tr arbitrary: v)
  case (Cons x tr)
  have own: "filter (came_from s) (map (frame_input t) fs) = (if t = s then map (frame_input t) fs else [])" for t fs
    by (induction fs) (simp_all add: frame_input_def split: sum.split)
  show ?case
  proof (cases x)
    case (IO_Open t)
    with Cons.IH [of "io_view v x"] show ?thesis by (auto simp: io_inputs_def io_view_def)
  next
    case (IO_Recv t d)
    have "frames (vw_stream v t @ d) = frames (vw_stream v t) @ drop (length (frames (vw_stream v t))) (frames (vw_stream v t @ d))"
      by (simp add: frames_append)
    with IO_Recv Cons.IH [of "io_view v x"] show ?thesis
      by (cases "t = s") (simp_all add: io_inputs_def io_view_def Let_def own flip: map_append append_assoc)
  next
    case IO_Round
    have "filter (came_from s) (io_inputs v IO_Round) = []"
      by (auto simp: io_inputs_def filter_empty_conv split: option.splits)
    with IO_Round Cons.IH [of "io_view v x"] show ?thesis by (simp add: io_view_def Let_def)
  qed
qed simp

section \<open>The property\<close>

lemma agrees_start: "agrees view_start (coordinator_start l)"
  by (simp add: agrees_def view_start_def coordinator_start_def Conn_new_def conn_worker_def)

text \<open>
  C24: The coordinator's main loop handles exactly the frames its connections carry. For any reports of
  \<open>select\<close>, \<open>accept\<close> and \<open>recv\<close>, let the trace list the accepted sockets and the bytes read from each
  ready connection. The state it ends in and everything it sent is the run of the handlers over the
  inputs of the trace: for each \<open>recv\<close>, on its socket, the messages (or malformed frames) that its
  bytes complete in the stream of the connection; and at the end of a round the loss of each worker whose
  connection ended, by end of file or by announcing too long a frame. In particular the
  inputs from a socket are the frames of the streams it carried, each once and in order, and a socket that
  is opened anew starts an empty stream.
\<close>

theorem main_loop_handles_streams:
  "let cd = coordinator_main evs (coordinator_start l); tr = io_trace evs (coordinator_start l); is = trace_inputs view_start tr
   in co_run State_default is = (sv_sent (cd_server cd), sv_state (cd_server cd))
      \<and> (\<forall>s. filter (came_from s) is = concat (map (\<lambda>b. map (frame_input s) (frames b)) (sessions s [] tr)))"
proof -
  have "vw_ended view_start = []" "vw_stream view_start s = []" for s by (simp_all add: view_start_def)
  with agrees_main [OF agrees_start, of l evs] inputs_of_socket [of _ view_start "io_trace evs (coordinator_start l)"]
  show ?thesis by (auto simp: handled_def coordinator_start_def Let_def)
qed

end
