(* ===== verification/Spec2Isabelle.thy ===== *)
theory Spec2Isabelle
  imports GC_Sha256 GC_Lifecycle GC_Serialization GC_Persistence GC_Compatibility GC_Protocol
    GC_CpuBackend GC_Recovery GC_CacheLookup GC_CacheSystem GC_Observe GC_SingleFlight GC_Distributed
    GC_CudaSystem GC_Sockets GC_SampleClient GC_Dedup GC_Cli GC_Streams
begin

text \<open>
  Graph-Cache: a content-addressed cache of captured execution graphs.

  \<^bold>\<open>The program.\<close> A client describes a computation as a graph of nodes (kernels, copies, sets) and
  edges and asks the cache for an executable of it. The cache finalizes the descriptor (sorted,
  canonical bytes, SHA-256 identity), derives the facts under which an executable may be reused,
  searches the graphs captured for the workload and, through the compatibility decision, hands out a
  lease on a matching one or captures a new one on a backend. Captured graphs are persisted in a
  checksummed store and recovered after a restart; they can be invalidated, pinned, evicted and
  replayed. A coordinator and workers speak a framed binary protocol.

  \<^bold>\<open>The theories\<close>, in the order of their imports, and the code they model.

  \<^item> \<open>GC_Prelude\<close>: machine words, byte strings, big- and little-endian bytes, decimal and hexadecimal
    printing, bit patterns of doubles, and the lemmas and collections the components share.
  \<^item> \<open>GC_Ids\<close> (\<open>include/graphcache/ids.hpp\<close>), \<open>GC_Types\<close> (\<open>types.hpp\<close>, \<open>dependencies.hpp\<close>,
    \<open>topology.hpp\<close>, \<open>src/types.cpp\<close>), \<open>GC_Result\<close> (\<open>result.hpp\<close>, \<open>src/result.cpp\<close>): identities and
    their hashes, typed descriptors and results as sums.
  \<^item> \<open>GC_Canonical\<close> (\<open>canonical.hpp\<close>) and \<open>GC_Codec\<close>: the tagged encoding \<open>CanonicalWriter\<close> and
    \<open>CanonicalReader\<close> implement, and the idioms of the decoders built on it, with their laws as
    locales that the codecs of the other theories interpret.
  \<^item> \<open>GC_Sha256\<close> (\<open>sha256.hpp\<close>): the streaming hash, equal to the padded block-wise specification.
  \<^item> \<open>GC_Lifecycle\<close> (\<open>src/lifecycle.cpp\<close>): the transition table and which states may be replayed.
  \<^item> \<open>GC_Topology\<close> (\<open>src/topology.cpp\<close>): validation of graphs, canonical encodings, finalization and
    artifact identities. Validation decides well-formedness and acyclicity; finalization does not
    depend on the order in which nodes and edges are listed. The stable sort of the model stands for
    \<open>std::sort\<close>; they agree when the identifiers are distinct, as validation demands. \<open>make_facts\<close> and the
    coordinator sort descriptors that were not validated, and there the order of equal identifiers is the
    implementation's choice.
  \<^item> \<open>GC_Compatibility\<close> (\<open>compatibility.hpp\<close>, \<open>src/compatibility.cpp\<close>): the codec of the facts, the
    compatibility key and the decision, with a closed form of when it accepts.
  \<^item> \<open>GC_Serialization\<close> (\<open>src/serialization.cpp\<close>) and \<open>GC_Persistence\<close> (\<open>src/persistence.cpp\<close>): the
    descriptor and metadata formats, envelopes and the artifact store over a directory, which
    refines a finite map whatever happens to a write.
  \<^item> \<open>GC_Protocol\<close> (\<open>protocol.hpp\<close>, \<open>src/protocol.cpp\<close>): messages, frames and the blocking read and
    write loops over the events a connection delivers. \<open>GC_Sockets\<close>: opening and closing connections over
    the operating system's socket calls (locale \<open>socket_layer\<close>), which lose no socket.
  \<^item> \<open>GC_CpuBackend\<close> (\<open>backend.hpp\<close>, \<open>src/backend.cpp\<close>, \<open>src/cpu_backend.cpp\<close>): capture into a canonical
    execution order and replay on a memory of byte buffers, where an access out of bounds is \<open>None\<close>.
  \<^item> \<open>GC_CudaBackend\<close> (\<open>src/cuda/cuda_backend.cu\<close>, and the stubs of \<open>src/backend.cpp\<close>): the kernel, the state
    of a captured CUDA graph and every operation of the backend over a runtime that is a parameter. The
    locale \<open>cuda_runtime\<close> is what CUDA documents of the calls, over a view of the live handles.
    \<open>GC_CudaReplay\<close>: what a launch computes in any order of threads and nodes, and what a graph holds from
    capture to unload, proved in that locale. \<open>GC_CudaSystem\<close>: an executable reference runtime that
    interprets it, the backend's properties, its agreement with the CPU backend and where it falls short.
  \<^item> \<open>GC_CacheTypes\<close>, \<open>GC_Cache\<close> (\<open>cache.hpp\<close>, \<open>src/cache.cpp\<close>): the state of \<open>GraphCache::Impl\<close>, with the
    shared entries and the lease tokens in an explicit heap so that aliasing between the indexes is
    kept, and every operation of the engine. The locale \<open>graph_backend\<close> is what the engine needs of a
    backend; it is interpreted on the CPU backend.
  \<^item> \<open>GC_CacheInv\<close>, \<open>GC_CacheOps\<close>: a relation of elementary steps on the engine state, the invariant
    every step keeps, and that each operation is a sequence of such steps (locale \<open>cache_engine\<close>,
    interpreted on an engine with the CPU backend).
  \<^item> \<open>GC_Recovery\<close>: the entry payload, \<open>persist_all\<close> and \<open>recover\<close>, and that a restart restores the index.
  \<^item> \<open>GC_CacheLookup\<close>: what a lookup serves, and that a capture makes the next lookup hit.
  \<^item> \<open>GC_CacheSystem\<close>: runs of the whole engine as a step relation over all operations, with other
    threads' captures in progress between them; what holds in every reachable state, and the races
    and gaps the model exposes.
  \<^item> \<open>GC_Observe\<close>: metrics, snapshots, explanations and the event log.
  \<^item> \<open>GC_SingleFlight\<close>: \<open>run_single_flight\<close> as an interleaving of any number of threads.
  \<^item> \<open>GC_Concurrent\<close>: \<open>GraphCache::lookup\<close> cut at its critical sections and composed with the single-flight
    wrapper: a step relation over any number of threads that search, capture, wait, insert and release. The
    locale \<open>shared_request\<close> is a request that can be captured, asked for by every thread. \<open>GC_LookupEnds\<close>:
    a rank that every step lowers, that somebody can always move, and what remains of a lookup at each point.
    A thread that runs alone computes the sequential \<open>lookup\<close>, so cutting the operation lost nothing.
  \<^item> \<open>GC_Chain\<close>: graphs of a copy and a kernel, which the sample programs use. \<open>GC_Examples\<close> (\<open>examples/common.hpp\<close>
    and the programs of \<open>examples/\<close> over the CPU backend): each program as a function from the machine to its
    exit code. \<open>GC_ExampleRuns\<close>, \<open>GC_RestartRuns\<close>: they exit with 0 (locales \<open>cpu_machine\<close> and \<open>disk_machine\<close>).
    \<open>GC_Dedup\<close> (\<open>examples/concurrent_dedup.cpp\<close>): the program with eight threads, whose exit code depends on
    the schedule, and the properties of concurrent lookups.
  \<^item> \<open>GC_Cli\<close> (\<open>cli/main.cpp\<close>): the command line tool, from arguments to exit code and printed text.
  \<^item> \<open>GC_Coordinator\<close> (\<open>tools/coordinator_main.cpp\<close>): the coordinator's state, one handler per type of
    message, the cutting of a connection's bytes into frames and the main loop over what \<open>select\<close>,
    \<open>accept\<close> and \<open>recv\<close> report; runs over sequences of inputs and the invariant of the state.
  \<^item> \<open>GC_Authority\<close>: chunking of a connection's bytes does not matter, a capture completes at most once,
    invalidation is a fence, late completions are refused and replays are routed to live graphs only.
    The locale \<open>run_invariant\<close> carries a property of the state along a run. \<open>GC_Streams\<close>: the main loop is the
    run over exactly the frames that the streams of its connections carry.
  \<^item> \<open>GC_Worker\<close> (\<open>tools/worker_main.cpp\<close>): the worker's payload codecs, capture and replay instructions
    and main loop, over any backend.
  \<^item> \<open>GC_Distributed\<close> (with the client of \<open>examples/distributed_client.cpp\<close>): client, coordinator and
    worker together: a lookup and a replay answered end to end. \<open>GC_SampleClient\<close>: the client's program,
    which exits with success when it is run against the two.

  \<^bold>\<open>Conventions.\<close> Integers keep their width (\<open>u8\<close> to \<open>u64\<close> are words and wrap around); doubles and
  floats are bit patterns, and binary32 arithmetic is a parameter of replay. Strings are lists of
  characters and byte vectors lists of words. A \<open>Result<T>\<close> is a sum; undefined behaviour and thrown
  exceptions are the value \<open>None\<close>. The iteration order of unordered containers, the clocks, the
  backend, the outcome of file operations and the contents a directory scan reports are parameters,
  and the theorems hold for all of them under the hypotheses they state. No definition uses fuel: the
  loops recurse on their data or on a measure.

  In \<open>GC_Cache\<close> an operation of the engine is atomic. The code takes its locks several times within one
  operation; capture is therefore split into \<open>capture_begin\<close>, \<open>capture_check\<close> and \<open>capture_insert\<close>, the
  single-flight wrapper is modelled thread by thread, and \<open>GC_Concurrent\<close> interleaves whole lookups at
  these points. A search stays one step there, together with the counters it touches. This is an
  abstraction: the code holds the registry lock only for the scan, while loading the executable, the check
  after it and the making of the lease follow outside the lock. Other operations than lookups and
  releases do not interleave with them.

  \<^bold>\<open>Not modelled.\<close> The CUDA runtime and the operating system's sockets themselves (parameters), the
  system clock, spawning of processes, benchmarks, tests and the sample program over CUDA. What the sample
  programs print is left out. The end-to-end theorems follow one request from a state with a worker on duty; the theorems of
  \<open>GC_Authority\<close> hold for every interleaving of inputs.
\<close>

end
